(* ===== verification/Prelude.thy ===== *)
theory Prelude
  imports Complex_Main "HOL-Library.Word" "HOL-Library.Sublist"
begin

text \<open>
  What the components share: names for the machine integers of the sources, the exceptions
  they throw, the state-and-exception discipline in which the hardware and control code is
  written, and generic lemmas on lists.
\<close>

unbundle bit_operations_syntax

type_synonym u8 = "8 word"
type_synonym u16 = "16 word"
type_synonym u32 = "32 word"
type_synonym u64 = "64 word"

text \<open>
  \<open>i16\<close> and \<open>i64\<close> are the two's complement readings of the same words
  (\<open>std::int16_t\<close>, \<open>Poco::Int64\<close>): \<open>sint\<close> reads their value.
\<close>

type_synonym i16 = "16 word"
type_synonym i64 = "64 word"

named_theorems io_simps \<open>unfolding of the state-and-exception operations\<close>
named_theorems driver_simps \<open>the register driver on a register-file bus\<close>
named_theorems rt_frames \<open>which fields an operation of the runtime leaves alone\<close>

section \<open>Exceptions\<close>

text \<open>
  The exception classes the sources throw or distinguish in a \<open>catch\<close>, each with its
  message. \<open>StdException\<close> stands for everything that is not a \<open>Poco::Exception\<close>; the exceptions of the
  bundle framework carry their class.
\<close>

datatype osp_class =
    BundleStateException
  | BundleResolveException
  | BundleUninstallException
  | BundleInstallException
  | BundleLoadException
  | BundleVersionConflictException
  | BundleSealedException
  | BundleException
  | ManifestException

datatype exc =
    InvalidArgumentException string
  | InvalidAccessException string
  | NotFoundException string
  | IOException string
  | FileNotFoundException string
  | FileException string
  | SyntaxException string
  | OspException osp_class string
  | PocoException string
  | StdException string

primrec exc_message :: "exc \<Rightarrow> string" where
  "exc_message (InvalidArgumentException m) = m"
| "exc_message (InvalidAccessException m) = m"
| "exc_message (NotFoundException m) = m"
| "exc_message (IOException m) = m"
| "exc_message (FileNotFoundException m) = m"
| "exc_message (FileException m) = m"
| "exc_message (SyntaxException m) = m"
| "exc_message (OspException c m) = m"
| "exc_message (PocoException m) = m"
| "exc_message (StdException m) = m"

section \<open>State and exceptions\<close>

text \<open>
  A statement of the sources takes the state and either throws or returns a value; what it
  did to the state before it threw stays done.
\<close>

type_synonym ('s, 'a) io = "'s \<Rightarrow> (exc + 'a) \<times> 's"

definition io_ret :: "'a \<Rightarrow> ('s, 'a) io" where
  "io_ret x s = (Inr x, s)"

definition io_throw :: "exc \<Rightarrow> ('s, 'a) io" where
  "io_throw e s = (Inl e, s)"

definition io_bind :: "('s, 'a) io \<Rightarrow> ('a \<Rightarrow> ('s, 'b) io) \<Rightarrow> ('s, 'b) io" where
  "io_bind m f s = (case m s of (Inl e, s') \<Rightarrow> (Inl e, s') | (Inr x, s') \<Rightarrow> f x s')"

definition io_seq :: "('s, 'a) io \<Rightarrow> ('s, 'b) io \<Rightarrow> ('s, 'b) io" where
  "io_seq m n = io_bind m (\<lambda>_. n)"

definition io_lift :: "exc + 'a \<Rightarrow> ('s, 'a) io" where
  "io_lift r s = (r, s)"

primrec io_each :: "('a \<Rightarrow> ('s, unit) io) \<Rightarrow> 'a list \<Rightarrow> ('s, unit) io" where
  "io_each f [] = io_ret ()"
| "io_each f (x # xs) = io_seq (f x) (io_each f xs)"

primrec io_collect :: "('a \<Rightarrow> ('s, 'b) io) \<Rightarrow> 'a list \<Rightarrow> ('s, 'b list) io" where
  "io_collect f [] = io_ret []"
| "io_collect f (x # xs) = io_bind (f x) (\<lambda>y. io_bind (io_collect f xs) (\<lambda>ys. io_ret (y # ys)))"

lemmas io_defs [io_simps] = io_ret_def io_throw_def io_bind_def io_seq_def io_lift_def

lemma io_bind_Inr: "m s = (Inr x, s') \<Longrightarrow> io_bind m f s = f x s'"
  by (simp add: io_bind_def)

lemma io_bind_Inl: "m s = (Inl e, s') \<Longrightarrow> io_bind m f s = (Inl e, s')"
  by (simp add: io_bind_def)

lemma io_seq_Inr: "m s = (Inr x, s') \<Longrightarrow> io_seq m n s = n s'"
  by (simp add: io_seq_def io_bind_def)

lemma io_seq_Inl: "m s = (Inl e, s') \<Longrightarrow> io_seq m n s = (Inl e, s')"
  by (simp add: io_seq_def io_bind_def)

lemma io_lift_run [simp]: "io_lift r s = (r, s)"
  by (simp add: io_lift_def)

lemma io_ret_run [simp]: "io_ret x s = (Inr x, s)"
  by (simp add: io_ret_def)

lemma io_bind_cases:
  assumes "io_bind m f s = (r, t)"
  obtains (threw) e where "m s = (Inl e, t)" "r = Inl e"
    | (returned) x u where "m s = (Inr x, u)" "f x u = (r, t)"
  using assms by (auto simp: io_bind_def split: prod.splits sum.splits)

text \<open>A property of the state that every statement keeps is kept by their composition.\<close>

definition io_keeps :: "('s \<Rightarrow> bool) \<Rightarrow> ('s, 'a) io \<Rightarrow> bool" where
  "io_keeps P m \<longleftrightarrow> (\<forall>s. P s \<longrightarrow> P (snd (m s)))"

lemma io_keeps_ret [intro]: "io_keeps P (io_ret x)"
  by (simp add: io_keeps_def io_ret_def)

lemma io_keeps_throw [intro]: "io_keeps P (io_throw e)"
  by (simp add: io_keeps_def io_throw_def)

lemma io_keeps_lift [intro]: "io_keeps P (io_lift r)"
  by (simp add: io_keeps_def io_lift_def)

lemma io_keeps_bind [intro]:
  assumes "io_keeps P m" and "\<And>x. io_keeps P (f x)"
  shows "io_keeps P (io_bind m f)"
  using assms by (fastforce simp: io_keeps_def io_bind_def split: prod.splits sum.splits)

lemma io_keeps_seq [intro]: "io_keeps P m \<Longrightarrow> io_keeps P n \<Longrightarrow> io_keeps P (io_seq m n)"
  by (auto simp: io_seq_def)

lemma io_keeps_each: "(\<And>x. x \<in> set xs \<Longrightarrow> io_keeps P (f x)) \<Longrightarrow> io_keeps P (io_each f xs)"
  by (induction xs) auto

section \<open>Statements that may not return\<close>

text \<open>
  Code with a loop whose end is not its own decision: \<open>None\<close> means that it does not return.
\<close>

type_synonym ('s, 'a) prog = "'s \<Rightarrow> ((exc + 'a) \<times> 's) option"

definition p_ret :: "'a \<Rightarrow> ('s, 'a) prog" where
  "p_ret x s = Some (Inr x, s)"

definition p_throw :: "exc \<Rightarrow> ('s, 'a) prog" where
  "p_throw e s = Some (Inl e, s)"

definition p_bind :: "('s, 'a) prog \<Rightarrow> ('a \<Rightarrow> ('s, 'b) prog) \<Rightarrow> ('s, 'b) prog" where
  "p_bind m f s = (case m s of
      None \<Rightarrow> None
    | Some (Inl e, s') \<Rightarrow> Some (Inl e, s')
    | Some (Inr x, s') \<Rightarrow> f x s')"

definition p_seq :: "('s, 'a) prog \<Rightarrow> ('s, 'b) prog \<Rightarrow> ('s, 'b) prog" where
  "p_seq m n = p_bind m (\<lambda>_. n)"

definition p_get :: "('s \<Rightarrow> 'a) \<Rightarrow> ('s, 'a) prog" where
  "p_get f s = Some (Inr (f s), s)"

definition p_modify :: "('s \<Rightarrow> 's) \<Rightarrow> ('s, unit) prog" where
  "p_modify f s = Some (Inr (), f s)"

definition p_lift :: "exc + 'a \<Rightarrow> ('s, 'a) prog" where
  "p_lift r s = Some (r, s)"

definition p_io :: "('s, 'a) io \<Rightarrow> ('s, 'a) prog" where
  "p_io m s = Some (m s)"

text \<open>\<open>try { m } catch (e) { h }\<close>\<close>

definition p_catch :: "('s, 'a) prog \<Rightarrow> (exc \<Rightarrow> ('s, 'a) prog) \<Rightarrow> ('s, 'a) prog" where
  "p_catch m h s = (case m s of
      None \<Rightarrow> None
    | Some (Inl e, s') \<Rightarrow> h e s'
    | Some (Inr x, s') \<Rightarrow> Some (Inr x, s'))"

named_theorems prog_simps \<open>running statements that may not return\<close>

lemma prog_run [simp, prog_simps]:
  "p_ret x s = Some (Inr x, s)" "p_throw e s = Some (Inl e, s)" "p_get f s = Some (Inr (f s), s)"
  "p_modify g s = Some (Inr (), g s)" "p_lift r s = Some (r, s)" "p_io m s = Some (m s)"
  by (simp_all add: p_ret_def p_throw_def p_get_def p_modify_def p_lift_def p_io_def)

lemma p_bind_run [simp, prog_simps]:
  "m s = None \<Longrightarrow> p_bind m f s = None"
  "m s = Some (Inl e, s') \<Longrightarrow> p_bind m f s = Some (Inl e, s')"
  "m s = Some (Inr x, s') \<Longrightarrow> p_bind m f s = f x s'"
  by (simp_all add: p_bind_def)

lemma p_seq_run [simp, prog_simps]:
  "m s = None \<Longrightarrow> p_seq m n s = None"
  "m s = Some (Inl e, s') \<Longrightarrow> p_seq m n s = Some (Inl e, s')"
  "m s = Some (Inr x, s') \<Longrightarrow> p_seq m n s = n s'"
  by (simp_all add: p_seq_def)

lemma p_catch_run [simp, prog_simps]:
  "m s = None \<Longrightarrow> p_catch m h s = None"
  "m s = Some (Inl e, s') \<Longrightarrow> p_catch m h s = h e s'"
  "m s = Some (Inr x, s') \<Longrightarrow> p_catch m h s = Some (Inr x, s')"
  by (simp_all add: p_catch_def)

lemma p_bind_cases:
  assumes "p_bind m f s = Some (r, t)"
  obtains (threw) e where "m s = Some (Inl e, t)" "r = Inl e"
    | (returned) x u where "m s = Some (Inr x, u)" "f x u = Some (r, t)"
proof (cases "m s")
  case None
  then show thesis using assms by simp
next
  case (Some ru)
  obtain r' u where ru: "ru = (r', u)" by fastforce
  show thesis
  proof (cases r')
    case (Inl e)
    then show thesis using Some ru assms by (intro threw [of e]) simp_all
  next
    case (Inr x)
    then show thesis using Some ru assms by (intro returned [of x u]) simp_all
  qed
qed

lemma p_catch_cases:
  assumes "p_catch m h s = Some (r, t)"
  obtains (caught) e u where "m s = Some (Inl e, u)" "h e u = Some (r, t)"
    | (returned) x where "m s = Some (Inr x, t)" "r = Inr x"
proof (cases "m s")
  case None
  then show thesis using assms by simp
next
  case (Some ru)
  obtain r' u where ru: "ru = (r', u)" by fastforce
  show thesis
  proof (cases r')
    case (Inl e)
    then show thesis using Some ru assms by (intro caught [of e u]) simp_all
  next
    case (Inr x)
    then show thesis using Some ru assms by (intro returned [of x]) simp_all
  qed
qed

text \<open>A relation between the states before and after, whenever the statement returns or throws.\<close>

definition p_keeps :: "('s \<Rightarrow> bool) \<Rightarrow> ('s, 'a) prog \<Rightarrow> bool" where
  "p_keeps P m \<longleftrightarrow> (\<forall>s r s'. P s \<longrightarrow> m s = Some (r, s') \<longrightarrow> P s')"

lemma p_keepsD: "p_keeps P m \<Longrightarrow> P s \<Longrightarrow> m s = Some (r, s') \<Longrightarrow> P s'"
  by (auto simp: p_keeps_def)

lemma p_keeps_basic [intro]:
  "p_keeps P (p_ret x)" "p_keeps P (p_throw e)" "p_keeps P (p_get f)" "p_keeps P (p_lift r)"
  by (auto simp: p_keeps_def)

lemma p_keeps_modify: "(\<And>s. P s \<Longrightarrow> P (f s)) \<Longrightarrow> p_keeps P (p_modify f)"
  by (auto simp: p_keeps_def)

lemma p_keeps_io: "io_keeps P m \<Longrightarrow> p_keeps P (p_io m)"
  by (auto simp: p_keeps_def io_keeps_def prod_eq_iff)

lemma p_keeps_bind [intro]:
  assumes "p_keeps P m" and "\<And>x. p_keeps P (f x)"
  shows "p_keeps P (p_bind m f)"
  unfolding p_keeps_def
proof (intro allI impI)
  fix s r s' assume "P s" and run: "p_bind m f s = Some (r, s')"
  from run show "P s'"
  proof (cases rule: p_bind_cases)
    case (threw e)
    then show ?thesis using assms(1) \<open>P s\<close> by (blast dest: p_keepsD)
  next
    case (returned x u)
    have "P u" using assms(1) \<open>P s\<close> returned(1) by (rule p_keepsD)
    with assms(2) show ?thesis using returned(2) by (rule p_keepsD)
  qed
qed

lemma p_keeps_seq [intro]: "p_keeps P m \<Longrightarrow> p_keeps P n \<Longrightarrow> p_keeps P (p_seq m n)"
  by (auto simp: p_seq_def)

lemma p_keeps_catch [intro]:
  assumes "p_keeps P m" and "\<And>e. p_keeps P (h e)"
  shows "p_keeps P (p_catch m h)"
  unfolding p_keeps_def
proof (intro allI impI)
  fix s r s' assume "P s" and run: "p_catch m h s = Some (r, s')"
  from run show "P s'"
  proof (cases rule: p_catch_cases)
    case (caught e u)
    have "P u" using assms(1) \<open>P s\<close> caught(1) by (rule p_keepsD)
    with assms(2) show ?thesis using caught(2) by (rule p_keepsD)
  next
    case (returned x)
    show ?thesis using assms(1) \<open>P s\<close> returned(1) by (rule p_keepsD)
  qed
qed

lemma p_keeps_if [intro]: "p_keeps P m \<Longrightarrow> p_keeps P n \<Longrightarrow> p_keeps P (if b then m else n)"
  by simp

section \<open>Masks\<close>

lemma less_8_cases: "n < 8 \<Longrightarrow> n = 0 \<or> n = 1 \<or> n = 2 \<or> n = 3 \<or> n = 4 \<or> n = 5 \<or> n = 6 \<or> n = (7::nat)"
  by auto

lemma and_low_masks:
  "(x :: 'a::len word) AND 3 = take_bit 2 x" "x AND 0x7F = take_bit 7 x" "x AND 0xFF = take_bit 8 x"
  by (simp_all add: take_bit_eq_mask mask_eq_exp_minus_1)

lemma uint_take_bit_less: "uint (take_bit k (w :: 'a::len word)) < 2 ^ k"
proof -
  have "uint (take_bit k w) = take_bit k (uint w)" by (rule unsigned_take_bit_eq)
  also have "\<dots> < 2 ^ k" by (rule take_bit_int_less_exp)
  finally show ?thesis .
qed

lemma small_int_take_bit:
  assumes "0 \<le> d" and "d < 2 ^ k" and "k \<le> 31"
  shows "uint (take_bit k (word_of_int d :: 32 word)) = d"
proof -
  have "(2::int) ^ k \<le> 2 ^ 31" using assms(3) by (intro power_increasing) auto
  then have "uint (word_of_int d :: 32 word) = d"
    using assms by (simp add: uint_word_of_int)
  moreover have "uint (take_bit k (word_of_int d :: 32 word)) = take_bit k (uint (word_of_int d :: 32 word))"
    by (rule unsigned_take_bit_eq)
  ultimately show ?thesis
    using assms by (simp add: take_bit_int_eq_self)
qed

text \<open>Writing \<open>v\<close> under the mask \<open>m\<close> keeps what another masked write left, if the two agree.\<close>

lemma masked_write_keeps:
  fixes x m v m' v' :: "'a::len word"
  assumes "x AND m' = v' AND m'" and "(m AND m') AND (v XOR v') = 0"
  shows "((x AND NOT m) OR (v AND m)) AND m' = v' AND m'"
proof (rule bit_word_eqI)
  fix n assume n: "n < LENGTH('a)"
  have "bit (x AND m') n = bit (v' AND m') n" and "\<not> bit ((m AND m') AND (v XOR v')) n"
    using assms by simp_all
  then show "bit (((x AND NOT m) OR (v AND m)) AND m') n = bit (v' AND m') n"
    using n by (auto simp: bit_simps)
qed

lemma masked_write_sets:
  fixes x m v :: "'a::len word"
  shows "((x AND NOT m) OR (v AND m)) AND m = v AND m"
  by (rule bit_word_eqI) (auto simp: bit_simps)

section \<open>Lists\<close>

text \<open>
  \<open>push_back\<close> followed by \<open>while (size > limit) pop_front\<close>, the bounded windows of the
  sources.
\<close>

fun pop_front_while :: "nat \<Rightarrow> 'a list \<Rightarrow> 'a list" where
  "pop_front_while limit [] = []"
| "pop_front_while limit (x # xs) = (if limit < length (x # xs) then pop_front_while limit xs else x # xs)"

lemma pop_front_while_drop: "pop_front_while limit xs = drop (length xs - limit) xs"
proof (induction xs)
  case Nil
  then show ?case by simp
next
  case (Cons x xs)
  then show ?case
    by (cases "limit < length (x # xs)") (auto simp: Suc_diff_le)
qed

lemma length_pop_front_while: "length (pop_front_while limit xs) = min limit (length xs)"
  by (simp add: pop_front_while_drop)

lemma replicate_minus_Suc: "n < k \<Longrightarrow> replicate (k - n) x = x # replicate (k - Suc n) x"
  by (metis Suc_diff_Suc replicate_Suc)

lemma take_while_append_stop:
  "(\<And>x. x \<in> set xs \<Longrightarrow> P x) \<Longrightarrow> (ys = [] \<or> \<not> P (hd ys)) \<Longrightarrow> takeWhile P (xs @ ys) = xs"
  by (induction xs) (cases ys, auto)

lemma drop_while_append_stop:
  "(\<And>x. x \<in> set xs \<Longrightarrow> P x) \<Longrightarrow> (ys = [] \<or> \<not> P (hd ys)) \<Longrightarrow> dropWhile P (xs @ ys) = ys"
  by (induction xs) (cases ys, auto)

text \<open>A loop that overwrites one element after the other.\<close>

lemma length_update_loop: "length (foldl (\<lambda>s i. s[i := g i (s ! i)]) xs is) = length xs"
  by (induction "is" arbitrary: xs) simp_all

lemma nth_update_loop:
  "k < length xs \<Longrightarrow> foldl (\<lambda>s i. s[i := g i (s ! i)]) xs [0..<m] ! k = (if k < m then g k (xs ! k) else xs ! k)"
  by (induction m) (auto simp: nth_list_update less_Suc_eq length_update_loop)

lemma length_update_pair_loop:
  "length (foldl (\<lambda>s i. s[i * 2 := f i, i * 2 + 1 := g i]) xs is) = length xs"
  by (induction "is" arbitrary: xs) simp_all

lemma nth_update_pair_loop:
  assumes "k < length xs"
  shows "foldl (\<lambda>s i. s[i * 2 := f i, i * 2 + 1 := g i]) xs [0..<m] ! k =
    (if k div 2 < m then if even k then f (k div 2) else g (k div 2) else xs ! k)"
proof (induction m)
  case 0
  then show ?case by simp
next
  case (Suc m)
  let ?xs = "foldl (\<lambda>s i. s[i * 2 := f i, i * 2 + 1 := g i]) xs [0..<m]"
  have step: "foldl (\<lambda>s i. s[i * 2 := f i, i * 2 + 1 := g i]) xs [0..<Suc m] = ?xs[m * 2 := f m, m * 2 + 1 := g m]"
    by simp
  have len: "length ?xs = length xs" by (rule length_update_pair_loop)
  consider "k = m * 2" | "k = m * 2 + 1" | "k \<noteq> m * 2" "k \<noteq> m * 2 + 1" by blast
  then show ?case
  proof cases
    case 1
    then show ?thesis unfolding step using assms len by simp
  next
    case 2
    then show ?thesis unfolding step using assms len by simp
  next
    case 3
    then have "k div 2 \<noteq> m" by presburger
    then have "k div 2 < Suc m \<longleftrightarrow> k div 2 < m" by linarith
    then show ?thesis
      unfolding step using 3 Suc.IH by simp
  qed
qed

end
