(* ===== verification/CppText.thy ===== *)
theory CppText
  imports Prelude
begin

text \<open>
  The text facilities of the C++ standard library the sources use: decimal output of
  integers, \<open>std::stoi\<close> and \<open>std::stoull\<close>, \<open>std::getline\<close>, \<open>std::string::find\<close>
  and the extraction of words from a stream; then the two strict number parsers of
  \<open>AcquisitionDividerState.cpp\<close> built on them.
\<close>

section \<open>Characters\<close>

definition c_isspace :: "char \<Rightarrow> bool" where
  "c_isspace c \<longleftrightarrow> c = CHR '' '' \<or> c = CHR 0x09 \<or> c = CHR 0x0A \<or> c = CHR 0x0B \<or> c = CHR 0x0C \<or> c = CHR 0x0D"

definition c_isdigit :: "char \<Rightarrow> bool" where
  "c_isdigit c \<longleftrightarrow> 48 \<le> (of_char c :: nat) \<and> (of_char c :: nat) \<le> 57"

definition digit_value :: "char \<Rightarrow> nat" where
  "digit_value c = of_char c - 48"

definition digit_char :: "nat \<Rightarrow> char" where
  "digit_char d = char_of (48 + d)"

lemma digit_char_value: "d < 10 \<Longrightarrow> digit_value (digit_char d) = d"
  by (simp add: digit_value_def digit_char_def)

lemma digit_char_isdigit: "d < 10 \<Longrightarrow> c_isdigit (digit_char d)"
  by (simp add: c_isdigit_def digit_char_def)

lemma isdigit_not_isspace: "c_isdigit c \<Longrightarrow> \<not> c_isspace c"
  by (auto simp: c_isdigit_def c_isspace_def)

lemma isdigit_not_sign: "c_isdigit c \<Longrightarrow> c \<noteq> CHR ''-'' \<and> c \<noteq> CHR ''+''"
  by (auto simp: c_isdigit_def)

section \<open>Decimal output\<close>

fun show_nat :: "nat \<Rightarrow> string" where
  "show_nat n = (if n < 10 then [digit_char n] else show_nat (n div 10) @ [digit_char (n mod 10)])"

declare show_nat.simps [simp del]

definition show_int :: "int \<Rightarrow> string" where
  "show_int i = (if i < 0 then CHR ''-'' # show_nat (nat (- i)) else show_nat (nat i))"

definition read_digits :: "string \<Rightarrow> nat" where
  "read_digits ds = foldl (\<lambda>a c. 10 * a + digit_value c) 0 ds"

lemma show_nat_nonempty [simp]: "show_nat n \<noteq> []"
  by (subst show_nat.simps) simp

lemma show_nat_digits: "c \<in> set (show_nat n) \<Longrightarrow> c_isdigit c"
proof (induction n rule: show_nat.induct)
  case (1 n)
  then show ?case
    by (subst (asm) (2) show_nat.simps) (auto simp: digit_char_isdigit split: if_splits)
qed

lemma read_show_nat: "read_digits (show_nat n) = n"
proof (induction n rule: show_nat.induct)
  case (1 n)
  then show ?case
    by (subst show_nat.simps) (auto simp: read_digits_def digit_char_value)
qed

section \<open>std::stoi and std::stoull\<close>

text \<open>
  \<open>strtol\<close>/\<open>strtoull\<close> in base 10: skip white space, an optional sign, then the longest run
  of digits. \<open>None\<close> when there is no digit (\<open>std::invalid_argument\<close>); otherwise the sign, the
  magnitude and the number of characters consumed.
\<close>

definition strto_scan :: "string \<Rightarrow> (bool \<times> nat \<times> nat) option" where
  "strto_scan text =
     (let ws = takeWhile c_isspace text;
          r0 = drop (length ws) text;
          neg = (r0 \<noteq> [] \<and> hd r0 = CHR ''-'');
          sgn = (if r0 \<noteq> [] \<and> (hd r0 = CHR ''-'' \<or> hd r0 = CHR ''+'') then 1 else 0);
          ds = takeWhile c_isdigit (drop sgn r0)
      in if ds = [] then None
         else Some (neg, read_digits ds, length ws + sgn + length ds))"

text \<open>\<open>None\<close> stands for either exception of the standard functions; both are caught alike.\<close>

definition std_stoi :: "string \<Rightarrow> (int \<times> nat) option" where
  "std_stoi text =
     (case strto_scan text of
        None \<Rightarrow> None
      | Some (neg, m, pos) \<Rightarrow>
          (let v = (if neg then - int m else int m)
           in if - (2 ^ 31) \<le> v \<and> v < 2 ^ 31 then Some (v, pos) else None))"

text \<open>
  \<open>strtoull\<close> accepts a minus sign and negates in the unsigned type; only the magnitude is
  checked against \<open>ULLONG_MAX\<close>.
\<close>

definition std_stoull :: "string \<Rightarrow> (u64 \<times> nat) option" where
  "std_stoull text =
     (case strto_scan text of
        None \<Rightarrow> None
      | Some (neg, m, pos) \<Rightarrow>
          (if m < 2 ^ 64 then Some (if neg then - of_nat m else of_nat m, pos) else None))"

section \<open>The strict parsers\<close>

definition parseIntStrict :: "string \<Rightarrow> int option" where
  "parseIntStrict text =
     (if text = [] then None
      else case std_stoi text of
             None \<Rightarrow> None
           | Some (parsed, pos) \<Rightarrow> (if pos \<noteq> length text then None else Some parsed))"

definition parseUInt64Strict :: "string \<Rightarrow> u64 option" where
  "parseUInt64Strict text =
     (if text = [] then None
      else case std_stoull text of
             None \<Rightarrow> None
           | Some (parsed, pos) \<Rightarrow> (if pos \<noteq> length text then None else Some parsed))"

lemma takeWhile_all: "(\<And>c. c \<in> set s \<Longrightarrow> P c) \<Longrightarrow> takeWhile P s = s"
  by (induction s) auto

lemma strto_scan_show_nat: "strto_scan (show_nat n) = Some (False, n, length (show_nat n))"
proof -
  obtain c cs where s: "show_nat n = c # cs"
    using show_nat_nonempty by (meson neq_Nil_conv)
  have c: "c_isdigit c" using show_nat_digits [of c n] s by simp
  have ws: "takeWhile c_isspace (show_nat n) = []"
    using s c isdigit_not_isspace by auto
  have ds: "takeWhile c_isdigit (show_nat n) = show_nat n"
    by (rule takeWhile_all) (rule show_nat_digits)
  show ?thesis
    using ws ds isdigit_not_sign [OF c] s
    by (simp add: strto_scan_def read_show_nat [of n, unfolded s] Let_def)
qed

lemma strto_scan_minus:
  "strto_scan (CHR ''-'' # show_nat n) = Some (True, n, Suc (length (show_nat n)))"
proof -
  have ds: "takeWhile c_isdigit (show_nat n) = show_nat n"
    by (rule takeWhile_all) (rule show_nat_digits)
  show ?thesis
    by (simp add: strto_scan_def c_isspace_def ds read_show_nat)
qed

lemma parseIntStrict_show_int:
  assumes "- (2 ^ 31) \<le> i" and "i < 2 ^ 31"
  shows "parseIntStrict (show_int i) = Some i"
  using assms
  by (auto simp: parseIntStrict_def show_int_def std_stoi_def strto_scan_show_nat strto_scan_minus)

lemma parseUInt64Strict_show_nat: "parseUInt64Strict (show_nat (unat (v :: u64))) = Some v"
proof -
  have "unat v < 2 ^ LENGTH(64)" by (rule unsigned_less)
  then show ?thesis
    by (simp add: parseUInt64Strict_def std_stoull_def strto_scan_show_nat)
qed

lemma parseIntStrict_range: "parseIntStrict s = Some i \<Longrightarrow> - (2 ^ 31) \<le> i \<and> i < 2 ^ 31"
  by (auto simp: parseIntStrict_def std_stoi_def Let_def split: option.splits if_splits prod.splits)

section \<open>Lines, separators and words\<close>

text \<open>
  The lines \<open>while (std::getline(input, line))\<close> delivers: text after the last newline is a line
  only if it is not empty.
\<close>

fun getlines_aux :: "string \<Rightarrow> string \<Rightarrow> string list" where
  "getlines_aux acc [] = (if acc = [] then [] else [acc])"
| "getlines_aux acc (c # cs) =
     (if c = CHR 0x0A then acc # getlines_aux [] cs else getlines_aux (acc @ [c]) cs)"

definition getlines :: "string \<Rightarrow> string list" where
  "getlines text = getlines_aux [] text"

lemma getlines_aux_line:
  "CHR 0x0A \<notin> set l \<Longrightarrow> getlines_aux acc (l @ CHR 0x0A # rest) = (acc @ l) # getlines_aux [] rest"
  by (induction l arbitrary: acc) auto

lemma getlines_line: "CHR 0x0A \<notin> set l \<Longrightarrow> getlines (l @ CHR 0x0A # rest) = l # getlines rest"
  by (simp add: getlines_def getlines_aux_line)

text \<open>\<open>std::string::find\<close> of a character: \<open>None\<close> is \<open>npos\<close>.\<close>

fun find_char :: "char \<Rightarrow> string \<Rightarrow> nat option" where
  "find_char c [] = None"
| "find_char c (x # xs) = (if x = c then Some 0 else map_option Suc (find_char c xs))"

lemma find_char_append: "c \<notin> set xs \<Longrightarrow> find_char c (xs @ c # ys) = Some (length xs)"
  by (induction xs) auto

lemma find_char_None: "find_char c xs = None \<longleftrightarrow> c \<notin> set xs"
  by (induction xs) auto

text \<open>\<open>stream >> word\<close>: skip white space, then the longest run without white space.\<close>

definition extract_word :: "string \<Rightarrow> (string \<times> string) option" where
  "extract_word s =
     (let r = dropWhile c_isspace s; w = takeWhile (\<lambda>c. \<not> c_isspace c) r
      in if w = [] then None else Some (w, drop (length w) r))"

end
