(* ===== verification/PocoApi.thy ===== *)
theory PocoApi
  imports CppText
begin

text \<open>
  The POCO library is not part of the repository: what the sources call of it is a parameter
  of the model, collected in one record, and what they rely on is a named predicate over that
  record. JSON documents are data (\<open>Poco::JSON::Object\<close> and \<open>Array\<close> as the sources build
  them); their conversions and their text form belong to the library.
\<close>

section \<open>JSON documents\<close>

datatype json =
    JNull
  | JBool bool
  | JInt int
  | JReal rat
  | JStr string
  | JArr "json list"
  | JObj "(string \<times> json) list"

text \<open>\<open>Object::set\<close> replaces the value of a key, or adds the key.\<close>

fun obj_set :: "(string \<times> json) list \<Rightarrow> string \<Rightarrow> json \<Rightarrow> (string \<times> json) list" where
  "obj_set [] k v = [(k, v)]"
| "obj_set ((k', v') # o') k v = (if k' = k then (k, v) # o' else (k', v') # obj_set o' k v)"

definition obj_get :: "(string \<times> json) list \<Rightarrow> string \<Rightarrow> json option" where
  "obj_get o' k = map_of o' k"

lemma obj_get_set: "obj_get (obj_set o' k v) k' = (if k' = k then Some v else obj_get o' k')"
  by (induction o' k v rule: obj_set.induct) (auto simp: obj_get_def)

lemma obj_get_set_same [simp]: "obj_get (obj_set o' k v) k = Some v"
  by (simp add: obj_get_set)

section \<open>The library's functions\<close>

record poco =
  p_trim :: "string \<Rightarrow> string"                      \<comment> \<open>\<open>Poco::trimInPlace\<close>\<close>
  p_displayText :: "exc \<Rightarrow> string"                  \<comment> \<open>\<open>Poco::Exception::displayText\<close>\<close>
  p_format_addr :: "u8 \<Rightarrow> string"                   \<comment> \<open>\<open>Poco::format("0x%02x", \<dots>)\<close>\<close>
  p_format_range :: "string \<Rightarrow> int \<Rightarrow> string"       \<comment> \<open>\<open>Poco::format("Divider for %s must be in 1..%d.", \<dots>)\<close>\<close>
  p_format_unsafe :: "rat \<Rightarrow> nat \<Rightarrow> string"         \<comment> \<open>\<open>Poco::format("Acquisition remains stopped \<dots>", \<dots>)\<close>\<close>
  p_stringify :: "json \<Rightarrow> string"                    \<comment> \<open>\<open>JSON::Stringifier::stringify\<close>\<close>
  p_parse :: "string \<Rightarrow> exc + (string \<times> json) list" \<comment> \<open>\<open>JSON::Parser::parse\<close>, \<open>extract<Object::Ptr>\<close>\<close>
  p_convertString :: "json \<Rightarrow> exc + string"          \<comment> \<open>\<open>Var::convert<std::string>\<close>\<close>
  p_getString :: "(string \<times> json) list \<Rightarrow> string \<Rightarrow> exc + string"     \<comment> \<open>\<open>Object::getValue<std::string>\<close>\<close>
  p_getInt :: "(string \<times> json) list \<Rightarrow> string \<Rightarrow> exc + int"           \<comment> \<open>\<open>Object::getValue<int>\<close>\<close>
  p_getUInt64 :: "(string \<times> json) list \<Rightarrow> string \<Rightarrow> exc + u64"        \<comment> \<open>\<open>Object::getValue<UInt64>\<close>\<close>
  p_getArray :: "(string \<times> json) list \<Rightarrow> string \<Rightarrow> json list option"  \<comment> \<open>\<open>Object::getArray\<close>, \<open>None\<close> for null\<close>
  p_elementInt :: "json \<Rightarrow> exc + int"                \<comment> \<open>\<open>Array::getElement<int>\<close>\<close>
  p_optString :: "(string \<times> json) list \<Rightarrow> string \<Rightarrow> string \<Rightarrow> string" \<comment> \<open>\<open>Object::optValue<std::string>\<close>\<close>
  p_optBool :: "(string \<times> json) list \<Rightarrow> string \<Rightarrow> bool \<Rightarrow> bool"       \<comment> \<open>\<open>Object::optValue<bool>\<close>\<close>

text \<open>
  What the sources rely on of the accessors: a member of the requested type is returned as it is,
  and \<open>optValue\<close> falls back to its default only for a member that is missing or of another type.
\<close>

definition poco_json :: "poco \<Rightarrow> bool" where
  "poco_json P \<longleftrightarrow>
     (\<forall>ob k b d. obj_get ob k = Some (JBool b) \<longrightarrow> p_optBool P ob k d = b) \<and>
     (\<forall>ob k s d. obj_get ob k = Some (JStr s) \<longrightarrow> p_optString P ob k d = s \<and> p_getString P ob k = Inr s) \<and>
     (\<forall>ob k i. obj_get ob k = Some (JInt i) \<longrightarrow> - (2 ^ 31) \<le> i \<longrightarrow> i < 2 ^ 31 \<longrightarrow> p_getInt P ob k = Inr i)"

text \<open>The parser reports every error as an exception of POCO.\<close>

definition poco_parser :: "poco \<Rightarrow> bool" where
  "poco_parser P \<longleftrightarrow> (\<forall>t m. p_parse P t \<noteq> Inl (StdException m))"

text \<open>\<open>Poco::trim\<close> removes the white space at both ends.\<close>

definition trim_spaces :: "string \<Rightarrow> string" where
  "trim_spaces s = rev (dropWhile c_isspace (rev (dropWhile c_isspace s)))"

definition poco_trims :: "poco \<Rightarrow> bool" where
  "poco_trims P \<longleftrightarrow> (\<forall>s. p_trim P s = trim_spaces s)"

text \<open>A concrete library for the witnesses.\<close>

definition sample_poco :: poco where
  "sample_poco =
     \<lparr>p_trim = trim_spaces,
      p_displayText = exc_message,
      p_format_addr = (\<lambda>a. ''0x'' @ show_nat (unat a)),
      p_format_range = (\<lambda>n l. n @ show_int l),
      p_format_unsafe = (\<lambda>f l. ''Acquisition remains stopped'' @ show_nat l),
      p_stringify = (\<lambda>j. ''{}''),
      p_parse = (\<lambda>s. Inl (PocoException s)),
      p_convertString = (\<lambda>j. case j of JStr s \<Rightarrow> Inr s | JInt i \<Rightarrow> Inr (show_int i) | _ \<Rightarrow> Inl (PocoException [])),
      p_getString = (\<lambda>ob k. case obj_get ob k of Some (JStr s) \<Rightarrow> Inr s | _ \<Rightarrow> Inl (PocoException [])),
      p_getInt = (\<lambda>ob k. case obj_get ob k of Some (JInt i) \<Rightarrow> Inr i | _ \<Rightarrow> Inl (PocoException [])),
      p_getUInt64 = (\<lambda>ob k. case obj_get ob k of Some (JInt i) \<Rightarrow> Inr (of_int i) | _ \<Rightarrow> Inl (PocoException [])),
      p_getArray = (\<lambda>ob k. case obj_get ob k of Some (JArr js) \<Rightarrow> Some js | _ \<Rightarrow> None),
      p_elementInt = (\<lambda>j. case j of JInt i \<Rightarrow> Inr i | _ \<Rightarrow> Inl (PocoException [])),
      p_optString = (\<lambda>ob k d. case obj_get ob k of Some (JStr s) \<Rightarrow> s | _ \<Rightarrow> d),
      p_optBool = (\<lambda>ob k d. case obj_get ob k of Some (JBool b) \<Rightarrow> b | _ \<Rightarrow> d)\<rparr>"

lemma sample_poco_json: "poco_json sample_poco"
  by (simp add: poco_json_def sample_poco_def)

lemma sample_poco_parser: "poco_parser sample_poco"
  by (simp add: poco_parser_def sample_poco_def)

lemma sample_poco_trims: "poco_trims sample_poco"
  by (simp add: poco_trims_def sample_poco_def)

text \<open>Text with no white space at either end is left alone.\<close>

definition is_trimmed :: "string \<Rightarrow> bool" where
  "is_trimmed s \<longleftrightarrow> s = [] \<or> (\<not> c_isspace (hd s) \<and> \<not> c_isspace (last s))"

lemma trim_spaces_trimmed: "is_trimmed s \<Longrightarrow> trim_spaces s = s"
proof (cases s rule: rev_cases)
  case Nil
  then show ?thesis by (simp add: trim_spaces_def)
next
  case (snoc ys y)
  assume "is_trimmed s"
  then have "\<not> c_isspace (hd s)" and "\<not> c_isspace (last s)" and "s \<noteq> []"
    using snoc by (auto simp: is_trimmed_def)
  then have "dropWhile c_isspace s = s" and "dropWhile c_isspace (rev s) = rev s"
    by (cases s, simp_all, cases "rev s", auto simp: hd_rev)
  then show ?thesis by (simp add: trim_spaces_def)
qed

section \<open>Double precision\<close>

text \<open>
  A double is the rational number it stands for; \<open>fl\<close> is the rounding of an exact result.
  \<open>rounds_right fl\<close> is the part of IEEE 754 the divider code relies on: rounding is monotone and
  leaves the numbers alone that fit the 53 bits of a significand.
\<close>

definition rounds_right :: "(rat \<Rightarrow> rat) \<Rightarrow> bool" where
  "rounds_right fl \<longleftrightarrow>
     (\<forall>x y. x \<le> y \<longrightarrow> fl x \<le> fl y) \<and>
     (\<forall>(n::nat) (k::nat). n \<le> 2 ^ 53 \<longrightarrow> k \<le> 52 \<longrightarrow> fl (of_nat n / 2 ^ k) = of_nat n / 2 ^ k)"

lemma rounds_right_id: "rounds_right (\<lambda>x. x)"
  by (simp add: rounds_right_def)

end
