(* ===== verification/DividerConfig.thy ===== *)
theory DividerConfig
  imports PocoApi
begin

text \<open>
  \<open>AcquisitionDivider.h\<close> and \<open>AcquisitionDividerState.cpp\<close> of the acquisition agent: the output
  table, the validation of requests, the persisted configuration file with its reader and its
  writer, and the clock safety check.
\<close>

section \<open>Constants and data\<close>

definition kDefaultI2CDevice :: string where
  "kDefaultI2CDevice = ''/dev/i2c-0''"

definition kDividerStateFile :: string where
  "kDividerStateFile = ''/var/lib/myiot/jndm123-divider-state.properties''"

definition kDividerOutputCount :: nat where
  "kDividerOutputCount = 7"

definition kDividerAcquisitionOutputCount :: nat where
  "kDividerAcquisitionOutputCount = 6"

definition kFallbackReferenceClockHz :: u64 where
  "kFallbackReferenceClockHz = 1000000"

definition kMaxSafeAcquisitionClockHz :: nat where
  "kMaxSafeAcquisitionClockHz = 100000"

lemmas divider_consts = kDefaultI2CDevice_def kDividerOutputCount_def
  kDividerAcquisitionOutputCount_def kFallbackReferenceClockHz_def kMaxSafeAcquisitionClockHz_def

record divider_output_spec =
  sp_index :: int
  sp_name :: string
  sp_pdivName :: string
  sp_pin :: int

record saved_config =
  sc_devicePath :: string
  sc_referenceClockHz :: u64
  sc_dividers :: "int list"
  sc_savedOutputs :: "bool list"
  sc_hasAnyOutput :: bool
  sc_hasAllOutputs :: bool

record divider_output_state =
  dos_index :: int
  dos_name :: string
  dos_pdivName :: string
  dos_pin :: int
  dos_divider :: int
  dos_frequencyHz :: rat

record divider_snapshot =
  ds_ok :: bool
  ds_message :: string
  ds_devicePath :: string
  ds_referenceClockHz :: u64
  ds_deviceType :: string
  ds_address :: string
  ds_inputClock :: string
  ds_revisionId :: int
  ds_eepBusy :: bool
  ds_eepLock :: bool
  ds_powerDown :: bool
  ds_outputs :: "divider_output_state list"

definition default_saved_config :: saved_config where
  "default_saved_config =
     \<lparr>sc_devicePath = kDefaultI2CDevice, sc_referenceClockHz = kFallbackReferenceClockHz,
      sc_dividers = [1, 1, 1, 1, 1, 1, 1],
      sc_savedOutputs = [False, False, False, False, False, False, False],
      sc_hasAnyOutput = False, sc_hasAllOutputs = False\<rparr>"

definition default_divider_snapshot :: divider_snapshot where
  "default_divider_snapshot =
     \<lparr>ds_ok = True, ds_message = ''Divider status synchronized.'', ds_devicePath = kDefaultI2CDevice,
      ds_referenceClockHz = kFallbackReferenceClockHz, ds_deviceType = ''unsupported'',
      ds_address = ''--'', ds_inputClock = ''--'', ds_revisionId = 0, ds_eepBusy = False,
      ds_eepLock = False, ds_powerDown = False, ds_outputs = []\<rparr>"

definition output_spec :: "int \<Rightarrow> string \<Rightarrow> string \<Rightarrow> int \<Rightarrow> divider_output_spec" where
  "output_spec i n p pin = \<lparr>sp_index = i, sp_name = n, sp_pdivName = p, sp_pin = pin\<rparr>"

definition kDividerOutputs :: "divider_output_spec list" where
  "kDividerOutputs =
     [output_spec 0 ''Y1'' ''Pdiv1'' 17,
      output_spec 1 ''Y2'' ''Pdiv1'' 15,
      output_spec 2 ''Y3'' ''Pdiv1'' 14,
      output_spec 3 ''Y4'' ''Pdiv4'' 7,
      output_spec 4 ''Y5'' ''Pdiv4'' 8,
      output_spec 5 ''Y6'' ''Pdiv4'' 12,
      output_spec 6 ''Y7'' ''Pdiv7'' 11]"

lemma length_kDividerOutputs [simp]: "length kDividerOutputs = kDividerOutputCount"
  by (simp add: kDividerOutputs_def kDividerOutputCount_def)

section \<open>Where the configuration lives\<close>

text \<open>
  The first line of \<open>/proc/mounts\<close> whose mount point is one of the two SD card partitions decides;
  \<open>mounts\<close> is \<open>None\<close> when the file cannot be opened.
\<close>

definition persistentMounts :: "string list" where
  "persistentMounts = [''/run/media/mmcblk0p2'', ''/run/media/mmcblk1p2'']"

fun scan_mounts :: "string list \<Rightarrow> string" where
  "scan_mounts [] = kDividerStateFile"
| "scan_mounts (line # lines) =
     (case extract_word line of
        None \<Rightarrow> scan_mounts lines
      | Some (device, r) \<Rightarrow>
          (case extract_word r of
             None \<Rightarrow> scan_mounts lines
           | Some (mountPoint, _) \<Rightarrow>
               (if mountPoint \<in> set persistentMounts then mountPoint @ kDividerStateFile
                else scan_mounts lines)))"

definition dividerStateFilePath :: "string option \<Rightarrow> string" where
  "dividerStateFilePath mounts =
     (case mounts of None \<Rightarrow> kDividerStateFile | Some text \<Rightarrow> scan_mounts (getlines text))"

section \<open>Validation\<close>

definition dividerLimitForOutput :: "int \<Rightarrow> int" where
  "dividerLimitForOutput outputIndex = (if outputIndex \<ge> 0 \<and> outputIndex \<le> 2 then 1023 else 127)"

definition validateDividerOrThrow :: "poco \<Rightarrow> int \<Rightarrow> int \<Rightarrow> exc + unit" where
  "validateDividerOrThrow P outputIndex divider =
     (if outputIndex < 0 \<or> outputIndex \<ge> int kDividerOutputCount
      then Inl (InvalidArgumentException ''Output index must be in 0..6.'')
      else let limit = dividerLimitForOutput outputIndex in
        if divider \<le> 0 \<or> divider > limit
        then Inl (InvalidArgumentException
               (p_format_range P (sp_name (kDividerOutputs ! nat outputIndex)) limit))
        else Inr ())"

definition validateReferenceClockHzOrThrow :: "u64 \<Rightarrow> exc + unit" where
  "validateReferenceClockHzOrThrow hz =
     (if hz = 0 \<or> hz > 1000000000
      then Inl (InvalidArgumentException ''referenceClockHz must be in 1..1000000000.'')
      else Inr ())"

text \<open>\<open>std::sort\<close>, then \<open>std::unique\<close> with \<open>erase\<close>.\<close>

definition normalizeOutputIndicesOrThrow :: "int list \<Rightarrow> exc + int list" where
  "normalizeOutputIndicesOrThrow outputIndices =
     (if outputIndices = []
      then Inl (InvalidArgumentException ''At least one output must be selected.'')
      else let normalized = remdups_adj (sort outputIndices) in
        if list_ex (\<lambda>i. i < 0 \<or> i \<ge> int kDividerOutputCount) normalized
        then Inl (InvalidArgumentException ''Output index must be in 0..6.'')
        else Inr normalized)"

lemma validateDivider_ok:
  "validateDividerOrThrow P i d = Inr () \<longleftrightarrow>
     0 \<le> i \<and> i < int kDividerOutputCount \<and> 0 < d \<and> d \<le> dividerLimitForOutput i"
  by (auto simp: validateDividerOrThrow_def Let_def)

lemma validateReferenceClock_ok:
  "validateReferenceClockHzOrThrow hz = Inr () \<longleftrightarrow> hz \<noteq> 0 \<and> hz \<le> 1000000000"
  by (auto simp: validateReferenceClockHzOrThrow_def)

lemma normalizeOutputIndices_ok:
  "normalizeOutputIndicesOrThrow is = Inr ns \<longleftrightarrow>
     is \<noteq> [] \<and> ns = remdups_adj (sort is) \<and> (\<forall>i \<in> set is. 0 \<le> i \<and> i < int kDividerOutputCount)"
  by (auto simp: normalizeOutputIndicesOrThrow_def Let_def list_ex_iff) (metis linorder_not_less)+

lemma strict_sorted_remdups_adj: "sorted xs \<Longrightarrow> sorted_wrt (<) (remdups_adj (xs :: 'a :: linorder list))"
  by (induction xs rule: remdups_adj.induct) (auto simp: less_le)

section \<open>Reading the configuration\<close>

text \<open>The body of the loop over the lines, with its \<open>continue\<close>s.\<close>

definition load_entry :: "poco \<Rightarrow> saved_config \<Rightarrow> string \<Rightarrow> string \<Rightarrow> saved_config" where
  "load_entry P c key value =
     (if key = ''devicePath'' then (if value \<noteq> [] then c\<lparr>sc_devicePath := value\<rparr> else c)
      else if key = ''referenceClockHz'' then
        (case parseUInt64Strict value of
           None \<Rightarrow> c
         | Some hz \<Rightarrow>
             (case validateReferenceClockHzOrThrow hz of
                Inl _ \<Rightarrow> c
              | Inr _ \<Rightarrow> c\<lparr>sc_referenceClockHz := hz\<rparr>))
      else if length key = 2 \<and> key ! 0 = CHR ''y'' \<and>
              49 \<le> (of_char (key ! 1) :: nat) \<and> (of_char (key ! 1) :: nat) \<le> 55 then
        (case parseIntStrict value of
           None \<Rightarrow> c
         | Some divider \<Rightarrow>
             (let outputIndex = (of_char (key ! 1) :: nat) - 49 in
              case validateDividerOrThrow P (int outputIndex) divider of
                Inl _ \<Rightarrow> c
              | Inr _ \<Rightarrow> c\<lparr>sc_dividers := (sc_dividers c)[outputIndex := divider],
                           sc_savedOutputs := (sc_savedOutputs c)[outputIndex := True]\<rparr>))
      else c)"

definition load_line :: "poco \<Rightarrow> saved_config \<Rightarrow> string \<Rightarrow> saved_config" where
  "load_line P c line0 =
     (let line = p_trim P line0 in
      if line = [] \<or> line ! 0 = CHR ''#'' then c
      else case find_char (CHR ''='') line of
             None \<Rightarrow> c
           | Some separator \<Rightarrow>
               load_entry P c (p_trim P (take separator line)) (p_trim P (drop (separator + 1) line)))"

definition finish_config :: "saved_config \<Rightarrow> saved_config" where
  "finish_config c = c\<lparr>sc_hasAnyOutput := list_ex (\<lambda>v. v) (sc_savedOutputs c),
                       sc_hasAllOutputs := list_all (\<lambda>v. v) (sc_savedOutputs c)\<rparr>"

text \<open>\<open>content\<close> is \<open>None\<close> when the state file cannot be opened.\<close>

definition loadSavedDividerConfiguration :: "poco \<Rightarrow> string option \<Rightarrow> saved_config" where
  "loadSavedDividerConfiguration P content =
     (case content of
        None \<Rightarrow> default_saved_config
      | Some text \<Rightarrow> finish_config (foldl (load_line P) default_saved_config (getlines text)))"

definition resolvePreferredDevicePath :: "poco \<Rightarrow> string option \<Rightarrow> string \<Rightarrow> string" where
  "resolvePreferredDevicePath P content requested =
     (if requested \<noteq> [] then requested
      else let saved = loadSavedDividerConfiguration P content in
        if sc_devicePath saved \<noteq> [] then sc_devicePath saved else kDefaultI2CDevice)"

definition resolvePreferredReferenceClockHz ::
    "poco \<Rightarrow> string option \<Rightarrow> string \<Rightarrow> exc + u64" where
  "resolvePreferredReferenceClockHz P content requested =
     (if requested \<noteq> [] then
        (case parseUInt64Strict requested of
           None \<Rightarrow> Inl (InvalidArgumentException ''referenceClockHz must be a numeric value.'')
         | Some hz \<Rightarrow>
             (case validateReferenceClockHzOrThrow hz of Inl e \<Rightarrow> Inl e | Inr _ \<Rightarrow> Inr hz))
      else let saved = loadSavedDividerConfiguration P content in
        case validateReferenceClockHzOrThrow (sc_referenceClockHz saved) of
          Inl e \<Rightarrow> Inl e
        | Inr _ \<Rightarrow> Inr (sc_referenceClockHz saved))"

section \<open>Writing the configuration\<close>

text \<open>
  What the operating system answers while the file is written: creating the directories,
  opening the file, and whether the stream is still good at the end.
\<close>

record file_outcome =
  fo_createDirectories :: "exc + unit"
  fo_opens :: bool
  fo_good :: bool

fun output_lines :: "divider_output_state list \<Rightarrow> nat \<Rightarrow> nat \<Rightarrow> string \<times> bool" where
  "output_lines outs index 0 = ([], True)"
| "output_lines outs index (Suc n) =
     (if index \<ge> length outs then ([], False)
      else let (rest, ok) = output_lines outs (Suc index) n in
        (CHR ''y'' # show_nat (index + 1) @ CHR ''='' # show_int (dos_divider (outs ! index)) @ CHR 0x0A # rest, ok))"

definition config_header :: "divider_snapshot \<Rightarrow> string \<Rightarrow> string" where
  "config_header snapshot devicePath =
     ''# Auto-generated by MyIoT JNDM123 divider control'' @ [CHR 0x0A] @
     ''devicePath='' @ (if devicePath = [] then kDefaultI2CDevice else devicePath) @ [CHR 0x0A] @
     ''referenceClockHz='' @ show_nat (unat (ds_referenceClockHz snapshot)) @ [CHR 0x0A]"

text \<open>
  The file is truncated when it is opened; a snapshot with too few outputs throws after the
  first lines have been written, and what was written stays.
\<close>

definition saveDividerConfiguration ::
    "file_outcome \<Rightarrow> string \<Rightarrow> divider_snapshot \<Rightarrow> string \<Rightarrow> (string option, unit) io" where
  "saveDividerConfiguration fo stateFile snapshot devicePath content =
     (case fo_createDirectories fo of
        Inl e \<Rightarrow> (Inl e, content)
      | Inr _ \<Rightarrow>
          if \<not> fo_opens fo
          then (Inl (IOException (''Unable to write divider state file '' @ stateFile)), content)
          else
            let (body, complete) = output_lines (ds_outputs snapshot) 0 kDividerOutputCount;
                written = Some (config_header snapshot devicePath @ body)
            in if \<not> complete
               then (Inl (InvalidAccessException ''Divider snapshot is missing outputs required for persistence.''), written)
               else if \<not> fo_good fo
               then (Inl (IOException (''Unable to flush divider state file '' @ stateFile)), written)
               else (Inr (), written))"

section \<open>The clock safety check\<close>

definition maximumStartupOutputFrequencyHz :: "divider_snapshot \<Rightarrow> rat" where
  "maximumStartupOutputFrequencyHz snapshot =
     foldl (\<lambda>m x. max m (dos_frequencyHz x)) 0
       (take (min (length (ds_outputs snapshot)) kDividerAcquisitionOutputCount) (ds_outputs snapshot))"

definition acquisitionClockSafetyMessage :: "poco \<Rightarrow> divider_snapshot \<Rightarrow> string" where
  "acquisitionClockSafetyMessage P snapshot =
     (let maximum = maximumStartupOutputFrequencyHz snapshot in
      if maximum \<le> of_nat kMaxSafeAcquisitionClockHz then []
      else p_format_unsafe P maximum kMaxSafeAcquisitionClockHz)"

definition divider_output_json :: "divider_output_state \<Rightarrow> json" where
  "divider_output_json x = JObj
     [(''index'', JInt (dos_index x)), (''name'', JStr (dos_name x)), (''pdiv'', JStr (dos_pdivName x)),
      (''pin'', JInt (dos_pin x)), (''divider'', JInt (dos_divider x)),
      (''frequencyHz'', JReal (dos_frequencyHz x))]"

text \<open>\<open>now\<close> is the result of \<open>isoTimestamp()\<close>.\<close>

definition dividerSnapshotToJson :: "string \<Rightarrow> divider_snapshot \<Rightarrow> json" where
  "dividerSnapshotToJson now s = JObj
     [(''ok'', JBool (ds_ok s)), (''message'', JStr (ds_message s)), (''updatedAt'', JStr now),
      (''devicePath'', JStr (ds_devicePath s)),
      (''referenceClockHz'', JInt (uint (ds_referenceClockHz s))),
      (''deviceType'', JStr (ds_deviceType s)), (''address'', JStr (ds_address s)),
      (''inputClock'', JStr (ds_inputClock s)), (''revisionId'', JInt (ds_revisionId s)),
      (''eepBusy'', JBool (ds_eepBusy s)), (''eepLock'', JBool (ds_eepLock s)),
      (''powerDown'', JBool (ds_powerDown s)),
      (''outputs'', JArr (map divider_output_json (ds_outputs s)))]"

section \<open>What a loaded configuration satisfies\<close>

text \<open>Whatever the file holds, the loader returns a configuration the driver accepts.\<close>

definition wf_config :: "saved_config \<Rightarrow> bool" where
  "wf_config c \<longleftrightarrow>
     length (sc_dividers c) = kDividerOutputCount \<and>
     length (sc_savedOutputs c) = kDividerOutputCount \<and>
     (\<forall>i < kDividerOutputCount. 0 < sc_dividers c ! i \<and> sc_dividers c ! i \<le> dividerLimitForOutput (int i)) \<and>
     (\<forall>i < kDividerOutputCount. \<not> sc_savedOutputs c ! i \<longrightarrow> sc_dividers c ! i = 1) \<and>
     sc_referenceClockHz c \<noteq> 0 \<and> sc_referenceClockHz c \<le> 1000000000 \<and>
     sc_devicePath c \<noteq> []"

lemma wf_default_config: "wf_config default_saved_config"
proof -
  have "[1, 1, 1, 1, 1, 1, 1] = replicate 7 (1::int)"
    and "[False, False, False, False, False, False, False] = replicate 7 False"
    by (simp_all add: numeral_eq_Suc)
  then show ?thesis
    by (simp add: wf_config_def default_saved_config_def divider_consts dividerLimitForOutput_def)
qed

lemma wf_config_set_devicePath: "wf_config c \<Longrightarrow> dp \<noteq> [] \<Longrightarrow> wf_config (c\<lparr>sc_devicePath := dp\<rparr>)"
  by (simp add: wf_config_def)

lemma wf_config_set_clock:
  "wf_config c \<Longrightarrow> validateReferenceClockHzOrThrow hz = Inr () \<Longrightarrow> wf_config (c\<lparr>sc_referenceClockHz := hz\<rparr>)"
  by (simp add: wf_config_def validateReferenceClock_ok)

lemma wf_config_set_divider:
  assumes "wf_config c" and "validateDividerOrThrow P (int i) d = Inr ()"
  shows "wf_config (c\<lparr>sc_dividers := (sc_dividers c)[i := d], sc_savedOutputs := (sc_savedOutputs c)[i := True]\<rparr>)"
  using assms by (auto simp: wf_config_def validateDivider_ok nth_list_update)

lemma wf_config_load_entry: "wf_config c \<Longrightarrow> wf_config (load_entry P c key value)"
  unfolding load_entry_def Let_def
  by (simp add: wf_config_set_divider wf_config_set_devicePath wf_config_set_clock
      split: option.split sum.split)

lemma wf_config_load_line: "wf_config c \<Longrightarrow> wf_config (load_line P c line)"
  by (simp add: load_line_def Let_def wf_config_load_entry split: option.splits)

lemma wf_config_load_lines: "wf_config c \<Longrightarrow> wf_config (foldl (load_line P) c lines)"
  by (induction lines arbitrary: c) (simp_all add: wf_config_load_line)

lemma wf_config_finish: "wf_config c \<Longrightarrow> wf_config (finish_config c)"
  by (simp add: finish_config_def wf_config_def)

lemma wf_config_load: "wf_config (loadSavedDividerConfiguration P content)"
  by (simp add: loadSavedDividerConfiguration_def wf_default_config wf_config_load_lines wf_config_finish
      split: option.split)

section \<open>Writing, then reading\<close>

definition output_line :: "divider_output_state list \<Rightarrow> nat \<Rightarrow> string" where
  "output_line outs i = CHR ''y'' # show_nat (i + 1) @ CHR ''='' # show_int (dos_divider (outs ! i))"

lemma output_lines_eq:
  "index + n \<le> length outs \<Longrightarrow>
   output_lines outs index n = (concat (map (\<lambda>i. output_line outs i @ [CHR 0x0A]) [index..<index + n]), True)"
  by (induction n arbitrary: index) (simp_all add: output_line_def upt_conv_Cons del: upt_Suc)

lemma output_lines_incomplete:
  "index \<le> length outs \<Longrightarrow> length outs < index + n \<Longrightarrow> \<not> snd (output_lines outs index n)"
proof (induction n arbitrary: index)
  case 0
  then show ?case by simp
next
  case (Suc n)
  show ?case
  proof (cases "length outs \<le> index")
    case True
    then show ?thesis by simp
  next
    case False
    then have "\<not> snd (output_lines outs (Suc index) n)"
      using Suc.prems by (intro Suc.IH) auto
    with False show ?thesis by (simp add: case_prod_beta)
  qed
qed

lemma getlines_concat:
  "(\<And>l. l \<in> set ls \<Longrightarrow> CHR 0x0A \<notin> set l) \<Longrightarrow> getlines (concat (map (\<lambda>l. l @ [CHR 0x0A]) ls)) = ls"
proof (induction ls)
  case Nil
  then show ?case by (simp add: getlines_def)
next
  case (Cons l ls)
  then show ?case using getlines_line [of l] by simp
qed

lemma show_int_chars: "c \<in> set (show_int i) \<Longrightarrow> c_isdigit c \<or> c = CHR ''-''"
  by (auto simp: show_int_def dest: show_nat_digits split: if_splits)

lemma show_nat_last: "\<not> c_isspace (last (show_nat n))"
  using show_nat_digits [of "last (show_nat n)" n] isdigit_not_isspace by auto

lemma show_int_trimmed: "is_trimmed (show_int i)"
proof -
  have "\<not> c_isspace (hd (show_nat n))" for n
    using show_nat_digits [of "hd (show_nat n)" n] isdigit_not_isspace by auto
  moreover have "\<not> c_isspace (CHR ''-'')" by (simp add: c_isspace_def)
  ultimately show ?thesis by (simp add: is_trimmed_def show_int_def show_nat_last)
qed

lemma show_nat_trimmed: "is_trimmed (show_nat n)"
  using show_int_trimmed [of "int n"] by (simp add: show_int_def)

lemma no_newline_show_int: "CHR 0x0A \<notin> set (show_int i)"
  using show_int_chars by (fastforce simp: c_isdigit_def)

lemma no_newline_show_nat: "CHR 0x0A \<notin> set (show_nat n)"
  using show_nat_digits by (fastforce simp: c_isdigit_def)

lemma show_nat_small: "n < 10 \<Longrightarrow> show_nat n = [digit_char n]"
  by (subst show_nat.simps) simp

text \<open>One line of the form \<open>key=value\<close>, both trimmed, reaches \<open>load_entry\<close> as it was written.\<close>

lemma load_line_entry:
  assumes P: "poco_trims P"
    and key: "key \<noteq> []" "is_trimmed key" "CHR ''='' \<notin> set key" "hd key \<noteq> CHR ''#''"
    and v: "is_trimmed value"
  shows "load_line P c (key @ CHR ''='' # value) = load_entry P c key value"
proof -
  let ?line = "key @ CHR ''='' # value"
  have "\<not> c_isspace (CHR ''='')" by (simp add: c_isspace_def)
  then have "is_trimmed ?line"
    using key v by (auto simp: is_trimmed_def)
  then have "p_trim P ?line = ?line" "p_trim P key = key" "p_trim P value = value"
    using P key v by (simp_all add: poco_trims_def trim_spaces_trimmed)
  moreover have "?line ! 0 \<noteq> CHR ''#''"
    using key by (cases key) simp_all
  moreover have "find_char (CHR ''='') ?line = Some (length key)"
    using key by (simp add: find_char_append)
  ultimately show ?thesis
    by (simp add: load_line_def)
qed

lemma load_devicePath_line:
  assumes "poco_trims P" and "is_trimmed dp" and "dp \<noteq> []"
  shows "load_line P c (''devicePath='' @ dp) = c\<lparr>sc_devicePath := dp\<rparr>"
  using load_line_entry [of P "''devicePath''" dp c] assms
  by (simp add: is_trimmed_def c_isspace_def load_entry_def)

lemma load_referenceClockHz_line:
  assumes "poco_trims P" and "validateReferenceClockHzOrThrow hz = Inr ()"
  shows "load_line P c (''referenceClockHz='' @ show_nat (unat hz)) = c\<lparr>sc_referenceClockHz := hz\<rparr>"
  using load_line_entry [of P "''referenceClockHz''" "show_nat (unat hz)" c] assms
  by (simp add: is_trimmed_def [of "CHR ''r'' # _"] c_isspace_def show_nat_trimmed load_entry_def
      parseUInt64Strict_show_nat)

text \<open>An output line takes effect exactly when its divider is valid for its output.\<close>

definition store_output :: "poco \<Rightarrow> saved_config \<Rightarrow> nat \<Rightarrow> int \<Rightarrow> saved_config" where
  "store_output P c i d =
     (if validateDividerOrThrow P (int i) d = Inr ()
      then c\<lparr>sc_dividers := (sc_dividers c)[i := d], sc_savedOutputs := (sc_savedOutputs c)[i := True]\<rparr>
      else c)"

lemma load_output_line:
  assumes P: "poco_trims P" and i: "i < 7"
    and d: "- (2 ^ 31) \<le> dos_divider (outs ! i)" "dos_divider (outs ! i) < 2 ^ 31"
  shows "load_line P c (output_line outs i) = store_output P c i (dos_divider (outs ! i))"
proof -
  let ?d = "dos_divider (outs ! i)" and ?key = "[CHR ''y'', digit_char (i + 1)]"
  have digit: "c_isdigit (digit_char (i + 1))"
    using i by (intro digit_char_isdigit) simp
  have of_char: "(of_char (digit_char (i + 1)) :: nat) = i + 49"
    using i by (simp add: digit_char_def)
  have "output_line outs i = ?key @ CHR ''='' # show_int ?d"
    using i by (simp add: output_line_def show_nat_small)
  moreover have "load_line P c (?key @ CHR ''='' # show_int ?d) = load_entry P c ?key (show_int ?d)"
    using P digit isdigit_not_isspace [OF digit]
    by (intro load_line_entry)
       (auto simp: is_trimmed_def [of "CHR ''y'' # _"] c_isspace_def [of "CHR ''y''"] show_int_trimmed c_isdigit_def
          dest: arg_cong [where f = "of_char :: char \<Rightarrow> nat"])
  moreover have "load_entry P c ?key (show_int ?d) = store_output P c i ?d"
    using i of_char parseIntStrict_show_int [OF d]
    by (auto simp: load_entry_def store_output_def Let_def split: sum.split)
  ultimately show ?thesis by simp
qed

lemma load_output_lines:
  assumes P: "poco_trims P"
    and d: "\<And>i. i < 7 \<Longrightarrow> - (2 ^ 31) \<le> dos_divider (outs ! i) \<and> dos_divider (outs ! i) < 2 ^ 31"
    and "n \<le> 7"
  shows "foldl (load_line P) c (map (output_line outs) [0..<n]) =
           foldl (\<lambda>c i. store_output P c i (dos_divider (outs ! i))) c [0..<n]"
  using \<open>n \<le> 7\<close>
proof (induction n)
  case 0
  then show ?case by simp
next
  case (Suc n)
  then show ?case using load_output_line [OF P, of n outs] d [of n] by simp
qed

lemma store_output_frames [simp]:
  "sc_devicePath (store_output P c i d) = sc_devicePath c"
  "sc_referenceClockHz (store_output P c i d) = sc_referenceClockHz c"
  by (simp_all add: store_output_def)

lemma store_outputs:
  fixes P :: poco and d :: "nat \<Rightarrow> int"
  assumes "sc_dividers c = replicate 7 1" and "sc_savedOutputs c = replicate 7 False" and "n \<le> 7"
  defines "ok i \<equiv> validateDividerOrThrow P (int i) (d i) = Inr ()"
    and "c' \<equiv> foldl (\<lambda>c i. store_output P c i (d i)) c [0..<n]"
  shows "sc_dividers c' = map (\<lambda>i. if ok i then d i else 1) [0..<n] @ replicate (7 - n) 1 \<and>
         sc_savedOutputs c' = map ok [0..<n] @ replicate (7 - n) False \<and>
         sc_devicePath c' = sc_devicePath c \<and> sc_referenceClockHz c' = sc_referenceClockHz c"
  using \<open>n \<le> 7\<close> unfolding c'_def
proof (induction n)
  case 0
  then show ?case using assms(1,2) by simp
next
  case (Suc n)
  then show ?case
    by (auto simp: store_output_def ok_def list_update_append replicate_minus_Suc [of n 7])
qed

definition header_lines :: "divider_snapshot \<Rightarrow> string \<Rightarrow> string list" where
  "header_lines s dp =
     [''# Auto-generated by MyIoT JNDM123 divider control'',
      ''devicePath='' @ (if dp = [] then kDefaultI2CDevice else dp),
      ''referenceClockHz='' @ show_nat (unat (ds_referenceClockHz s))]"

lemma config_header_lines: "config_header s dp = concat (map (\<lambda>l. l @ [CHR 0x0A]) (header_lines s dp))"
  by (simp add: config_header_def header_lines_def)

lemma getlines_saved:
  assumes "CHR 0x0A \<notin> set dp"
  shows "getlines (config_header s dp @ concat (map (\<lambda>i. output_line outs i @ [CHR 0x0A]) [0..<n])) =
    header_lines s dp @ map (output_line outs) [0..<n]"
proof -
  have "CHR 0x0A \<notin> set (output_line outs i)" for i
    using no_newline_show_nat [of "i + 1"] no_newline_show_int by (simp add: output_line_def)
  moreover have "CHR 0x0A \<notin> set l" if "l \<in> set (header_lines s dp)" for l
    using that assms no_newline_show_nat by (auto simp: header_lines_def kDefaultI2CDevice_def split: if_splits)
  ultimately have "getlines (concat (map (\<lambda>l. l @ [CHR 0x0A]) (header_lines s dp @ map (output_line outs) [0..<n]))) =
      header_lines s dp @ map (output_line outs) [0..<n]"
    by (intro getlines_concat) auto
  then show ?thesis by (simp add: config_header_lines comp_def)
qed

lemma load_header_lines:
  assumes "poco_trims P" and "is_trimmed dp" and "validateReferenceClockHzOrThrow (ds_referenceClockHz s) = Inr ()"
  shows "foldl (load_line P) c (header_lines s dp) =
    c\<lparr>sc_devicePath := (if dp = [] then kDefaultI2CDevice else dp),
      sc_referenceClockHz := ds_referenceClockHz s\<rparr>"
proof -
  let ?dp = "if dp = [] then kDefaultI2CDevice else dp"
  have "is_trimmed ?dp" and "?dp \<noteq> []"
    using assms(2) by (auto simp: is_trimmed_def kDefaultI2CDevice_def c_isspace_def)
  then have dline: "\<And>c. load_line P c (''devicePath='' @ ?dp) = c\<lparr>sc_devicePath := ?dp\<rparr>"
    using assms(1) by (intro load_devicePath_line)
  have comment: "\<And>c. load_line P c (''# Auto-generated by MyIoT JNDM123 divider control'') = c"
  proof -
    have "is_trimmed ''# Auto-generated by MyIoT JNDM123 divider control''"
      by (simp add: is_trimmed_def c_isspace_def)
    then show "load_line P c (''# Auto-generated by MyIoT JNDM123 divider control'') = c" for c
      using assms(1) by (simp add: load_line_def poco_trims_def trim_spaces_trimmed)
  qed
  note cline = load_referenceClockHz_line [OF assms(1) assms(3)]
  show ?thesis
    unfolding header_lines_def foldl.simps comment dline cline ..
qed

text \<open>What \<open>saveDividerConfiguration\<close> wrote is what \<open>loadSavedDividerConfiguration\<close> returns.\<close>

lemma load_after_save:
  assumes "poco_trims P"
    and "fo_createDirectories fo = Inr ()" and "fo_opens fo" and "fo_good fo"
    and "is_trimmed dp" and "CHR 0x0A \<notin> set dp"
    and "7 \<le> length (ds_outputs s)"
    and "validateReferenceClockHzOrThrow (ds_referenceClockHz s) = Inr ()"
    and "\<And>i. i < 7 \<Longrightarrow> - (2 ^ 31) \<le> dos_divider (ds_outputs s ! i) \<and> dos_divider (ds_outputs s ! i) < 2 ^ 31"
  defines "d i \<equiv> dos_divider (ds_outputs s ! i)"
  defines "ok i \<equiv> validateDividerOrThrow P (int i) (d i) = Inr ()"
  shows "\<exists>text. saveDividerConfiguration fo sf s dp old = (Inr (), Some text) \<and>
    loadSavedDividerConfiguration P (Some text) =
      \<lparr>sc_devicePath = (if dp = [] then kDefaultI2CDevice else dp),
       sc_referenceClockHz = ds_referenceClockHz s,
       sc_dividers = map (\<lambda>i. if ok i then d i else 1) [0..<7],
       sc_savedOutputs = map ok [0..<7],
       sc_hasAnyOutput = list_ex ok [0..<7],
       sc_hasAllOutputs = list_all ok [0..<7]\<rparr>"
proof -
  let ?text = "config_header s dp @ concat (map (\<lambda>i. output_line (ds_outputs s) i @ [CHR 0x0A]) [0..<7])"
  have saved: "saveDividerConfiguration fo sf s dp old = (Inr (), Some ?text)"
    using assms output_lines_eq [of 0 7 "ds_outputs s"]
    by (simp add: saveDividerConfiguration_def kDividerOutputCount_def)
  let ?c = "default_saved_config\<lparr>sc_devicePath := (if dp = [] then kDefaultI2CDevice else dp),
      sc_referenceClockHz := ds_referenceClockHz s\<rparr>"
  let ?c' = "foldl (\<lambda>c i. store_output P c i (d i)) ?c [0..<7]"
  have lines: "foldl (load_line P) default_saved_config (getlines ?text) = ?c'"
    using assms(1,5,6,8,9)
    by (simp add: getlines_saved load_header_lines load_output_lines d_def del: upt_rec_numeral)
  have "sc_dividers ?c = replicate 7 1" and "sc_savedOutputs ?c = replicate 7 False"
    by (simp_all add: default_saved_config_def numeral_eq_Suc)
  then have "sc_dividers ?c' = map (\<lambda>i. if ok i then d i else 1) [0..<7]"
    and "sc_savedOutputs ?c' = map ok [0..<7]"
    and "sc_devicePath ?c' = sc_devicePath ?c" and "sc_referenceClockHz ?c' = sc_referenceClockHz ?c"
    using store_outputs [of ?c 7 P d] by (simp_all add: ok_def del: upt_rec_numeral)
  then have "finish_config ?c' = \<lparr>sc_devicePath = (if dp = [] then kDefaultI2CDevice else dp),
       sc_referenceClockHz = ds_referenceClockHz s,
       sc_dividers = map (\<lambda>i. if ok i then d i else 1) [0..<7],
       sc_savedOutputs = map ok [0..<7],
       sc_hasAnyOutput = list_ex ok [0..<7],
       sc_hasAllOutputs = list_all ok [0..<7]\<rparr>"
    by (simp add: finish_config_def list_ex_iff list_all_iff del: upt_rec_numeral)
  then show ?thesis
    using saved lines by (simp add: loadSavedDividerConfiguration_def del: upt_rec_numeral)
qed

section \<open>Properties\<close>

text \<open>C32: What \<open>saveDividerConfiguration\<close> writes, \<open>loadSavedDividerConfiguration\<close> reads back: the
  device path (the default one when it was empty), the reference clock, and for each of the
  seven outputs its divider if it is valid for that output; an output whose divider read back from
  the chip is out of range is not restored and counts as not saved.\<close>

theorem saved_configuration_is_restored:
  assumes "poco_trims P"
    and "fo_createDirectories fo = Inr ()" and "fo_opens fo" and "fo_good fo"
    and "is_trimmed dp" and "CHR 0x0A \<notin> set dp"
    and "7 \<le> length (ds_outputs s)"
    and "validateReferenceClockHzOrThrow (ds_referenceClockHz s) = Inr ()"
    and "\<And>i. i < 7 \<Longrightarrow> - (2 ^ 31) \<le> dos_divider (ds_outputs s ! i) \<and> dos_divider (ds_outputs s ! i) < 2 ^ 31"
  defines "d i \<equiv> dos_divider (ds_outputs s ! i)"
  defines "ok i \<equiv> validateDividerOrThrow P (int i) (d i) = Inr ()"
  shows "\<exists>text. saveDividerConfiguration fo sf s dp old = (Inr (), Some text) \<and>
    loadSavedDividerConfiguration P (Some text) =
      \<lparr>sc_devicePath = (if dp = [] then kDefaultI2CDevice else dp),
       sc_referenceClockHz = ds_referenceClockHz s,
       sc_dividers = map (\<lambda>i. if ok i then d i else 1) [0..<7],
       sc_savedOutputs = map ok [0..<7],
       sc_hasAnyOutput = list_ex ok [0..<7],
       sc_hasAllOutputs = list_all ok [0..<7]\<rparr>"
  unfolding d_def ok_def using assms(1-9) by (rule load_after_save)

lemma saved_configuration_is_restored_witness:
  "\<exists>text. saveDividerConfiguration \<lparr>fo_createDirectories = Inr (), fo_opens = True, fo_good = True\<rparr> []
      (default_divider_snapshot\<lparr>ds_outputs := replicate 7 \<lparr>dos_index = 0, dos_name = [], dos_pdivName = [], dos_pin = 0,
         dos_divider = 200, dos_frequencyHz = 0\<rparr>\<rparr>) [] None = (Inr (), Some text) \<and>
    sc_savedOutputs (loadSavedDividerConfiguration sample_poco (Some text)) = [True, True, True, False, False, False, False]"
proof -
  let ?fo = "\<lparr>fo_createDirectories = Inr (), fo_opens = True, fo_good = True\<rparr>"
  let ?s = "default_divider_snapshot\<lparr>ds_outputs := replicate 7 \<lparr>dos_index = 0, dos_name = [], dos_pdivName = [], dos_pin = 0,
         dos_divider = 200, dos_frequencyHz = 0\<rparr>\<rparr>"
  have "is_trimmed []" "CHR 0x0A \<notin> set []" "7 \<le> length (ds_outputs ?s)" "fo_createDirectories ?fo = Inr ()" "fo_opens ?fo" "fo_good ?fo"
    "validateReferenceClockHzOrThrow (ds_referenceClockHz ?s) = Inr ()"
    "\<And>i. i < 7 \<Longrightarrow> - (2 ^ 31) \<le> dos_divider (ds_outputs ?s ! i) \<and> dos_divider (ds_outputs ?s ! i) < 2 ^ 31"
    by (simp_all add: is_trimmed_def default_divider_snapshot_def validateReferenceClock_ok kFallbackReferenceClockHz_def)
  note saved_configuration_is_restored [OF sample_poco_trims this(4-6) this(1-3) this(7,8), of "[]" None]
  then obtain t where save: "saveDividerConfiguration ?fo [] ?s [] None = (Inr (), Some t)"
    and "sc_savedOutputs (loadSavedDividerConfiguration sample_poco (Some t)) =
      map (\<lambda>i. validateDividerOrThrow sample_poco (int i) (dos_divider (ds_outputs ?s ! i)) = Inr ()) [0..<7]"
    by auto
  moreover have "[0..<7] = [0, 1, 2, 3, 4, 5, 6]" by (simp add: upt_rec)
  ultimately show ?thesis
    by (intro exI [of _ t]) (simp add: validateDivider_ok kDividerOutputCount_def dividerLimitForOutput_def)
qed

text \<open>C34: Whatever the state file holds, or when there is none, the configuration that is loaded is one the
  driver accepts: seven dividers, each in the range of its output (and 1 where nothing was saved), a
  reference clock between 1 and \<open>1000000000\<close> Hz and a device path.\<close>

theorem loaded_configuration_is_valid:
  "wf_config (loadSavedDividerConfiguration P content)"
  by (rule wf_config_load)

text \<open>Normalising the output indices of a request yields them in strictly ascending order, each one once,
  all of them outputs of the chip; it throws exactly when the request names no output or one that does
  not exist.\<close>

theorem normalized_indices:
  "case normalizeOutputIndicesOrThrow is of
     Inr ns \<Rightarrow> is \<noteq> [] \<and> set ns = set is \<and> sorted_wrt (<) ns \<and> (\<forall>i \<in> set ns. 0 \<le> i \<and> i < 7)
   | Inl e \<Rightarrow> (is = [] \<or> (\<exists>i \<in> set is. i < 0 \<or> 7 \<le> i)) \<and> (\<exists>m. e = InvalidArgumentException m)"
proof (cases "normalizeOutputIndicesOrThrow is")
  case (Inr ns)
  then have "is \<noteq> []" and "ns = remdups_adj (sort is)" and "\<forall>i \<in> set is. 0 \<le> i \<and> i < 7"
    by (auto simp: normalizeOutputIndices_ok kDividerOutputCount_def)
  then show ?thesis
    unfolding Inr sum.case by (auto intro: strict_sorted_remdups_adj)
next
  case (Inl e)
  then show ?thesis
    by (auto simp: normalizeOutputIndicesOrThrow_def Let_def list_ex_iff kDividerOutputCount_def split: if_splits)
qed

lemma normalized_indices_witness:
  "normalizeOutputIndicesOrThrow [5, 2, 5] = Inr [2, 5] \<and> sorted_wrt (<) [2, 5 :: int]"
proof -
  have "normalizeOutputIndicesOrThrow [5, 2, 5] = Inr [2, 5]" by code_simp
  with normalized_indices [of "[5, 2, 5]"] show ?thesis by simp
qed

text \<open>A reference clock written as a negative number is not refused: \<open>std::stoull\<close> negates it in the
  unsigned type, so the text of \<open>n - 2 ^ 64\<close> is taken as \<open>n\<close> Hz for every clock \<open>n\<close> the
  service allows.\<close>

theorem negative_clock_is_accepted:
  assumes "0 < n" and "n \<le> 1000000000"
  shows "resolvePreferredReferenceClockHz P content (show_int (int n - 2 ^ 64)) = Inr (of_nat n)"
proof -
  let ?m = "2 ^ 64 - n"
  have shown: "show_int (int n - 2 ^ 64) = CHR ''-'' # show_nat ?m"
    using assms by (simp add: show_int_def of_nat_diff nat_minus_as_int)
  have "- (of_nat ?m :: u64) = of_nat n"
    using assms by (simp add: of_nat_diff)
  then have "parseUInt64Strict (show_int (int n - 2 ^ 64)) = Some (of_nat n)"
    unfolding shown using assms strto_scan_minus [of ?m] by (simp add: parseUInt64Strict_def std_stoull_def)
  moreover have "\<not> 18446744073709551616 dvd n" using assms by (auto dest: dvd_imp_le)
  then have "validateReferenceClockHzOrThrow (of_nat n) = Inr ()"
    using assms by (simp add: validateReferenceClock_ok word_of_nat_eq_0_iff word_le_nat_alt unat_of_nat dvd_imp_le)
  ultimately show ?thesis
    unfolding shown by (simp add: resolvePreferredReferenceClockHz_def)
qed

lemma negative_clock_is_accepted_witness:
  "resolvePreferredReferenceClockHz sample_poco None ''-18446744073708551616'' = Inr 1000000"
proof -
  have "show_int (int 1000000 - 2 ^ 64) = ''-18446744073708551616''" by (simp add: show_int_def digit_char_def show_nat.simps char_of_def bit_0)
  then show ?thesis using negative_clock_is_accepted [of 1000000 sample_poco None] by simp
qed

end
