(* ===== verification/Cdce937.thy ===== *)
theory Cdce937
  imports DividerConfig
begin

text \<open>
  \<open>AcquisitionDivider.cpp\<close>: the register driver of the CDCE937 clock chip and the three
  operations built on it. The I2C character device belongs to the kernel and is a parameter
  (\<open>i2c_bus\<close>); what the driver relies on of it is stated in \<open>Cdce937_Chip\<close>.
\<close>

section \<open>The bus and the device\<close>

record 's i2c_bus =
  bus_open :: "string \<Rightarrow> 's \<Rightarrow> int \<times> 's"
  bus_close :: "int \<Rightarrow> 's \<Rightarrow> 's"
  bus_rdwr_read :: "int \<Rightarrow> u8 \<Rightarrow> u8 \<Rightarrow> 's \<Rightarrow> u8 option \<times> 's"
  bus_rdwr_write :: "int \<Rightarrow> u8 \<Rightarrow> u8 list \<Rightarrow> 's \<Rightarrow> bool \<times> 's"

record cdce937_device =
  dev_path :: string
  dev_fd :: int
  dev_address :: u8
  dev_addressFixed :: bool

definition kCdce937RegId :: u8 where "kCdce937RegId = 0x00"
definition kCdce937RegCfg1 :: u8 where "kCdce937RegCfg1 = 0x01"
definition kCdce937RegY1Control :: u8 where "kCdce937RegY1Control = 0x02"
definition kCdce937RegMux1 :: u8 where "kCdce937RegMux1 = 0x14"
definition kCdce937RegMux2 :: u8 where "kCdce937RegMux2 = 0x24"
definition kCdce937RegMux3 :: u8 where "kCdce937RegMux3 = 0x34"

lemmas register_consts = kCdce937RegId_def kCdce937RegCfg1_def kCdce937RegY1Control_def
  kCdce937RegMux1_def kCdce937RegMux2_def kCdce937RegMux3_def

definition kProbeAddresses :: "u8 list" where
  "kProbeAddresses = [0x6c, 0x6d, 0x6e, 0x6f]"

text \<open>Opening returns the device with its descriptor and \<open>0\<close> or \<open>- 1\<close>.\<close>

definition openCdce937Device :: "'s i2c_bus \<Rightarrow> cdce937_device \<Rightarrow> 's \<Rightarrow> (int \<times> cdce937_device) \<times> 's" where
  "openCdce937Device B device s =
     (let (fd, s') = bus_open B (dev_path device) s
      in ((if fd \<ge> 0 then 0 else - 1, device\<lparr>dev_fd := fd\<rparr>), s'))"

definition closeCdce937Device :: "'s i2c_bus \<Rightarrow> cdce937_device \<Rightarrow> 's \<Rightarrow> cdce937_device \<times> 's" where
  "closeCdce937Device B device s =
     (if dev_fd device \<ge> 0 then (device\<lparr>dev_fd := - 1\<rparr>, bus_close B (dev_fd device) s) else (device, s))"

text \<open>Byte transfers: the high bit of the command byte selects byte mode. \<open>None\<close>/\<open>False\<close> is \<open>- 1\<close>.\<close>

definition i2cByteRead :: "'s i2c_bus \<Rightarrow> int \<Rightarrow> u8 \<Rightarrow> u8 \<Rightarrow> 's \<Rightarrow> u8 option \<times> 's" where
  "i2cByteRead B fd address reg = bus_rdwr_read B fd address (0x80 OR reg)"

definition i2cByteWrite :: "'s i2c_bus \<Rightarrow> int \<Rightarrow> u8 \<Rightarrow> u8 \<Rightarrow> u8 \<Rightarrow> 's \<Rightarrow> bool \<times> 's" where
  "i2cByteWrite B fd address reg value = bus_rdwr_write B fd address [0x80 OR reg, value]"

definition looksLikeCdce937 :: "'s i2c_bus \<Rightarrow> int \<Rightarrow> u8 \<Rightarrow> 's \<Rightarrow> bool \<times> 's" where
  "looksLikeCdce937 B fd address s =
     (case i2cByteRead B fd address kCdce937RegId s of
        (None, s') \<Rightarrow> (False, s')
      | (Some chipId, s') \<Rightarrow> (chipId AND 0x0F = 0x01, s'))"

fun probe_addresses :: "'s i2c_bus \<Rightarrow> cdce937_device \<Rightarrow> u8 list \<Rightarrow> ('s, cdce937_device) io" where
  "probe_addresses B device [] s =
     (Inl (NotFoundException ''No CDCE937 device found on the requested I2C bus.''), s)"
| "probe_addresses B device (address # rest) s =
     (case looksLikeCdce937 B (dev_fd device) address s of
        (True, s') \<Rightarrow> (Inr (device\<lparr>dev_address := address\<rparr>), s')
      | (False, s') \<Rightarrow> probe_addresses B device rest s')"

definition autodetectCdce937 :: "'s i2c_bus \<Rightarrow> cdce937_device \<Rightarrow> ('s, cdce937_device) io" where
  "autodetectCdce937 B device =
     (if dev_addressFixed device then io_ret device else probe_addresses B device kProbeAddresses)"

definition inclkName :: "u8 \<Rightarrow> string" where
  "inclkName value =
     (if value = 0 then ''crystal'' else if value = 1 then ''vcxo''
      else if value = 2 then ''lvcmos'' else ''reserved'')"

section \<open>Registers\<close>

definition pdiv_registers :: "u8 list" where
  "pdiv_registers = [0x26, 0x26, 0x26, 0x37]"

text \<open>A failed transfer reads as divider \<open>0\<close>.\<close>

definition readDividerRegister :: "'s i2c_bus \<Rightarrow> cdce937_device \<Rightarrow> int \<Rightarrow> 's \<Rightarrow> int \<times> 's" where
  "readDividerRegister B device outputIndex s =
     (if outputIndex \<ge> 0 \<and> outputIndex \<le> 2 then
        (case i2cByteRead B (dev_fd device) (dev_address device) 0x02 s of
           (None, s1) \<Rightarrow> (0, s1)
         | (Some reg02, s1) \<Rightarrow>
             (case i2cByteRead B (dev_fd device) (dev_address device) 0x03 s1 of
                (None, s2) \<Rightarrow> (0, s2)
              | (Some reg03, s2) \<Rightarrow>
                  (uint (push_bit 8 (ucast (reg02 AND 0x03) :: u32) OR ucast reg03), s2)))
      else
        (case i2cByteRead B (dev_fd device) (dev_address device) (pdiv_registers ! nat (outputIndex - 3)) s of
           (None, s1) \<Rightarrow> (0, s1)
         | (Some value, s1) \<Rightarrow> (uint (value AND 0x7F), s1)))"

definition writeMaskedCdce937Register ::
    "'s i2c_bus \<Rightarrow> cdce937_device \<Rightarrow> u8 \<Rightarrow> u8 \<Rightarrow> u8 \<Rightarrow> string \<Rightarrow> ('s, unit) io" where
  "writeMaskedCdce937Register B device reg msk value errorMessage s =
     (case i2cByteRead B (dev_fd device) (dev_address device) reg s of
        (None, s1) \<Rightarrow> (Inl (IOException (errorMessage @ '' (read failed).'')), s1)
      | (Some current, s1) \<Rightarrow>
          (let updated = (current AND NOT msk) OR (value AND msk) in
           if updated = current then (Inr (), s1)
           else case i2cByteWrite B (dev_fd device) (dev_address device) reg updated s1 of
                  (False, s2) \<Rightarrow> (Inl (IOException (errorMessage @ '' (write failed).'')), s2)
                | (True, s2) \<Rightarrow> (Inr (), s2)))"

text \<open>\<open>divider\<close> is an \<open>int\<close>, read as a 32-bit pattern by the shifts and masks.\<close>

definition writeDividerRegister :: "'s i2c_bus \<Rightarrow> cdce937_device \<Rightarrow> int \<Rightarrow> int \<Rightarrow> ('s, unit) io" where
  "writeDividerRegister B device outputIndex divider s =
     (let d = (word_of_int divider :: u32) in
      if outputIndex \<ge> 0 \<and> outputIndex \<le> 2 then
        (case i2cByteRead B (dev_fd device) (dev_address device) 0x02 s of
           (None, s1) \<Rightarrow> (Inl (IOException ''Unable to read CDCE937 register 0x02.''), s1)
         | (Some reg02, s1) \<Rightarrow>
             (case i2cByteWrite B (dev_fd device) (dev_address device) 0x02
                     ((reg02 AND 0xFC) OR ucast (drop_bit 8 d AND 0x03)) s1 of
                (False, s2) \<Rightarrow> (Inl (IOException ''Unable to write Y1 divider registers.''), s2)
              | (True, s2) \<Rightarrow>
                  (case i2cByteWrite B (dev_fd device) (dev_address device) 0x03 (ucast (d AND 0xFF)) s2 of
                     (False, s3) \<Rightarrow> (Inl (IOException ''Unable to write Y1 divider registers.''), s3)
                   | (True, s3) \<Rightarrow> (Inr (), s3))))
      else
        (let reg = pdiv_registers ! nat (outputIndex - 3) in
         case i2cByteRead B (dev_fd device) (dev_address device) reg s of
           (None, s1) \<Rightarrow> (Inl (IOException ''Unable to read divider register.''), s1)
         | (Some oldValue, s1) \<Rightarrow>
             (case i2cByteWrite B (dev_fd device) (dev_address device) reg
                     ((oldValue AND 0x80) OR ucast (d AND 0x7F)) s1 of
                (False, s2) \<Rightarrow> (Inl (IOException ''Unable to write divider register.''), s2)
              | (True, s2) \<Rightarrow> (Inr (), s2))))"

definition forceOutputEnabledLocked :: "'s i2c_bus \<Rightarrow> cdce937_device \<Rightarrow> int \<Rightarrow> ('s, unit) io" where
  "forceOutputEnabledLocked B device outputIndex =
     (if outputIndex = 0 then
        writeMaskedCdce937Register B device kCdce937RegY1Control 0x3C 0x3C ''Unable to force-enable Y1 output''
      else if outputIndex = 1 \<or> outputIndex = 2 then
        writeMaskedCdce937Register B device kCdce937RegMux1 0x0F 0x0F ''Unable to force-enable Y2/Y3 output group''
      else if outputIndex = 3 \<or> outputIndex = 4 then
        writeMaskedCdce937Register B device kCdce937RegMux2 0x0F 0x0F ''Unable to force-enable Y4/Y5 output group''
      else if outputIndex = 5 \<or> outputIndex = 6 then
        writeMaskedCdce937Register B device kCdce937RegMux3 0x0F 0x0F ''Unable to force-enable Y6/Y7 output group''
      else io_throw (InvalidArgumentException ''Output index must be in 0..6.''))"

definition disablePllModeForOutputLocked :: "'s i2c_bus \<Rightarrow> cdce937_device \<Rightarrow> int \<Rightarrow> ('s, unit) io" where
  "disablePllModeForOutputLocked B device outputIndex =
     (if outputIndex = 0 then
        writeMaskedCdce937Register B device kCdce937RegY1Control 0x80 0x00 ''Unable to route Y1 directly from the input clock''
      else if outputIndex = 1 then
        writeMaskedCdce937Register B device kCdce937RegMux1 0xC0 0x80 ''Unable to route Y2 to shared Pdiv1 in PLL bypass mode''
      else if outputIndex = 2 then
        writeMaskedCdce937Register B device kCdce937RegMux1 0xB0 0x80 ''Unable to route Y3 to shared Pdiv1 in PLL bypass mode''
      else if outputIndex = 3 then
        writeMaskedCdce937Register B device kCdce937RegMux2 0xC0 0xC0 ''Unable to bypass PLL routing for Y4''
      else if outputIndex = 4 then
        writeMaskedCdce937Register B device kCdce937RegMux2 0xB0 0x90 ''Unable to route Y5 to shared Pdiv4 in PLL bypass mode''
      else if outputIndex = 5 then
        writeMaskedCdce937Register B device kCdce937RegMux3 0xC0 0x80 ''Unable to route Y6 to shared Pdiv4 in PLL bypass mode''
      else if outputIndex = 6 then
        writeMaskedCdce937Register B device kCdce937RegMux3 0xB0 0xA0 ''Unable to bypass PLL routing for Y7''
      else io_throw (InvalidArgumentException ''Output index must be in 0..6.''))"

definition writeOutputDividerLocked :: "'s i2c_bus \<Rightarrow> cdce937_device \<Rightarrow> int \<Rightarrow> int \<Rightarrow> ('s, unit) io" where
  "writeOutputDividerLocked B device outputIndex divider =
     io_seq (forceOutputEnabledLocked B device outputIndex)
       (io_seq (disablePllModeForOutputLocked B device outputIndex)
          (writeDividerRegister B device outputIndex divider))"

definition disablePllModeLocked :: "'s i2c_bus \<Rightarrow> cdce937_device \<Rightarrow> ('s, unit) io" where
  "disablePllModeLocked B device =
     writeMaskedCdce937Register B device kCdce937RegCfg1 0x1C 0x08
       ''Unable to switch CDCE937 input clock to external LVCMOS bypass mode''"

section \<open>The operations\<close>

text \<open>Open, probe, run, and close whether or not the body threw.\<close>

definition withCdce937 ::
    "'s i2c_bus \<Rightarrow> string \<Rightarrow> u64 \<Rightarrow> (cdce937_device \<Rightarrow> u64 \<Rightarrow> ('s, divider_snapshot) io) \<Rightarrow> ('s, divider_snapshot) io" where
  "withCdce937 B devicePath referenceClockHz fn s =
     (let device = \<lparr>dev_path = (if devicePath = [] then kDefaultI2CDevice else devicePath),
                    dev_fd = - 1, dev_address = 0x6c, dev_addressFixed = False\<rparr>;
          ((rc, device1), s1) = openCdce937Device B device s
      in if rc \<noteq> 0 then (Inl (IOException (''Unable to open I2C device '' @ dev_path device)), s1)
         else
           let (r, s2) = io_bind (autodetectCdce937 B device1) (\<lambda>device2. fn device2 referenceClockHz) s1
           in (r, snd (closeCdce937Device B device1 s2)))"

definition read_output :: "(rat \<Rightarrow> rat) \<Rightarrow> 's i2c_bus \<Rightarrow> cdce937_device \<Rightarrow> u64 \<Rightarrow> divider_output_spec \<Rightarrow>
    ('s, divider_output_state) io" where
  "read_output fl B device clockHz spec s =
     (let (divider, s') = readDividerRegister B device (sp_index spec) s
      in (Inr \<lparr>dos_index = sp_index spec, dos_name = sp_name spec, dos_pdivName = sp_pdivName spec,
               dos_pin = sp_pin spec, dos_divider = divider,
               dos_frequencyHz =
                 (if divider > 0 then fl (of_nat (unat clockHz) / of_int divider) else 0)\<rparr>, s'))"

definition status_body :: "poco \<Rightarrow> (rat \<Rightarrow> rat) \<Rightarrow> 's i2c_bus \<Rightarrow> cdce937_device \<Rightarrow> u64 \<Rightarrow> ('s, divider_snapshot) io" where
  "status_body P fl B device clockHz s =
     (case i2cByteRead B (dev_fd device) (dev_address device) kCdce937RegId s of
        (None, s1) \<Rightarrow> (Inl (IOException ''Unable to read CDCE937 status registers.''), s1)
      | (Some reg0, s1) \<Rightarrow>
          (case i2cByteRead B (dev_fd device) (dev_address device) kCdce937RegCfg1 s1 of
             (None, s2) \<Rightarrow> (Inl (IOException ''Unable to read CDCE937 status registers.''), s2)
           | (Some reg1, s2) \<Rightarrow>
               io_bind (io_collect (read_output fl B device clockHz) kDividerOutputs)
                 (\<lambda>outputs. io_ret
                    \<lparr>ds_ok = True,
                     ds_message = ''Divider status synchronized from hardware.'',
                     ds_devicePath = dev_path device,
                     ds_referenceClockHz = clockHz,
                     ds_deviceType = (if reg0 AND 0x80 \<noteq> 0 then ''CDCE937'' else ''CDCEL937''),
                     ds_address = p_format_addr P (dev_address device),
                     ds_inputClock = inclkName (drop_bit 2 reg1 AND 0x03),
                     ds_revisionId = uint (drop_bit 4 reg0 AND 0x07),
                     ds_eepBusy = (drop_bit 6 reg1 AND 0x01 \<noteq> 0),
                     ds_eepLock = (drop_bit 5 reg1 AND 0x01 \<noteq> 0),
                     ds_powerDown = (drop_bit 4 reg1 AND 0x01 \<noteq> 0),
                     ds_outputs = outputs\<rparr>) s2))"

definition readDividerStatus ::
    "poco \<Rightarrow> (rat \<Rightarrow> rat) \<Rightarrow> 's i2c_bus \<Rightarrow> string \<Rightarrow> u64 \<Rightarrow> ('s, divider_snapshot) io" where
  "readDividerStatus P fl B devicePath referenceClockHz =
     io_seq (io_lift (validateReferenceClockHzOrThrow referenceClockHz))
       (withCdce937 B devicePath referenceClockHz (status_body P fl B))"

text \<open>The saved outputs, one after the other; \<open>continue\<close> for an output that was not saved.\<close>

definition restore_output :: "poco \<Rightarrow> 's i2c_bus \<Rightarrow> cdce937_device \<Rightarrow> saved_config \<Rightarrow> nat \<Rightarrow> ('s, unit) io" where
  "restore_output P B device saved index =
     (if \<not> sc_savedOutputs saved ! index then io_ret ()
      else io_seq (io_lift (validateDividerOrThrow P (int index) (sc_dividers saved ! index)))
             (writeOutputDividerLocked B device (int index) (sc_dividers saved ! index)))"

definition initializeHardwareFromSavedConfiguration ::
    "poco \<Rightarrow> (rat \<Rightarrow> rat) \<Rightarrow> 's i2c_bus \<Rightarrow> string option \<Rightarrow> ('s, divider_snapshot) io" where
  "initializeHardwareFromSavedConfiguration P fl B content =
     (let saved = loadSavedDividerConfiguration P content in
      if \<not> sc_hasAnyOutput saved
      then io_throw (NotFoundException ''No valid saved divider configuration was found for Y1~Y7.'')
      else io_bind
        (withCdce937 B (sc_devicePath saved) (sc_referenceClockHz saved)
           (\<lambda>device referenceClockHz.
              io_seq (disablePllModeLocked B device)
                (io_seq (io_each (restore_output P B device saved) [0..<length (sc_dividers saved)])
                   (readDividerStatus P fl B (dev_path device) referenceClockHz))))
        (\<lambda>snapshot. io_ret (snapshot\<lparr>ds_message :=
           (if sc_hasAllOutputs saved
            then ''CDCE937 PLL bypass enabled and saved divider state restored for Y1~Y7.''
            else ''CDCE937 PLL bypass enabled and saved divider state restored for available outputs.'')\<rparr>)))"

text \<open>\<open>applyDividers\<close> also writes the state file: the state is the bus and the file's content.\<close>

record 's world =
  w_bus :: 's
  w_file :: "string option"

definition on_bus :: "('s, 'a) io \<Rightarrow> ('s world, 'a) io" where
  "on_bus m w = (let (r, s) = m (w_bus w) in (r, w\<lparr>w_bus := s\<rparr>))"

definition on_file :: "(string option, 'a) io \<Rightarrow> ('s world, 'a) io" where
  "on_file m w = (let (r, c) = m (w_file w) in (r, w\<lparr>w_file := c\<rparr>))"

fun join_names :: "int list \<Rightarrow> string" where
  "join_names [] = []"
| "join_names [i] = sp_name (kDividerOutputs ! nat i)"
| "join_names (i # is) = sp_name (kDividerOutputs ! nat i) @ '', '' @ join_names is"

definition applyDividers ::
    "poco \<Rightarrow> (rat \<Rightarrow> rat) \<Rightarrow> 's i2c_bus \<Rightarrow> file_outcome \<Rightarrow> string \<Rightarrow> string \<Rightarrow> int list \<Rightarrow> int \<Rightarrow> u64 \<Rightarrow>
     ('s world, divider_snapshot) io" where
  "applyDividers P fl B fo stateFile devicePath outputIndices divider referenceClockHz =
     io_bind (io_lift (normalizeOutputIndicesOrThrow outputIndices)) (\<lambda>normalizedOutputs.
     io_seq (io_each (\<lambda>i. io_lift (validateDividerOrThrow P i divider)) normalizedOutputs)
     (io_seq (io_lift (validateReferenceClockHzOrThrow referenceClockHz))
     (io_bind
        (on_bus (withCdce937 B devicePath referenceClockHz
           (\<lambda>device clockHz.
              io_seq (disablePllModeLocked B device)
                (io_seq (io_each (\<lambda>i. writeOutputDividerLocked B device i divider) normalizedOutputs)
                   (readDividerStatus P fl B (dev_path device) clockHz)))))
        (\<lambda>snapshot.
           io_seq (on_file (saveDividerConfiguration fo stateFile snapshot (ds_devicePath snapshot)))
             (io_ret (snapshot\<lparr>ds_message :=
                ''Divider applied to '' @ join_names normalizedOutputs @
                '' and read back from hardware.''\<rparr>))))))"

end
