(* ===== verification/Cdce937_Chip.thy ===== *)
theory Cdce937_Chip
  imports Cdce937
begin

text \<open>
  The driver of \<open>Cdce937\<close> on a bus behind which the chip is a register file: what each operation
  writes and reads back, what a request that is refused leaves alone, what a restart restores,
  and that every descriptor that was opened is closed.
\<close>

section \<open>A chip that is a register file\<close>

text \<open>
  What the driver assumes of the bus: the chip at \<open>a\<close> answers byte reads with the register's
  content and takes byte writes, nothing else on the bus answers at another address, and opening
  and closing the device file touches no register.
\<close>

definition register_bus :: "'s i2c_bus \<Rightarrow> u8 \<Rightarrow> ('s \<Rightarrow> u8 \<Rightarrow> u8) \<Rightarrow> bool" where
  "register_bus B a regs \<longleftrightarrow>
     a \<in> set kProbeAddresses \<and>
     (\<forall>p s. 0 \<le> fst (bus_open B p s) \<and> regs (snd (bus_open B p s)) = regs s) \<and>
     (\<forall>fd s. regs (bus_close B fd s) = regs s) \<and>
     (\<forall>fd a' c s. fst (bus_rdwr_read B fd a' c s) = (if a' = a then Some (regs s (c AND 0x7F)) else None) \<and>
                  regs (snd (bus_rdwr_read B fd a' c s)) = regs s) \<and>
     (\<forall>fd c v s. fst (bus_rdwr_write B fd a [c, v] s) \<and>
                 regs (snd (bus_rdwr_write B fd a [c, v] s)) = (regs s)(c AND 0x7F := v))"

text \<open>The identification the probe looks for.\<close>

definition chip_present :: "(u8 \<Rightarrow> u8) \<Rightarrow> bool" where
  "chip_present r \<longleftrightarrow> r kCdce937RegId AND 0x0F = 0x01"

lemma byte_command: "(0x80 OR reg) AND 0x7F = (reg AND 0x7F :: u8)"
  by (rule bit_word_eqI) (auto simp: bit_simps dest!: less_8_cases)

lemma chip_read:
  assumes "register_bus B a regs" and "reg AND 0x7F = reg"
  obtains s' where "i2cByteRead B fd a reg s = (Some (regs s reg), s')" and "regs s' = regs s"
  using assms byte_command [of reg] by (auto simp: register_bus_def i2cByteRead_def prod_eq_iff)

lemma chip_write:
  assumes "register_bus B a regs" and "reg AND 0x7F = reg"
  obtains s' where "i2cByteWrite B fd a reg v s = (True, s')" and "regs s' = (regs s)(reg := v)"
  using assms byte_command [of reg] by (auto simp: register_bus_def i2cByteWrite_def prod_eq_iff)

text \<open>A statement of the driver that cannot fail on such a chip, as the function it applies to the registers.\<close>

definition chip_does :: "('s \<Rightarrow> u8 \<Rightarrow> u8) \<Rightarrow> ('s, unit) io \<Rightarrow> ((u8 \<Rightarrow> u8) \<Rightarrow> u8 \<Rightarrow> u8) \<Rightarrow> bool" where
  "chip_does regs m f \<longleftrightarrow> (\<forall>s. \<exists>s'. m s = (Inr (), s') \<and> regs s' = f (regs s))"

lemma chip_doesD:
  assumes "chip_does regs m f"
  obtains s' where "m s = (Inr (), s')" and "regs s' = f (regs s)"
  using assms by (auto simp: chip_does_def)

lemma chip_does_ret: "chip_does regs (io_ret ()) (\<lambda>r. r)"
  by (simp add: chip_does_def io_ret_def)

lemma chip_does_seq:
  assumes "chip_does regs m f" and "chip_does regs n g"
  shows "chip_does regs (io_seq m n) (\<lambda>r. g (f r))"
  unfolding chip_does_def
proof
  fix s
  obtain s1 where "m s = (Inr (), s1)" "regs s1 = f (regs s)" using assms(1) by (rule chip_doesD)
  moreover obtain s2 where "n s1 = (Inr (), s2)" "regs s2 = g (regs s1)" using assms(2) by (rule chip_doesD)
  ultimately show "\<exists>s'. io_seq m n s = (Inr (), s') \<and> regs s' = g (f (regs s))"
    by (simp add: io_seq_Inr)
qed

lemma chip_does_each:
  "(\<And>x. x \<in> set xs \<Longrightarrow> chip_does regs (m x) (f x)) \<Longrightarrow> chip_does regs (io_each m xs) (fold f xs)"
proof (induction xs)
  case Nil
  then show ?case by (simp add: chip_does_def io_ret_def)
next
  case (Cons x xs)
  have "chip_does regs (io_seq (m x) (io_each m xs)) (\<lambda>r. fold f xs (f x r))"
  proof (rule chip_does_seq [where f = "f x" and g = "fold f xs"])
    show "chip_does regs (m x) (f x)" using Cons.prems by simp
    show "chip_does regs (io_each m xs) (fold f xs)" using Cons.prems by (intro Cons.IH) simp
  qed
  then show ?case unfolding io_each.simps fold_Cons comp_def .
qed

definition masked :: "u8 \<Rightarrow> u8 \<Rightarrow> u8 \<Rightarrow> (u8 \<Rightarrow> u8) \<Rightarrow> u8 \<Rightarrow> u8" where
  "masked reg m v r = r(reg := (r reg AND NOT m) OR (v AND m))"

lemma chip_does_masked:
  assumes "register_bus B a regs" and "reg AND 0x7F = reg" and "dev_address device = a"
  shows "chip_does regs (writeMaskedCdce937Register B device reg m v e) (masked reg m v)"
  unfolding chip_does_def
proof
  fix s
  obtain s1 where r: "i2cByteRead B (dev_fd device) a reg s = (Some (regs s reg), s1)" "regs s1 = regs s"
    using assms(1,2) by (rule chip_read)
  let ?u = "(regs s reg AND NOT m) OR (v AND m)"
  obtain s2 where w: "i2cByteWrite B (dev_fd device) a reg ?u s1 = (True, s2)" "regs s2 = (regs s1)(reg := ?u)"
    using assms(1,2) by (rule chip_write)
  show "\<exists>s'. writeMaskedCdce937Register B device reg m v e s = (Inr (), s') \<and> regs s' = masked reg m v (regs s)"
    using r w assms(3)
    by (cases "?u = regs s reg") (auto simp: writeMaskedCdce937Register_def masked_def Let_def)
qed

subsection \<open>The effect of one output's write\<close>

definition enable_reg :: "int \<Rightarrow> u8" where
  "enable_reg i = (if i = 0 then 0x02 else if i \<le> 2 then 0x14 else if i \<le> 4 then 0x24 else 0x34)"

definition enable_mask :: "int \<Rightarrow> u8" where
  "enable_mask i = (if i = 0 then 0x3C else 0x0F)"

definition bypass_mask :: "int \<Rightarrow> u8" where
  "bypass_mask i = [0x80, 0xC0, 0xB0, 0xC0, 0xB0, 0xC0, 0xB0] ! nat i"

definition bypass_value :: "int \<Rightarrow> u8" where
  "bypass_value i = [0x00, 0x80, 0x80, 0xC0, 0x90, 0x80, 0xA0] ! nat i"

definition pdiv_effect :: "int \<Rightarrow> int \<Rightarrow> (u8 \<Rightarrow> u8) \<Rightarrow> u8 \<Rightarrow> u8" where
  "pdiv_effect i d r =
     (let w = (word_of_int d :: u32) in
      if i \<le> 2 then r(0x02 := (r 0x02 AND 0xFC) OR ucast (drop_bit 8 w AND 0x03), 0x03 := ucast (w AND 0xFF))
      else let reg = pdiv_registers ! nat (i - 3) in r(reg := (r reg AND 0x80) OR ucast (w AND 0x7F)))"

definition output_effect :: "int \<Rightarrow> int \<Rightarrow> (u8 \<Rightarrow> u8) \<Rightarrow> u8 \<Rightarrow> u8" where
  "output_effect i d r =
     pdiv_effect i d (masked (enable_reg i) (bypass_mask i) (bypass_value i)
       (masked (enable_reg i) (enable_mask i) (enable_mask i) r))"

definition chip_divider :: "(u8 \<Rightarrow> u8) \<Rightarrow> int \<Rightarrow> int" where
  "chip_divider r i =
     (if i \<le> 2 then uint (push_bit 8 (ucast (r 0x02 AND 0x03) :: u32) OR ucast (r 0x03))
      else uint (r (pdiv_registers ! nat (i - 3)) AND 0x7F))"

text \<open>The outputs and the divider they share, as the output table names it.\<close>

definition pdiv_name :: "int \<Rightarrow> string" where
  "pdiv_name i = sp_pdivName (kDividerOutputs ! nat i)"

lemma output_cases:
  assumes "0 \<le> i" and "i < 7"
  obtains "i = 0" | "i = 1" | "i = 2" | "i = 3" | "i = 4" | "i = 5" | "i = (6::int)"
  using assms by fastforce

lemma chip_does_divider:
  assumes "register_bus B a regs" and "dev_address device = a" and "0 \<le> i" and "i < 7"
  shows "chip_does regs (writeDividerRegister B device i d) (pdiv_effect i d)"
  unfolding chip_does_def
proof
  fix s
  let ?w = "word_of_int d :: u32"
  show "\<exists>s'. writeDividerRegister B device i d s = (Inr (), s') \<and> regs s' = pdiv_effect i d (regs s)"
  proof (cases "i \<le> 2")
    case True
    let ?v2 = "(regs s 2 AND 0xFC) OR ucast (drop_bit 8 ?w AND 3)" and ?v3 = "ucast (?w AND 0xFF) :: u8"
    have regs23: "(2::u8) AND 0x7F = 2" "(3::u8) AND 0x7F = 3" by simp_all
    obtain s1 where "i2cByteRead B (dev_fd device) a 2 s = (Some (regs s 2), s1)" "regs s1 = regs s"
      using assms(1) regs23(1) by (rule chip_read)
    moreover obtain s2 where "i2cByteWrite B (dev_fd device) a 2 ?v2 s1 = (True, s2)" "regs s2 = (regs s1)(2 := ?v2)"
      using assms(1) regs23(1) by (rule chip_write)
    moreover obtain s3 where "i2cByteWrite B (dev_fd device) a 3 ?v3 s2 = (True, s3)" "regs s3 = (regs s2)(3 := ?v3)"
      using assms(1) regs23(2) by (rule chip_write)
    ultimately show ?thesis
      using True assms(2,3) by (simp add: writeDividerRegister_def pdiv_effect_def Let_def)
  next
    case False
    let ?reg = "pdiv_registers ! nat (i - 3)"
    have reg: "?reg AND 0x7F = ?reg"
      using False assms(3,4) by (elim output_cases) (simp_all add: pdiv_registers_def)
    obtain s1 where "i2cByteRead B (dev_fd device) a ?reg s = (Some (regs s ?reg), s1)" "regs s1 = regs s"
      using assms(1) reg by (rule chip_read)
    moreover let ?v = "(regs s ?reg AND 0x80) OR ucast (?w AND 0x7F)"
    obtain s2 where "i2cByteWrite B (dev_fd device) a ?reg ?v s1 = (True, s2)" "regs s2 = (regs s1)(?reg := ?v)"
      using assms(1) reg by (rule chip_write)
    ultimately show ?thesis
      using False assms(2) by (simp add: writeDividerRegister_def pdiv_effect_def Let_def)
  qed
qed

lemma chip_does_enable:
  assumes "register_bus B a regs" and "dev_address device = a" and "0 \<le> i" and "i < 7"
  shows "chip_does regs (forceOutputEnabledLocked B device i) (masked (enable_reg i) (enable_mask i) (enable_mask i))"
  using assms(3,4)
  by (elim output_cases)
     (simp_all add: forceOutputEnabledLocked_def register_consts enable_reg_def enable_mask_def
        chip_does_masked [OF assms(1) _ assms(2)])

lemma chip_does_bypass:
  assumes "register_bus B a regs" and "dev_address device = a" and "0 \<le> i" and "i < 7"
  shows "chip_does regs (disablePllModeForOutputLocked B device i) (masked (enable_reg i) (bypass_mask i) (bypass_value i))"
  using assms(3,4)
  by (elim output_cases)
     (simp_all add: disablePllModeForOutputLocked_def register_consts enable_reg_def bypass_mask_def bypass_value_def
        chip_does_masked [OF assms(1) _ assms(2)])

lemma chip_does_output:
  assumes "register_bus B a regs" and "dev_address device = a" and "0 \<le> i" and "i < 7"
  shows "chip_does regs (writeOutputDividerLocked B device i d) (output_effect i d)"
proof -
  note steps = chip_does_seq [OF chip_does_enable [OF assms]
      chip_does_seq [OF chip_does_bypass [OF assms] chip_does_divider [OF assms]]]
  then show ?thesis unfolding writeOutputDividerLocked_def output_effect_def [abs_def] .
qed

lemma chip_does_input_clock:
  assumes "register_bus B a regs" and "dev_address device = a"
  shows "chip_does regs (disablePllModeLocked B device) (masked 0x01 0x1C 0x08)"
  unfolding disablePllModeLocked_def kCdce937RegCfg1_def
  by (rule chip_does_masked [OF assms(1) _ assms(2)]) simp

lemma chip_reads_divider:
  assumes "register_bus B a regs" and "dev_address device = a" and "0 \<le> i" and "i < 7"
  obtains s' where "readDividerRegister B device i s = (chip_divider (regs s) i, s')" and "regs s' = regs s"
proof (cases "i \<le> 2")
  case True
  have regs23: "(2::u8) AND 0x7F = 2" "(3::u8) AND 0x7F = 3" by simp_all
  obtain s1 where "i2cByteRead B (dev_fd device) a 2 s = (Some (regs s 2), s1)" "regs s1 = regs s"
    using assms(1) regs23(1) by (rule chip_read)
  moreover obtain s2 where "i2cByteRead B (dev_fd device) a 3 s1 = (Some (regs s1 3), s2)" "regs s2 = regs s1"
    using assms(1) regs23(2) by (rule chip_read)
  ultimately show thesis
    using True assms(2,3) that [of s2] by (simp add: readDividerRegister_def chip_divider_def)
next
  case False
  let ?reg = "pdiv_registers ! nat (i - 3)"
  have reg: "?reg AND 0x7F = ?reg"
    using False assms(3,4) by (elim output_cases) (simp_all add: pdiv_registers_def)
  obtain s1 where "i2cByteRead B (dev_fd device) a ?reg s = (Some (regs s ?reg), s1)" "regs s1 = regs s"
    using assms(1) reg by (rule chip_read)
  then show thesis
    using False assms(2) that [of s1] by (simp add: readDividerRegister_def chip_divider_def)
qed

subsection \<open>What a write does to the outputs\<close>

lemma divider_10_bits:
  assumes "0 < d" and "d \<le> 1023"
  shows "uint (push_bit 8 (ucast (((r AND 0xFC) OR ucast (drop_bit 8 (word_of_int d :: u32) AND 0x03)) AND 3 :: u8) :: u32)
    OR ucast (ucast ((word_of_int d :: u32) AND 0xFF) :: u8)) = d"
proof -
  define w where "w = (word_of_int d :: u32)"
  have "((r AND 0xFC) OR x) AND 3 = (x AND 3 :: u8)" for x
    by (rule bit_word_eqI) (auto simp: bit_simps dest!: less_8_cases)
  moreover have "push_bit 8 (ucast (take_bit 2 (ucast (take_bit 2 (drop_bit 8 w)) :: u8)) :: u32)
      OR ucast (ucast (take_bit 8 w) :: u8) = take_bit 10 w"
    by (rule bit_word_eqI) (auto simp: bit_simps)
  moreover have "uint (take_bit 10 w) = d"
    using assms small_int_take_bit [of d 10] by (simp add: w_def)
  ultimately show ?thesis unfolding w_def and_low_masks by (simp only:)
qed

lemma divider_7_bits:
  assumes "0 < d" and "d \<le> 127"
  shows "uint (((r AND 0x80) OR ucast ((word_of_int d :: u32) AND 0x7F)) AND 0x7F :: u8) = d"
proof -
  define w where "w = (word_of_int d :: u32)"
  have "((r AND 0x80) OR x) AND 0x7F = (x AND 0x7F :: u8)" for x
    by (rule bit_word_eqI) (auto simp: bit_simps dest!: less_8_cases)
  moreover have "uint (take_bit 7 (ucast (take_bit 7 w) :: u8)) = uint (take_bit 7 w)"
    by (rule bit_eqI) (auto simp: bit_simps)
  moreover have "uint (take_bit 7 w) = d"
    using assms small_int_take_bit [of d 7] by (simp add: w_def)
  ultimately show ?thesis unfolding w_def and_low_masks by (simp only:)
qed

lemma pdiv_effect_divider:
  assumes "0 \<le> i" "i < 7" "0 \<le> j" "j < 7" and d: "0 < d" "d \<le> dividerLimitForOutput i"
  shows "chip_divider (pdiv_effect i d r) j = (if pdiv_name i = pdiv_name j then d else chip_divider r j)"
proof (cases "i \<le> 2")
  case True
  then have "d \<le> 1023" using d assms(1) by (simp add: dividerLimitForOutput_def)
  note readback = divider_10_bits [OF d(1) this, of "r 2"]
  show ?thesis
    using True assms(1,3,4) readback
    by (elim output_cases)
       (simp_all add: chip_divider_def pdiv_effect_def Let_def pdiv_name_def kDividerOutputs_def output_spec_def
          pdiv_registers_def)
next
  case False
  then have "d \<le> 127" using d by (simp add: dividerLimitForOutput_def split: if_splits)
  note readback = divider_7_bits [OF d(1) this]
  show ?thesis
    using False assms(1-4) readback [of "r 0x26"] readback [of "r 0x37"]
    by (elim output_cases [of i]; elim output_cases [of j])
       (simp_all add: chip_divider_def pdiv_effect_def Let_def pdiv_name_def kDividerOutputs_def output_spec_def
          pdiv_registers_def)
qed

lemma masked_other: "reg' \<noteq> reg \<Longrightarrow> masked reg m v r reg' = r reg'"
  by (simp add: masked_def)

lemma masked_divider:
  assumes "0 \<le> i" "i < 7" "0 \<le> j" "j < 7" and "m AND 0x03 = 0"
  shows "chip_divider (masked (enable_reg i) m v r) j = chip_divider r j"
proof -
  have low: "((x AND NOT m) OR (v AND m)) AND 0x03 = x AND 0x03" for x
    using masked_write_keeps [of x "0x03" x m v] assms(5) by (simp add: and.assoc [symmetric] and.commute)
  show ?thesis
    using assms(1-4) low
    by (elim output_cases [of i]; elim output_cases [of j])
       (simp_all add: chip_divider_def masked_def enable_reg_def pdiv_registers_def)
qed

lemma output_effect_divider:
  assumes "0 \<le> i" "i < 7" "0 \<le> j" "j < 7" and "0 < d" "d \<le> dividerLimitForOutput i"
  shows "chip_divider (output_effect i d r) j = (if pdiv_name i = pdiv_name j then d else chip_divider r j)"
proof -
  have "bypass_mask i AND 0x03 = 0" and "enable_mask i AND 0x03 = 0 \<or> i \<noteq> 0"
    using assms(1,2) by (elim output_cases; simp add: bypass_mask_def enable_mask_def)+
  then have "chip_divider (masked (enable_reg i) (bypass_mask i) (bypass_value i)
      (masked (enable_reg i) (enable_mask i) (enable_mask i) r)) j = chip_divider r j"
  proof (cases "i = 0")
    case True
    with \<open>enable_mask i AND 0x03 = 0 \<or> i \<noteq> 0\<close> \<open>bypass_mask i AND 0x03 = 0\<close> show ?thesis
      using assms(1-4) by (simp add: masked_divider)
  next
    case False
    then have "enable_reg i \<notin> {2, 3, 0x26, 0x37}"
      using assms(1,2) by (elim output_cases; simp add: enable_reg_def)
    then show ?thesis
      using assms(3,4)
      by (elim output_cases [of j]) (simp_all add: chip_divider_def masked_def pdiv_registers_def)
  qed
  then show ?thesis
    using assms by (simp add: output_effect_def pdiv_effect_divider)
qed

text \<open>Writes to several outputs: the ones that share a divider must agree on it.\<close>

lemma fold_output_effects_divider:
  assumes "\<forall>x \<in> set xs. 0 \<le> ix x \<and> ix x < 7 \<and> 0 < dv x \<and> dv x \<le> dividerLimitForOutput (ix x) \<and>
      (pdiv_name (ix x) = pdiv_name j \<longrightarrow> dv x = D)"
    and "0 \<le> j" "j < 7"
  shows "chip_divider (fold (\<lambda>x. output_effect (ix x) (dv x)) xs r) j =
    (if \<exists>x \<in> set xs. pdiv_name (ix x) = pdiv_name j then D else chip_divider r j)"
  using assms(1)
proof (induction xs arbitrary: r)
  case Nil
  then show ?case by simp
next
  case (Cons x xs)
  then show ?case using assms(2,3) by (auto simp: output_effect_divider)
qed

text \<open>An output is enabled and bypasses the PLL when its control bits have these values.\<close>

definition output_enabled :: "(u8 \<Rightarrow> u8) \<Rightarrow> int \<Rightarrow> bool" where
  "output_enabled r i \<longleftrightarrow> r (enable_reg i) AND enable_mask i = enable_mask i"

definition output_bypassed :: "(u8 \<Rightarrow> u8) \<Rightarrow> int \<Rightarrow> bool" where
  "output_bypassed r i \<longleftrightarrow> r (enable_reg i) AND bypass_mask i = bypass_value i"

lemma bypass_value_masked: "0 \<le> i \<Longrightarrow> i < 7 \<Longrightarrow> bypass_value i AND bypass_mask i = bypass_value i"
  by (elim output_cases) (simp_all add: bypass_value_def bypass_mask_def)

lemma pdiv_effect_control:
  assumes "0 \<le> i" "i < 7" "0 \<le> j" "j < 7" and "m AND 0x03 = 0"
  shows "pdiv_effect i d r (enable_reg j) AND m = r (enable_reg j) AND m"
proof -
  have keep: "((x AND 0xFC) OR ucast (drop_bit 8 w AND 0x03)) AND m = x AND m" for x and w :: u32
  proof (rule bit_word_eqI)
    fix n assume "n < LENGTH(8)"
    then have "n = 0 \<or> n = 1 \<or> n = 2 \<or> n = 3 \<or> n = 4 \<or> n = 5 \<or> n = 6 \<or> n = 7"
      using less_8_cases [of n] by simp
    moreover have "\<not> bit (m AND 0x03) n" using assms(5) by simp
    ultimately show "bit (((x AND 0xFC) OR ucast (drop_bit 8 w AND 0x03)) AND m) n = bit (x AND m) n"
      by (auto simp: bit_simps)
  qed
  have "enable_reg j \<notin> {3, 0x26, 0x37}"
    using assms(3,4) by (elim output_cases; simp add: enable_reg_def)
  moreover have "3 \<le> i \<Longrightarrow> pdiv_registers ! nat (i - 3) \<in> {0x26, 0x37}"
    using assms(2) by (elim output_cases [of i, rotated]) (simp_all add: pdiv_registers_def)
  ultimately show ?thesis
    by (cases "i \<le> 2") (auto simp: pdiv_effect_def Let_def keep)
qed

lemma control_bits_low: "0 \<le> i \<Longrightarrow> i < 7 \<Longrightarrow> bypass_mask i AND 0x03 = 0"
  by (elim output_cases) (simp_all add: bypass_mask_def)

lemma pdiv_effect_enable:
  assumes "0 \<le> i" "i < 7" "0 \<le> j" "j < 7"
  shows "pdiv_effect i d r (enable_reg j) AND enable_mask j = r (enable_reg j) AND enable_mask j"
proof (cases "j = 0")
  case True
  then show ?thesis using assms by (intro pdiv_effect_control) (simp_all add: enable_mask_def)
next
  case False
  then have "enable_reg j \<notin> {2, 3, 0x26, 0x37}"
    using assms(3,4) by (elim output_cases; simp add: enable_reg_def)
  moreover have "3 \<le> i \<Longrightarrow> pdiv_registers ! nat (i - 3) \<in> {0x26, 0x37}"
    using assms(2) by (elim output_cases [of i, rotated]) (simp_all add: pdiv_registers_def)
  ultimately show ?thesis by (cases "i \<le> 2") (auto simp: pdiv_effect_def Let_def)
qed

text \<open>What one output's write leaves of the control bits of another.\<close>

lemma enable_kept:
  assumes "0 \<le> i" "i < 7" "0 \<le> j" "j < 7" and "output_enabled r j"
  shows "output_enabled (output_effect i d r) j"
proof -
  let ?r1 = "masked (enable_reg i) (enable_mask i) (enable_mask i) r"
  let ?r2 = "masked (enable_reg i) (bypass_mask i) (bypass_value i) ?r1"
  have "output_enabled ?r1 j"
    using assms masked_write_keeps [of "r (enable_reg j)" "enable_mask j" "enable_mask j" "enable_mask i" "enable_mask i"]
    by (elim output_cases [of i]; elim output_cases [of j])
       (simp_all add: output_enabled_def masked_def enable_reg_def enable_mask_def)
  then have "output_enabled ?r2 j"
    using assms(1-4) masked_write_keeps [of "?r1 (enable_reg j)" "enable_mask j" "enable_mask j" "bypass_mask i" "bypass_value i"]
    by (elim output_cases [of i]; elim output_cases [of j])
       (simp_all add: output_enabled_def masked_def [of _ "bypass_mask _"] masked_def [of _ "0x80"] masked_def [of _ "0xC0"]
          masked_def [of _ "0xB0"] enable_reg_def enable_mask_def bypass_mask_def bypass_value_def)
  then show ?thesis
    using assms(1-4) by (simp add: output_enabled_def output_effect_def pdiv_effect_enable)
qed

lemma bypass_kept:
  assumes "0 \<le> i" "i < 7" "0 \<le> j" "j < 7" and "output_bypassed r j"
  shows "output_bypassed (output_effect i d r) j"
proof -
  let ?r1 = "masked (enable_reg i) (enable_mask i) (enable_mask i) r"
  let ?r2 = "masked (enable_reg i) (bypass_mask i) (bypass_value i) ?r1"
  note vj = bypass_value_masked [OF assms(3,4)]
  have "(enable_mask i AND bypass_mask j) AND (enable_mask i XOR bypass_value j) = 0 \<or> enable_reg i \<noteq> enable_reg j"
    using assms(1-4)
    by (elim output_cases [of i]; elim output_cases [of j])
       (simp_all add: enable_reg_def enable_mask_def bypass_mask_def bypass_value_def)
  then have "output_bypassed ?r1 j"
    using assms(5) vj masked_write_keeps [of "r (enable_reg j)" "bypass_mask j" "bypass_value j" "enable_mask i" "enable_mask i"]
    by (cases "enable_reg i = enable_reg j") (simp_all add: output_bypassed_def masked_def)
  moreover have "(bypass_mask i AND bypass_mask j) AND (bypass_value i XOR bypass_value j) = 0 \<or> enable_reg i \<noteq> enable_reg j"
    using assms(1-4)
    by (elim output_cases [of i]; elim output_cases [of j])
       (simp_all add: enable_reg_def bypass_mask_def bypass_value_def)
  ultimately have "output_bypassed ?r2 j"
    using vj masked_write_keeps [of "?r1 (enable_reg j)" "bypass_mask j" "bypass_value j" "bypass_mask i" "bypass_value i"]
    by (cases "enable_reg i = enable_reg j") (simp_all add: output_bypassed_def masked_def [of _ "bypass_mask i"])
  then show ?thesis
    using assms(1-4) by (simp add: output_bypassed_def output_effect_def pdiv_effect_control control_bits_low)
qed

lemma output_effect_sets:
  assumes "0 \<le> i" "i < 7"
  shows "output_enabled (output_effect i d r) i" and "output_bypassed (output_effect i d r) i"
proof -
  let ?r1 = "masked (enable_reg i) (enable_mask i) (enable_mask i) r"
  let ?r2 = "masked (enable_reg i) (bypass_mask i) (bypass_value i) ?r1"
  have "output_bypassed ?r2 i"
    using assms bypass_value_masked [OF assms] masked_write_sets [of "?r1 (enable_reg i)" "bypass_mask i" "bypass_value i"]
    by (simp add: output_bypassed_def masked_def [of _ "bypass_mask i"])
  then show "output_bypassed (output_effect i d r) i"
    using assms by (simp add: output_bypassed_def output_effect_def pdiv_effect_control control_bits_low)
  have "r' (enable_reg i) AND enable_mask i = enable_mask i \<Longrightarrow>
      output_enabled (pdiv_effect i d (masked (enable_reg i) (bypass_mask i) (bypass_value i) r')) i" for r'
  proof -
    assume r': "r' (enable_reg i) AND enable_mask i = enable_mask i"
    have "(bypass_mask i AND enable_mask i) AND (bypass_value i XOR enable_mask i) = 0"
      using assms by (elim output_cases) (simp_all add: bypass_mask_def enable_mask_def bypass_value_def)
    then have "output_enabled (masked (enable_reg i) (bypass_mask i) (bypass_value i) r') i"
      using r' masked_write_keeps [of "r' (enable_reg i)" "enable_mask i" "enable_mask i" "bypass_mask i" "bypass_value i"]
      by (simp add: output_enabled_def masked_def)
    then show ?thesis using assms by (simp add: output_enabled_def pdiv_effect_enable)
  qed
  moreover have "?r1 (enable_reg i) AND enable_mask i = enable_mask i"
    using masked_write_sets [of "r (enable_reg i)" "enable_mask i" "enable_mask i"] by (simp add: masked_def)
  ultimately show "output_enabled (output_effect i d r) i"
    by (simp add: output_effect_def)
qed

lemma fold_output_effect_control:
  assumes "\<forall>i \<in> set ns. 0 \<le> i \<and> i < 7" and "0 \<le> j" "j < 7" and "j \<in> set ns \<or> output_enabled r j \<and> output_bypassed r j"
  shows "output_enabled (fold (\<lambda>i. output_effect i d) ns r) j \<and> output_bypassed (fold (\<lambda>i. output_effect i d) ns r) j"
  using assms(1,4)
proof (induction ns arbitrary: r)
  case Nil
  then show ?case by simp
next
  case (Cons i ns)
  then show ?case
    using assms(2,3) by (auto simp: output_effect_sets enable_kept bypass_kept)
qed

subsection \<open>The operations on such a chip\<close>

lemma probe_finds_chip:
  assumes "register_bus B a regs" and "chip_present (regs s)" and "a \<in> set addresses"
  shows "\<exists>s'. probe_addresses B device addresses s = (Inr (device\<lparr>dev_address := a\<rparr>), s') \<and> regs s' = regs s"
  using assms(2,3)
proof (induction addresses arbitrary: s)
  case Nil
  then show ?case by simp
next
  case (Cons x xs)
  show ?case
  proof (cases "x = a")
    case True
    have "kCdce937RegId AND 0x7F = kCdce937RegId" by (simp add: kCdce937RegId_def)
    with assms(1) obtain s1 where
      "i2cByteRead B (dev_fd device) a kCdce937RegId s = (Some (regs s kCdce937RegId), s1)" "regs s1 = regs s"
      by (rule chip_read)
    then show ?thesis
      using True Cons.prems(1) by (simp add: looksLikeCdce937_def chip_present_def)
  next
    case False
    obtain s1 where s1: "i2cByteRead B (dev_fd device) x kCdce937RegId s = (None, s1)" "regs s1 = regs s"
      using assms(1) False by (auto simp: register_bus_def i2cByteRead_def prod_eq_iff)
    then have "looksLikeCdce937 B (dev_fd device) x s = (False, s1)"
      by (simp add: looksLikeCdce937_def)
    moreover have "\<exists>s'. probe_addresses B device xs s1 = (Inr (device\<lparr>dev_address := a\<rparr>), s') \<and> regs s' = regs s1"
      using False Cons.prems s1(2) by (intro Cons.IH) simp_all
    ultimately show ?thesis using s1(2) by simp
  qed
qed

definition chip_path :: "string \<Rightarrow> string" where
  "chip_path p = (if p = [] then kDefaultI2CDevice else p)"

lemma with_chip:
  assumes "register_bus B a regs" and "chip_present (regs s)"
  obtains device s1 where "regs s1 = regs s" and "dev_address device = a" and "dev_path device = chip_path p"
    and "\<And>fn. withCdce937 B p hz fn s =
      (fst (fn device hz s1), bus_close B (dev_fd device) (snd (fn device hz s1)))"
proof -
  obtain fd s0 where s0: "bus_open B (chip_path p) s = (fd, s0)" "0 \<le> fd" "regs s0 = regs s"
    using assms(1) by (metis register_bus_def prod.collapse)
  let ?device = "\<lparr>dev_path = chip_path p, dev_fd = fd, dev_address = 0x6c, dev_addressFixed = False\<rparr>"
  have "a \<in> set kProbeAddresses" using assms(1) by (simp add: register_bus_def)
  then obtain s1 where s1: "autodetectCdce937 B ?device s0 = (Inr (?device\<lparr>dev_address := a\<rparr>), s1)" "regs s1 = regs s0"
    using probe_finds_chip [OF assms(1), of s0 kProbeAddresses ?device] assms(2) s0(3)
    by (auto simp: autodetectCdce937_def)
  have "withCdce937 B p hz fn s =
      (fst (fn (?device\<lparr>dev_address := a\<rparr>) hz s1), bus_close B fd (snd (fn (?device\<lparr>dev_address := a\<rparr>) hz s1)))" for fn
    using s0 s1 by (simp add: withCdce937_def openCdce937Device_def closeCdce937Device_def
        chip_path_def [symmetric] io_bind_Inr case_prod_beta)
  then show thesis
    using s0(3) s1(2) by (intro that [of s1 "?device\<lparr>dev_address := a\<rparr>"]) simp_all
qed

definition chip_output :: "(rat \<Rightarrow> rat) \<Rightarrow> u64 \<Rightarrow> (u8 \<Rightarrow> u8) \<Rightarrow> divider_output_spec \<Rightarrow> divider_output_state" where
  "chip_output fl hz r spec =
     \<lparr>dos_index = sp_index spec, dos_name = sp_name spec, dos_pdivName = sp_pdivName spec, dos_pin = sp_pin spec,
      dos_divider = chip_divider r (sp_index spec),
      dos_frequencyHz = (if chip_divider r (sp_index spec) > 0
        then fl (of_nat (unat hz) / of_int (chip_divider r (sp_index spec))) else 0)\<rparr>"

definition chip_snapshot :: "poco \<Rightarrow> (rat \<Rightarrow> rat) \<Rightarrow> string \<Rightarrow> u8 \<Rightarrow> u64 \<Rightarrow> (u8 \<Rightarrow> u8) \<Rightarrow> divider_snapshot" where
  "chip_snapshot P fl path a hz r =
     \<lparr>ds_ok = True, ds_message = ''Divider status synchronized from hardware.'', ds_devicePath = path,
      ds_referenceClockHz = hz,
      ds_deviceType = (if r kCdce937RegId AND 0x80 \<noteq> 0 then ''CDCE937'' else ''CDCEL937''),
      ds_address = p_format_addr P a,
      ds_inputClock = inclkName (drop_bit 2 (r kCdce937RegCfg1) AND 0x03),
      ds_revisionId = uint (drop_bit 4 (r kCdce937RegId) AND 0x07),
      ds_eepBusy = (drop_bit 6 (r kCdce937RegCfg1) AND 0x01 \<noteq> 0),
      ds_eepLock = (drop_bit 5 (r kCdce937RegCfg1) AND 0x01 \<noteq> 0),
      ds_powerDown = (drop_bit 4 (r kCdce937RegCfg1) AND 0x01 \<noteq> 0),
      ds_outputs = map (chip_output fl hz r) kDividerOutputs\<rparr>"

lemma collect_chip_outputs:
  assumes "register_bus B a regs" and "dev_address device = a"
    and "\<forall>spec \<in> set specs. 0 \<le> sp_index spec \<and> sp_index spec < 7"
  shows "\<exists>s'. io_collect (read_output fl B device hz) specs s = (Inr (map (chip_output fl hz (regs s)) specs), s') \<and>
    regs s' = regs s"
  using assms(3)
proof (induction specs arbitrary: s)
  case Nil
  then show ?case by (simp add: io_ret_def)
next
  case (Cons spec specs)
  then have "0 \<le> sp_index spec" "sp_index spec < 7" by simp_all
  with assms(1,2) obtain s1 where
    "readDividerRegister B device (sp_index spec) s = (chip_divider (regs s) (sp_index spec), s1)" "regs s1 = regs s"
    by (rule chip_reads_divider)
  then have "read_output fl B device hz spec s = (Inr (chip_output fl hz (regs s) spec), s1)" "regs s1 = regs s"
    by (simp_all add: read_output_def chip_output_def)
  moreover obtain s2 where
    "io_collect (read_output fl B device hz) specs s1 = (Inr (map (chip_output fl hz (regs s1)) specs), s2)"
    "regs s2 = regs s1"
    using Cons by auto
  ultimately show ?case by (simp add: io_simps)
qed

lemma output_indices: "\<forall>spec \<in> set kDividerOutputs. 0 \<le> sp_index spec \<and> sp_index spec < 7"
  by (simp add: kDividerOutputs_def output_spec_def)

lemma status_of_chip:
  assumes "register_bus B a regs" and "dev_address device = a"
  obtains s' where "status_body P fl B device hz s =
      (Inr (chip_snapshot P fl (dev_path device) a hz (regs s)), s')" and "regs s' = regs s"
proof -
  have id01: "kCdce937RegId AND 0x7F = kCdce937RegId" "kCdce937RegCfg1 AND 0x7F = kCdce937RegCfg1"
    by (simp_all add: register_consts)
  obtain s1 where s1: "i2cByteRead B (dev_fd device) a kCdce937RegId s = (Some (regs s kCdce937RegId), s1)" "regs s1 = regs s"
    using assms(1) id01(1) by (rule chip_read)
  obtain s2 where s2: "i2cByteRead B (dev_fd device) a kCdce937RegCfg1 s1 = (Some (regs s1 kCdce937RegCfg1), s2)" "regs s2 = regs s1"
    using assms(1) id01(2) by (rule chip_read)
  obtain s3 where "io_collect (read_output fl B device hz) kDividerOutputs s2 =
      (Inr (map (chip_output fl hz (regs s2)) kDividerOutputs), s3)" "regs s3 = regs s2"
    using collect_chip_outputs [OF assms output_indices] by blast
  with s1 s2 show thesis
    using assms(2) by (intro that [of s3]) (simp_all add: status_body_def chip_snapshot_def io_simps)
qed

lemma read_status_of_chip:
  assumes "register_bus B a regs" and "chip_present (regs s)" and "validateReferenceClockHzOrThrow hz = Inr ()"
  obtains s' where "readDividerStatus P fl B p hz s = (Inr (chip_snapshot P fl (chip_path p) a hz (regs s)), s')"
    and "regs s' = regs s"
proof -
  obtain device s1 where d: "regs s1 = regs s" "dev_address device = a" "dev_path device = chip_path p"
    and w: "\<And>fn. withCdce937 B p hz fn s = (fst (fn device hz s1), bus_close B (dev_fd device) (snd (fn device hz s1)))"
    using with_chip [OF assms(1,2), where p = p and hz = hz] by blast
  obtain s2 where "status_body P fl B device hz s1 = (Inr (chip_snapshot P fl (dev_path device) a hz (regs s1)), s2)"
    "regs s2 = regs s1"
    using assms(1) d(2) by (rule status_of_chip)
  then show thesis
    using w [of "status_body P fl B"] d assms(1,3)
    by (intro that [of "bus_close B (dev_fd device) s2"])
       (simp_all add: readDividerStatus_def io_simps register_bus_def)
qed

text \<open>The body of \<open>applyDividers\<close> and of the restore: bypass the PLL, write, read everything back.\<close>

lemma write_and_read_back:
  assumes bus: "register_bus B a regs" and "chip_present (regs s)" and "validateReferenceClockHzOrThrow hz = Inr ()"
    and m: "\<And>device. dev_address device = a \<Longrightarrow> chip_does regs (m device) f"
    and keeps_id: "\<And>r. f r kCdce937RegId = r kCdce937RegId"
  obtains s' where
    "withCdce937 B p hz (\<lambda>device clockHz. io_seq (disablePllModeLocked B device)
        (io_seq (m device) (readDividerStatus P fl B (dev_path device) clockHz))) s =
      (Inr (chip_snapshot P fl (chip_path p) a hz (f (masked 0x01 0x1C 0x08 (regs s)))), s')"
    and "regs s' = f (masked 0x01 0x1C 0x08 (regs s))"
proof -
  let ?r = "f (masked 0x01 0x1C 0x08 (regs s))"
  obtain device s1 where d: "regs s1 = regs s" "dev_address device = a" "dev_path device = chip_path p"
    and w: "\<And>fn. withCdce937 B p hz fn s = (fst (fn device hz s1), bus_close B (dev_fd device) (snd (fn device hz s1)))"
    using with_chip [OF assms(1,2), where p = p and hz = hz] by blast
  obtain s2 where s2: "disablePllModeLocked B device s1 = (Inr (), s2)" "regs s2 = masked 0x01 0x1C 0x08 (regs s1)"
    using chip_does_input_clock [OF bus d(2)] by (rule chip_doesD)
  obtain s3 where s3: "m device s2 = (Inr (), s3)" "regs s3 = f (regs s2)"
    using m [OF d(2)] by (rule chip_doesD)
  have r3: "regs s3 = ?r" using s2 s3 d by simp
  have "chip_present (regs s3)"
    using assms(2) keeps_id r3 by (simp add: chip_present_def masked_def kCdce937RegId_def)
  then obtain s4 where s4: "readDividerStatus P fl B (dev_path device) hz s3 =
      (Inr (chip_snapshot P fl (chip_path (dev_path device)) a hz (regs s3)), s4)" "regs s4 = regs s3"
    using bus assms(3) by (meson read_status_of_chip)
  have "chip_path (chip_path p) = chip_path p"
    by (simp add: chip_path_def)
  then show thesis
    using s2 s3 s4 r3 d(3) bus
    by (intro that [of "bus_close B (dev_fd device) s4"]) (simp_all add: w io_seq_Inr register_bus_def)
qed

lemma output_effect_id: "0 \<le> i \<Longrightarrow> i < 7 \<Longrightarrow> output_effect i d r kCdce937RegId = r kCdce937RegId"
  by (elim output_cases)
     (simp_all add: output_effect_def pdiv_effect_def masked_def enable_reg_def kCdce937RegId_def Let_def pdiv_registers_def)

lemma fold_output_effects_id:
  "\<forall>x \<in> set xs. 0 \<le> ix x \<and> ix x < 7 \<Longrightarrow>
     fold (\<lambda>x. output_effect (ix x) (dv x)) xs r kCdce937RegId = r kCdce937RegId"
  by (induction xs arbitrary: r) (simp_all add: output_effect_id)

lemma each_validated:
  "\<forall>i \<in> set ns. validateDividerOrThrow P i d = Inr () \<Longrightarrow>
     io_each (\<lambda>i. io_lift (validateDividerOrThrow P i d)) ns w = (Inr (), w)"
  by (induction ns) (simp_all add: io_simps)

lemma each_rejected:
  "\<exists>i \<in> set ns. validateDividerOrThrow P i d \<noteq> Inr () \<Longrightarrow>
     \<exists>m. io_each (\<lambda>i. io_lift (validateDividerOrThrow P i d)) ns w = (Inl (InvalidArgumentException m), w)"
proof (induction ns)
  case Nil
  then show ?case by simp
next
  case (Cons i ns)
  then show ?case
    by (cases "validateDividerOrThrow P i d = Inr ()")
       (auto simp: io_simps validateDividerOrThrow_def Let_def split: if_splits)
qed

subsection \<open>Applying and restoring\<close>

definition valid_request :: "poco \<Rightarrow> int list \<Rightarrow> int \<Rightarrow> u64 \<Rightarrow> bool" where
  "valid_request P outputIndices divider hz \<longleftrightarrow>
     outputIndices \<noteq> [] \<and>
     (\<forall>i \<in> set outputIndices. validateDividerOrThrow P i divider = Inr ()) \<and>
     validateReferenceClockHzOrThrow hz = Inr ()"

definition file_ok :: "file_outcome \<Rightarrow> bool" where
  "file_ok fo \<longleftrightarrow> fo_createDirectories fo = Inr () \<and> fo_opens fo \<and> fo_good fo"

definition applied_registers :: "int list \<Rightarrow> int \<Rightarrow> (u8 \<Rightarrow> u8) \<Rightarrow> u8 \<Rightarrow> u8" where
  "applied_registers ns d r = fold (\<lambda>i. output_effect i d) ns (masked 0x01 0x1C 0x08 r)"

lemma length_chip_outputs [simp]: "length (ds_outputs (chip_snapshot P fl path a hz r)) = 7"
  by (simp add: chip_snapshot_def kDividerOutputCount_def)

lemma chip_snapshot_divider:
  assumes "i < 7"
  shows "dos_divider (ds_outputs (chip_snapshot P fl path a hz r) ! i) = chip_divider r (int i)"
proof -
  have "i = 0 \<or> i = 1 \<or> i = 2 \<or> i = 3 \<or> i = 4 \<or> i = 5 \<or> i = 6" using assms by auto
  then show ?thesis
    by (elim disjE) (simp_all add: chip_snapshot_def kDividerOutputs_def output_spec_def chip_output_def)
qed

lemma chip_snapshot_fields [simp]:
  "ds_devicePath (chip_snapshot P fl path a hz r) = path"
  "ds_referenceClockHz (chip_snapshot P fl path a hz r) = hz"
  by (simp_all add: chip_snapshot_def)

lemma chip_divider_small: "0 \<le> chip_divider r i" "chip_divider r i < 1024"
proof -
  have "push_bit 8 (ucast (take_bit 2 x) :: u32) OR ucast y = take_bit 10 (push_bit 8 (ucast (take_bit 2 x)) OR ucast y)"
    for x y :: u8
    by (rule bit_word_eqI) (auto simp: bit_simps dest: bit_imp_le_length)
  moreover have "uint (take_bit 10 (w :: u32)) < 2 ^ 10" for w
    by (rule uint_take_bit_less)
  ultimately have ten: "uint (push_bit 8 (ucast (take_bit 2 x) :: u32) OR ucast y) < 2 ^ 10" for x y :: u8
    by metis
  have seven: "uint (take_bit 7 (w :: u8)) < 2 ^ 10" for w
    by (rule order_less_trans [OF uint_take_bit_less]) simp
  show "chip_divider r i < 1024"
    using ten [of "r 2" "r 3"] seven unfolding chip_divider_def and_low_masks by (cases "i \<le> 2") simp_all
  show "0 \<le> chip_divider r i"
    by (simp add: chip_divider_def)
qed

lemma chip_divider_range: "0 \<le> chip_divider r i \<and> chip_divider r i < 2 ^ 31"
  using chip_divider_small [of r i] by simp

lemma save_chip_snapshot:
  assumes "file_ok fo"
  shows "\<exists>text. saveDividerConfiguration fo sf (chip_snapshot P fl path a hz r) dp old = (Inr (), Some text)"
  using assms output_lines_eq [of 0 7 "ds_outputs (chip_snapshot P fl path a hz r)"]
  by (simp add: saveDividerConfiguration_def file_ok_def kDividerOutputCount_def)

lemma apply_on_chip:
  assumes bus: "register_bus B a regs" "chip_present (regs (w_bus w))"
    and request: "valid_request P outputIndices d hz" and file_ok: "file_ok fo"
  defines "r \<equiv> applied_registers (remdups_adj (sort outputIndices)) d (regs (w_bus w))"
  obtains snap w' content where
    "applyDividers P fl B fo sf p outputIndices d hz w = (Inr snap, w')"
    and "ds_outputs snap = ds_outputs (chip_snapshot P fl (chip_path p) a hz r)"
    and "regs (w_bus w') = r" and "w_file w' = Some content"
    and "saveDividerConfiguration fo sf (chip_snapshot P fl (chip_path p) a hz r) (chip_path p) (w_file w) = (Inr (), Some content)"
proof -
  let ?ns = "remdups_adj (sort outputIndices)"
  have range: "\<forall>i \<in> set ?ns. 0 \<le> i \<and> i < 7"
    and valid: "\<forall>i \<in> set ?ns. validateDividerOrThrow P i d = Inr ()"
    and hz: "validateReferenceClockHzOrThrow hz = Inr ()"
    using request by (auto simp: valid_request_def validateDivider_ok kDividerOutputCount_def)
  have norm: "normalizeOutputIndicesOrThrow outputIndices = Inr ?ns"
    using request range by (auto simp: normalizeOutputIndices_ok valid_request_def kDividerOutputCount_def)
  obtain s' where s': "withCdce937 B p hz (\<lambda>device clockHz. io_seq (disablePllModeLocked B device)
        (io_seq (io_each (\<lambda>i. writeOutputDividerLocked B device i d) ?ns) (readDividerStatus P fl B (dev_path device) clockHz)))
        (w_bus w) = (Inr (chip_snapshot P fl (chip_path p) a hz r), s')" and regs: "regs s' = r"
    unfolding r_def applied_registers_def
  proof (rule write_and_read_back [OF bus hz])
    show "chip_does regs (io_each (\<lambda>i. writeOutputDividerLocked B device i d) ?ns) (fold (\<lambda>i. output_effect i d) ?ns)"
      if "dev_address device = a" for device
      using range by (intro chip_does_each chip_does_output [OF bus(1) that]) auto
    show "fold (\<lambda>i. output_effect i d) ?ns r kCdce937RegId = r kCdce937RegId" for r
      using fold_output_effects_id [of ?ns "\<lambda>i. i" "\<lambda>_. d" r] range by simp
  qed
  obtain content where content: "saveDividerConfiguration fo sf (chip_snapshot P fl (chip_path p) a hz r) (chip_path p)
      (w_file w) = (Inr (), Some content)"
    using save_chip_snapshot [OF file_ok] by blast
  let ?snap = "chip_snapshot P fl (chip_path p) a hz r" and ?w = "w\<lparr>w_bus := s'\<rparr>"
  let ?snap' = "?snap\<lparr>ds_message := ''Divider applied to '' @ join_names ?ns @ '' and read back from hardware.''\<rparr>"
  have bus_step: "on_bus (withCdce937 B p hz (\<lambda>device clockHz. io_seq (disablePllModeLocked B device)
        (io_seq (io_each (\<lambda>i. writeOutputDividerLocked B device i d) ?ns)
           (readDividerStatus P fl B (dev_path device) clockHz)))) w = (Inr ?snap, ?w)"
    by (simp add: on_bus_def s')
  have file_step: "on_file (saveDividerConfiguration fo sf ?snap (chip_path p)) ?w =
      (Inr (), ?w\<lparr>w_file := Some content\<rparr>)"
    using content by (simp add: on_file_def)
  have "applyDividers P fl B fo sf p outputIndices d hz w = (Inr ?snap', ?w\<lparr>w_file := Some content\<rparr>)"
    unfolding applyDividers_def
    by (simp add: io_bind_Inr io_seq_Inr norm hz each_validated [OF valid] bus_step file_step)
  then show thesis
    using regs content by (intro that [of ?snap' "?w\<lparr>w_file := Some content\<rparr>" content]) simp_all
qed

lemma group_limit: "pdiv_name i = pdiv_name j \<Longrightarrow> 0 \<le> i \<Longrightarrow> i < 7 \<Longrightarrow> 0 \<le> j \<Longrightarrow> j < 7 \<Longrightarrow>
    dividerLimitForOutput i = dividerLimitForOutput j"
  by (elim output_cases [of i]; elim output_cases [of j])
     (simp_all add: pdiv_name_def kDividerOutputs_def output_spec_def dividerLimitForOutput_def)

lemma group_divider: "pdiv_name i = pdiv_name j \<Longrightarrow> 0 \<le> i \<Longrightarrow> i < 7 \<Longrightarrow> 0 \<le> j \<Longrightarrow> j < 7 \<Longrightarrow>
    chip_divider r i = chip_divider r j"
  by (elim output_cases [of i]; elim output_cases [of j])
     (simp_all add: pdiv_name_def kDividerOutputs_def output_spec_def chip_divider_def pdiv_registers_def)

lemma input_clock_divider: "0 \<le> j \<Longrightarrow> j < 7 \<Longrightarrow> chip_divider (masked 0x01 0x1C 0x08 r) j = chip_divider r j"
  by (elim output_cases) (simp_all add: chip_divider_def masked_def pdiv_registers_def)

lemma applied_divider:
  assumes "valid_request P is d hz" and "0 \<le> j" "j < 7"
  shows "chip_divider (applied_registers (remdups_adj (sort is)) d r) j =
    (if \<exists>i \<in> set is. pdiv_name i = pdiv_name j then d else chip_divider r j)"
proof -
  let ?ns = "remdups_adj (sort is)"
  have "\<forall>i \<in> set ?ns. 0 \<le> i \<and> i < 7 \<and> 0 < d \<and> d \<le> dividerLimitForOutput i \<and> (pdiv_name i = pdiv_name j \<longrightarrow> d = d)"
    using assms(1) by (auto simp: valid_request_def validateDivider_ok kDividerOutputCount_def)
  then have "chip_divider (fold (\<lambda>i. output_effect i d) ?ns (masked 0x01 0x1C 0x08 r)) j =
      (if \<exists>i \<in> set ?ns. pdiv_name i = pdiv_name j then d else chip_divider (masked 0x01 0x1C 0x08 r) j)"
    by (intro fold_output_effects_divider [where ix = "\<lambda>i. i" and dv = "\<lambda>_. d"] assms(2,3))
  then show ?thesis
    unfolding applied_registers_def input_clock_divider [OF assms(2,3)] by (simp only: remdups_adj_set set_sort)
qed

lemma applied_control:
  assumes "valid_request P is d hz" and "j \<in> set is"
  shows "output_enabled (applied_registers (remdups_adj (sort is)) d r) j \<and>
    output_bypassed (applied_registers (remdups_adj (sort is)) d r) j"
proof -
  have "\<forall>i \<in> set (remdups_adj (sort is)). 0 \<le> i \<and> i < 7"
    using assms(1) by (auto simp: valid_request_def validateDivider_ok kDividerOutputCount_def)
  then show ?thesis
    using assms(2) unfolding applied_registers_def by (intro fold_output_effect_control) auto
qed

lemma rejected_request:
  assumes "\<not> valid_request P outputIndices d hz"
  shows "\<exists>m. applyDividers P fl B fo sf p outputIndices d hz w = (Inl (InvalidArgumentException m), w)"
proof (cases "normalizeOutputIndicesOrThrow outputIndices")
  case (Inl e)
  then have "\<exists>m. e = InvalidArgumentException m"
    by (auto simp: normalizeOutputIndicesOrThrow_def Let_def split: if_splits)
  then show ?thesis using Inl by (auto simp: applyDividers_def io_bind_Inl)
next
  case (Inr ns)
  then have set_ns: "set ns = set outputIndices" and "outputIndices \<noteq> []" by (auto simp: normalizeOutputIndices_ok)
  show ?thesis
  proof (cases "\<exists>i \<in> set ns. validateDividerOrThrow P i d \<noteq> Inr ()")
    case True
    from each_rejected [OF this, of w] obtain m where
      "io_each (\<lambda>i. io_lift (validateDividerOrThrow P i d)) ns w = (Inl (InvalidArgumentException m), w)" ..
    then show ?thesis using Inr by (auto simp: applyDividers_def io_bind_Inr io_seq_Inl)
  next
    case False
    then have "validateReferenceClockHzOrThrow hz \<noteq> Inr ()"
      using assms set_ns \<open>outputIndices \<noteq> []\<close> by (auto simp: valid_request_def)
    then obtain m where "validateReferenceClockHzOrThrow hz = Inl (InvalidArgumentException m)"
      by (auto simp: validateReferenceClockHzOrThrow_def split: if_splits)
    then show ?thesis
      using Inr False each_validated [of ns P d w] by (simp add: applyDividers_def io_bind_Inr io_seq_Inr io_seq_Inl)
  qed
qed

subsection \<open>Restoring\<close>

text \<open>Of the writes to one divider the last one counts.\<close>

lemma fold_output_effects_last:
  assumes "\<forall>x \<in> set xs. 0 \<le> ix x \<and> ix x < 7 \<and> 0 < dv x \<and> dv x \<le> dividerLimitForOutput (ix x)"
    and "0 \<le> j" "j < 7"
  shows "chip_divider (fold (\<lambda>x. output_effect (ix x) (dv x)) xs r) j =
    (let ys = filter (\<lambda>x. pdiv_name (ix x) = pdiv_name j) xs in if ys = [] then chip_divider r j else dv (last ys))"
  using assms(1)
proof (induction xs rule: rev_induct)
  case Nil
  then show ?case by simp
next
  case (snoc x xs)
  then show ?case
    using assms(2,3) by (simp add: output_effect_divider Let_def)
qed

definition saved_outputs :: "saved_config \<Rightarrow> nat list" where
  "saved_outputs c = filter (\<lambda>k. sc_savedOutputs c ! k) [0..<length (sc_dividers c)]"

definition restored_registers :: "saved_config \<Rightarrow> (u8 \<Rightarrow> u8) \<Rightarrow> u8 \<Rightarrow> u8" where
  "restored_registers c r =
     fold (\<lambda>k. output_effect (int k) (sc_dividers c ! k)) (saved_outputs c) (masked 0x01 0x1C 0x08 r)"

text \<open>The divider an output has after the restore: that of the last saved output sharing its divider.\<close>

definition restored_divider :: "saved_config \<Rightarrow> (u8 \<Rightarrow> u8) \<Rightarrow> int \<Rightarrow> int" where
  "restored_divider c r j =
     (let ks = filter (\<lambda>k. pdiv_name (int k) = pdiv_name j) (saved_outputs c)
      in if ks = [] then chip_divider r j else sc_dividers c ! last ks)"

lemma saved_outputs_ok:
  assumes "wf_config c"
  shows "\<forall>k \<in> set (saved_outputs c). 0 \<le> int k \<and> int k < 7 \<and> 0 < sc_dividers c ! k \<and>
    sc_dividers c ! k \<le> dividerLimitForOutput (int k)"
  using assms by (simp add: saved_outputs_def wf_config_def kDividerOutputCount_def)

lemma restored_registers_divider:
  assumes "wf_config c" and "0 \<le> j" "j < 7"
  shows "chip_divider (restored_registers c r) j = restored_divider c r j"
  using fold_output_effects_last [OF saved_outputs_ok [OF assms(1)] assms(2,3)]
  by (simp add: restored_registers_def restored_divider_def input_clock_divider [OF assms(2,3)] Let_def)

lemma chip_does_restore:
  assumes "register_bus B a regs" and "dev_address device = a" and c: "wf_config c"
  shows "chip_does regs (io_each (restore_output P B device c) [0..<length (sc_dividers c)])
    (fold (\<lambda>k. output_effect (int k) (sc_dividers c ! k)) (saved_outputs c))"
proof -
  let ?f = "\<lambda>k. if sc_savedOutputs c ! k then output_effect (int k) (sc_dividers c ! k) else id"
  have "chip_does regs (restore_output P B device c k) (?f k)" if k: "k < length (sc_dividers c)" for k
  proof (cases "sc_savedOutputs c ! k")
    case True
    have k7: "0 \<le> int k" "int k < 7" and "validateDividerOrThrow P (int k) (sc_dividers c ! k) = Inr ()"
      using c k by (simp_all add: wf_config_def validateDivider_ok kDividerOutputCount_def)
    then have "restore_output P B device c k = writeOutputDividerLocked B device (int k) (sc_dividers c ! k)"
      using True by (simp add: restore_output_def io_seq_def io_bind_def fun_eq_iff)
    then show ?thesis
      using True chip_does_output [OF assms(1,2) k7] by simp
  next
    case False
    then show ?thesis
      by (simp add: restore_output_def chip_does_def)
  qed
  then have "chip_does regs (io_each (restore_output P B device c) [0..<length (sc_dividers c)])
      (fold ?f [0..<length (sc_dividers c)])"
    by (intro chip_does_each) simp
  then show ?thesis unfolding saved_outputs_def fold_filter .
qed

lemma initialize_on_chip:
  assumes bus: "register_bus B a regs" "chip_present (regs s)"
    and any: "sc_hasAnyOutput (loadSavedDividerConfiguration P content)"
  defines "c \<equiv> loadSavedDividerConfiguration P content"
  obtains snap s' where "initializeHardwareFromSavedConfiguration P fl B content s = (Inr snap, s')"
    and "regs s' = restored_registers c (regs s)"
    and "ds_outputs snap = ds_outputs (chip_snapshot P fl (chip_path (sc_devicePath c)) a (sc_referenceClockHz c)
           (restored_registers c (regs s)))"
    and "ds_devicePath snap = chip_path (sc_devicePath c)" and "ds_referenceClockHz snap = sc_referenceClockHz c"
proof -
  have c: "wf_config c" unfolding c_def by (rule wf_config_load)
  then have hz: "validateReferenceClockHzOrThrow (sc_referenceClockHz c) = Inr ()"
    by (simp add: wf_config_def validateReferenceClock_ok)
  let ?f = "fold (\<lambda>k. output_effect (int k) (sc_dividers c ! k)) (saved_outputs c)"
  let ?snap = "chip_snapshot P fl (chip_path (sc_devicePath c)) a (sc_referenceClockHz c) (restored_registers c (regs s))"
  obtain s' where s': "withCdce937 B (sc_devicePath c) (sc_referenceClockHz c) (\<lambda>device clockHz. io_seq (disablePllModeLocked B device)
        (io_seq (io_each (restore_output P B device c) [0..<length (sc_dividers c)])
           (readDividerStatus P fl B (dev_path device) clockHz))) s = (Inr ?snap, s')"
    and regs: "regs s' = restored_registers c (regs s)"
    unfolding restored_registers_def
  proof (rule write_and_read_back [OF bus hz])
    show "chip_does regs (io_each (restore_output P B device c) [0..<length (sc_dividers c)]) ?f"
      if "dev_address device = a" for device
      using bus(1) that c by (rule chip_does_restore)
    show "?f r kCdce937RegId = r kCdce937RegId" for r
      using saved_outputs_ok [OF c] by (intro fold_output_effects_id) auto
  qed
  define msg where "msg = (if sc_hasAllOutputs c
            then ''CDCE937 PLL bypass enabled and saved divider state restored for Y1~Y7.''
            else ''CDCE937 PLL bypass enabled and saved divider state restored for available outputs.'')"
  have "initializeHardwareFromSavedConfiguration P fl B content s = (Inr (?snap\<lparr>ds_message := msg\<rparr>), s')"
    using any unfolding initializeHardwareFromSavedConfiguration_def c_def [symmetric] Let_def msg_def [symmetric]
    by (simp add: io_bind_def s')
  then show thesis
    by (rule that [OF _ regs]) simp_all
qed

subsection \<open>Descriptors\<close>

text \<open>A bus that counts the descriptors that are open.\<close>

definition counts_descriptors :: "'s i2c_bus \<Rightarrow> ('s \<Rightarrow> int) \<Rightarrow> bool" where
  "counts_descriptors B cnt \<longleftrightarrow>
     (\<forall>p s. cnt (snd (bus_open B p s)) = cnt s + (if 0 \<le> fst (bus_open B p s) then 1 else 0)) \<and>
     (\<forall>fd s. 0 \<le> fd \<longrightarrow> cnt (bus_close B fd s) = cnt s - 1) \<and>
     (\<forall>fd a c s. cnt (snd (bus_rdwr_read B fd a c s)) = cnt s) \<and>
     (\<forall>fd a bs s. cnt (snd (bus_rdwr_write B fd a bs s)) = cnt s)"

lemma transfer_count:
  assumes "counts_descriptors B cnt"
  shows "cnt (snd (i2cByteRead B fd a reg s)) = cnt s" and "cnt (snd (i2cByteWrite B fd a reg v s)) = cnt s"
  using assms by (simp_all add: counts_descriptors_def i2cByteRead_def i2cByteWrite_def)

lemma keeps_probe: "counts_descriptors B cnt \<Longrightarrow> io_keeps (\<lambda>s. cnt s = n) (probe_addresses B device addresses)"
  unfolding io_keeps_def
proof (induction addresses)
  case Nil
  then show ?case by simp
next
  case (Cons x xs)
  then show ?case
    by (simp add: looksLikeCdce937_def case_prod_beta transfer_count split: option.split bool.split)
qed

lemma keeps_masked:
  "counts_descriptors B cnt \<Longrightarrow> io_keeps (\<lambda>s. cnt s = n) (writeMaskedCdce937Register B device reg m v e)"
  by (simp add: io_keeps_def writeMaskedCdce937Register_def Let_def case_prod_beta transfer_count
      split: option.split bool.split)

lemma keeps_write_divider:
  "counts_descriptors B cnt \<Longrightarrow> io_keeps (\<lambda>s. cnt s = n) (writeDividerRegister B device i d)"
  by (simp add: io_keeps_def writeDividerRegister_def Let_def case_prod_beta transfer_count
      split: option.split bool.split)

lemma keeps_output:
  assumes "counts_descriptors B cnt"
  shows "io_keeps (\<lambda>s. cnt s = n) (writeOutputDividerLocked B device i d)"
  unfolding writeOutputDividerLocked_def forceOutputEnabledLocked_def disablePllModeForOutputLocked_def
  by (intro io_keeps_seq keeps_write_divider assms; simp add: keeps_masked assms io_keeps_throw)

lemma keeps_read_divider:
  "counts_descriptors B cnt \<Longrightarrow> cnt (snd (readDividerRegister B device i s)) = cnt s"
  by (simp add: readDividerRegister_def case_prod_beta transfer_count split: option.split)

lemma io_keeps_collect: "(\<And>x. io_keeps P (f x)) \<Longrightarrow> io_keeps P (io_collect f xs)"
  by (induction xs) (auto intro!: io_keeps_bind)

lemma keeps_status_body:
  assumes "counts_descriptors B cnt"
  shows "io_keeps (\<lambda>s. cnt s = n) (status_body P fl B device hz)"
proof -
  have "io_keeps (\<lambda>s. cnt s = n) (read_output fl B device hz spec)" for spec
    using assms by (simp add: io_keeps_def read_output_def case_prod_beta keeps_read_divider)
  then have "io_keeps (\<lambda>s. cnt s = n) (io_bind (io_collect (read_output fl B device hz) kDividerOutputs) (\<lambda>outs. io_ret (g outs)))"
      for g :: "divider_output_state list \<Rightarrow> divider_snapshot"
    by (intro io_keeps_bind io_keeps_collect io_keeps_ret)
  then show ?thesis
    using assms by (simp add: io_keeps_def status_body_def case_prod_beta transfer_count split: option.split)
qed

text \<open>Whatever the body does, one that keeps the count is run with one more open and closed again.\<close>

lemma keeps_with:
  assumes B: "counts_descriptors B cnt" and fn: "\<And>device hz m. io_keeps (\<lambda>s. cnt s = m) (fn device hz)"
  shows "io_keeps (\<lambda>s. cnt s = n) (withCdce937 B p hz fn)"
  unfolding io_keeps_def
proof (intro allI impI)
  fix s assume n: "cnt s = n"
  let ?path = "if p = [] then kDefaultI2CDevice else p"
  obtain fd s1 where opened: "bus_open B ?path s = (fd, s1)" by fastforce
  have count1: "cnt s1 = n + (if 0 \<le> fd then 1 else 0)"
    using B n opened unfolding counts_descriptors_def by (metis fst_conv snd_conv)
  let ?device = "\<lparr>dev_path = ?path, dev_fd = fd, dev_address = 0x6c, dev_addressFixed = False\<rparr>"
  let ?body = "io_bind (autodetectCdce937 B ?device) (\<lambda>device. fn device hz)"
  have "io_keeps (\<lambda>s. cnt s = m) ?body" for m
    using B fn by (intro io_keeps_bind) (auto simp: autodetectCdce937_def intro: keeps_probe)
  then have "cnt (snd (?body s1)) = cnt s1" by (simp add: io_keeps_def)
  moreover have "cnt (bus_close B fd s') = cnt s' - 1" if "0 \<le> fd" for s'
    using B that by (simp add: counts_descriptors_def)
  ultimately show "cnt (snd (withCdce937 B p hz fn s)) = n"
    using opened count1
    by (simp add: withCdce937_def openCdce937Device_def closeCdce937Device_def Let_def case_prod_beta)
qed

lemma keeps_read_status:
  "counts_descriptors B cnt \<Longrightarrow> io_keeps (\<lambda>s. cnt s = n) (readDividerStatus P fl B p hz)"
  unfolding readDividerStatus_def by (intro io_keeps_seq io_keeps_lift keeps_with keeps_status_body)

lemma keeps_initialize:
  assumes "counts_descriptors B cnt"
  shows "io_keeps (\<lambda>s. cnt s = n) (initializeHardwareFromSavedConfiguration P fl B content)"
proof -
  have "io_keeps (\<lambda>s. cnt s = m) (restore_output P B device c k)" for m device c k
    unfolding restore_output_def by (auto intro!: io_keeps_seq keeps_output assms)
  then show ?thesis
    unfolding initializeHardwareFromSavedConfiguration_def Let_def disablePllModeLocked_def
    by (auto intro!: io_keeps_bind keeps_with io_keeps_seq io_keeps_each keeps_read_status keeps_masked assms)
qed

lemma keeps_on_bus: "io_keeps P m \<Longrightarrow> io_keeps (\<lambda>w. P (w_bus w)) (on_bus m)"
  by (simp add: io_keeps_def on_bus_def case_prod_beta)

lemma keeps_on_file: "io_keeps (\<lambda>w. P (w_bus w)) (on_file m)"
  by (simp add: io_keeps_def on_file_def case_prod_beta)

lemma keeps_apply:
  assumes "counts_descriptors B cnt"
  shows "io_keeps (\<lambda>w. cnt (w_bus w) = n) (applyDividers P fl B fo sf p outs d hz)"
  unfolding applyDividers_def disablePllModeLocked_def
  by (intro io_keeps_bind io_keeps_seq io_keeps_lift io_keeps_each io_keeps_ret keeps_on_file
      keeps_on_bus [where P = "\<lambda>s. cnt s = n"] keeps_with keeps_masked keeps_output keeps_read_status assms)

subsection \<open>The frequencies a chip runs at\<close>

lemma fold_max_le: "foldl (\<lambda>m x. max m (f x)) a xs \<le> c \<longleftrightarrow> a \<le> c \<and> (\<forall>x \<in> set xs. f x \<le> (c :: 'a :: linorder))"
  by (induction xs arbitrary: a) auto

text \<open>Rounding the quotient does not move it across the limit, since the divider is below \<open>1024\<close>.\<close>

lemma rounded_quotient_safe:
  assumes "rounds_right fl" and "0 < d" and "d < 1024"
  shows "fl (of_nat n / of_int d) \<le> 100000 \<longleftrightarrow> int n \<le> 100000 * d"
proof
  have exact: "fl (of_nat m / 2 ^ k) = of_nat m / 2 ^ k" if "m \<le> 2 ^ 53" "k \<le> 52" for m k :: nat
    using assms(1) that by (simp add: rounds_right_def)
  have mono: "x \<le> y \<Longrightarrow> fl x \<le> fl y" for x y
    using assms(1) by (simp add: rounds_right_def)
  have pos: "(0 :: rat) < of_int d" using assms(2) by simp
  show "fl (of_nat n / of_int d) \<le> 100000" if "int n \<le> 100000 * d"
  proof -
    have "(of_int (int n) :: rat) \<le> of_int (100000 * d)" using that by (simp only: of_int_le_iff)
    then have "(of_nat n / of_int d :: rat) \<le> 100000" using pos by (simp add: divide_le_eq)
    from mono [OF this] show ?thesis using exact [of 100000 0] by simp
  qed
  show "int n \<le> 100000 * d" if "fl (of_nat n / of_int d) \<le> 100000"
  proof (rule ccontr)
    assume "\<not> int n \<le> 100000 * d"
    then have "100000 * d + 1 \<le> int n" by simp
    then have "1024 * (100000 * d) + d \<le> 1024 * int n" using assms(3) by linarith
    then have "(of_int (102400001 * d) :: rat) \<le> of_int (1024 * int n)" by (simp only: of_int_le_iff)
    then have "(of_nat 102400001 / 2 ^ 10 :: rat) \<le> of_nat n / of_int d"
      using pos by (simp add: divide_le_eq le_divide_eq field_simps)
    from mono [OF this] have "(102400001 / 1024 :: rat) \<le> fl (of_nat n / of_int d)"
      using exact [of 102400001 10] by simp
    from order_trans [OF this that] have "(102400001 / 1024 :: rat) \<le> 100000" .
    then show False by simp
  qed
qed

lemma safety_on_chip:
  assumes "rounds_right fl"
  shows "acquisitionClockSafetyMessage P (chip_snapshot P fl path a hz r) = [] \<longleftrightarrow>
      (\<forall>i. 0 \<le> i \<and> i < 6 \<and> 0 < chip_divider r i \<longrightarrow> uint hz \<le> 100000 * chip_divider r i) \<or>
      p_format_unsafe P (maximumStartupOutputFrequencyHz (chip_snapshot P fl path a hz r)) 100000 = []"
proof -
  let ?outs = "map (chip_output fl hz r) (take 6 kDividerOutputs)"
  have safe: "dos_frequencyHz (chip_output fl hz r spec) \<le> 100000 \<longleftrightarrow>
      (0 < chip_divider r (sp_index spec) \<longrightarrow> uint hz \<le> 100000 * chip_divider r (sp_index spec))" for spec
    using rounded_quotient_safe [OF assms _ chip_divider_small(2), of r "sp_index spec" "unat hz"]
    by (simp add: chip_output_def)
  have "maximumStartupOutputFrequencyHz (chip_snapshot P fl path a hz r) \<le> 100000 \<longleftrightarrow>
      (\<forall>spec \<in> set (take 6 kDividerOutputs). dos_frequencyHz (chip_output fl hz r spec) \<le> 100000)"
    by (simp add: maximumStartupOutputFrequencyHz_def chip_snapshot_def take_map divider_consts fold_max_le)
  also have "\<dots> \<longleftrightarrow> (\<forall>i \<in> sp_index ` set (take 6 kDividerOutputs). 0 < chip_divider r i \<longrightarrow> uint hz \<le> 100000 * chip_divider r i)"
    unfolding safe by simp
  also have "sp_index ` set (take 6 kDividerOutputs) = {i. 0 \<le> i \<and> i < 6}"
    by (auto simp: kDividerOutputs_def output_spec_def)
  finally show ?thesis
    by (auto simp: acquisitionClockSafetyMessage_def Let_def kMaxSafeAcquisitionClockHz_def)
qed

text \<open>The state file a snapshot of the chip is saved to, read back.\<close>

lemma load_chip_snapshot:
  assumes "poco_trims P" and "is_trimmed path" and "CHR 0x0A \<notin> set path" and "path \<noteq> []"
    and "file_ok fo" and "validateReferenceClockHzOrThrow hz = Inr ()"
    and save: "saveDividerConfiguration fo sf (chip_snapshot P fl path a hz r) path old = (Inr (), Some content)"
  defines "ok k \<equiv> validateDividerOrThrow P (int k) (chip_divider r (int k)) = Inr ()"
  shows "loadSavedDividerConfiguration P (Some content) =
      \<lparr>sc_devicePath = path, sc_referenceClockHz = hz,
       sc_dividers = map (\<lambda>i. if ok i then chip_divider r (int i) else 1) [0..<7],
       sc_savedOutputs = map ok [0..<7], sc_hasAnyOutput = list_ex ok [0..<7], sc_hasAllOutputs = list_all ok [0..<7]\<rparr>"
proof -
  let ?snap = "chip_snapshot P fl path a hz r"
  have "- (2 ^ 31) \<le> dos_divider (ds_outputs ?snap ! i) \<and> dos_divider (ds_outputs ?snap ! i) < 2 ^ 31" if "i < 7" for i
    using that chip_divider_small [of r "int i"] by (simp add: chip_snapshot_divider)
  then have "\<exists>text. saveDividerConfiguration fo sf ?snap path old = (Inr (), Some text) \<and>
      loadSavedDividerConfiguration P (Some text) =
      \<lparr>sc_devicePath = path, sc_referenceClockHz = hz,
       sc_dividers = map (\<lambda>i. if ok' i then dos_divider (ds_outputs ?snap ! i) else 1) [0..<7],
       sc_savedOutputs = map ok' [0..<7], sc_hasAnyOutput = list_ex ok' [0..<7], sc_hasAllOutputs = list_all ok' [0..<7]\<rparr>"
    if "ok' = (\<lambda>i. validateDividerOrThrow P (int i) (dos_divider (ds_outputs ?snap ! i)) = Inr ())" for ok'
    using load_after_save [where P = P and fo = fo and dp = path and s = ?snap and sf = sf and old = old] assms(1-6) that
    by (simp add: file_ok_def)
  then show ?thesis
    using save by (auto simp: ok_def [abs_def] chip_snapshot_divider list_ex_iff list_all_iff cong: map_cong)
qed

lemma restored_saved_divider:
  assumes "sc_dividers c = map (\<lambda>i. if ok i then chip_divider r (int i) else 1) [0..<7]"
    and "sc_savedOutputs c = map ok [0..<7]" and "0 \<le> j" "j < 7" and "ok (nat j)"
  shows "restored_divider c r' j = chip_divider r j"
proof -
  let ?ks = "filter (\<lambda>k. pdiv_name (int k) = pdiv_name j) (saved_outputs c)"
  have ks: "set ?ks = {k. k < 7 \<and> ok k \<and> pdiv_name (int k) = pdiv_name j}"
    using assms(1,2) by (auto simp: saved_outputs_def simp del: upt_rec_numeral)
  then have "nat j \<in> set ?ks" using assms(3-5) by simp
  then have "?ks \<noteq> []" by (metis list.set(1) empty_iff)
  then have "last ?ks \<in> set ?ks" by (rule last_in_set)
  then have last: "last ?ks < 7" "ok (last ?ks)" "pdiv_name (int (last ?ks)) = pdiv_name j"
    unfolding ks by simp_all
  then have "sc_dividers c ! last ?ks = chip_divider r (int (last ?ks))"
    using assms(1) by (simp del: upt_rec_numeral)
  also have "\<dots> = chip_divider r j"
    using last assms(3,4) by (intro group_divider) simp_all
  finally show ?thesis
    using \<open>?ks \<noteq> []\<close> by (simp add: restored_divider_def Let_def)
qed

section \<open>A concrete chip\<close>

text \<open>A register file with a descriptor counter, for the witnesses.\<close>

definition sample_bus :: "((u8 \<Rightarrow> u8) \<times> int) i2c_bus" where
  "sample_bus =
     \<lparr>bus_open = (\<lambda>p (r, n). (3, (r, n + 1))),
      bus_close = (\<lambda>fd (r, n). (r, n - 1)),
      bus_rdwr_read = (\<lambda>fd a c (r, n). (if a = 0x6d then Some (r (c AND 0x7F)) else None, (r, n))),
      bus_rdwr_write = (\<lambda>fd a bs (r, n).
         if a = 0x6d \<and> length bs = 2 then (True, (r(bs ! 0 AND 0x7F := bs ! 1), n)) else (False, (r, n)))\<rparr>"

definition sample_registers :: "u8 \<Rightarrow> u8" where
  "sample_registers = (\<lambda>_. 0)(0 := 0x81, 0x02 := 0x01, 0x03 := 0x10, 0x26 := 0x05, 0x37 := 0x07)"

definition sample_file :: file_outcome where
  "sample_file = \<lparr>fo_createDirectories = Inr (), fo_opens = True, fo_good = True\<rparr>"

lemma sample_register_bus: "register_bus sample_bus 0x6d fst"
  by (simp add: register_bus_def sample_bus_def kProbeAddresses_def)

lemma sample_chip_present: "chip_present sample_registers"
  by (simp add: chip_present_def sample_registers_def kCdce937RegId_def)

lemma sample_counts: "counts_descriptors sample_bus snd"
  by (simp add: counts_descriptors_def sample_bus_def)

lemma sample_file_ok: "file_ok sample_file"
  by (simp add: file_ok_def sample_file_def)

lemma sample_request: "valid_request sample_poco [3, 0] 4 1000000"
  by (simp add: valid_request_def validateDivider_ok validateReferenceClock_ok kDividerOutputCount_def dividerLimitForOutput_def)

section \<open>Properties\<close>

text \<open>C10: A valid divider request on a CDCE937 ends with every selected output enabled, routed past the PLL
  and divided by the requested divider, in the chip's registers and in the snapshot that is returned;
  an output that shares its divider with a selected one follows it, every other output keeps its
  divider.\<close>

theorem applied_dividers_read_back:
  assumes "register_bus B a regs" and "chip_present (regs (w_bus w))"
    and "valid_request P outputIndices d hz" and "file_ok fo"
  shows "\<exists>snap w'. applyDividers P fl B fo stateFile p outputIndices d hz w = (Inr snap, w') \<and>
    (\<forall>j < 7. dos_divider (ds_outputs snap ! j) = chip_divider (regs (w_bus w')) (int j) \<and>
       chip_divider (regs (w_bus w')) (int j) =
         (if \<exists>i \<in> set outputIndices. pdiv_name i = pdiv_name (int j) then d
          else chip_divider (regs (w_bus w)) (int j))) \<and>
    (\<forall>i \<in> set outputIndices. output_enabled (regs (w_bus w')) i \<and> output_bypassed (regs (w_bus w')) i)"
proof -
  let ?r = "applied_registers (remdups_adj (sort outputIndices)) d (regs (w_bus w))"
  obtain snap w' content where w': "applyDividers P fl B fo stateFile p outputIndices d hz w = (Inr snap, w')"
    and snap: "ds_outputs snap = ds_outputs (chip_snapshot P fl (chip_path p) a hz ?r)"
    and regs: "regs (w_bus w') = ?r" and "w_file w' = Some content"
    using apply_on_chip [OF assms] by blast
  show ?thesis
    using w' regs applied_divider [OF assms(3)] applied_control [OF assms(3)]
    by (intro exI [of _ snap] exI [of _ w']) (simp add: snap chip_snapshot_divider)
qed

lemma applied_dividers_read_back_witness:
  "\<exists>snap w'. applyDividers sample_poco (\<lambda>x. x) sample_bus sample_file [] [] [3, 0] 4 1000000
      \<lparr>w_bus = (sample_registers, 0), w_file = None\<rparr> = (Inr snap, w') \<and>
    map (chip_divider (fst (w_bus w'))) [0, 1, 3, 5, 6] = [4, 4, 4, 4, 7]"
proof -
  let ?w = "\<lparr>w_bus = (sample_registers, 0 :: int), w_file = None\<rparr>"
  have "chip_present (fst (w_bus ?w))" by (simp add: sample_chip_present)
  from applied_dividers_read_back [OF sample_register_bus this sample_request sample_file_ok, of "\<lambda>x. x" "[]" "[]"]
  obtain snap w' where w': "applyDividers sample_poco (\<lambda>x. x) sample_bus sample_file [] [] [3, 0] 4 1000000 ?w = (Inr snap, w')"
    and d: "\<And>j. j < 7 \<Longrightarrow> chip_divider (fst (w_bus w')) (int j) =
         (if \<exists>i \<in> {3, 0}. pdiv_name i = pdiv_name (int j) then 4 else chip_divider sample_registers (int j))"
    by auto
  have "map (chip_divider (fst (w_bus w'))) [0, 1, 3, 5, 6] = [4, 4, 4, 4, 7]"
    using d [of 0] d [of 1] d [of 3] d [of 5] d [of 6]
    by (simp add: pdiv_name_def kDividerOutputs_def output_spec_def chip_divider_def pdiv_registers_def sample_registers_def)
  with w' show ?thesis by (intro exI conjI)
qed

text \<open>A request with no output, an output that does not exist, a divider out of range for one of its
  outputs or a clock out of range throws \<open>InvalidArgumentException\<close> before the device is even opened:
  neither the bus nor the state file has changed.\<close>

theorem rejected_request_touches_nothing:
  assumes "\<not> valid_request P outputIndices d hz"
  shows "\<exists>m. applyDividers P fl B fo stateFile p outputIndices d hz w = (Inl (InvalidArgumentException m), w)"
  using assms by (rule rejected_request)

lemma rejected_request_touches_nothing_witness:
  "\<exists>m. applyDividers sample_poco (\<lambda>x. x) sample_bus sample_file [] [] [0, 3] 200 1000000
     \<lparr>w_bus = (sample_registers, 0), w_file = None\<rparr> =
     (Inl (InvalidArgumentException m), \<lparr>w_bus = (sample_registers, 0), w_file = None\<rparr>)"
  by (rule rejected_request_touches_nothing)
     (simp add: valid_request_def validateDivider_ok dividerLimitForOutput_def)

text \<open>C19: The state file a successful request leaves behind brings any CDCE937 back to the same dividers when
  the service starts: every output whose divider is in range has the divider it had when the file was
  written, also on a chip whose registers were lost.\<close>

theorem saved_dividers_survive_restart:
  assumes "poco_trims P" and "is_trimmed (chip_path p)" and "CHR 0x0A \<notin> set (chip_path p)"
    and "register_bus B a regs" and "chip_present (regs (w_bus w))"
    and "valid_request P outputIndices d hz" and "file_ok fo"
    and "applyDividers P fl B fo stateFile p outputIndices d hz w = (Inr snap, w')"
    and "register_bus B' a' regs'" and "chip_present (regs' s)"
  shows "\<exists>snap' s'. initializeHardwareFromSavedConfiguration P fl B' (w_file w') s = (Inr snap', s') \<and>
    ds_referenceClockHz snap' = hz \<and> ds_devicePath snap' = chip_path p \<and>
    (\<forall>j. 0 \<le> j \<and> j < 7 \<and> 0 < chip_divider (regs (w_bus w')) j \<and>
        chip_divider (regs (w_bus w')) j \<le> dividerLimitForOutput j \<longrightarrow>
      chip_divider (regs' s') j = chip_divider (regs (w_bus w')) j)"
proof -
  let ?r = "applied_registers (remdups_adj (sort outputIndices)) d (regs (w_bus w))"
  define ok where "ok k = (validateDividerOrThrow P (int k) (chip_divider ?r (int k)) = Inr ())" for k
  obtain content where regs: "regs (w_bus w') = ?r" and content: "w_file w' = Some content"
    and save: "saveDividerConfiguration fo stateFile (chip_snapshot P fl (chip_path p) a hz ?r) (chip_path p) (w_file w)
      = (Inr (), Some content)"
    using apply_on_chip [OF assms(4-7), where fl = fl and sf = stateFile and p = p] assms(8)
    by (metis prod.inject)
  let ?c = "loadSavedDividerConfiguration P (Some content)"
  have "chip_path p \<noteq> []" and "validateReferenceClockHzOrThrow hz = Inr ()"
    using assms(6) by (simp_all add: chip_path_def kDefaultI2CDevice_def valid_request_def)
  from load_chip_snapshot [OF assms(1-3) this(1) assms(7) this(2) save]
  have c: "sc_devicePath ?c = chip_path p" "sc_referenceClockHz ?c = hz"
    "sc_dividers ?c = map (\<lambda>i. if ok i then chip_divider ?r (int i) else 1) [0..<7]"
    "sc_savedOutputs ?c = map ok [0..<7]" "sc_hasAnyOutput ?c = list_ex ok [0..<7]"
    by (simp_all only: ok_def [abs_def] saved_config.simps)
  obtain i where "i \<in> set outputIndices" "0 \<le> i" "i < 7" "0 < d" "d \<le> dividerLimitForOutput i"
    using assms(6) by (cases outputIndices) (auto simp: valid_request_def validateDivider_ok kDividerOutputCount_def)
  then have "nat i < 7" and "ok (nat i)"
    using applied_divider [OF assms(6), of i "regs (w_bus w)"] by (auto simp: ok_def validateDivider_ok kDividerOutputCount_def)
  then have any: "sc_hasAnyOutput ?c" by (auto simp: c(5) list_ex_iff simp del: upt_rec_numeral)
  obtain snap' s' where init: "initializeHardwareFromSavedConfiguration P fl B' (Some content) s = (Inr snap', s')"
    and s': "regs' s' = restored_registers ?c (regs' s)" "ds_devicePath snap' = chip_path (sc_devicePath ?c)"
      "ds_referenceClockHz snap' = sc_referenceClockHz ?c"
    using initialize_on_chip [OF assms(9,10) any, where fl = fl] by blast
  have "chip_divider (regs' s') j = chip_divider ?r j"
    if "0 \<le> j \<and> j < 7 \<and> 0 < chip_divider ?r j \<and> chip_divider ?r j \<le> dividerLimitForOutput j" for j
  proof -
    have "ok (nat j)" using that by (simp add: ok_def validateDivider_ok kDividerOutputCount_def)
    then show ?thesis
      using that restored_saved_divider [OF c(3,4)] by (simp add: s' restored_registers_divider wf_config_load)
  qed
  then show ?thesis
    using init s'(2,3) c(1,2) \<open>chip_path p \<noteq> []\<close> by (intro exI [of _ snap'] exI [of _ s']) (simp add: content regs chip_path_def)
qed

lemma saved_dividers_survive_restart_witness:
  "\<exists>snap w' snap' s'. applyDividers sample_poco (\<lambda>x. x) sample_bus sample_file [] ''/dev/i2c-1'' [3, 0] 4 1000000
      \<lparr>w_bus = (sample_registers, 0), w_file = None\<rparr> = (Inr snap, w') \<and>
    initializeHardwareFromSavedConfiguration sample_poco (\<lambda>x. x) sample_bus (w_file w') (sample_registers, 0) = (Inr snap', s') \<and>
    chip_divider (fst (w_bus w')) 6 = 7 \<and> chip_divider (fst s') 6 = 7"
proof -
  let ?w = "\<lparr>w_bus = (sample_registers, 0 :: int), w_file = None\<rparr>"
  let ?p = "''/dev/i2c-1''"
  have present: "chip_present (fst (w_bus ?w))" "chip_present (fst (sample_registers, 0 :: int))"
    by (simp_all add: sample_chip_present)
  have path: "is_trimmed (chip_path ?p)" "CHR 0x0A \<notin> set (chip_path ?p)"
    by (simp_all add: chip_path_def is_trimmed_def c_isspace_def)
  obtain snap w' content where w': "applyDividers sample_poco (\<lambda>x. x) sample_bus sample_file [] ?p [3, 0] 4 1000000 ?w = (Inr snap, w')"
    and "fst (w_bus w') = applied_registers (remdups_adj (sort [3, 0])) 4 (fst (w_bus ?w))"
    using apply_on_chip [OF sample_register_bus present(1) sample_request sample_file_ok, where fl = "\<lambda>x. x" and p = ?p and sf = "[]"]
    by blast
  then have seven: "chip_divider (fst (w_bus w')) 6 = 7"
    using applied_divider [OF sample_request, of 6]
    by (simp add: pdiv_name_def kDividerOutputs_def output_spec_def chip_divider_def pdiv_registers_def sample_registers_def)
  from saved_dividers_survive_restart [OF sample_poco_trims path sample_register_bus present(1) sample_request sample_file_ok w'
      sample_register_bus present(2)]
  obtain snap' s' where "initializeHardwareFromSavedConfiguration sample_poco (\<lambda>x. x) sample_bus (w_file w') (sample_registers, 0) = (Inr snap', s')"
    and "chip_divider (fst s') 6 = 7"
    using seven by (fastforce simp: dividerLimitForOutput_def)
  with w' seven show ?thesis by (intro exI conjI)
qed

text \<open>Whatever the saved configuration holds, restoring it on a CDCE937 succeeds as soon as it names one
  output, and gives each output the divider of the last saved output it shares its divider with; an
  output with no saved one keeps the divider the chip had.\<close>

theorem restore_is_last_saved:
  assumes "register_bus B a regs" and "chip_present (regs s)"
    and "sc_hasAnyOutput (loadSavedDividerConfiguration P content)"
  shows "\<exists>snap s'. initializeHardwareFromSavedConfiguration P fl B content s = (Inr snap, s') \<and>
    (\<forall>j < 7. dos_divider (ds_outputs snap ! j) = restored_divider (loadSavedDividerConfiguration P content) (regs s) (int j) \<and>
       chip_divider (regs s') (int j) = restored_divider (loadSavedDividerConfiguration P content) (regs s) (int j))"
proof -
  let ?c = "loadSavedDividerConfiguration P content"
  obtain snap s' where "initializeHardwareFromSavedConfiguration P fl B content s = (Inr snap, s')"
    and "regs s' = restored_registers ?c (regs s)"
    and "ds_outputs snap = ds_outputs (chip_snapshot P fl (chip_path (sc_devicePath ?c)) a (sc_referenceClockHz ?c)
           (restored_registers ?c (regs s)))"
    using initialize_on_chip [OF assms, where fl = fl] by blast
  then show ?thesis
    by (intro exI [of _ snap] exI [of _ s']) (simp add: chip_snapshot_divider restored_registers_divider wf_config_load)
qed

lemma restore_is_last_saved_witness:
  "\<exists>snap s'. initializeHardwareFromSavedConfiguration sample_poco (\<lambda>x. x) sample_bus (Some ''y7=9'') (sample_registers, 0) = (Inr snap, s') \<and>
     chip_divider (fst s') 6 = 9"
proof -
  let ?c = "loadSavedDividerConfiguration sample_poco (Some ''y7=9'')"
  have c: "sc_hasAnyOutput ?c" "sc_dividers ?c = [1, 1, 1, 1, 1, 1, 9]"
    "sc_savedOutputs ?c = [False, False, False, False, False, False, True]"
    by code_simp+
  have "restored_divider ?c sample_registers 6 = 9"
    by (simp add: restored_divider_def saved_outputs_def c upt_rec pdiv_name_def kDividerOutputs_def output_spec_def)
  moreover have "chip_present (fst (sample_registers, 0 :: int))" by (simp add: sample_chip_present)
  from restore_is_last_saved [OF sample_register_bus this c(1), of "\<lambda>x. x"]
  obtain snap s' where "initializeHardwareFromSavedConfiguration sample_poco (\<lambda>x. x) sample_bus (Some ''y7=9'')
      (sample_registers, 0) = (Inr snap, s')"
    and "\<And>j. j < 7 \<Longrightarrow> chip_divider (fst s') (int j) = restored_divider ?c sample_registers (int j)"
    by auto
  moreover from this(2) [of 6] have "chip_divider (fst s') 6 = restored_divider ?c sample_registers 6" by simp
  ultimately show ?thesis by (intro exI conjI) simp_all
qed

text \<open>Reading the status, restoring the saved configuration and applying dividers close every descriptor
  they open, whatever the bus answers and wherever they throw.\<close>

theorem descriptors_are_closed:
  assumes "counts_descriptors B cnt"
  shows "cnt (snd (readDividerStatus P fl B p hz s)) = cnt s \<and>
    cnt (snd (initializeHardwareFromSavedConfiguration P fl B content s)) = cnt s \<and>
    cnt (w_bus (snd (applyDividers P fl B fo stateFile p outs d hz w))) = cnt (w_bus w)"
  using keeps_read_status [OF assms] keeps_initialize [OF assms] keeps_apply [OF assms]
  by (simp_all add: io_keeps_def)

lemma descriptors_are_closed_witness:
  "snd (snd (readDividerStatus sample_poco (\<lambda>x. x) sample_bus ''/dev/i2c-1'' 1000000 (sample_registers, 2))) = 2"
  using descriptors_are_closed [OF sample_counts] by simp

text \<open>C31: On a CDCE937 the clock check that guards the start of an acquisition passes exactly when every one of
  the outputs Y1 to Y6 that runs at all (its divider is not 0) runs at \<open>100000\<close> Hz or less; the rounding
  of the quotient to a double never changes the verdict.\<close>

theorem safety_check_is_exact:
  assumes "register_bus B a regs" and "chip_present (regs s)" and "hz \<noteq> 0" and "hz \<le> 1000000000"
    and "rounds_right fl" and "\<And>f n. p_format_unsafe P f n \<noteq> []"
  shows "\<exists>snap s'. readDividerStatus P fl B p hz s = (Inr snap, s') \<and>
    (acquisitionClockSafetyMessage P snap = [] \<longleftrightarrow>
       (\<forall>i. 0 \<le> i \<and> i < 6 \<and> chip_divider (regs s) i \<noteq> 0 \<longrightarrow> uint hz \<le> 100000 * chip_divider (regs s) i))"
proof -
  have "validateReferenceClockHzOrThrow hz = Inr ()" using assms(3,4) by (simp add: validateReferenceClock_ok)
  from read_status_of_chip [OF assms(1,2) this] obtain s' where
    "readDividerStatus P fl B p hz s = (Inr (chip_snapshot P fl (chip_path p) a hz (regs s)), s')" by blast
  moreover have "0 < chip_divider (regs s) i \<longleftrightarrow> chip_divider (regs s) i \<noteq> 0" for i
    using chip_divider_small(1) [of "regs s" i] by linarith
  ultimately show ?thesis
    using safety_on_chip [OF assms(5), of P "chip_path p" a hz "regs s"] assms(6) by simp
qed

lemma safety_check_is_exact_witness:
  "\<exists>snap s'. readDividerStatus sample_poco (\<lambda>x. x) sample_bus [] 1000000 (sample_registers, 0) = (Inr snap, s') \<and>
    acquisitionClockSafetyMessage sample_poco snap \<noteq> []"
proof -
  have present: "chip_present (fst (sample_registers, 0 :: int))" by (simp add: sample_chip_present)
  have clock: "(1000000 :: u64) \<noteq> 0" "(1000000 :: u64) \<le> 1000000000" by simp_all
  have "p_format_unsafe sample_poco f n \<noteq> []" for f n by (simp add: sample_poco_def)
  from safety_check_is_exact [OF sample_register_bus present clock rounds_right_id this, of "[]"]
  obtain snap s' where "readDividerStatus sample_poco (\<lambda>x. x) sample_bus [] 1000000 (sample_registers, 0) = (Inr snap, s')"
    and safe: "acquisitionClockSafetyMessage sample_poco snap = [] \<longleftrightarrow>
       (\<forall>i. 0 \<le> i \<and> i < 6 \<and> chip_divider sample_registers i \<noteq> 0 \<longrightarrow> uint (1000000 :: u64) \<le> 100000 * chip_divider sample_registers i)"
    by auto
  have "chip_divider sample_registers 3 = 5"
    by (simp add: chip_divider_def pdiv_registers_def sample_registers_def)
  then have "acquisitionClockSafetyMessage sample_poco snap \<noteq> []"
    using safe by (auto intro!: exI [of _ "3 :: int"])
  with \<open>readDividerStatus _ _ _ _ _ _ = _\<close> show ?thesis by (intro exI conjI)
qed

end
