(* ===== verification/AgentSupport.thy ===== *)
theory AgentSupport
  imports PocoApi
begin

text \<open>
  \<open>AcquisitionAgentSupport.h\<close> and \<open>AcquisitionAgentSupport.cpp\<close>: the constants of the
  acquisition agent, its environment variables, and the GPIO writes. Which file a \<open>sysfs\<close> write
  reaches is the kernel's business; a write is its path and value, in the order the code does them.
\<close>

section \<open>Constants\<close>

definition kAd7606Count :: nat where "kAd7606Count = 6"
definition kChannelsPerChip :: nat where "kChannelsPerChip = 8"
definition kFrameWords :: nat where "kFrameWords = 24"
definition kFrameColumns :: nat where "kFrameColumns = kAd7606Count * kChannelsPerChip"
definition kHistoryLimit :: nat where "kHistoryLimit = 960"
definition kMaxPendingFrames :: nat where "kMaxPendingFrames = 120000"
definition kFrameBatchWindowUs :: int where "kFrameBatchWindowUs = 1000 * 1000"
definition kHistorySampleIntervalUs :: int where "kHistorySampleIntervalUs = 100"
definition kReaderDrainIntervalUs :: int where "kReaderDrainIntervalUs = 5 * 1000"
definition kDefaultDdsDomain :: int where "kDefaultDdsDomain = 37"

lemma kFrameColumns_48: "kFrameColumns = 48"
  by (simp add: kFrameColumns_def kAd7606Count_def kChannelsPerChip_def)

lemma kFrameColumns_words: "kFrameColumns = 2 * kFrameWords"
  by (simp add: kFrameColumns_48 kFrameWords_def)

definition kIsr :: nat where "kIsr = 0x00"
definition kRdfr :: nat where "kRdfr = 0x18"
definition kRdfo :: nat where "kRdfo = 0x1C"
definition kRlr :: nat where "kRlr = 0x24"
definition kSrr :: nat where "kSrr = 0x28"
definition kIsrRpue :: u32 where "kIsrRpue = push_bit 29 1"
definition kIsrRpore :: u32 where "kIsrRpore = push_bit 30 1"
definition kIsrRpure :: u32 where "kIsrRpure = push_bit 31 1"
definition kGpioReset :: int where "kGpioReset = 968"
definition kGpioMaskStart :: int where "kGpioMaskStart = 976"
definition kMaskStartActiveLow :: bool where "kMaskStartActiveLow = False"

section \<open>The environment\<close>

text \<open>
  The environment is a map of variables; \<open>number\<close> is \<open>Poco::NumberParser::parse\<close>, whose
  exceptions the code catches.
\<close>

type_synonym environment = "string \<Rightarrow> string option"

definition parseIntEnv :: "(string \<Rightarrow> exc + int) \<Rightarrow> environment \<Rightarrow> string \<Rightarrow> int \<Rightarrow> int" where
  "parseIntEnv number env name fallback =
     (case env name of
        None \<Rightarrow> fallback
      | Some v \<Rightarrow> (case number v of Inl _ \<Rightarrow> fallback | Inr n \<Rightarrow> n))"

definition c_tolower :: "char \<Rightarrow> char" where
  "c_tolower c = (let n = (of_char c :: nat) in if 65 \<le> n \<and> n \<le> 90 then char_of (n + 32) else c)"

definition parseBoolEnv :: "environment \<Rightarrow> string \<Rightarrow> bool \<Rightarrow> bool" where
  "parseBoolEnv env name fallback =
     (case env name of
        None \<Rightarrow> fallback
      | Some v0 \<Rightarrow>
          (let v = map c_tolower v0 in
           if v = ''1'' \<or> v = ''true'' \<or> v = ''yes'' \<or> v = ''on'' then True
           else if v = ''0'' \<or> v = ''false'' \<or> v = ''no'' \<or> v = ''off'' then False
           else fallback))"

definition parseStringEnv :: "environment \<Rightarrow> string \<Rightarrow> string \<Rightarrow> string" where
  "parseStringEnv env name fallback =
     (case env name of None \<Rightarrow> fallback | Some v \<Rightarrow> (if v = [] then fallback else v))"

section \<open>GPIO\<close>

text \<open>A \<open>sysfs\<close> write of the value, or nothing when the file cannot be opened.\<close>

type_synonym sysfs = "string \<Rightarrow> string option"

definition writeSysfsValue :: "(string \<Rightarrow> bool) \<Rightarrow> string \<Rightarrow> string \<Rightarrow> sysfs \<Rightarrow> sysfs" where
  "writeSysfsValue opens path v fs = (if opens path then fs(path \<mapsto> v) else fs)"

definition gpioPath :: "int \<Rightarrow> string \<Rightarrow> string" where
  "gpioPath gpio leaf = ''/sys/class/gpio/gpio'' @ show_int gpio @ leaf"

definition exportGpio :: "(string \<Rightarrow> bool) \<Rightarrow> int \<Rightarrow> sysfs \<Rightarrow> sysfs" where
  "exportGpio opens gpio = writeSysfsValue opens ''/sys/class/gpio/export'' (show_int gpio)"

definition setGpioDirection :: "(string \<Rightarrow> bool) \<Rightarrow> int \<Rightarrow> string \<Rightarrow> sysfs \<Rightarrow> sysfs" where
  "setGpioDirection opens gpio direction = writeSysfsValue opens (gpioPath gpio ''/direction'') direction"

definition setGpioValue :: "(string \<Rightarrow> bool) \<Rightarrow> int \<Rightarrow> bool \<Rightarrow> sysfs \<Rightarrow> sysfs" where
  "setGpioValue opens gpio high = writeSysfsValue opens (gpioPath gpio ''/value'') (if high then ''1'' else ''0'')"

definition activeMaskValue :: "bool \<Rightarrow> bool" where
  "activeMaskValue active = (if kMaskStartActiveLow then \<not> active else active)"

end
