(* ===== verification/UdpStream.thy ===== *)
theory UdpStream
  imports AgentSupport
begin

text \<open>
  \<open>AcquisitionUdpStream.h\<close> and \<open>AcquisitionUdpStream.cpp\<close>: the little-endian byte writers, the
  packet format and the publisher that collects frames into datagrams. The socket is a parameter.
  A reference decoder states what a receiver of the format reads; the codec's laws are the locale
  \<open>le_codec\<close>, interpreted on each of the writers.
\<close>

section \<open>The byte writers\<close>

definition appendBytes :: "u8 list \<Rightarrow> u8 list \<Rightarrow> u8 list" where
  "appendBytes buffer bytes = buffer @ bytes"

definition appendU16Le :: "u8 list \<Rightarrow> u16 \<Rightarrow> u8 list" where
  "appendU16Le buffer value = (buffer @ [ucast (value AND 0xFF)]) @ [ucast (drop_bit 8 value AND 0xFF)]"

definition appendU32Le :: "u8 list \<Rightarrow> u32 \<Rightarrow> u8 list" where
  "appendU32Le buffer value =
     foldl (\<lambda>b shift. b @ [ucast (drop_bit shift value AND 0xFF)]) buffer [0, 8, 16, 24]"

definition appendU64Le :: "u8 list \<Rightarrow> u64 \<Rightarrow> u8 list" where
  "appendU64Le buffer value =
     foldl (\<lambda>b shift. b @ [ucast (drop_bit shift value AND 0xFF)]) buffer [0, 8, 16, 24, 32, 40, 48, 56]"

definition appendI64Le :: "u8 list \<Rightarrow> i64 \<Rightarrow> u8 list" where
  "appendI64Le buffer value = appendU64Le buffer value"

definition appendI16Le :: "u8 list \<Rightarrow> i16 \<Rightarrow> u8 list" where
  "appendI16Le buffer value = appendU16Le buffer value"

section \<open>Little-endian codecs\<close>

definition le_bytes :: "nat \<Rightarrow> 'a::len word \<Rightarrow> u8 list" where
  "le_bytes n w = map (\<lambda>k. ucast (drop_bit (8 * k) w)) [0..<n]"

definition le_read :: "u8 list \<Rightarrow> 'a::len word" where
  "le_read bs = foldr (\<lambda>b acc. ucast b OR push_bit 8 acc) bs 0"

lemma length_le_bytes [simp]: "length (le_bytes n w) = n"
  by (simp add: le_bytes_def)

lemma bit_le_read:
  "bit (le_read bs :: 'a::len word) i \<longleftrightarrow> i < LENGTH('a) \<and> i div 8 < length bs \<and> bit (bs ! (i div 8)) (i mod 8)"
proof (induction bs arbitrary: i)
  case Nil
  then show ?case by (simp add: le_read_def)
next
  case (Cons b bs)
  have step: "(le_read (b # bs) :: 'a word) = ucast b OR push_bit 8 (le_read bs)"
    by (simp add: le_read_def)
  show ?case
  proof (cases "i < 8")
    case True
    then show ?thesis
      by (simp add: step bit_simps)
  next
    case False
    then have "i div 8 = Suc ((i - 8) div 8)" and "i mod 8 = (i - 8) mod 8"
      by (simp_all add: le_div_geq le_mod_geq)
    moreover have "\<not> bit b i"
      using False bit_imp_le_length [of b i] by auto
    ultimately show ?thesis
      using False Cons.IH [of "i - 8"] by (auto simp: step bit_simps)
  qed
qed

lemma le_read_bytes:
  assumes "LENGTH('a) \<le> 8 * n"
  shows "le_read (le_bytes n w) = (w :: 'a::len word)"
proof (rule bit_word_eqI)
  fix i assume "i < LENGTH('a)"
  then have "i div 8 < n" using assms by auto
  then show "bit (le_read (le_bytes n w) :: 'a word) i = bit w i"
    using \<open>i < LENGTH('a)\<close> by (simp add: bit_le_read le_bytes_def bit_simps)
qed

text \<open>What the packet code and a receiver rely on of a field's codec, on the values \<open>ok\<close> admits.\<close>

locale le_codec =
  fixes put :: "u8 list \<Rightarrow> 'a \<Rightarrow> u8 list" and bytes :: "'a \<Rightarrow> u8 list" and get :: "u8 list \<Rightarrow> 'a"
    and width :: nat and ok :: "'a \<Rightarrow> bool"
  assumes put_bytes: "put buffer v = buffer @ bytes v"
    and bytes_width: "ok v \<Longrightarrow> length (bytes v) = width"
    and get_bytes: "ok v \<Longrightarrow> get (bytes v) = v"
begin

lemma take_field: "ok v \<Longrightarrow> take width (bytes v @ rest) = bytes v"
  by (simp add: bytes_width)

lemma drop_field: "ok v \<Longrightarrow> drop width (bytes v @ rest) = rest"
  by (simp add: bytes_width)

lemma get_field: "ok v \<Longrightarrow> get (take width (bytes v @ rest)) = v"
  unfolding take_field by (rule get_bytes)

lemma put_all: "foldl put buffer vs = buffer @ concat (map bytes vs)"
  by (induction vs arbitrary: buffer) (simp_all add: put_bytes)

lemma length_all: "\<forall>v \<in> set vs. ok v \<Longrightarrow> length (concat (map bytes vs)) = width * length vs"
  by (induction vs) (simp_all add: bytes_width)

lemma fields_read:
  assumes "\<forall>v \<in> set vs. ok v" and "i < length vs"
  shows "get (take width (drop (width * i) (concat (map bytes vs) @ rest))) = vs ! i"
  using assms
proof (induction vs arbitrary: i)
  case Nil
  then show ?case by simp
next
  case (Cons v vs)
  then have v: "ok v" by simp
  show ?case
  proof (cases i)
    case 0
    then show ?thesis using get_field [OF v, of "concat (map bytes vs) @ rest"] by simp
  next
    case (Suc j)
    have "drop (width * Suc j) ((bytes v @ concat (map bytes vs)) @ rest) =
        drop (width * j) (drop width (bytes v @ concat (map bytes vs) @ rest))"
      unfolding append_assoc drop_drop mult_Suc_right by (simp only: add.commute)
    then show ?thesis
      unfolding Suc drop_field [OF v] using Cons Suc by simp
  qed
qed

lemma all_fields_read:
  assumes "\<forall>v \<in> set vs. ok v" and "length vs = n"
  shows "map (\<lambda>i. get (take width (drop (width * i) (concat (map bytes vs) @ rest)))) [0..<n] = vs"
proof (rule nth_equalityI)
  fix i assume "i < length (map (\<lambda>i. get (take width (drop (width * i) (concat (map bytes vs) @ rest)))) [0..<n])"
  then have i: "i < length vs" using assms(2) by simp
  then show "map (\<lambda>i. get (take width (drop (width * i) (concat (map bytes vs) @ rest)))) [0..<n] ! i = vs ! i"
    using fields_read [OF assms(1) i, of rest] assms(2) by (simp del: drop_append take_append)
qed (simp add: assms(2))

end

lemma mask_low_byte: "ucast (x AND 0xFF) = (ucast x :: u8)" for x :: "'a::len word"
  unfolding and_low_masks by (rule bit_word_eqI) (auto simp: bit_simps)

lemma le_bytes_2: "le_bytes 2 w = [ucast w, ucast (drop_bit 8 w)]"
  by (simp add: le_bytes_def upt_rec)

lemma le_bytes_4: "le_bytes 4 w = [ucast w, ucast (drop_bit 8 w), ucast (drop_bit 16 w), ucast (drop_bit 24 w)]"
  by (simp add: le_bytes_def upt_rec)

lemma le_bytes_8: "le_bytes 8 w = [ucast w, ucast (drop_bit 8 w), ucast (drop_bit 16 w), ucast (drop_bit 24 w),
    ucast (drop_bit 32 w), ucast (drop_bit 40 w), ucast (drop_bit 48 w), ucast (drop_bit 56 w)]"
  by (simp add: le_bytes_def upt_rec)

interpretation u16_le: le_codec appendU16Le "le_bytes 2" le_read 2 "\<lambda>_. True"
  by unfold_locales (simp_all add: appendU16Le_def mask_low_byte le_bytes_2 le_read_bytes flip: le_bytes_2)

interpretation u32_le: le_codec appendU32Le "le_bytes 4" le_read 4 "\<lambda>_. True"
  by unfold_locales (simp_all add: appendU32Le_def mask_low_byte le_bytes_4 le_read_bytes flip: le_bytes_4)

interpretation u64_le: le_codec appendU64Le "le_bytes 8" le_read 8 "\<lambda>_. True"
  by unfold_locales (simp_all add: appendU64Le_def mask_low_byte le_bytes_8 le_read_bytes flip: le_bytes_8)

interpretation i64_le: le_codec appendI64Le "le_bytes 8" le_read 8 "\<lambda>_. True"
  by unfold_locales (simp_all add: appendI64Le_def u64_le.put_bytes le_read_bytes)

interpretation i16_le: le_codec appendI16Le "le_bytes 2" le_read 2 "\<lambda>_. True"
  by unfold_locales (simp_all add: appendI16Le_def u16_le.put_bytes le_read_bytes)

section \<open>Settings, statistics and frames\<close>

record udp_settings =
  us_enabled :: bool
  us_host :: string
  us_port :: int
  us_maxFramesPerPacket :: int

record udp_stats =
  st_packetsSent :: u64
  st_framesSent :: u64
  st_sendErrors :: u64
  st_lastError :: string

record pending_frame =
  pf_sequence :: u64
  pf_capturedAtUs :: i64
  pf_samples :: "i16 list"

text \<open>\<open>up_impl\<close> tells whether the socket exists.\<close>

record udp_publisher =
  up_settings :: udp_settings
  up_stats :: udp_stats
  up_active :: bool
  up_pendingFrames :: "pending_frame list"
  up_impl :: bool

definition kPacketVersion :: u16 where "kPacketVersion = 1"
definition kPacketHeaderSize :: u16 where "kPacketHeaderSize = 40"
definition kPacketFlagsLittleEndian :: u32 where "kPacketFlagsLittleEndian = 0x00000001"
definition kPacketMagic :: "u8 list" where "kPacketMagic = [0x4A, 0x4E, 0x44, 0x41]"

definition recordError :: "string \<Rightarrow> udp_publisher \<Rightarrow> udp_publisher" where
  "recordError message p =
     p\<lparr>up_stats := (up_stats p)\<lparr>st_sendErrors := st_sendErrors (up_stats p) + 1, st_lastError := message\<rparr>\<rparr>"

text \<open>What a \<open>catch\<close> reports: \<open>displayText\<close> of a POCO exception, \<open>what\<close> of any other.\<close>

fun caught_text :: "poco \<Rightarrow> exc \<Rightarrow> string" where
  "caught_text P (StdException m) = m"
| "caught_text P e = p_displayText P e"

definition empty_stats :: udp_stats where
  "empty_stats = \<lparr>st_packetsSent = 0, st_framesSent = 0, st_sendErrors = 0, st_lastError = []\<rparr>"

text \<open>The constructor; \<open>open_socket\<close> resolves the address and opens the socket.\<close>

definition newPublisher :: "poco \<Rightarrow> (udp_settings \<Rightarrow> exc + unit) \<Rightarrow> udp_settings \<Rightarrow> udp_publisher" where
  "newPublisher P open_socket settings =
     (let p = \<lparr>up_settings = settings, up_stats = empty_stats, up_active = False, up_pendingFrames = [], up_impl = False\<rparr> in
      if \<not> us_enabled settings \<or> us_host settings = [] \<or> us_port settings \<le> 0 then p
      else
        let settings' = (if us_maxFramesPerPacket settings \<le> 0
                         then settings\<lparr>us_maxFramesPerPacket := 10\<rparr> else settings);
            p' = p\<lparr>up_settings := settings'\<rparr>
        in case open_socket settings' of
             Inr _ \<Rightarrow> p'\<lparr>up_impl := True, up_active := True\<rparr>
           | Inl e \<Rightarrow> recordError (caught_text P e) p')"

section \<open>The packet\<close>

definition appendFrame :: "u8 list \<Rightarrow> pending_frame \<Rightarrow> u8 list" where
  "appendFrame buffer frame =
     foldl appendI16Le
       (appendI64Le (appendU64Le buffer (pf_sequence frame)) (pf_capturedAtUs frame))
       (pf_samples frame)"

definition packetHeader :: "pending_frame list \<Rightarrow> u8 list" where
  "packetHeader frames =
     (let b0 = appendBytes [] kPacketMagic;
          b1 = appendU16Le b0 kPacketVersion;
          b2 = appendU16Le b1 kPacketHeaderSize;
          b3 = appendU16Le b2 (of_nat kFrameColumns);
          b4 = appendU16Le b3 (of_nat (length frames));
          b5 = appendU32Le b4 kPacketFlagsLittleEndian;
          b6 = appendU64Le b5 (pf_sequence (hd frames));
          b7 = appendU64Le b6 (pf_sequence (last frames))
      in appendI64Le b7 (pf_capturedAtUs (last frames)))"

definition packetBytes :: "pending_frame list \<Rightarrow> u8 list" where
  "packetBytes frames = foldl appendFrame (packetHeader frames) frames"

text \<open>
  \<open>sendPacket\<close>: the datagram goes to the socket, and the counters move only when the socket took
  it. \<open>send\<close> is the socket: it may throw, and it keeps a state of its own.
\<close>

type_synonym 'n socket = "u8 list \<Rightarrow> 'n \<Rightarrow> (exc + unit) \<times> 'n"

definition sendPacket ::
    "'n socket \<Rightarrow> pending_frame list \<Rightarrow> udp_publisher \<times> 'n \<Rightarrow> (exc + unit) \<times> udp_publisher \<times> 'n" where
  "sendPacket send frames w =
     (let (p, n) = w in
      if \<not> up_active p \<or> \<not> up_impl p then (Inr (), w)
      else case send (packetBytes frames) n of
             (Inl e, n') \<Rightarrow> (Inl e, (p, n'))
           | (Inr _, n') \<Rightarrow>
               (Inr (), (p\<lparr>up_stats := (up_stats p)\<lparr>st_packetsSent := st_packetsSent (up_stats p) + 1,
                    st_framesSent := st_framesSent (up_stats p) + of_nat (length frames),
                    st_lastError := []\<rparr>\<rparr>, n')))"

definition flushPendingFrames :: "poco \<Rightarrow> 'n socket \<Rightarrow> udp_publisher \<times> 'n \<Rightarrow> udp_publisher \<times> 'n" where
  "flushPendingFrames P send w =
     (if up_pendingFrames (fst w) = [] then w
      else
        let (p, n) = (case sendPacket send (up_pendingFrames (fst w)) w of
                        (Inl e, (p', n')) \<Rightarrow> (recordError (caught_text P e) p', n')
                      | (Inr _, w') \<Rightarrow> w')
        in (p\<lparr>up_pendingFrames := []\<rparr>, n))"

text \<open>The size is cast to \<open>int\<close> before it is compared.\<close>

definition pushFrame ::
    "poco \<Rightarrow> 'n socket \<Rightarrow> u64 \<Rightarrow> i64 \<Rightarrow> i16 list \<Rightarrow> udp_publisher \<times> 'n \<Rightarrow> udp_publisher \<times> 'n" where
  "pushFrame P send sequence capturedAtUs samples w =
     (if \<not> up_active (fst w) then w
      else
        let frame = \<lparr>pf_sequence = sequence, pf_capturedAtUs = capturedAtUs, pf_samples = samples\<rparr>;
            p = (fst w)\<lparr>up_pendingFrames := up_pendingFrames (fst w) @ [frame]\<rparr>;
            w' = (p, snd w)
        in if sint (of_nat (length (up_pendingFrames p)) :: 32 word) \<ge> us_maxFramesPerPacket (up_settings p)
           then flushPendingFrames P send w' else w')"

definition flush :: "poco \<Rightarrow> 'n socket \<Rightarrow> udp_publisher \<times> 'n \<Rightarrow> udp_publisher \<times> 'n" where
  "flush P send w = (if \<not> up_active (fst w) then w else flushPendingFrames P send w)"

section \<open>A receiver\<close>

text \<open>
  The format as a receiver reads it: magic, version, header size, columns, frame count and flags,
  the sequence range and the last capture time, then the frames; \<open>None\<close> when the datagram has
  another shape.
\<close>

record packet_view =
  pv_first :: u64
  pv_last :: u64
  pv_lastCapturedAtUs :: i64
  pv_frames :: "pending_frame list"

definition read_frame :: "u8 list \<Rightarrow> pending_frame" where
  "read_frame bs =
     \<lparr>pf_sequence = le_read (take 8 bs), pf_capturedAtUs = le_read (take 8 (drop 8 bs)),
      pf_samples = map (\<lambda>i. le_read (take 2 (drop (2 * i) (drop 16 bs)))) [0..<48]\<rparr>"

definition read_packet :: "u8 list \<Rightarrow> packet_view option" where
  "read_packet bs =
     (if length bs < 40 \<or> take 4 bs \<noteq> kPacketMagic \<or> le_read (take 2 (drop 4 bs)) \<noteq> kPacketVersion \<or>
         le_read (take 2 (drop 6 bs)) \<noteq> kPacketHeaderSize \<or> le_read (take 2 (drop 8 bs)) \<noteq> (48 :: u16) \<or>
         le_read (take 4 (drop 12 bs)) \<noteq> kPacketFlagsLittleEndian
      then None
      else
        let n = unat (le_read (take 2 (drop 10 bs)) :: u16) in
        if length bs \<noteq> 40 + 112 * n then None
        else Some \<lparr>pv_first = le_read (take 8 (drop 16 bs)), pv_last = le_read (take 8 (drop 24 bs)),
               pv_lastCapturedAtUs = le_read (take 8 (drop 32 bs)),
               pv_frames = map (\<lambda>i. read_frame (take 112 (drop (112 * i) (drop 40 bs)))) [0..<n]\<rparr>)"

section \<open>The packet as the receiver reads it\<close>

definition wf_frame :: "pending_frame \<Rightarrow> bool" where
  "wf_frame f \<longleftrightarrow> length (pf_samples f) = kFrameColumns"

definition frame_bytes :: "pending_frame \<Rightarrow> u8 list" where
  "frame_bytes f = le_bytes 8 (pf_sequence f) @ le_bytes 8 (pf_capturedAtUs f) @ concat (map (le_bytes 2) (pf_samples f))"

interpretation frame_codec: le_codec appendFrame frame_bytes read_frame 112 wf_frame
proof unfold_locales
  fix buffer and v :: pending_frame
  show "appendFrame buffer v = buffer @ frame_bytes v"
    by (simp add: appendFrame_def frame_bytes_def i16_le.put_all i64_le.put_bytes u64_le.put_bytes)
  assume v: "wf_frame v"
  then show "length (frame_bytes v) = 112"
    by (simp add: wf_frame_def frame_bytes_def i16_le.length_all kFrameColumns_48)
  have "map (\<lambda>i. le_read (take 2 (drop (2 * i) (concat (map (le_bytes 2) (pf_samples v)) @ [])))) [0..<48] = pf_samples v"
    using v by (intro i16_le.all_fields_read) (simp_all add: wf_frame_def kFrameColumns_48)
  then show "read_frame (frame_bytes v) = v"
    by (simp add: read_frame_def frame_bytes_def le_read_bytes)
qed

definition header_bytes :: "pending_frame list \<Rightarrow> u8 list" where
  "header_bytes frames =
     kPacketMagic @ le_bytes 2 kPacketVersion @ le_bytes 2 kPacketHeaderSize @ le_bytes 2 (48 :: u16) @
     le_bytes 2 (of_nat (length frames) :: u16) @ le_bytes 4 kPacketFlagsLittleEndian @
     le_bytes 8 (pf_sequence (hd frames)) @ le_bytes 8 (pf_sequence (last frames)) @
     le_bytes 8 (pf_capturedAtUs (last frames))"

lemma packetHeader_bytes: "packetHeader frames = header_bytes frames"
  by (simp add: packetHeader_def header_bytes_def Let_def appendBytes_def u16_le.put_bytes u32_le.put_bytes
      u64_le.put_bytes i64_le.put_bytes kFrameColumns_48)

lemma length_header: "length (header_bytes frames) = 40"
  by (simp add: header_bytes_def kPacketMagic_def)

lemma packetBytes_eq: "packetBytes frames = header_bytes frames @ concat (map frame_bytes frames)"
  by (simp add: packetBytes_def packetHeader_bytes frame_codec.put_all)

lemma length_packet: "\<forall>f \<in> set frames. wf_frame f \<Longrightarrow> length (packetBytes frames) = 40 + 112 * length frames"
  by (simp add: packetBytes_eq length_header frame_codec.length_all)

lemma header_fields:
  fixes rest :: "u8 list" and frames :: "pending_frame list"
  defines "bs \<equiv> header_bytes frames @ rest"
  shows "take 4 bs = kPacketMagic" "le_read (take 2 (drop 4 bs)) = kPacketVersion"
    "le_read (take 2 (drop 6 bs)) = kPacketHeaderSize" "le_read (take 2 (drop 8 bs)) = (48 :: u16)"
    "le_read (take 2 (drop 10 bs)) = (of_nat (length frames) :: u16)"
    "le_read (take 4 (drop 12 bs)) = kPacketFlagsLittleEndian"
    "le_read (take 8 (drop 16 bs)) = pf_sequence (hd frames)"
    "le_read (take 8 (drop 24 bs)) = pf_sequence (last frames)"
    "le_read (take 8 (drop 32 bs)) = pf_capturedAtUs (last frames)"
    "drop 40 bs = rest"
  by (simp_all add: bs_def header_bytes_def kPacketMagic_def le_read_bytes)

lemma read_packetBytes:
  assumes "\<forall>f \<in> set frames. wf_frame f" and "length frames < 2 ^ 16"
  shows "read_packet (packetBytes frames) =
    Some \<lparr>pv_first = pf_sequence (hd frames), pv_last = pf_sequence (last frames),
          pv_lastCapturedAtUs = pf_capturedAtUs (last frames), pv_frames = frames\<rparr>"
proof -
  have count: "unat (of_nat (length frames) :: u16) = length frames"
    using assms(2) by (simp add: unat_of_nat)
  define bs where "bs = header_bytes frames @ concat (map frame_bytes frames)"
  note fields = header_fields [of frames "concat (map frame_bytes frames)", folded bs_def]
  have "map (\<lambda>i. read_frame (take 112 (drop (112 * i) (concat (map frame_bytes frames) @ [])))) [0..<length frames] = frames"
    using assms(1) by (intro frame_codec.all_fields_read) auto
  then have "map (\<lambda>i. read_frame (take 112 (drop (112 * i) (drop 40 bs)))) [0..<length frames] = frames"
    by (simp only: fields(10) append_Nil2)
  moreover have "length bs = 40 + 112 * length frames"
    using length_packet [OF assms(1)] by (simp only: packetBytes_eq bs_def)
  ultimately show ?thesis
    unfolding packetBytes_eq bs_def [symmetric] read_packet_def fields(1-9) count Let_def by simp
qed

section \<open>The publisher over a run\<close>

datatype udp_op = PushFrame u64 i64 "i16 list" | Flush

fun udp_step :: "poco \<Rightarrow> 'n socket \<Rightarrow> udp_op \<Rightarrow> udp_publisher \<times> 'n \<Rightarrow> udp_publisher \<times> 'n" where
  "udp_step P send (PushFrame q t xs) w = pushFrame P send q t xs w"
| "udp_step P send Flush w = flush P send w"

definition run_udp :: "poco \<Rightarrow> 'n socket \<Rightarrow> udp_op list \<Rightarrow> udp_publisher \<times> 'n \<Rightarrow> udp_publisher \<times> 'n" where
  "run_udp P send ops w = fold (udp_step P send) ops w"

text \<open>The frames a run pushes, in order.\<close>

fun pushed_frames :: "udp_op list \<Rightarrow> pending_frame list" where
  "pushed_frames [] = []"
| "pushed_frames (PushFrame q t xs # ops) = \<lparr>pf_sequence = q, pf_capturedAtUs = t, pf_samples = xs\<rparr> # pushed_frames ops"
| "pushed_frames (Flush # ops) = pushed_frames ops"

lemma pushed_frames_append: "pushed_frames (ops @ ops') = pushed_frames ops @ pushed_frames ops'"
  by (induction ops rule: pushed_frames.induct) simp_all

text \<open>
  A network that records every datagram it is given and whether it took it; \<open>verdict\<close> decides, from
  what was sent before, whether a send succeeds or throws.
\<close>

type_synonym net_log = "(u8 list \<times> bool) list"

definition logging :: "(net_log \<Rightarrow> u8 list \<Rightarrow> exc + unit) \<Rightarrow> net_log socket" where
  "logging verdict bs l = (verdict l bs, l @ [(bs, \<not> isl (verdict l bs))])"

text \<open>The batches that went out so far: what they carry, how large they are, and the counters.\<close>

definition udp_sent :: "pending_frame list \<Rightarrow> pending_frame list list \<Rightarrow> udp_publisher \<times> net_log \<Rightarrow> bool" where
  "udp_sent carried batches w \<longleftrightarrow>
     (let p = fst w; l = snd w; most = us_maxFramesPerPacket (up_settings p) in
      up_active p \<and> up_impl p \<and> 0 < most \<and> most < 2 ^ 31 \<and>
      map packetBytes batches = map fst l \<and>
      (\<forall>b \<in> set batches. b \<noteq> [] \<and> int (length b) \<le> most) \<and>
      concat batches = carried \<and>
      st_packetsSent (up_stats p) = of_nat (length (filter snd l)) \<and>
      st_sendErrors (up_stats p) = of_nat (length (filter (Not \<circ> snd) l)) \<and>
      st_framesSent (up_stats p) = of_nat (\<Sum>(b, sent) \<leftarrow> zip batches (map snd l). if sent then length b else 0))"

definition udp_inv :: "pending_frame list \<Rightarrow> pending_frame list list \<Rightarrow> udp_publisher \<times> net_log \<Rightarrow> bool" where
  "udp_inv pushed batches w \<longleftrightarrow>
     (\<exists>carried. udp_sent carried batches w \<and> carried @ up_pendingFrames (fst w) = pushed) \<and>
     int (length (up_pendingFrames (fst w))) < us_maxFramesPerPacket (up_settings (fst w))"

lemma flush_pending_sent:
  assumes sent: "udp_sent carried batches (p, l)" and "int (length (up_pendingFrames p)) \<le> us_maxFramesPerPacket (up_settings p)"
  obtains batches' where
    "udp_sent (carried @ up_pendingFrames p) batches' (flushPendingFrames P (logging verdict) (p, l))"
    and "up_pendingFrames (fst (flushPendingFrames P (logging verdict) (p, l))) = []"
    and "up_settings (fst (flushPendingFrames P (logging verdict) (p, l))) = up_settings p"
proof (cases "up_pendingFrames p = []")
  case True
  then show thesis using sent by (intro that [of batches]) (simp_all add: flushPendingFrames_def)
next
  case False
  let ?fs = "up_pendingFrames p"
  have len: "length batches = length l"
    using sent unfolding udp_sent_def Let_def by (metis fst_conv length_map snd_conv)
  have active: "up_active p" "up_impl p" using sent by (simp_all add: udp_sent_def Let_def)
  show thesis
  proof (rule that [of "batches @ [?fs]"])
    show "udp_sent (carried @ ?fs) (batches @ [?fs]) (flushPendingFrames P (logging verdict) (p, l))"
      using False sent assms(2) len active
      by (cases "verdict l (packetBytes ?fs)")
         (simp_all add: udp_sent_def flushPendingFrames_def sendPacket_def logging_def recordError_def Let_def add.commute)
  qed (use False active in \<open>simp_all add: flushPendingFrames_def sendPacket_def logging_def recordError_def Let_def case_prod_beta split: sum.split\<close>)
qed

lemma udp_sent_pending: "udp_sent carried batches (p\<lparr>up_pendingFrames := fs\<rparr>, l) = udp_sent carried batches (p, l)"
  by (simp add: udp_sent_def)

lemma size_cast: "n < 2 ^ 31 \<Longrightarrow> sint (of_nat n :: 32 word) = int n"
  by (simp add: signed_of_nat take_bit_nat_eq_self signed_take_bit_int_eq_self)

lemma udp_step_inv:
  assumes "udp_inv pushed batches w"
  obtains batches' where "udp_inv (pushed @ pushed_frames [op]) batches' (udp_step P (logging verdict) op w)"
    and "up_settings (fst (udp_step P (logging verdict) op w)) = up_settings (fst w)"
proof -
  obtain p l where w: "w = (p, l)" by fastforce
  obtain carried where sent: "udp_sent carried batches (p, l)" and carried: "carried @ up_pendingFrames p = pushed"
    and few: "int (length (up_pendingFrames p)) < us_maxFramesPerPacket (up_settings p)"
    using assms w by (auto simp: udp_inv_def)
  have active: "up_active p" and most: "us_maxFramesPerPacket (up_settings p) < 2 ^ 31" "0 < us_maxFramesPerPacket (up_settings p)"
    using sent by (simp_all add: udp_sent_def Let_def)
  show thesis
  proof (cases op)
    case Flush
    obtain batches' where "udp_sent (carried @ up_pendingFrames p) batches' (flushPendingFrames P (logging verdict) (p, l))"
      "up_pendingFrames (fst (flushPendingFrames P (logging verdict) (p, l))) = []"
      "up_settings (fst (flushPendingFrames P (logging verdict) (p, l))) = up_settings p"
      using sent few by (elim flush_pending_sent) simp
    then show thesis
      using Flush w active carried most by (intro that [of batches']) (simp_all add: flush_def udp_inv_def)
  next
    case (PushFrame q t xs)
    let ?fs = "up_pendingFrames p @ [\<lparr>pf_sequence = q, pf_capturedAtUs = t, pf_samples = xs\<rparr>]"
    let ?p = "p\<lparr>up_pendingFrames := ?fs\<rparr>"
    have cast: "sint (of_nat (length ?fs) :: 32 word) = int (length ?fs)"
      using few most by (intro size_cast) simp
    show thesis
    proof (cases "us_maxFramesPerPacket (up_settings p) \<le> int (length ?fs)")
      case True
      have "udp_sent carried batches (?p, l)" "int (length (up_pendingFrames ?p)) \<le> us_maxFramesPerPacket (up_settings ?p)"
        using sent few by (simp_all add: udp_sent_pending)
      then obtain batches' where "udp_sent (carried @ up_pendingFrames ?p) batches' (flushPendingFrames P (logging verdict) (?p, l))"
        "up_pendingFrames (fst (flushPendingFrames P (logging verdict) (?p, l))) = []"
        "up_settings (fst (flushPendingFrames P (logging verdict) (?p, l))) = up_settings ?p"
        by (rule flush_pending_sent)
      moreover have "udp_step P (logging verdict) op w = flushPendingFrames P (logging verdict) (?p, l)"
        using PushFrame w active cast True by (simp add: pushFrame_def Let_def)
      ultimately show thesis
        using PushFrame w carried most by (intro that [of batches']) (auto simp: udp_inv_def)
    next
      case False
      then have "udp_step P (logging verdict) op w = (?p, l)"
        using PushFrame w active cast by (simp add: pushFrame_def Let_def)
      then show thesis
        using PushFrame w sent carried False by (intro that [of batches]) (auto simp: udp_inv_def udp_sent_pending)
    qed
  qed
qed

lemma run_udp_inv:
  assumes "udp_inv pushed batches w"
  shows "\<exists>batches'. udp_inv (pushed @ pushed_frames ops) batches' (run_udp P (logging verdict) ops w) \<and>
    up_settings (fst (run_udp P (logging verdict) ops w)) = up_settings (fst w)"
  using assms
proof (induction ops arbitrary: pushed batches w)
  case Nil
  then show ?case by (auto simp: run_udp_def)
next
  case (Cons op ops)
  obtain batches1 where "udp_inv (pushed @ pushed_frames [op]) batches1 (udp_step P (logging verdict) op w)"
    and "up_settings (fst (udp_step P (logging verdict) op w)) = up_settings (fst w)"
    using Cons.prems by (rule udp_step_inv)
  then show ?case
    using Cons.IH pushed_frames_append [of "[op]" ops] by (fastforce simp: run_udp_def)
qed

text \<open>Settings with which the publisher runs and its packets can be counted in 16 bits.\<close>

definition udp_ready :: "udp_settings \<Rightarrow> bool" where
  "udp_ready st \<longleftrightarrow> us_enabled st \<and> us_host st \<noteq> [] \<and> 0 < us_port st \<and>
     0 < us_maxFramesPerPacket st \<and> us_maxFramesPerPacket st < 2 ^ 16"

lemma new_publisher_inv:
  assumes "udp_ready st" and "open_socket st = Inr ()"
  shows "udp_inv [] [] (newPublisher P open_socket st, [])"
    and "up_settings (newPublisher P open_socket st) = st"
  using assms by (simp_all add: udp_ready_def newPublisher_def udp_inv_def udp_sent_def empty_stats_def Let_def)

lemma packets_as_views:
  assumes "udp_inv pushed batches w" and "\<forall>f \<in> set pushed. wf_frame f" and "us_maxFramesPerPacket (up_settings (fst w)) < 2 ^ 16"
  shows "map (read_packet \<circ> fst) (snd w) =
      map (\<lambda>b. Some \<lparr>pv_first = pf_sequence (hd b), pv_last = pf_sequence (last b),
              pv_lastCapturedAtUs = pf_capturedAtUs (last b), pv_frames = b\<rparr>) batches"
proof -
  have bytes: "map fst (snd w) = map packetBytes batches" and "\<forall>b \<in> set batches. int (length b) < 2 ^ 16"
    and "concat batches @ up_pendingFrames (fst w) = pushed"
    using assms(1,3) by (auto simp: udp_inv_def udp_sent_def Let_def)
  then have "\<forall>b \<in> set batches. read_packet (packetBytes b) = Some \<lparr>pv_first = pf_sequence (hd b), pv_last = pf_sequence (last b),
              pv_lastCapturedAtUs = pf_capturedAtUs (last b), pv_frames = b\<rparr>"
    using assms(2) by (intro ballI read_packetBytes) (auto simp: zless_nat_eq_int_zless)
  then show ?thesis
    unfolding map_map [symmetric] bytes by simp
qed

section \<open>Properties\<close>

text \<open>A receiver that follows the packet header reads back from the datagram the frames it was built from:
  the sequence numbers, capture times and all 48 samples of each, in order, with the range and count the
  header announces, provided the count fits its 16 bits.\<close>

theorem packet_round_trip:
  assumes "\<forall>f \<in> set frames. length (pf_samples f) = kFrameColumns" and "length frames < 2 ^ 16"
  shows "read_packet (packetBytes frames) =
    Some \<lparr>pv_first = pf_sequence (hd frames), pv_last = pf_sequence (last frames),
          pv_lastCapturedAtUs = pf_capturedAtUs (last frames), pv_frames = frames\<rparr>"
  using assms by (intro read_packetBytes) (auto simp: wf_frame_def)

lemma packet_round_trip_witness:
  "map_option pv_frames (read_packet (packetBytes [\<lparr>pf_sequence = 7, pf_capturedAtUs = - 5, pf_samples = replicate 48 (- 2)\<rparr>])) =
     Some [\<lparr>pf_sequence = 7, pf_capturedAtUs = - 5, pf_samples = replicate 48 (- 2)\<rparr>]"
  using packet_round_trip [of "[\<lparr>pf_sequence = 7, pf_capturedAtUs = - 5, pf_samples = replicate 48 (- 2)\<rparr>]"]
  by (simp add: kFrameColumns_48)

text \<open>C26: Whatever sequence of pushes and flushes is made and whichever sends fail, the datagrams that were handed
  to the socket carry the pushed frames in order and without loss or repetition, the rest being
  still pending; a datagram has between one frame and the configured number, and fewer frames than that are pending.\<close>

theorem udp_frames_in_order:
  assumes "udp_ready settings" and "open_socket settings = Inr ()"
    and "\<forall>f \<in> set (pushed_frames ops). length (pf_samples f) = kFrameColumns"
    and "(p, sent) = run_udp P (logging verdict) ops (newPublisher P open_socket settings, [])"
  shows "\<exists>views. map (read_packet \<circ> fst) sent = map Some views \<and>
    concat (map pv_frames views) @ up_pendingFrames p = pushed_frames ops \<and>
    (\<forall>v \<in> set views. pv_frames v \<noteq> [] \<and> int (length (pv_frames v)) \<le> us_maxFramesPerPacket settings) \<and>
    int (length (up_pendingFrames p)) < us_maxFramesPerPacket settings"
proof -
  note start = new_publisher_inv [where st = settings and open_socket = open_socket and P = P, OF assms(1,2)]
  obtain batches where inv: "udp_inv (pushed_frames ops) batches (p, sent)" and st: "up_settings p = settings"
    using run_udp_inv [OF start(1), of ops P verdict, folded assms(4)] start(2) by auto
  let ?views = "map (\<lambda>b. \<lparr>pv_first = pf_sequence (hd b), pv_last = pf_sequence (last b),
      pv_lastCapturedAtUs = pf_capturedAtUs (last b), pv_frames = b\<rparr>) batches"
  have "map (read_packet \<circ> fst) sent = map Some ?views"
    using packets_as_views [OF inv] assms(1,3) st by (simp add: wf_frame_def udp_ready_def comp_def)
  moreover have "map pv_frames ?views = batches" by (simp add: comp_def)
  ultimately show ?thesis
    using inv st by (intro exI [of _ ?views]) (auto simp: udp_inv_def udp_sent_def Let_def)
qed

definition sample_settings :: udp_settings where
  "sample_settings = \<lparr>us_enabled = True, us_host = ''10.0.0.1'', us_port = 50000, us_maxFramesPerPacket = 2\<rparr>"

lemma udp_frames_in_order_witness:
  "\<exists>views. map (read_packet \<circ> fst) (snd (run_udp sample_poco (logging (\<lambda>_ _. Inr ()))
       [PushFrame 0 5 (replicate 48 1), PushFrame 1 6 (replicate 48 2), PushFrame 2 7 (replicate 48 3)]
       (newPublisher sample_poco (\<lambda>_. Inr ()) sample_settings, []))) = map Some views"
proof -
  let ?ops = "[PushFrame 0 5 (replicate 48 1), PushFrame 1 6 (replicate 48 2), PushFrame 2 7 (replicate 48 3)]"
  have "udp_ready sample_settings" by (simp add: udp_ready_def sample_settings_def)
  moreover have "\<forall>f \<in> set (pushed_frames ?ops). length (pf_samples f) = kFrameColumns" by (simp add: kFrameColumns_48)
  ultimately show ?thesis
    using udp_frames_in_order [of sample_settings "\<lambda>_. Inr ()" ?ops _ _ sample_poco "\<lambda>_ _. Inr ()"] by (metis prod.collapse)
qed

text \<open>The counters agree with the wire: \<open>packetsSent\<close> and \<open>sendErrors\<close> count the datagrams the socket took
  and refused (modulo \<open>2 ^ 64\<close>), and \<open>framesSent\<close> the frames in those it took.\<close>

theorem udp_statistics:
  assumes "udp_ready settings" and "open_socket settings = Inr ()"
    and "(p, sent) = run_udp P (logging verdict) ops (newPublisher P open_socket settings, [])"
  shows "\<exists>batches. map packetBytes batches = map fst sent \<and>
    st_packetsSent (up_stats p) = of_nat (length (filter snd sent)) \<and>
    st_sendErrors (up_stats p) = of_nat (length (filter (Not \<circ> snd) sent)) \<and>
    st_framesSent (up_stats p) = of_nat (\<Sum>(b, taken) \<leftarrow> zip batches (map snd sent). if taken then length b else 0)"
  using run_udp_inv [OF new_publisher_inv(1) [where st = settings and open_socket = open_socket and P = P, OF assms(1,2)], of ops P verdict, folded assms(3)]
  by (auto simp: udp_inv_def udp_sent_def Let_def)

lemma udp_statistics_witness:
  "st_sendErrors (up_stats (fst (run_udp sample_poco (logging (\<lambda>_ _. Inl (PocoException ''no route'')))
     [PushFrame 0 5 (replicate 48 1), Flush] (newPublisher sample_poco (\<lambda>_. Inr ()) sample_settings, [])))) =
   of_nat (length (filter (Not \<circ> snd) (snd (run_udp sample_poco (logging (\<lambda>_ _. Inl (PocoException ''no route'')))
     [PushFrame 0 5 (replicate 48 1), Flush] (newPublisher sample_poco (\<lambda>_. Inr ()) sample_settings, [])))))"
  using udp_statistics [of sample_settings "\<lambda>_. Inr ()" _ _ sample_poco "\<lambda>_ _. Inl (PocoException ''no route'')"
      "[PushFrame 0 5 (replicate 48 1), Flush]"]
  by (auto simp: udp_ready_def sample_settings_def prod_eq_iff)

end
