(* ===== verification/Frames.thy ===== *)
theory Frames
  imports UdpStream
begin

text \<open>
  The frames of \<open>AcquisitionRuntime.cpp\<close>: how the words of the FIFO become channel samples, the
  previews and debug text made of them, and the bounded history of every channel with its timeline.
\<close>

section \<open>Frames\<close>

text \<open>\<open>FramePacket\<close>; the capture time is in microseconds since the epoch.\<close>

record frame_packet =
  fp_sequence :: u64
  fp_capturedAtUs :: int
  fp_words :: "u32 list"

definition unpackFrame :: "u32 list \<Rightarrow> i16 list \<Rightarrow> i16 list" where
  "unpackFrame words samples =
     foldl (\<lambda>s index. s[index * 2 := ucast (drop_bit 16 (words ! index) AND 0xFFFF),
                        index * 2 + 1 := ucast (words ! index AND 0xFFFF)])
       samples [0..<length words]"

definition unpackFrameLoHiPreview :: "u32 list \<Rightarrow> u16 list" where
  "unpackFrameLoHiPreview words =
     foldl (\<lambda>s index. s[index * 2 := ucast (words ! index AND 0xFFFF),
                        index * 2 + 1 := ucast (drop_bit 16 (words ! index) AND 0xFFFF)])
       (replicate 8 0) [0..<min (length words) (8 div 2)]"

definition copyHiLoPreview :: "i16 list \<Rightarrow> u16 list" where
  "copyHiLoPreview samples =
     foldl (\<lambda>s index. s[index := samples ! index]) (replicate 8 0) [0..<min 8 (length samples)]"

definition toJsonArray :: "'a::len word list \<Rightarrow> json" where
  "toJsonArray values = JArr (map (\<lambda>v. JInt (uint v)) values)"

definition toSignedJsonArray :: "u16 list \<Rightarrow> json" where
  "toSignedJsonArray values = JArr (map (\<lambda>v. JInt (sint v)) values)"

text \<open>Eight upper-case hexadecimal digits, as \<open>setw(8)\<close> with the fill character \<open>0\<close> prints a word.\<close>

definition hex_digit :: "nat \<Rightarrow> char" where
  "hex_digit d = (if d < 10 then char_of (48 + d) else char_of (55 + d))"

definition hex8 :: "u32 \<Rightarrow> string" where
  "hex8 w = map (\<lambda>k. hex_digit (unat (drop_bit (4 * k) w AND 0xF))) [7, 6, 5, 4, 3, 2, 1, 0]"

definition toHexJsonArray :: "u32 list \<Rightarrow> json" where
  "toHexJsonArray values = JArr (map (\<lambda>v. JStr (''0x'' @ hex8 v)) values)"

fun comma_separated :: "string list \<Rightarrow> string" where
  "comma_separated [] = []"
| "comma_separated [s] = s"
| "comma_separated (s # ss) = s @ '', '' @ comma_separated ss"

definition buildDebugSummary :: "u64 \<Rightarrow> u32 list \<Rightarrow> u16 list \<Rightarrow> u16 list \<Rightarrow> string" where
  "buildDebugSummary sequence rawWords hiLo loHi =
     ''seq='' @ show_nat (unat sequence) @ '' raw=['' @ comma_separated (map (\<lambda>w. ''0x'' @ hex8 w) rawWords) @
     ''] hiLo=['' @ comma_separated (map (\<lambda>v. show_nat (unat v)) hiLo) @
     ''] loHi=['' @ comma_separated (map (\<lambda>v. show_nat (unat v)) loHi) @ '']''"

section \<open>The history\<close>

record history =
  h_timelineUs :: "int list"
  h_series :: "i16 list list"

definition appendHistoryLocked :: "i16 list \<Rightarrow> int \<Rightarrow> history \<Rightarrow> history" where
  "appendHistoryLocked samples capturedAtUs h =
     \<lparr>h_timelineUs = pop_front_while kHistoryLimit (h_timelineUs h @ [capturedAtUs]),
      h_series = foldl (\<lambda>hs index. hs[index := pop_front_while kHistoryLimit (hs ! index @ [samples ! index])])
                   (h_series h) [0..<length samples]\<rparr>"

definition emptyHistory :: history where
  "emptyHistory = \<lparr>h_timelineUs = [], h_series = replicate kFrameColumns []\<rparr>"

section \<open>Bounded windows\<close>

text \<open>
  A container that keeps the newest \<open>limit\<close> elements: what a push must do, and what then holds of a
  run of pushes.
\<close>

locale bounded_window =
  fixes push :: "'a \<Rightarrow> 'w \<Rightarrow> 'w" and contents :: "'w \<Rightarrow> 'b list" and item :: "'a \<Rightarrow> 'b" and limit :: nat
    and ok :: "'a \<Rightarrow> bool" and wf :: "'w \<Rightarrow> bool"
  assumes push_contents: "ok x \<Longrightarrow> wf w \<Longrightarrow> contents (push x w) = pop_front_while limit (contents w @ [item x])"
    and push_wf: "ok x \<Longrightarrow> wf w \<Longrightarrow> wf (push x w)"
begin

lemma run_wf: "\<forall>x \<in> set xs. ok x \<Longrightarrow> wf w \<Longrightarrow> wf (fold push xs w)"
  by (induction xs arbitrary: w) (simp_all add: push_wf)

lemma bounded: "ok x \<Longrightarrow> wf w \<Longrightarrow> length (contents (push x w)) \<le> limit"
  by (simp add: push_contents length_pop_front_while)

text \<open>A run leaves the newest elements, in the order they came.\<close>

lemma run_contents:
  assumes "\<forall>x \<in> set xs. ok x" and "wf w" and "length (contents w) \<le> limit"
  shows "contents (fold push xs w) =
    drop (length (contents w) + length xs - limit) (contents w @ map item xs)"
  using assms
proof (induction xs arbitrary: w)
  case Nil
  then show ?case by simp
next
  case (Cons x xs)
  then have x: "ok x" "wf w" by simp_all
  let ?c = "contents w @ [item x]"
  have c: "contents (push x w) = drop (length (contents w) + 1 - limit) ?c"
    by (simp add: push_contents [OF x] pop_front_while_drop)
  have "contents (fold push xs (push x w)) =
      drop (length (contents (push x w)) + length xs - limit) (contents (push x w) @ map item xs)"
    using Cons.prems x by (intro Cons.IH) (simp_all add: push_wf bounded)
  also have "contents (push x w) @ map item xs = drop (length (contents w) + 1 - limit) (?c @ map item xs)"
    using Cons.prems(3) by (cases limit) (simp_all add: c)
  also have "drop (length (contents (push x w)) + length xs - limit) \<dots> =
      drop (length (contents (push x w)) + length xs - limit + (length (contents w) + 1 - limit)) (?c @ map item xs)"
    by (rule drop_drop)
  also have "length (contents (push x w)) + length xs - limit + (length (contents w) + 1 - limit) =
      length (contents w) + Suc (length xs) - limit"
    using Cons.prems(3) by (simp add: c)
  finally show ?case by simp
qed

end

text \<open>The timeline and every channel's series are such windows, of the same pushes.\<close>

definition wf_history :: "history \<Rightarrow> bool" where
  "wf_history h \<longleftrightarrow> length (h_series h) = kFrameColumns"

definition push_history :: "i16 list \<times> int \<Rightarrow> history \<Rightarrow> history" where
  "push_history e h = appendHistoryLocked (fst e) (snd e) h"

lemma append_series:
  assumes "length samples = kFrameColumns" and "wf_history h" and "k < kFrameColumns"
  shows "h_series (appendHistoryLocked samples t h) ! k = pop_front_while kHistoryLimit (h_series h ! k @ [samples ! k])"
  using assms nth_update_loop [of k "h_series h" "\<lambda>i c. pop_front_while kHistoryLimit (c @ [samples ! i])" kFrameColumns]
  by (simp add: appendHistoryLocked_def wf_history_def)

lemma wf_append_history:
  "wf_history h \<Longrightarrow> wf_history (appendHistoryLocked samples t h)"
  using length_update_loop [of "\<lambda>i c. pop_front_while kHistoryLimit (c @ [samples ! i])" "h_series h" "[0..<length samples]"]
  by (simp add: appendHistoryLocked_def wf_history_def)

lemma append_timeline:
  "h_timelineUs (appendHistoryLocked samples t h) = pop_front_while kHistoryLimit (h_timelineUs h @ [t])"
  by (simp add: appendHistoryLocked_def)

interpretation timeline: bounded_window push_history h_timelineUs snd kHistoryLimit "\<lambda>e. length (fst e) = kFrameColumns" wf_history
  by unfold_locales (simp_all add: push_history_def append_timeline wf_append_history)

definition channel_ok :: "nat \<Rightarrow> i16 list \<times> int \<Rightarrow> bool" where
  "channel_ok k e \<longleftrightarrow> length (fst e) = kFrameColumns \<and> k < kFrameColumns"

interpretation channel: bounded_window push_history "\<lambda>h. h_series h ! k" "\<lambda>e. fst e ! k" kHistoryLimit "channel_ok k" wf_history
  for k
  by unfold_locales (simp_all add: push_history_def append_series wf_append_history channel_ok_def)

section \<open>Packing\<close>

text \<open>The words an ADC frame is made of, seen from the samples.\<close>

definition pack_frame :: "i16 list \<Rightarrow> u32 list" where
  "pack_frame samples =
     map (\<lambda>i. push_bit 16 (ucast (samples ! (2 * i))) OR ucast (samples ! (2 * i + 1))) [0..<kFrameWords]"

lemma low_half: "ucast (w AND 0xFFFF) = (ucast w :: u16)" for w :: u32
proof -
  have "w AND 0xFFFF = take_bit 16 w" by (simp add: take_bit_eq_mask mask_eq_exp_minus_1)
  then show ?thesis by (simp only:) (rule bit_word_eqI, auto simp: bit_simps)
qed

lemma unpackFrame_nth:
  assumes "k < length samples"
  shows "unpackFrame words samples ! k =
    (if k div 2 < length words
     then if even k then ucast (drop_bit 16 (words ! (k div 2))) else ucast (words ! (k div 2)) else samples ! k)"
  using assms unfolding unpackFrame_def low_half by (rule nth_update_pair_loop)

lemma length_unpackFrame: "length (unpackFrame words samples) = length samples"
  unfolding unpackFrame_def by (rule length_update_pair_loop)

section \<open>Properties\<close>

text \<open>Unpacking the words of a frame yields its 48 samples in channel order, the upper half of a word first;
  every sample of the previous frame is overwritten.\<close>

theorem unpack_is_inverse_of_pack:
  assumes "length samples = kFrameColumns" and "length previous = kFrameColumns"
  shows "unpackFrame (pack_frame samples) previous = samples"
proof (rule nth_equalityI)
  show "length (unpackFrame (pack_frame samples) previous) = length samples"
    using assms by (simp add: length_unpackFrame)
  fix k assume "k < length (unpackFrame (pack_frame samples) previous)"
  then have k: "k < 48" using assms by (simp add: length_unpackFrame kFrameColumns_48)
  then have half: "k div 2 < 24" by auto
  define hi lo where "hi = samples ! (2 * (k div 2))" and "lo = samples ! (2 * (k div 2) + 1)"
  have word: "pack_frame samples ! (k div 2) = push_bit 16 (ucast hi) OR ucast lo"
    using half by (simp add: pack_frame_def kFrameWords_def hi_def lo_def)
  have "ucast (drop_bit 16 (push_bit 16 (ucast hi) OR ucast lo :: u32)) = hi"
    by (rule bit_word_eqI) (auto simp: bit_simps dest: bit_imp_le_length)
  moreover have "ucast (push_bit 16 (ucast hi) OR ucast lo :: u32) = lo"
    by (rule bit_word_eqI) (auto simp: bit_simps)
  moreover have "2 * (k div 2) = (if even k then k else k - 1)" by presburger
  ultimately show "unpackFrame (pack_frame samples) previous ! k = samples ! k"
    using k assms word by (auto simp: unpackFrame_nth kFrameColumns_48 pack_frame_def kFrameWords_def hi_def lo_def)
qed

lemma unpack_is_inverse_of_pack_witness:
  "unpackFrame (pack_frame (replicate 48 (- 1))) (replicate 48 0) = replicate 48 (- 1)"
  using unpack_is_inverse_of_pack [of "replicate 48 (- 1)" "replicate 48 0"] by (simp add: kFrameColumns_48)

text \<open>After any number of samples since the history was cleared, the timeline holds the capture times of the
  last 960 of them and every channel the values it had in those, so the series of all channels and the
  timeline have the same length and belong together element by element.\<close>

theorem history_is_last_samples:
  assumes "\<forall>e \<in> set es. length (fst e) = kFrameColumns" and "k < kFrameColumns"
    and "h = fold push_history es emptyHistory"
  shows "h_timelineUs h = drop (length es - kHistoryLimit) (map snd es) \<and>
    h_series h ! k = drop (length es - kHistoryLimit) (map (\<lambda>e. fst e ! k) es)"
proof
  have wf: "wf_history emptyHistory" by (simp add: wf_history_def emptyHistory_def)
  show "h_timelineUs h = drop (length es - kHistoryLimit) (map snd es)"
    using timeline.run_contents [OF assms(1) wf] assms(3) by (simp add: emptyHistory_def)
  have "\<forall>e \<in> set es. channel_ok k e" using assms(1,2) by (simp add: channel_ok_def)
  from channel.run_contents [OF this wf]
  show "h_series h ! k = drop (length es - kHistoryLimit) (map (\<lambda>e. fst e ! k) es)"
    using assms(2,3) by (simp add: emptyHistory_def)
qed

lemma history_is_last_samples_witness:
  "h_timelineUs (fold push_history (map (\<lambda>i. (replicate 48 (of_nat i), int i)) [0..<1000]) emptyHistory) = map int [40..<1000]"
proof -
  let ?es = "map (\<lambda>i. (replicate 48 (of_nat i :: i16), int i)) [0..<1000]"
  have "h_timelineUs (fold push_history ?es emptyHistory) = drop (length ?es - kHistoryLimit) (map snd ?es)"
    using history_is_last_samples [of ?es 0] by (simp add: kFrameColumns_48)
  also have "\<dots> = map int (drop 40 [0..<1000])"
    by (simp add: kHistoryLimit_def comp_def drop_map)
  finally show ?thesis by (simp only: drop_upt add_0)
qed

end
