(* ===== verification/Fifo.thy ===== *)
theory Fifo
  imports Frames
begin

text \<open>
  The memory-mapped receive FIFO and the GPIO lines as \<open>AcquisitionRuntime.cpp\<close> drives them. The
  registers belong to the device: reading one may change it, so a read yields a value and a new
  device state. What the driver needs of the device to come to an end is \<open>fifo_device\<close>.
\<close>

section \<open>The registers\<close>

text \<open>The control window is addressed by word, as the code divides its byte offsets by four.\<close>

record 'h mmio =
  mm_readCtrl :: "nat \<Rightarrow> 'h \<Rightarrow> u32 \<times> 'h"
  mm_writeCtrl :: "nat \<Rightarrow> u32 \<Rightarrow> 'h \<Rightarrow> 'h"
  mm_readData :: "'h \<Rightarrow> u32 \<times> 'h"

definition kFrameBytes :: u32 where
  "kFrameBytes = of_nat (kFrameWords * 4)"

text \<open>The loop that copies a frame: one data read per element.\<close>

fun read_words :: "'h mmio \<Rightarrow> nat \<Rightarrow> 'h \<Rightarrow> u32 list \<times> 'h" where
  "read_words M 0 h = ([], h)"
| "read_words M (Suc n) h =
     (let (w, h1) = mm_readData M h; (ws, h2) = read_words M n h1 in (w # ws, h2))"

text \<open>The result is the return code; the frame is \<open>None\<close> when the argument was not written.\<close>

definition readOneFramePacket :: "'h mmio \<Rightarrow> 'h \<Rightarrow> (int \<times> u32 list option) \<times> 'h" where
  "readOneFramePacket M h =
     (let (isr, h1) = mm_readCtrl M (kIsr div 4) h in
      if isr AND (kIsrRpue OR kIsrRpore OR kIsrRpure) \<noteq> 0 then ((- 2, None), h1)
      else let (occupancy, h2) = mm_readCtrl M (kRdfo div 4) h1 in
      if occupancy < of_nat kFrameWords then ((0, None), h2)
      else let (rlr, h3) = mm_readCtrl M (kRlr div 4) h2 in
      if rlr AND 0x80000000 \<noteq> 0 then ((0, None), h3)
      else let bytes = rlr AND 0x007FFFFF in
      if bytes < kFrameBytes then ((0, None), h3)
      else if bytes mod 4 \<noteq> 0 then ((- 3, None), h3)
      else if bytes mod kFrameBytes \<noteq> 0 then ((- 3, None), h3)
      else let (frame, h4) = read_words M kFrameWords h3 in ((1, Some frame), h4))"

text \<open>
  \<open>while (fifoCtrl[kRdfo / 4] > 0) (void) fifoData[0]\<close>: a loop whose end is the device's decision, so
  the result is \<open>None\<close> when it never ends.
\<close>

partial_function (option) drainFifo :: "'h mmio \<Rightarrow> 'h \<Rightarrow> 'h option" where
  "drainFifo M h =
     (let (occupancy, h1) = mm_readCtrl M (kRdfo div 4) h
      in if occupancy > 0 then drainFifo M (snd (mm_readData M h1)) else Some h1)"

definition resetFifoLocked :: "'h mmio \<Rightarrow> 'h \<Rightarrow> 'h option" where
  "resetFifoLocked M h =
     (let h1 = mm_writeCtrl M (kIsr div 4) 0xFFFFFFFF h;
          h2 = mm_writeCtrl M (kRdfr div 4) 0xA5 h1
      in case drainFifo M h2 of
           None \<Rightarrow> None
         | Some h3 \<Rightarrow> Some (mm_writeCtrl M (kIsr div 4) 0xFFFFFFFF h3))"

definition recoverRxFifo :: "'h mmio \<Rightarrow> bool \<Rightarrow> 'h \<Rightarrow> 'h option" where
  "recoverRxFifo M mapped h =
     (if \<not> mapped then Some h
      else
        let h1 = mm_writeCtrl M (kIsr div 4) 0xFFFFFFFF h;
            h2 = mm_writeCtrl M (kRdfr div 4) 0xA5 h1
        in case drainFifo M h2 of
             None \<Rightarrow> None
           | Some h3 \<Rightarrow>
               Some (mm_writeCtrl M (kIsr div 4) 0xFFFFFFFF (mm_writeCtrl M (kSrr div 4) 0xA5 h3)))"

section \<open>GPIO sequences\<close>

text \<open>The six mask lines in a loop, as \<open>initializeGpioLocked\<close>, \<open>stopAdcLocked\<close> and \<open>startAdcLocked\<close> run it.\<close>

definition each_chip :: "(int \<Rightarrow> sysfs \<Rightarrow> sysfs) \<Rightarrow> sysfs \<Rightarrow> sysfs" where
  "each_chip f fs = fold (\<lambda>chip. f (kGpioMaskStart + int chip)) [0..<kAd7606Count] fs"

definition initializeGpio :: "(string \<Rightarrow> bool) \<Rightarrow> sysfs \<Rightarrow> sysfs" where
  "initializeGpio opens fs =
     (let fs1 = each_chip (exportGpio opens) (exportGpio opens kGpioReset fs)
      in each_chip (\<lambda>gpio. setGpioDirection opens gpio ''out'') (setGpioDirection opens kGpioReset ''out'' fs1))"

definition stopAdcLocked :: "(string \<Rightarrow> bool) \<Rightarrow> sysfs \<Rightarrow> sysfs" where
  "stopAdcLocked opens fs =
     each_chip (\<lambda>gpio. setGpioValue opens gpio (activeMaskValue False)) (setGpioValue opens kGpioReset True fs)"

definition startAdcLocked :: "(string \<Rightarrow> bool) \<Rightarrow> sysfs \<Rightarrow> sysfs" where
  "startAdcLocked opens fs =
     setGpioValue opens kGpioReset False
       (each_chip (\<lambda>gpio. setGpioValue opens gpio (activeMaskValue True)) (setGpioValue opens kGpioReset True fs))"

section \<open>A device\<close>

text \<open>
  What the driver relies on: the occupancy register tells how many words are waiting, reading a
  control register changes none of them, writing one adds none, and a data read takes the first.
\<close>

definition fifo_device :: "'h mmio \<Rightarrow> ('h \<Rightarrow> u32 list) \<Rightarrow> bool" where
  "fifo_device M words \<longleftrightarrow>
     (\<forall>h. fst (mm_readCtrl M (kRdfo div 4) h) = of_nat (length (words h)) \<and> length (words h) < 2 ^ 32) \<and>
     (\<forall>h r. words (snd (mm_readCtrl M r h)) = words h) \<and>
     (\<forall>h r v. length (words (mm_writeCtrl M r v h)) \<le> length (words h)) \<and>
     (\<forall>h. words h \<noteq> [] \<longrightarrow> fst (mm_readData M h) = hd (words h) \<and> words (snd (mm_readData M h)) = tl (words h))"

lemma occupancy_zero: "fifo_device M words \<Longrightarrow> fst (mm_readCtrl M (kRdfo div 4) h) = 0 \<longleftrightarrow> words h = []"
proof -
  assume M: "fifo_device M words"
  then have "unat (fst (mm_readCtrl M (kRdfo div 4) h)) = length (words h)"
    by (simp add: fifo_device_def unat_of_nat)
  then show ?thesis by (metis length_0_conv unat_0 unat_eq_zero)
qed

lemma drain_ends:
  assumes "fifo_device M words"
  shows "\<exists>h'. drainFifo M h = Some h' \<and> words h' = []"
proof (induction "length (words h)" arbitrary: h)
  case 0
  then have "fst (mm_readCtrl M (kRdfo div 4) h) = 0" and "words (snd (mm_readCtrl M (kRdfo div 4) h)) = []"
    using assms occupancy_zero [OF assms] by (simp_all add: fifo_device_def)
  then show ?case by (simp add: drainFifo.simps case_prod_beta)
next
  case (Suc n)
  let ?h1 = "snd (mm_readCtrl M (kRdfo div 4) h)"
  have w: "words ?h1 = words h" using assms by (simp add: fifo_device_def)
  moreover have "words h \<noteq> []" using Suc.hyps(2) by auto
  ultimately have "words (snd (mm_readData M ?h1)) = tl (words h)"
    using assms by (simp add: fifo_device_def)
  then have "\<exists>h'. drainFifo M (snd (mm_readData M ?h1)) = Some h' \<and> words h' = []"
    using Suc.hyps(2) by (intro Suc.hyps(1)) simp
  moreover have "fst (mm_readCtrl M (kRdfo div 4) h) > 0"
    using occupancy_zero [OF assms, of h] \<open>words h \<noteq> []\<close> by (simp add: word_gt_0)
  ultimately show ?case by (simp add: drainFifo.simps [of M h] case_prod_beta)
qed

lemma read_words_device:
  assumes "fifo_device M words" and "n \<le> length (words h)"
  shows "\<exists>h'. read_words M n h = (take n (words h), h') \<and> words h' = drop n (words h)"
  using assms(2)
proof (induction n arbitrary: h)
  case 0
  then show ?case by simp
next
  case (Suc n)
  obtain w h1 where r: "mm_readData M h = (w, h1)" by fastforce
  have "words h \<noteq> []" using Suc.prems by auto
  then have "w = hd (words h)" "words h1 = tl (words h)"
    using assms(1) r by (metis fifo_device_def fst_conv, metis fifo_device_def snd_conv)
  moreover obtain h' where "read_words M n h1 = (take n (words h1), h')" "words h' = drop n (words h1)"
    using Suc.IH [of h1] Suc.prems \<open>words h1 = tl (words h)\<close> by fastforce
  ultimately show ?case
    using r \<open>words h \<noteq> []\<close> by (intro exI [of _ h']) (simp add: take_Suc drop_Suc)
qed

lemma write_adds_none: "fifo_device M words \<Longrightarrow> words h = [] \<Longrightarrow> words (mm_writeCtrl M r v h) = []"
  by (metis fifo_device_def le_zero_eq length_0_conv)

lemma reset_ends:
  assumes "fifo_device M words"
  shows "\<exists>h'. resetFifoLocked M h = Some h' \<and> words h' = []"
  using drain_ends [OF assms] write_adds_none [OF assms] by (fastforce simp: resetFifoLocked_def Let_def split: option.split)

lemma recover_ends:
  assumes "fifo_device M words"
  shows "\<exists>h'. recoverRxFifo M mapped h = Some h' \<and> (mapped \<longrightarrow> words h' = [])"
proof -
  let ?h2 = "mm_writeCtrl M (kRdfr div 4) 0xA5 (mm_writeCtrl M (kIsr div 4) 0xFFFFFFFF h)"
  obtain h3 where "drainFifo M ?h2 = Some h3" "words h3 = []"
    using drain_ends [OF assms, of ?h2] by blast
  then show ?thesis
    by (cases mapped) (simp_all add: recoverRxFifo_def Let_def write_adds_none [OF assms])
qed

section \<open>The lines\<close>

lemma gpioPath_inj: "0 \<le> i \<Longrightarrow> 0 \<le> j \<Longrightarrow> gpioPath i leaf = gpioPath j leaf \<longleftrightarrow> i = j"
proof -
  have "i = j" if "0 \<le> i" "0 \<le> j" "show_int i = show_int j"
  proof -
    have "show_nat (nat i) = show_nat (nat j)" using that by (simp add: show_int_def)
    then have "nat i = nat j" by (metis read_show_nat)
    then show ?thesis using that by simp
  qed
  then show "0 \<le> i \<Longrightarrow> 0 \<le> j \<Longrightarrow> gpioPath i leaf = gpioPath j leaf \<longleftrightarrow> i = j"
    by (auto simp: gpioPath_def)
qed

text \<open>The value of a GPIO line is what was last written to it.\<close>

definition line :: "int \<Rightarrow> sysfs \<Rightarrow> string option" where
  "line gpio fs = fs (gpioPath gpio ''/value'')"

lemma line_write:
  assumes "opens (gpioPath gpio ''/value'')" and "0 \<le> gpio" "0 \<le> gpio'"
  shows "line gpio' (setGpioValue opens gpio v fs) =
    (if gpio' = gpio then Some (if v then ''1'' else ''0'') else line gpio' fs)"
  using assms by (auto simp: line_def setGpioValue_def writeSysfsValue_def gpioPath_inj)

section \<open>Properties\<close>

text \<open>\<open>readOneFramePacket\<close> returns 1 exactly when it has taken a whole frame, namely the first 24 words
  waiting in the FIFO; with every other code (-2 exactly for an error flag, -3 for a length that is no
  whole number of frames, 0 for too little data) it has taken no word and left the caller's frame alone.\<close>

theorem frame_packet_codes:
  assumes "fifo_device M words" and "((code, frame), h') = readOneFramePacket M h"
  shows "code \<in> {1, 0, - 2, - 3} \<and>
    (code = - 2 \<longleftrightarrow> fst (mm_readCtrl M (kIsr div 4) h) AND (kIsrRpue OR kIsrRpore OR kIsrRpure) \<noteq> 0) \<and>
    (code = 1 \<longrightarrow> kFrameWords \<le> length (words h) \<and> frame = Some (take kFrameWords (words h)) \<and> words h' = drop kFrameWords (words h)) \<and>
    (code \<noteq> 1 \<longrightarrow> frame = None \<and> words h' = words h)"
proof -
  let ?h1 = "snd (mm_readCtrl M (kIsr div 4) h)"
  let ?h2 = "snd (mm_readCtrl M (kRdfo div 4) ?h1)"
  let ?h3 = "snd (mm_readCtrl M (kRlr div 4) ?h2)"
  have w: "words ?h1 = words h" "words ?h2 = words h" "words ?h3 = words h"
    using assms(1) by (simp_all add: fifo_device_def)
  have "unat (fst (mm_readCtrl M (kRdfo div 4) ?h1)) = length (words h)"
    using assms(1) w by (simp add: fifo_device_def unat_of_nat)
  then have occ: "fst (mm_readCtrl M (kRdfo div 4) ?h1) < of_nat kFrameWords \<longleftrightarrow> length (words h) < kFrameWords"
    by (simp add: word_less_nat_alt kFrameWords_def)
  obtain h4 where r: "kFrameWords \<le> length (words h) \<Longrightarrow>
      read_words M kFrameWords ?h3 = (take kFrameWords (words h), h4) \<and> words h4 = drop kFrameWords (words h)"
    using read_words_device [OF assms(1), of kFrameWords ?h3] w by auto
  show ?thesis
    using assms(2) w occ r
    by (simp add: readOneFramePacket_def case_prod_beta Let_def split: if_splits)
qed

text \<open>A device for the witnesses: up to 255 equal words, and a length register that announces one frame.\<close>

definition sample_mmio :: "u8 mmio" where
  "sample_mmio =
     \<lparr>mm_readCtrl = (\<lambda>r k. (if r = kRdfo div 4 then of_nat (unat k) else if r = kRlr div 4 then 96 else 0, k)),
      mm_writeCtrl = (\<lambda>r v k. k),
      mm_readData = (\<lambda>k. (7, k - 1))\<rparr>"

definition sample_words :: "u8 \<Rightarrow> u32 list" where
  "sample_words k = replicate (unat k) 7"

lemma sample_fifo: "fifo_device sample_mmio sample_words"
proof -
  have "unat k < 2 ^ LENGTH(8)" for k :: u8 by (rule unsigned_less)
  then have "unat k < 4294967296" for k :: u8 by (rule order_less_trans) simp
  moreover have "unat (k - 1) = unat k - Suc 0" if "0 < unat k" for k :: u8
    using that by (simp add: unat_minus_one unat_gt_0)
  ultimately show ?thesis
    by (auto simp: fifo_device_def sample_mmio_def sample_words_def)
qed

lemma frame_packet_codes_witness:
  "fst (readOneFramePacket sample_mmio 30) = (1, Some (take 24 (sample_words 30)))"
proof -
  obtain code frame h' where r: "((code, frame), h') = readOneFramePacket sample_mmio 30" by (metis prod.collapse)
  moreover have "code = 1"
  proof -
    have "fst (fst (readOneFramePacket sample_mmio 30)) = 1" by code_simp
    then show ?thesis by (simp flip: r)
  qed
  ultimately show ?thesis
    using frame_packet_codes [OF sample_fifo r] by (simp add: kFrameWords_def flip: r)
qed

text \<open>Resetting and recovering the FIFO come to an end on every such device, whatever it holds, and leave it
  empty; \<open>recoverRxFifo\<close> does nothing while the registers are not mapped.\<close>

theorem fifo_loops_end:
  assumes "fifo_device M words"
  shows "(\<exists>h'. resetFifoLocked M h = Some h' \<and> words h' = []) \<and>
    (\<exists>h'. recoverRxFifo M True h = Some h' \<and> words h' = []) \<and> recoverRxFifo M False h = Some h"
  using reset_ends [OF assms] recover_ends [OF assms, of True] by (auto simp: recoverRxFifo_def)

lemma fifo_loops_end_witness:
  "\<exists>h'. resetFifoLocked sample_mmio 200 = Some h' \<and> sample_words h' = []"
  using fifo_loops_end [OF sample_fifo] by blast

lemma each_chip_line:
  assumes "\<forall>p. opens p" and "0 \<le> gpio"
  shows "line gpio (each_chip (\<lambda>g. setGpioValue opens g v) fs) =
    (if 976 \<le> gpio \<and> gpio < 982 then Some (if v then ''1'' else ''0'') else line gpio fs)"
proof -
  have "line gpio (fold (\<lambda>chip. setGpioValue opens (kGpioMaskStart + int chip) v) [0..<n] fs) =
      (if 976 \<le> gpio \<and> gpio < 976 + int n then Some (if v then ''1'' else ''0'') else line gpio fs)" for n
    using assms by (induction n) (auto simp: line_write kGpioMaskStart_def)
  from this [of 6] show ?thesis by (simp add: each_chip_def kAd7606Count_def)
qed

text \<open>Starting the converters leaves the reset line low and the start lines of all six chips high, stopping them
  leaves the reset line high and the start lines low; neither touches any other line.\<close>

theorem adc_lines:
  assumes "\<forall>p. opens p" and "0 \<le> gpio"
  shows "line gpio (startAdcLocked opens fs) =
      (if gpio = 968 then Some ''0'' else if 976 \<le> gpio \<and> gpio < 982 then Some ''1'' else line gpio fs) \<and>
    line gpio (stopAdcLocked opens fs) =
      (if gpio = 968 then Some ''1'' else if 976 \<le> gpio \<and> gpio < 982 then Some ''0'' else line gpio fs)"
  using assms
  by (simp add: startAdcLocked_def stopAdcLocked_def line_write each_chip_line kGpioReset_def activeMaskValue_def
      kMaskStartActiveLow_def)

lemma adc_lines_witness:
  "line 979 (startAdcLocked (\<lambda>_. True) Map.empty) = Some ''1'' \<and> line 968 (stopAdcLocked (\<lambda>_. True) Map.empty) = Some ''1''"
  using adc_lines [of "\<lambda>_. True" 979 Map.empty] adc_lines [of "\<lambda>_. True" 968 Map.empty] by simp

end
