(* ===== verification/DdsMessage.thy ===== *)
theory DdsMessage
  imports PocoApi
begin

text \<open>
  \<open>AcquisitionDdsJsonMessage.h\<close> and \<open>AcquisitionDdsJsonMessage.cpp\<close>: the message that crosses
  the DDS domain and the life cycle of the publisher and the subscriber. Fast-DDS is a parameter: its
  factory functions create and delete entities and may refuse. What both endpoints promise is the
  locale \<open>dds_endpoint\<close>, interpreted on each of them.
\<close>

section \<open>Messages and names\<close>

record dds_message =
  dm_sequence :: u64
  dm_updatedAt :: string
  dm_payload :: string

definition kAcquisitionSnapshotTopicName :: string where
  "kAcquisitionSnapshotTopicName = ''MyIoT.JNDM123.AcquisitionSnapshot''"

definition kAcquisitionControlTopicName :: string where
  "kAcquisitionControlTopicName = ''MyIoT.JNDM123.AcquisitionControl''"

definition kAcquisitionSnapshotTypeName :: string where
  "kAcquisitionSnapshotTypeName = ''MyIoT.JNDM123.AcquisitionSnapshot.Json''"

definition calculate_serialized_size :: "dds_message \<Rightarrow> u32" where
  "calculate_serialized_size m = of_nat (64 + length (dm_updatedAt m) + length (dm_payload m))"

section \<open>The middleware\<close>

text \<open>
  Entities are numbered; a creation that yields \<open>None\<close> returned a null pointer. A group is a
  publisher or a subscriber, an end is a data writer or a data reader.
\<close>

record 'd dds =
  dd_create_participant :: "int \<Rightarrow> 'd \<Rightarrow> nat option \<times> 'd"
  dd_create_topic :: "nat \<Rightarrow> string \<Rightarrow> string \<Rightarrow> 'd \<Rightarrow> nat option \<times> 'd"
  dd_create_group :: "nat \<Rightarrow> 'd \<Rightarrow> nat option \<times> 'd"
  dd_create_end :: "nat \<Rightarrow> nat \<Rightarrow> 'd \<Rightarrow> nat option \<times> 'd"
  dd_delete_end :: "nat \<Rightarrow> nat \<Rightarrow> 'd \<Rightarrow> 'd"
  dd_delete_group :: "nat \<Rightarrow> nat \<Rightarrow> 'd \<Rightarrow> 'd"
  dd_delete_topic :: "nat \<Rightarrow> nat \<Rightarrow> 'd \<Rightarrow> 'd"
  dd_delete_participant :: "nat \<Rightarrow> 'd \<Rightarrow> 'd"
  dd_write :: "nat \<Rightarrow> dds_message \<Rightarrow> 'd \<Rightarrow> bool \<times> 'd"

section \<open>The publisher\<close>

record dds_publisher =
  dp_participant :: "nat option"
  dp_publisher :: "nat option"
  dp_topic :: "nat option"
  dp_writer :: "nat option"
  dp_topicName :: string

definition newDdsPublisher :: dds_publisher where
  "newDdsPublisher = \<lparr>dp_participant = None, dp_publisher = None, dp_topic = None, dp_writer = None, dp_topicName = []\<rparr>"

definition stopPublisher :: "'d dds \<Rightarrow> dds_publisher \<times> 'd \<Rightarrow> dds_publisher \<times> 'd" where
  "stopPublisher D w0 =
     (let w1 = (case w0 of (e, d) \<Rightarrow>
            (case (dp_publisher e, dp_writer e) of
               (Some p, Some wr) \<Rightarrow> (e\<lparr>dp_writer := None\<rparr>, dd_delete_end D p wr d) | _ \<Rightarrow> (e, d)));
          w2 = (case w1 of (e, d) \<Rightarrow>
            (case (dp_participant e, dp_publisher e) of
               (Some pa, Some p) \<Rightarrow> (e\<lparr>dp_publisher := None\<rparr>, dd_delete_group D pa p d) | _ \<Rightarrow> (e, d)));
          w3 = (case w2 of (e, d) \<Rightarrow>
            (case (dp_participant e, dp_topic e) of
               (Some pa, Some t) \<Rightarrow> (e\<lparr>dp_topic := None\<rparr>, dd_delete_topic D pa t d) | _ \<Rightarrow> (e, d)));
          w4 = (case w3 of (e, d) \<Rightarrow>
            (case dp_participant e of
               Some pa \<Rightarrow> (e\<lparr>dp_participant := None\<rparr>, dd_delete_participant D pa d) | None \<Rightarrow> (e, d)))
      in ((fst w4)\<lparr>dp_topicName := []\<rparr>, snd w4))"

definition startPublisher :: "'d dds \<Rightarrow> int \<Rightarrow> string \<Rightarrow> (dds_publisher \<times> 'd, unit) io" where
  "startPublisher D domainId topicName w =
     (case w of (e, d) \<Rightarrow>
      (case dp_participant e of
         Some _ \<Rightarrow> (Inr (), (e, d))
       | None \<Rightarrow>
         (let e0 = e\<lparr>dp_topicName := (if topicName = [] then kAcquisitionSnapshotTopicName else topicName)\<rparr>;
              (pa, d1) = dd_create_participant D domainId d; e1 = e0\<lparr>dp_participant := pa\<rparr>
          in case pa of
               None \<Rightarrow> (Inl (StdException ''Unable to create Fast-DDS participant for acquisition publisher.''), (e1, d1))
             | Some p \<Rightarrow>
               (let (t, d2) = dd_create_topic D p (dp_topicName e0) kAcquisitionSnapshotTypeName d1; e2 = e1\<lparr>dp_topic := t\<rparr>
                in case t of
                     None \<Rightarrow> (Inl (StdException ''Unable to create Fast-DDS topic for acquisition publisher.''), stopPublisher D (e2, d2))
                   | Some t' \<Rightarrow>
                     (let (g, d3) = dd_create_group D p d2; e3 = e2\<lparr>dp_publisher := g\<rparr>
                      in case g of
                           None \<Rightarrow> (Inl (StdException ''Unable to create Fast-DDS publisher.''), stopPublisher D (e3, d3))
                         | Some g' \<Rightarrow>
                           (let (wr, d4) = dd_create_end D g' t' d3; e4 = e3\<lparr>dp_writer := wr\<rparr>
                            in case wr of
                                 None \<Rightarrow> (Inl (StdException ''Unable to create Fast-DDS writer.''), stopPublisher D (e4, d4))
                               | Some _ \<Rightarrow> (Inr (), (e4, d4))))))))"

definition publishMessage :: "'d dds \<Rightarrow> dds_message \<Rightarrow> dds_publisher \<times> 'd \<Rightarrow> bool \<times> dds_publisher \<times> 'd" where
  "publishMessage D m w =
     (case dp_writer (fst w) of
        None \<Rightarrow> (False, w)
      | Some wr \<Rightarrow> (let (ok, d) = dd_write D wr m (snd w) in (ok, (fst w, d))))"

section \<open>The subscriber\<close>

text \<open>\<open>ds_listener\<close> tells whether the reader listener exists.\<close>

record dds_subscriber =
  dsu_participant :: "nat option"
  dsu_subscriber :: "nat option"
  dsu_topic :: "nat option"
  dsu_reader :: "nat option"
  dsu_listener :: bool
  dsu_topicName :: string

definition newDdsSubscriber :: dds_subscriber where
  "newDdsSubscriber = \<lparr>dsu_participant = None, dsu_subscriber = None, dsu_topic = None, dsu_reader = None,
     dsu_listener = False, dsu_topicName = []\<rparr>"

definition stopSubscriber :: "'d dds \<Rightarrow> dds_subscriber \<times> 'd \<Rightarrow> dds_subscriber \<times> 'd" where
  "stopSubscriber D w0 =
     (let w1 = (case w0 of (e, d) \<Rightarrow>
            (case (dsu_subscriber e, dsu_reader e) of
               (Some p, Some r) \<Rightarrow> (e\<lparr>dsu_reader := None\<rparr>, dd_delete_end D p r d) | _ \<Rightarrow> (e, d)));
          w2 = (case w1 of (e, d) \<Rightarrow>
            (case (dsu_participant e, dsu_subscriber e) of
               (Some pa, Some p) \<Rightarrow> (e\<lparr>dsu_subscriber := None\<rparr>, dd_delete_group D pa p d) | _ \<Rightarrow> (e, d)));
          w3 = (case w2 of (e, d) \<Rightarrow>
            (case (dsu_participant e, dsu_topic e) of
               (Some pa, Some t) \<Rightarrow> (e\<lparr>dsu_topic := None\<rparr>, dd_delete_topic D pa t d) | _ \<Rightarrow> (e, d)));
          w4 = (case w3 of (e, d) \<Rightarrow>
            (case dsu_participant e of
               Some pa \<Rightarrow> (e\<lparr>dsu_participant := None\<rparr>, dd_delete_participant D pa d) | None \<Rightarrow> (e, d)))
      in ((fst w4)\<lparr>dsu_listener := False, dsu_topicName := []\<rparr>, snd w4))"

definition startSubscriber :: "'d dds \<Rightarrow> int \<Rightarrow> string \<Rightarrow> (dds_subscriber \<times> 'd, unit) io" where
  "startSubscriber D domainId topicName w =
     (case w of (e, d) \<Rightarrow>
      (case dsu_participant e of
         Some _ \<Rightarrow> (Inr (), (e, d))
       | None \<Rightarrow>
         (let e0 = e\<lparr>dsu_topicName := (if topicName = [] then kAcquisitionSnapshotTopicName else topicName)\<rparr>;
              (pa, d1) = dd_create_participant D domainId d; e1 = e0\<lparr>dsu_participant := pa\<rparr>
          in case pa of
               None \<Rightarrow> (Inl (StdException ''Unable to create Fast-DDS participant for acquisition subscriber.''), (e1, d1))
             | Some p \<Rightarrow>
               (let (t, d2) = dd_create_topic D p (dsu_topicName e0) kAcquisitionSnapshotTypeName d1; e2 = e1\<lparr>dsu_topic := t\<rparr>
                in case t of
                     None \<Rightarrow> (Inl (StdException ''Unable to create Fast-DDS topic for acquisition subscriber.''), stopSubscriber D (e2, d2))
                   | Some t' \<Rightarrow>
                     (let (g, d3) = dd_create_group D p d2; e3 = e2\<lparr>dsu_subscriber := g\<rparr>
                      in case g of
                           None \<Rightarrow> (Inl (StdException ''Unable to create Fast-DDS subscriber.''), stopSubscriber D (e3, d3))
                         | Some g' \<Rightarrow>
                           (let e4 = e3\<lparr>dsu_listener := True\<rparr>;
                                (r, d4) = dd_create_end D g' t' d3; e5 = e4\<lparr>dsu_reader := r\<rparr>
                            in case r of
                                 None \<Rightarrow> (Inl (StdException ''Unable to create Fast-DDS reader.''), stopSubscriber D (e5, d4))
                               | Some _ \<Rightarrow> (Inr (), (e5, d4))))))))"

text \<open>
  \<open>on_data_available\<close>: take samples until there is none; only those with valid data reach the
  listener. \<open>samples\<close> is what \<open>take_next_sample\<close> yields, in order, with the flag \<open>valid_data\<close>.
\<close>

fun on_data_available :: "(dds_message \<Rightarrow> 's \<Rightarrow> 's) \<Rightarrow> (dds_message \<times> bool) list \<Rightarrow> 's \<Rightarrow> 's" where
  "on_data_available onMessage [] s = s"
| "on_data_available onMessage ((m, valid_data) # samples) s =
     on_data_available onMessage samples (if valid_data then onMessage m s else s)"

section \<open>What the endpoints rely on\<close>

text \<open>
  The entities of one endpoint, counted by kind. An entity that still has children is not deleted,
  as the DDS specification has it: a group with ends, a topic in use, a participant with groups or topics.
\<close>

record entities =
  en_participants :: int
  en_topics :: int
  en_groups :: int
  en_ends :: int

definition dds_counts :: "'d dds \<Rightarrow> ('d \<Rightarrow> entities) \<Rightarrow> bool" where
  "dds_counts D cnt \<longleftrightarrow>
     (\<forall>i d. cnt (snd (dd_create_participant D i d)) =
        (if fst (dd_create_participant D i d) = None then cnt d else (cnt d)\<lparr>en_participants := en_participants (cnt d) + 1\<rparr>)) \<and>
     (\<forall>p n ty d. cnt (snd (dd_create_topic D p n ty d)) =
        (if fst (dd_create_topic D p n ty d) = None then cnt d else (cnt d)\<lparr>en_topics := en_topics (cnt d) + 1\<rparr>)) \<and>
     (\<forall>p d. cnt (snd (dd_create_group D p d)) =
        (if fst (dd_create_group D p d) = None then cnt d else (cnt d)\<lparr>en_groups := en_groups (cnt d) + 1\<rparr>)) \<and>
     (\<forall>p t d. cnt (snd (dd_create_end D p t d)) =
        (if fst (dd_create_end D p t d) = None then cnt d else (cnt d)\<lparr>en_ends := en_ends (cnt d) + 1\<rparr>)) \<and>
     (\<forall>p e d. cnt (dd_delete_end D p e d) = (cnt d)\<lparr>en_ends := en_ends (cnt d) - 1\<rparr>) \<and>
     (\<forall>p g d. cnt (dd_delete_group D p g d) =
        (if en_ends (cnt d) = 0 then (cnt d)\<lparr>en_groups := en_groups (cnt d) - 1\<rparr> else cnt d)) \<and>
     (\<forall>p t d. cnt (dd_delete_topic D p t d) =
        (if en_ends (cnt d) = 0 then (cnt d)\<lparr>en_topics := en_topics (cnt d) - 1\<rparr> else cnt d)) \<and>
     (\<forall>p d. cnt (dd_delete_participant D p d) =
        (if en_groups (cnt d) = 0 \<and> en_topics (cnt d) = 0 then (cnt d)\<lparr>en_participants := en_participants (cnt d) - 1\<rparr> else cnt d))"

definition some1 :: "'a option \<Rightarrow> int" where
  "some1 x = (if x = None then 0 else 1)"

lemma some1_simps [simp]: "some1 None = 0" "some1 (Some x) = 1"
  by (simp_all add: some1_def)

definition no_entities :: entities where
  "no_entities = \<lparr>en_participants = 0, en_topics = 0, en_groups = 0, en_ends = 0\<rparr>"

section \<open>The contract of an endpoint\<close>

datatype 'a life = Start 'a | Stop

text \<open>\<open>trusted\<close> is what the endpoint assumes of the middleware underneath.\<close>

locale dds_endpoint =
  fixes start :: "'a \<Rightarrow> ('e \<times> 'd, unit) io" and stop :: "'e \<times> 'd \<Rightarrow> 'e \<times> 'd"
    and handles :: "'e \<Rightarrow> entities" and cnt :: "'d \<Rightarrow> entities" and wf :: "'e \<Rightarrow> bool" and trusted :: bool
  assumes start_keeps: "trusted \<Longrightarrow> wf e \<Longrightarrow> cnt d = handles e \<Longrightarrow> start a (e, d) = (r, (e', d')) \<Longrightarrow>
      wf e' \<and> cnt d' = handles e'"
    and start_fails: "trusted \<Longrightarrow> wf e \<Longrightarrow> cnt d = handles e \<Longrightarrow> handles e = no_entities \<Longrightarrow>
      start a (e, d) = (Inl x, (e', d')) \<Longrightarrow> handles e' = no_entities"
    and stop_closes: "trusted \<Longrightarrow> wf e \<Longrightarrow> cnt d = handles e \<Longrightarrow> stop (e, d) = (e', d') \<Longrightarrow>
      wf e' \<and> handles e' = no_entities \<and> cnt d' = no_entities"
begin

definition owns :: "'e \<times> 'd \<Rightarrow> bool" where
  "owns w \<longleftrightarrow> wf (fst w) \<and> cnt (snd w) = handles (fst w)"

primrec life_step :: "'a life \<Rightarrow> 'e \<times> 'd \<Rightarrow> 'e \<times> 'd" where
  "life_step (Start a) w = snd (start a w)"
| "life_step Stop w = stop w"

lemma life_step_owns: "trusted \<Longrightarrow> owns w \<Longrightarrow> owns (life_step op w)"
proof -
  assume ok: trusted "owns w"
  obtain e d where w: "w = (e, d)" by fastforce
  then have e: "wf e" "cnt d = handles e" using ok by (simp_all add: owns_def)
  show ?thesis
  proof (cases op)
    case (Start a)
    obtain r e' d' where "start a (e, d) = (r, (e', d'))" by (metis prod.collapse)
    then show ?thesis using Start w start_keeps [OF ok(1) e] by (simp add: owns_def)
  next
    case Stop
    obtain e' d' where "stop (e, d) = (e', d')" by (metis prod.collapse)
    then show ?thesis using Stop w stop_closes [OF ok(1) e] by (simp add: owns_def)
  qed
qed

lemma life_owns: "trusted \<Longrightarrow> owns w \<Longrightarrow> owns (fold life_step ops w)"
  by (induction ops arbitrary: w) (simp_all add: life_step_owns)

lemma stopped_owns_nothing:
  "trusted \<Longrightarrow> owns w \<Longrightarrow> handles (fst (stop w)) = no_entities \<and> cnt (snd (stop w)) = no_entities"
  by (cases w; cases "stop w") (auto simp: owns_def dest: stop_closes)

lemma failed_start_owns_nothing:
  assumes "trusted" and "owns (e, d)" and "handles e = no_entities" and "start a (e, d) = (Inl x, (e', d'))"
  shows "handles e' = no_entities \<and> cnt d' = no_entities"
proof -
  have e: "wf e" "cnt d = handles e" using assms(2) by (simp_all add: owns_def)
  have "handles e' = no_entities" using start_fails [OF assms(1) e assms(3,4)] .
  moreover have "cnt d' = handles e'" using start_keeps [OF assms(1) e assms(4)] by simp
  ultimately show ?thesis by simp
qed

end

definition publisher_handles :: "dds_publisher \<Rightarrow> entities" where
  "publisher_handles e = \<lparr>en_participants = some1 (dp_participant e), en_topics = some1 (dp_topic e),
     en_groups = some1 (dp_publisher e), en_ends = some1 (dp_writer e)\<rparr>"

definition publisher_wf :: "dds_publisher \<Rightarrow> bool" where
  "publisher_wf e \<longleftrightarrow>
     (dp_participant e = None \<longrightarrow> dp_topic e = None \<and> dp_publisher e = None) \<and> (dp_publisher e = None \<longrightarrow> dp_writer e = None)"

lemma stopPublisher_closes:
  assumes D: "dds_counts D cnt" and "publisher_wf e" and "cnt d = publisher_handles e"
  shows "fst (stopPublisher D (e, d)) = newDdsPublisher \<and> cnt (snd (stopPublisher D (e, d))) = no_entities"
proof -
  obtain pa pu t wr n where e: "e = \<lparr>dp_participant = pa, dp_publisher = pu, dp_topic = t, dp_writer = wr, dp_topicName = n\<rparr>"
    by (cases e)
  show ?thesis
    using assms
    by (cases pa; cases pu; cases t; cases wr)
       (simp_all add: e stopPublisher_def publisher_wf_def publisher_handles_def dds_counts_def no_entities_def newDdsPublisher_def)
qed

definition subscriber_handles :: "dds_subscriber \<Rightarrow> entities" where
  "subscriber_handles e = \<lparr>en_participants = some1 (dsu_participant e), en_topics = some1 (dsu_topic e),
     en_groups = some1 (dsu_subscriber e), en_ends = some1 (dsu_reader e)\<rparr>"

definition subscriber_wf :: "dds_subscriber \<Rightarrow> bool" where
  "subscriber_wf e \<longleftrightarrow>
     (dsu_participant e = None \<longrightarrow> dsu_topic e = None \<and> dsu_subscriber e = None) \<and> (dsu_subscriber e = None \<longrightarrow> dsu_reader e = None)"

lemma stopSubscriber_closes:
  assumes D: "dds_counts D cnt" and "subscriber_wf e" and "cnt d = subscriber_handles e"
  shows "fst (stopSubscriber D (e, d)) = newDdsSubscriber \<and> cnt (snd (stopSubscriber D (e, d))) = no_entities"
proof -
  obtain pa su t r l n where e: "e = \<lparr>dsu_participant = pa, dsu_subscriber = su, dsu_topic = t, dsu_reader = r,
      dsu_listener = l, dsu_topicName = n\<rparr>"
    by (cases e)
  show ?thesis
    using assms
    by (cases pa; cases su; cases t; cases r)
       (simp_all add: e stopSubscriber_def subscriber_wf_def subscriber_handles_def dds_counts_def no_entities_def newDdsSubscriber_def)
qed

text \<open>How one creation changes the counts.\<close>

lemma dds_create:
  assumes D: "dds_counts D cnt"
  shows "dd_create_participant D i d = (h, d') \<Longrightarrow> cnt d' = (cnt d)\<lparr>en_participants := en_participants (cnt d) + some1 h\<rparr>"
    and "dd_create_topic D p n ty d = (h, d') \<Longrightarrow> cnt d' = (cnt d)\<lparr>en_topics := en_topics (cnt d) + some1 h\<rparr>"
    and "dd_create_group D p d = (h, d') \<Longrightarrow> cnt d' = (cnt d)\<lparr>en_groups := en_groups (cnt d) + some1 h\<rparr>"
    and "dd_create_end D p t d = (h, d') \<Longrightarrow> cnt d' = (cnt d)\<lparr>en_ends := en_ends (cnt d) + some1 h\<rparr>"
proof -
  show "dd_create_participant D i d = (h, d') \<Longrightarrow> cnt d' = (cnt d)\<lparr>en_participants := en_participants (cnt d) + some1 h\<rparr>"
    using D [unfolded dds_counts_def, THEN conjunct1, rule_format, of i d] by (simp add: some1_def)
  show "dd_create_topic D p n ty d = (h, d') \<Longrightarrow> cnt d' = (cnt d)\<lparr>en_topics := en_topics (cnt d) + some1 h\<rparr>"
    using D [unfolded dds_counts_def, THEN conjunct2, THEN conjunct1, rule_format, of p n ty d] by (simp add: some1_def)
  show "dd_create_group D p d = (h, d') \<Longrightarrow> cnt d' = (cnt d)\<lparr>en_groups := en_groups (cnt d) + some1 h\<rparr>"
    using D [unfolded dds_counts_def, THEN conjunct2, THEN conjunct2, THEN conjunct1, rule_format, of p d] by (simp add: some1_def)
  show "dd_create_end D p t d = (h, d') \<Longrightarrow> cnt d' = (cnt d)\<lparr>en_ends := en_ends (cnt d) + some1 h\<rparr>"
    using D [unfolded dds_counts_def, THEN conjunct2, THEN conjunct2, THEN conjunct2, THEN conjunct1, rule_format, of p t d]
    by (simp add: some1_def)
qed

lemma publisher_start_cases:
  assumes "dds_counts D cnt" and "publisher_wf e" and "cnt d = publisher_handles e"
    and "startPublisher D domain n (e, d) = (r, (e', d'))"
  shows "publisher_wf e' \<and> cnt d' = publisher_handles e' \<and>
    (dp_participant e = None \<and> r \<noteq> Inr () \<longrightarrow> publisher_handles e' = no_entities)"
proof (cases "dp_participant e")
  case (Some p)
  then show ?thesis using assms by (simp add: startPublisher_def)
next
  case None
  then have e: "dp_topic e = None" "dp_publisher e = None" "dp_writer e = None"
    using assms(2) by (simp_all add: publisher_wf_def)
  let ?n = "if n = [] then kAcquisitionSnapshotTopicName else n"
  obtain pa d1 where pa: "dd_create_participant D domain d = (pa, d1)" by fastforce
  obtain t d2 where t: "dd_create_topic D (the pa) ?n kAcquisitionSnapshotTypeName d1 = (t, d2)" by fastforce
  obtain g d3 where g: "dd_create_group D (the pa) d2 = (g, d3)" by fastforce
  obtain wr d4 where wr: "dd_create_end D (the g) (the t) d3 = (wr, d4)" by fastforce
  note counts = dds_create [OF assms(1)]
  have c: "cnt d1 = \<lparr>en_participants = some1 pa, en_topics = 0, en_groups = 0, en_ends = 0\<rparr>"
    "cnt d2 = \<lparr>en_participants = some1 pa, en_topics = some1 t, en_groups = 0, en_ends = 0\<rparr>"
    "cnt d3 = \<lparr>en_participants = some1 pa, en_topics = some1 t, en_groups = some1 g, en_ends = 0\<rparr>"
    "cnt d4 = \<lparr>en_participants = some1 pa, en_topics = some1 t, en_groups = some1 g, en_ends = some1 wr\<rparr>"
    using counts(1) [OF pa] counts(2) [OF t] counts(3) [OF g] counts(4) [OF wr] None e assms(3)
    by (simp_all add: publisher_handles_def)
  have stopped: ?thesis
    if "stopPublisher D (e1, d0) = (e', d')" "publisher_wf e1" "cnt d0 = publisher_handles e1" for e1 d0
    using stopPublisher_closes [OF assms(1) that(2,3)] that(1)
    by (simp add: publisher_wf_def publisher_handles_def newDdsPublisher_def no_entities_def)
  let ?e1 = "e\<lparr>dp_topicName := ?n, dp_participant := pa\<rparr>"
  show ?thesis
  proof (cases pa)
    case pa': None
    then show ?thesis
      using assms(4) pa \<open>dp_participant e = None\<close> e c
      by (auto simp: startPublisher_def Let_def publisher_wf_def publisher_handles_def no_entities_def)
  next
    case pa': (Some p)
    show ?thesis
    proof (cases t)
      case None
      then have "stopPublisher D (?e1\<lparr>dp_topic := t\<rparr>, d2) = (e', d')"
        using assms(4) pa t \<open>dp_participant e = None\<close> pa' by (simp add: startPublisher_def Let_def)
      then show ?thesis
        by (rule stopped) (use None c e pa' in \<open>simp_all add: publisher_wf_def publisher_handles_def\<close>)
    next
      case t': (Some t0)
      show ?thesis
      proof (cases g)
        case None
        then have "stopPublisher D (?e1\<lparr>dp_topic := t, dp_publisher := g\<rparr>, d3) = (e', d')"
          using assms(4) pa t g \<open>dp_participant e = None\<close> pa' t' by (simp add: startPublisher_def Let_def)
        then show ?thesis
          by (rule stopped) (use None c e pa' t' in \<open>simp_all add: publisher_wf_def publisher_handles_def\<close>)
      next
        case g': (Some g0)
        show ?thesis
        proof (cases wr)
          case None
          then have "stopPublisher D (?e1\<lparr>dp_topic := t, dp_publisher := g, dp_writer := wr\<rparr>, d4) = (e', d')"
            using assms(4) pa t g wr \<open>dp_participant e = None\<close> pa' t' g' by (simp add: startPublisher_def Let_def)
          then show ?thesis
            by (rule stopped) (use None c e pa' t' g' in \<open>simp_all add: publisher_wf_def publisher_handles_def\<close>)
        next
          case (Some w0)
          then have "e' = ?e1\<lparr>dp_topic := t, dp_publisher := g, dp_writer := wr\<rparr> \<and> d' = d4 \<and> r = Inr ()"
            using assms(4) pa t g wr \<open>dp_participant e = None\<close> pa' t' g' by (simp add: startPublisher_def Let_def)
          then show ?thesis
            using Some c pa' t' g' by (simp add: publisher_wf_def publisher_handles_def)
        qed
      qed
    qed
  qed
qed

lemma subscriber_start_cases:
  assumes "dds_counts D cnt" and "subscriber_wf e" and "cnt d = subscriber_handles e"
    and "startSubscriber D domain n (e, d) = (r, (e', d'))"
  shows "subscriber_wf e' \<and> cnt d' = subscriber_handles e' \<and>
    (dsu_participant e = None \<and> r \<noteq> Inr () \<longrightarrow> subscriber_handles e' = no_entities)"
proof (cases "dsu_participant e")
  case (Some p)
  then show ?thesis using assms by (simp add: startSubscriber_def)
next
  case None
  then have e: "dsu_topic e = None" "dsu_subscriber e = None" "dsu_reader e = None"
    using assms(2) by (simp_all add: subscriber_wf_def)
  let ?n = "if n = [] then kAcquisitionSnapshotTopicName else n"
  obtain pa d1 where pa: "dd_create_participant D domain d = (pa, d1)" by fastforce
  obtain t d2 where t: "dd_create_topic D (the pa) ?n kAcquisitionSnapshotTypeName d1 = (t, d2)" by fastforce
  obtain g d3 where g: "dd_create_group D (the pa) d2 = (g, d3)" by fastforce
  obtain wr d4 where wr: "dd_create_end D (the g) (the t) d3 = (wr, d4)" by fastforce
  note counts = dds_create [OF assms(1)]
  have c: "cnt d1 = \<lparr>en_participants = some1 pa, en_topics = 0, en_groups = 0, en_ends = 0\<rparr>"
    "cnt d2 = \<lparr>en_participants = some1 pa, en_topics = some1 t, en_groups = 0, en_ends = 0\<rparr>"
    "cnt d3 = \<lparr>en_participants = some1 pa, en_topics = some1 t, en_groups = some1 g, en_ends = 0\<rparr>"
    "cnt d4 = \<lparr>en_participants = some1 pa, en_topics = some1 t, en_groups = some1 g, en_ends = some1 wr\<rparr>"
    using counts(1) [OF pa] counts(2) [OF t] counts(3) [OF g] counts(4) [OF wr] None e assms(3)
    by (simp_all add: subscriber_handles_def)
  have stopped: ?thesis
    if "stopSubscriber D (e1, d0) = (e', d')" "subscriber_wf e1" "cnt d0 = subscriber_handles e1" for e1 d0
    using stopSubscriber_closes [OF assms(1) that(2,3)] that(1)
    by (simp add: subscriber_wf_def subscriber_handles_def newDdsSubscriber_def no_entities_def)
  let ?e1 = "e\<lparr>dsu_topicName := ?n, dsu_participant := pa\<rparr>"
  show ?thesis
  proof (cases pa)
    case pa': None
    then show ?thesis
      using assms(4) pa \<open>dsu_participant e = None\<close> e c
      by (auto simp: startSubscriber_def Let_def subscriber_wf_def subscriber_handles_def no_entities_def)
  next
    case pa': (Some p)
    show ?thesis
    proof (cases t)
      case None
      then have "stopSubscriber D (?e1\<lparr>dsu_topic := t\<rparr>, d2) = (e', d')"
        using assms(4) pa t \<open>dsu_participant e = None\<close> pa' by (simp add: startSubscriber_def Let_def)
      then show ?thesis
        by (rule stopped) (use None c e pa' in \<open>simp_all add: subscriber_wf_def subscriber_handles_def\<close>)
    next
      case t': (Some t0)
      show ?thesis
      proof (cases g)
        case None
        then have "stopSubscriber D (?e1\<lparr>dsu_topic := t, dsu_subscriber := g\<rparr>, d3) = (e', d')"
          using assms(4) pa t g \<open>dsu_participant e = None\<close> pa' t' by (simp add: startSubscriber_def Let_def)
        then show ?thesis
          by (rule stopped) (use None c e pa' t' in \<open>simp_all add: subscriber_wf_def subscriber_handles_def\<close>)
      next
        case g': (Some g0)
        show ?thesis
        proof (cases wr)
          case None
          then have "stopSubscriber D (?e1\<lparr>dsu_topic := t, dsu_subscriber := g, dsu_listener := True, dsu_reader := wr\<rparr>, d4) = (e', d')"
            using assms(4) pa t g wr \<open>dsu_participant e = None\<close> pa' t' g' by (simp add: startSubscriber_def Let_def)
          then show ?thesis
            by (rule stopped) (use None c e pa' t' g' in \<open>simp_all add: subscriber_wf_def subscriber_handles_def\<close>)
        next
          case (Some w0)
          then have "e' = ?e1\<lparr>dsu_topic := t, dsu_subscriber := g, dsu_listener := True, dsu_reader := wr\<rparr> \<and> d' = d4 \<and> r = Inr ()"
            using assms(4) pa t g wr \<open>dsu_participant e = None\<close> pa' t' g' by (simp add: startSubscriber_def Let_def)
          then show ?thesis
            using Some c pa' t' g' by (simp add: subscriber_wf_def subscriber_handles_def)
        qed
      qed
    qed
  qed
qed

interpretation publisher_end: dds_endpoint "\<lambda>(domain, n). startPublisher D domain n" "stopPublisher D"
    publisher_handles cnt publisher_wf "dds_counts D cnt"
  for D :: "'d dds" and cnt
proof unfold_locales
  fix e d a r e' d' assume that: "dds_counts D cnt" and *: "publisher_wf e" "cnt d = publisher_handles e"
    "(case a of (domain, n) \<Rightarrow> startPublisher D domain n) (e, d) = (r, (e', d'))"
  show "publisher_wf e' \<and> cnt d' = publisher_handles e'"
    using publisher_start_cases [OF that *(1,2)] *(3) by (cases a) auto
next
  fix e d a x e' d' assume that: "dds_counts D cnt" and *: "publisher_wf e" "cnt d = publisher_handles e" "publisher_handles e = no_entities"
    "(case a of (domain, n) \<Rightarrow> startPublisher D domain n) (e, d) = (Inl x, (e', d'))"
  have "dp_participant e = None" using *(3) by (auto simp: publisher_handles_def no_entities_def some1_def split: if_splits)
  then show "publisher_handles e' = no_entities"
    using publisher_start_cases [OF that *(1,2)] *(4) by (cases a) auto
next
  fix e d e' d' assume that: "dds_counts D cnt" and *: "publisher_wf e" "cnt d = publisher_handles e" "stopPublisher D (e, d) = (e', d')"
  show "publisher_wf e' \<and> publisher_handles e' = no_entities \<and> cnt d' = no_entities"
    using stopPublisher_closes [OF that *(1,2)] *(3)
    by (simp add: publisher_wf_def publisher_handles_def newDdsPublisher_def no_entities_def)
qed

interpretation subscriber_end: dds_endpoint "\<lambda>(domain, n). startSubscriber D domain n" "stopSubscriber D"
    subscriber_handles cnt subscriber_wf "dds_counts D cnt"
  for D :: "'d dds" and cnt
proof unfold_locales
  fix e d a r e' d' assume that: "dds_counts D cnt" and *: "subscriber_wf e" "cnt d = subscriber_handles e"
    "(case a of (domain, n) \<Rightarrow> startSubscriber D domain n) (e, d) = (r, (e', d'))"
  show "subscriber_wf e' \<and> cnt d' = subscriber_handles e'"
    using subscriber_start_cases [OF that *(1,2)] *(3) by (cases a) auto
next
  fix e d a x e' d' assume that: "dds_counts D cnt" and *: "subscriber_wf e" "cnt d = subscriber_handles e" "subscriber_handles e = no_entities"
    "(case a of (domain, n) \<Rightarrow> startSubscriber D domain n) (e, d) = (Inl x, (e', d'))"
  have "dsu_participant e = None" using *(3) by (auto simp: subscriber_handles_def no_entities_def some1_def split: if_splits)
  then show "subscriber_handles e' = no_entities"
    using subscriber_start_cases [OF that *(1,2)] *(4) by (cases a) auto
next
  fix e d e' d' assume that: "dds_counts D cnt" and *: "subscriber_wf e" "cnt d = subscriber_handles e" "stopSubscriber D (e, d) = (e', d')"
  show "subscriber_wf e' \<and> subscriber_handles e' = no_entities \<and> cnt d' = no_entities"
    using stopSubscriber_closes [OF that *(1,2)] *(3)
    by (simp add: subscriber_wf_def subscriber_handles_def newDdsSubscriber_def no_entities_def)
qed

section \<open>Properties\<close>

text \<open>Starting the acquisition publisher either creates participant, topic, publisher and writer, or throws
  and leaves none of them behind, wherever the middleware refuses; and after any sequence of starts (failed
  or not) and stops, one more stop leaves no entity alive.\<close>

theorem publisher_owns_its_entities:
  assumes "dds_counts D cnt" and "cnt d = no_entities"
  shows "(\<forall>e d' x. startPublisher D domain n (newDdsPublisher, d) = (Inl x, (e, d')) \<longrightarrow> cnt d' = no_entities) \<and>
    (\<forall>e d'. startPublisher D domain n (newDdsPublisher, d) = (Inr (), (e, d')) \<longrightarrow>
       cnt d' = \<lparr>en_participants = 1, en_topics = 1, en_groups = 1, en_ends = 1\<rparr>) \<and>
    cnt (snd (stopPublisher D (fold (publisher_end.life_step D) ops (newDdsPublisher, d)))) = no_entities"
proof (intro conjI allI impI)
  have new: "publisher_end.owns cnt (newDdsPublisher, d)"
    using assms(2) by (simp add: publisher_end.owns_def publisher_wf_def publisher_handles_def newDdsPublisher_def no_entities_def)
  fix e d' x assume "startPublisher D domain n (newDdsPublisher, d) = (Inl x, (e, d'))"
  moreover have "publisher_handles newDdsPublisher = no_entities"
    by (simp add: publisher_handles_def newDdsPublisher_def no_entities_def)
  ultimately show "cnt d' = no_entities"
    using publisher_end.failed_start_owns_nothing [OF assms(1) new, of "(domain, n)" x e d'] by simp
next
  fix e d' assume start: "startPublisher D domain n (newDdsPublisher, d) = (Inr (), (e, d'))"
  have new: "publisher_wf newDdsPublisher" "cnt d = publisher_handles newDdsPublisher"
    using assms(2) by (simp_all add: publisher_wf_def publisher_handles_def newDdsPublisher_def no_entities_def)
  have "cnt d' = publisher_handles e"
    using publisher_start_cases [OF assms(1) new start] by simp
  moreover have "dp_participant e \<noteq> None \<and> dp_topic e \<noteq> None \<and> dp_publisher e \<noteq> None \<and> dp_writer e \<noteq> None"
    using start by (auto simp: startPublisher_def newDdsPublisher_def Let_def split: option.splits prod.splits)
  ultimately show "cnt d' = \<lparr>en_participants = 1, en_topics = 1, en_groups = 1, en_ends = 1\<rparr>"
    by (simp add: publisher_handles_def some1_def)
next
  have "publisher_end.owns cnt (newDdsPublisher, d)"
    using assms(2) by (simp add: publisher_end.owns_def publisher_wf_def publisher_handles_def newDdsPublisher_def no_entities_def)
  then show "cnt (snd (stopPublisher D (fold (publisher_end.life_step D) ops (newDdsPublisher, d)))) = no_entities"
    using publisher_end.stopped_owns_nothing [OF assms(1) publisher_end.life_owns [OF assms(1)]] by blast
qed

text \<open>A middleware that counts and refuses the \<open>k\<close>-th creation.\<close>

definition sample_dds :: "nat \<Rightarrow> (entities \<times> nat) dds" where
  "sample_dds k =
     (let create = (\<lambda>f (c, n). if n = k then (None, (c, Suc n)) else (Some n, (f c, Suc n))) in
      \<lparr>dd_create_participant = (\<lambda>_. create (\<lambda>c. c\<lparr>en_participants := en_participants c + 1\<rparr>)),
       dd_create_topic = (\<lambda>_ _ _. create (\<lambda>c. c\<lparr>en_topics := en_topics c + 1\<rparr>)),
       dd_create_group = (\<lambda>_. create (\<lambda>c. c\<lparr>en_groups := en_groups c + 1\<rparr>)),
       dd_create_end = (\<lambda>_ _. create (\<lambda>c. c\<lparr>en_ends := en_ends c + 1\<rparr>)),
       dd_delete_end = (\<lambda>_ _ (c, n). (c\<lparr>en_ends := en_ends c - 1\<rparr>, n)),
       dd_delete_group = (\<lambda>_ _ (c, n). (if en_ends c = 0 then c\<lparr>en_groups := en_groups c - 1\<rparr> else c, n)),
       dd_delete_topic = (\<lambda>_ _ (c, n). (if en_ends c = 0 then c\<lparr>en_topics := en_topics c - 1\<rparr> else c, n)),
       dd_delete_participant = (\<lambda>_ (c, n).
         (if en_groups c = 0 \<and> en_topics c = 0 then c\<lparr>en_participants := en_participants c - 1\<rparr> else c, n)),
       dd_write = (\<lambda>_ _ d. (True, d))\<rparr>)"

lemma sample_dds_counts: "dds_counts (sample_dds k) fst"
  by (simp add: dds_counts_def sample_dds_def Let_def)

lemma publisher_owns_its_entities_witness:
  "fst (snd (snd (startPublisher (sample_dds 3) 37 [] (newDdsPublisher, (no_entities, 0))))) = no_entities"
proof -
  let ?start = "startPublisher (sample_dds 3) 37 [] (newDdsPublisher, (no_entities, 0))"
  obtain r e d' where start: "?start = (r, (e, d'))" by (metis prod.collapse)
  moreover have "fst ?start = Inl (StdException ''Unable to create Fast-DDS writer.'')"
    by (simp add: startPublisher_def sample_dds_def newDdsPublisher_def Let_def)
  ultimately have "?start = (Inl (StdException ''Unable to create Fast-DDS writer.''), (e, d'))" by simp
  moreover have "fst (no_entities, 0 :: nat) = no_entities" by simp
  note publisher_owns_its_entities [OF sample_dds_counts this, of 3 37 "[]" "[]"]
  ultimately have "fst d' = no_entities" by blast
  then show ?thesis by (simp only: start snd_conv)
qed

text \<open>The same holds of the subscriber: a start that throws leaves no entity behind, and after any sequence of
  starts and stops, one more stop leaves none alive.\<close>

theorem subscriber_owns_its_entities:
  assumes "dds_counts D cnt" and "cnt d = no_entities"
  shows "(\<forall>e d' x. startSubscriber D domain n (newDdsSubscriber, d) = (Inl x, (e, d')) \<longrightarrow> cnt d' = no_entities) \<and>
    cnt (snd (stopSubscriber D (fold (subscriber_end.life_step D) ops (newDdsSubscriber, d)))) = no_entities"
proof (intro conjI allI impI)
  have new: "subscriber_end.owns cnt (newDdsSubscriber, d)" "subscriber_handles newDdsSubscriber = no_entities"
    using assms(2)
    by (simp_all add: subscriber_end.owns_def subscriber_wf_def subscriber_handles_def newDdsSubscriber_def no_entities_def)
  show "cnt (snd (stopSubscriber D (fold (subscriber_end.life_step D) ops (newDdsSubscriber, d)))) = no_entities"
    using subscriber_end.stopped_owns_nothing [OF assms(1) subscriber_end.life_owns [OF assms(1) new(1)]] by blast
  fix e d' x assume "startSubscriber D domain n (newDdsSubscriber, d) = (Inl x, (e, d'))"
  then show "cnt d' = no_entities"
    using subscriber_end.failed_start_owns_nothing [OF assms(1) new, of "(domain, n)" x e d'] by simp
qed

lemma subscriber_owns_its_entities_witness:
  "fst (snd (stopSubscriber (sample_dds 9) (fold (subscriber_end.life_step (sample_dds 9)) [Start (37, [])]
     (newDdsSubscriber, (no_entities, 0))))) = no_entities"
proof -
  have "fst (no_entities, 0 :: nat) = no_entities" by simp
  from subscriber_owns_its_entities [OF sample_dds_counts this, of 9 37 "[]" "[Start (37, [])]"] show ?thesis by blast
qed

end
