(* ===== verification/AgentRuntime.thy ===== *)
theory AgentRuntime
  imports Cdce937_Chip Fifo DdsMessage
begin

text \<open>
  \<open>AcquisitionRuntime.h\<close> and \<open>AcquisitionRuntime.cpp\<close>: the state of the acquisition agent and
  its operations, one thread at a time (how the threads interleave on the shared counters is
  \<open>FrameQueue\<close>). A statement may throw, and one that drains the FIFO may not return.
\<close>

section \<open>The state\<close>

text \<open>A mapping is null, \<open>MAP_FAILED\<close> or mapped.\<close>

datatype mapping_ptr = NullPtr | MapFailed | Mapped

record mapped_hardware =
  hw_memFd :: int
  hw_fifoCtrl :: mapping_ptr
  hw_fifoData :: mapping_ptr
  hw_gpioInitialized :: bool

record runtime =
  rt_readerStarted :: bool
  rt_publisherStarted :: bool
  rt_readerShouldRun :: bool
  rt_running :: bool
  rt_shutdown :: bool
  rt_totalFrames :: u64
  rt_droppedFrames :: u64
  rt_recoveries :: u64
  rt_lastFrameSequence :: u64
  rt_queueDepth :: u64
  rt_frameQueue :: "frame_packet list list"
  rt_history :: history
  rt_latestSamples :: "i16 list"
  rt_lastDebugWords :: "u32 list"
  rt_lastDebugHiLo :: "u16 list"
  rt_lastDebugLoHi :: "u16 list"
  rt_lastDebugSequence :: u64
  rt_lastDebugCapturedAt :: string
  rt_debugPublishCount :: u64
  rt_hasLatestFrame :: bool
  rt_lastWaveformPublishAtUs :: int
  rt_lastHistorySampleAtUs :: int
  rt_statusMessage :: string
  rt_lastError :: string
  rt_lastCommandOk :: bool
  rt_lastFrameAt :: string
  rt_lastPublishedAt :: string
  rt_lastCommandAction :: string
  rt_lastCommandUpdatedAt :: string
  rt_latestDividerPayloadText :: string
  rt_publisher :: dds_publisher
  rt_commandSubscriber :: dds_subscriber
  rt_lastCommandSequence :: u64
  rt_udpPublisher :: "udp_publisher option"
  rt_udpConfigured :: bool
  rt_udpHost :: string
  rt_udpPort :: int
  rt_udpMaxFramesPerPacket :: int
  rt_udpPacketsSent :: u64
  rt_udpFramesSent :: u64
  rt_udpSendErrors :: u64
  rt_udpLastError :: string
  rt_hardware :: mapped_hardware

text \<open>
  The runtime with what it acts on: the bus and the state file, the FIFO, the GPIO files, the DDS
  domain, the socket, and the descriptors and mappings it holds of the kernel. Readings of the clock
  are numbered.
\<close>

record ('s, 'h, 'd, 'n) agent =
  ag_rt :: runtime
  ag_world :: "'s world"
  ag_fifo :: 'h
  ag_gpio :: sysfs
  ag_dds :: 'd
  ag_net :: 'n
  ag_openFds :: int
  ag_mappings :: int
  ag_tick :: nat

text \<open>What the runtime calls that is not its own code.\<close>

record ('s, 'h, 'd, 'n) platform =
  pf_poco :: poco
  pf_fl :: "rat \<Rightarrow> rat"
  pf_bus :: "'s i2c_bus"
  pf_file :: file_outcome
  pf_stateFile :: string
  pf_mmio :: "'h mmio"
  pf_dds :: "'d dds"
  pf_socket :: "'n socket"
  pf_gpioOpens :: "string \<Rightarrow> bool"
  pf_iso :: "nat \<Rightarrow> string"             \<comment> \<open>\<open>isoTimestamp()\<close> at a reading of the clock\<close>
  pf_isoOf :: "int \<Rightarrow> string"           \<comment> \<open>\<open>isoTimestamp\<close> of a given time\<close>
  pf_nowUs :: "nat \<Rightarrow> int"              \<comment> \<open>\<open>epochMicroseconds\<close> at a reading of the clock\<close>
  pf_openMem :: "nat \<Rightarrow> int"            \<comment> \<open>\<open>open\<close> of \<open>/dev/mem\<close>\<close>
  pf_mapCtrl :: "nat \<Rightarrow> bool"           \<comment> \<open>whether the first \<open>mmap\<close> succeeds\<close>
  pf_mapData :: "nat \<Rightarrow> bool"           \<comment> \<open>whether the second one does\<close>
  pf_startThread :: "nat \<Rightarrow> exc + unit" \<comment> \<open>\<open>Poco::Thread::start\<close>\<close>

type_synonym ('s, 'h, 'd, 'n, 'a) agent_io = "(('s, 'h, 'd, 'n) agent, 'a) io"
type_synonym ('s, 'h, 'd, 'n, 'a) agent_prog = "(('s, 'h, 'd, 'n) agent, 'a) prog"

definition on_rt :: "(runtime \<Rightarrow> runtime) \<Rightarrow> ('s, 'h, 'd, 'n) agent \<Rightarrow> ('s, 'h, 'd, 'n) agent" where
  "on_rt f a = a\<lparr>ag_rt := f (ag_rt a)\<rparr>"

definition set_rt :: "(runtime \<Rightarrow> runtime) \<Rightarrow> ('s, 'h, 'd, 'n, unit) agent_prog" where
  "set_rt f = p_modify (on_rt f)"

definition on_world :: "('s world, 'a) io \<Rightarrow> ('s, 'h, 'd, 'n, 'a) agent_prog" where
  "on_world m a = (let (r, w) = m (ag_world a) in Some (r, a\<lparr>ag_world := w\<rparr>))"

section \<open>The snapshot\<close>

definition attachDividerPayload :: "poco \<Rightarrow> string \<Rightarrow> (string \<times> json) list \<Rightarrow> (string \<times> json) list" where
  "attachDividerPayload P dividerPayloadText payload =
     (if dividerPayloadText = [] then payload
      else case p_parse P dividerPayloadText of
             Inl _ \<Rightarrow> payload
           | Inr parsed \<Rightarrow> obj_set payload ''divider'' (JObj parsed))"

definition channel_json :: "runtime \<Rightarrow> nat \<Rightarrow> nat \<Rightarrow> json" where
  "channel_json r chipIndex channelIndex =
     (let sampleIndex = chipIndex * kChannelsPerChip + channelIndex in
      JObj [(''index'', JInt (int channelIndex)),
            (''name'', JStr (''CH'' @ show_nat (channelIndex + 1))),
            (''hasValue'', JBool (rt_hasLatestFrame r)),
            (''value'', JInt (sint (rt_latestSamples r ! sampleIndex))),
            (''samples'', JArr (map (\<lambda>v. JInt (sint v)) (h_series (rt_history r) ! sampleIndex)))])"

definition chip_json :: "runtime \<Rightarrow> nat \<Rightarrow> json" where
  "chip_json r chipIndex =
     JObj [(''index'', JInt (int chipIndex)),
           (''name'', JStr (''ADC'' @ show_nat (chipIndex + 1))),
           (''channels'', JArr (map (channel_json r chipIndex) [0..<kChannelsPerChip]))]"

definition udp_json :: "runtime \<Rightarrow> json" where
  "udp_json r =
     JObj [(''configured'', JBool (rt_udpConfigured r)),
           (''active'', JBool (case rt_udpPublisher r of None \<Rightarrow> False | Some p \<Rightarrow> up_active p)),
           (''host'', JStr (rt_udpHost r)),
           (''port'', JInt (rt_udpPort r)),
           (''maxFramesPerPacket'', JInt (rt_udpMaxFramesPerPacket r)),
           (''packetsSent'', JInt (uint (rt_udpPacketsSent r))),
           (''framesSent'', JInt (uint (rt_udpFramesSent r))),
           (''sendErrors'', JInt (uint (rt_udpSendErrors r))),
           (''lastError'', JStr (rt_udpLastError r))]"

definition debug_json :: "runtime \<Rightarrow> json" where
  "debug_json r =
     JObj [(''sequence'', JInt (uint (rt_lastDebugSequence r))),
           (''capturedAt'', JStr (rt_lastDebugCapturedAt r)),
           (''rawWordsHex'', toHexJsonArray (rt_lastDebugWords r)),
           (''hiLoUnsigned'', toJsonArray (rt_lastDebugHiLo r)),
           (''hiLoSigned'', toSignedJsonArray (rt_lastDebugHiLo r)),
           (''loHiUnsigned'', toJsonArray (rt_lastDebugLoHi r)),
           (''loHiSigned'', toSignedJsonArray (rt_lastDebugLoHi r))]"

text \<open>The members in the order they are set; \<open>stamp\<close> is the time stamp of this snapshot.\<close>

definition snapshot_json :: "poco \<Rightarrow> string \<Rightarrow> runtime \<Rightarrow> (string \<times> json) list" where
  "snapshot_json P stamp r =
     (let statusMessage = (if rt_statusMessage r = []
            then (if rt_running r then ''Acquisition running.'' else ''Acquisition idle.'')
            else rt_statusMessage r);
          payload =
            [(''authenticated'', JBool True),
             (''ok'', JBool (rt_lastCommandOk r)),
             (''updatedAt'', JStr stamp),
             (''message'', JStr statusMessage),
             (''running'', JBool (rt_running r)),
             (''previewActive'', JBool True),
             (''historyLimit'', JInt (int kHistoryLimit)),
             (''queueDepth'', JInt (uint (rt_queueDepth r))),
             (''totalFrames'', JInt (uint (rt_totalFrames r))),
             (''droppedFrames'', JInt (uint (rt_droppedFrames r))),
             (''recoveries'', JInt (uint (rt_recoveries r))),
             (''lastFrameSequence'', JInt (uint (rt_lastFrameSequence r))),
             (''lastFrameAt'', JStr (rt_lastFrameAt r)),
             (''waveformUpdatedAt'', JStr (rt_lastPublishedAt r)),
             (''lastError'', JStr (rt_lastError r)),
             (''includeWaveform'', JBool True),
             (''commandSequence'', JInt (uint (rt_lastCommandSequence r))),
             (''commandAction'', JStr (rt_lastCommandAction r)),
             (''commandUpdatedAt'', JStr (rt_lastCommandUpdatedAt r))];
          p1 = attachDividerPayload P (rt_latestDividerPayloadText r) payload;
          p2 = obj_set p1 ''udp'' (udp_json r);
          p3 = obj_set p2 ''debug'' (debug_json r);
          p4 = obj_set p3 ''timelineUs'' (JArr (map JInt (h_timelineUs (rt_history r))))
      in obj_set p4 ''chips'' (JArr (map (chip_json r) [0..<kAd7606Count])))"

definition snapshot :: "('s, 'h, 'd, 'n) platform \<Rightarrow> ('s, 'h, 'd, 'n, (string \<times> json) list) agent_prog" where
  "snapshot F a =
     Some (Inr (snapshot_json (pf_poco F) (pf_iso F (ag_tick a)) (ag_rt a)), a\<lparr>ag_tick := Suc (ag_tick a)\<rparr>)"

definition publishSnapshot :: "('s, 'h, 'd, 'n) platform \<Rightarrow> ('s, 'h, 'd, 'n, unit) agent_prog" where
  "publishSnapshot F =
     p_bind (snapshot F) (\<lambda>payload.
     p_bind (p_lift (p_getString (pf_poco F) payload ''updatedAt'')) (\<lambda>updatedAt a.
       let message = \<lparr>dm_sequence = rt_lastFrameSequence (ag_rt a), dm_updatedAt = updatedAt,
                      dm_payload = p_stringify (pf_poco F) (JObj payload)\<rparr>;
           (_, (pub, d)) = publishMessage (pf_dds F) message (rt_publisher (ag_rt a), ag_dds a)
       in Some (Inr (), a\<lparr>ag_dds := d, ag_rt := (ag_rt a)\<lparr>rt_publisher := pub, rt_lastPublishedAt := updatedAt\<rparr>\<rparr>)))"

definition updateDividerSnapshotLocked ::
    "('s, 'h, 'd, 'n) platform \<Rightarrow> divider_snapshot \<Rightarrow> ('s, 'h, 'd, 'n, unit) agent_prog" where
  "updateDividerSnapshotLocked F s a =
     Some (Inr (), a\<lparr>ag_tick := Suc (ag_tick a),
       ag_rt := (ag_rt a)\<lparr>rt_latestDividerPayloadText :=
         p_stringify (pf_poco F) (dividerSnapshotToJson (pf_iso F (ag_tick a)) s)\<rparr>\<rparr>)"

section \<open>The hardware\<close>

text \<open>Both \<open>MAP_FAILED\<close> and a mapping are non-null pointers.\<close>

definition fifo_pointers :: "mapped_hardware \<Rightarrow> bool" where
  "fifo_pointers hw \<longleftrightarrow> hw_fifoCtrl hw \<noteq> NullPtr \<and> hw_fifoData hw \<noteq> NullPtr"

definition is_mapped :: "mapping_ptr \<Rightarrow> int" where
  "is_mapped p = (if p = Mapped then 1 else 0)"

text \<open>What a call leaves in the record, and the descriptors and mappings it gains or gives back.\<close>

type_synonym hardware_change = "mapped_hardware \<times> int \<times> int"

definition unmapHardware :: "mapped_hardware \<Rightarrow> hardware_change" where
  "unmapHardware hw =
     (\<lparr>hw_memFd = - 1, hw_fifoCtrl = NullPtr, hw_fifoData = NullPtr, hw_gpioInitialized = False\<rparr>,
      (if hw_memFd hw \<ge> 0 then - 1 else 0), - is_mapped (hw_fifoCtrl hw) - is_mapped (hw_fifoData hw))"

text \<open>\<open>fd\<close> is what \<open>open\<close> returns, \<open>ctrl\<close> and \<open>dat\<close> whether the two \<open>mmap\<close> calls succeed.\<close>

definition mapHardware :: "int \<Rightarrow> bool \<Rightarrow> bool \<Rightarrow> mapped_hardware \<Rightarrow> (exc + unit) \<times> hardware_change" where
  "mapHardware fd ctrl dat hw =
     (if fd < 0 then (Inl (IOException ''Unable to open /dev/mem''), (hw\<lparr>hw_memFd := fd\<rparr>, 0, 0))
      else
        let hw1 = hw\<lparr>hw_memFd := fd, hw_fifoCtrl := (if ctrl then Mapped else MapFailed),
                     hw_fifoData := (if dat then Mapped else MapFailed)\<rparr>;
            maps = (if ctrl then 1 else 0) + (if dat then 1 else 0)
        in if \<not> ctrl \<or> \<not> dat
           then (let (hw2, dfds, dmaps) = unmapHardware hw1
                 in (Inl (IOException ''Unable to map FIFO registers''), (hw2, 1 + dfds, maps + dmaps)))
           else (Inr (), (hw1, 1, maps)))"

definition changeHardware :: "hardware_change \<Rightarrow> ('s, 'h, 'd, 'n) agent \<Rightarrow> ('s, 'h, 'd, 'n) agent" where
  "changeHardware c a =
     a\<lparr>ag_rt := (ag_rt a)\<lparr>rt_hardware := fst c\<rparr>, ag_openFds := ag_openFds a + fst (snd c),
       ag_mappings := ag_mappings a + snd (snd c)\<rparr>"

definition releaseMappedHardwareLocked :: "('s, 'h, 'd, 'n, unit) agent_prog" where
  "releaseMappedHardwareLocked a = Some (Inr (), changeHardware (unmapHardware (rt_hardware (ag_rt a))) a)"

definition ensureMappedHardwareLocked :: "('s, 'h, 'd, 'n) platform \<Rightarrow> ('s, 'h, 'd, 'n, unit) agent_prog" where
  "ensureMappedHardwareLocked F a =
     (let hw = rt_hardware (ag_rt a) in
      if hw_memFd hw \<ge> 0 \<and> fifo_pointers hw then Some (Inr (), a)
      else
        let (r, c) = mapHardware (pf_openMem F (ag_tick a)) (pf_mapCtrl F (ag_tick a)) (pf_mapData F (ag_tick a)) hw
        in Some (r, changeHardware c (a\<lparr>ag_tick := Suc (ag_tick a)\<rparr>)))"

definition on_gpio :: "(sysfs \<Rightarrow> sysfs) \<Rightarrow> ('s, 'h, 'd, 'n, unit) agent_prog" where
  "on_gpio f = p_modify (\<lambda>a. a\<lparr>ag_gpio := f (ag_gpio a)\<rparr>)"

definition initializeGpioLocked :: "('s, 'h, 'd, 'n) platform \<Rightarrow> ('s, 'h, 'd, 'n, unit) agent_prog" where
  "initializeGpioLocked F a =
     (if hw_gpioInitialized (rt_hardware (ag_rt a)) then Some (Inr (), a)
      else p_seq (on_gpio (initializeGpio (pf_gpioOpens F)))
             (set_rt (\<lambda>r. r\<lparr>rt_hardware := (rt_hardware r)\<lparr>hw_gpioInitialized := True\<rparr>\<rparr>)) a)"

definition resetFifo :: "('s, 'h, 'd, 'n) platform \<Rightarrow> ('s, 'h, 'd, 'n, unit) agent_prog" where
  "resetFifo F a =
     (case resetFifoLocked (pf_mmio F) (ag_fifo a) of
        None \<Rightarrow> None
      | Some h \<Rightarrow> Some (Inr (), a\<lparr>ag_fifo := h\<rparr>))"

definition startThread :: "('s, 'h, 'd, 'n) platform \<Rightarrow> ('s, 'h, 'd, 'n, unit) agent_prog" where
  "startThread F a = Some (pf_startThread F (ag_tick a), a\<lparr>ag_tick := Suc (ag_tick a)\<rparr>)"

section \<open>Starting and stopping\<close>

text \<open>The loop of \<open>drainQueue\<close> removes every notification.\<close>

definition drainQueue :: "runtime \<Rightarrow> runtime" where
  "drainQueue r = r\<lparr>rt_frameQueue := [], rt_queueDepth := 0\<rparr>"

definition clearHistoryLocked :: "runtime \<Rightarrow> runtime" where
  "clearHistoryLocked r =
     r\<lparr>rt_history := \<lparr>h_timelineUs = [], h_series = map (\<lambda>_. []) (h_series (rt_history r))\<rparr>,
       rt_hasLatestFrame := False, rt_latestSamples := replicate kFrameColumns 0,
       rt_lastDebugWords := replicate 4 0, rt_lastDebugHiLo := replicate 8 0, rt_lastDebugLoHi := replicate 8 0,
       rt_lastDebugSequence := 0, rt_lastDebugCapturedAt := [], rt_debugPublishCount := 0,
       rt_totalFrames := 0, rt_droppedFrames := 0, rt_recoveries := 0, rt_lastFrameSequence := 0,
       rt_queueDepth := 0, rt_lastFrameAt := [], rt_lastPublishedAt := [],
       rt_lastWaveformPublishAtUs := 0, rt_lastHistorySampleAtUs := 0,
       rt_udpPacketsSent := 0, rt_udpFramesSent := 0, rt_udpSendErrors := 0, rt_udpLastError := []\<rparr>"

text \<open>Joining the reader: in one thread's view it has ended.\<close>

definition stopAcquisitionLocked :: "('s, 'h, 'd, 'n) platform \<Rightarrow> string \<Rightarrow> ('s, 'h, 'd, 'n, unit) agent_prog" where
  "stopAcquisitionLocked F message =
     p_seq (set_rt (\<lambda>r. r\<lparr>rt_readerShouldRun := False\<rparr>))
    (p_seq (set_rt (\<lambda>r. if rt_readerStarted r then r\<lparr>rt_readerStarted := False\<rparr> else r))
    (p_seq (set_rt drainQueue)
    (p_seq (\<lambda>a. if fifo_pointers (rt_hardware (ag_rt a))
                then p_seq (on_gpio (stopAdcLocked (pf_gpioOpens F))) (resetFifo F) a
                else Some (Inr (), a))
      (set_rt (\<lambda>r. r\<lparr>rt_running := False, rt_statusMessage := message, rt_lastCommandOk := True,
                      rt_lastWaveformPublishAtUs := 0\<rparr>)))))"

text \<open>The \<open>try\<close> block; \<open>Some\<close> is its early \<open>return\<close>.\<close>

definition startBody :: "('s, 'h, 'd, 'n) platform \<Rightarrow> ('s, 'h, 'd, 'n, (string \<times> json) list option) agent_prog" where
  "startBody F =
     p_bind (p_get (\<lambda>a. w_file (ag_world a))) (\<lambda>content.
     p_bind (p_lift (resolvePreferredReferenceClockHz (pf_poco F) content [])) (\<lambda>hz.
     p_bind (on_world (on_bus (readDividerStatus (pf_poco F) (pf_fl F) (pf_bus F)
               (resolvePreferredDevicePath (pf_poco F) content []) hz))) (\<lambda>dividerSnapshot.
     p_seq (updateDividerSnapshotLocked F dividerSnapshot)
       (let safetyMessage = acquisitionClockSafetyMessage (pf_poco F) dividerSnapshot in
        if safetyMessage \<noteq> [] then
          p_seq (set_rt (\<lambda>r. r\<lparr>rt_statusMessage := safetyMessage, rt_lastError := safetyMessage, rt_lastCommandOk := False\<rparr>))
            (p_bind (snapshot F) (\<lambda>payload.
               p_ret (Some (obj_set (obj_set payload ''ok'' (JBool False)) ''message'' (JStr safetyMessage)))))
        else
          p_seq (ensureMappedHardwareLocked F)
         (p_seq (initializeGpioLocked F)
         (p_seq (on_gpio (stopAdcLocked (pf_gpioOpens F)))
         (p_seq (resetFifo F)
         (p_seq (set_rt clearHistoryLocked)
         (p_seq (set_rt drainQueue)
         (p_seq (set_rt (\<lambda>r. r\<lparr>rt_readerShouldRun := True\<rparr>))
         (p_seq (on_gpio (startAdcLocked (pf_gpioOpens F)))
         (p_seq (startThread F)
         (p_seq (set_rt (\<lambda>r. r\<lparr>rt_readerStarted := True, rt_running := True, rt_statusMessage := ''Acquisition started.'',
                              rt_lastError := [], rt_lastCommandOk := True\<rparr>))
           (p_ret None))))))))))))))"

definition startAcquisitionLocked :: "('s, 'h, 'd, 'n) platform \<Rightarrow> ('s, 'h, 'd, 'n, (string \<times> json) list) agent_prog" where
  "startAcquisitionLocked F a =
     (if rt_running (ag_rt a) then
        p_bind (snapshot F) (\<lambda>payload.
        p_seq (set_rt (\<lambda>r. r\<lparr>rt_statusMessage := ''Acquisition is already running.'', rt_lastError := [], rt_lastCommandOk := True\<rparr>))
          (p_ret (obj_set (obj_set payload ''ok'' (JBool True)) ''message'' (JStr ''Acquisition is already running.'')))) a
      else
        p_bind (p_catch (startBody F) (\<lambda>e.
            p_seq (set_rt (\<lambda>r. let text = caught_text (pf_poco F) e in
                     r\<lparr>rt_readerShouldRun := False, rt_statusMessage := text, rt_lastError := text, rt_lastCommandOk := False\<rparr>))
              (p_ret None)))
          (\<lambda>early. case early of
             Some payload \<Rightarrow> p_ret payload
           | None \<Rightarrow>
               p_bind (snapshot F) (\<lambda>payload.
               p_bind (p_get ag_rt) (\<lambda>r.
                 p_ret (obj_set (obj_set payload ''ok'' (JBool (rt_lastCommandOk r))) ''message'' (JStr (rt_statusMessage r)))))) a)"

definition startAcquisition :: "('s, 'h, 'd, 'n) platform \<Rightarrow> ('s, 'h, 'd, 'n, (string \<times> json) list) agent_prog" where
  "startAcquisition F =
     p_bind (startAcquisitionLocked F) (\<lambda>payload. p_seq (publishSnapshot F) (p_ret payload))"

definition stopAcquisition ::
    "('s, 'h, 'd, 'n) platform \<Rightarrow> string \<Rightarrow> ('s, 'h, 'd, 'n, (string \<times> json) list) agent_prog" where
  "stopAcquisition F message =
     p_seq (stopAcquisitionLocked F (if message = [] then ''Acquisition stopped by operator.'' else message))
       (p_bind (snapshot F) (\<lambda>payload. p_seq (publishSnapshot F) (p_ret payload)))"

text \<open>The publisher thread is joined: in one thread's view it has ended (\<open>FrameQueue\<close> says when it does).\<close>

definition shutdownRuntime :: "('s, 'h, 'd, 'n) platform \<Rightarrow> ('s, 'h, 'd, 'n, unit) agent_prog" where
  "shutdownRuntime F a =
     (if rt_shutdown (ag_rt a) then Some (Inr (), a)
      else
        p_seq (set_rt (\<lambda>r. r\<lparr>rt_shutdown := True\<rparr>))
       (p_seq (stopAcquisitionLocked F ''Acquisition stopped during process shutdown.'')
       (p_seq (set_rt (\<lambda>r. if rt_publisherStarted r then r\<lparr>rt_publisherStarted := False\<rparr> else r))
       (p_seq (\<lambda>a. let (pub, d) = stopPublisher (pf_dds F) (rt_publisher (ag_rt a), ag_dds a)
                    in Some (Inr (), a\<lparr>ag_dds := d, ag_rt := (ag_rt a)\<lparr>rt_publisher := pub\<rparr>\<rparr>))
       (p_seq (\<lambda>a. let (sub, d) = stopSubscriber (pf_dds F) (rt_commandSubscriber (ag_rt a), ag_dds a)
                    in Some (Inr (), a\<lparr>ag_dds := d, ag_rt := (ag_rt a)\<lparr>rt_commandSubscriber := sub\<rparr>\<rparr>))
         releaseMappedHardwareLocked)))) a)"

section \<open>Control messages\<close>

definition requestStringField :: "poco \<Rightarrow> (string \<times> json) list \<Rightarrow> string \<Rightarrow> string" where
  "requestStringField P payload name =
     (case obj_get payload name of
        None \<Rightarrow> []
      | Some v \<Rightarrow>
          (case p_getString P payload name of
             Inr s \<Rightarrow> s
           | Inl _ \<Rightarrow> (case p_convertString P v of Inr s \<Rightarrow> s | Inl _ \<Rightarrow> [])))"

fun element_ints :: "poco \<Rightarrow> json list \<Rightarrow> exc + int list" where
  "element_ints P [] = Inr []"
| "element_ints P (j # js) =
     (case p_elementInt P j of
        Inl e \<Rightarrow> Inl e
      | Inr i \<Rightarrow> (case element_ints P js of Inl e \<Rightarrow> Inl e | Inr is \<Rightarrow> Inr (i # is)))"

definition parseOutputIndices :: "poco \<Rightarrow> (string \<times> json) list \<Rightarrow> exc + int list" where
  "parseOutputIndices P payload =
     (case p_getArray P payload ''outputIndices'' of
        None \<Rightarrow> Inl (InvalidArgumentException ''outputIndices must contain at least one output.'')
      | Some js \<Rightarrow>
          (if js = [] then Inl (InvalidArgumentException ''outputIndices must contain at least one output.'')
           else case element_ints P js of Inl e \<Rightarrow> Inl e | Inr vs \<Rightarrow> normalizeOutputIndicesOrThrow vs))"

definition requestReferenceClockHz :: "poco \<Rightarrow> string option \<Rightarrow> (string \<times> json) list \<Rightarrow> exc + u64" where
  "requestReferenceClockHz P content payload =
     (if obj_get payload ''referenceClockHz'' = None then resolvePreferredReferenceClockHz P content []
      else
        case (case p_getUInt64 P payload ''referenceClockHz'' of
                Inl e \<Rightarrow> Inl e
              | Inr hz \<Rightarrow> (case validateReferenceClockHzOrThrow hz of Inl e \<Rightarrow> Inl e | Inr _ \<Rightarrow> Inr hz)) of
          Inr hz \<Rightarrow> Inr hz
        | Inl (_ :: exc) \<Rightarrow>
            (let text = requestStringField P payload ''referenceClockHz'' in
             if text \<noteq> [] then resolvePreferredReferenceClockHz P content text
             else Inl (InvalidArgumentException ''referenceClockHz must be numeric.'')))"

definition requestDevicePath :: "poco \<Rightarrow> string option \<Rightarrow> (string \<times> json) list \<Rightarrow> string" where
  "requestDevicePath P content payload =
     resolvePreferredDevicePath P content (requestStringField P payload ''devicePath'')"

text \<open>The three fields every handler writes.\<close>

definition markCommand :: "dds_message \<Rightarrow> string \<Rightarrow> runtime \<Rightarrow> runtime" where
  "markCommand m action r =
     r\<lparr>rt_lastCommandSequence := dm_sequence m, rt_lastCommandAction := action, rt_lastCommandUpdatedAt := dm_updatedAt m\<rparr>"

definition commandFailed :: "dds_message \<Rightarrow> string \<Rightarrow> string \<Rightarrow> runtime \<Rightarrow> runtime" where
  "commandFailed m action text r =
     (markCommand m action r)\<lparr>rt_statusMessage := text, rt_lastError := text, rt_lastCommandOk := False\<rparr>"

text \<open>The first \<open>try\<close> block, which catches the exceptions of POCO only.\<close>

definition decodeCommand ::
    "('s, 'h, 'd, 'n) platform \<Rightarrow> dds_message \<Rightarrow> ('s, 'h, 'd, 'n, string \<times> string \<times> (string \<times> json) list) agent_prog" where
  "decodeCommand F m =
     (let P = pf_poco F in
      if dm_payload m = [] then p_ret (''status'', [], [])
      else
        case p_parse P (dm_payload m) of
          Inr ob \<Rightarrow> p_ret (p_optString P ob ''action'' ''status'', p_optString P ob ''message'' [], ob)
        | Inl (StdException e) \<Rightarrow> p_throw (StdException e)
        | Inl e \<Rightarrow>
            p_seq (set_rt (commandFailed m ''status'' (''Invalid DDS acquisition command payload: '' @ p_displayText P e)))
              (p_ret (''status'', [], [])))"

definition dividerResult :: "divider_snapshot \<Rightarrow> runtime \<Rightarrow> runtime" where
  "dividerResult s r = r\<lparr>rt_statusMessage := ds_message s, rt_lastError := [], rt_lastCommandOk := ds_ok s\<rparr>"

definition dividerStatusCommand ::
    "('s, 'h, 'd, 'n) platform \<Rightarrow> dds_message \<Rightarrow> string \<Rightarrow> (string \<times> json) list \<Rightarrow> ('s, 'h, 'd, 'n, unit) agent_prog" where
  "dividerStatusCommand F m action payload =
     p_bind (p_get (\<lambda>a. w_file (ag_world a))) (\<lambda>content.
     p_bind (p_lift (requestReferenceClockHz (pf_poco F) content payload)) (\<lambda>hz.
     p_bind (on_world (on_bus (readDividerStatus (pf_poco F) (pf_fl F) (pf_bus F)
               (requestDevicePath (pf_poco F) content payload) hz))) (\<lambda>s.
     p_seq (if action = ''divider-update-reference''
            then on_world (on_file (saveDividerConfiguration (pf_file F) (pf_stateFile F) s (ds_devicePath s)))
            else p_ret ())
    (p_seq (set_rt (markCommand m action))
    (p_seq (updateDividerSnapshotLocked F s)
    (p_seq (set_rt (dividerResult s))
      (publishSnapshot F)))))))"

definition dividerInitCommand ::
    "('s, 'h, 'd, 'n) platform \<Rightarrow> dds_message \<Rightarrow> string \<Rightarrow> ('s, 'h, 'd, 'n, unit) agent_prog" where
  "dividerInitCommand F m action =
     p_bind (p_get (\<lambda>a. w_file (ag_world a))) (\<lambda>content.
     p_bind (on_world (on_bus (initializeHardwareFromSavedConfiguration (pf_poco F) (pf_fl F) (pf_bus F) content))) (\<lambda>s.
     p_seq (set_rt (markCommand m action))
    (p_seq (updateDividerSnapshotLocked F s)
    (p_seq (set_rt (dividerResult s))
      (publishSnapshot F)))))"

text \<open>The acquisition goes on after \<open>divider-apply\<close> if it was running and the new clock is safe.\<close>

definition restartAfterApply :: "('s, 'h, 'd, 'n) platform \<Rightarrow> bool \<Rightarrow> divider_snapshot \<Rightarrow> ('s, 'h, 'd, 'n, unit) agent_prog" where
  "restartAfterApply F wasRunning s =
     (if wasRunning then
              (let safetyMessage = acquisitionClockSafetyMessage (pf_poco F) s in
               if safetyMessage \<noteq> [] then
                 set_rt (\<lambda>r. r\<lparr>rt_statusMessage := rt_statusMessage r @ '' '' @ safetyMessage,
                                rt_lastError := safetyMessage, rt_lastCommandOk := False\<rparr>)
               else
                 p_bind (startAcquisitionLocked F) (\<lambda>restartPayload.
                   set_rt (\<lambda>r. r\<lparr>rt_lastCommandOk := p_optBool (pf_poco F) restartPayload ''ok'' False,
                     rt_statusMessage := p_optString (pf_poco F) restartPayload ''message'' (rt_statusMessage r)\<rparr>)))
            else p_ret ())"

text \<open>
  The arguments of \<open>applyDividers\<close> are evaluated in the order they are written; C++ leaves the order
  open, which only decides which of several exceptions is thrown.
\<close>

definition dividerApplyCommand ::
    "('s, 'h, 'd, 'n) platform \<Rightarrow> dds_message \<Rightarrow> string \<Rightarrow> (string \<times> json) list \<Rightarrow> ('s, 'h, 'd, 'n, unit) agent_prog" where
  "dividerApplyCommand F m action payload =
     p_bind (p_get (\<lambda>a. rt_running (ag_rt a))) (\<lambda>wasRunning.
     p_seq (if wasRunning then stopAcquisitionLocked F ''Acquisition paused for divider update.'' else p_ret ())
    (p_bind (p_get (\<lambda>a. w_file (ag_world a))) (\<lambda>content.
     p_bind (p_lift (parseOutputIndices (pf_poco F) payload)) (\<lambda>outputIndices.
     p_bind (p_lift (p_getInt (pf_poco F) payload ''divider'')) (\<lambda>divider.
     p_bind (p_lift (requestReferenceClockHz (pf_poco F) content payload)) (\<lambda>hz.
     p_bind (on_world (applyDividers (pf_poco F) (pf_fl F) (pf_bus F) (pf_file F) (pf_stateFile F)
               (requestDevicePath (pf_poco F) content payload) outputIndices divider hz)) (\<lambda>s.
     p_seq (set_rt (markCommand m action))
    (p_seq (updateDividerSnapshotLocked F s)
    (p_seq (set_rt (dividerResult s))
    (p_seq (restartAfterApply F wasRunning s)
      (publishSnapshot F)))))))))))"

text \<open>The second \<open>try\<close> block: \<open>True\<close> when it returned from the handler, \<open>False\<close> when it fell through.\<close>

definition executeCommand ::
    "('s, 'h, 'd, 'n) platform \<Rightarrow> dds_message \<Rightarrow> string \<Rightarrow> string \<Rightarrow> (string \<times> json) list \<Rightarrow> ('s, 'h, 'd, 'n, bool) agent_prog" where
  "executeCommand F m action requestMessage payload =
     (if action = ''start'' then
        p_bind (startAcquisitionLocked F) (\<lambda>_.
        p_seq (set_rt (markCommand m action)) (p_seq (publishSnapshot F) (p_ret True)))
      else if action = ''stop'' then
        p_seq (stopAcquisitionLocked F requestMessage)
       (p_seq (set_rt (\<lambda>r. (markCommand m action r)\<lparr>rt_lastCommandOk := True\<rparr>))
         (p_seq (publishSnapshot F) (p_ret True)))
      else if action = ''divider-status'' \<or> action = ''divider-update-reference'' then
        p_seq (dividerStatusCommand F m action payload) (p_ret True)
      else if action = ''divider-init'' then p_seq (dividerInitCommand F m action) (p_ret True)
      else if action = ''divider-apply'' then p_seq (dividerApplyCommand F m action payload) (p_ret True)
      else p_ret False)"

definition handleControlMessage :: "('s, 'h, 'd, 'n) platform \<Rightarrow> dds_message \<Rightarrow> ('s, 'h, 'd, 'n, unit) agent_prog" where
  "handleControlMessage F m =
     p_bind (decodeCommand F m) (\<lambda>(action, requestMessage, payload).
     p_bind (p_catch (executeCommand F m action requestMessage payload) (\<lambda>e.
         p_seq (set_rt (commandFailed m action (caught_text (pf_poco F) e))) (p_ret False)))
       (\<lambda>returned.
          if returned then p_ret ()
          else p_seq (set_rt (\<lambda>r. if rt_lastCommandSequence r \<noteq> dm_sequence m then markCommand m action r else r))
                 (publishSnapshot F)))"

section \<open>Construction\<close>

definition startupSafety :: "string \<Rightarrow> runtime \<Rightarrow> runtime" where
  "startupSafety safetyMessage r =
     r\<lparr>rt_statusMessage := rt_statusMessage r @ '' '' @ safetyMessage, rt_lastError := safetyMessage, rt_lastCommandOk := False\<rparr>"

definition initializeFromSavedConfigurationLocked :: "('s, 'h, 'd, 'n) platform \<Rightarrow> ('s, 'h, 'd, 'n, unit) agent_prog" where
  "initializeFromSavedConfigurationLocked F =
     (let P = pf_poco F in
      p_seq (\<lambda>a. Some (Inr (), a\<lparr>ag_tick := Suc (ag_tick a),
          ag_rt := (ag_rt a)\<lparr>rt_lastCommandAction := ''startup-init'', rt_lastCommandUpdatedAt := pf_iso F (ag_tick a)\<rparr>\<rparr>))
       (p_catch
         (p_bind (p_get (\<lambda>a. w_file (ag_world a))) (\<lambda>content.
          p_bind (on_world (on_bus (initializeHardwareFromSavedConfiguration P (pf_fl F) (pf_bus F) content))) (\<lambda>s.
          p_seq (updateDividerSnapshotLocked F s)
         (p_seq (set_rt (dividerResult s))
           (let safetyMessage = acquisitionClockSafetyMessage P s in
            if safetyMessage \<noteq> [] then set_rt (startupSafety safetyMessage)
            else
              p_bind (startAcquisitionLocked F) (\<lambda>startPayload.
                set_rt (\<lambda>r. r\<lparr>rt_statusMessage := p_optString P startPayload ''message'' (rt_statusMessage r),
                  rt_lastError := p_optString P startPayload ''lastError'' (rt_lastError r),
                  rt_lastCommandOk := p_optBool P startPayload ''ok'' False\<rparr>)))))))
         (\<lambda>e. case e of
            NotFoundException _ \<Rightarrow>
              set_rt (\<lambda>r. r\<lparr>rt_statusMessage := ''Acquisition agent ready. No saved divider configuration found.'',
                             rt_lastError := [], rt_lastCommandOk := True\<rparr>)
          | _ \<Rightarrow>
              set_rt (\<lambda>r. r\<lparr>rt_statusMessage := ''Acquisition agent startup restore failed: '' @ caught_text P e,
                             rt_lastError := caught_text P e, rt_lastCommandOk := False\<rparr>))))"

definition udpSettingsFromEnv :: "(string \<Rightarrow> exc + int) \<Rightarrow> environment \<Rightarrow> udp_settings" where
  "udpSettingsFromEnv number env =
     \<lparr>us_enabled = parseBoolEnv env ''MYIOT_JNDM123_AGENT_UDP_ENABLE'' True,
      us_host = parseStringEnv env ''MYIOT_JNDM123_AGENT_UDP_HOST'' ''192.168.16.255'',
      us_port = parseIntEnv number env ''MYIOT_JNDM123_AGENT_UDP_PORT'' 50000,
      us_maxFramesPerPacket = parseIntEnv number env ''MYIOT_JNDM123_AGENT_UDP_MAX_FRAMES_PER_PACKET'' 10\<rparr>"

text \<open>The members as the class declares them, with the UDP publisher the constructor makes.\<close>

definition newRuntime :: "poco \<Rightarrow> (udp_settings \<Rightarrow> exc + unit) \<Rightarrow> udp_settings \<Rightarrow> runtime" where
  "newRuntime P open_socket st =
     \<lparr>rt_readerStarted = False, rt_publisherStarted = False, rt_readerShouldRun = False, rt_running = False, rt_shutdown = False,
      rt_totalFrames = 0, rt_droppedFrames = 0, rt_recoveries = 0, rt_lastFrameSequence = 0, rt_queueDepth = 0,
      rt_frameQueue = [], rt_history = emptyHistory, rt_latestSamples = replicate kFrameColumns 0,
      rt_lastDebugWords = replicate 4 0, rt_lastDebugHiLo = replicate 8 0, rt_lastDebugLoHi = replicate 8 0,
      rt_lastDebugSequence = 0, rt_lastDebugCapturedAt = [], rt_debugPublishCount = 0, rt_hasLatestFrame = False,
      rt_lastWaveformPublishAtUs = 0, rt_lastHistorySampleAtUs = 0,
      rt_statusMessage = ''Acquisition agent ready.'', rt_lastError = [], rt_lastCommandOk = True, rt_lastFrameAt = [],
      rt_lastPublishedAt = [], rt_lastCommandAction = ''status'', rt_lastCommandUpdatedAt = [], rt_latestDividerPayloadText = [],
      rt_publisher = newDdsPublisher, rt_commandSubscriber = newDdsSubscriber, rt_lastCommandSequence = 0,
      rt_udpPublisher = Some (newPublisher P open_socket st), rt_udpConfigured = us_enabled st, rt_udpHost = us_host st,
      rt_udpPort = us_port st, rt_udpMaxFramesPerPacket = us_maxFramesPerPacket st,
      rt_udpPacketsSent = 0, rt_udpFramesSent = 0, rt_udpSendErrors = 0, rt_udpLastError = [],
      rt_hardware = \<lparr>hw_memFd = - 1, hw_fifoCtrl = NullPtr, hw_fifoData = NullPtr, hw_gpioInitialized = False\<rparr>\<rparr>"

text \<open>The body of the constructor.\<close>

definition constructRuntime :: "('s, 'h, 'd, 'n) platform \<Rightarrow> int \<Rightarrow> ('s, 'h, 'd, 'n, unit) agent_prog" where
  "constructRuntime F ddsDomain =
     p_seq (\<lambda>a. let (r, (pub, d)) = startPublisher (pf_dds F) ddsDomain kAcquisitionSnapshotTopicName (rt_publisher (ag_rt a), ag_dds a)
                 in Some (r, a\<lparr>ag_dds := d, ag_rt := (ag_rt a)\<lparr>rt_publisher := pub\<rparr>\<rparr>))
    (p_seq (\<lambda>a. let (r, (sub, d)) = startSubscriber (pf_dds F) ddsDomain kAcquisitionControlTopicName (rt_commandSubscriber (ag_rt a), ag_dds a)
                 in Some (r, a\<lparr>ag_dds := d, ag_rt := (ag_rt a)\<lparr>rt_commandSubscriber := sub\<rparr>\<rparr>))
    (p_seq (startThread F)
    (p_seq (set_rt (\<lambda>r. r\<lparr>rt_publisherStarted := True\<rparr>))
    (p_seq (initializeFromSavedConfigurationLocked F)
      (publishSnapshot F)))))"

section \<open>The publisher thread\<close>

text \<open>One frame of a batch; the sample array is reused from frame to frame.\<close>

definition publishFrame ::
    "('s, 'h, 'd, 'n) platform \<Rightarrow> frame_packet \<Rightarrow> i16 list \<times> ('s, 'h, 'd, 'n) agent \<Rightarrow> i16 list \<times> ('s, 'h, 'd, 'n) agent" where
  "publishFrame F packet w =
     (let samples = unpackFrame (fp_words packet) (fst w); a = snd w; r = ag_rt a;
          (udp, net) = (case rt_udpPublisher r of
              None \<Rightarrow> (None, ag_net a)
            | Some p \<Rightarrow>
                (if up_active p
                 then let (p', n') = pushFrame (pf_poco F) (pf_socket F) (fp_sequence packet)
                                       (word_of_int (fp_capturedAtUs packet)) samples (p, ag_net a)
                      in (Some p', n')
                 else (Some p, ag_net a)));
          capturedAt = pf_isoOf F (fp_capturedAtUs packet);
          append = (rt_lastHistorySampleAtUs r = 0 \<or>
                    fp_capturedAtUs packet - rt_lastHistorySampleAtUs r \<ge> kHistorySampleIntervalUs)
      in (samples, a\<lparr>ag_net := net, ag_rt := r\<lparr>rt_udpPublisher := udp,
            rt_latestSamples := samples,
            rt_lastDebugWords := take 4 (fp_words packet),
            rt_lastDebugHiLo := copyHiLoPreview samples,
            rt_lastDebugLoHi := unpackFrameLoHiPreview (fp_words packet),
            rt_lastDebugSequence := fp_sequence packet,
            rt_lastDebugCapturedAt := capturedAt,
            rt_hasLatestFrame := True,
            rt_lastFrameSequence := fp_sequence packet,
            rt_totalFrames := fp_sequence packet + 1,
            rt_lastFrameAt := capturedAt,
            rt_history := (if append then appendHistoryLocked samples (fp_capturedAtUs packet) (rt_history r) else rt_history r),
            rt_lastHistorySampleAtUs := (if append then fp_capturedAtUs packet else rt_lastHistorySampleAtUs r)\<rparr>\<rparr>))"

definition takeFromDepth :: "nat \<Rightarrow> runtime \<Rightarrow> runtime" where
  "takeFromDepth n r =
     r\<lparr>rt_queueDepth := (if rt_queueDepth r \<ge> of_nat n then rt_queueDepth r - of_nat n else 0)\<rparr>"

definition flushUdp :: "('s, 'h, 'd, 'n) platform \<Rightarrow> ('s, 'h, 'd, 'n, unit) agent_prog" where
  "flushUdp F a =
     (case rt_udpPublisher (ag_rt a) of
        None \<Rightarrow> Some (Inr (), a)
      | Some p \<Rightarrow>
          (if \<not> up_active p then Some (Inr (), a)
           else
             let (p', n) = flush (pf_poco F) (pf_socket F) (p, ag_net a); st = up_stats p'
             in Some (Inr (), a\<lparr>ag_net := n, ag_rt := (ag_rt a)\<lparr>rt_udpPublisher := Some p',
                  rt_udpPacketsSent := st_packetsSent st, rt_udpFramesSent := st_framesSent st,
                  rt_udpSendErrors := st_sendErrors st, rt_udpLastError := st_lastError st\<rparr>\<rparr>)))"

text \<open>The body of \<open>publisherLoop\<close> for one batch; the result is the line it logs, if it logs one.\<close>

definition publishBatch :: "('s, 'h, 'd, 'n) platform \<Rightarrow> frame_packet list \<Rightarrow> ('s, 'h, 'd, 'n, string option) agent_prog" where
  "publishBatch F frames =
     p_seq (set_rt (takeFromDepth (length frames)))
    (p_seq (p_modify (\<lambda>a. snd (fold (publishFrame F) frames (replicate kFrameColumns 0, a))))
    (p_seq (set_rt (\<lambda>r. r\<lparr>rt_lastWaveformPublishAtUs := fp_capturedAtUs (last frames),
                            rt_debugPublishCount := rt_debugPublishCount r + 1\<rparr>))
    (p_seq (flushUdp F)
    (p_bind (p_get ag_rt) (\<lambda>r.
     p_seq (publishSnapshot F)
       (p_ret (if rt_debugPublishCount r \<le> 3 \<or> rt_debugPublishCount r mod 100 = 0
               then Some (''Waveform publish debug: frames='' @ show_nat (length frames) @ '' '' @
                 buildDebugSummary (rt_lastDebugSequence r) (rt_lastDebugWords r) (rt_lastDebugHiLo r) (rt_lastDebugLoHi r))
               else None)))))))"

text \<open>One iteration of \<open>publisherLoop\<close>: \<open>None\<close> of the outer option when the loop ends.\<close>

definition publisherIteration :: "('s, 'h, 'd, 'n) platform \<Rightarrow> ('s, 'h, 'd, 'n, string option option) agent_prog" where
  "publisherIteration F a =
     (if rt_shutdown (ag_rt a) \<and> rt_queueDepth (ag_rt a) = 0 then Some (Inr None, a)
      else
        case rt_frameQueue (ag_rt a) of
          [] \<Rightarrow> Some (Inr (Some None), a)
        | frames # rest \<Rightarrow>
            p_seq (set_rt (\<lambda>r. r\<lparr>rt_frameQueue := rest\<rparr>))
              (if frames = [] then p_ret (Some None)
               else p_bind (publishBatch F frames) (\<lambda>line. p_ret (Some line))) a)"

section \<open>The reader thread\<close>

record reader_locals =
  rl_words :: "u32 list"
  rl_batch :: "frame_packet list"
  rl_sequence :: u64
  rl_batchStartedAtUs :: int

definition flushBatch :: "reader_locals \<times> runtime \<Rightarrow> reader_locals \<times> runtime" where
  "flushBatch w =
     (let (l, r) = w; batchSize = (of_nat (length (rl_batch l)) :: u64) in
      if rl_batch l = [] then w
      else if rt_queueDepth r + batchSize > of_nat kMaxPendingFrames
      then (l\<lparr>rl_batch := [], rl_batchStartedAtUs := 0\<rparr>, r\<lparr>rt_droppedFrames := rt_droppedFrames r + batchSize\<rparr>)
      else (l\<lparr>rl_batch := [], rl_batchStartedAtUs := 0\<rparr>,
            r\<lparr>rt_frameQueue := rt_frameQueue r @ [rl_batch l], rt_queueDepth := rt_queueDepth r + batchSize\<rparr>))"

definition flush_locals :: "reader_locals \<times> ('s, 'h, 'd, 'n) agent \<Rightarrow> reader_locals \<times> ('s, 'h, 'd, 'n) agent" where
  "flush_locals w = (let (l, r) = flushBatch (fst w, ag_rt (snd w)) in (l, (snd w)\<lparr>ag_rt := r\<rparr>))"

text \<open>One turn of the inner loop: \<open>True\<close> when it goes on.\<close>

definition readerPoll ::
    "('s, 'h, 'd, 'n) platform \<Rightarrow> reader_locals \<times> ('s, 'h, 'd, 'n) agent \<Rightarrow> (bool \<times> reader_locals \<times> ('s, 'h, 'd, 'n) agent) option" where
  "readerPoll F w =
     (let (l, a) = w; ((code, frame), h) = readOneFramePacket (pf_mmio F) (ag_fifo a); a1 = a\<lparr>ag_fifo := h\<rparr> in
      if code = 0 then Some (False, l, a1)
      else if code < 0 then
        (let a2 = on_rt (\<lambda>r. r\<lparr>rt_recoveries := rt_recoveries r + 1,
                               rt_lastError := ''RX FIFO recovered after a packet error.''\<rparr>) a1
         in case recoverRxFifo (pf_mmio F) (fifo_pointers (rt_hardware (ag_rt a2))) (ag_fifo a2) of
              None \<Rightarrow> None
            | Some h' \<Rightarrow> Some (False, l, a2\<lparr>ag_fifo := h'\<rparr>))
      else
        let words = (case frame of None \<Rightarrow> rl_words l | Some ws \<Rightarrow> ws);
            capturedAt = pf_nowUs F (ag_tick a1);
            packet = \<lparr>fp_sequence = rl_sequence l, fp_capturedAtUs = capturedAt, fp_words = words\<rparr>;
            started = (if rl_batchStartedAtUs l = 0 then capturedAt else rl_batchStartedAtUs l);
            l1 = \<lparr>rl_words = words, rl_batch = rl_batch l @ [packet], rl_sequence = rl_sequence l + 1,
                  rl_batchStartedAtUs = started\<rparr>;
            a2 = a1\<lparr>ag_tick := Suc (ag_tick a1)\<rparr>;
            (l2, a3) = (if capturedAt - started \<ge> kFrameBatchWindowUs then flush_locals (l1, a2) else (l1, a2))
        in Some (True, l2, a3))"

partial_function (option) readerInner ::
    "('s, 'h, 'd, 'n) platform \<Rightarrow> reader_locals \<times> ('s, 'h, 'd, 'n) agent \<Rightarrow> (reader_locals \<times> ('s, 'h, 'd, 'n) agent) option" where
  "readerInner F w =
     (if \<not> (rt_readerShouldRun (ag_rt (snd w)) \<and> \<not> rt_shutdown (ag_rt (snd w))) then Some w
      else case readerPoll F w of
             None \<Rightarrow> None
           | Some (go_on, w') \<Rightarrow> (if go_on then readerInner F w' else Some w'))"

text \<open>One turn of the outer loop, after its sleep.\<close>

definition readerPass ::
    "('s, 'h, 'd, 'n) platform \<Rightarrow> reader_locals \<times> ('s, 'h, 'd, 'n) agent \<Rightarrow> (reader_locals \<times> ('s, 'h, 'd, 'n) agent) option" where
  "readerPass F w =
     (let (l, a) = w; loopNowUs = pf_nowUs F (ag_tick a); a1 = a\<lparr>ag_tick := Suc (ag_tick a)\<rparr> in
      readerInner F
        (if rl_batchStartedAtUs l \<noteq> 0 \<and> loopNowUs - rl_batchStartedAtUs l \<ge> kFrameBatchWindowUs
         then flush_locals (l, a1) else (l, a1)))"

end
