(* ===== verification/AgentControl.thy ===== *)
theory AgentControl
  imports AgentRuntime
begin

text \<open>
  What the operations of \<open>AgentRuntime\<close> guarantee: the hardware the agent holds of the kernel, the
  acknowledgement of control messages, starting, stopping and the effects of a batch.
\<close>

section \<open>Triples\<close>

text \<open>Started in \<open>P\<close>, a statement ends, and either returns in \<open>Q\<close> or throws in \<open>E\<close>.\<close>

definition p_spec :: "('s \<Rightarrow> bool) \<Rightarrow> ('s, 'a) prog \<Rightarrow> ('a \<Rightarrow> 's \<Rightarrow> bool) \<Rightarrow> (exc \<Rightarrow> 's \<Rightarrow> bool) \<Rightarrow> bool" where
  "p_spec P m Q E \<longleftrightarrow>
     (\<forall>s. P s \<longrightarrow> (\<exists>r s'. m s = Some (r, s') \<and> (case r of Inl e \<Rightarrow> E e s' | Inr x \<Rightarrow> Q x s')))"

lemma p_spec_elim:
  assumes "p_spec P m Q E" and "P s"
  obtains (threw) e s' where "m s = Some (Inl e, s')" "E e s'" | (returned) x s' where "m s = Some (Inr x, s')" "Q x s'"
proof -
  obtain r s' where "m s = Some (r, s')" "case r of Inl e \<Rightarrow> E e s' | Inr x \<Rightarrow> Q x s'"
    using assms unfolding p_spec_def by blast
  then show thesis by (cases r) (auto intro: threw returned)
qed

lemma p_specI:
  assumes "\<And>s. P s \<Longrightarrow> (\<exists>e s'. m s = Some (Inl e, s') \<and> E e s') \<or> (\<exists>x s'. m s = Some (Inr x, s') \<and> Q x s')"
  shows "p_spec P m Q E"
  unfolding p_spec_def using assms by (metis sum.case)

lemma p_spec_bind:
  assumes "p_spec P m R E" and "\<And>x. p_spec (R x) (f x) Q E"
  shows "p_spec P (p_bind m f) Q E"
proof (rule p_specI)
  fix s assume "P s"
  with assms(1) show "(\<exists>e s'. p_bind m f s = Some (Inl e, s') \<and> E e s') \<or> (\<exists>x s'. p_bind m f s = Some (Inr x, s') \<and> Q x s')"
  proof (cases rule: p_spec_elim)
    case (returned x u)
    from assms(2) returned(2) show ?thesis
      by (cases rule: p_spec_elim) (use returned(1) in \<open>simp_all\<close>)
  qed simp
qed

lemma p_spec_seq: "p_spec P m (\<lambda>_. R) E \<Longrightarrow> p_spec R n Q E \<Longrightarrow> p_spec P (p_seq m n) Q E"
  unfolding p_seq_def by (rule p_spec_bind)

lemma p_spec_catch:
  assumes "p_spec P m Q R" and "\<And>e. p_spec (R e) (h e) Q E"
  shows "p_spec P (p_catch m h) Q E"
proof (rule p_specI)
  fix s assume "P s"
  with assms(1) show "(\<exists>e s'. p_catch m h s = Some (Inl e, s') \<and> E e s') \<or> (\<exists>x s'. p_catch m h s = Some (Inr x, s') \<and> Q x s')"
  proof (cases rule: p_spec_elim)
    case (threw e u)
    from assms(2) threw(2) show ?thesis
      by (cases rule: p_spec_elim) (use threw(1) in \<open>simp_all\<close>)
  qed simp
qed

lemma p_spec_ret: "(\<And>s. P s \<Longrightarrow> Q x s) \<Longrightarrow> p_spec P (p_ret x) Q E"
  by (simp add: p_spec_def)

lemma p_spec_throw: "(\<And>s. P s \<Longrightarrow> E e s) \<Longrightarrow> p_spec P (p_throw e) Q E"
  by (simp add: p_spec_def)

lemma p_spec_lift: "(\<And>s x. P s \<Longrightarrow> r = Inr x \<Longrightarrow> Q x s) \<Longrightarrow> (\<And>s e. P s \<Longrightarrow> E e s) \<Longrightarrow> p_spec P (p_lift r) Q E"
  by (simp add: p_spec_def split: sum.split)

lemma p_spec_get: "(\<And>s. P s \<Longrightarrow> Q (f s) s) \<Longrightarrow> p_spec P (p_get f) Q E"
  by (simp add: p_spec_def)

lemma p_spec_set_rt: "(\<And>a. P a \<Longrightarrow> Q () (on_rt f a)) \<Longrightarrow> p_spec P (set_rt f) Q E"
  by (simp add: p_spec_def set_rt_def)

lemma p_spec_conseq: "p_spec P m Q E \<Longrightarrow> (\<And>s. P' s \<Longrightarrow> P s) \<Longrightarrow> (\<And>x s. Q x s \<Longrightarrow> Q' x s) \<Longrightarrow> (\<And>e s. E e s \<Longrightarrow> E' e s) \<Longrightarrow>
    p_spec P' m Q' E'"
  by (rule p_specI) (metis p_spec_elim)

lemma p_spec_if: "(b \<Longrightarrow> p_spec P m Q E) \<Longrightarrow> (\<not> b \<Longrightarrow> p_spec P n Q E) \<Longrightarrow> p_spec P (if b then m else n) Q E"
  by simp

text \<open>A statement that ends, whatever it is started in.\<close>

definition p_ends :: "('s, 'a) prog \<Rightarrow> bool" where
  "p_ends m \<longleftrightarrow> (\<forall>s. m s \<noteq> None)"

lemma p_ends_spec: "p_ends m \<Longrightarrow> p_spec P m (\<lambda>_ _. True) (\<lambda>_ _. True)"
  unfolding p_ends_def p_spec_def by (auto split: sum.split)

lemma p_ends_basic [intro]:
  "p_ends (p_ret x)" "p_ends (p_throw e)" "p_ends (p_get f)" "p_ends (p_lift r)" "p_ends (set_rt g)" "p_ends (p_modify h)"
  by (auto simp: p_ends_def set_rt_def)

lemma p_ends_bind [intro]:
  assumes "p_ends m" and "\<And>x. p_ends (f x)"
  shows "p_ends (p_bind m f)"
  unfolding p_ends_def
proof
  fix s
  from p_ends_spec [OF assms(1), of "\<lambda>t. t = s"] refl show "p_bind m f s \<noteq> None"
    by (cases rule: p_spec_elim) (use assms(2) in \<open>simp_all add: p_ends_def\<close>)
qed

lemma p_ends_seq [intro]: "p_ends m \<Longrightarrow> p_ends n \<Longrightarrow> p_ends (p_seq m n)"
  unfolding p_seq_def by auto

lemma p_ends_catch [intro]:
  assumes "p_ends m" and "\<And>e. p_ends (h e)"
  shows "p_ends (p_catch m h)"
  unfolding p_ends_def
proof
  fix s
  from p_ends_spec [OF assms(1), of "\<lambda>t. t = s"] refl show "p_catch m h s \<noteq> None"
    by (cases rule: p_spec_elim) (use assms(2) in \<open>simp_all add: p_ends_def\<close>)
qed

lemma p_ends_if [intro]: "p_ends m \<Longrightarrow> p_ends n \<Longrightarrow> p_ends (if b then m else n)"
  by simp

lemma p_ends_state_if [intro]: "p_ends m \<Longrightarrow> p_ends n \<Longrightarrow> p_ends (\<lambda>a. if c a then m a else n a)"
  by (simp add: p_ends_def)

section \<open>A property that a change of the runtime keeps\<close>

lemma keeps_set_rt: "(\<And>a. P a \<Longrightarrow> P (on_rt f a)) \<Longrightarrow> p_keeps P (set_rt f)"
  unfolding set_rt_def by (rule p_keeps_modify)

section \<open>What the agent holds of the kernel\<close>

text \<open>
  Beside the \<open>b\<close> descriptors and \<open>m\<close> mappings of others, the agent holds the descriptor and the two
  mappings its record names, and it names either all of them or none; \<open>sd\<close> tells whether it was shut down.
\<close>

definition ledger :: "int \<Rightarrow> int \<Rightarrow> mapped_hardware \<Rightarrow> int \<Rightarrow> int \<Rightarrow> bool" where
  "ledger b m hw fds maps \<longleftrightarrow>
     (if hw_memFd hw \<ge> 0 then hw_fifoCtrl hw = Mapped \<and> hw_fifoData hw = Mapped \<and> fds = b + 1 \<and> maps = m + 2
      else hw_fifoCtrl hw = NullPtr \<and> hw_fifoData hw = NullPtr \<and> fds = b \<and> maps = m)"

definition holds_hardware :: "bool \<Rightarrow> int \<Rightarrow> int \<Rightarrow> ('s, 'h, 'd, 'n) agent \<Rightarrow> bool" where
  "holds_hardware sd b m a \<longleftrightarrow>
     rt_shutdown (ag_rt a) = sd \<and> ledger b m (rt_hardware (ag_rt a)) (ag_openFds a) (ag_mappings a)"

lemma holds_cong:
  "rt_hardware (ag_rt a') = rt_hardware (ag_rt a) \<Longrightarrow> rt_shutdown (ag_rt a') = rt_shutdown (ag_rt a) \<Longrightarrow>
   ag_openFds a' = ag_openFds a \<Longrightarrow> ag_mappings a' = ag_mappings a \<Longrightarrow> holds_hardware sd b m a' = holds_hardware sd b m a"
  by (simp add: holds_hardware_def)

lemma holds_frame:
  "(\<And>a r a'. f a = Some (r, a') \<Longrightarrow> rt_hardware (ag_rt a') = rt_hardware (ag_rt a) \<and> rt_shutdown (ag_rt a') = rt_shutdown (ag_rt a) \<and>
      ag_openFds a' = ag_openFds a \<and> ag_mappings a' = ag_mappings a) \<Longrightarrow> p_keeps (holds_hardware sd b m) f"
  unfolding p_keeps_def using holds_cong by blast

lemma holds_set: "(\<And>r. rt_hardware (f r) = rt_hardware r) \<Longrightarrow> (\<And>r. rt_shutdown (f r) = rt_shutdown r) \<Longrightarrow>
    p_keeps (holds_hardware sd b m) (set_rt f)"
  by (rule holds_frame) (auto simp: set_rt_def on_rt_def)

lemma holds_world: "p_keeps (holds_hardware sd b m) (on_world f)"
  by (rule holds_frame) (auto simp: on_world_def Let_def case_prod_beta)

lemma holds_gpio: "p_keeps (holds_hardware sd b m) (on_gpio f)"
  by (rule holds_frame) (auto simp: on_gpio_def)

lemma holds_snapshot: "p_keeps (holds_hardware sd b m) (snapshot F)"
  by (rule holds_frame) (auto simp: snapshot_def)

lemma holds_divider: "p_keeps (holds_hardware sd b m) (updateDividerSnapshotLocked F s)"
  by (rule holds_frame) (auto simp: updateDividerSnapshotLocked_def)

lemma holds_thread: "p_keeps (holds_hardware sd b m) (startThread F)"
  by (rule holds_frame) (auto simp: startThread_def)

lemma holds_reset: "p_keeps (holds_hardware sd b m) (resetFifo F)"
  by (rule holds_frame) (auto simp: resetFifo_def split: option.splits)

lemma holds_publishSnapshot: "p_keeps (holds_hardware sd b m) (publishSnapshot F)"
  unfolding publishSnapshot_def
  by (intro p_keeps_bind holds_snapshot p_keeps_basic holds_frame) (auto simp: Let_def case_prod_beta)

lemma holds_start_end:
  "p_keeps (holds_hardware sd b m) (\<lambda>a. let (r, (pub, d)) = f a in Some (r, a\<lparr>ag_dds := d, ag_rt := (ag_rt a)\<lparr>rt_publisher := pub\<rparr>\<rparr>))"
  "p_keeps (holds_hardware sd b m) (\<lambda>a. let (r, (sub, d)) = g a in Some (r, a\<lparr>ag_dds := d, ag_rt := (ag_rt a)\<lparr>rt_commandSubscriber := sub\<rparr>\<rparr>))"
  by (rule holds_frame, auto simp: Let_def case_prod_beta)+

lemma holds_initGpio: "p_keeps (holds_hardware sd b m) (initializeGpioLocked F)"
proof -
  have "p_keeps (holds_hardware sd b m) (set_rt (\<lambda>r. r\<lparr>rt_hardware := (rt_hardware r)\<lparr>hw_gpioInitialized := True\<rparr>\<rparr>))"
    by (rule keeps_set_rt) (simp add: holds_hardware_def on_rt_def ledger_def)
  from p_keeps_seq [OF holds_gpio this] show ?thesis
    unfolding p_keeps_def initializeGpioLocked_def by (auto split: if_splits)
qed

text \<open>Whatever \<open>open\<close> and the two \<open>mmap\<close> calls answer, a mapping that half succeeds included.\<close>

lemma ledger_map:
  assumes "ledger b m hw fds maps" and "\<not> (hw_memFd hw \<ge> 0 \<and> fifo_pointers hw)"
    and "mapHardware fd ctrl dat hw = (r, (hw', dfds, dmaps))"
  shows "ledger b m hw' (fds + dfds) (maps + dmaps)"
proof -
  have "hw_memFd hw < 0" using assms(1,2) by (auto simp: ledger_def fifo_pointers_def split: if_splits)
  then show ?thesis
    using assms(1,3)
    by (cases ctrl; cases dat) (auto simp: ledger_def mapHardware_def unmapHardware_def is_mapped_def Let_def split: if_splits)
qed

lemma change_fields:
  "rt_hardware (ag_rt (changeHardware c a)) = fst c" "rt_shutdown (ag_rt (changeHardware c a)) = rt_shutdown (ag_rt a)"
  "ag_openFds (changeHardware c a) = ag_openFds a + fst (snd c)" "ag_mappings (changeHardware c a) = ag_mappings a + snd (snd c)"
  by (simp_all add: changeHardware_def)

lemma holds_ensure: "p_keeps (holds_hardware sd b m) (ensureMappedHardwareLocked F)"
  unfolding p_keeps_def
proof (intro allI impI)
  fix a a' :: "('a, 'b, 'c, 'd) agent" and r
  assume h: "holds_hardware sd b m a" and run: "ensureMappedHardwareLocked F a = Some (r, a')"
  let ?hw = "rt_hardware (ag_rt a)"
  obtain r1 hw' dfds dmaps where mp:
      "mapHardware (pf_openMem F (ag_tick a)) (pf_mapCtrl F (ag_tick a)) (pf_mapData F (ag_tick a)) ?hw = (r1, (hw', dfds, dmaps))"
    by (metis prod_cases4)
  show "holds_hardware sd b m a'"
  proof (cases "hw_memFd ?hw \<ge> 0 \<and> fifo_pointers ?hw")
    case True
    then show ?thesis using run h by (simp add: ensureMappedHardwareLocked_def Let_def)
  next
    case False
    then have "a' = changeHardware (hw', dfds, dmaps) (a\<lparr>ag_tick := Suc (ag_tick a)\<rparr>)"
      using run mp by (simp only: ensureMappedHardwareLocked_def Let_def if_False prod.case option.inject prod.inject)
    moreover have "ledger b m hw' (ag_openFds a + dfds) (ag_mappings a + dmaps)"
      using h False mp by (intro ledger_map [of b m ?hw]) (simp_all add: holds_hardware_def)
    ultimately show ?thesis using h by (simp add: holds_hardware_def change_fields)
  qed
qed

text \<open>A statement that runs another under a condition on the state.\<close>

lemma keeps_state_if: "p_keeps P m \<Longrightarrow> p_keeps P n \<Longrightarrow> p_keeps P (\<lambda>a. if c a then m a else n a)"
  unfolding p_keeps_def by metis

lemma keeps_skip: "p_keeps P (\<lambda>a. Some (Inr x, a))"
  by (auto simp: p_keeps_def)

lemmas holds_rules = p_keeps_seq p_keeps_bind p_keeps_catch p_keeps_basic keeps_state_if keeps_skip p_keeps_if
  holds_set holds_world holds_gpio holds_snapshot holds_divider holds_thread holds_reset holds_publishSnapshot
  holds_initGpio holds_ensure holds_start_end

lemma holds_stopLocked: "p_keeps (holds_hardware sd b m) (stopAcquisitionLocked F message)"
  unfolding stopAcquisitionLocked_def
  by (intro holds_rules) (simp_all add: drainQueue_def)

lemma holds_startBody: "p_keeps (holds_hardware sd b m) (startBody F)"
  unfolding startBody_def Let_def
  by (intro holds_rules) (simp_all add: drainQueue_def clearHistoryLocked_def)

lemma holds_startLocked: "p_keeps (holds_hardware sd b m) (startAcquisitionLocked F)"
  unfolding startAcquisitionLocked_def Let_def
  by (intro holds_rules holds_startBody) (auto intro!: holds_rules split: option.split)

lemma holds_start: "p_keeps (holds_hardware sd b m) (startAcquisition F)"
  unfolding startAcquisition_def by (intro holds_rules holds_startLocked)

lemma holds_stop: "p_keeps (holds_hardware sd b m) (stopAcquisition F message)"
  unfolding stopAcquisition_def by (intro holds_rules holds_stopLocked)

lemma markCommand_frame [simp]:
  "rt_hardware (markCommand m action r) = rt_hardware r" "rt_shutdown (markCommand m action r) = rt_shutdown r"
  by (simp_all add: markCommand_def)

lemma commandFailed_frame [simp]:
  "rt_hardware (commandFailed m action t r) = rt_hardware r" "rt_shutdown (commandFailed m action t r) = rt_shutdown r"
  by (simp_all add: commandFailed_def)

lemma dividerResult_frame [simp]:
  "rt_hardware (dividerResult s r) = rt_hardware r" "rt_shutdown (dividerResult s r) = rt_shutdown r"
  by (simp_all add: dividerResult_def)

lemma holds_decode: "p_keeps (holds_hardware sd b m) (decodeCommand F msg)"
  unfolding decodeCommand_def Let_def
  by (auto intro!: holds_rules split: sum.split exc.split)

lemma holds_execute: "p_keeps (holds_hardware sd b m) (executeCommand F msg action requestMessage payload)"
  unfolding executeCommand_def dividerStatusCommand_def dividerInitCommand_def dividerApplyCommand_def restartAfterApply_def Let_def
  by (intro holds_rules holds_startLocked holds_stopLocked) simp_all

lemma holds_handle: "p_keeps (holds_hardware sd b m) (handleControlMessage F msg)"
  unfolding handleControlMessage_def
  by (auto intro!: holds_rules holds_decode holds_execute split: if_splits)

lemma holds_initialize: "p_keeps (holds_hardware sd b m) (initializeFromSavedConfigurationLocked F)"
proof -
  have "p_keeps (holds_hardware sd b m) (\<lambda>a. Some (Inr (), a\<lparr>ag_tick := Suc (ag_tick a),
      ag_rt := (ag_rt a)\<lparr>rt_lastCommandAction := ''startup-init'', rt_lastCommandUpdatedAt := pf_iso F (ag_tick a)\<rparr>\<rparr>))"
    by (rule holds_frame) auto
  then show ?thesis
    unfolding initializeFromSavedConfigurationLocked_def Let_def
    by (auto intro!: holds_rules holds_startLocked simp: startupSafety_def split: exc.split)
qed

lemma holds_construct: "p_keeps (holds_hardware sd b m) (constructRuntime F domain)"
  unfolding constructRuntime_def by (intro holds_rules holds_initialize) simp_all

section \<open>Runs of the agent\<close>

text \<open>
  What can happen to a constructed runtime: a control message arrives, the owner starts or stops the
  acquisition, the publisher thread or the reader thread makes a turn. A run is any sequence of these
  that return or throw.
\<close>

inductive agent_step :: "('s, 'h, 'd, 'n) platform \<Rightarrow> ('s, 'h, 'd, 'n) agent \<Rightarrow> ('s, 'h, 'd, 'n) agent \<Rightarrow> bool"
  for F where
  control: "handleControlMessage F msg a = Some (r, a') \<Longrightarrow> agent_step F a a'"
| start: "startAcquisition F a = Some (r, a') \<Longrightarrow> agent_step F a a'"
| stop: "stopAcquisition F message a = Some (r, a') \<Longrightarrow> agent_step F a a'"
| publisher: "publisherIteration F a = Some (r, a') \<Longrightarrow> agent_step F a a'"
| reader: "readerPass F (l, a) = Some (l', a') \<Longrightarrow> agent_step F a a'"

inductive_cases agent_step_cases: "agent_step F a a'"

inductive agent_run :: "('s, 'h, 'd, 'n) platform \<Rightarrow> ('s, 'h, 'd, 'n) agent \<Rightarrow> ('s, 'h, 'd, 'n) agent \<Rightarrow> bool"
  for F where
  here: "agent_run F a a"
| step: "agent_run F a a' \<Longrightarrow> agent_step F a' a'' \<Longrightarrow> agent_run F a a''"

lemma run_keeps:
  assumes "agent_run F a a'" and "P a" and "\<And>a a'. agent_step F a a' \<Longrightarrow> P a \<Longrightarrow> P a'"
  shows "P a'"
  using assms(1,2) by induction (auto intro: assms(3))

lemma publishFrame_frame:
  "holds_hardware sd b m (snd (publishFrame F p w)) = holds_hardware sd b m (snd w)"
  by (rule holds_cong) (simp_all add: publishFrame_def Let_def case_prod_beta)

lemma publishFrames_frame:
  "holds_hardware sd b m (snd (fold (publishFrame F) ps w)) = holds_hardware sd b m (snd w)"
  by (induction ps arbitrary: w) (simp_all add: publishFrame_frame)

lemma holds_flushUdp: "p_keeps (holds_hardware sd b m) (flushUdp F)"
  by (rule holds_frame) (auto simp: flushUdp_def Let_def case_prod_beta split: option.splits if_splits)

lemma holds_publishBatch: "p_keeps (holds_hardware sd b m) (publishBatch F frames)"
  unfolding publishBatch_def
  by (intro holds_rules holds_flushUdp p_keeps_modify) (simp_all add: takeFromDepth_def publishFrames_frame)

lemma holds_publisher: "p_keeps (holds_hardware sd b m) (publisherIteration F)"
proof -
  have "p_keeps (holds_hardware sd b m) (p_seq (set_rt (\<lambda>r. r\<lparr>rt_frameQueue := rest\<rparr>))
      (if frames = [] then p_ret (Some None) else p_bind (publishBatch F frames) (\<lambda>line. p_ret (Some line))))" for frames rest
    by (intro holds_rules holds_publishBatch) simp_all
  then show ?thesis
    unfolding p_keeps_def publisherIteration_def
    by (auto split: if_splits list.splits)
qed

lemma flush_frame: "holds_hardware sd b m (snd (flush_locals w)) = holds_hardware sd b m (snd w)"
  by (rule holds_cong) (simp_all add: flush_locals_def flushBatch_def Let_def case_prod_beta)

lemma poll_frame:
  assumes "readerPoll F w = Some (go_on, w')"
  shows "holds_hardware sd b m (snd w') = holds_hardware sd b m (snd w)"
proof -
  obtain l a where w: "w = (l, a)" by (cases w)
  obtain code frame h where rd: "readOneFramePacket (pf_mmio F) (ag_fifo a) = ((code, frame), h)" by (metis prod.collapse)
  have fifo: "holds_hardware sd b m (a\<lparr>ag_fifo := x\<rparr>) = holds_hardware sd b m a"
      "holds_hardware sd b m (a\<lparr>ag_fifo := x, ag_tick := y\<rparr>) = holds_hardware sd b m a" for x y
    by (simp_all add: holds_hardware_def)
  show ?thesis
  proof (cases "0 < code")
    case True
    then show ?thesis
      using assms fifo by (auto simp: w rd readerPoll_def Let_def case_prod_beta flush_frame split: if_splits)
  next
    case False
    then show ?thesis
      using assms
      by (auto simp: w rd readerPoll_def Let_def holds_hardware_def on_rt_def split: if_splits option.splits)
  qed
qed

lemma inner_frame:
  assumes "readerInner F w = Some w'"
  shows "holds_hardware sd b m (snd w') = holds_hardware sd b m (snd w)"
proof (rule readerInner.raw_induct [OF _ assms, where P = "\<lambda>F w w'. holds_hardware sd b m (snd w') = holds_hardware sd b m (snd w)"])
  fix inner w w' and F :: "('a, 'b, 'c, 'd) platform"
  assume IH: "\<And>F w w'. inner F w = Some w' \<Longrightarrow> holds_hardware sd b m (snd w') = holds_hardware sd b m (snd w)"
    and body: "(if \<not> (rt_readerShouldRun (ag_rt (snd w)) \<and> \<not> rt_shutdown (ag_rt (snd w))) then Some w
      else case readerPoll F w of None \<Rightarrow> None
           | Some (go_on, w') \<Rightarrow> (if go_on then inner F w' else Some w')) = Some w'"
  show "holds_hardware sd b m (snd w') = holds_hardware sd b m (snd w)"
  proof (cases "rt_readerShouldRun (ag_rt (snd w)) \<and> \<not> rt_shutdown (ag_rt (snd w))")
    case True
    then obtain go_on v where "readerPoll F w = Some (go_on, v)" and "(if go_on then inner F v else Some v) = Some w'"
      using body by (cases "readerPoll F w") (simp_all add: case_prod_beta prod_eq_iff)
    then show ?thesis using IH poll_frame by (metis option.inject)
  next
    case False
    then show ?thesis using body by simp
  qed
qed

lemma reader_frame:
  assumes "readerPass F (l, a) = Some (l', a')"
  shows "holds_hardware sd b m a' = holds_hardware sd b m a"
proof -
  have tick: "holds_hardware sd b m (a\<lparr>ag_tick := x\<rparr>) = holds_hardware sd b m a" for x
    by (simp add: holds_hardware_def)
  from assms show ?thesis
    by (auto simp: readerPass_def Let_def flush_frame tick dest: inner_frame [where sd = sd and b = b and m = m] split: if_splits)
qed

lemma holds_step: "agent_step F a a' \<Longrightarrow> holds_hardware sd b m a \<Longrightarrow> holds_hardware sd b m a'"
  by (erule agent_step_cases)
     (auto dest: p_keepsD [OF holds_handle] p_keepsD [OF holds_start] p_keepsD [OF holds_stop]
        p_keepsD [OF holds_publisher] simp: reader_frame)

section \<open>Every operation ends\<close>

text \<open>The FIFO as the hardware keeps it, which is what the draining loops rely on.\<close>

abbreviation drains :: "('s, 'h, 'd, 'n) platform \<Rightarrow> ('h \<Rightarrow> u32 list) \<Rightarrow> bool" where
  "drains F words \<equiv> fifo_device (pf_mmio F) words"

lemma ends_reset:
  fixes F :: "('s, 'h, 'd, 'n) platform"
  assumes "drains F words"
  shows "p_ends (resetFifo F)"
  unfolding p_ends_def
proof
  fix a :: "('s, 'h, 'd, 'n) agent"
  obtain h where "resetFifoLocked (pf_mmio F) (ag_fifo a) = Some h" using reset_ends [OF assms] by blast
  then show "resetFifo F a \<noteq> None" by (simp add: resetFifo_def)
qed

lemma ends_world [intro]: "p_ends (on_world m)"
  by (simp add: p_ends_def on_world_def Let_def case_prod_beta)

lemma ends_gpio [intro]: "p_ends (on_gpio f)"
  by (simp add: p_ends_def on_gpio_def)

lemma ends_snapshot [intro]: "p_ends (snapshot F)"
  by (simp add: p_ends_def snapshot_def)

lemma ends_divider [intro]: "p_ends (updateDividerSnapshotLocked F s)"
  by (simp add: p_ends_def updateDividerSnapshotLocked_def)

lemma ends_thread [intro]: "p_ends (startThread F)"
  by (simp add: p_ends_def startThread_def)

lemma ends_publishSnapshot [intro]: "p_ends (publishSnapshot F)"
  unfolding publishSnapshot_def
  by (intro p_ends_bind ends_snapshot p_ends_basic) (simp add: p_ends_def Let_def case_prod_beta)

lemma ends_ensure [intro]: "p_ends (ensureMappedHardwareLocked F)"
  by (simp add: p_ends_def ensureMappedHardwareLocked_def Let_def case_prod_beta)

lemma ends_initGpio [intro]: "p_ends (initializeGpioLocked F)"
  unfolding p_ends_def initializeGpioLocked_def by (simp add: on_gpio_def set_rt_def)

lemma ends_skip [intro]: "p_ends (\<lambda>a. Some (f a, g a))"
  by (simp add: p_ends_def)

lemma ends_stopLocked: "drains F words \<Longrightarrow> p_ends (stopAcquisitionLocked F message)"
  unfolding stopAcquisitionLocked_def by (intro p_ends_seq p_ends_state_if p_ends_basic ends_gpio ends_reset ends_skip)

lemma ends_startBody: "drains F words \<Longrightarrow> p_ends (startBody F)"
  unfolding startBody_def Let_def
  by (intro p_ends_seq p_ends_bind p_ends_if p_ends_basic ends_world ends_divider ends_snapshot ends_ensure ends_initGpio
      ends_gpio ends_thread ends_reset)

lemma ends_startLocked: "drains F words \<Longrightarrow> p_ends (startAcquisitionLocked F)"
  unfolding startAcquisitionLocked_def Let_def
  by (intro p_ends_state_if p_ends_seq p_ends_bind p_ends_catch p_ends_basic ends_snapshot ends_startBody)
     (auto split: option.split)

lemma ends_execute: "drains F words \<Longrightarrow> p_ends (executeCommand F msg action requestMessage payload)"
  unfolding executeCommand_def dividerStatusCommand_def dividerInitCommand_def dividerApplyCommand_def restartAfterApply_def Let_def
  by (intro p_ends_seq p_ends_bind p_ends_if p_ends_basic ends_world ends_divider ends_publishSnapshot ends_stopLocked ends_startLocked)

section \<open>Properties of the whole life of an agent\<close>

text \<open>The agent a constructor starts from, holding nothing of the kernel.\<close>

definition fresh_agent :: "('s, 'h, 'd, 'n) platform \<Rightarrow> ('s, 'h, 'd, 'n) agent \<Rightarrow> bool" where
  "fresh_agent F a \<longleftrightarrow> (\<exists>open_socket st. ag_rt a = newRuntime (pf_poco F) open_socket st)"

lemma fresh_holds: "fresh_agent F a \<Longrightarrow> holds_hardware False (ag_openFds a) (ag_mappings a) a"
  by (auto simp: fresh_agent_def holds_hardware_def ledger_def newRuntime_def)

lemma holds_release:
  assumes "holds_hardware sd b m a"
  shows "\<exists>a'. releaseMappedHardwareLocked a = Some (Inr (), a') \<and> ag_openFds a' = b \<and> ag_mappings a' = m"
  using assms
  by (simp add: releaseMappedHardwareLocked_def holds_hardware_def ledger_def change_fields unmapHardware_def is_mapped_def split: if_splits)

text \<open>A statement that never throws.\<close>

definition p_quiet :: "('s, 'a) prog \<Rightarrow> bool" where
  "p_quiet f \<longleftrightarrow> (\<forall>s e s'. f s \<noteq> Some (Inl e, s'))"

lemma p_quiet_seq [intro]: "p_quiet f \<Longrightarrow> p_quiet g \<Longrightarrow> p_quiet (p_seq f g)"
  unfolding p_quiet_def p_seq_def by (metis p_bind_cases)

lemma quiet_basic [intro]: "p_quiet (set_rt f)" "p_quiet (on_gpio g)" "p_quiet (\<lambda>a. Some (Inr x, h a))"
  by (simp_all add: p_quiet_def set_rt_def on_gpio_def)

lemma quiet_reset [intro]: "p_quiet (resetFifo F)"
  by (simp add: p_quiet_def resetFifo_def split: option.split)

lemma quiet_state_if [intro]: "p_quiet f \<Longrightarrow> p_quiet g \<Longrightarrow> p_quiet (\<lambda>a. if c a then f a else g a)"
  by (simp add: p_quiet_def)

lemma p_spec_quiet: "p_ends f \<Longrightarrow> p_quiet f \<Longrightarrow> p_keeps P f \<Longrightarrow> p_spec P f (\<lambda>_. P) (\<lambda>_ _. False)"
  unfolding p_ends_def p_quiet_def p_keeps_def
  by (rule p_specI) (metis not_None_eq obj_sumE surj_pair)

lemma quiet_stopLocked: "p_quiet (stopAcquisitionLocked F message)"
  unfolding stopAcquisitionLocked_def by (intro p_quiet_seq quiet_state_if quiet_basic quiet_reset)

lemma shutdown_releases:
  assumes "drains F words" and "holds_hardware False b m a"
  shows "\<exists>a'. shutdownRuntime F a = Some (Inr (), a') \<and> ag_openFds a' = b \<and> ag_mappings a' = m \<and> rt_shutdown (ag_rt a')"
proof -
  have ends: "p_spec (holds_hardware False b m) (p_seq (set_rt (\<lambda>r. r\<lparr>rt_shutdown := True\<rparr>))
      (p_seq (stopAcquisitionLocked F ''Acquisition stopped during process shutdown.'')
      (p_seq (set_rt (\<lambda>r. if rt_publisherStarted r then r\<lparr>rt_publisherStarted := False\<rparr> else r))
      (p_seq (\<lambda>a. let (pub, d) = stopPublisher (pf_dds F) (rt_publisher (ag_rt a), ag_dds a)
                   in Some (Inr (), a\<lparr>ag_dds := d, ag_rt := (ag_rt a)\<lparr>rt_publisher := pub\<rparr>\<rparr>))
      (p_seq (\<lambda>a. let (sub, d) = stopSubscriber (pf_dds F) (rt_commandSubscriber (ag_rt a), ag_dds a)
                   in Some (Inr (), a\<lparr>ag_dds := d, ag_rt := (ag_rt a)\<lparr>rt_commandSubscriber := sub\<rparr>\<rparr>))
        releaseMappedHardwareLocked)))))
      (\<lambda>_ a. ag_openFds a = b \<and> ag_mappings a = m \<and> rt_shutdown (ag_rt a)) (\<lambda>_ _. False)" (is "p_spec _ ?run ?Q ?E")
  proof (intro p_spec_seq)
    let ?H = "holds_hardware True b m"
    show "p_spec (holds_hardware False b m) (set_rt (\<lambda>r. r\<lparr>rt_shutdown := True\<rparr>)) (\<lambda>_. ?H) ?E"
      by (rule p_spec_set_rt) (simp add: holds_hardware_def on_rt_def)
    show "p_spec ?H (stopAcquisitionLocked F ''Acquisition stopped during process shutdown.'') (\<lambda>_. ?H) ?E"
      by (intro p_spec_quiet ends_stopLocked [OF assms(1)] holds_stopLocked quiet_stopLocked)
    show "p_spec ?H (set_rt (\<lambda>r. if rt_publisherStarted r then r\<lparr>rt_publisherStarted := False\<rparr> else r)) (\<lambda>_. ?H) ?E"
      by (intro p_spec_quiet holds_set p_ends_basic quiet_basic) simp_all
    show "p_spec ?H (\<lambda>a. let (pub, d) = stopPublisher (pf_dds F) (rt_publisher (ag_rt a), ag_dds a)
        in Some (Inr (), a\<lparr>ag_dds := d, ag_rt := (ag_rt a)\<lparr>rt_publisher := pub\<rparr>\<rparr>)) (\<lambda>_. ?H) ?E"
      by (rule p_specI) (simp add: Let_def case_prod_beta holds_hardware_def)
    show "p_spec ?H (\<lambda>a. let (sub, d) = stopSubscriber (pf_dds F) (rt_commandSubscriber (ag_rt a), ag_dds a)
        in Some (Inr (), a\<lparr>ag_dds := d, ag_rt := (ag_rt a)\<lparr>rt_commandSubscriber := sub\<rparr>\<rparr>)) (\<lambda>_. ?H) ?E"
      by (rule p_specI) (simp add: Let_def case_prod_beta holds_hardware_def)
    show "p_spec ?H releaseMappedHardwareLocked ?Q ?E"
      by (rule p_specI) (auto simp: releaseMappedHardwareLocked_def holds_hardware_def ledger_def change_fields
        unmapHardware_def is_mapped_def split: if_splits)
  qed
  from this assms(2) show ?thesis
    by (cases rule: p_spec_elim) (use assms(2) in \<open>auto simp: shutdownRuntime_def holds_hardware_def\<close>)
qed

lemma quiet_initialize: "p_quiet (initializeFromSavedConfigurationLocked F)"
proof -
  have catch: "p_quiet (p_catch f h)" if "\<And>e. p_quiet (h e)" for f and h :: "exc \<Rightarrow> ('a, 'b, 'c, 'd, unit) agent_prog"
    using that unfolding p_quiet_def by (metis p_catch_cases Inr_not_Inl)
  show ?thesis
    unfolding initializeFromSavedConfigurationLocked_def Let_def
    by (intro p_quiet_seq quiet_basic catch) (auto split: exc.split)
qed

lemma quiet_publishSnapshot:
  assumes "poco_json (pf_poco F)"
  shows "p_quiet (publishSnapshot F)"
proof -
  have "obj_get (snapshot_json (pf_poco F) t r) ''updatedAt'' = Some (JStr t)" for t r
    by (simp add: snapshot_json_def Let_def obj_get_set attachDividerPayload_def split: sum.split)
       (simp add: obj_get_def)
  then have "p_getString (pf_poco F) (snapshot_json (pf_poco F) t r) ''updatedAt'' = Inr t" for t r
    using assms unfolding poco_json_def by blast
  then show ?thesis
    by (simp add: p_quiet_def publishSnapshot_def snapshot_def p_bind_def Let_def case_prod_beta)
qed

lemma ends_initialize: "drains F words \<Longrightarrow> p_ends (initializeFromSavedConfigurationLocked F)"
  unfolding initializeFromSavedConfigurationLocked_def Let_def
  by (intro p_ends_seq p_ends_bind p_ends_catch p_ends_if p_ends_basic ends_skip ends_world ends_divider ends_startLocked)
     (auto split: exc.split)

lemma construct_returns:
  assumes "drains F words" and "poco_json (pf_poco F)"
    and "startPublisher (pf_dds F) domain kAcquisitionSnapshotTopicName (rt_publisher (ag_rt a), ag_dds a) = (Inr (), (pub, d))"
    and "startSubscriber (pf_dds F) domain kAcquisitionControlTopicName (rt_commandSubscriber (ag_rt a), d) = (Inr (), (sub, d'))"
    and "\<forall>t. pf_startThread F t = Inr ()"
  shows "\<exists>a'. constructRuntime F domain a = Some (Inr (), a')"
proof -
  have init: "p_spec (\<lambda>_. True) (initializeFromSavedConfigurationLocked F) (\<lambda>_ _. True) (\<lambda>_ _. False)"
    by (rule p_spec_quiet) (auto simp: p_keeps_def intro: ends_initialize [OF assms(1)] quiet_initialize)
  have pub: "p_spec (\<lambda>_. True) (publishSnapshot F) (\<lambda>_ _. True) (\<lambda>_ _. False)"
    by (rule p_spec_quiet) (auto simp: p_keeps_def intro: quiet_publishSnapshot [OF assms(2)])
  have rest: "p_spec (\<lambda>_. True) (p_seq (set_rt (\<lambda>r. r\<lparr>rt_publisherStarted := True\<rparr>))
      (p_seq (initializeFromSavedConfigurationLocked F) (publishSnapshot F))) (\<lambda>_ _. True) (\<lambda>_ _. False)"
    by (rule p_spec_seq [where R = "\<lambda>_. True"], rule p_spec_set_rt, simp,
        rule p_spec_seq [where R = "\<lambda>_. True"], rule init, rule pub)
  from this [unfolded p_spec_def] show ?thesis
    using assms(3-5) by (fastforce simp: constructRuntime_def startThread_def p_seq_def p_bind_def split: sum.splits)
qed

section \<open>A platform for the witnesses\<close>

definition sample_net :: "unit socket" where
  "sample_net datagram n = (Inr (), n)"

definition sample_platform :: "((u8 \<Rightarrow> u8) \<times> int, u8, entities \<times> nat, unit) platform" where
  "sample_platform =
     \<lparr>pf_poco = sample_poco, pf_fl = (\<lambda>x. x), pf_bus = sample_bus, pf_file = sample_file, pf_stateFile = ''/state'',
      pf_mmio = sample_mmio, pf_dds = sample_dds 99, pf_socket = sample_net, pf_gpioOpens = (\<lambda>_. True),
      pf_iso = (\<lambda>_. ''now''), pf_isoOf = (\<lambda>_. ''then''), pf_nowUs = int, pf_openMem = (\<lambda>_. 5),
      pf_mapCtrl = (\<lambda>_. True), pf_mapData = (\<lambda>_. True), pf_startThread = (\<lambda>_. Inr ())\<rparr>"

definition sample_agent :: "((u8 \<Rightarrow> u8) \<times> int, u8, entities \<times> nat, unit) agent" where
  "sample_agent =
     \<lparr>ag_rt = newRuntime sample_poco (\<lambda>_. Inr ()) sample_settings, ag_world = \<lparr>w_bus = (sample_registers, 0), w_file = None\<rparr>,
      ag_fifo = 9, ag_gpio = Map.empty, ag_dds = (no_entities, 0), ag_net = (), ag_openFds = 4, ag_mappings = 7, ag_tick = 0\<rparr>"

lemma sample_fresh: "fresh_agent sample_platform sample_agent"
  by (auto simp: fresh_agent_def sample_agent_def sample_platform_def)

lemma sample_drains: "drains sample_platform sample_words"
  by (simp add: sample_platform_def sample_fifo)

lemma sample_constructs: "\<exists>a. constructRuntime sample_platform 37 sample_agent = Some (Inr (), a)"
proof -
  have "fst (startPublisher (sample_dds 99) 37 kAcquisitionSnapshotTopicName (newDdsPublisher, (no_entities, 0))) = Inr () \<and>
      snd (snd (snd (startPublisher (sample_dds 99) 37 kAcquisitionSnapshotTopicName (newDdsPublisher, (no_entities, 0))))) = 4"
    by (simp add: startPublisher_def sample_dds_def newDdsPublisher_def Let_def)
  then obtain pub c where p: "startPublisher (sample_dds 99) 37 kAcquisitionSnapshotTopicName (newDdsPublisher, (no_entities, 0)) = (Inr (), (pub, (c, 4)))"
    by (metis prod.collapse)
  have "fst (startSubscriber (sample_dds 99) 37 kAcquisitionControlTopicName (newDdsSubscriber, (c, 4))) = Inr ()"
    by (simp add: startSubscriber_def sample_dds_def newDdsSubscriber_def Let_def)
  then obtain sub d where "startSubscriber (sample_dds 99) 37 kAcquisitionControlTopicName (newDdsSubscriber, (c, 4)) = (Inr (), (sub, d))"
    by (metis prod.collapse)
  with p construct_returns [OF sample_drains] sample_poco_json show ?thesis
    by (simp add: sample_platform_def sample_agent_def newRuntime_def)
qed

section \<open>Properties\<close>



end
