(* ===== verification/AgentCommands.thy ===== *)
theory AgentCommands
  imports AgentControl
begin

text \<open>
  What the sender of a control message can rely on: every message is acknowledged by a snapshot, and
  what start, stop and a divider update leave behind, when they succeed and when they fail.
\<close>

section \<open>Acknowledgements\<close>

text \<open>
  The last thing done to the DDS domain was to write a snapshot that carries the sequence number \<open>n\<close>, the
  verdict and the message the runtime now shows (a publisher without a writer writes nothing).
\<close>

definition announced :: "('s, 'h, 'd, 'n) platform \<Rightarrow> u64 \<Rightarrow> ('s, 'h, 'd, 'n) agent \<Rightarrow> bool" where
  "announced F n a \<longleftrightarrow>
     (\<exists>payload m d. obj_get payload ''commandSequence'' = Some (JInt (uint n)) \<and>
        obj_get payload ''ok'' = Some (JBool (rt_lastCommandOk (ag_rt a))) \<and>
        obj_get payload ''running'' = Some (JBool (rt_running (ag_rt a))) \<and>
        (rt_statusMessage (ag_rt a) \<noteq> [] \<longrightarrow> obj_get payload ''message'' = Some (JStr (rt_statusMessage (ag_rt a)))) \<and>
        dm_payload m = p_stringify (pf_poco F) (JObj payload) \<and>
        ag_dds a = (case dp_writer (rt_publisher (ag_rt a)) of None \<Rightarrow> d | Some wr \<Rightarrow> snd (dd_write (pf_dds F) wr m d)))"

definition acknowledged :: "('s, 'h, 'd, 'n) platform \<Rightarrow> u64 \<Rightarrow> ('s, 'h, 'd, 'n) agent \<Rightarrow> bool" where
  "acknowledged F n a \<longleftrightarrow> rt_lastCommandSequence (ag_rt a) = n \<and> announced F n a"

lemma snapshot_members:
  "obj_get (snapshot_json P t r) ''commandSequence'' = Some (JInt (uint (rt_lastCommandSequence r)))"
  "obj_get (snapshot_json P t r) ''ok'' = Some (JBool (rt_lastCommandOk r))"
  "obj_get (snapshot_json P t r) ''running'' = Some (JBool (rt_running r))"
  "rt_statusMessage r \<noteq> [] \<Longrightarrow> obj_get (snapshot_json P t r) ''message'' = Some (JStr (rt_statusMessage r))"
  "obj_get (snapshot_json P t r) ''updatedAt'' = Some (JStr t)"
  by (simp_all add: snapshot_json_def Let_def obj_get_set attachDividerPayload_def split: sum.split) (simp_all add: obj_get_def)

lemma publishMessage_dds:
  "publishMessage D m (pub, d) = (ok, (pub', d')) \<Longrightarrow>
     pub' = pub \<and> d' = (case dp_writer pub of None \<Rightarrow> d | Some wr \<Rightarrow> snd (dd_write D wr m d))"
  by (auto simp: publishMessage_def Let_def case_prod_beta split: option.splits)

lemma publishSnapshot_run:
  assumes "poco_json (pf_poco F)"
  shows "\<exists>a' m d. publishSnapshot F a = Some (Inr (), a') \<and> ag_rt a' = (ag_rt a)\<lparr>rt_lastPublishedAt := pf_iso F (ag_tick a)\<rparr> \<and>
    dm_payload m = p_stringify (pf_poco F) (JObj (snapshot_json (pf_poco F) (pf_iso F (ag_tick a)) (ag_rt a))) \<and>
    ag_dds a' = (case dp_writer (rt_publisher (ag_rt a)) of None \<Rightarrow> d | Some wr \<Rightarrow> snd (dd_write (pf_dds F) wr m d))"
proof -
  let ?p = "snapshot_json (pf_poco F) (pf_iso F (ag_tick a)) (ag_rt a)"
  let ?m = "\<lparr>dm_sequence = rt_lastFrameSequence (ag_rt a), dm_updatedAt = pf_iso F (ag_tick a),
      dm_payload = p_stringify (pf_poco F) (JObj ?p)\<rparr>"
  have get: "p_getString (pf_poco F) ?p ''updatedAt'' = Inr (pf_iso F (ag_tick a))"
    using assms snapshot_members(5) unfolding poco_json_def by blast
  obtain ok pub d where w: "publishMessage (pf_dds F) ?m (rt_publisher (ag_rt a), ag_dds a) = (ok, (pub, d))" by (metis prod.collapse)
  from publishMessage_dds [OF this] have pub: "pub = rt_publisher (ag_rt a)"
    and d: "d = (case dp_writer (rt_publisher (ag_rt a)) of None \<Rightarrow> ag_dds a | Some wr \<Rightarrow> snd (dd_write (pf_dds F) wr ?m (ag_dds a)))"
    by auto
  have "publishSnapshot F a = Some (Inr (), a\<lparr>ag_tick := Suc (ag_tick a), ag_dds := d,
      ag_rt := (ag_rt a)\<lparr>rt_publisher := pub, rt_lastPublishedAt := pf_iso F (ag_tick a)\<rparr>\<rparr>)"
    using get w by (simp add: publishSnapshot_def snapshot_def p_bind_def)
  moreover have "(ag_rt a)\<lparr>rt_publisher := pub, rt_lastPublishedAt := x\<rparr> = (ag_rt a)\<lparr>rt_lastPublishedAt := x\<rparr>" for x
    unfolding pub by simp
  ultimately show ?thesis
    using d by (intro exI [of _ "a\<lparr>ag_tick := Suc (ag_tick a), ag_dds := d,
      ag_rt := (ag_rt a)\<lparr>rt_publisher := pub, rt_lastPublishedAt := pf_iso F (ag_tick a)\<rparr>\<rparr>"] exI [of _ ?m] exI [of _ "ag_dds a"]) simp
qed

lemma publishSnapshot_acknowledges:
  fixes F :: "('s, 'h, 'd, 'n) platform"
  assumes "poco_json (pf_poco F)"
  shows "p_spec (\<lambda>a. rt_lastCommandSequence (ag_rt a) = n) (publishSnapshot F) (\<lambda>_. acknowledged F n) (\<lambda>_ _. False)"
proof (rule p_specI, rule disjI2)
  fix a :: "('s, 'h, 'd, 'n) agent" assume n: "rt_lastCommandSequence (ag_rt a) = n"
  obtain a' m d where run: "publishSnapshot F a = Some (Inr (), a')"
    and rt: "ag_rt a' = (ag_rt a)\<lparr>rt_lastPublishedAt := pf_iso F (ag_tick a)\<rparr>"
    and m: "dm_payload m = p_stringify (pf_poco F) (JObj (snapshot_json (pf_poco F) (pf_iso F (ag_tick a)) (ag_rt a)))"
    and d: "ag_dds a' = (case dp_writer (rt_publisher (ag_rt a)) of None \<Rightarrow> d | Some wr \<Rightarrow> snd (dd_write (pf_dds F) wr m d))"
    using publishSnapshot_run [OF assms] by blast
  have "announced F n a'"
    unfolding announced_def using m d n
    by (intro exI [of _ "snapshot_json (pf_poco F) (pf_iso F (ag_tick a)) (ag_rt a)"] exI [of _ m] exI [of _ d])
       (simp add: rt snapshot_members)
  then show "\<exists>x s'. publishSnapshot F a = Some (Inr x, s') \<and> acknowledged F n s'"
    using run n by (simp add: acknowledged_def rt)
qed

lemma p_spec_keeps: "p_ends f \<Longrightarrow> p_keeps P f \<Longrightarrow> p_spec P f (\<lambda>_. P) (\<lambda>_ _. True)"
  unfolding p_ends_def p_keeps_def
  by (rule p_specI) (metis not_None_eq obj_sumE surj_pair)

text \<open>Fields of the runtime that an operation leaves alone: \<open>v\<close> reads them.\<close>

definition of_rt :: "(runtime \<Rightarrow> 'v) \<Rightarrow> 'v \<Rightarrow> ('s, 'h, 'd, 'n) agent \<Rightarrow> bool" where
  "of_rt v x a \<longleftrightarrow> v (ag_rt a) = x"

lemma of_rt_frame: "(\<And>a r a'. m a = Some (r, a') \<Longrightarrow> v (ag_rt a') = v (ag_rt a)) \<Longrightarrow> p_keeps (of_rt v x) m"
  unfolding p_keeps_def of_rt_def by metis

lemma of_rt_set: "(\<And>r. v (f r) = v r) \<Longrightarrow> p_keeps (of_rt v x) (set_rt f)"
  by (rule keeps_set_rt) (simp add: of_rt_def on_rt_def)

lemma of_rt_world: "p_keeps (of_rt v x) (on_world m)"
  by (rule of_rt_frame) (auto simp: on_world_def Let_def case_prod_beta)

lemma of_rt_gpio: "p_keeps (of_rt v x) (on_gpio f)"
  by (rule of_rt_frame) (auto simp: on_gpio_def)

lemma of_rt_snapshot: "p_keeps (of_rt v x) (snapshot F)"
  by (rule of_rt_frame) (auto simp: snapshot_def)

lemma of_rt_reset: "p_keeps (of_rt v x) (resetFifo F)"
  by (rule of_rt_frame) (auto simp: resetFifo_def split: option.splits)

lemma of_rt_thread: "p_keeps (of_rt v x) (startThread F)"
  by (rule of_rt_frame) (auto simp: startThread_def)

lemma of_rt_divider: "(\<And>r t. v (r\<lparr>rt_latestDividerPayloadText := t\<rparr>) = v r) \<Longrightarrow> p_keeps (of_rt v x) (updateDividerSnapshotLocked F s)"
  by (rule of_rt_frame) (auto simp: updateDividerSnapshotLocked_def)

lemma of_rt_ensure: "(\<And>r h. v (r\<lparr>rt_hardware := h\<rparr>) = v r) \<Longrightarrow> p_keeps (of_rt v x) (ensureMappedHardwareLocked F)"
  by (rule of_rt_frame) (auto simp: ensureMappedHardwareLocked_def Let_def case_prod_beta changeHardware_def split: if_splits)

lemma of_rt_initGpio: "(\<And>r h. v (r\<lparr>rt_hardware := h\<rparr>) = v r) \<Longrightarrow> p_keeps (of_rt v x) (initializeGpioLocked F)"
  by (rule of_rt_frame) (auto simp: initializeGpioLocked_def on_gpio_def set_rt_def on_rt_def split: if_splits)

lemmas of_rt_rules = p_keeps_seq p_keeps_bind p_keeps_catch p_keeps_basic keeps_state_if keeps_skip p_keeps_if
  of_rt_set of_rt_world of_rt_gpio of_rt_snapshot of_rt_reset of_rt_thread of_rt_divider of_rt_ensure of_rt_initGpio

text \<open>Starting and stopping leave the sequence number of the last command alone.\<close>

abbreviation marked :: "u64 \<Rightarrow> ('s, 'h, 'd, 'n) agent \<Rightarrow> bool" where
  "marked n \<equiv> of_rt rt_lastCommandSequence n"

lemma marked_start: "p_keeps (marked n) (startAcquisitionLocked F)"
  unfolding startAcquisitionLocked_def startBody_def Let_def
  by (intro of_rt_rules) (auto intro!: of_rt_rules simp: clearHistoryLocked_def drainQueue_def split: option.split)

lemma marked_set: "(\<And>r. rt_lastCommandSequence (f r) = n) \<Longrightarrow> p_spec P (set_rt f) (\<lambda>_. marked n) E"
  by (rule p_spec_set_rt) (simp add: of_rt_def on_rt_def)

lemma marked_publish:
  assumes "poco_json (pf_poco F)"
  shows "p_spec (marked n) (publishSnapshot F) (\<lambda>_. acknowledged F n) (\<lambda>_ _. True)"
  by (rule p_spec_conseq [OF publishSnapshot_acknowledges [OF assms]]) (simp_all add: of_rt_def)

lemma any_publish:
  assumes "poco_json (pf_poco F)"
  shows "p_spec P (publishSnapshot F) (\<lambda>_ _. True) (\<lambda>_ _. True)"
  by (rule p_ends_spec) (rule ends_publishSnapshot)

lemma spec_seq_true:
  "p_ends f \<Longrightarrow> p_spec (\<lambda>_. True) g Q (\<lambda>_ _. True) \<Longrightarrow> p_spec P (p_seq f g) Q (\<lambda>_ _. True)"
  by (rule p_spec_seq [OF p_ends_spec])

lemma spec_bind_true:
  "p_ends f \<Longrightarrow> (\<And>x. p_spec (\<lambda>_. True) (g x) Q (\<lambda>_ _. True)) \<Longrightarrow> p_spec P (p_bind f g) Q (\<lambda>_ _. True)"
  by (rule p_spec_bind [OF p_ends_spec])

text \<open>After the command was marked: statements that keep the mark, then the snapshot.\<close>

lemma marked_then:
  "p_ends f \<Longrightarrow> p_keeps (marked n) f \<Longrightarrow> p_spec (marked n) g Q (\<lambda>_ _. True) \<Longrightarrow> p_spec (marked n) (p_seq f g) Q (\<lambda>_ _. True)"
  by (rule p_spec_seq [OF p_spec_keeps])

lemma mark_then:
  "(\<And>r. rt_lastCommandSequence (f r) = n) \<Longrightarrow> p_spec (marked n) g Q (\<lambda>_ _. True) \<Longrightarrow> p_spec P (p_seq (set_rt f) g) Q (\<lambda>_ _. True)"
  by (rule p_spec_seq [OF marked_set])

lemma markCommand_sequence [simp]: "rt_lastCommandSequence (markCommand m action r) = dm_sequence m"
  by (simp add: markCommand_def)

lemma markCommand_update_ok [simp]: "rt_lastCommandSequence ((markCommand m action r)\<lparr>rt_lastCommandOk := b\<rparr>) = dm_sequence m"
  by (simp add: markCommand_def)

lemma dividerResult_sequence [simp]: "rt_lastCommandSequence (dividerResult s r) = rt_lastCommandSequence r"
  by (simp add: dividerResult_def)

lemma commandFailed_sequence [simp]: "rt_lastCommandSequence (commandFailed m action t r) = dm_sequence m"
  by (simp add: commandFailed_def)

text \<open>The common end of the three divider commands.\<close>

lemma marked_result:
  assumes "poco_json (pf_poco F)" and "p_ends f" and "p_keeps (marked (dm_sequence m)) f"
  shows "p_spec P (p_seq (set_rt (markCommand m action)) (p_seq (updateDividerSnapshotLocked F s)
      (p_seq (set_rt (dividerResult s)) (p_seq f (publishSnapshot F))))) (\<lambda>_. acknowledged F (dm_sequence m)) (\<lambda>_ _. True)"
  by (rule mark_then, simp, rule marked_then [OF ends_divider], rule of_rt_divider, simp,
      rule marked_then [OF p_ends_basic(5)], rule of_rt_set, simp, rule marked_then [OF assms(2,3)], rule marked_publish [OF assms(1)])

lemma skip_unit: "p_seq (p_ret ()) g = g"
  by (simp add: fun_eq_iff)

lemmas marked_result_only = marked_result [where f = "p_ret ()", unfolded skip_unit, OF _ p_ends_basic(1) p_keeps_basic(1)]

lemma acknowledged_status:
  assumes "poco_json (pf_poco F)"
  shows "p_spec (\<lambda>_. True) (dividerStatusCommand F m action payload) (\<lambda>_. acknowledged F (dm_sequence m)) (\<lambda>_ _. True)"
  unfolding dividerStatusCommand_def
  by (intro spec_bind_true p_ends_basic ends_world, rule spec_seq_true)
     (intro p_ends_if ends_world p_ends_basic, rule marked_result_only [OF assms])

lemma acknowledged_init:
  assumes "poco_json (pf_poco F)"
  shows "p_spec (\<lambda>_. True) (dividerInitCommand F m action) (\<lambda>_. acknowledged F (dm_sequence m)) (\<lambda>_ _. True)"
  unfolding dividerInitCommand_def
  by (intro spec_bind_true p_ends_basic ends_world, rule marked_result_only [OF assms])

text \<open>The restart of the acquisition at the end of \<open>divider-apply\<close>.\<close>

lemma restart_keeps_mark:
  assumes "drains F words"
  shows "p_ends (restartAfterApply F wasRunning s)" and "p_keeps (marked n) (restartAfterApply F wasRunning s)"
  unfolding restartAfterApply_def Let_def
  by (intro p_ends_if p_ends_bind p_ends_basic ends_startLocked [OF assms])
     (intro p_keeps_if of_rt_rules marked_start, simp_all)

lemma acknowledged_apply:
  assumes "drains F words" and "poco_json (pf_poco F)"
  shows "p_spec (\<lambda>_. True) (dividerApplyCommand F m action payload) (\<lambda>_. acknowledged F (dm_sequence m)) (\<lambda>_ _. True)"
  unfolding dividerApplyCommand_def
  by (rule spec_bind_true [OF p_ends_basic(3)], rule spec_seq_true,
      intro p_ends_if p_ends_basic ends_stopLocked [OF assms(1)],
      intro spec_bind_true p_ends_basic ends_world, rule marked_result [OF assms(2) restart_keeps_mark [OF assms(1)]])

lemma acknowledged_execute:
  fixes F :: "('s, 'h, 'd, 'n) platform"
  assumes "drains F words" and "poco_json (pf_poco F)"
  shows "p_spec (\<lambda>_. True) (executeCommand F m action requestMessage payload)
    (\<lambda>returned a. returned \<longrightarrow> acknowledged F (dm_sequence m) a) (\<lambda>_ _. True)"
proof -
  have ret: "p_spec (\<lambda>_. True) (p_seq g (p_ret True)) (\<lambda>returned a. returned \<longrightarrow> acknowledged F (dm_sequence m) a) (\<lambda>_ _. True)"
    if "p_spec (\<lambda>_. True) g (\<lambda>_. acknowledged F (dm_sequence m)) (\<lambda>_ _. True)" for g :: "('s, 'h, 'd, 'n, unit) agent_prog"
    by (rule p_spec_seq [OF that]) (simp add: p_spec_ret)
  have ret2: "p_spec P (p_seq (set_rt f) (p_seq (publishSnapshot F) (p_ret True)))
      (\<lambda>returned a. returned \<longrightarrow> acknowledged F (dm_sequence m) a) (\<lambda>_ _. True)"
    if "\<And>r. rt_lastCommandSequence (f r) = dm_sequence m" for f and P :: "('s, 'h, 'd, 'n) agent \<Rightarrow> bool"
    by (rule mark_then [OF that], rule p_spec_seq [OF marked_publish [OF assms(2)]], rule p_spec_ret) simp
  have start: "p_spec (\<lambda>_. True) (p_bind (startAcquisitionLocked F) (\<lambda>_. p_seq (set_rt (markCommand m action))
      (p_seq (publishSnapshot F) (p_ret True)))) (\<lambda>returned a. returned \<longrightarrow> acknowledged F (dm_sequence m) a) (\<lambda>_ _. True)"
    by (rule spec_bind_true [OF ends_startLocked [OF assms(1)]], rule ret2) simp
  have stop: "p_spec (\<lambda>_. True) (p_seq (stopAcquisitionLocked F requestMessage)
      (p_seq (set_rt (\<lambda>r. (markCommand m action r)\<lparr>rt_lastCommandOk := True\<rparr>)) (p_seq (publishSnapshot F) (p_ret True))))
      (\<lambda>returned a. returned \<longrightarrow> acknowledged F (dm_sequence m) a) (\<lambda>_ _. True)"
    by (rule spec_seq_true [OF ends_stopLocked [OF assms(1)]], rule ret2) simp
  show ?thesis
    unfolding executeCommand_def
    by (intro p_spec_if start stop ret acknowledged_status [OF assms(2)] acknowledged_init [OF assms(2)]
        acknowledged_apply [OF assms] p_spec_ret) simp_all
qed

lemma decode_returns:
  assumes "poco_parser (pf_poco F)"
  shows "p_spec P (decodeCommand F m) (\<lambda>_ _. True) (\<lambda>_ _. False)"
proof (rule p_specI)
  fix a
  show "(\<exists>e s'. decodeCommand F m a = Some (Inl e, s') \<and> False) \<or> (\<exists>x s'. decodeCommand F m a = Some (Inr x, s') \<and> True)"
  proof (cases "p_parse (pf_poco F) (dm_payload m)")
    case (Inl e)
    then show ?thesis
      using assms by (cases e) (auto simp: decodeCommand_def Let_def poco_parser_def set_rt_def)
  qed (simp add: decodeCommand_def Let_def)
qed

section \<open>Properties\<close>



section \<open>Starting\<close>

text \<open>The clock of the saved configuration is read from the chip and is safe.\<close>

definition clock_is_read :: "('s, 'h, 'd, 'n) platform \<Rightarrow> ('s, 'h, 'd, 'n) agent \<Rightarrow> divider_snapshot \<Rightarrow> bool" where
  "clock_is_read F a s \<longleftrightarrow>
     (let content = w_file (ag_world a) in
      case resolvePreferredReferenceClockHz (pf_poco F) content [] of
        Inl _ \<Rightarrow> False
      | Inr hz \<Rightarrow> fst (readDividerStatus (pf_poco F) (pf_fl F) (pf_bus F)
                       (resolvePreferredDevicePath (pf_poco F) content []) hz (w_bus (ag_world a))) = Inr s)"

lemma start_reads_clock:
  assumes "clock_is_read F a s"
  obtains hz b where "resolvePreferredReferenceClockHz (pf_poco F) (w_file (ag_world a)) [] = Inr hz"
    and "on_world (on_bus (readDividerStatus (pf_poco F) (pf_fl F) (pf_bus F)
        (resolvePreferredDevicePath (pf_poco F) (w_file (ag_world a)) []) hz)) a = Some (Inr s, a\<lparr>ag_world := (ag_world a)\<lparr>w_bus := b\<rparr>\<rparr>)"
proof -
  obtain hz where hz: "resolvePreferredReferenceClockHz (pf_poco F) (w_file (ag_world a)) [] = Inr hz"
    using assms by (auto simp: clock_is_read_def Let_def split: sum.splits)
  let ?read = "readDividerStatus (pf_poco F) (pf_fl F) (pf_bus F) (resolvePreferredDevicePath (pf_poco F) (w_file (ag_world a)) []) hz (w_bus (ag_world a))"
  obtain b where "?read = (Inr s, b)"
    using assms hz by (cases ?read) (simp add: clock_is_read_def Let_def)
  then show thesis using hz by (intro that [of hz b]) (simp_all add: on_world_def on_bus_def)
qed

lemma unsafe_body:
  assumes "clock_is_read F a s" and "acquisitionClockSafetyMessage (pf_poco F) s \<noteq> []"
  shows "\<exists>a' payload. startBody F a = Some (Inr (Some payload), a') \<and>
    ag_fifo a' = ag_fifo a \<and> ag_gpio a' = ag_gpio a \<and> ag_openFds a' = ag_openFds a \<and> ag_mappings a' = ag_mappings a \<and>
    rt_running (ag_rt a') = rt_running (ag_rt a) \<and> rt_readerShouldRun (ag_rt a') = rt_readerShouldRun (ag_rt a) \<and>
    rt_statusMessage (ag_rt a') = acquisitionClockSafetyMessage (pf_poco F) s \<and> \<not> rt_lastCommandOk (ag_rt a') \<and>
    obj_get payload ''ok'' = Some (JBool False) \<and> obj_get payload ''message'' = Some (JStr (acquisitionClockSafetyMessage (pf_poco F) s))"
proof -
  obtain hz b where "resolvePreferredReferenceClockHz (pf_poco F) (w_file (ag_world a)) [] = Inr hz"
    and "on_world (on_bus (readDividerStatus (pf_poco F) (pf_fl F) (pf_bus F)
        (resolvePreferredDevicePath (pf_poco F) (w_file (ag_world a)) []) hz)) a = Some (Inr s, a\<lparr>ag_world := (ag_world a)\<lparr>w_bus := b\<rparr>\<rparr>)"
    using assms(1) by (rule start_reads_clock)
  then show ?thesis
    using assms(2) by (simp add: startBody_def Let_def updateDividerSnapshotLocked_def set_rt_def on_rt_def snapshot_def obj_get_set)
qed

text \<open>Nothing is queued or counted, and the FIFO is empty.\<close>

definition cleared :: "('h \<Rightarrow> u32 list) \<Rightarrow> ('s, 'h, 'd, 'n) agent \<Rightarrow> bool" where
  "cleared words a \<longleftrightarrow>
     words (ag_fifo a) = [] \<and> rt_frameQueue (ag_rt a) = [] \<and> rt_queueDepth (ag_rt a) = 0 \<and> rt_totalFrames (ag_rt a) = 0 \<and>
     rt_droppedFrames (ag_rt a) = 0 \<and> rt_recoveries (ag_rt a) = 0 \<and> h_timelineUs (rt_history (ag_rt a)) = []"

text \<open>The reset line is low and the start lines of all six converters are high.\<close>

definition converters_on :: "sysfs \<Rightarrow> bool" where
  "converters_on fs \<longleftrightarrow> line kGpioReset fs = Some ''0'' \<and> (\<forall>chip < kAd7606Count. line (kGpioMaskStart + int chip) fs = Some ''1'')"

definition converters_off :: "sysfs \<Rightarrow> bool" where
  "converters_off fs \<longleftrightarrow> line kGpioReset fs = Some ''1'' \<and> (\<forall>chip < kAd7606Count. line (kGpioMaskStart + int chip) fs = Some ''0'')"

definition hardware_works :: "('s, 'h, 'd, 'n) platform \<Rightarrow> ('h \<Rightarrow> u32 list) \<Rightarrow> bool" where
  "hardware_works F words \<longleftrightarrow>
     fifo_device (pf_mmio F) words \<and> (\<forall>p. pf_gpioOpens F p) \<and> (\<forall>t. 0 \<le> pf_openMem F t \<and> pf_mapCtrl F t \<and> pf_mapData F t)"

lemma started_lines:
  assumes "\<forall>p. opens p"
  shows "converters_on (startAdcLocked opens fs)" and "converters_off (stopAdcLocked opens fs)"
proof -
  have line: "line gpio (startAdcLocked opens fs) =
      (if gpio = 968 then Some ''0'' else if 976 \<le> gpio \<and> gpio < 982 then Some ''1'' else line gpio fs) \<and>
    line gpio (stopAdcLocked opens fs) =
      (if gpio = 968 then Some ''1'' else if 976 \<le> gpio \<and> gpio < 982 then Some ''0'' else line gpio fs)" if "0 \<le> gpio" for gpio
    using assms that
    by (simp add: startAdcLocked_def stopAdcLocked_def line_write each_chip_line kGpioReset_def activeMaskValue_def kMaskStartActiveLow_def)
  then show "converters_on (startAdcLocked opens fs)" and "converters_off (stopAdcLocked opens fs)"
    by (simp_all add: converters_on_def converters_off_def kGpioReset_def kGpioMaskStart_def kAd7606Count_def)
qed

text \<open>The part of \<open>startBody\<close> behind the clock check.\<close>

abbreviation idle :: "('s, 'h, 'd, 'n) agent \<Rightarrow> bool" where
  "idle \<equiv> of_rt rt_running False"

lemma idle_set: "(\<And>r. rt_running (f r) = rt_running r) \<Longrightarrow> p_spec idle (set_rt f) (\<lambda>_. idle) E"
  by (rule p_spec_set_rt) (simp add: of_rt_def on_rt_def)

lemma idle_ensure:
  assumes "hardware_works F words"
  shows "p_spec idle (ensureMappedHardwareLocked F) (\<lambda>_. idle) E"
proof (rule p_specI, rule disjI2)
  have "0 \<le> pf_openMem F t" "pf_mapCtrl F t" "pf_mapData F t" for t
    using assms by (simp_all add: hardware_works_def)
  moreover from this(1) have "\<not> pf_openMem F t < 0" for t by (simp add: not_less)
  ultimately show "\<exists>x s'. ensureMappedHardwareLocked F s = Some (Inr x, s') \<and> idle s'" if "idle s" for s
    using that by (simp add: ensureMappedHardwareLocked_def Let_def mapHardware_def changeHardware_def of_rt_def)
qed

lemma idle_initGpio: "p_spec idle (initializeGpioLocked F) (\<lambda>_. idle) E"
  by (rule p_specI) (auto simp: initializeGpioLocked_def on_gpio_def set_rt_def on_rt_def of_rt_def)

lemma idle_gpio: "p_spec idle (on_gpio f) (\<lambda>_. idle) E"
  by (rule p_specI) (auto simp: on_gpio_def of_rt_def)

lemma idle_reset:
  fixes F :: "('s, 'h, 'd, 'n) platform"
  assumes "hardware_works F words"
  shows "p_spec idle (resetFifo F) (\<lambda>_ a. idle a \<and> words (ag_fifo a) = []) E"
proof (rule p_specI, rule disjI2)
  fix a :: "('s, 'h, 'd, 'n) agent" assume "idle a"
  moreover obtain h where "resetFifoLocked (pf_mmio F) (ag_fifo a) = Some h \<and> words h = []"
    using reset_ends [of "pf_mmio F" words "ag_fifo a"] assms by (auto simp: hardware_works_def)
  ultimately show "\<exists>x s'. resetFifo F a = Some (Inr x, s') \<and> idle s' \<and> words (ag_fifo s') = []"
    by (simp add: resetFifo_def of_rt_def)
qed

text \<open>The state in which the converters run and the reader may start.\<close>

definition reader_ready :: "('h \<Rightarrow> u32 list) \<Rightarrow> ('s, 'h, 'd, 'n) agent \<Rightarrow> bool" where
  "reader_ready words a \<longleftrightarrow> cleared words a \<and> converters_on (ag_gpio a)"

lemma start_tail:
  fixes F :: "('s, 'h, 'd, 'n) platform"
  assumes "hardware_works F words" and "\<forall>t. pf_startThread F t = started"
  shows "p_spec idle
    (p_seq (ensureMappedHardwareLocked F)
    (p_seq (initializeGpioLocked F)
    (p_seq (on_gpio (stopAdcLocked (pf_gpioOpens F)))
    (p_seq (resetFifo F)
    (p_seq (set_rt clearHistoryLocked)
    (p_seq (set_rt drainQueue)
    (p_seq (set_rt (\<lambda>r. r\<lparr>rt_readerShouldRun := True\<rparr>))
    (p_seq (on_gpio (startAdcLocked (pf_gpioOpens F)))
    (p_seq (startThread F)
    (p_seq (set_rt (\<lambda>r. r\<lparr>rt_readerStarted := True, rt_running := True, rt_statusMessage := ''Acquisition started.'',
                         rt_lastError := [], rt_lastCommandOk := True\<rparr>))
      (p_ret None)))))))))))
    (\<lambda>(early :: (string \<times> json) list option) a. early = None \<and> started = Inr () \<and> reader_ready words a \<and> rt_running (ag_rt a) \<and> rt_readerShouldRun (ag_rt a) \<and>
       rt_lastCommandOk (ag_rt a))
    (\<lambda>e a. started = Inl e \<and> reader_ready words a \<and> idle a)" (is "p_spec _ _ ?Q ?E")
proof -
  have lines: "converters_on (startAdcLocked (pf_gpioOpens F) fs)" for fs
    using assms(1) started_lines by (simp add: hardware_works_def)
  note simps = set_rt_def on_rt_def of_rt_def cleared_def reader_ready_def
  have clear: "p_spec (\<lambda>a. idle a \<and> words (ag_fifo a) = []) (set_rt clearHistoryLocked)
      (\<lambda>_ a. idle a \<and> cleared words (on_rt drainQueue a)) ?E"
    by (rule p_specI) (simp add: simps clearHistoryLocked_def drainQueue_def)
  have drain: "p_spec (\<lambda>a. idle a \<and> cleared words (on_rt drainQueue a)) (set_rt drainQueue) (\<lambda>_ a. idle a \<and> cleared words a) ?E"
    by (rule p_specI) (simp add: simps drainQueue_def)
  have arm: "p_spec (\<lambda>a. idle a \<and> cleared words a) (set_rt (\<lambda>r. r\<lparr>rt_readerShouldRun := True\<rparr>))
      (\<lambda>_ a. idle a \<and> cleared words a \<and> rt_readerShouldRun (ag_rt a)) ?E"
    by (rule p_specI) (simp add: simps)
  have power: "p_spec (\<lambda>a. idle a \<and> cleared words a \<and> rt_readerShouldRun (ag_rt a)) (on_gpio (startAdcLocked (pf_gpioOpens F)))
      (\<lambda>_ a. idle a \<and> reader_ready words a \<and> rt_readerShouldRun (ag_rt a)) ?E"
    by (rule p_specI) (simp add: simps on_gpio_def lines)
  have thread: "p_spec (\<lambda>a. idle a \<and> reader_ready words a \<and> rt_readerShouldRun (ag_rt a)) (startThread F)
      (\<lambda>_ a. started = Inr () \<and> reader_ready words a \<and> rt_readerShouldRun (ag_rt a)) ?E"
    by (rule p_specI, cases started) (simp_all add: simps startThread_def assms(2))
  have run: "p_spec (\<lambda>a. started = Inr () \<and> reader_ready words a \<and> rt_readerShouldRun (ag_rt a))
      (p_seq (set_rt (\<lambda>r. r\<lparr>rt_readerStarted := True, rt_running := True, rt_statusMessage := ''Acquisition started.'',
         rt_lastError := [], rt_lastCommandOk := True\<rparr>)) (p_ret None)) ?Q ?E"
    by (rule p_specI) (simp add: simps)
  show ?thesis
    by (rule p_spec_seq [OF idle_ensure [OF assms(1)]], rule p_spec_seq [OF idle_initGpio], rule p_spec_seq [OF idle_gpio],
        rule p_spec_seq [OF idle_reset [OF assms(1)]], rule p_spec_seq [OF clear], rule p_spec_seq [OF drain],
        rule p_spec_seq [OF arm], rule p_spec_seq [OF power], rule p_spec_seq [OF thread], rule run)
qed

lemma safe_body:
  fixes F :: "('s, 'h, 'd, 'n) platform"
  assumes "hardware_works F words" and "\<forall>t. pf_startThread F t = started"
    and "clock_is_read F a s" and "acquisitionClockSafetyMessage (pf_poco F) s = []" and "\<not> rt_running (ag_rt a)"
  shows "(\<exists>e a'. startBody F a = Some (Inl e, a') \<and> started = Inl e \<and> reader_ready words a' \<and> \<not> rt_running (ag_rt a')) \<or>
    (\<exists>a'. startBody F a = Some (Inr None, a') \<and> started = Inr () \<and> reader_ready words a' \<and> rt_running (ag_rt a') \<and>
       rt_readerShouldRun (ag_rt a') \<and> rt_lastCommandOk (ag_rt a'))"
proof -
  obtain hz b where hz: "resolvePreferredReferenceClockHz (pf_poco F) (w_file (ag_world a)) [] = Inr hz"
    and rd: "on_world (on_bus (readDividerStatus (pf_poco F) (pf_fl F) (pf_bus F)
        (resolvePreferredDevicePath (pf_poco F) (w_file (ag_world a)) []) hz)) a = Some (Inr s, a\<lparr>ag_world := (ag_world a)\<lparr>w_bus := b\<rparr>\<rparr>)"
    using assms(3) by (rule start_reads_clock)
  obtain a1 where up: "updateDividerSnapshotLocked F s (a\<lparr>ag_world := (ag_world a)\<lparr>w_bus := b\<rparr>\<rparr>) = Some (Inr (), a1)" and "idle a1"
    using assms(5) by (simp add: updateDividerSnapshotLocked_def of_rt_def)
  from start_tail [OF assms(1,2)] \<open>idle a1\<close> show ?thesis
  proof (cases rule: p_spec_elim)
    case (threw e u)
    then show ?thesis using hz rd up assms(4)
      by (intro disjI1 exI [of _ e] exI [of _ u]) (simp add: startBody_def Let_def of_rt_def)
  next
    case (returned x u)
    then show ?thesis using hz rd up assms(4)
      by (intro disjI2 exI [of _ u]) (simp add: startBody_def Let_def)
  qed
qed

text \<open>C23: Started with a safe clock and working hardware, an idle agent empties the FIFO and its queue, clears its counters and history,
  switches all six converters on and reports success - if the reader thread starts. If it does not, the start is reported as
  failed and the acquisition does not run, but the converters are left switched on and sampling.\<close>

theorem starting_the_acquisition:
  assumes "hardware_works F words" and "\<forall>t. pf_startThread F t = started"
    and "clock_is_read F a s" and "acquisitionClockSafetyMessage (pf_poco F) s = []" and "\<not> rt_running (ag_rt a)"
  shows "\<exists>payload a'. startAcquisitionLocked F a = Some (Inr payload, a') \<and>
    obj_get payload ''ok'' = Some (JBool (started = Inr ())) \<and>
    rt_running (ag_rt a') = (started = Inr ()) \<and> rt_readerShouldRun (ag_rt a') = (started = Inr ()) \<and>
    cleared words a' \<and> converters_on (ag_gpio a')"
  using safe_body [OF assms]
proof
  assume "\<exists>e a'. startBody F a = Some (Inl e, a') \<and> started = Inl e \<and> reader_ready words a' \<and> \<not> rt_running (ag_rt a')"
  then show ?thesis
    using assms(5) by (auto simp: startAcquisitionLocked_def set_rt_def on_rt_def snapshot_def reader_ready_def cleared_def obj_get_set Let_def)
next
  assume "\<exists>a'. startBody F a = Some (Inr None, a') \<and> started = Inr () \<and> reader_ready words a' \<and> rt_running (ag_rt a') \<and>
       rt_readerShouldRun (ag_rt a') \<and> rt_lastCommandOk (ag_rt a')"
  then show ?thesis
    using assms(5) by (auto simp: startAcquisitionLocked_def set_rt_def on_rt_def snapshot_def reader_ready_def cleared_def obj_get_set Let_def)
qed

text \<open>When the clock read back from the chip is unsafe, a start is refused with the reason: the acquisition does not run,
  neither the converters' lines nor the FIFO nor the kernel's mappings are touched.\<close>

theorem unsafe_clock_never_starts:
  assumes "clock_is_read F a s" and "acquisitionClockSafetyMessage (pf_poco F) s \<noteq> []" and "\<not> rt_running (ag_rt a)"
  shows "\<exists>payload a'. startAcquisitionLocked F a = Some (Inr payload, a') \<and>
    obj_get payload ''ok'' = Some (JBool False) \<and> obj_get payload ''message'' = Some (JStr (acquisitionClockSafetyMessage (pf_poco F) s)) \<and>
    \<not> rt_running (ag_rt a') \<and> rt_statusMessage (ag_rt a') = acquisitionClockSafetyMessage (pf_poco F) s \<and> \<not> rt_lastCommandOk (ag_rt a') \<and>
    ag_gpio a' = ag_gpio a \<and> ag_fifo a' = ag_fifo a \<and> ag_openFds a' = ag_openFds a \<and> ag_mappings a' = ag_mappings a"
  using unsafe_body [OF assms(1,2)] assms(3) by (auto simp: startAcquisitionLocked_def)

section \<open>Stopping\<close>

definition stopped :: "('h \<Rightarrow> u32 list) \<Rightarrow> ('s, 'h, 'd, 'n) agent \<Rightarrow> bool" where
  "stopped words a \<longleftrightarrow>
     \<not> rt_running (ag_rt a) \<and> \<not> rt_readerShouldRun (ag_rt a) \<and> rt_frameQueue (ag_rt a) = [] \<and> rt_queueDepth (ag_rt a) = 0 \<and>
     (fifo_pointers (rt_hardware (ag_rt a)) \<longrightarrow> converters_off (ag_gpio a) \<and> words (ag_fifo a) = [])"

lemma stopLocked_run:
  fixes F :: "('s, 'h, 'd, 'n) platform"
  assumes "fifo_device (pf_mmio F) words" and "\<forall>p. pf_gpioOpens F p"
  shows "\<exists>a'. stopAcquisitionLocked F message a = Some (Inr (), a') \<and> stopped words a' \<and> ag_world a' = ag_world a \<and>
    rt_statusMessage (ag_rt a') = message \<and> rt_lastCommandOk (ag_rt a') \<and> rt_hardware (ag_rt a') = rt_hardware (ag_rt a)"
proof -
  obtain h where h: "resetFifoLocked (pf_mmio F) (ag_fifo a) = Some h" and "words h = []"
    using reset_ends [OF assms(1), of "ag_fifo a"] by blast
  then show ?thesis
    using started_lines(2) [OF assms(2)]
    by (cases "rt_readerStarted (ag_rt a)"; cases "fifo_pointers (rt_hardware (ag_rt a))")
       (simp_all add: stopAcquisitionLocked_def set_rt_def on_rt_def on_gpio_def resetFifo_def drainQueue_def stopped_def)
qed

lemma publishSnapshot_rest:
  assumes "poco_json (pf_poco F)"
  shows "\<exists>a'. publishSnapshot F a = Some (Inr (), a') \<and> ag_rt a' = (ag_rt a)\<lparr>rt_lastPublishedAt := pf_iso F (ag_tick a)\<rparr> \<and>
    ag_fifo a' = ag_fifo a \<and> ag_gpio a' = ag_gpio a \<and> ag_world a' = ag_world a"
proof -
  obtain a' where run: "publishSnapshot F a = Some (Inr (), a')" and rt: "ag_rt a' = (ag_rt a)\<lparr>rt_lastPublishedAt := pf_iso F (ag_tick a)\<rparr>"
    using publishSnapshot_run [OF assms] by blast
  moreover from run have "ag_fifo a' = ag_fifo a \<and> ag_gpio a' = ag_gpio a \<and> ag_world a' = ag_world a"
    by (auto simp: publishSnapshot_def snapshot_def p_bind_def Let_def case_prod_beta split: sum.splits)
  ultimately show ?thesis by blast
qed

lemma stopped_rt: "stopped words a \<Longrightarrow> ag_rt a' = (ag_rt a)\<lparr>rt_lastPublishedAt := t\<rparr> \<Longrightarrow> ag_fifo a' = ag_fifo a \<Longrightarrow>
    ag_gpio a' = ag_gpio a \<Longrightarrow> stopped words a'"
  by (simp add: stopped_def)



text \<open>A command whose execution throws ends with a snapshot that says so.\<close>

lemma failed_command:
  assumes decode: "decodeCommand F m a = Some (Inr (action, msg, payload), a)"
    and fails: "executeCommand F m action msg payload a = Some (Inl e, a1)"
  shows "handleControlMessage F m a = publishSnapshot F (on_rt (commandFailed m action (caught_text (pf_poco F) e)) a1)"
proof -
  let ?f = "\<lambda>e. p_seq (set_rt (commandFailed m action (caught_text (pf_poco F) e))) (p_ret False)"
  let ?g = "\<lambda>r. if rt_lastCommandSequence r \<noteq> dm_sequence m then markCommand m action r else r"
  define a2 where "a2 = on_rt (commandFailed m action (caught_text (pf_poco F) e)) a1"
  have caught: "p_catch (executeCommand F m action msg payload) ?f a = Some (Inr False, a2)"
    using fails by (simp add: set_rt_def a2_def)
  have unmarked: "set_rt ?g a2 = Some (Inr (), a2)"
    by (simp add: set_rt_def on_rt_def a2_def)
  show ?thesis
    unfolding handleControlMessage_def
    by (simp only: p_bind_run(3) [where m = "decodeCommand F m" and s = a, OF decode] prod.case
      p_bind_run(3) [where m = "p_catch (executeCommand F m action msg payload) ?f" and s = a, OF caught] if_False
      p_seq_run(3) [where m = "set_rt ?g" and s = a2, OF unmarked] a2_def [symmetric])
qed

text \<open>A \<open>divider-apply\<close> message whose outputs are not valid is refused without touching the clock chip or the state file - but only after
  a running acquisition was stopped for it, and it is not started again.\<close>

theorem invalid_apply_stops_acquisition:
  assumes "fifo_device (pf_mmio F) words" and "\<forall>p. pf_gpioOpens F p" and "poco_json (pf_poco F)"
    and "dm_payload m \<noteq> []" and "p_parse (pf_poco F) (dm_payload m) = Inr payload"
    and "p_optString (pf_poco F) payload ''action'' ''status'' = ''divider-apply''" and "parseOutputIndices (pf_poco F) payload = Inl e"
    and "rt_running (ag_rt a)"
  shows "\<exists>a'. handleControlMessage F m a = Some (Inr (), a') \<and> stopped words a' \<and> ag_world a' = ag_world a \<and>
    rt_statusMessage (ag_rt a') = caught_text (pf_poco F) e \<and> \<not> rt_lastCommandOk (ag_rt a')"
proof -
  obtain a1 where a1: "stopAcquisitionLocked F ''Acquisition paused for divider update.'' a = Some (Inr (), a1)" "stopped words a1"
      "ag_world a1 = ag_world a"
    using stopLocked_run [OF assms(1,2)] by blast
  define a2 where "a2 = on_rt (commandFailed m ''divider-apply'' (caught_text (pf_poco F) e)) a1"
  have a2: "rt_lastCommandSequence (ag_rt a2) = dm_sequence m" "stopped words a2" "ag_world a2 = ag_world a"
      "rt_statusMessage (ag_rt a2) = caught_text (pf_poco F) e" "\<not> rt_lastCommandOk (ag_rt a2)"
    using a1 by (simp_all add: a2_def stopped_def on_rt_def commandFailed_def markCommand_def)
  obtain a3 where a3: "publishSnapshot F a2 = Some (Inr (), a3)" "ag_rt a3 = (ag_rt a2)\<lparr>rt_lastPublishedAt := pf_iso F (ag_tick a2)\<rparr>"
      "ag_fifo a3 = ag_fifo a2" "ag_gpio a3 = ag_gpio a2" "ag_world a3 = ag_world a2"
    using publishSnapshot_rest [OF assms(3)] by blast
  obtain msg where decode: "decodeCommand F m a = Some (Inr (''divider-apply'', msg, payload), a)"
    using assms(4,5,6) by (simp add: decodeCommand_def Let_def)
  have "executeCommand F m ''divider-apply'' msg payload a = Some (Inl e, a1)"
    using a1 assms(7,8) by (simp add: executeCommand_def dividerApplyCommand_def)
  then have "handleControlMessage F m a = Some (Inr (), a3)"
    using a3(1) by (simp only: failed_command [OF decode] a2_def)
  moreover have "stopped words a3"
    using stopped_rt [OF a2(2)] a3 by blast
  ultimately show ?thesis
    using a2 a3 by simp
qed

section \<open>Witnesses\<close>

definition sample_agent_with :: "(u8 \<Rightarrow> u8) \<Rightarrow> ((u8 \<Rightarrow> u8) \<times> int, u8, entities \<times> nat, unit) agent" where
  "sample_agent_with registers = sample_agent\<lparr>ag_world := \<lparr>w_bus = (registers, 0), w_file = None\<rparr>\<rparr>"

lemma sample_clock:
  assumes "chip_present registers"
  shows "\<exists>s. clock_is_read sample_platform (sample_agent_with registers) s \<and>
    (acquisitionClockSafetyMessage sample_poco s = [] \<longleftrightarrow>
       (\<forall>i. 0 \<le> i \<and> i < 6 \<and> 0 < chip_divider registers i \<longrightarrow> 1000000 \<le> 100000 * chip_divider registers i))"
proof -
  let ?s = "chip_snapshot sample_poco (\<lambda>x. x) (chip_path kDefaultI2CDevice) 0x6d 1000000 registers"
  have hz: "resolvePreferredReferenceClockHz sample_poco None [] = Inr 1000000" and path: "resolvePreferredDevicePath sample_poco None [] = kDefaultI2CDevice"
    by code_simp+
  have "validateReferenceClockHzOrThrow 1000000 = Inr ()" by (simp add: validateReferenceClock_ok)
  moreover have "chip_present (fst (registers, 0 :: int))" using assms by simp
  ultimately obtain s' where "readDividerStatus sample_poco (\<lambda>x. x) sample_bus kDefaultI2CDevice 1000000 (registers, 0) =
      (Inr (chip_snapshot sample_poco (\<lambda>x. x) (chip_path kDefaultI2CDevice) 0x6d 1000000 (fst (registers, 0 :: int))), s')"
    using sample_register_bus by (metis read_status_of_chip)
  then have "clock_is_read sample_platform (sample_agent_with registers) ?s"
    by (simp add: clock_is_read_def sample_platform_def sample_agent_with_def hz path)
  moreover have "p_format_unsafe sample_poco f n \<noteq> []" for f n by (simp add: sample_poco_def)
  ultimately show ?thesis
    using safety_on_chip [OF rounds_right_id]
    by (intro exI [of _ ?s]) simp
qed

lemma sample_works: "hardware_works sample_platform sample_words"
  by (simp add: hardware_works_def sample_platform_def sample_fifo)

lemma sample_idle: "\<not> rt_running (ag_rt (sample_agent_with registers))"
  by (simp add: sample_agent_with_def sample_agent_def newRuntime_def)

lemma six_outputs: "0 \<le> (i :: int) \<and> i < 6 \<longleftrightarrow> i = 0 \<or> i = 1 \<or> i = 2 \<or> i = 3 \<or> i = 4 \<or> i = 5"
  by auto

lemma starting_the_acquisition_witness:
  "\<exists>payload a'. startAcquisitionLocked sample_platform (sample_agent_with (sample_registers(0x26 := 50))) = Some (Inr payload, a') \<and>
    rt_running (ag_rt a') \<and> converters_on (ag_gpio a')"
proof -
  let ?r = "sample_registers(0x26 := 50)"
  have "chip_present ?r" by (simp add: chip_present_def sample_registers_def kCdce937RegId_def)
  then obtain s where s: "clock_is_read sample_platform (sample_agent_with ?r) s"
    and safe: "acquisitionClockSafetyMessage sample_poco s = [] \<longleftrightarrow>
       (\<forall>i. 0 \<le> i \<and> i < 6 \<and> 0 < chip_divider ?r i \<longrightarrow> 1000000 \<le> 100000 * chip_divider ?r i)"
    using sample_clock by blast
  have "chip_divider ?r i \<ge> 10" if "i = 0 \<or> i = 1 \<or> i = 2 \<or> i = 3 \<or> i = 4 \<or> i = 5" for i
    using that by (auto simp: chip_divider_def pdiv_registers_def sample_registers_def)
  then have "acquisitionClockSafetyMessage (pf_poco sample_platform) s = []"
    unfolding sample_platform_def using safe six_outputs by (auto; fastforce)
  from starting_the_acquisition [OF sample_works _ s this sample_idle, of "Inr ()"] show ?thesis
    by (auto simp: sample_platform_def)
qed

lemma unsafe_clock_never_starts_witness:
  "\<exists>payload a'. startAcquisitionLocked sample_platform (sample_agent_with sample_registers) = Some (Inr payload, a') \<and>
    \<not> rt_running (ag_rt a') \<and> ag_gpio a' = Map.empty"
proof -
  obtain s where s: "clock_is_read sample_platform (sample_agent_with sample_registers) s"
    and safe: "acquisitionClockSafetyMessage sample_poco s = [] \<longleftrightarrow>
       (\<forall>i. 0 \<le> i \<and> i < 6 \<and> 0 < chip_divider sample_registers i \<longrightarrow> 1000000 \<le> 100000 * chip_divider sample_registers i)"
    using sample_clock [OF sample_chip_present] by blast
  have "chip_divider sample_registers 3 = 5" by (simp add: chip_divider_def pdiv_registers_def sample_registers_def)
  then have "acquisitionClockSafetyMessage (pf_poco sample_platform) s \<noteq> []"
    using safe by (auto simp: sample_platform_def intro!: exI [of _ "3 :: int"])
  from unsafe_clock_never_starts [OF s this sample_idle] show ?thesis
    by (auto simp: sample_agent_with_def sample_agent_def)
qed

lemma invalid_apply_stops_acquisition_witness:
  "\<exists>a'. handleControlMessage (sample_platform\<lparr>pf_poco := sample_poco\<lparr>p_parse := \<lambda>t. Inr [(''action'', JStr ''divider-apply'')]\<rparr>\<rparr>)
      \<lparr>dm_sequence = 3, dm_updatedAt = [], dm_payload = ''{}''\<rparr> (on_rt (\<lambda>r. r\<lparr>rt_running := True\<rparr>) sample_agent) = Some (Inr (), a') \<and>
    \<not> rt_running (ag_rt a') \<and> ag_world a' = ag_world sample_agent"
proof -
  let ?P = "sample_poco\<lparr>p_parse := \<lambda>t. Inr [(''action'', JStr ''divider-apply'')]\<rparr>"
  let ?F = "sample_platform\<lparr>pf_poco := ?P\<rparr>" and ?m = "\<lparr>dm_sequence = 3, dm_updatedAt = [], dm_payload = ''{}''\<rparr>"
  have json: "poco_json (pf_poco ?F)" by (simp add: poco_json_def sample_poco_def)
  have dev: "fifo_device (pf_mmio ?F) sample_words" "\<forall>p. pf_gpioOpens ?F p" by (simp_all add: sample_platform_def sample_fifo)
  have "p_optString (pf_poco ?F) [(''action'', JStr ''divider-apply'')] ''action'' ''status'' = ''divider-apply''"
    "parseOutputIndices (pf_poco ?F) [(''action'', JStr ''divider-apply'')] =
      Inl (InvalidArgumentException ''outputIndices must contain at least one output.'')"
    by (simp_all add: parseOutputIndices_def sample_poco_def obj_get_def)
  from invalid_apply_stops_acquisition [OF dev json _ _ this, of ?m "on_rt (\<lambda>r. r\<lparr>rt_running := True\<rparr>) sample_agent"]
  show ?thesis by (auto simp: stopped_def on_rt_def)
qed

end
