(* ===== verification/AgentStream.thy ===== *)
theory AgentStream
  imports AgentCommands
begin

text \<open>
  From the queue to the wire: what publishing a batch does to the UDP stream, the counters and the
  runtime's latest frame.
\<close>

definition frame_samples :: "frame_packet \<Rightarrow> i16 list" where
  "frame_samples p = unpackFrame (fp_words p) (replicate kFrameColumns 0)"

definition push_of :: "frame_packet \<Rightarrow> udp_op" where
  "push_of p = PushFrame (fp_sequence p) (word_of_int (fp_capturedAtUs p)) (frame_samples p)"

definition whole_frame :: "frame_packet \<Rightarrow> bool" where
  "whole_frame p \<longleftrightarrow> length (fp_words p) = kFrameWords"

lemma unpack_forgets:
  assumes "whole_frame p" and "length s = kFrameColumns"
  shows "unpackFrame (fp_words p) s = frame_samples p"
proof (rule nth_equalityI)
  show "length (unpackFrame (fp_words p) s) = length (frame_samples p)"
    using assms by (simp add: frame_samples_def length_unpackFrame)
  fix k assume "k < length (unpackFrame (fp_words p) s)"
  then have "k < 48" using assms by (simp add: length_unpackFrame kFrameColumns_48)
  then have "k div 2 < length (fp_words p)" using assms by (auto simp: whole_frame_def kFrameWords_def)
  with \<open>k < 48\<close> show "unpackFrame (fp_words p) s ! k = frame_samples p ! k"
    using assms by (simp add: frame_samples_def unpackFrame_nth kFrameColumns_48)
qed

lemma push_keeps_active: "up_active (fst (pushFrame P send q t xs w)) = up_active (fst w)"
  by (auto simp: pushFrame_def flushPendingFrames_def sendPacket_def recordError_def Let_def case_prod_beta split: sum.split)

lemma run_keeps_active: "up_active (fst (run_udp P send (map push_of ps) w)) = up_active (fst w)"
  unfolding run_udp_def by (induction ps arbitrary: w) (simp_all add: push_of_def push_keeps_active)

lemma run_udp_Cons: "run_udp P send (op # ops) w = run_udp P send ops (udp_step P send op w)"
  by (simp add: run_udp_def)

lemma run_udp_append: "run_udp P send (ops @ ops') w = run_udp P send ops' (run_udp P send ops w)"
  by (simp add: run_udp_def)

text \<open>A batch pushes its frames, in order, and leaves the runtime at its last one.\<close>

lemma publishFrame_udp:
  assumes "rt_udpPublisher (ag_rt a) = Some p" and "up_active p" and "whole_frame f" and "length s = kFrameColumns"
  shows "\<exists>a' p'. publishFrame F f (s, a) = (frame_samples f, a') \<and> rt_udpPublisher (ag_rt a') = Some p' \<and> up_active p' \<and>
    (p', ag_net a') = udp_step (pf_poco F) (pf_socket F) (push_of f) (p, ag_net a) \<and>
    rt_latestSamples (ag_rt a') = frame_samples f \<and> rt_lastFrameSequence (ag_rt a') = fp_sequence f \<and>
    rt_totalFrames (ag_rt a') = fp_sequence f + 1 \<and> rt_hasLatestFrame (ag_rt a') \<and>
    rt_frameQueue (ag_rt a') = rt_frameQueue (ag_rt a) \<and> rt_queueDepth (ag_rt a') = rt_queueDepth (ag_rt a) \<and> ag_world a' = ag_world a"
proof -
  obtain p' n' where push: "pushFrame (pf_poco F) (pf_socket F) (fp_sequence f) (word_of_int (fp_capturedAtUs f)) (frame_samples f)
      (p, ag_net a) = (p', n')" by fastforce
  then have "up_active p'" using push_keeps_active [of "pf_poco F"] assms(2) by (metis fst_conv)
  then show ?thesis
    using push assms unpack_forgets [OF assms(3,4)]
    by (simp add: publishFrame_def Let_def push_of_def)
qed

lemma publishFrames_udp:
  assumes "rt_udpPublisher (ag_rt a) = Some p" and "up_active p" and "list_all whole_frame fs" and "length s = kFrameColumns" and "fs \<noteq> []"
  shows "\<exists>a' p'. snd (fold (publishFrame F) fs (s, a)) = a' \<and> rt_udpPublisher (ag_rt a') = Some p' \<and> up_active p' \<and>
    (p', ag_net a') = run_udp (pf_poco F) (pf_socket F) (map push_of fs) (p, ag_net a) \<and>
    rt_latestSamples (ag_rt a') = frame_samples (last fs) \<and> rt_lastFrameSequence (ag_rt a') = fp_sequence (last fs) \<and>
    rt_totalFrames (ag_rt a') = fp_sequence (last fs) + 1 \<and> rt_hasLatestFrame (ag_rt a') \<and>
    rt_frameQueue (ag_rt a') = rt_frameQueue (ag_rt a) \<and> rt_queueDepth (ag_rt a') = rt_queueDepth (ag_rt a) \<and> ag_world a' = ag_world a"
  using assms
proof (induction fs arbitrary: s a p)
  case Nil
  then show ?case by simp
next
  case (Cons f fs)
  have f: "whole_frame f" using Cons.prems by simp
  obtain a1 p1 where step: "publishFrame F f (s, a) = (frame_samples f, a1)" "rt_udpPublisher (ag_rt a1) = Some p1" "up_active p1"
      "(p1, ag_net a1) = udp_step (pf_poco F) (pf_socket F) (push_of f) (p, ag_net a)"
      "rt_latestSamples (ag_rt a1) = frame_samples f" "rt_lastFrameSequence (ag_rt a1) = fp_sequence f"
      "rt_totalFrames (ag_rt a1) = fp_sequence f + 1" "rt_hasLatestFrame (ag_rt a1)"
      "rt_frameQueue (ag_rt a1) = rt_frameQueue (ag_rt a)" "rt_queueDepth (ag_rt a1) = rt_queueDepth (ag_rt a)" "ag_world a1 = ag_world a"
    using publishFrame_udp [OF Cons.prems(1,2) f Cons.prems(4), of F] by blast
  show ?case
  proof (cases "fs = []")
    case True
    then show ?thesis using step by (simp add: run_udp_def)
  next
    case False
    have len: "length (frame_samples f) = kFrameColumns" by (simp add: frame_samples_def length_unpackFrame)
    have "list_all whole_frame fs" using Cons.prems(3) by simp
    from Cons.IH [OF step(2,3) this len False] False show ?thesis
      by (simp add: step(1,5-11) run_udp_Cons flip: step(4))
  qed
qed

section \<open>Properties\<close>

text \<open>Publishing a batch hands exactly its frames to the UDP stream, in order and unpacked, and then flushes it; the runtime's latest
  samples, frame sequence and total are those of the last frame, the UDP counters it shows are the stream's own, the
  batch is taken off the depth counter without wrapping around, and a snapshot is published.\<close>

theorem batch_is_streamed:
  assumes "rt_udpPublisher (ag_rt a) = Some p" and "up_active p" and "\<forall>f \<in> set frames. length (fp_words f) = kFrameWords" and "frames \<noteq> []"
    and "poco_json (pf_poco F)"
  shows "\<exists>line a' p'. publishBatch F frames a = Some (Inr line, a') \<and> rt_udpPublisher (ag_rt a') = Some p' \<and>
    (p', ag_net a') = run_udp (pf_poco F) (pf_socket F) (map push_of frames @ [Flush]) (p, ag_net a) \<and>
    rt_latestSamples (ag_rt a') = frame_samples (last frames) \<and> rt_lastFrameSequence (ag_rt a') = fp_sequence (last frames) \<and>
    rt_totalFrames (ag_rt a') = fp_sequence (last frames) + 1 \<and>
    (rt_udpPacketsSent (ag_rt a'), rt_udpFramesSent (ag_rt a'), rt_udpSendErrors (ag_rt a')) =
      (st_packetsSent (up_stats p'), st_framesSent (up_stats p'), st_sendErrors (up_stats p')) \<and>
    rt_queueDepth (ag_rt a') = (if of_nat (length frames) \<le> rt_queueDepth (ag_rt a) then rt_queueDepth (ag_rt a) - of_nat (length frames) else 0)"
proof -
  define a0 where "a0 = on_rt (takeFromDepth (length frames)) a"
  have a0: "rt_udpPublisher (ag_rt a0) = Some p" "ag_net a0 = ag_net a"
      "rt_queueDepth (ag_rt a0) = (if of_nat (length frames) \<le> rt_queueDepth (ag_rt a) then rt_queueDepth (ag_rt a) - of_nat (length frames) else 0)"
    using assms(1) by (simp_all add: a0_def on_rt_def takeFromDepth_def)
  have whole: "list_all whole_frame frames" using assms(3) by (simp add: list_all_iff whole_frame_def)
  define a1 where "a1 = snd (fold (publishFrame F) frames (replicate kFrameColumns 0, a0))"
  obtain p1 where a1: "rt_udpPublisher (ag_rt a1) = Some p1" "up_active p1"
      "(p1, ag_net a1) = run_udp (pf_poco F) (pf_socket F) (map push_of frames) (p, ag_net a)"
      "rt_latestSamples (ag_rt a1) = frame_samples (last frames)" "rt_lastFrameSequence (ag_rt a1) = fp_sequence (last frames)"
      "rt_totalFrames (ag_rt a1) = fp_sequence (last frames) + 1" "rt_queueDepth (ag_rt a1) = rt_queueDepth (ag_rt a0)"
    using publishFrames_udp [OF a0(1) assms(2) whole _ assms(4), of "replicate kFrameColumns 0" F] a0(2)
    unfolding a1_def by auto
  define a2 where "a2 = on_rt (\<lambda>r. r\<lparr>rt_lastWaveformPublishAtUs := fp_capturedAtUs (last frames), rt_debugPublishCount := rt_debugPublishCount r + 1\<rparr>) a1"
  obtain p3 n3 where fl: "flush (pf_poco F) (pf_socket F) (p1, ag_net a1) = (p3, n3)" by fastforce
  define a3 where "a3 = a2\<lparr>ag_net := n3, ag_rt := (ag_rt a2)\<lparr>rt_udpPublisher := Some p3, rt_udpPacketsSent := st_packetsSent (up_stats p3),
      rt_udpFramesSent := st_framesSent (up_stats p3), rt_udpSendErrors := st_sendErrors (up_stats p3), rt_udpLastError := st_lastError (up_stats p3)\<rparr>\<rparr>"
  have flush: "flushUdp F a2 = Some (Inr (), a3)"
    using a1(1,2) fl by (simp add: flushUdp_def a2_def a3_def on_rt_def Let_def)
  obtain a4 where a4: "publishSnapshot F a3 = Some (Inr (), a4)" "ag_rt a4 = (ag_rt a3)\<lparr>rt_lastPublishedAt := pf_iso F (ag_tick a3)\<rparr>"
    using publishSnapshot_rest [OF assms(5)] by blast
  have net: "ag_net a4 = n3"
    using a4(1) by (auto simp: publishSnapshot_def snapshot_def p_bind_def Let_def case_prod_beta a3_def split: sum.splits)
  have steps: "set_rt (takeFromDepth (length frames)) a = Some (Inr (), a0)"
      "p_modify (\<lambda>a. snd (fold (publishFrame F) frames (replicate kFrameColumns 0, a))) a0 = Some (Inr (), a1)"
      "set_rt (\<lambda>r. r\<lparr>rt_lastWaveformPublishAtUs := fp_capturedAtUs (last frames), rt_debugPublishCount := rt_debugPublishCount r + 1\<rparr>) a1 = Some (Inr (), a2)"
    by (simp_all add: set_rt_def a0_def a1_def a2_def)
  have "\<exists>line. publishBatch F frames a = Some (Inr line, a4)"
    unfolding publishBatch_def p_seq_def p_bind_def
    by (simp only: steps flush a4(1) option.case prod.case sum.case prog_run(1,3)) simp
  moreover have "(p3, n3) = run_udp (pf_poco F) (pf_socket F) (map push_of frames @ [Flush]) (p, ag_net a)"
    using fl unfolding run_udp_append a1(3) [symmetric] by (simp add: run_udp_def)
  ultimately show ?thesis
    using a1 a0(3) net by (auto simp: a4(2) a3_def a2_def on_rt_def)
qed

lemma batch_is_streamed_witness:
  "\<exists>line a'. publishBatch sample_platform [\<lparr>fp_sequence = 8, fp_capturedAtUs = 5, fp_words = replicate 24 7\<rparr>] sample_agent = Some (Inr line, a') \<and>
    rt_totalFrames (ag_rt a') = 9"
proof -
  let ?f = "\<lparr>fp_sequence = 8, fp_capturedAtUs = 5, fp_words = replicate 24 7\<rparr>"
  let ?p = "newPublisher sample_poco (\<lambda>_. Inr ()) sample_settings"
  have "rt_udpPublisher (ag_rt sample_agent) = Some ?p" by (simp add: sample_agent_def newRuntime_def)
  moreover have "up_active ?p" by (simp add: newPublisher_def sample_settings_def Let_def)
  ultimately show ?thesis
    using batch_is_streamed [of sample_agent ?p "[?f]" sample_platform] sample_poco_json
    by (fastforce simp: kFrameWords_def sample_platform_def)
qed

end
