(* ===== verification/FrameQueue.thy ===== *)
theory FrameQueue
  imports Frames
begin

text \<open>
  The hand-over of frames between the threads of \<open>AcquisitionRuntime.cpp\<close>: the reader collects
  frames in a batch and puts batches on the notification queue, the publisher takes them off, and
  the thread that stops or restarts the acquisition drains the queue. Every step is one access to
  what the threads share: the queue and the atomic counters are each atomic by themselves, the
  sequences of accesses are not. The steps of one thread are an inductive relation; a run interleaves them.
\<close>

section \<open>The shared state and the threads\<close>

text \<open>\<open>flushBatch\<close> of the reader: between its check and its two updates other threads may run.\<close>

datatype reader_pc =
    RLoop            \<comment> \<open>in the reading loop, not inside \<open>flushBatch\<close>\<close>
  | REnqueue         \<comment> \<open>the check has passed, \<open>enqueueNotification\<close> is next\<close>
  | RCount nat       \<comment> \<open>the batch is queued, \<open>_queueDepth.fetch_add\<close> is next\<close>
  | RDone            \<comment> \<open>the thread has returned\<close>

datatype 'f publisher_pc =
    PWait            \<comment> \<open>at the loop condition or waiting for a notification\<close>
  | PCompare "'f list"    \<comment> \<open>has a batch, \<open>_queueDepth.load\<close> is next\<close>
  | PSubtract "'f list"   \<comment> \<open>the depth was large enough, \<open>fetch_sub\<close> is next\<close>
  | PZero "'f list"       \<comment> \<open>it was not, \<open>store(0)\<close> is next\<close>
  | PPublish "'f list"    \<comment> \<open>the depth is updated, the frames are published next\<close>
  | PDone            \<comment> \<open>the thread has returned\<close>

text \<open>The controlling thread, under \<open>_controlMutex\<close>; \<open>shutdown\<close> stops the acquisition for good.\<close>

datatype controller_pc =
    CRunning         \<comment> \<open>the acquisition runs\<close>
  | CJoinReader      \<comment> \<open>\<open>stopAcquisitionLocked\<close>: the reader was told to end, \<open>join\<close> is next\<close>
  | CDrain           \<comment> \<open>\<open>drainQueue\<close>: the loop over the queue\<close>
  | CStopped         \<comment> \<open>the acquisition is stopped\<close>
  | CJoinPublisher   \<comment> \<open>\<open>shutdown\<close>: \<open>_publisherThread.join\<close>\<close>
  | CStart           \<comment> \<open>\<open>startAcquisitionLocked\<close>: the history is cleared, \<open>drainQueue\<close> is next\<close>
  | CEnd             \<comment> \<open>\<open>shutdown\<close> has returned\<close>

record 'f queue_state =
  qs_queue :: "'f list list"           \<comment> \<open>\<open>_frameQueue\<close>\<close>
  qs_depth :: u64                      \<comment> \<open>\<open>_queueDepth\<close>\<close>
  qs_shouldRun :: bool                 \<comment> \<open>\<open>_readerShouldRun\<close>\<close>
  qs_shutdown :: bool                  \<comment> \<open>\<open>_shutdown\<close>\<close>
  qs_batch :: "'f list"                \<comment> \<open>the reader's local batch\<close>
  qs_dropped :: u64                    \<comment> \<open>\<open>_droppedFrames\<close>\<close>
  qs_reader :: reader_pc
  qs_publisher :: "'f publisher_pc"
  qs_controller :: controller_pc
  qs_captured :: "'f list"             \<comment> \<open>all frames read from the device, in order\<close>
  qs_published :: "'f list"            \<comment> \<open>all frames published, in order\<close>
  qs_lost :: nat                       \<comment> \<open>frames dropped by the reader or drained by the controller\<close>

definition batch_size :: "'f list \<Rightarrow> u64" where
  "batch_size b = of_nat (length b)"

inductive reader_step :: "'f queue_state \<Rightarrow> 'f queue_state \<Rightarrow> bool" where
  capture: "qs_reader s = RLoop \<Longrightarrow> qs_shouldRun s \<Longrightarrow> \<not> qs_shutdown s \<Longrightarrow>
    reader_step s (s\<lparr>qs_batch := qs_batch s @ [f], qs_captured := qs_captured s @ [f]\<rparr>)"
| flush_drop: "qs_reader s = RLoop \<Longrightarrow> qs_batch s \<noteq> [] \<Longrightarrow>
    qs_depth s + batch_size (qs_batch s) > of_nat kMaxPendingFrames \<Longrightarrow>
    reader_step s (s\<lparr>qs_dropped := qs_dropped s + batch_size (qs_batch s), qs_batch := [],
      qs_lost := qs_lost s + length (qs_batch s)\<rparr>)"
| flush_check: "qs_reader s = RLoop \<Longrightarrow> qs_batch s \<noteq> [] \<Longrightarrow>
    \<not> qs_depth s + batch_size (qs_batch s) > of_nat kMaxPendingFrames \<Longrightarrow>
    reader_step s (s\<lparr>qs_reader := REnqueue\<rparr>)"
| flush_enqueue: "qs_reader s = REnqueue \<Longrightarrow>
    reader_step s (s\<lparr>qs_queue := qs_queue s @ [qs_batch s], qs_batch := [],
      qs_reader := RCount (length (qs_batch s))\<rparr>)"
| flush_count: "qs_reader s = RCount n \<Longrightarrow>
    reader_step s (s\<lparr>qs_depth := qs_depth s + of_nat n, qs_reader := RLoop\<rparr>)"
| reader_return: "qs_reader s = RLoop \<Longrightarrow> \<not> qs_shouldRun s \<or> qs_shutdown s \<Longrightarrow> qs_batch s = [] \<Longrightarrow>
    reader_step s (s\<lparr>qs_reader := RDone\<rparr>)"

inductive publisher_step :: "'f queue_state \<Rightarrow> 'f queue_state \<Rightarrow> bool" where
  dequeue: "qs_publisher s = PWait \<Longrightarrow> qs_queue s = b # q \<Longrightarrow>
    publisher_step s (s\<lparr>qs_queue := q, qs_publisher := PCompare b\<rparr>)"
| compare_ge: "qs_publisher s = PCompare b \<Longrightarrow> qs_depth s \<ge> batch_size b \<Longrightarrow>
    publisher_step s (s\<lparr>qs_publisher := PSubtract b\<rparr>)"
| compare_less: "qs_publisher s = PCompare b \<Longrightarrow> \<not> qs_depth s \<ge> batch_size b \<Longrightarrow>
    publisher_step s (s\<lparr>qs_publisher := PZero b\<rparr>)"
| subtract: "qs_publisher s = PSubtract b \<Longrightarrow>
    publisher_step s (s\<lparr>qs_depth := qs_depth s - batch_size b, qs_publisher := PPublish b\<rparr>)"
| store_zero: "qs_publisher s = PZero b \<Longrightarrow>
    publisher_step s (s\<lparr>qs_depth := 0, qs_publisher := PPublish b\<rparr>)"
| publish: "qs_publisher s = PPublish b \<Longrightarrow>
    publisher_step s (s\<lparr>qs_published := qs_published s @ b, qs_publisher := PWait\<rparr>)"
| publisher_return: "qs_publisher s = PWait \<Longrightarrow> qs_shutdown s \<Longrightarrow> qs_depth s = 0 \<Longrightarrow>
    publisher_step s (s\<lparr>qs_publisher := PDone\<rparr>)"

text \<open>
  Stopping: \<open>_readerShouldRun.store(false)\<close>, join, drain, \<open>store(0)\<close>; \<open>shutdown\<close> sets its flag in
  front of that (one step here, since the reader tests both flags) and joins the publisher at the end. Starting: the counters are cleared, the queue is drained, the reader starts.
\<close>

inductive controller_step :: "'f queue_state \<Rightarrow> 'f queue_state \<Rightarrow> bool" where
  stop: "qs_controller s = CRunning \<Longrightarrow>
    controller_step s (s\<lparr>qs_shouldRun := False, qs_controller := CJoinReader\<rparr>)"
| shutdown: "qs_controller s = CRunning \<or> qs_controller s = CStopped \<Longrightarrow> \<not> qs_shutdown s \<Longrightarrow>
    controller_step s (s\<lparr>qs_shutdown := True, qs_shouldRun := False, qs_controller := CJoinReader\<rparr>)"
| joined: "qs_controller s = CJoinReader \<Longrightarrow> qs_reader s = RDone \<Longrightarrow>
    controller_step s (s\<lparr>qs_controller := CDrain\<rparr>)"
| drain: "qs_controller s = CDrain \<or> qs_controller s = CStart \<Longrightarrow> qs_queue s = b # q \<Longrightarrow>
    controller_step s (s\<lparr>qs_queue := q, qs_lost := qs_lost s + length b\<rparr>)"
| drained: "qs_controller s = CDrain \<Longrightarrow> qs_queue s = [] \<Longrightarrow>
    controller_step s (s\<lparr>qs_depth := 0, qs_controller := (if qs_shutdown s then CJoinPublisher else CStopped)\<rparr>)"
| clear: "qs_controller s = CStopped \<Longrightarrow> \<not> qs_shutdown s \<Longrightarrow>
    controller_step s (s\<lparr>qs_depth := 0, qs_dropped := 0, qs_controller := CStart\<rparr>)"
| start: "qs_controller s = CStart \<Longrightarrow> qs_queue s = [] \<Longrightarrow>
    controller_step s (s\<lparr>qs_depth := 0, qs_shouldRun := True, qs_batch := [], qs_reader := RLoop,
      qs_controller := CRunning\<rparr>)"
| publisher_joined: "qs_controller s = CJoinPublisher \<Longrightarrow> qs_publisher s = PDone \<Longrightarrow>
    controller_step s (s\<lparr>qs_controller := CEnd\<rparr>)"

inductive_cases reader_stepE: "reader_step s t"
inductive_cases publisher_stepE: "publisher_step s t"
inductive_cases controller_stepE: "controller_step s t"

section \<open>Runs\<close>

text \<open>A session: the acquisition runs, nobody stops it. The system: all three threads.\<close>

definition session_step :: "'f queue_state \<Rightarrow> 'f queue_state \<Rightarrow> bool" where
  "session_step s t \<longleftrightarrow> reader_step s t \<or> publisher_step s t"

definition system_step :: "'f queue_state \<Rightarrow> 'f queue_state \<Rightarrow> bool" where
  "system_step s t \<longleftrightarrow> reader_step s t \<or> publisher_step s t \<or> controller_step s t"

text \<open>The runtime after its construction, and the state in which an acquisition has been started.\<close>

definition queue_init :: "'f queue_state" where
  "queue_init = \<lparr>qs_queue = [], qs_depth = 0, qs_shouldRun = False, qs_shutdown = False, qs_batch = [], qs_dropped = 0,
     qs_reader = RDone, qs_publisher = PWait, qs_controller = CStopped, qs_captured = [], qs_published = [], qs_lost = 0\<rparr>"

definition queue_started :: "'f queue_state" where
  "queue_started = queue_init\<lparr>qs_shouldRun := True, qs_reader := RLoop, qs_controller := CRunning\<rparr>"

lemma init_starts: "system_step\<^sup>*\<^sup>* queue_init (queue_started :: 'f queue_state)"
proof -
  let ?s = "queue_init\<lparr>qs_controller := CStart\<rparr> :: 'f queue_state"
  have "controller_step queue_init ?s"
    using controller_step.clear [of "queue_init :: 'f queue_state"] by (simp add: queue_init_def)
  moreover have "controller_step ?s queue_started"
    using controller_step.start [of ?s] by (simp add: queue_init_def queue_started_def)
  ultimately show ?thesis
    by (meson system_step_def rtranclp.rtrancl_into_rtrancl rtranclp.rtrancl_refl)
qed

section \<open>Conservation\<close>

fun held :: "'f publisher_pc \<Rightarrow> 'f list" where
  "held (PCompare b) = b"
| "held (PSubtract b) = b"
| "held (PZero b) = b"
| "held (PPublish b) = b"
| "held PWait = []"
| "held PDone = []"

text \<open>The frames on their way, oldest first.\<close>

definition in_flight :: "'f queue_state \<Rightarrow> 'f list" where
  "in_flight s = held (qs_publisher s) @ concat (qs_queue s) @ qs_batch s"

definition conserved :: "'f queue_state \<Rightarrow> bool" where
  "conserved s \<longleftrightarrow>
     subseq (qs_published s @ in_flight s) (qs_captured s) \<and>
     length (qs_captured s) = length (qs_published s) + length (in_flight s) + qs_lost s \<and>
     (qs_reader s \<noteq> RLoop \<and> qs_reader s \<noteq> REnqueue \<longrightarrow> qs_batch s = []) \<and>
     (qs_controller s \<notin> {CRunning, CJoinReader} \<longrightarrow> qs_reader s = RDone) \<and>
     (qs_controller s \<in> {CStopped, CJoinPublisher, CEnd} \<longrightarrow> qs_queue s = []) \<and>
     (qs_controller s = CEnd \<longrightarrow> qs_publisher s = PDone)"

lemma subseq_drop_middle: "subseq (xs @ ys @ zs) ws \<Longrightarrow> subseq (xs @ zs) ws"
  by (rule subseq_order.trans [of _ "xs @ ys @ zs"]) (simp_all add: subseq_append' suffix_imp_subseq suffix_def)

lemma subseq_drop_end: "subseq (xs @ ys) ws \<Longrightarrow> subseq xs ws"
  by (rule subseq_order.trans [of _ "xs @ ys"]) (simp_all add: prefix_imp_subseq)

lemma conserved_reader:
  assumes "conserved s" and "reader_step s t"
  shows "conserved t"
  using assms(2,1)
proof cases
  case (capture f)
  then show ?thesis using assms(1)
    by (auto simp: conserved_def in_flight_def list_emb_append_mono simp flip: append_assoc)
next
  case flush_drop
  then show ?thesis using assms(1)
    by (auto simp: conserved_def in_flight_def simp flip: append_assoc dest: subseq_drop_end)
qed (auto simp: conserved_def in_flight_def)

lemma conserved_publisher:
  assumes "conserved s" and "publisher_step s t"
  shows "conserved t"
  using assms(2,1) by cases (auto simp: conserved_def in_flight_def)

lemma conserved_controller:
  assumes "conserved s" and "controller_step s t"
  shows "conserved t"
  using assms(2,1)
proof cases
  case (drain b q)
  then show ?thesis using assms(1)
    by (auto simp: conserved_def in_flight_def dest: subseq_drop_middle [of "_ @ _" b, simplified])
qed (auto simp: conserved_def in_flight_def)

lemma conserved_system:
  assumes "system_step\<^sup>*\<^sup>* s t" and "conserved s"
  shows "conserved t"
  using assms
  by (induction rule: rtranclp_induct)
     (auto simp: system_step_def intro: conserved_reader conserved_publisher conserved_controller)

lemma conserved_init: "conserved queue_init"
  by (simp add: conserved_def queue_init_def in_flight_def)

section \<open>The depth within a session\<close>

text \<open>
  A batch is far smaller than \<open>2 ^ 63\<close> frames, so the addition in the reader's check does not wrap
  around; \<open>max_frames\<close> is \<open>kMaxPendingFrames\<close>.
\<close>

lemma check_no_wrap:
  assumes "n < 2 ^ 63" and "unat d \<le> kMaxPendingFrames"
  shows "d + of_nat n > (of_nat kMaxPendingFrames :: u64) \<longleftrightarrow> kMaxPendingFrames < unat d + n"
proof -
  have "unat (of_nat n :: u64) = n" using assms(1) by (simp add: unat_of_nat)
  moreover from this have "unat (d + of_nat n) = unat d + n"
    using assms by (simp add: unat_add_lem [THEN iffD1] kMaxPendingFrames_def)
  ultimately show ?thesis
    by (simp add: word_less_nat_alt kMaxPendingFrames_def)
qed

definition depth_bounded :: "'f queue_state \<Rightarrow> bool" where
  "depth_bounded s \<longleftrightarrow>
     unat (qs_depth s) \<le> kMaxPendingFrames \<and>
     (qs_reader s = REnqueue \<longrightarrow> unat (qs_depth s) + length (qs_batch s) \<le> kMaxPendingFrames) \<and>
     (\<forall>n. qs_reader s = RCount n \<longrightarrow> unat (qs_depth s) + n \<le> kMaxPendingFrames) \<and>
     (\<forall>b. qs_publisher s = PSubtract b \<longrightarrow> batch_size b \<le> qs_depth s)"

lemma depth_bounded_reader:
  assumes "depth_bounded s" and "reader_step s t" and "length (qs_batch s) < 2 ^ 63"
  shows "depth_bounded t"
  using assms(2,1,3)
proof cases
  case flush_check
  then show ?thesis
    using assms(1,3) check_no_wrap [OF assms(3), of "qs_depth s"] by (auto simp: depth_bounded_def batch_size_def)
next
  case (flush_count n)
  then have n: "unat (qs_depth s) + n \<le> kMaxPendingFrames" using assms(1) by (simp add: depth_bounded_def)
  then have "unat (of_nat n :: u64) = n" by (simp add: unat_of_nat kMaxPendingFrames_def)
  with n have sum: "unat (qs_depth s + of_nat n) = unat (qs_depth s) + n"
    by (simp add: unat_add_lem [THEN iffD1] kMaxPendingFrames_def)
  then have "qs_depth s \<le> qs_depth s + of_nat n" by (simp add: word_le_nat_alt)
  then show ?thesis
    using flush_count n assms(1) sum by (auto simp: depth_bounded_def)
qed (auto simp: depth_bounded_def)

lemma depth_bounded_publisher:
  assumes "depth_bounded s" and "publisher_step s t"
  shows "depth_bounded t"
  using assms(2,1)
proof cases
  case (subtract b)
  then have "batch_size b \<le> qs_depth s" using assms(1) by (simp add: depth_bounded_def)
  then have "unat (qs_depth s - batch_size b) \<le> unat (qs_depth s)"
    by (simp add: unat_sub)
  then show ?thesis
    using subtract assms(1) by (auto simp: depth_bounded_def)
qed (auto simp: depth_bounded_def)

lemma captured_grows: "session_step s t \<Longrightarrow> length (qs_captured s) \<le> length (qs_captured t)"
  by (auto simp: session_step_def elim!: reader_step.cases publisher_step.cases)

lemma session_is_system: "session_step\<^sup>*\<^sup>* s t \<Longrightarrow> system_step\<^sup>*\<^sup>* s t"
  by (rule mono_rtranclp [rule_format, of session_step]) (auto simp: session_step_def system_step_def)

lemma batch_captured: "conserved s \<Longrightarrow> length (qs_batch s) \<le> length (qs_captured s)"
  by (simp add: conserved_def in_flight_def)

lemma depth_bounded_session:
  assumes "session_step\<^sup>*\<^sup>* s t" and "depth_bounded s" and "conserved s" and "length (qs_captured t) < 2 ^ 63"
  shows "depth_bounded t"
  using assms
proof (induction rule: rtranclp_induct)
  case base
  then show ?case by simp
next
  case (step t u)
  then have few: "length (qs_captured t) < 2 ^ 63" using captured_grows [of t u] by simp
  then have "depth_bounded t" using step by simp
  moreover have "length (qs_batch t) < 2 ^ 63"
    using few batch_captured conserved_system [OF session_is_system [OF step.hyps(1)] step.prems(2)] by fastforce
  ultimately show ?case
    using step.hyps(2) by (auto simp: session_step_def intro: depth_bounded_reader depth_bounded_publisher)
qed

subsection \<open>Exact accounting\<close>

text \<open>
  A step of a session in which the publisher does not take a batch while the reader is between the
  enqueue and the count.
\<close>

definition calm_step :: "'f queue_state \<Rightarrow> 'f queue_state \<Rightarrow> bool" where
  "calm_step s t \<longleftrightarrow> session_step s t \<and>
     (publisher_step s t \<and> qs_publisher s = PWait \<longrightarrow> (\<forall>n. qs_reader s \<noteq> RCount n))"

definition owed :: "reader_pc \<Rightarrow> nat" where
  "owed r = (case r of RCount n \<Rightarrow> n | _ \<Rightarrow> 0)"

definition taken :: "'f publisher_pc \<Rightarrow> nat" where
  "taken p = (case p of PCompare b \<Rightarrow> length b | PSubtract b \<Rightarrow> length b | _ \<Rightarrow> 0)"

definition accounted :: "'f queue_state \<Rightarrow> bool" where
  "accounted s \<longleftrightarrow>
     unat (qs_depth s) + owed (qs_reader s) = length (concat (qs_queue s)) + taken (qs_publisher s) \<and>
     (\<forall>n. qs_reader s = RCount n \<longrightarrow> n \<le> length (concat (qs_queue s))) \<and>
     (\<forall>b. qs_publisher s \<noteq> PZero b) \<and>
     depth_bounded s"

lemma accounted_reader:
  assumes "accounted s" and "reader_step s t" and "length (qs_batch s) < 2 ^ 63"
  shows "accounted t"
proof -
  have bounded: "depth_bounded t"
    using assms depth_bounded_reader by (auto simp: accounted_def)
  show ?thesis
    using assms(2)
  proof cases
    case (flush_count n)
    have n: "unat (qs_depth s) + n \<le> kMaxPendingFrames" using assms(1) flush_count by (simp add: accounted_def depth_bounded_def)
    then have "unat (of_nat n :: u64) = n" by (simp add: unat_of_nat kMaxPendingFrames_def)
    with n have "unat (qs_depth s + of_nat n) = unat (qs_depth s) + n"
      by (simp add: unat_add_lem [THEN iffD1] kMaxPendingFrames_def)
    then show ?thesis using assms(1) bounded flush_count by (simp add: accounted_def owed_def)
  qed (use assms(1) bounded in \<open>auto simp: accounted_def owed_def\<close>)
qed

lemma batch_size_small: "unat (qs_depth s) \<ge> length b \<Longrightarrow> unat (batch_size b) = length b"
proof -
  assume "unat (qs_depth s) \<ge> length b"
  moreover have "unat (qs_depth s) < 2 ^ LENGTH(64)" by (rule unsigned_less)
  ultimately show ?thesis by (simp add: batch_size_def unat_of_nat)
qed

lemma accounted_publisher:
  assumes "accounted s" and "publisher_step s t" and calm: "calm_step s t"
  shows "accounted t"
proof -
  have bounded: "depth_bounded t"
    using assms depth_bounded_publisher by (auto simp: accounted_def)
  show ?thesis
    using assms(2)
  proof cases
    case (dequeue b q)
    then have "\<forall>n. qs_reader s \<noteq> RCount n" using calm assms(2) by (auto simp: calm_step_def)
    then show ?thesis
      using assms(1) bounded dequeue by (auto simp: accounted_def taken_def owed_def)
  next
    case (compare_less b)
    have "length b \<le> unat (qs_depth s)"
      using assms(1) compare_less by (cases "qs_reader s") (auto simp: accounted_def taken_def owed_def)
    then have "batch_size b \<le> qs_depth s" by (simp add: word_le_nat_alt batch_size_small)
    with compare_less show ?thesis by simp
  next
    case (subtract b)
    then have le: "batch_size b \<le> qs_depth s" using assms(1) by (simp add: accounted_def depth_bounded_def)
    have "length b \<le> unat (qs_depth s)"
      using assms(1) subtract by (cases "qs_reader s") (auto simp: accounted_def taken_def owed_def)
    then have "unat (qs_depth s - batch_size b) = unat (qs_depth s) - length b"
      using le by (simp add: unat_sub batch_size_small)
    then show ?thesis
      using assms(1) bounded subtract \<open>length b \<le> unat (qs_depth s)\<close> by (auto simp: accounted_def taken_def)
  qed (use assms(1) bounded in \<open>auto simp: accounted_def taken_def\<close>)
qed

lemma accounted_calm:
  assumes "calm_step\<^sup>*\<^sup>* s t" and "accounted s" and "conserved s" and "length (qs_captured t) < 2 ^ 63"
  shows "accounted t"
  using assms
proof (induction rule: rtranclp_induct)
  case base
  then show ?case by simp
next
  case (step t u)
  have "session_step t u" using step.hyps(2) by (simp add: calm_step_def)
  have "session_step\<^sup>*\<^sup>* s t"
    using step.hyps(1) by (rule mono_rtranclp [rule_format, of calm_step, rotated]) (simp add: calm_step_def)
  then have "conserved t" using conserved_system session_is_system step.prems(2) by blast
  moreover have few: "length (qs_captured t) < 2 ^ 63" using captured_grows [OF \<open>session_step t u\<close>] step.prems(3) by simp
  ultimately have "length (qs_batch t) < 2 ^ 63" using batch_captured by fastforce
  moreover have "accounted t" using step few by simp
  ultimately show ?case
    using \<open>session_step t u\<close> step.hyps(2) by (auto simp: session_step_def intro: accounted_reader accounted_publisher)
qed

lemma accounted_started: "accounted queue_started" "conserved queue_started" "depth_bounded queue_started"
  by (simp_all add: accounted_def depth_bounded_def queue_started_def queue_init_def owed_def taken_def conserved_def in_flight_def)

section \<open>The races\<close>

lemma reader_first: "reader_step s t \<Longrightarrow> session_step\<^sup>*\<^sup>* t u \<Longrightarrow> session_step\<^sup>*\<^sup>* s u"
  by (rule converse_rtranclp_into_rtranclp) (simp_all add: session_step_def)

lemma publisher_first: "publisher_step s t \<Longrightarrow> session_step\<^sup>*\<^sup>* t u \<Longrightarrow> session_step\<^sup>*\<^sup>* s u"
  by (rule converse_rtranclp_into_rtranclp) (simp_all add: session_step_def)

lemma capture_many:
  assumes "qs_reader s = RLoop" and "qs_shouldRun s" and "\<not> qs_shutdown s"
  shows "session_step\<^sup>*\<^sup>* s (s\<lparr>qs_batch := qs_batch s @ fs, qs_captured := qs_captured s @ fs\<rparr>)"
  using assms
proof (induction fs arbitrary: s)
  case Nil
  then show ?case by simp
next
  case (Cons f fs)
  let ?s = "s\<lparr>qs_batch := qs_batch s @ [f], qs_captured := qs_captured s @ [f]\<rparr>"
  have "session_step\<^sup>*\<^sup>* ?s (?s\<lparr>qs_batch := qs_batch ?s @ fs, qs_captured := qs_captured ?s @ fs\<rparr>)"
    using Cons.prems by (intro Cons.IH) simp_all
  moreover have "reader_step s ?s" using Cons.prems by (intro reader_step.capture)
  ultimately show ?case using reader_first by fastforce
qed

text \<open>The batch is queued but not yet counted.\<close>

lemma batch_queued:
  assumes "qs_reader s = RLoop" "qs_shouldRun s" "\<not> qs_shutdown s" "qs_batch s = []" "fs \<noteq> []"
    and "unat (qs_depth s) + length fs \<le> kMaxPendingFrames"
  shows "session_step\<^sup>*\<^sup>* s (s\<lparr>qs_captured := qs_captured s @ fs, qs_queue := qs_queue s @ [fs], qs_reader := RCount (length fs)\<rparr>)"
proof -
  let ?s1 = "s\<lparr>qs_batch := fs, qs_captured := qs_captured s @ fs\<rparr>"
  let ?s2 = "?s1\<lparr>qs_reader := REnqueue\<rparr>"
  let ?s3 = "s\<lparr>qs_captured := qs_captured s @ fs, qs_queue := qs_queue s @ [fs], qs_reader := RCount (length fs)\<rparr>"
  have "session_step\<^sup>*\<^sup>* s ?s1" using capture_many [of s fs] assms(1-4) by simp
  moreover have "reader_step ?s1 ?s2"
    using assms check_no_wrap [of "length fs" "qs_depth s"]
    by (intro reader_step.flush_check) (simp_all add: batch_size_def kMaxPendingFrames_def)
  moreover have "reader_step ?s2 ?s3"
    using reader_step.flush_enqueue [of ?s2] assms(4) by (cases s) simp
  ultimately show ?thesis
    by (meson reader_first rtranclp.rtrancl_refl rtranclp_trans)
qed

text \<open>
  The publisher overtakes the count: it finds the depth too small, stores zero, and the reader
  then adds a batch that is no longer queued.
\<close>

lemma overtaken_batch:
  assumes "qs_reader s = RLoop" "qs_shouldRun s" "\<not> qs_shutdown s" "qs_batch s = []" "fs \<noteq> []"
    and "qs_queue s = []" and "qs_publisher s = PWait"
    and "unat (qs_depth s) < length fs" and "unat (qs_depth s) + length fs \<le> kMaxPendingFrames"
  shows "session_step\<^sup>*\<^sup>* s (s\<lparr>qs_captured := qs_captured s @ fs, qs_published := qs_published s @ fs, qs_depth := of_nat (length fs)\<rparr>)"
proof -
  let ?s0 = "s\<lparr>qs_captured := qs_captured s @ fs, qs_queue := [fs], qs_reader := RCount (length fs)\<rparr>"
  let ?s1 = "?s0\<lparr>qs_queue := [], qs_publisher := PCompare fs\<rparr>"
  let ?s2 = "?s1\<lparr>qs_publisher := PZero fs\<rparr>"
  let ?s3 = "?s2\<lparr>qs_depth := 0, qs_publisher := PPublish fs\<rparr>"
  let ?s4 = "?s3\<lparr>qs_published := qs_published s @ fs, qs_publisher := PWait\<rparr>"
  let ?s5 = "s\<lparr>qs_captured := qs_captured s @ fs, qs_published := qs_published s @ fs, qs_depth := of_nat (length fs)\<rparr>"
  have size: "unat (batch_size fs) = length fs"
    using assms(9) by (simp add: batch_size_def unat_of_nat kMaxPendingFrames_def)
  have "session_step\<^sup>*\<^sup>* s ?s0" using batch_queued [of s fs] assms by simp
  moreover have "publisher_step ?s0 ?s1" using assms(7) by (intro publisher_step.dequeue) simp_all
  moreover have "publisher_step ?s1 ?s2"
    using assms(8) size by (intro publisher_step.compare_less) (simp_all add: word_le_nat_alt)
  moreover have "publisher_step ?s2 ?s3" by (intro publisher_step.store_zero) simp
  moreover have "publisher_step ?s3 ?s4" using publisher_step.publish [of ?s3 fs] by simp
  moreover have "reader_step ?s4 ?s5"
    using reader_step.flush_count [of ?s4 "length fs"] assms(1,6,7) by (cases s) simp
  ultimately show ?thesis
    by (meson reader_first publisher_first rtranclp.rtrancl_refl rtranclp_trans)
qed

text \<open>A session in which the reader flushes only batches of at least \<open>m\<close> frames.\<close>

definition full_step :: "nat \<Rightarrow> 'f queue_state \<Rightarrow> 'f queue_state \<Rightarrow> bool" where
  "full_step m s t \<longleftrightarrow> session_step s t \<and>
     (qs_batch s \<noteq> [] \<and> (qs_batch t = [] \<or> qs_reader t = REnqueue) \<longrightarrow>
        m \<le> length (qs_batch s) \<and> length (qs_batch s) < 2 ^ 63)"

definition blocked :: "nat \<Rightarrow> 'f list \<Rightarrow> 'f queue_state \<Rightarrow> bool" where
  "blocked n published s \<longleftrightarrow> qs_queue s = [] \<and> qs_publisher s = PWait \<and> qs_depth s = of_nat n \<and>
     (qs_reader s = RLoop \<or> qs_reader s = RDone) \<and> qs_published s = published \<and> \<not> qs_shutdown s"

lemma blocked_step:
  assumes "blocked n published s" and "full_step m s t" and "kMaxPendingFrames < n + m" and "n \<le> kMaxPendingFrames"
  shows "blocked n published t"
proof -
  have unat_n: "unat (of_nat n :: u64) = n" using assms(4) by (simp add: unat_of_nat kMaxPendingFrames_def)
  have "\<not> publisher_step s t"
    using assms(1) by (auto simp: blocked_def elim!: publisher_step.cases)
  then have "reader_step s t" using assms(2) by (simp add: full_step_def session_step_def)
  then show ?thesis
  proof cases
    case flush_check
    then have "m \<le> length (qs_batch s)" "length (qs_batch s) < 2 ^ 63"
      using assms(2) by (auto simp: full_step_def)
    then have "qs_depth s + batch_size (qs_batch s) > of_nat kMaxPendingFrames"
      using assms(1,3,4) check_no_wrap [of "length (qs_batch s)" "of_nat n"] unat_n
      by (simp add: blocked_def batch_size_def)
    with flush_check show ?thesis by simp
  qed (use assms(1) in \<open>auto simp: blocked_def\<close>)
qed

lemma blocked_run:
  "(full_step m)\<^sup>*\<^sup>* s t \<Longrightarrow> blocked n published s \<Longrightarrow> kMaxPendingFrames < n + m \<Longrightarrow> n \<le> kMaxPendingFrames \<Longrightarrow>
     blocked n published t"
  by (induction rule: rtranclp_induct) (auto intro: blocked_step)

text \<open>A stop that drains while the publisher is about to subtract.\<close>

lemma stopped_while_subtracting:
  assumes "fs \<noteq> []" and "length fs \<le> kMaxPendingFrames"
  shows "system_step\<^sup>*\<^sup>* queue_started
    (queue_started\<lparr>qs_captured := fs, qs_published := fs, qs_depth := - of_nat (length fs), qs_shouldRun := False,
       qs_shutdown := True, qs_reader := RDone, qs_controller := CJoinPublisher\<rparr>)"
proof -
  let ?s = "queue_started\<lparr>qs_captured := fs, qs_queue := [fs], qs_reader := RCount (length fs)\<rparr>"
  let ?s1 = "?s\<lparr>qs_depth := of_nat (length fs), qs_reader := RLoop\<rparr>"
  let ?s2 = "?s1\<lparr>qs_queue := [], qs_publisher := PCompare fs\<rparr>"
  let ?s3 = "?s2\<lparr>qs_publisher := PSubtract fs\<rparr>"
  let ?s4 = "?s3\<lparr>qs_shutdown := True, qs_shouldRun := False, qs_controller := CJoinReader\<rparr>"
  let ?s5 = "?s4\<lparr>qs_reader := RDone\<rparr>"
  let ?s6 = "?s5\<lparr>qs_controller := CDrain\<rparr>"
  let ?s7 = "?s6\<lparr>qs_depth := 0, qs_controller := CJoinPublisher\<rparr>"
  let ?s8 = "?s7\<lparr>qs_depth := - of_nat (length fs), qs_publisher := PPublish fs\<rparr>"
  let ?s9 = "?s8\<lparr>qs_published := fs, qs_publisher := PWait\<rparr>"
  note init = queue_started_def queue_init_def
  have "session_step\<^sup>*\<^sup>* queue_started ?s"
    using batch_queued [of queue_started fs] assms by (simp add: init)
  then have start: "system_step\<^sup>*\<^sup>* queue_started ?s" by (rule session_is_system)
  have "reader_step ?s ?s1" using reader_step.flush_count [of ?s "length fs"] by (simp add: init)
  moreover have "publisher_step ?s1 ?s2" by (intro publisher_step.dequeue) (simp_all add: init)
  moreover have "publisher_step ?s2 ?s3" by (intro publisher_step.compare_ge) (simp_all add: batch_size_def)
  moreover have "controller_step ?s3 ?s4" by (intro controller_step.shutdown) (simp_all add: init)
  moreover have "reader_step ?s4 ?s5" by (intro reader_step.reader_return) (simp_all add: init)
  moreover have "controller_step ?s5 ?s6" by (intro controller_step.joined) simp_all
  moreover have "controller_step ?s6 ?s7" using controller_step.drained [of ?s6] by simp
  moreover have "publisher_step ?s7 ?s8"
    using publisher_step.subtract [of ?s7 fs] by (simp add: batch_size_def)
  moreover have "publisher_step ?s8 ?s9" using publisher_step.publish [of ?s8 fs] by (simp add: init)
  ultimately have "system_step\<^sup>*\<^sup>* ?s ?s9"
    by (meson system_step_def rtranclp.rtrancl_into_rtrancl rtranclp.rtrancl_refl)
  with start show ?thesis by (auto simp: init)
qed

lemma no_step_when_hung:
  assumes "qs_queue s = []" "qs_publisher s = PWait" "qs_depth s \<noteq> 0" "qs_reader s = RDone" "qs_controller s = CJoinPublisher"
  shows "\<not> system_step s t"
  using assms by (auto simp: system_step_def elim!: reader_step.cases publisher_step.cases controller_step.cases)

lemma hung_forever: "system_step\<^sup>*\<^sup>* s t \<Longrightarrow> (\<And>u. \<not> system_step s u) \<Longrightarrow> t = s"
  by (induction rule: converse_rtranclp_induct) auto

section \<open>Properties\<close>

text \<open>C1: However the three threads interleave, over any number of stops and restarts, every frame read from the
  device is published, dropped or drained exactly once or still on its way, the frames come out in the
  order they were captured, and once \<open>shutdown\<close> has returned none is left on the way.\<close>

theorem frames_are_conserved:
  assumes "system_step\<^sup>*\<^sup>* queue_init s"
  shows "subseq (qs_published s @ in_flight s) (qs_captured s) \<and>
    length (qs_captured s) = length (qs_published s) + length (in_flight s) + qs_lost s \<and>
    (qs_controller s = CEnd \<longrightarrow> in_flight s = [])"
proof -
  have "conserved s" using conserved_system [OF assms conserved_init] .
  then show ?thesis by (auto simp: conserved_def in_flight_def)
qed

lemma frames_are_conserved_witness:
  "length (qs_captured (queue_started :: nat queue_state)) =
     length (qs_published (queue_started :: nat queue_state)) + length (in_flight (queue_started :: nat queue_state)) +
     qs_lost (queue_started :: nat queue_state)"
  using frames_are_conserved [OF init_starts] by blast



text \<open>If moreover the publisher never takes a batch that the reader has queued but not yet counted, the counter
  is exact: it equals the number of frames that are queued or just taken off, except for the batch being
  counted, so at most 120000 frames are ever queued.\<close>

theorem calm_queue_is_exact:
  assumes "calm_step\<^sup>*\<^sup>* queue_started s" and "length (qs_captured s) < 2 ^ 63"
  shows "unat (qs_depth s) + owed (qs_reader s) = length (concat (qs_queue s)) + taken (qs_publisher s) \<and>
    length (concat (qs_queue s)) \<le> kMaxPendingFrames"
proof -
  have s: "accounted s" using accounted_calm [OF assms(1) accounted_started(1,2) assms(2)] .
  then have "unat (qs_depth s) + owed (qs_reader s) \<le> kMaxPendingFrames"
    by (cases "qs_reader s") (auto simp: accounted_def depth_bounded_def owed_def)
  with s show ?thesis by (simp add: accounted_def)
qed

lemma calm_queue_is_exact_witness:
  "length (concat (qs_queue (queue_started\<lparr>qs_batch := [7 :: nat], qs_captured := [7]\<rparr>))) \<le> kMaxPendingFrames"
proof -
  let ?s = "queue_started\<lparr>qs_batch := [7 :: nat], qs_captured := [7]\<rparr>"
  have "reader_step queue_started ?s"
    using reader_step.capture [of queue_started "7 :: nat"] by (simp add: queue_started_def queue_init_def)
  then have "calm_step queue_started ?s"
    by (auto simp: calm_step_def session_step_def queue_started_def queue_init_def)
  then have "calm_step\<^sup>*\<^sup>* queue_started ?s" by blast
  from calm_queue_is_exact [OF this] show ?thesis by simp
qed

text \<open>\<open>flushBatch\<close> queues a batch before it counts it. A publisher that takes it in between resets the counter,
  and the count then added stays for good: with the queue empty and both threads idle, a batch of
  60001 frames leaves 60001 frames counted, and as long as the reader flushes batches of 60000 frames or more
  it drops every one of them; nothing is ever published again.\<close>

theorem overtaken_count_blocks_publishing:
  assumes "length fs = 60001"
  shows "\<exists>s. session_step\<^sup>*\<^sup>* queue_started s \<and> in_flight s = [] \<and> qs_publisher s = PWait \<and> qs_reader s = RLoop \<and>
    qs_depth s = 60001 \<and> qs_published s = fs \<and>
    (\<forall>t. (full_step 60000)\<^sup>*\<^sup>* s t \<longrightarrow> qs_published t = fs \<and> qs_depth t = 60001)"
proof -
  let ?s = "queue_started\<lparr>qs_captured := fs, qs_published := fs, qs_depth := of_nat (length fs)\<rparr>"
  have "fs \<noteq> []" using assms by auto
  then have "session_step\<^sup>*\<^sup>* queue_started ?s"
    using overtaken_batch [of queue_started fs] assms by (simp add: queue_started_def queue_init_def kMaxPendingFrames_def)
  moreover have "blocked 60001 fs ?s"
    using assms by (simp add: blocked_def queue_started_def queue_init_def)
  then have "blocked 60001 fs t" if "(full_step 60000)\<^sup>*\<^sup>* ?s t" for t
    using that by (intro blocked_run [OF that]) (simp_all add: kMaxPendingFrames_def)
  then have "qs_published t = fs \<and> qs_depth t = 60001" if "(full_step 60000)\<^sup>*\<^sup>* ?s t" for t
    using that by (auto simp: blocked_def)
  ultimately show ?thesis
    using assms by (intro exI [of _ ?s]) (simp add: in_flight_def queue_started_def queue_init_def)
qed

lemma overtaken_count_blocks_publishing_witness:
  "\<exists>s. session_step\<^sup>*\<^sup>* queue_started s \<and> qs_depth s = 60001 \<and> qs_published s = replicate 60001 (0 :: nat)"
  using overtaken_count_blocks_publishing [of "replicate 60001 (0 :: nat)"] by auto



end
