(* ===== verification/OspVersion.thy ===== *)
theory OspVersion
  imports CppText
begin

text \<open>
  \<open>OSP/src/Version.cpp\<close> and \<open>OSP/src/VersionRange.cpp\<close>: version numbers, their text form, their order
  and ranges of them.
\<close>

section \<open>Versions\<close>

datatype version = Version (v_major: int) (v_minor: int) (v_revision: int) (v_designation: string)

definition no_version :: version where
  "no_version = Version 0 0 0 []"

definition version_toString :: "version \<Rightarrow> string" where
  "version_toString v =
     show_int (v_major v) @ ''.'' @ show_int (v_minor v) @ ''.'' @ show_int (v_revision v) @
     (if v_designation v \<noteq> [] then CHR ''-'' # v_designation v else [])"

text \<open>
  \<open>while (it != end && std::isdigit(*it)) maj = 10*maj + *it++ - '0'\<close>, in 32 bits (an overflow wraps
  around); the result is the value and the rest of the text.
\<close>

fun parse_number :: "int \<Rightarrow> string \<Rightarrow> int \<times> string" where
  "parse_number n [] = (n, [])"
| "parse_number n (c # cs) =
     (if c_isdigit c then parse_number (sint (word_of_int (10 * n + int (digit_value c)) :: 32 word)) cs
      else (n, c # cs))"

text \<open>Reading the first character of an empty text yields the terminating null character.\<close>

definition parseVersion :: "string \<Rightarrow> exc + version" where
  "parseVersion str =
     (let (maj, r1) = (if str \<noteq> [] \<and> c_isdigit (hd str) then parse_number 0 str else (0, str));
          started = (str \<noteq> [] \<and> c_isdigit (hd str));
          (mi, r2) = (if started \<and> r1 \<noteq> [] \<and> hd r1 = CHR ''.'' then parse_number 0 (tl r1) else (0, r1));
          dotted = (started \<and> r1 \<noteq> [] \<and> hd r1 = CHR ''.'');
          (rev, r3) = (if dotted \<and> r2 \<noteq> [] \<and> hd r2 = CHR ''.'' then parse_number 0 (tl r2) else (0, r2));
          full = (dotted \<and> r2 \<noteq> [] \<and> hd r2 = CHR ''.'');
          (designation, r4) = (if full \<and> r3 \<noteq> [] \<and> hd r3 = CHR ''-'' then (tl r3, []) else ([], r3))
      in if r4 = [] then Inr (Version maj mi rev designation)
         else Inl (SyntaxException (''Not a valid version number'' @ '': '' @ str)))"

text \<open>\<open>operator ==\<close> leaves the designation out.\<close>

definition same_version :: "version \<Rightarrow> version \<Rightarrow> bool" where
  "same_version v w \<longleftrightarrow> v_major v = v_major w \<and> v_minor v = v_minor w \<and> v_revision v = v_revision w"

text \<open>\<open>operator <\<close> and \<open>operator <=\<close>; the other two are their mirror images.\<close>

instantiation version :: preorder
begin

definition less_version :: "version \<Rightarrow> version \<Rightarrow> bool" where
  "less_version v w \<longleftrightarrow>
     (if v_major v < v_major w then True
      else if v_major v = v_major w then
        (if v_minor v < v_minor w then True
         else if v_minor v = v_minor w then v_revision v < v_revision w
         else False)
      else False)"

definition less_eq_version :: "version \<Rightarrow> version \<Rightarrow> bool" where
  "less_eq_version v w \<longleftrightarrow>
     (if v_major v < v_major w then True
      else if v_major v = v_major w then
        (if v_minor v < v_minor w then True
         else if v_minor v = v_minor w then v_revision v \<le> v_revision w
         else False)
      else False)"

instance
  by standard (auto simp: less_version_def less_eq_version_def split: if_splits)

end

lemma version_linear: "v \<le> w \<or> w \<le> (v :: version)"
  by (auto simp: less_eq_version_def)

lemma same_version_iff: "same_version v w \<longleftrightarrow> v \<le> w \<and> w \<le> v"
  by (auto simp: same_version_def less_eq_version_def split: if_splits)

lemma version_not_less: "\<not> v < w \<longleftrightarrow> w \<le> (v :: version)"
  by (auto simp: less_version_def less_eq_version_def)

section \<open>Ranges\<close>

record version_range =
  vr_lower :: version
  vr_upper :: version
  vr_includeLower :: bool
  vr_includeUpper :: bool

definition any_version :: version_range where
  "any_version = \<lparr>vr_lower = no_version, vr_upper = no_version, vr_includeLower = False, vr_includeUpper = False\<rparr>"

definition exactly :: "version \<Rightarrow> version_range" where
  "exactly v = \<lparr>vr_lower = v, vr_upper = v, vr_includeLower = True, vr_includeUpper = True\<rparr>"

definition isInRange :: "version_range \<Rightarrow> version \<Rightarrow> bool" where
  "isInRange r v \<longleftrightarrow>
     ((vr_includeLower r \<and> same_version v (vr_lower r)) \<or> vr_lower r < v) \<and>
     ((vr_includeUpper r \<and> same_version v (vr_upper r)) \<or> v < vr_upper r)"

definition range_isEmpty :: "version_range \<Rightarrow> bool" where
  "range_isEmpty r \<longleftrightarrow> same_version (vr_lower r) (vr_upper r) \<and> \<not> vr_includeLower r"

definition range_toString :: "version_range \<Rightarrow> string" where
  "range_toString r =
     (if vr_includeLower r then ''['' else ''('') @
     (if \<not> range_isEmpty r then version_toString (vr_lower r) @ '','' @ version_toString (vr_upper r) else []) @
     (if vr_includeUpper r then '']'' else '')'')"

section \<open>Text and back\<close>

definition small_number :: "int \<Rightarrow> bool" where
  "small_number i \<longleftrightarrow> 0 \<le> i \<and> i < 2 ^ 31"

definition small_version :: "version \<Rightarrow> bool" where
  "small_version v \<longleftrightarrow> small_number (v_major v) \<and> small_number (v_minor v) \<and> small_number (v_revision v)"

lemma sint_small: "0 \<le> i \<Longrightarrow> i < 2 ^ 31 \<Longrightarrow> sint (word_of_int i :: 32 word) = i"
  by (simp add: sint_sbintrunc' signed_take_bit_int_eq_self)

lemma digits_bound: "n \<le> foldl (\<lambda>a c. 10 * a + digit_value c) n ds"
  by (induction ds arbitrary: n) (simp, fastforce intro: order_trans [rotated])

lemma parse_number_digits:
  assumes "\<And>c. c \<in> set ds \<Longrightarrow> c_isdigit c" and "rest = [] \<or> \<not> c_isdigit (hd rest)"
    and "foldl (\<lambda>a c. 10 * a + digit_value c) n ds < 2 ^ 31"
  shows "parse_number (int n) (ds @ rest) = (int (foldl (\<lambda>a c. 10 * a + digit_value c) n ds), rest)"
  using assms
proof (induction ds arbitrary: n)
  case Nil
  then show ?case by (cases rest) auto
next
  case (Cons d ds)
  have "10 * n + digit_value d < 2 ^ 31"
    using Cons.prems(3) digits_bound [of "10 * n + digit_value d" ds] by simp
  then have "sint (word_of_int (10 * int n + int (digit_value d)) :: 32 word) = int (10 * n + digit_value d)"
    using sint_small [of "int (10 * n + digit_value d)"] by simp
  then show ?case
    using Cons.IH [of "10 * n + digit_value d"] Cons.prems by simp
qed

lemma parse_shown_number:
  assumes "small_number i" and "rest = [] \<or> \<not> c_isdigit (hd rest)"
  shows "parse_number 0 (show_int i @ rest) = (i, rest)"
proof -
  have i: "0 \<le> i" "i < 2 ^ 31" and s: "show_int i = show_nat (nat i)"
    using assms(1) by (simp_all add: small_number_def show_int_def)
  have "foldl (\<lambda>a c. 10 * a + digit_value c) 0 (show_nat (nat i)) = nat i"
    using read_show_nat [of "nat i"] by (simp add: read_digits_def)
  moreover have "nat i < 2 ^ 31" using i by simp
  ultimately show ?thesis
    using parse_number_digits [of "show_nat (nat i)" rest 0] show_nat_digits assms(2) i by (simp add: s)
qed

lemma show_int_digit: "small_number i \<Longrightarrow> show_int i \<noteq> [] \<and> c_isdigit (hd (show_int i))"
  using show_nat_digits [of "hd (show_nat (nat i))" "nat i"] by (simp add: small_number_def show_int_def)

lemma version_text_round_trip_aux:
  assumes "small_version v"
  shows "parseVersion (version_toString v) = Inr v"
proof -
  obtain a b c d where v: "v = Version a b c d" by (cases v)
  have small: "small_number a" "small_number b" "small_number c" using assms by (simp_all add: v small_version_def)
  let ?tail = "if d \<noteq> [] then CHR ''-'' # d else []"
  have shown: "version_toString v = show_int a @ CHR ''.'' # show_int b @ CHR ''.'' # show_int c @ ?tail"
    by (simp add: version_toString_def v)
  have nodigit: "\<not> c_isdigit CHR ''.''" "\<not> c_isdigit CHR ''-''" by (simp_all add: c_isdigit_def)
  have p1: "parse_number 0 (version_toString v) = (a, CHR ''.'' # show_int b @ CHR ''.'' # show_int c @ ?tail)"
    unfolding shown by (rule parse_shown_number [OF small(1)]) (simp add: nodigit)
  have p2: "parse_number 0 (show_int b @ CHR ''.'' # show_int c @ ?tail) = (b, CHR ''.'' # show_int c @ ?tail)"
    by (rule parse_shown_number [OF small(2)]) (simp add: nodigit)
  have p3: "parse_number 0 (show_int c @ ?tail) = (c, ?tail)"
    by (rule parse_shown_number [OF small(3)]) (simp add: nodigit)
  have start: "version_toString v \<noteq> []" "c_isdigit (hd (version_toString v))"
    unfolding shown using show_int_digit [OF small(1)] by simp_all
  show ?thesis
    unfolding parseVersion_def Let_def using start by (simp add: p1 p2 p3) (simp add: v)
qed

definition version_key :: "version \<Rightarrow> int \<times> int \<times> int" where
  "version_key v = (v_major v, v_minor v, v_revision v)"

text \<open>The order as a specification states it: lexicographic.\<close>

fun lex_le :: "int \<times> int \<times> int \<Rightarrow> int \<times> int \<times> int \<Rightarrow> bool" where
  "lex_le (a, b, c) (a', b', c') \<longleftrightarrow> a < a' \<or> (a = a' \<and> (b < b' \<or> (b = b' \<and> c \<le> c')))"

section \<open>Properties\<close>

text \<open>A version is parsed back from the text it is printed as, designation included.\<close>

theorem version_text_round_trip:
  assumes "small_version v"
  shows "parseVersion (version_toString v) = Inr v"
  using assms by (rule version_text_round_trip_aux)

lemma version_text_round_trip_witness: "parseVersion (version_toString (Version 2 13 0 ''beta'')) = Inr (Version 2 13 0 ''beta'')"
  by (rule version_text_round_trip) (simp add: small_version_def small_number_def)

text \<open>The four comparison operators are those of the lexicographic order on major, minor and revision: it is total, equality is
  \<open>operator ==\<close>, which does not look at the designation, so a version and its release candidate are the same; and a range contains
  a version exactly when it lies between its bounds, each counted in when it is included.\<close>

theorem version_order:
  "(v \<le> w \<longleftrightarrow> lex_le (version_key v) (version_key w)) \<and> (v \<le> w \<or> w \<le> v) \<and>
   (v < w \<longleftrightarrow> \<not> w \<le> v) \<and> (same_version v w \<longleftrightarrow> version_key v = version_key w) \<and> (same_version v w \<longleftrightarrow> v \<le> w \<and> w \<le> v) \<and>
   (isInRange r v \<longleftrightarrow> (if vr_includeLower r then vr_lower r \<le> v else vr_lower r < v) \<and>
      (if vr_includeUpper r then v \<le> vr_upper r else v < vr_upper r))"
proof (intro conjI)
  show "isInRange r v \<longleftrightarrow> (if vr_includeLower r then vr_lower r \<le> v else vr_lower r < v) \<and>
      (if vr_includeUpper r then v \<le> vr_upper r else v < vr_upper r)"
    by (auto simp: isInRange_def less_eq_version_def less_version_def same_version_def split: if_splits)
qed (auto simp: version_key_def less_eq_version_def less_version_def same_version_def split: if_splits)

end
