(* ===== verification/OspManifest.thy ===== *)
theory OspManifest
  imports OspVersion
begin

text \<open>
  \<open>OSP/src/BundleManifest.cpp\<close>: the manifest of a bundle and the parsers of its dependency lists. The
  property file is POCO's and comes in as a function from keys to values. A parser whose loop makes
  no progress does not return.
\<close>

section \<open>The data\<close>

record dependency =
  dep_symbolicName :: string
  dep_versions :: version_range

record module_decl =
  mod_symbolicName :: string
  mod_version :: version

record manifest =
  mf_name :: string
  mf_symbolicName :: string
  mf_version :: version
  mf_vendor :: string
  mf_copyright :: string
  mf_activatorClass :: string
  mf_activatorLibrary :: string
  mf_requiredBundles :: "dependency list"
  mf_requiredModules :: "dependency list"
  mf_providedModules :: "module_decl list"
  mf_extendedBundle :: string
  mf_lazyStart :: bool
  mf_sealed :: bool
  mf_preventUninstall :: bool
  mf_runLevel :: string

definition manifest_error :: "string \<Rightarrow> string \<Rightarrow> exc" where
  "manifest_error what msg = OspException ManifestException (what @ '': '' @ msg)"

definition quoted :: "string \<Rightarrow> string" where
  "quoted s = CHR 0x27 # s @ [CHR 0x27]"

section \<open>Scanning\<close>

definition skip_spaces :: "string \<Rightarrow> string" where
  "skip_spaces s = dropWhile c_isspace s"

text \<open>The longest prefix without white space and without the given characters, and the rest.\<close>

definition word_until :: "char list \<Rightarrow> string \<Rightarrow> string \<times> string" where
  "word_until stops s =
     (takeWhile (\<lambda>c. \<not> c_isspace c \<and> c \<notin> set stops) s, dropWhile (\<lambda>c. \<not> c_isspace c \<and> c \<notin> set stops) s)"

definition starts_with :: "char \<Rightarrow> string \<Rightarrow> bool" where
  "starts_with c s \<longleftrightarrow> s \<noteq> [] \<and> hd s = c"

section \<open>The activator\<close>

definition parseActivator :: "string \<Rightarrow> exc + (string \<times> string)" where
  "parseActivator activator =
     (let (clazz, r0) = word_until '';'' (skip_spaces activator); r1 = skip_spaces r0 in
      if r1 = [] then Inr (clazz, [])
      else if starts_with CHR '';'' r1 then
        (let (keyword, r2) = word_until ''='' (skip_spaces (tl r1)) in
         if keyword \<noteq> ''library'' then Inl (manifest_error ''Bundle-Activator'' ''Unknown keyword following activator class name'')
         else
           let r3 = skip_spaces r2 in
           if \<not> starts_with CHR ''='' r3 then Inl (manifest_error ''Bundle-Activator'' (''The library keyword must be followed by '' @ quoted ''=''))
           else
             let (library, r4) = word_until [] (skip_spaces (tl r3)) in
             if skip_spaces r4 \<noteq> [] then Inl (manifest_error ''Bundle-Activator'' ''Invalid characters after activator class name'')
             else Inr (clazz, library))
      else Inl (manifest_error ''Bundle-Activator'' ''Invalid characters after activator class name''))"

section \<open>Required bundles and modules\<close>

text \<open>A range: \<open>None\<close> when the lower bound is not followed by a comma.\<close>

definition parse_range :: "string \<Rightarrow> string \<Rightarrow> exc + (version_range option \<times> string)" where
  "parse_range what s =
     (let includeLower = starts_with CHR ''['' s;
          (lowerStr, r0) = word_until '','' (skip_spaces (tl s));
          r1 = skip_spaces r0
      in if starts_with CHR '','' r1 then
           (let (upperStr, r2) = word_until '')]'' (skip_spaces (tl r1)); r3 = skip_spaces r2 in
            if starts_with CHR '')'' r3 \<or> starts_with CHR '']'' r3 then
              (case parseVersion lowerStr of
                 Inl e \<Rightarrow> Inl e
               | Inr lower \<Rightarrow>
                   (case parseVersion upperStr of
                      Inl e \<Rightarrow> Inl e
                    | Inr upper \<Rightarrow>
                        if lower \<le> upper then
                          Inr (Some \<lparr>vr_lower = lower, vr_upper = upper, vr_includeLower = includeLower,
                                     vr_includeUpper = starts_with CHR '']'' r3\<rparr>, tl r3)
                        else Inl (PocoException ''Assertion violation: lower <= upper'')))
            else Inl (manifest_error what ''Invalid version range specified''))
         else Inr (None, r1))"

text \<open>What follows the semicolon: the version clause.\<close>

definition parse_versions :: "string \<Rightarrow> string \<Rightarrow> string \<Rightarrow> exc + (version_range option \<times> string)" where
  "parse_versions what versionKeyword s =
     (let (keyword, r0) = word_until ''='' (skip_spaces s) in
      if keyword \<noteq> versionKeyword then Inl (manifest_error what ''Unknown keyword following item name'')
      else
        let r1 = skip_spaces r0 in
        if \<not> starts_with CHR ''='' r1 then Inl (manifest_error what (''The '' @ versionKeyword @ '' keyword must be followed by '' @ quoted ''=''))
        else
          let r2 = skip_spaces (tl r1) in
          if r2 = [] then Inl (manifest_error what (''The '' @ versionKeyword @ '' keyword must be followed by a version or version range''))
          else if starts_with CHR ''('' r2 \<or> starts_with CHR ''['' r2 then parse_range what r2
          else
            let (versionStr, r3) = word_until '','' r2 in
            case parseVersion versionStr of Inl e \<Rightarrow> Inl e | Inr v \<Rightarrow> Inr (Some (exactly v), r3))"

text \<open>One turn of the loop, up to the comma: the item if there is a name, and the rest.\<close>

definition required_item :: "string \<Rightarrow> string \<Rightarrow> string \<Rightarrow> exc + (dependency list \<times> string)" where
  "required_item what versionKeyword s =
     (let (name, r0) = word_until '',;'' (skip_spaces s) in
      if name = [] then Inr ([], r0)
      else
        let r1 = skip_spaces r0 in
        if starts_with CHR '';'' r1 then
          (case parse_versions what versionKeyword (tl r1) of
             Inl e \<Rightarrow> Inl e
           | Inr (None, r) \<Rightarrow> Inr ([\<lparr>dep_symbolicName = name, dep_versions = any_version\<rparr>], r)
           | Inr (Some versions, r) \<Rightarrow> Inr ([\<lparr>dep_symbolicName = name, dep_versions = versions\<rparr>], r))
        else Inr ([\<lparr>dep_symbolicName = name, dep_versions = any_version\<rparr>], r1))"

definition skip_comma :: "string \<Rightarrow> string" where
  "skip_comma s = (if starts_with CHR '','' s then tl s else s)"

partial_function (option) parse_items :: "(string \<Rightarrow> exc + ('a list \<times> string)) \<Rightarrow> string \<Rightarrow> 'a list \<Rightarrow> (exc + 'a list) option" where
  "parse_items item s acc =
     (if s = [] then Some (Inr acc)
      else case item s of
             Inl e \<Rightarrow> Some (Inl e)
           | Inr (ds, r) \<Rightarrow> parse_items item (skip_comma r) (acc @ ds))"

definition parseRequiredItems :: "string \<Rightarrow> string \<Rightarrow> string \<Rightarrow> (exc + dependency list) option" where
  "parseRequiredItems what versionKeyword requiredItems = parse_items (required_item what versionKeyword) requiredItems []"

definition parseRequiredBundles :: "string \<Rightarrow> (exc + dependency list) option" where
  "parseRequiredBundles requiredBundles = parseRequiredItems ''Require-Bundle'' ''bundle-version'' requiredBundles"

definition parseRequiredModules :: "string \<Rightarrow> (exc + dependency list) option" where
  "parseRequiredModules requiredModules = parseRequiredItems ''Require-Module'' ''module-version'' requiredModules"

section \<open>Provided modules\<close>

definition provided_item :: "string \<Rightarrow> exc + (module_decl list \<times> string)" where
  "provided_item s =
     (let what = ''Provide-Module''; (name, r0) = word_until '',;'' (skip_spaces s) in
      if name = [] then Inr ([], r0)
      else
        let r1 = skip_spaces r0 in
        if \<not> starts_with CHR '';'' r1 then Inl (manifest_error what ''No module-version specified'')
        else
          let (keyword, r2) = word_until ''='' (skip_spaces (tl r1)) in
          if keyword \<noteq> ''module-version'' then Inl (manifest_error what ''Unknown keyword following module name'')
          else
            let r3 = skip_spaces r2 in
            if \<not> starts_with CHR ''='' r3 then Inl (manifest_error what (''The module-version keyword must be followed by '' @ quoted ''=''))
            else
              let r4 = skip_spaces (tl r3) in
              if r4 = [] then Inl (manifest_error what ''The module-version keyword must be followed by a version'')
              else
                let (versionStr, r5) = word_until '','' r4 in
                case parseVersion versionStr of
                  Inl e \<Rightarrow> Inl e
                | Inr v \<Rightarrow> Inr ([\<lparr>mod_symbolicName = name, mod_version = v\<rparr>], r5))"

definition parseProvidedModules :: "string \<Rightarrow> (exc + module_decl list) option" where
  "parseProvidedModules providedModules = parse_items provided_item providedModules []"

section \<open>The manifest\<close>

text \<open>The property file: \<open>getString\<close> and \<open>getBool\<close>.\<close>

record properties =
  pr_string :: "string \<Rightarrow> string option"
  pr_bool :: "string \<Rightarrow> exc + bool"   \<comment> \<open>the value read as a truth value, when there is one\<close>

definition getString :: "properties \<Rightarrow> string \<Rightarrow> exc + string" where
  "getString p key = (case pr_string p key of None \<Rightarrow> Inl (NotFoundException key) | Some v \<Rightarrow> Inr v)"

definition getStringOr :: "properties \<Rightarrow> string \<Rightarrow> string \<Rightarrow> string" where
  "getStringOr p key dflt = (case pr_string p key of None \<Rightarrow> dflt | Some v \<Rightarrow> v)"

definition getBoolOr :: "properties \<Rightarrow> string \<Rightarrow> bool \<Rightarrow> exc + bool" where
  "getBoolOr p key dflt = (case pr_string p key of None \<Rightarrow> Inr dflt | Some _ \<Rightarrow> pr_bool p key)"

type_synonym 'a may_hang = "(exc + 'a) option"

definition mh_bind :: "'a may_hang \<Rightarrow> ('a \<Rightarrow> 'b may_hang) \<Rightarrow> 'b may_hang" where
  "mh_bind m f = (case m of None \<Rightarrow> None | Some (Inl e) \<Rightarrow> Some (Inl e) | Some (Inr x) \<Rightarrow> f x)"

definition parseManifest :: "properties \<Rightarrow> manifest may_hang" where
  "parseManifest p =
     mh_bind (Some (getString p ''Manifest-Version'')) (\<lambda>manifestVersion.
     if manifestVersion \<noteq> ''1.0'' then Some (Inl (OspException ManifestException (''Unsupported manifest version'' @ '': '' @ manifestVersion)))
     else
     mh_bind (Some (getString p ''Bundle-Name'')) (\<lambda>name.
     mh_bind (Some (getString p ''Bundle-SymbolicName'')) (\<lambda>symbolicName.
     mh_bind (Some (getString p ''Bundle-Version'')) (\<lambda>versionText.
     mh_bind (Some (parseVersion versionText)) (\<lambda>version.
     mh_bind (Some (getBoolOr p ''Bundle-LazyStart'' False)) (\<lambda>lazyStart.
     mh_bind (Some (getBoolOr p ''Bundle-Sealed'' False)) (\<lambda>sealed.
     mh_bind (Some (getBoolOr p ''Bundle-PreventUninstall'' False)) (\<lambda>preventUninstall.
     mh_bind (Some (parseActivator (getStringOr p ''Bundle-Activator'' []))) (\<lambda>(activatorClass, activatorLibrary).
     mh_bind (parseRequiredBundles (getStringOr p ''Require-Bundle'' [])) (\<lambda>requiredBundles.
     mh_bind (parseRequiredModules (getStringOr p ''Require-Module'' [])) (\<lambda>requiredModules.
     mh_bind (parseProvidedModules (getStringOr p ''Provide-Module'' [])) (\<lambda>providedModules.
       Some (Inr \<lparr>mf_name = name, mf_symbolicName = symbolicName, mf_version = version,
         mf_vendor = getStringOr p ''Bundle-Vendor'' [], mf_copyright = getStringOr p ''Bundle-Copyright'' [],
         mf_activatorClass = activatorClass, mf_activatorLibrary = activatorLibrary,
         mf_requiredBundles = requiredBundles, mf_requiredModules = requiredModules, mf_providedModules = providedModules,
         mf_extendedBundle = getStringOr p ''Extends-Bundle'' [],
         mf_lazyStart = lazyStart, mf_sealed = sealed, mf_preventUninstall = preventUninstall,
         mf_runLevel = getStringOr p ''Bundle-RunLevel'' ''999-user''\<rparr>)))))))))))))"

section \<open>Printing a list of requirements\<close>

definition plain_word :: "char list \<Rightarrow> string \<Rightarrow> bool" where
  "plain_word stops s \<longleftrightarrow> (\<forall>c \<in> set s. \<not> c_isspace c \<and> c \<notin> set stops)"

definition print_requirement :: "string \<Rightarrow> dependency \<Rightarrow> string" where
  "print_requirement versionKeyword d =
     dep_symbolicName d @
     (if dep_versions d = any_version then [] else '';'' @ versionKeyword @ ''='' @ range_toString (dep_versions d))"

fun print_requirements :: "string \<Rightarrow> dependency list \<Rightarrow> string" where
  "print_requirements versionKeyword [] = []"
| "print_requirements versionKeyword [d] = print_requirement versionKeyword d"
| "print_requirements versionKeyword (d # ds) = print_requirement versionKeyword d @ '','' @ print_requirements versionKeyword ds"

definition printable_version :: "version \<Rightarrow> bool" where
  "printable_version v \<longleftrightarrow> small_version v \<and> plain_word '',)]'' (v_designation v)"

definition printable :: "dependency \<Rightarrow> bool" where
  "printable d \<longleftrightarrow> dep_symbolicName d \<noteq> [] \<and> plain_word '',;'' (dep_symbolicName d) \<and>
     (dep_versions d = any_version \<or>
      (\<not> range_isEmpty (dep_versions d) \<and> vr_lower (dep_versions d) \<le> vr_upper (dep_versions d) \<and>
       printable_version (vr_lower (dep_versions d)) \<and> printable_version (vr_upper (dep_versions d))))"

lemma word_until_plain:
  assumes "plain_word stops w" and "rest = [] \<or> c_isspace (hd rest) \<or> hd rest \<in> set stops"
  shows "word_until stops (w @ rest) = (w, rest)"
  using assms unfolding word_until_def plain_word_def
  by (cases rest) (auto simp: takeWhile_append dropWhile_append)

lemma word_until_all: "plain_word stops w \<Longrightarrow> word_until stops w = (w, [])"
  using word_until_plain [of stops w "[]"] by simp

lemma skip_spaces_none: "s = [] \<or> \<not> c_isspace (hd s) \<Longrightarrow> skip_spaces s = s"
  by (cases s) (auto simp: skip_spaces_def)

lemma plain_hd: "plain_word stops s \<Longrightarrow> s \<noteq> [] \<Longrightarrow> \<not> c_isspace (hd s)"
  by (simp add: plain_word_def)

lemma digit_plain: "c_isdigit c \<Longrightarrow> \<not> c_isspace c \<and> c \<notin> set '',;=)](['' \<and> c \<noteq> CHR ''.''"
  by (auto simp: c_isdigit_def c_isspace_def)

lemma show_small_plain: "small_number i \<Longrightarrow> c \<in> set (show_int i) \<Longrightarrow> c_isdigit c"
  by (auto simp: small_number_def show_int_def dest: show_nat_digits)

lemma version_chars:
  assumes "small_version v" and "c \<in> set (version_toString v)"
  shows "c_isdigit c \<or> c = CHR ''.'' \<or> c = CHR ''-'' \<or> c \<in> set (v_designation v)"
  using assms show_small_plain by (auto simp: small_version_def version_toString_def split: if_splits)

lemma version_text_plain:
  assumes "printable_version v"
  shows "plain_word '',)]'' (version_toString v)"
  unfolding plain_word_def
proof
  fix c assume "c \<in> set (version_toString v)"
  then have "c_isdigit c \<or> c = CHR ''.'' \<or> c = CHR ''-'' \<or> c \<in> set (v_designation v)"
    using assms version_chars by (simp add: printable_version_def)
  then show "\<not> c_isspace c \<and> c \<notin> set '',)]''"
  proof (elim disjE)
    assume "c_isdigit c"
    then show ?thesis using digit_plain [of c] by simp
  next
    assume "c \<in> set (v_designation v)"
    then show ?thesis using assms unfolding printable_version_def plain_word_def by blast
  qed (simp_all add: c_isspace_def)
qed

lemma version_text_start: "printable_version v \<Longrightarrow> version_toString v \<noteq> [] \<and> c_isdigit (hd (version_toString v))"
  using show_int_digit by (auto simp: printable_version_def small_version_def version_toString_def)

lemma plain_fewer: "plain_word stops s \<Longrightarrow> set stops' \<subseteq> set stops \<Longrightarrow> plain_word stops' s"
  by (auto simp: plain_word_def)

lemma parse_printed_range:
  assumes "\<not> range_isEmpty r" and "printable_version (vr_lower r)" and "printable_version (vr_upper r)" and "vr_lower r \<le> vr_upper r"
  shows "parse_range what (range_toString r @ rest) = Inr (Some r, rest)"
proof -
  let ?L = "version_toString (vr_lower r)" and ?U = "version_toString (vr_upper r)"
  let ?close = "if vr_includeUpper r then CHR '']'' else CHR '')''"
  have form: "range_toString r @ rest = (if vr_includeLower r then CHR ''['' else CHR ''('') # ?L @ CHR '','' # ?U @ ?close # rest"
    using assms(1) by (simp add: range_toString_def)
  have skip: "skip_spaces (?L @ x) = ?L @ x" "skip_spaces (?U @ x) = ?U @ x" for x
    using version_text_start [OF assms(2)] version_text_start [OF assms(3)] isdigit_not_isspace
    by (auto intro!: skip_spaces_none)
  have lower: "word_until '','' (?L @ CHR '','' # x) = (?L, CHR '','' # x)" for x
    by (rule word_until_plain) (auto intro: plain_fewer [OF version_text_plain [OF assms(2)]])
  have upper: "word_until '')]'' (?U @ ?close # x) = (?U, ?close # x)" for x
    by (rule word_until_plain) (auto intro: plain_fewer [OF version_text_plain [OF assms(3)]])
  have space: "skip_spaces (CHR '','' # x) = CHR '','' # x" "skip_spaces (?close # x) = ?close # x" for x
    by (simp_all add: skip_spaces_def c_isspace_def)
  have parsed: "parseVersion ?L = Inr (vr_lower r)" "parseVersion ?U = Inr (vr_upper r)"
    using assms(2,3) version_text_round_trip_aux by (simp_all add: printable_version_def)
  show ?thesis
    unfolding form parse_range_def Let_def
    by (simp add: skip lower upper space parsed starts_with_def assms(4))
qed

lemma parse_printed_versions:
  assumes "\<not> range_isEmpty r" and "printable_version (vr_lower r)" and "printable_version (vr_upper r)" and "vr_lower r \<le> vr_upper r"
    and "kw \<noteq> []" and "plain_word ''='' kw"
  shows "parse_versions what kw (kw @ CHR ''='' # range_toString r @ rest) = Inr (Some r, rest)"
proof -
  obtain c x where c: "range_toString r @ rest = c # x" "c = CHR ''['' \<or> c = CHR ''(''"
    by (cases "vr_includeLower r") (simp_all add: range_toString_def)
  have skip: "skip_spaces (kw @ y) = kw @ y" for y
    using plain_hd [OF assms(6,5)] assms(5) by (auto intro!: skip_spaces_none)
  have "word_until ''='' (kw @ CHR ''='' # y) = (kw, CHR ''='' # y)" for y
    by (rule word_until_plain [OF assms(6)]) simp
  moreover have "skip_spaces (CHR ''='' # y) = CHR ''='' # y" for y by (simp add: skip_spaces_def c_isspace_def)
  moreover have "skip_spaces (range_toString r @ rest) = range_toString r @ rest"
    using c by (auto intro!: skip_spaces_none simp: c_isspace_def)
  moreover have "starts_with CHR ''('' (range_toString r @ rest) \<or> starts_with CHR ''['' (range_toString r @ rest)"
      "range_toString r @ rest \<noteq> []"
    using c by (auto simp: starts_with_def)
  ultimately show ?thesis
    using parse_printed_range [OF assms(1-4), of what rest] by (simp add: parse_versions_def Let_def skip starts_with_def)
qed

lemma parse_printed_item:
  assumes "printable d" and "kw \<noteq> []" and "plain_word ''='' kw" and "rest = [] \<or> hd rest = CHR '',''"
  shows "required_item what kw (print_requirement kw d @ rest) = Inr ([d], rest)"
proof -
  let ?n = "dep_symbolicName d"
  have n: "?n \<noteq> []" "plain_word '',;'' ?n" using assms(1) by (simp_all add: printable_def)
  have skip: "skip_spaces (?n @ y) = ?n @ y" for y
    using plain_hd [OF n(2,1)] n(1) by (auto intro!: skip_spaces_none)
  have rest: "skip_spaces rest = rest" using assms(4) by (auto intro!: skip_spaces_none simp: c_isspace_def)
  show ?thesis
  proof (cases "dep_versions d = any_version")
    case True
    have "word_until '',;'' (?n @ rest) = (?n, rest)"
      by (rule word_until_plain [OF n(2)]) (use assms(4) in auto)
    moreover have "\<lparr>dep_symbolicName = ?n, dep_versions = any_version\<rparr> = d" using True by simp
    ultimately show ?thesis
      using True n(1) assms(4) by (auto simp: required_item_def print_requirement_def Let_def skip rest starts_with_def)
  next
    case False
    let ?s = "kw @ CHR ''='' # range_toString (dep_versions d) @ rest"
    have "word_until '',;'' (?n @ CHR '';'' # ?s) = (?n, CHR '';'' # ?s)"
      by (rule word_until_plain [OF n(2)]) simp
    moreover have "skip_spaces (CHR '';'' # ?s) = CHR '';'' # ?s" by (simp add: skip_spaces_def c_isspace_def)
    moreover have "parse_versions what kw ?s = Inr (Some (dep_versions d), rest)"
      using assms False by (intro parse_printed_versions) (simp_all add: printable_def)
    ultimately show ?thesis
      using False n(1) by (simp add: required_item_def print_requirement_def Let_def skip starts_with_def)
  qed
qed

lemma printed_nonempty: "printable d \<Longrightarrow> print_requirement kw d \<noteq> []"
  by (simp add: printable_def print_requirement_def)

lemma parse_printed_items:
  assumes "list_all printable ds" and "kw \<noteq> []" and "plain_word ''='' kw"
  shows "parse_items (required_item what kw) (print_requirements kw ds) acc = Some (Inr (acc @ ds))"
  using assms
proof (induction kw ds arbitrary: acc rule: print_requirements.induct)
  case (1 kw)
  then show ?case by (simp add: parse_items.simps)
next
  case (2 kw d)
  have "required_item what kw (print_requirement kw d) = Inr ([d], [])"
    using parse_printed_item [of d kw "[]" what] 2 by simp
  then show ?case
    using printed_nonempty [of d kw] 2 by (simp add: parse_items.simps [of _ "print_requirement kw d"] parse_items.simps [of _ "[]"] skip_comma_def starts_with_def)
next
  case (3 kw d d' ds)
  let ?rest = "CHR '','' # print_requirements kw (d' # ds)"
  have "required_item what kw (print_requirement kw d @ ?rest) = Inr ([d], ?rest)"
    using 3 by (intro parse_printed_item) simp_all
  moreover have "skip_comma ?rest = print_requirements kw (d' # ds)" by (simp add: skip_comma_def starts_with_def)
  ultimately have "parse_items (required_item what kw) (print_requirement kw d @ ?rest) acc =
      parse_items (required_item what kw) (print_requirements kw (d' # ds)) (acc @ [d])"
    using printed_nonempty [of d kw] 3 by (simp add: parse_items.simps [of _ "print_requirement kw d @ ?rest"])
  then show ?case using 3 by simp
qed

section \<open>Properties\<close>

text \<open>A list of required bundles or modules, each with no version or with a range of versions, is parsed back from the text it is
  printed as: the same items in the same order, bounds, brackets and designations included.\<close>

theorem requirements_round_trip:
  assumes "list_all printable ds"
  shows "parseRequiredBundles (print_requirements ''bundle-version'' ds) = Some (Inr ds) \<and>
    parseRequiredModules (print_requirements ''module-version'' ds) = Some (Inr ds)"
  using parse_printed_items [OF assms, of _ _ "[]"]
  by (simp add: parseRequiredBundles_def parseRequiredModules_def parseRequiredItems_def plain_word_def c_isspace_def)

lemma requirements_round_trip_witness:
  "parseRequiredBundles (print_requirements ''bundle-version''
     [\<lparr>dep_symbolicName = ''osp.web'', dep_versions = \<lparr>vr_lower = Version 1 0 0 [], vr_upper = Version 2 0 0 ''rc'',
        vr_includeLower = True, vr_includeUpper = False\<rparr>\<rparr>, \<lparr>dep_symbolicName = ''osp.core'', dep_versions = any_version\<rparr>])
   = Some (Inr [\<lparr>dep_symbolicName = ''osp.web'', dep_versions = \<lparr>vr_lower = Version 1 0 0 [], vr_upper = Version 2 0 0 ''rc'',
        vr_includeLower = True, vr_includeUpper = False\<rparr>\<rparr>, \<lparr>dep_symbolicName = ''osp.core'', dep_versions = any_version\<rparr>])"
  by (rule requirements_round_trip [THEN conjunct1])
     (simp add: printable_def plain_word_def c_isspace_def any_version_def no_version_def range_isEmpty_def same_version_def
       printable_version_def small_version_def small_number_def less_eq_version_def)

text \<open>A text at which the loop makes no progress: no name in front of a semicolon.\<close>

lemma stuck_at_semicolon:
  assumes "item (CHR '';'' # rest) = Inr ([], CHR '';'' # rest)"
  shows "parse_items item (CHR '';'' # rest) acc = None"
proof (rule ccontr)
  assume "parse_items item (CHR '';'' # rest) acc \<noteq> None"
  then obtain y where "parse_items item (CHR '';'' # rest) acc = Some y" by blast
  then have "CHR '';'' # rest = CHR '';'' # rest \<longrightarrow> item (CHR '';'' # rest) = Inr ([], CHR '';'' # rest) \<longrightarrow> False"
  proof (rule parse_items.raw_induct [rotated, where P = "\<lambda>item s acc y. s = CHR '';'' # rest \<longrightarrow> item s = Inr ([], s) \<longrightarrow> False"])
    fix f :: "(string \<Rightarrow> exc + 'a list \<times> string) \<Rightarrow> string \<Rightarrow> 'a list \<Rightarrow> (exc + 'a list) option" and item s acc y
    assume IH: "\<And>item s acc y. f item s acc = Some y \<Longrightarrow> s = CHR '';'' # rest \<longrightarrow> item s = Inr ([], s) \<longrightarrow> False"
      and body: "(if s = [] then Some (Inr acc)
        else case item s of Inl e \<Rightarrow> Some (Inl e) | Inr (ds, r) \<Rightarrow> f item (skip_comma r) (acc @ ds)) = Some y"
    show "s = CHR '';'' # rest \<longrightarrow> item s = Inr ([], s) \<longrightarrow> False"
      using IH body by (auto simp: skip_comma_def starts_with_def)
  qed
  then show False using assms by simp
qed

lemma no_name_item: "required_item what kw (CHR '';'' # rest) = Inr ([], CHR '';'' # rest)"
  by (simp add: required_item_def word_until_def skip_spaces_def c_isspace_def)

lemma directive_hangs:
  assumes "printable d" and "dep_versions d \<noteq> any_version" and "kw \<noteq> []" and "plain_word ''='' kw"
  shows "parse_items (required_item what kw) (print_requirement kw d @ CHR '';'' # rest) [] = None"
proof -
  let ?r = "dep_versions d" and ?n = "dep_symbolicName d"
  let ?s = "kw @ CHR ''='' # range_toString ?r @ CHR '';'' # rest"
  have n: "?n \<noteq> []" "plain_word '',;'' ?n" using assms(1) by (simp_all add: printable_def)
  have "word_until '',;'' (?n @ CHR '';'' # ?s) = (?n, CHR '';'' # ?s)"
    by (rule word_until_plain [OF n(2)]) simp
  moreover have "skip_spaces (CHR '';'' # ?s) = CHR '';'' # ?s" by (simp add: skip_spaces_def c_isspace_def)
  moreover have "parse_versions what kw ?s = Inr (Some ?r, CHR '';'' # rest)"
    using assms by (intro parse_printed_versions) (simp_all add: printable_def)
  moreover have "skip_spaces (?n @ y) = ?n @ y" for y
    using plain_hd [OF n(2,1)] n(1) by (auto intro!: skip_spaces_none)
  ultimately have item: "required_item what kw (?n @ CHR '';'' # ?s) = Inr ([d], CHR '';'' # rest)"
    using n(1) by (simp add: required_item_def Let_def starts_with_def)
  have comma: "skip_comma (CHR '';'' # rest) = CHR '';'' # rest" by (simp add: skip_comma_def starts_with_def)
  have printed: "print_requirement kw d @ CHR '';'' # rest = ?n @ CHR '';'' # ?s"
    using assms(2) by (simp add: print_requirement_def)
  have "parse_items (required_item what kw) (?n @ CHR '';'' # ?s) [] = parse_items (required_item what kw) (CHR '';'' # rest) [d]"
    by (simp add: parse_items.simps [of _ "?n @ CHR '';'' # ?s"] item comma)
  also have "\<dots> = None" by (rule stuck_at_semicolon) (rule no_name_item)
  finally show ?thesis unfolding printed .
qed

text \<open>The parser of a dependency list hangs on a semicolon that no name precedes: after a requirement with a range, any further
  directive (such as \<open>;resolution:=optional\<close>) makes the constructor of the manifest loop for ever, and with it whoever loads the bundle.\<close>

theorem directive_hangs_parser:
  assumes "printable d" and "dep_versions d \<noteq> any_version"
  shows "parseRequiredBundles (print_requirement ''bundle-version'' d @ CHR '';'' # rest) = None"
  unfolding parseRequiredBundles_def parseRequiredItems_def
  by (rule directive_hangs [OF assms]) (simp_all add: plain_word_def c_isspace_def)

lemma directive_hangs_parser_witness:
  "parseRequiredBundles ''osp.web;bundle-version=[1.0.0,2.0.0);resolution:=optional'' = None"
proof -
  let ?d = "\<lparr>dep_symbolicName = ''osp.web'', dep_versions = \<lparr>vr_lower = Version 1 0 0 [], vr_upper = Version 2 0 0 [],
    vr_includeLower = True, vr_includeUpper = False\<rparr>\<rparr>"
  have ok: "printable ?d" "dep_versions ?d \<noteq> any_version"
    by (simp_all add: printable_def plain_word_def c_isspace_def any_version_def no_version_def range_isEmpty_def same_version_def
       printable_version_def small_version_def small_number_def less_eq_version_def)
  have printed: "print_requirement ''bundle-version'' ?d @ '';resolution:=optional'' = ''osp.web;bundle-version=[1.0.0,2.0.0);resolution:=optional''"
    by code_simp
  show ?thesis
    using directive_hangs_parser [OF ok, of "''resolution:=optional''"] unfolding printed .
qed

end
