(* ===== verification/OspCache.thy ===== *)
theory OspCache
  imports OspManifest
begin

text \<open>
  \<open>OSP/src/CodeCache.cpp\<close>: the directory to which the shared libraries of the bundles are copied. The
  directory is a list of entries in the order in which a directory iterator yields them.
\<close>

section \<open>File names\<close>

text \<open>
  What the code uses of \<open>Poco::Path\<close> and \<open>Poco::icompare\<close>: the extension and the base name of the file a path
  names, and the comparison of two texts that ignores the case.
\<close>

record path_api =
  pa_extension :: "string \<Rightarrow> string"
  pa_baseName :: "string \<Rightarrow> string"
  pa_same :: "string \<Rightarrow> string \<Rightarrow> bool"

text \<open>The documented behaviour on a path whose file name has an extension.\<close>

definition path_laws :: "path_api \<Rightarrow> bool" where
  "path_laws P \<longleftrightarrow>
     (\<forall>dir b e. CHR ''/'' \<notin> set b \<and> CHR ''/'' \<notin> set e \<and> CHR ''.'' \<notin> set e \<longrightarrow>
        pa_baseName P (dir @ ''/'' @ b @ ''.'' @ e) = b \<and> pa_extension P (dir @ ''/'' @ b @ ''.'' @ e) = e) \<and> (\<forall>a. pa_same P a a)"

text \<open>A concrete library for the witnesses.\<close>

definition sample_paths :: path_api where
  "sample_paths =
     (let name = (\<lambda>path. takeWhile (\<lambda>c. c \<noteq> CHR ''/'') (rev path)) in
      \<lparr>pa_extension = (\<lambda>path. if CHR ''.'' \<in> set (name path) then rev (takeWhile (\<lambda>c. c \<noteq> CHR ''.'') (name path)) else []),
       pa_baseName = (\<lambda>path. if CHR ''.'' \<in> set (name path) then rev (tl (dropWhile (\<lambda>c. c \<noteq> CHR ''.'') (name path))) else rev (name path)),
       pa_same = (\<lambda>a b. a = b)\<rparr>)"

lemma sample_path_laws: "path_laws sample_paths"
proof -
  have name: "takeWhile (\<lambda>c. c \<noteq> CHR ''/'') (rev (dir @ ''/'' @ b @ ''.'' @ e)) = rev e @ CHR ''.'' # rev b"
    if "CHR ''/'' \<notin> set b" "CHR ''/'' \<notin> set e" for dir b e
    using that by (simp add: takeWhile_append takeWhile_all)
  show ?thesis
    unfolding path_laws_def
  proof (intro conjI allI impI; (elim conjE)?)
    fix dir b e :: string assume "CHR ''/'' \<notin> set b" "CHR ''/'' \<notin> set e" "CHR ''.'' \<notin> set e"
    then show "pa_baseName sample_paths (dir @ ''/'' @ b @ ''.'' @ e) = b" "pa_extension sample_paths (dir @ ''/'' @ b @ ''.'' @ e) = e"
      using name [of b e dir] by (simp_all add: sample_paths_def Let_def dropWhile_append takeWhile_append takeWhile_all)
  qed (simp add: sample_paths_def)
qed

section \<open>The directory\<close>

record cache_entry =
  ce_isFile :: bool
  ce_modified :: int

record code_cache =
  cc_path :: string
  cc_entries :: "(string \<times> cache_entry) list"

definition hasLibrary :: "code_cache \<Rightarrow> string \<Rightarrow> bool" where
  "hasLibrary c name \<longleftrightarrow> map_of (cc_entries c) name \<noteq> None"

definition libraryTimestamp :: "code_cache \<Rightarrow> string \<Rightarrow> exc + int" where
  "libraryTimestamp c name =
     (case map_of (cc_entries c) name of
        None \<Rightarrow> Inl (FileNotFoundException (cc_path c @ name))
      | Some e \<Rightarrow> Inr (ce_modified e))"

fun put_entry :: "string \<Rightarrow> cache_entry \<Rightarrow> (string \<times> cache_entry) list \<Rightarrow> (string \<times> cache_entry) list" where
  "put_entry name e [] = [(name, e)]"
| "put_entry name e ((n, x) # es) = (if n = name then (n, e) # es else (n, x) # put_entry name e es)"

text \<open>\<open>good\<close>: the file could be opened for writing; \<open>now\<close>: the time at which it is written.\<close>

definition cacheInstall :: "bool \<Rightarrow> int \<Rightarrow> string \<Rightarrow> (code_cache, unit) io" where
  "cacheInstall good now name c =
     (if good then (Inr (), c\<lparr>cc_entries := put_entry name \<lparr>ce_isFile = True, ce_modified = now\<rparr> (cc_entries c)\<rparr>)
      else (Inl (FileException (cc_path c @ name)), c))"

definition cacheSetModified :: "int \<Rightarrow> string \<Rightarrow> code_cache \<Rightarrow> code_cache" where
  "cacheSetModified ts name c =
     (case map_of (cc_entries c) name of
        None \<Rightarrow> c
      | Some e \<Rightarrow> c\<lparr>cc_entries := put_entry name (e\<lparr>ce_modified := ts\<rparr>) (cc_entries c)\<rparr>)"

definition cacheUninstall :: "string \<Rightarrow> (code_cache, unit) io" where
  "cacheUninstall name c =
     (case map_of (cc_entries c) name of
        None \<Rightarrow> (Inl (FileNotFoundException (cc_path c @ name)), c)
      | Some e \<Rightarrow> (Inr (), c\<lparr>cc_entries := filter (\<lambda>(n, x). n \<noteq> name) (cc_entries c)\<rparr>))"

section \<open>Finding a library\<close>

record candidate =
  ca_score :: nat
  ca_modified :: int
  ca_file :: string

definition candidate_score :: "string \<Rightarrow> string \<Rightarrow> nat option" where
  "candidate_score name baseName =
     (if baseName = name @ ''md'' then Some 0
      else if baseName = name then Some 1
      else if baseName = name @ ''d'' then Some 2
      else None)"

definition candidate_of :: "path_api \<Rightarrow> string \<Rightarrow> string \<Rightarrow> string \<times> cache_entry \<Rightarrow> candidate option" where
  "candidate_of P name extension = (\<lambda>(file, e).
     if \<not> ce_isFile e then None
     else if extension \<noteq> [] \<and> pa_extension P file \<noteq> extension then None
     else case candidate_score name (pa_baseName P file) of
            None \<Rightarrow> None
          | Some score \<Rightarrow> Some \<lparr>ca_score = score, ca_modified = ce_modified e, ca_file = file\<rparr>)"

definition better :: "candidate option \<Rightarrow> candidate \<Rightarrow> bool" where
  "better best c =
     (case best of None \<Rightarrow> True
      | Some b \<Rightarrow> ca_score c < ca_score b \<or> (ca_score c = ca_score b \<and> ca_modified b < ca_modified c))"

definition scan_entry :: "path_api \<Rightarrow> string \<Rightarrow> string \<Rightarrow> candidate option \<Rightarrow> string \<times> cache_entry \<Rightarrow> candidate option" where
  "scan_entry P name extension best entry =
     (case candidate_of P name extension entry of
        None \<Rightarrow> best
      | Some c \<Rightarrow> if better best c then Some c else best)"

text \<open>\<open>sfx\<close> is \<open>SharedLibrary::suffix()\<close>.\<close>

definition pathFor :: "path_api \<Rightarrow> string \<Rightarrow> code_cache \<Rightarrow> string \<Rightarrow> bool \<Rightarrow> string" where
  "pathFor P sfx c name appendSuffix =
     (if name = [] then cc_path c
      else
        let fileName = (if appendSuffix then name @ sfx else name); p = cc_path c @ fileName in
        if \<not> appendSuffix then p
        else if hasLibrary c fileName then p
        else case foldl (scan_entry P name (pa_extension P fileName)) None (cc_entries c) of
               None \<Rightarrow> p
             | Some best \<Rightarrow> cc_path c @ ca_file best)"

section \<open>Lemmas\<close>

lemma map_of_put_entry: "map_of (put_entry name e es) = (map_of es)(name \<mapsto> e)"
  by (induction name e es rule: put_entry.induct) (auto simp: fun_eq_iff)

lemma has_installed: "hasLibrary (snd (cacheInstall True now name c)) name'\<longleftrightarrow> name' = name \<or> hasLibrary c name'"
  by (simp add: cacheInstall_def hasLibrary_def map_of_put_entry)

lemma map_of_filter_neq: "map_of (filter (\<lambda>(n, x). n \<noteq> name) es) = (map_of es)(name := None)"
  by (induction es) (auto simp: fun_eq_iff)

definition preferred :: "candidate \<Rightarrow> candidate \<Rightarrow> bool" where
  "preferred b c \<longleftrightarrow> ca_score b < ca_score c \<or> (ca_score b = ca_score c \<and> ca_modified c \<le> ca_modified b)"

lemma scan_entries:
  "(case foldl (scan_entry P name ext) best es of
      None \<Rightarrow> best = None \<and> (\<forall>x \<in> set es. candidate_of P name ext x = None)
    | Some b \<Rightarrow> (best = Some b \<or> (\<exists>x \<in> set es. candidate_of P name ext x = Some b)) \<and>
        (\<forall>c. best = Some c \<or> (\<exists>x \<in> set es. candidate_of P name ext x = Some c) \<longrightarrow> preferred b c))"
proof (induction es arbitrary: best)
  case Nil
  then show ?case by (cases best) (auto simp: preferred_def)
next
  case (Cons x es)
  show ?case
  proof (cases "candidate_of P name ext x")
    case None
    then show ?thesis using Cons.IH [of best] by (auto simp: scan_entry_def split: option.splits)
  next
    case (Some c)
    show ?thesis
    proof (cases "better best c")
      case True
      then have step: "scan_entry P name ext best x = Some c" using Some by (simp add: scan_entry_def)
      have "preferred c b" if "best = Some b" for b
        using True that by (auto simp: better_def preferred_def)
      moreover have "preferred b d" if "preferred b c" "preferred c d" for b d
        using that by (auto simp: preferred_def)
      ultimately show ?thesis
        using Cons.IH [of "Some c"] Some by (auto simp: step split: option.splits)
    next
      case False
      then obtain b where b: "best = Some b" "preferred b c"
        by (cases best) (auto simp: better_def preferred_def not_less le_less)
      have step: "scan_entry P name ext best x = best" using Some False by (simp add: scan_entry_def)
      have "preferred b' c" if "preferred b' b" for b'
        using that b(2) by (auto simp: preferred_def)
      then show ?thesis
        using Cons.IH [of best] Some b by (auto simp: step [unfolded b(1)] split: option.splits)
    qed
  qed
qed

text \<open>The library of a bundle is the file of its very name when the cache has one; otherwise, of the files with the same extension
  whose base name is the library name, with \<open>md\<close>, with nothing or with \<open>d\<close> appended, one that no other beats in this
  order, the youngest among equals; without such a file it is the path the library would have.\<close>

theorem library_choice:
  assumes "name \<noteq> []" and "ext = pa_extension P (name @ sfx)"
  shows "if hasLibrary c (name @ sfx) \<or> (\<forall>x \<in> set (cc_entries c). candidate_of P name ext x = None)
         then pathFor P sfx c name True = cc_path c @ name @ sfx
         else \<exists>best. pathFor P sfx c name True = cc_path c @ ca_file best \<and>
                (\<exists>x \<in> set (cc_entries c). candidate_of P name ext x = Some best) \<and>
                (\<forall>x \<in> set (cc_entries c). \<forall>d. candidate_of P name ext x = Some d \<longrightarrow> preferred best d)"
proof (cases "hasLibrary c (name @ sfx)")
  case True
  then show ?thesis using assms(1) by (simp add: pathFor_def Let_def)
next
  case False
  then show ?thesis
    using scan_entries [where P = P and name = name and ext = ext and es = "cc_entries c" and best = None] assms
    by (cases "foldl (scan_entry P name ext) None (cc_entries c)") (auto simp: pathFor_def Let_def)
qed

lemma library_choice_witness:
  "pathFor sample_paths ''.so'' \<lparr>cc_path = ''/cache/'', cc_entries = [(''ad.so'', \<lparr>ce_isFile = True, ce_modified = 9\<rparr>), (''amd.so'', \<lparr>ce_isFile = True, ce_modified = 1\<rparr>)]\<rparr> ''a'' True
     = ''/cache/amd.so''"
proof -
  let ?e1 = "(''ad.so'', \<lparr>ce_isFile = True, ce_modified = 9\<rparr>)" and ?e2 = "(''amd.so'', \<lparr>ce_isFile = True, ce_modified = 1\<rparr>)"
  let ?c = "\<lparr>cc_path = ''/cache/'', cc_entries = [?e1, ?e2]\<rparr>"
  let ?d = "\<lparr>ca_score = 0, ca_modified = 1, ca_file = ''amd.so''\<rparr>"
  have ext: "''so'' = pa_extension sample_paths (''a'' @ ''.so'')" by code_simp
  have e1: "candidate_of sample_paths ''a'' ''so'' ?e1 = Some \<lparr>ca_score = 2, ca_modified = 9, ca_file = ''ad.so''\<rparr>" by code_simp
  have e2: "candidate_of sample_paths ''a'' ''so'' ?e2 = Some ?d" by code_simp
  have "\<not> hasLibrary ?c (''a'' @ ''.so'')" by (simp add: hasLibrary_def)
  then obtain best where best: "pathFor sample_paths ''.so'' ?c ''a'' True = cc_path ?c @ ca_file best"
      "\<exists>x \<in> set (cc_entries ?c). candidate_of sample_paths ''a'' ''so'' x = Some best"
      "\<forall>x \<in> set (cc_entries ?c). \<forall>d. candidate_of sample_paths ''a'' ''so'' x = Some d \<longrightarrow> preferred best d"
    using library_choice [OF _ ext, of ?c] e1 e2 by (simp del: candidate.simps) blast
  have "preferred best ?d" using best(3) e2 by simp
  then have "best = ?d" using best(2) e1 e2 by (auto simp: preferred_def)
  then show ?thesis using best(1) by simp
qed

end
