(* ===== verification/OspLoader.thy ===== *)
theory OspLoader
  imports OspCache "HOL-Library.List_Lexorder" "HOL-Library.Char_ord"
begin

text \<open>
  \<open>OSP/src/Bundle.cpp\<close> and \<open>OSP/src/BundleLoader.cpp\<close>: bundles, their states, and the loader that resolves,
  starts, stops, unloads and uninstalls them. A bundle object is an identity into the heap of the
  loader; the map of the loaded bundles is a list in the order of the symbolic names. Operations that
  call each other without an end decided by the data carry fuel; without fuel they do not return.
\<close>

section \<open>Bundles\<close>

datatype bundle_state =
    BUNDLE_INSTALLED
  | BUNDLE_UNINSTALLED
  | BUNDLE_RESOLVED
  | BUNDLE_STARTING
  | BUNDLE_ACTIVE
  | BUNDLE_STOPPING

record resolved_dependency =
  rd_symbolicName :: string
  rd_version :: version

record module_provider =
  mp_module :: dependency
  mp_bundles :: "resolved_dependency list"

text \<open>A shared library in the archive: its name, its time, and whether the archive has a stream for it.\<close>

record library =
  lb_name :: string
  lb_modified :: int
  lb_stream :: bool

record osp_bundle =
  bu_path :: string
  bu_manifest :: manifest
  bu_libraries :: "library list"
  bu_state :: bundle_state
  bu_activator :: bool
  bu_extensions :: "nat list"
  bu_layers :: "(nat \<times> int) list"
  bu_resolved :: "resolved_dependency list"
  bu_providers :: "module_provider list"

abbreviation symbolicName :: "osp_bundle \<Rightarrow> string" where "symbolicName x \<equiv> mf_symbolicName (bu_manifest x)"
abbreviation bundle_version :: "osp_bundle \<Rightarrow> version" where "bundle_version x \<equiv> mf_version (bu_manifest x)"
abbreviation runLevel :: "osp_bundle \<Rightarrow> string" where "runLevel x \<equiv> mf_runLevel (bu_manifest x)"

definition isResolved :: "osp_bundle \<Rightarrow> bool" where
  "isResolved x \<longleftrightarrow> bu_state x = BUNDLE_RESOLVED \<or> bu_state x = BUNDLE_STARTING \<or> bu_state x = BUNDLE_ACTIVE \<or> bu_state x = BUNDLE_STOPPING"

definition isActive :: "osp_bundle \<Rightarrow> bool" where
  "isActive x \<longleftrightarrow> bu_state x = BUNDLE_ACTIVE"

definition isStarted :: "osp_bundle \<Rightarrow> bool" where
  "isStarted x \<longleftrightarrow> bu_state x = BUNDLE_STARTING \<or> bu_state x = BUNDLE_ACTIVE \<or> bu_state x = BUNDLE_STOPPING"

definition isExtensionBundle :: "osp_bundle \<Rightarrow> bool" where
  "isExtensionBundle x \<longleftrightarrow> mf_extendedBundle (bu_manifest x) \<noteq> []"

primrec stateString :: "bundle_state \<Rightarrow> string" where
  "stateString BUNDLE_INSTALLED = ''installed''"
| "stateString BUNDLE_UNINSTALLED = ''uninstalled''"
| "stateString BUNDLE_RESOLVED = ''resolved''"
| "stateString BUNDLE_STARTING = ''starting''"
| "stateString BUNDLE_ACTIVE = ''active''"
| "stateString BUNDLE_STOPPING = ''stopping''"

section \<open>The loader\<close>

datatype event_kind =
    EV_BUNDLE_LOADED
  | EV_BUNDLE_UNLOADED
  | EV_BUNDLE_RESOLVING
  | EV_BUNDLE_RESOLVED
  | EV_BUNDLE_STARTING
  | EV_BUNDLE_STARTED
  | EV_BUNDLE_STOPPING
  | EV_BUNDLE_STOPPED
  | EV_BUNDLE_UNINSTALLING
  | EV_BUNDLE_UNINSTALLED
  | EV_BUNDLE_FAILED

text \<open>What the loader does to the outside: events it fires and activators it calls.\<close>

datatype osp_action =
    Fired event_kind nat
  | ActivatorStart nat
  | ActivatorStop nat

text \<open>\<open>bi_classLoader\<close>: the class loader, when there is one, with the libraries it has loaded.\<close>

record bundle_info =
  bi_bundle :: nat
  bi_classLoader :: "string list option"

datatype node_kind = NodeFile | NodeDirectory | NodeOther

record 'c fs_node =
  nd_kind :: node_kind
  nd_content :: 'c

record bundle_error =
  be_bundle :: nat
  be_targetState :: bundle_state
  be_exception :: exc

record 'c loader =
  ld_next :: nat
  ld_heap :: "nat \<Rightarrow> osp_bundle"
  ld_bundles :: "(string \<times> bundle_info) list"
  ld_ids :: "nat \<rightharpoonup> nat"
  ld_resolving :: "nat set"
  ld_lastStarted :: string
  ld_cache :: code_cache
  ld_files :: "string \<rightharpoonup> 'c fs_node"
  ld_trace :: "osp_action list"
  ld_errors :: "bundle_error list"

text \<open>
  What is outside: reading an archive or a directory, opening a shared library (the classes it
  exports), the activators, the clock, and which files can be written, dated and removed.
\<close>

record storage =
  st_manifest :: "properties option"
  st_libraries :: "library list"

record 'c osp_env =
  ev_storage :: "'c \<Rightarrow> exc + storage"
  ev_dlopen :: "code_cache \<Rightarrow> string \<Rightarrow> exc + string list"
  ev_start :: "osp_action list \<Rightarrow> nat \<Rightarrow> exc + unit"
  ev_stop :: "osp_action list \<Rightarrow> nat \<Rightarrow> exc + unit"
  ev_now :: "osp_action list \<Rightarrow> int"
  ev_cacheWritable :: "string \<Rightarrow> bool"
  ev_cacheDatable :: "string \<Rightarrow> bool"
  ev_removable :: "string \<Rightarrow> bool"
  ev_suffix :: string
  ev_paths :: path_api
  ev_autoUpdate :: bool
  ev_sort :: "(nat \<Rightarrow> string) \<Rightarrow> nat list \<Rightarrow> nat list"   \<comment> \<open>\<open>std::sort\<close> by a key\<close>

type_synonym ('c, 'a) osp = "('c loader, 'a) prog"

primrec p_each :: "('a \<Rightarrow> ('s, unit) prog) \<Rightarrow> 'a list \<Rightarrow> ('s, unit) prog" where
  "p_each f [] = p_ret ()"
| "p_each f (x # xs) = p_seq (f x) (p_each f xs)"

definition osp_exc :: "osp_class \<Rightarrow> string \<Rightarrow> string \<Rightarrow> exc" where
  "osp_exc c msg arg = OspException c (msg @ '': '' @ arg)"

definition getBundle :: "nat \<Rightarrow> ('c, osp_bundle) osp" where
  "getBundle b = p_get (\<lambda>s. ld_heap s b)"

definition setBundle :: "nat \<Rightarrow> (osp_bundle \<Rightarrow> osp_bundle) \<Rightarrow> ('c, unit) osp" where
  "setBundle b f = p_modify (\<lambda>s. s\<lparr>ld_heap := (ld_heap s)(b := f (ld_heap s b))\<rparr>)"

definition setState :: "nat \<Rightarrow> bundle_state \<Rightarrow> ('c, unit) osp" where
  "setState b st = setBundle b (\<lambda>x. x\<lparr>bu_state := st\<rparr>)"

definition act :: "osp_action \<Rightarrow> ('c, unit) osp" where
  "act a = p_modify (\<lambda>s. s\<lparr>ld_trace := ld_trace s @ [a]\<rparr>)"

definition findBundle :: "'c loader \<Rightarrow> string \<Rightarrow> nat option" where
  "findBundle s name = map_option bi_bundle (map_of (ld_bundles s) name)"

definition findBundleById :: "'c loader \<Rightarrow> nat \<Rightarrow> nat option" where
  "findBundleById s b = ld_ids s b"

definition listBundles :: "'c loader \<Rightarrow> nat list" where
  "listBundles s = map (bi_bundle \<circ> snd) (ld_bundles s)"

definition listBundlesFiltered :: "(osp_bundle \<Rightarrow> bool) \<Rightarrow> 'c loader \<Rightarrow> nat list" where
  "listBundlesFiltered accept s = filter (\<lambda>b. accept (ld_heap s b)) (listBundles s)"

definition extendedBundle :: "'c loader \<Rightarrow> osp_bundle \<Rightarrow> nat option" where
  "extendedBundle s x = (if mf_extendedBundle (bu_manifest x) \<noteq> [] then findBundle s (mf_extendedBundle (bu_manifest x)) else None)"

section \<open>Creating and loading\<close>

definition new_bundle :: "string \<Rightarrow> manifest \<Rightarrow> library list \<Rightarrow> osp_bundle" where
  "new_bundle path m libs = \<lparr>bu_path = path, bu_manifest = m, bu_libraries = libs, bu_state = BUNDLE_INSTALLED, bu_activator = False,
     bu_extensions = [], bu_layers = [], bu_resolved = [], bu_providers = []\<rparr>"

definition nextBundleId :: "('c, nat) osp" where
  "nextBundleId = p_bind (p_get ld_next) (\<lambda>n. p_seq (p_modify (\<lambda>s. s\<lparr>ld_next := n + 1\<rparr>)) (p_ret n))"

definition constructBundle :: "nat \<Rightarrow> string \<Rightarrow> storage \<Rightarrow> ('c, nat) osp" where
  "constructBundle b path st =
     (case st_manifest st of
        None \<Rightarrow> p_throw (osp_exc BundleLoadException ''No manifest found'' path)
      | Some p \<Rightarrow>
          p_bind (\<lambda>s. map_option (\<lambda>r. (r, s)) (parseManifest p)) (\<lambda>m.
          p_seq (p_modify (\<lambda>s. s\<lparr>ld_heap := (ld_heap s)(b := new_bundle path m (st_libraries st))\<rparr>)) (p_ret b)))"

definition createBundle :: "'c osp_env \<Rightarrow> string \<Rightarrow> ('c, nat) osp" where
  "createBundle E path =
     p_bind (p_get (\<lambda>s. ld_files s path)) (\<lambda>f.
       case f of
         None \<Rightarrow> p_throw (FileNotFoundException path)
       | Some nd \<Rightarrow>
           if nd_kind nd = NodeOther
           then p_throw (osp_exc BundleLoadException ''Attempted to load a bundle from something that is neither a file nor a directory'' path)
           else p_bind (p_lift (ev_storage E (nd_content nd))) (\<lambda>st.
                p_bind nextBundleId (\<lambda>b. constructBundle b path st)))"

fun map_insert :: "string \<Rightarrow> 'a \<Rightarrow> (string \<times> 'a) list \<Rightarrow> (string \<times> 'a) list" where
  "map_insert k x [] = [(k, x)]"
| "map_insert k x ((k', x') # m) = (if k < k' then (k, x) # (k', x') # m else if k = k' then (k, x) # m else (k', x') # map_insert k x m)"

definition map_erase :: "string \<Rightarrow> (string \<times> 'a) list \<Rightarrow> (string \<times> 'a) list" where
  "map_erase k m = filter (\<lambda>(k', x). k' \<noteq> k) m"

definition conflict_message :: "osp_bundle \<Rightarrow> osp_bundle \<Rightarrow> string" where
  "conflict_message x old = symbolicName x @ '' version '' @ version_toString (bundle_version x) @ '' from '' @ quoted (bu_path x) @
     '' conflicts with already loaded version '' @ version_toString (bundle_version old) @ '' from '' @ quoted (bu_path old)"

definition loadBundle :: "nat \<Rightarrow> ('c, unit) osp" where
  "loadBundle b =
     p_bind (getBundle b) (\<lambda>x.
     p_bind (p_get (\<lambda>s. findBundle s (symbolicName x))) (\<lambda>found.
       case found of
         None \<Rightarrow>
           p_seq (p_modify (\<lambda>s. s\<lparr>ld_bundles := map_insert (symbolicName x) \<lparr>bi_bundle = b, bi_classLoader = None\<rparr> (ld_bundles s),
                                 ld_ids := (ld_ids s)(b \<mapsto> b)\<rparr>))
                 (act (Fired EV_BUNDLE_LOADED b))
       | Some c \<Rightarrow> p_bind (getBundle c) (\<lambda>old. p_throw (OspException BundleVersionConflictException (conflict_message x old)))))"

definition loadBundleFrom :: "'c osp_env \<Rightarrow> string \<Rightarrow> ('c, nat) osp" where
  "loadBundleFrom E path = p_bind (createBundle E path) (\<lambda>b. p_seq (loadBundle b) (p_ret b))"

section \<open>Resolving\<close>

definition isProvidingModule :: "osp_bundle \<Rightarrow> dependency \<Rightarrow> bool" where
  "isProvidingModule x m \<longleftrightarrow>
     list_ex (\<lambda>p. dep_symbolicName m = mod_symbolicName p \<and> isInRange (dep_versions m) (mod_version p)) (mf_providedModules (bu_manifest x))"

definition providers_of :: "'c loader \<Rightarrow> dependency \<Rightarrow> resolved_dependency list" where
  "providers_of s m =
     map (\<lambda>(name, info). \<lparr>rd_symbolicName = name, rd_version = bundle_version (ld_heap s (bi_bundle info))\<rparr>)
       (filter (\<lambda>(name, info). isProvidingModule (ld_heap s (bi_bundle info)) m) (ld_bundles s))"

fun resolveModules :: "'c loader \<Rightarrow> string \<Rightarrow> dependency list \<Rightarrow> exc + module_provider list" where
  "resolveModules s requirer [] = Inr []"
| "resolveModules s requirer (m # ms) =
     (if providers_of s m = [] then
        Inl (OspException BundleResolveException (''Module '' @ dep_symbolicName m @ '', version '' @ range_toString (dep_versions m) @
          '' required by bundle '' @ requirer @ '' not available''))
      else case resolveModules s requirer ms of
             Inl e \<Rightarrow> Inl e
           | Inr ps \<Rightarrow> Inr (\<lparr>mp_module = m, mp_bundles = providers_of s m\<rparr> # ps))"

definition addResolvedDependency :: "nat \<Rightarrow> resolved_dependency \<Rightarrow> ('c, unit) osp" where
  "addResolvedDependency b d =
     setBundle b (\<lambda>x. if list_ex (\<lambda>d'. rd_symbolicName d' = rd_symbolicName d) (bu_resolved x) then x else x\<lparr>bu_resolved := bu_resolved x @ [d]\<rparr>)"

definition clearResolvedDependencies :: "nat \<Rightarrow> ('c, unit) osp" where
  "clearResolvedDependencies b = setBundle b (\<lambda>x. x\<lparr>bu_resolved := []\<rparr>)"

text \<open>The operations of this section take \<open>resolve\<close>, which calls them, as an argument.\<close>

definition resolveDependency :: "(nat \<Rightarrow> ('c, unit) osp) \<Rightarrow> nat \<Rightarrow> dependency \<Rightarrow> ('c, unit) osp" where
  "resolveDependency rs b dep =
     p_bind (p_get (\<lambda>s. findBundle s (dep_symbolicName dep))) (\<lambda>found.
       case found of
         None \<Rightarrow> p_throw (osp_exc BundleResolveException ''Required bundle not available'' (dep_symbolicName dep))
       | Some d \<Rightarrow>
           p_bind (getBundle d) (\<lambda>x.
             if range_isEmpty (dep_versions dep) \<or> isInRange (dep_versions dep) (bundle_version x) then
               p_seq
                 (if \<not> isResolved x then
                    p_bind (p_get ld_resolving) (\<lambda>R.
                      if d \<notin> R then rs d
                      else p_bind (getBundle b) (\<lambda>y. p_throw (OspException BundleResolveException
                             (''Circular reference detected involving '' @ symbolicName y @ '' and '' @ symbolicName x))))
                  else p_ret ())
                 (addResolvedDependency b \<lparr>rd_symbolicName = symbolicName x, rd_version = bundle_version x\<rparr>)
             else p_throw (osp_exc BundleResolveException ''Required bundle not available in requested version''
                    (dep_symbolicName dep @ '', requested: '' @ range_toString (dep_versions dep) @ '', available: '' @ version_toString (bundle_version x)))))"

definition resolveProviders :: "(nat \<Rightarrow> ('c, unit) osp) \<Rightarrow> nat \<Rightarrow> module_provider list \<Rightarrow> ('c, unit) osp" where
  "resolveProviders rs b ps =
     p_each (\<lambda>p. p_each (\<lambda>d. resolveDependency rs b \<lparr>dep_symbolicName = rd_symbolicName d, dep_versions = exactly (rd_version d)\<rparr>) (mp_bundles p)) ps"

definition resolveDependencies :: "(nat \<Rightarrow> ('c, unit) osp) \<Rightarrow> nat \<Rightarrow> dependency list \<Rightarrow> ('c, unit) osp" where
  "resolveDependencies rs b deps = p_each (resolveDependency rs b) deps"

definition resolveRequirements :: "(nat \<Rightarrow> ('c, unit) osp) \<Rightarrow> nat \<Rightarrow> ('c, unit) osp" where
  "resolveRequirements rs b =
     p_bind (getBundle b) (\<lambda>x.
     p_bind (\<lambda>s. Some (resolveModules s (symbolicName x) (mf_requiredModules (bu_manifest x)), s)) (\<lambda>providers.
     p_seq (resolveProviders rs b providers)
    (p_seq (resolveDependencies rs b (mf_requiredBundles (bu_manifest x)))
           (setBundle b (\<lambda>x. x\<lparr>bu_providers := providers\<rparr>)))))"

definition with_cache :: "(code_cache, 'a) io \<Rightarrow> ('c, 'a) osp" where
  "with_cache m s = (let (r, c) = m (ld_cache s) in Some (r, s\<lparr>ld_cache := c\<rparr>))"

definition installLibrary :: "'c osp_env \<Rightarrow> library \<Rightarrow> int option \<Rightarrow> ('c, unit) osp" where
  "installLibrary E lib ts =
     (if lb_stream lib then
        p_seq (p_bind (p_get ld_trace) (\<lambda>tr. with_cache (cacheInstall (ev_cacheWritable E (lb_name lib)) (ev_now E tr) (lb_name lib))))
              (case ts of
                 None \<Rightarrow> p_ret ()
               | Some t \<Rightarrow> if ev_cacheDatable E (lb_name lib)
                           then p_modify (\<lambda>s. s\<lparr>ld_cache := cacheSetModified t (lb_name lib) (ld_cache s)\<rparr>)
                           else p_ret ())
      else p_ret ())"

definition installLibraries :: "'c osp_env \<Rightarrow> nat \<Rightarrow> ('c, unit) osp" where
  "installLibraries E b =
     p_bind (getBundle b) (\<lambda>x. p_each (\<lambda>lib.
       p_bind (p_get ld_cache) (\<lambda>c.
         if hasLibrary c (lb_name lib) then
           if ev_autoUpdate E then
             p_bind (p_lift (libraryTimestamp c (lb_name lib))) (\<lambda>cached.
               if cached < lb_modified lib then installLibrary E lib (Some (lb_modified lib)) else p_ret ())
           else p_ret ()
         else installLibrary E lib None)) (bu_libraries x))"

definition addExtensionBundle :: "nat \<Rightarrow> nat \<Rightarrow> ('c, unit) osp" where
  "addExtensionBundle b ext =
     p_bind (getBundle b) (\<lambda>x.
       if \<not> mf_sealed (bu_manifest x) then
         if isResolved x then
           setBundle b (\<lambda>x. let es = (if ext \<in> set (bu_extensions x) then bu_extensions x else ext # bu_extensions x) in
             x\<lparr>bu_extensions := es, bu_layers := bu_layers x @ [(ext, - int (length es))]\<rparr>)
         else p_throw (OspException BundleStateException ''addExtensionBundle() requires at least RESOLVED state'')
       else p_bind (getBundle ext) (\<lambda>y. p_throw (OspException BundleSealedException (symbolicName y @ '' cannot extend '' @ symbolicName x))))"

definition removeExtensionBundle :: "nat \<Rightarrow> nat \<Rightarrow> ('c, unit) osp" where
  "removeExtensionBundle b ext =
     setBundle b (\<lambda>x. x\<lparr>bu_extensions := filter (\<lambda>e. e \<noteq> ext) (bu_extensions x), bu_layers := filter (\<lambda>(e, p). e \<noteq> ext) (bu_layers x)\<rparr>)"

definition extendBundle :: "(nat \<Rightarrow> ('c, unit) osp) \<Rightarrow> nat \<Rightarrow> ('c, unit) osp" where
  "extendBundle rs b =
     p_bind (getBundle b) (\<lambda>x.
       if isExtensionBundle x then
         p_bind (p_get (\<lambda>s. extendedBundle s x)) (\<lambda>found.
           case found of
             None \<Rightarrow> p_ret ()
           | Some d \<Rightarrow>
               p_seq (p_bind (getBundle d) (\<lambda>y. if \<not> isResolved y then rs d else p_ret ()))
                     (addExtensionBundle d b))
       else p_ret ())"

definition erase_resolving :: "nat \<Rightarrow> ('c, unit) osp" where
  "erase_resolving b = p_modify (\<lambda>s. s\<lparr>ld_resolving := ld_resolving s - {b}\<rparr>)"

definition resolveBundle :: "'c osp_env \<Rightarrow> (nat \<Rightarrow> ('c, unit) osp) \<Rightarrow> nat \<Rightarrow> ('c, unit) osp" where
  "resolveBundle E rs b =
     p_bind (p_get ld_resolving) (\<lambda>R.
       if b \<in> R then p_throw (PocoException ''Assertion violation: !isResolving(pBundle)'')
       else
         p_seq (p_modify (\<lambda>s. s\<lparr>ld_resolving := insert b (ld_resolving s)\<rparr>))
        (p_seq (p_catch (resolveRequirements rs b)
                  (\<lambda>e. p_seq (erase_resolving b) (p_seq (clearResolvedDependencies b) (p_throw e))))
        (p_seq (erase_resolving b)
        (p_seq (installLibraries E b)
               (extendBundle rs b)))))"

text \<open>\<open>Bundle::resolve\<close>.\<close>

definition resolve_body :: "'c osp_env \<Rightarrow> (nat \<Rightarrow> ('c, unit) osp) \<Rightarrow> nat \<Rightarrow> ('c, unit) osp" where
  "resolve_body E rs b =
     p_bind (getBundle b) (\<lambda>x.
       if bu_state x \<noteq> BUNDLE_INSTALLED then p_throw (OspException BundleStateException ''resolve() requires INSTALLED state'')
       else
         p_seq (act (Fired EV_BUNDLE_RESOLVING b))
        (p_seq (clearResolvedDependencies b)
        (p_seq (resolveBundle E rs b)
        (p_seq (setState b BUNDLE_RESOLVED)
               (act (Fired EV_BUNDLE_RESOLVED b))))))"

primrec resolve :: "'c osp_env \<Rightarrow> nat \<Rightarrow> nat \<Rightarrow> ('c, unit) osp" where
  "resolve E 0 b = (\<lambda>s. None)"
| "resolve E (Suc n) b = resolve_body E (resolve E n) b"

definition report :: "nat \<Rightarrow> bundle_state \<Rightarrow> exc \<Rightarrow> ('c, unit) osp" where
  "report b target e = p_modify (\<lambda>s. s\<lparr>ld_errors := ld_errors s @ [\<lparr>be_bundle = b, be_targetState = target, be_exception = e\<rparr>]\<rparr>)"

definition resolve_or_report :: "'c osp_env \<Rightarrow> nat \<Rightarrow> nat \<Rightarrow> ('c, unit) osp" where
  "resolve_or_report E n b = p_bind (getBundle b) (\<lambda>x. if \<not> isResolved x then p_catch (resolve E n b) (report b BUNDLE_RESOLVED) else p_ret ())"

definition resolveAllBundles :: "'c osp_env \<Rightarrow> nat \<Rightarrow> ('c, unit) osp" where
  "resolveAllBundles E n = p_bind (p_get listBundles) (p_each (resolve_or_report E n))"

section \<open>Starting\<close>

definition libraryNameFor :: "osp_bundle \<Rightarrow> string" where
  "libraryNameFor x = (if mf_activatorLibrary (bu_manifest x) \<noteq> [] then mf_activatorLibrary (bu_manifest x) else symbolicName x)"

definition libraryPathFor :: "'c osp_env \<Rightarrow> 'c loader \<Rightarrow> osp_bundle \<Rightarrow> string" where
  "libraryPathFor E s x = pathFor (ev_paths E) (ev_suffix E) (ld_cache s) (libraryNameFor x) True"

definition setClassLoader :: "string \<Rightarrow> string list option \<Rightarrow> ('c, unit) osp" where
  "setClassLoader name cl = p_modify (\<lambda>s. s\<lparr>ld_bundles := map (\<lambda>(k, i). if k = name then (k, i\<lparr>bi_classLoader := cl\<rparr>) else (k, i)) (ld_bundles s)\<rparr>)"

text \<open>The result tells whether there is an activator.\<close>

definition loadActivator :: "'c osp_env \<Rightarrow> string \<Rightarrow> bundle_info \<Rightarrow> ('c, bool) osp" where
  "loadActivator E name info =
     p_bind (getBundle (bi_bundle info)) (\<lambda>x.
       if bi_classLoader info = None then
         p_seq (setClassLoader name (Some []))
           (if mf_activatorClass (bu_manifest x) \<noteq> [] then
              p_bind (p_get (\<lambda>s. libraryPathFor E s x)) (\<lambda>libPath.
              p_bind (p_get ld_cache) (\<lambda>c.
              p_bind (p_lift (ev_dlopen E c libPath)) (\<lambda>classes.
              p_seq (setClassLoader name (Some [libPath]))
                (if mf_activatorClass (bu_manifest x) \<in> set classes then
                   p_seq (setBundle (bi_bundle info) (\<lambda>x. x\<lparr>bu_activator := True\<rparr>)) (p_ret True)
                 else p_throw (NotFoundException (mf_activatorClass (bu_manifest x)))))))
            else p_ret False)
       else p_ret (bu_activator x))"

definition startDependencies :: "(nat \<Rightarrow> ('c, unit) osp) \<Rightarrow> nat \<Rightarrow> ('c, unit) osp" where
  "startDependencies st b =
     p_bind (getBundle b) (\<lambda>x. p_each (\<lambda>dep.
       p_bind (p_get (\<lambda>s. findBundle s (rd_symbolicName dep))) (\<lambda>found.
         case found of
           None \<Rightarrow> p_throw (osp_exc BundleResolveException ''A required bundle is no longer available'' (rd_symbolicName dep))
         | Some d \<Rightarrow>
             p_bind (getBundle d) (\<lambda>y.
               if same_version (bundle_version y) (rd_version dep) then
                 if \<not> isActive y then st d else p_ret ()
               else p_throw (osp_exc BundleResolveException ''A required bundle is no longer available'' (rd_symbolicName dep))))) (bu_resolved x))"

definition unknown_bundle :: "osp_bundle \<Rightarrow> exc" where
  "unknown_bundle x = osp_exc BundleException ''The bundle loader does not know the bundle'' (symbolicName x)"

definition call_activator :: "(osp_action list \<Rightarrow> nat \<Rightarrow> exc + unit) \<Rightarrow> (nat \<Rightarrow> osp_action) \<Rightarrow> nat \<Rightarrow> ('c, unit) osp" where
  "call_activator f what b = p_bind (p_get ld_trace) (\<lambda>tr. p_seq (act (what b)) (p_lift (f tr b)))"

definition startBundle :: "'c osp_env \<Rightarrow> (nat \<Rightarrow> ('c, unit) osp) \<Rightarrow> nat \<Rightarrow> ('c, unit) osp" where
  "startBundle E st b =
     p_bind (getBundle b) (\<lambda>x.
     p_bind (p_get (\<lambda>s. map_of (ld_bundles s) (symbolicName x))) (\<lambda>it.
       if it = None then p_throw (unknown_bundle x)
       else
         p_seq (startDependencies st b)
        (p_seq (p_modify (\<lambda>s. s\<lparr>ld_lastStarted := symbolicName x\<rparr>))
        (p_bind (p_get (\<lambda>s. the (map_of (ld_bundles s) (symbolicName x)))) (\<lambda>info.
         p_bind (loadActivator E (symbolicName x) info) (\<lambda>activator.
           if activator then call_activator (ev_start E) ActivatorStart (bi_bundle info) else p_ret ()))))))"

text \<open>\<open>Bundle::start\<close>: what throws leaves the state as it was.\<close>

definition start_body :: "'c osp_env \<Rightarrow> (nat \<Rightarrow> ('c, unit) osp) \<Rightarrow> nat \<Rightarrow> ('c, unit) osp" where
  "start_body E st b =
     p_bind (getBundle b) (\<lambda>x.
       if bu_state x \<noteq> BUNDLE_RESOLVED then p_throw (OspException BundleStateException ''start() requires RESOLVED state'')
       else
         p_seq (setState b BUNDLE_STARTING)
        (p_seq (act (Fired EV_BUNDLE_STARTING b))
        (p_seq (p_catch (startBundle E st b)
                  (\<lambda>e. p_seq (act (Fired EV_BUNDLE_FAILED b)) (p_seq (setState b BUNDLE_RESOLVED) (p_throw e))))
        (p_seq (setState b BUNDLE_ACTIVE)
               (act (Fired EV_BUNDLE_STARTED b))))))"

primrec start :: "'c osp_env \<Rightarrow> nat \<Rightarrow> nat \<Rightarrow> ('c, unit) osp" where
  "start E 0 b = (\<lambda>s. None)"
| "start E (Suc n) b = start_body E (start E n) b"

definition start_or_report :: "'c osp_env \<Rightarrow> nat \<Rightarrow> nat \<Rightarrow> ('c, unit) osp" where
  "start_or_report E n b =
     p_bind (getBundle b) (\<lambda>x.
       if bu_state x = BUNDLE_RESOLVED \<and> \<not> mf_lazyStart (bu_manifest x)
       then p_catch (start E n b) (report b BUNDLE_ACTIVE) else p_ret ())"

definition by_run_level :: "'c osp_env \<Rightarrow> 'c loader \<Rightarrow> nat list" where
  "by_run_level E s = ev_sort E (\<lambda>b. runLevel (ld_heap s b)) (listBundles s)"

definition startAllBundles :: "'c osp_env \<Rightarrow> nat \<Rightarrow> ('c, unit) osp" where
  "startAllBundles E n = p_bind (p_get (by_run_level E)) (p_each (start_or_report E n))"

section \<open>Stopping\<close>

definition stopBundle :: "'c osp_env \<Rightarrow> nat \<Rightarrow> ('c, unit) osp" where
  "stopBundle E b =
     p_bind (getBundle b) (\<lambda>x.
     p_bind (p_get (\<lambda>s. map_of (ld_bundles s) (symbolicName x))) (\<lambda>it.
       if it = None then p_throw (unknown_bundle x)
       else if bu_activator x then call_activator (ev_stop E) ActivatorStop b else p_ret ()))"

text \<open>\<open>Bundle::stop\<close>.\<close>

definition stop :: "'c osp_env \<Rightarrow> nat \<Rightarrow> ('c, unit) osp" where
  "stop E b =
     p_bind (getBundle b) (\<lambda>x.
       if bu_state x \<noteq> BUNDLE_ACTIVE then p_throw (OspException BundleStateException ''stop() requires ACTIVE state'')
       else
         p_seq (setState b BUNDLE_STOPPING)
        (p_seq (act (Fired EV_BUNDLE_STOPPING b))
        (p_seq (p_catch (stopBundle E b) (\<lambda>e. p_seq (setState b BUNDLE_ACTIVE) (p_throw e)))
        (p_seq (setState b BUNDLE_RESOLVED)
               (act (Fired EV_BUNDLE_STOPPED b))))))"

text \<open>One pass of the inner loop: the first bundle whose dependencies are all done_names, with what is before and after it.\<close>

fun first_ready :: "'c loader \<Rightarrow> string set \<Rightarrow> nat list \<Rightarrow> (nat list \<times> nat \<times> nat list) option" where
  "first_ready s done_names [] = None"
| "first_ready s done_names (b # bs) =
     (if isResolved (ld_heap s b) \<and> list_ex (\<lambda>d. rd_symbolicName d \<notin> done_names) (bu_resolved (ld_heap s b))
      then (case first_ready s done_names bs of None \<Rightarrow> None | Some (pre, x, post) \<Rightarrow> Some (b # pre, x, post))
      else Some ([], b, bs))"

partial_function (option) sort_loop :: "'c loader \<Rightarrow> nat list \<Rightarrow> string set \<Rightarrow> nat list \<Rightarrow> nat list option" where
  "sort_loop s remaining done_names bundles =
     (if remaining = [] then Some bundles
      else case first_ready s done_names remaining of
             None \<Rightarrow> sort_loop s remaining done_names bundles
           | Some (pre, b, post) \<Rightarrow> sort_loop s (pre @ post) (insert (symbolicName (ld_heap s b)) done_names) (bundles @ [b]))"

definition sortBundles :: "'c osp_env \<Rightarrow> 'c loader \<Rightarrow> nat list option" where
  "sortBundles E s = map_option rev (sort_loop s (by_run_level E s) {} [])"

definition stop_if_active :: "'c osp_env \<Rightarrow> nat \<Rightarrow> ('c, unit) osp" where
  "stop_if_active E b = p_bind (getBundle b) (\<lambda>x. if isActive x then stop E b else p_ret ())"

definition sorted_bundles :: "'c osp_env \<Rightarrow> ('c, nat list) osp" where
  "sorted_bundles E s = map_option (\<lambda>bs. (Inr bs, s)) (sortBundles E s)"

definition stopAllBundles :: "'c osp_env \<Rightarrow> ('c, unit) osp" where
  "stopAllBundles E = p_bind (sorted_bundles E) (p_each (stop_if_active E))"

section \<open>Unloading and uninstalling\<close>

definition unloadActivator :: "'c osp_env \<Rightarrow> string \<Rightarrow> bundle_info \<Rightarrow> ('c, unit) osp" where
  "unloadActivator E name info =
     (case bi_classLoader info of
        None \<Rightarrow> p_ret ()
      | Some libs \<Rightarrow>
          p_bind (getBundle (bi_bundle info)) (\<lambda>x.
          p_seq
            (if mf_activatorClass (bu_manifest x) \<noteq> [] then
               p_bind (p_get (\<lambda>s. libraryPathFor E s x)) (\<lambda>libPath.
                 if libPath \<in> set libs then setClassLoader name (Some (filter (\<lambda>l. l \<noteq> libPath) libs))
                 else p_throw (NotFoundException libPath))
             else p_ret ())
            (setClassLoader name None)))"

definition detach_extension :: "nat \<Rightarrow> ('c, unit) osp" where
  "detach_extension b =
     p_bind (getBundle b) (\<lambda>x.
       if isExtensionBundle x then
         p_bind (p_get (\<lambda>s. extendedBundle s x)) (\<lambda>found.
           case found of None \<Rightarrow> p_ret () | Some d \<Rightarrow> removeExtensionBundle d b)
       else p_ret ())"

definition drop_activator :: "'c osp_env \<Rightarrow> osp_bundle \<Rightarrow> ('c, unit) osp" where
  "drop_activator E x =
     p_bind (p_get (\<lambda>s. map_of (ld_bundles s) (symbolicName x))) (\<lambda>it.
       case it of None \<Rightarrow> p_ret () | Some info \<Rightarrow> unloadActivator E (symbolicName x) info)"

definition forget_bundle :: "nat \<Rightarrow> osp_bundle \<Rightarrow> ('c, unit) osp" where
  "forget_bundle b x =
     p_seq (p_modify (\<lambda>s. s\<lparr>ld_bundles := map_erase (symbolicName x) (ld_bundles s), ld_ids := (ld_ids s)(b := None)\<rparr>))
           (act (Fired EV_BUNDLE_UNLOADED b))"

definition unloadBundle :: "'c osp_env \<Rightarrow> nat \<Rightarrow> ('c, unit) osp" where
  "unloadBundle E b =
     p_bind (getBundle b) (\<lambda>x.
       if isStarted x then p_throw (osp_exc BundleStateException ''An active bundle cannot be unloaded'' (symbolicName x))
       else p_seq (detach_extension b) (p_seq (drop_activator E x) (forget_bundle b x)))"

definition unloadAllBundles :: "'c osp_env \<Rightarrow> ('c, unit) osp" where
  "unloadAllBundles E = p_bind (sorted_bundles E) (p_each (\<lambda>b. p_seq (stop_if_active E b) (unloadBundle E b)))"

definition uninstallLibraries :: "nat \<Rightarrow> ('c, unit) osp" where
  "uninstallLibraries b = p_bind (getBundle b) (\<lambda>x. p_each (\<lambda>lib. with_cache (cacheUninstall (lb_name lib))) (bu_libraries x))"

definition removeFile :: "'c osp_env \<Rightarrow> string \<Rightarrow> ('c, unit) osp" where
  "removeFile E path =
     p_bind (p_get (\<lambda>s. ld_files s path)) (\<lambda>f.
       if f = None then p_throw (FileNotFoundException path)
       else if \<not> ev_removable E path then p_throw (FileException path)
       else p_modify (\<lambda>s. s\<lparr>ld_files := (ld_files s)(path := None)\<rparr>))"

definition uninstallBundle :: "'c osp_env \<Rightarrow> nat \<Rightarrow> ('c, unit) osp" where
  "uninstallBundle E b =
     p_bind (getBundle b) (\<lambda>x.
     p_seq (detach_extension b)
    (p_seq (drop_activator E x)
    (p_seq (uninstallLibraries b)
    (p_seq (p_catch (removeFile E (bu_path x)) (\<lambda>e. p_bind (p_get (\<lambda>s. ld_files s (bu_path x))) (\<lambda>f. if f = None then p_ret () else p_throw e)))
           (forget_bundle b x)))))"

text \<open>\<open>Bundle::uninstall\<close>.\<close>

definition uninstall :: "'c osp_env \<Rightarrow> nat \<Rightarrow> ('c, unit) osp" where
  "uninstall E b =
     p_bind (getBundle b) (\<lambda>x.
       if bu_state x \<noteq> BUNDLE_INSTALLED \<and> bu_state x \<noteq> BUNDLE_RESOLVED
       then p_throw (OspException BundleStateException ''uninstall() requires INSTALLED or RESOLVED state'')
       else if mf_preventUninstall (bu_manifest x) then p_throw (OspException BundleUninstallException ''bundle manifest prevents uninstall'')
       else
         p_seq (act (Fired EV_BUNDLE_UNINSTALLING b))
        (p_seq (uninstallBundle E b)
        (p_seq (setState b BUNDLE_UNINSTALLED)
               (act (Fired EV_BUNDLE_UNINSTALLED b)))))"

end
