(* ===== verification/OspResolve.thy ===== *)
theory OspResolve
  imports OspLoader
begin

text \<open>
  Resolving bundles: what \<open>resolve\<close> guarantees whether it returns or throws, when it succeeds, and when
  it ends. The reference is \<open>resolvable\<close>, the least set of bundles whose requirements are met by
  bundles of the set.
\<close>

section \<open>Statements that call themselves\<close>

lemma p_each_append: "p_each f (xs @ ys) s = p_seq (p_each f xs) (p_each f ys) s"
proof (induction xs arbitrary: s)
  case (Cons x xs)
  show ?case
  proof (cases "f x s")
    case (Some rt)
    then show ?thesis by (cases rt; cases "fst rt") (auto simp: p_seq_def p_bind_def Cons [unfolded p_seq_def p_bind_def])
  qed (simp add: p_seq_def p_bind_def)
qed (simp add: p_seq_def p_bind_def)

lemma p_each_concat: "p_each (p_each f) xss s = p_each f (concat xss) s"
proof (induction xss arbitrary: s)
  case (Cons xs xss)
  then have "p_each (p_each f) xss = p_each f (concat xss)" by auto
  then show ?case by (simp add: p_each_append)
qed simp

lemma p_each_map: "p_each f (map g xs) = p_each (f \<circ> g) xs"
  by (induction xs) auto

lemma p_each_cong: "(\<And>x. x \<in> set xs \<Longrightarrow> f x = g x) \<Longrightarrow> p_each f xs = p_each g xs"
  by (induction xs) auto

lemma p_seq_cases:
  assumes "p_seq m n s = Some (r, t)"
  obtains (threw) e where "m s = Some (Inl e, t)" "r = Inl e"
    | (returned) x u where "m s = Some (Inr x, u)" "n u = Some (r, t)"
  using assms unfolding p_seq_def by (rule p_bind_cases) auto

lemma p_bind_None: "p_bind m f s = None \<longleftrightarrow> m s = None \<or> (\<exists>x t. m s = Some (Inr x, t) \<and> f x t = None)"
  by (auto simp: p_bind_def split: option.splits prod.splits sum.splits)

lemma p_seq_None: "p_seq m n s = None \<longleftrightarrow> m s = None \<or> (\<exists>x t. m s = Some (Inr x, t) \<and> n t = None)"
  by (simp add: p_seq_def p_bind_None)

lemma p_catch_None: "p_catch m h s = None \<longleftrightarrow> m s = None \<or> (\<exists>e t. m s = Some (Inl e, t) \<and> h e t = None)"
  by (auto simp: p_catch_def split: option.splits prod.splits sum.splits)

lemmas p_none = p_bind_None p_seq_None p_catch_None

lemma setBundle_run [simp]: "setBundle b f s = Some (Inr (), s\<lparr>ld_heap := (ld_heap s)(b := f (ld_heap s b))\<rparr>)"
  by (simp add: setBundle_def)

lemma getBundle_run [simp]: "getBundle b s = Some (Inr (ld_heap s b), s)"
  by (simp add: getBundle_def)

lemma act_run [simp]: "act a s = Some (Inr (), s\<lparr>ld_trace := ld_trace s @ [a]\<rparr>)"
  by (simp add: act_def)

lemma setState_run [simp]: "setState b st s = Some (Inr (), s\<lparr>ld_heap := (ld_heap s)(b := (ld_heap s b)\<lparr>bu_state := st\<rparr>)\<rparr>)"
  by (simp add: setState_def)

lemma clear_run [simp]: "clearResolvedDependencies b s = Some (Inr (), s\<lparr>ld_heap := (ld_heap s)(b := (ld_heap s b)\<lparr>bu_resolved := []\<rparr>)\<rparr>)"
  by (simp add: clearResolvedDependencies_def)

lemma erase_run [simp]: "erase_resolving b s = Some (Inr (), s\<lparr>ld_resolving := ld_resolving s - {b}\<rparr>)"
  by (simp add: erase_resolving_def)

section \<open>The reference\<close>

definition loaded :: "'c loader \<Rightarrow> nat set" where
  "loaded s = set (listBundles s)"

definition wf_loader :: "'c loader \<Rightarrow> bool" where
  "wf_loader s \<longleftrightarrow> distinct (map fst (ld_bundles s)) \<and> (\<forall>(k, i) \<in> set (ld_bundles s). symbolicName (ld_heap s (bi_bundle i)) = k)"

definition accepts :: "dependency \<Rightarrow> osp_bundle \<Rightarrow> bool" where
  "accepts dep x \<longleftrightarrow> range_isEmpty (dep_versions dep) \<or> isInRange (dep_versions dep) (bundle_version x)"

text \<open>The requirements in the manifest are met by loaded bundles of the set \<open>P\<close>.\<close>

definition requirements_met :: "'c loader \<Rightarrow> manifest \<Rightarrow> (nat \<Rightarrow> bool) \<Rightarrow> bool" where
  "requirements_met s m P \<longleftrightarrow>
     (\<forall>dep \<in> set (mf_requiredBundles m). \<exists>d. findBundle s (dep_symbolicName dep) = Some d \<and> accepts dep (ld_heap s d) \<and> P d) \<and>
     (\<forall>mdl \<in> set (mf_requiredModules m). (\<exists>d \<in> loaded s. isProvidingModule (ld_heap s d) mdl) \<and>
        (\<forall>d \<in> loaded s. isProvidingModule (ld_heap s d) mdl \<longrightarrow> P d))"

lemma requirements_met_mono: "(\<And>d. P d \<Longrightarrow> Q d) \<Longrightarrow> requirements_met s m P \<Longrightarrow> requirements_met s m Q"
  by (fastforce simp: requirements_met_def)

lemma requirements_met_mono' [mono]: "P \<le> Q \<Longrightarrow> requirements_met s m P \<le> requirements_met s m Q"
  by (auto intro: requirements_met_mono)

inductive resolvable :: "'c loader \<Rightarrow> nat \<Rightarrow> bool" for s where
  already: "isResolved (ld_heap s b) \<Longrightarrow> resolvable s b"
| by_requirements: "bu_state (ld_heap s b) = BUNDLE_INSTALLED \<Longrightarrow> requirements_met s (bu_manifest (ld_heap s b)) (resolvable s) \<Longrightarrow> resolvable s b"

primrec resolvable_within :: "'c loader \<Rightarrow> nat \<Rightarrow> nat \<Rightarrow> bool" where
  "resolvable_within s 0 b = isResolved (ld_heap s b)"
| "resolvable_within s (Suc k) b =
     (resolvable_within s k b \<or>
      bu_state (ld_heap s b) = BUNDLE_INSTALLED \<and> requirements_met s (bu_manifest (ld_heap s b)) (resolvable_within s k))"

section \<open>Demands\<close>

text \<open>What one \<open>resolve\<close> passes to \<open>resolveDependency\<close>: the providers of the modules, then the bundles.\<close>

definition demands :: "'c loader \<Rightarrow> manifest \<Rightarrow> dependency list" where
  "demands s m =
     concat (map (\<lambda>mdl. map (\<lambda>d. \<lparr>dep_symbolicName = rd_symbolicName d, dep_versions = exactly (rd_version d)\<rparr>) (providers_of s mdl)) (mf_requiredModules m))
     @ mf_requiredBundles m"

definition providable :: "'c loader \<Rightarrow> manifest \<Rightarrow> bool" where
  "providable s m \<longleftrightarrow> (\<forall>mdl \<in> set (mf_requiredModules m). providers_of s mdl \<noteq> [])"

lemma resolveModules_ok:
  "(\<forall>mdl \<in> set ms. providers_of s mdl \<noteq> []) \<Longrightarrow>
   resolveModules s q ms = Inr (map (\<lambda>mdl. \<lparr>mp_module = mdl, mp_bundles = providers_of s mdl\<rparr>) ms)"
  by (induction ms) auto

lemma resolveModules_fails: "\<not> (\<forall>mdl \<in> set ms. providers_of s mdl \<noteq> []) \<Longrightarrow> \<exists>e. resolveModules s q ms = Inl e"
proof (induction ms)
  case (Cons m ms)
  then show ?case by (cases "providers_of s m = []") (auto split: sum.split)
qed simp

lemma resolveRequirements_run:
  assumes "providable s (bu_manifest (ld_heap s b))"
  shows "\<exists>ps. resolveRequirements rs b s =
    p_seq (p_each (resolveDependency rs b) (demands s (bu_manifest (ld_heap s b)))) (setBundle b (\<lambda>x. x\<lparr>bu_providers := ps\<rparr>)) s"
proof -
  let ?m = "bu_manifest (ld_heap s b)"
  let ?ps = "map (\<lambda>mdl. \<lparr>mp_module = mdl, mp_bundles = providers_of s mdl\<rparr>) (mf_requiredModules ?m)"
  let ?dep = "\<lambda>d. \<lparr>dep_symbolicName = rd_symbolicName d, dep_versions = exactly (rd_version d)\<rparr>"
  have "resolveModules s (symbolicName (ld_heap s b)) (mf_requiredModules ?m) = Inr ?ps"
    using assms by (intro resolveModules_ok) (simp add: providable_def)
  moreover have "resolveProviders rs b ?ps = p_each (resolveDependency rs b)
      (concat (map (\<lambda>mdl. map ?dep (providers_of s mdl)) (mf_requiredModules ?m)))"
    by (rule ext, subst p_each_concat [symmetric]) (simp add: resolveProviders_def p_each_map comp_def)
  ultimately show ?thesis
    by (intro exI [of _ ?ps]) (simp add: resolveRequirements_def demands_def resolveDependencies_def p_each_append p_seq_def p_bind_def
        split: option.splits prod.splits sum.splits)
qed

lemma resolveRequirements_fails:
  assumes "\<not> providable s (bu_manifest (ld_heap s b))"
  shows "\<exists>e. resolveRequirements rs b s = Some (Inl e, s)"
proof -
  obtain e where "resolveModules s (symbolicName (ld_heap s b)) (mf_requiredModules (bu_manifest (ld_heap s b))) = Inl e"
    using resolveModules_fails assms unfolding providable_def by blast
  then show ?thesis by (simp add: resolveRequirements_def p_bind_def getBundle_def)
qed

definition same_static :: "'c loader \<Rightarrow> 'c loader \<Rightarrow> bool" where
  "same_static s t \<longleftrightarrow> ld_bundles t = ld_bundles s \<and> (\<forall>b. bu_manifest (ld_heap t b) = bu_manifest (ld_heap s b))"

lemma same_static_eqs:
  assumes "same_static s t"
  shows "findBundle t = findBundle s" "loaded t = loaded s" "providers_of t = providers_of s" "demands t = demands s"
    "providable t = providable s" "wf_loader t = wf_loader s" "accepts dep (ld_heap t b) = accepts dep (ld_heap s b)"
    "isProvidingModule (ld_heap t b) = isProvidingModule (ld_heap s b)" "bu_manifest (ld_heap t b) = bu_manifest (ld_heap s b)"
    "requirements_met t = requirements_met s" "listBundles t = listBundles s"
proof -
  have man: "bu_manifest (ld_heap t b) = bu_manifest (ld_heap s b)" for b using assms by (simp add: same_static_def)
  have bun: "ld_bundles t = ld_bundles s" using assms by (simp add: same_static_def)
  show fb: "findBundle t = findBundle s" by (simp add: findBundle_def bun fun_eq_iff)
  show lb: "listBundles t = listBundles s" by (simp add: listBundles_def bun)
  then show ld: "loaded t = loaded s" by (simp add: loaded_def)
  have pm: "isProvidingModule (ld_heap t b) = isProvidingModule (ld_heap s b)" for b by (simp add: isProvidingModule_def man fun_eq_iff)
  show "isProvidingModule (ld_heap t b) = isProvidingModule (ld_heap s b)" by (rule pm)
  show po: "providers_of t = providers_of s" by (simp add: providers_of_def bun pm man fun_eq_iff)
  show "demands t = demands s" by (simp add: demands_def po fun_eq_iff)
  show "providable t = providable s" by (simp add: providable_def po fun_eq_iff)
  show "wf_loader t = wf_loader s" by (simp add: wf_loader_def bun man)
  have ac: "accepts dep (ld_heap t b) = accepts dep (ld_heap s b)" for dep b by (simp add: accepts_def man)
  show "accepts dep (ld_heap t b) = accepts dep (ld_heap s b)" by (rule ac)
  show "bu_manifest (ld_heap t b) = bu_manifest (ld_heap s b)" by (rule man)
  show "requirements_met t = requirements_met s" by (simp add: requirements_met_def fb ld pm ac fun_eq_iff)
qed

lemma same_static_trans: "same_static s t \<Longrightarrow> same_static t u \<Longrightarrow> same_static s u"
  by (simp add: same_static_def)

lemma same_static_refl [simp]: "same_static s s"
  by (simp add: same_static_def)

lemma in_exactly: "isInRange (exactly v) v"
  by (simp add: isInRange_def exactly_def same_version_def)

lemma find_entry: "wf_loader s \<Longrightarrow> findBundle s name = Some d \<longleftrightarrow> (\<exists>i. (name, i) \<in> set (ld_bundles s) \<and> bi_bundle i = d)"
  by (auto simp: wf_loader_def findBundle_def)

lemma find_loaded: "findBundle s name = Some d \<Longrightarrow> d \<in> loaded s"
  by (force simp: findBundle_def loaded_def listBundles_def dest: map_of_SomeD)

lemma find_name: "wf_loader s \<Longrightarrow> findBundle s name = Some d \<Longrightarrow> symbolicName (ld_heap s d) = name"
  by (auto simp: find_entry wf_loader_def)

lemma in_loaded: "d \<in> loaded s \<longleftrightarrow> (\<exists>k i. (k, i) \<in> set (ld_bundles s) \<and> bi_bundle i = d)"
  by (force simp: loaded_def listBundles_def)

lemma wf_entry: "wf_loader s \<Longrightarrow> (k, i) \<in> set (ld_bundles s) \<Longrightarrow> symbolicName (ld_heap s (bi_bundle i)) = k"
  by (auto simp: wf_loader_def)

lemma loaded_find: "wf_loader s \<Longrightarrow> d \<in> loaded s \<Longrightarrow> findBundle s (symbolicName (ld_heap s d)) = Some d"
  using wf_entry [of s] unfolding find_entry in_loaded by blast

lemma in_providers_of:
  assumes "wf_loader s"
  shows "rd \<in> set (providers_of s mdl) \<longleftrightarrow>
    (\<exists>d \<in> loaded s. isProvidingModule (ld_heap s d) mdl \<and> rd = \<lparr>rd_symbolicName = symbolicName (ld_heap s d), rd_version = bundle_version (ld_heap s d)\<rparr>)"
    (is "_ \<longleftrightarrow> ?R")
proof -
  have "rd \<in> set (providers_of s mdl) \<longleftrightarrow> (\<exists>k i. (k, i) \<in> set (ld_bundles s) \<and> isProvidingModule (ld_heap s (bi_bundle i)) mdl \<and>
      rd = \<lparr>rd_symbolicName = k, rd_version = bundle_version (ld_heap s (bi_bundle i))\<rparr>)"
    unfolding providers_of_def by auto
  also have "\<dots> \<longleftrightarrow> (\<exists>k i. (k, i) \<in> set (ld_bundles s) \<and> isProvidingModule (ld_heap s (bi_bundle i)) mdl \<and>
      rd = \<lparr>rd_symbolicName = symbolicName (ld_heap s (bi_bundle i)), rd_version = bundle_version (ld_heap s (bi_bundle i))\<rparr>)"
    by (intro iff_exI) (auto dest: wf_entry [OF assms])
  also have "\<dots> \<longleftrightarrow> ?R" unfolding Bex_def in_loaded by blast
  finally show ?thesis .
qed

lemma met_demands:
  assumes "wf_loader s"
  shows "requirements_met s m P \<longleftrightarrow> providable s m \<and>
    (\<forall>dep \<in> set (demands s m). \<exists>d. findBundle s (dep_symbolicName dep) = Some d \<and> accepts dep (ld_heap s d) \<and> P d)"
proof -
  have ne: "providers_of s mdl \<noteq> [] \<longleftrightarrow> (\<exists>d \<in> loaded s. isProvidingModule (ld_heap s d) mdl)" for mdl
    using in_providers_of [OF assms, of _ mdl] by (metis empty_iff empty_set last_in_set)
  let ?dep = "\<lambda>rd. \<lparr>dep_symbolicName = rd_symbolicName rd, dep_versions = exactly (rd_version rd)\<rparr>"
  have one: "(\<exists>d'. findBundle s (symbolicName (ld_heap s d)) = Some d' \<and>
      accepts (?dep \<lparr>rd_symbolicName = n, rd_version = bundle_version (ld_heap s d)\<rparr>) (ld_heap s d') \<and> P d') \<longleftrightarrow> P d"
    if "d \<in> loaded s" for d n
    using loaded_find [OF assms that] by (simp add: accepts_def in_exactly)
  have "(\<forall>rd \<in> set (providers_of s mdl). \<exists>d. findBundle s (rd_symbolicName rd) = Some d \<and> accepts (?dep rd) (ld_heap s d) \<and> P d)
      \<longleftrightarrow> (\<forall>d \<in> loaded s. isProvidingModule (ld_heap s d) mdl \<longrightarrow> P d)" for mdl
    using one by (simp add: Ball_def in_providers_of [OF assms]) (metis (no_types, lifting) dependency.ext_inject resolved_dependency.select_convs)
  then have mods: "(\<forall>dep \<in> (\<Union>mdl \<in> set (mf_requiredModules m). ?dep ` set (providers_of s mdl)). \<exists>d. findBundle s (dep_symbolicName dep) = Some d \<and> accepts dep (ld_heap s d) \<and> P d)
      \<longleftrightarrow> (\<forall>mdl \<in> set (mf_requiredModules m). \<forall>d \<in> loaded s. isProvidingModule (ld_heap s d) mdl \<longrightarrow> P d)"
    by simp
  have "set (demands s m) = (\<Union>mdl \<in> set (mf_requiredModules m). ?dep ` set (providers_of s mdl)) \<union> set (mf_requiredBundles m)"
    by (simp add: demands_def)
  then show ?thesis
    unfolding requirements_met_def providable_def ne by (simp only: ball_Un mods) blast
qed

section \<open>What a resolution keeps\<close>

definition bundle_names :: "osp_bundle \<Rightarrow> string set" where
  "bundle_names x = rd_symbolicName ` set (bu_resolved x)"

text \<open>The recorded dependencies are loaded bundles in the recorded version, and resolved.\<close>

definition listed_ok :: "'c loader \<Rightarrow> nat \<Rightarrow> bool" where
  "listed_ok s b \<longleftrightarrow> (\<forall>rd \<in> set (bu_resolved (ld_heap s b)). \<exists>d. findBundle s (rd_symbolicName rd) = Some d \<and>
     bundle_version (ld_heap s d) = rd_version rd \<and> isResolved (ld_heap s d))"

definition sound_at :: "'c loader \<Rightarrow> nat \<Rightarrow> bool" where
  "sound_at s b \<longleftrightarrow> listed_ok s b \<and>
     requirements_met s (bu_manifest (ld_heap s b)) (\<lambda>d. isResolved (ld_heap s d) \<and> symbolicName (ld_heap s d) \<in> bundle_names (ld_heap s b))"

definition deps_ok :: "'c loader \<Rightarrow> bool" where
  "deps_ok s \<longleftrightarrow> (\<forall>b. isResolved (ld_heap s b) \<longrightarrow> sound_at s b)"

text \<open>From \<open>s\<close> to \<open>t\<close> bundles have only gone from installed to resolved, those that could; the set \<open>F\<close> is left alone.\<close>

definition progress :: "nat set \<Rightarrow> 'c loader \<Rightarrow> 'c loader \<Rightarrow> bool" where
  "progress F s t \<longleftrightarrow> same_static s t \<and> ld_resolving t = ld_resolving s \<and>
     (\<forall>b. isResolved (ld_heap s b) \<longrightarrow> bu_state (ld_heap t b) = bu_state (ld_heap s b) \<and> bu_resolved (ld_heap t b) = bu_resolved (ld_heap s b)) \<and>
     (\<forall>b. bu_state (ld_heap t b) = bu_state (ld_heap s b) \<or> bu_state (ld_heap s b) = BUNDLE_INSTALLED \<and> bu_state (ld_heap t b) = BUNDLE_RESOLVED) \<and>
     (\<forall>b. isResolved (ld_heap t b) \<longrightarrow> resolvable s b) \<and>
     (\<forall>b \<in> ld_resolving s. bu_state (ld_heap t b) = bu_state (ld_heap s b)) \<and>
     (\<forall>b \<in> F. bu_state (ld_heap t b) = bu_state (ld_heap s b) \<and> bu_resolved (ld_heap t b) = bu_resolved (ld_heap s b))"

lemma progress_static: "progress F s t \<Longrightarrow> same_static s t"
  by (simp add: progress_def)

lemma isResolved_state: "bu_state x = bu_state y \<Longrightarrow> isResolved x = isResolved y"
  by (simp add: isResolved_def)

lemma progress_resolved: "progress F s t \<Longrightarrow> isResolved (ld_heap s b) \<Longrightarrow> isResolved (ld_heap t b)"
  using isResolved_state unfolding progress_def by blast

lemma progress_states:
  "progress F s t \<Longrightarrow> bu_state (ld_heap t b) = bu_state (ld_heap s b) \<or> bu_state (ld_heap s b) = BUNDLE_INSTALLED \<and> bu_state (ld_heap t b) = BUNDLE_RESOLVED"
  by (simp add: progress_def)

lemma progress_installed: "progress F s t \<Longrightarrow> bu_state (ld_heap t b) = BUNDLE_INSTALLED \<Longrightarrow> bu_state (ld_heap s b) = BUNDLE_INSTALLED"
  using progress_states [of F s t b] by auto

lemma progress_fewer: "progress F s t \<Longrightarrow> F' \<subseteq> F \<Longrightarrow> progress F' s t"
  by (auto simp: progress_def)

lemma progress_refl [simp]: "progress F s s"
  by (simp add: progress_def resolvable.already)

lemma resolvable_back:
  assumes "progress F s t" and "resolvable t b"
  shows "resolvable s b"
  using assms(2)
proof (induction rule: resolvable.induct)
  case (already b)
  then show ?case using assms(1) by (simp add: progress_def)
next
  case (by_requirements b)
  have "bu_state (ld_heap s b) = BUNDLE_INSTALLED"
    using assms(1) by_requirements.hyps(1) by (rule progress_installed)
  moreover have "requirements_met t (bu_manifest (ld_heap t b)) (resolvable s)"
    by (rule requirements_met_mono [OF _ by_requirements.IH]) simp
  then have "requirements_met s (bu_manifest (ld_heap s b)) (resolvable s)"
    using same_static_eqs(9,10) [OF progress_static [OF assms(1)]] by simp
  ultimately show ?case by (rule resolvable.by_requirements)
qed

lemma progress_trans:
  assumes "progress F s t" and "progress F t u"
  shows "progress F s u"
  unfolding progress_def
proof (intro conjI)
  show "same_static s u" using assms same_static_trans by (auto simp: progress_def)
  show "ld_resolving u = ld_resolving s" using assms by (simp add: progress_def)
  show "\<forall>b. isResolved (ld_heap s b) \<longrightarrow> bu_state (ld_heap u b) = bu_state (ld_heap s b) \<and> bu_resolved (ld_heap u b) = bu_resolved (ld_heap s b)"
    using assms progress_resolved [OF assms(1)] by (simp add: progress_def)
  show "\<forall>b. bu_state (ld_heap u b) = bu_state (ld_heap s b) \<or> bu_state (ld_heap s b) = BUNDLE_INSTALLED \<and> bu_state (ld_heap u b) = BUNDLE_RESOLVED"
    using assms unfolding progress_def by metis
  show "\<forall>b. isResolved (ld_heap u b) \<longrightarrow> resolvable s b"
    using assms(2) resolvable_back [OF assms(1)] by (simp add: progress_def)
  show "\<forall>b \<in> ld_resolving s. bu_state (ld_heap u b) = bu_state (ld_heap s b)"
    using assms by (simp add: progress_def)
  show "\<forall>b \<in> F. bu_state (ld_heap u b) = bu_state (ld_heap s b) \<and> bu_resolved (ld_heap u b) = bu_resolved (ld_heap s b)"
    using assms by (simp add: progress_def)
qed

lemma progress_local:
  assumes "same_static s t" and "ld_resolving t = ld_resolving s" and "\<And>c. bu_state (ld_heap t c) = bu_state (ld_heap s c)"
    and "\<And>c. isResolved (ld_heap s c) \<or> c \<in> F \<Longrightarrow> bu_resolved (ld_heap t c) = bu_resolved (ld_heap s c)"
  shows "progress F s t"
  using assms by (auto simp: progress_def isResolved_def intro: resolvable.already)

lemma sound_at_kept:
  assumes "same_static s t" and "\<And>c. isResolved (ld_heap s c) \<Longrightarrow> isResolved (ld_heap t c)" and "bu_resolved (ld_heap t b) = bu_resolved (ld_heap s b)"
    and "sound_at s b"
  shows "sound_at t b"
  using assms(4) same_static_eqs [OF assms(1)] unfolding sound_at_def listed_ok_def bundle_names_def
  by (auto simp: assms(2,3) intro: requirements_met_mono [rotated])

lemma deps_ok_kept:
  assumes "deps_ok s" and "same_static s t" and "\<And>c. isResolved (ld_heap s c) \<Longrightarrow> isResolved (ld_heap t c)"
    and "\<And>c. isResolved (ld_heap t c) \<Longrightarrow> isResolved (ld_heap s c) \<and> bu_resolved (ld_heap t c) = bu_resolved (ld_heap s c) \<or> sound_at t c"
  shows "deps_ok t"
  using assms sound_at_kept unfolding deps_ok_def by metis

text \<open>What a successful resolution leaves alone: the bundles that are being resolved, and those it does not resolve.\<close>

definition untouched :: "'c loader \<Rightarrow> 'c loader \<Rightarrow> nat set" where
  "untouched s t = ld_resolving s \<union> {c. \<not> isResolved (ld_heap t c)}"

lemma progress_extend: "progress F s u \<Longrightarrow> progress F' u t \<Longrightarrow> G \<subseteq> F \<Longrightarrow> G \<subseteq> F' \<Longrightarrow> progress G s t"
  by (rule progress_trans [of _ _ u]) (auto intro: progress_fewer)

lemma untouched_extend: "progress F s u \<Longrightarrow> progress F' u t \<Longrightarrow> untouched s t \<subseteq> untouched s u \<and> untouched u t = untouched s t"
  using progress_resolved [of F' u t] unfolding untouched_def by (auto simp: progress_def)

text \<open>What is asked of the nested \<open>resolve\<close>: started in a sound state it ends in one, returning or not.\<close>

definition inv :: "'c loader \<Rightarrow> bool" where
  "inv s \<longleftrightarrow> wf_loader s \<and> deps_ok s"

definition sound :: "(nat \<Rightarrow> ('c, unit) osp) \<Rightarrow> bool" where
  "sound rs \<longleftrightarrow> (\<forall>b s r t. inv s \<longrightarrow> rs b s = Some (r, t) \<longrightarrow>
     inv t \<and> progress (if r = Inr () then untouched s t else {}) s t \<and> (r = Inr () \<longrightarrow> isResolved (ld_heap t b)))"

lemma soundD:
  "sound rs \<Longrightarrow> inv s \<Longrightarrow> rs b s = Some (Inl e, t) \<Longrightarrow> inv t \<and> progress {} s t"
  "sound rs \<Longrightarrow> inv s \<Longrightarrow> rs b s = Some (Inr x, t) \<Longrightarrow> inv t \<and> progress (untouched s t) s t \<and> isResolved (ld_heap t b)"
  by (fastforce simp: sound_def)+

text \<open>The state in which the requirements of \<open>b\<close> are being met.\<close>

definition working :: "nat \<Rightarrow> 'c loader \<Rightarrow> bool" where
  "working b s \<longleftrightarrow> inv s \<and> b \<in> ld_resolving s \<and> bu_state (ld_heap s b) = BUNDLE_INSTALLED \<and> listed_ok s b"

definition met :: "'c loader \<Rightarrow> nat \<Rightarrow> dependency \<Rightarrow> bool" where
  "met s b dep \<longleftrightarrow> (\<exists>d. findBundle s (dep_symbolicName dep) = Some d \<and> accepts dep (ld_heap s d) \<and> isResolved (ld_heap s d) \<and>
     symbolicName (ld_heap s d) \<in> bundle_names (ld_heap s b))"

lemma met_kept: "same_static s t \<Longrightarrow> (\<And>c. isResolved (ld_heap s c) \<Longrightarrow> isResolved (ld_heap t c)) \<Longrightarrow>
    bundle_names (ld_heap s b) \<subseteq> bundle_names (ld_heap t b) \<Longrightarrow> met s b dep \<Longrightarrow> met t b dep"
  unfolding met_def using same_static_eqs [of s t] by fastforce

lemma listed_ok_kept: "same_static s t \<Longrightarrow> (\<And>c. isResolved (ld_heap s c) \<Longrightarrow> isResolved (ld_heap t c)) \<Longrightarrow>
    bu_resolved (ld_heap t b) = bu_resolved (ld_heap s b) \<Longrightarrow> listed_ok s b \<Longrightarrow> listed_ok t b"
  unfolding listed_ok_def using same_static_eqs [of s t] by fastforce

lemma inv_kept:
  assumes "inv s" and "same_static s t" and "\<And>c. isResolved (ld_heap t c) \<longleftrightarrow> isResolved (ld_heap s c)"
    and "\<And>c. isResolved (ld_heap s c) \<Longrightarrow> bu_resolved (ld_heap t c) = bu_resolved (ld_heap s c)"
  shows "inv t"
  using assms deps_ok_kept [of s t] same_static_eqs(6) [OF assms(2)] by (simp add: inv_def)

lemma installed_unresolved: "bu_state x = BUNDLE_INSTALLED \<Longrightarrow> \<not> isResolved x"
  by (simp add: isResolved_def)

lemma add_step:
  assumes w: "working b s" and d: "findBundle s (symbolicName (ld_heap s d)) = Some d" "isResolved (ld_heap s d)"
    and run: "addResolvedDependency b \<lparr>rd_symbolicName = symbolicName (ld_heap s d), rd_version = bundle_version (ld_heap s d)\<rparr> s = Some (r, t)"
  shows "r = Inr () \<and> working b t \<and> progress (- {b}) s t \<and>
    bundle_names (ld_heap s b) \<subseteq> bundle_names (ld_heap t b) \<and> symbolicName (ld_heap s d) \<in> bundle_names (ld_heap t b)"
proof -
  let ?rd = "\<lparr>rd_symbolicName = symbolicName (ld_heap s d), rd_version = bundle_version (ld_heap s d)\<rparr>"
  let ?known = "symbolicName (ld_heap s d) \<in> bundle_names (ld_heap s b)"
  have known: "list_ex (\<lambda>d'. rd_symbolicName d' = symbolicName (ld_heap s d)) (bu_resolved (ld_heap s b)) \<longleftrightarrow> ?known"
    by (force simp: list_ex_iff bundle_names_def)
  have b: "bu_state (ld_heap s b) = BUNDLE_INSTALLED" "\<not> isResolved (ld_heap s b)"
    using w installed_unresolved by (simp_all add: working_def)
  have r: "r = Inr ()" and t: "ld_heap t = (ld_heap s)(b := if ?known then ld_heap s b else (ld_heap s b)\<lparr>bu_resolved := bu_resolved (ld_heap s b) @ [?rd]\<rparr>)"
    "ld_bundles t = ld_bundles s" "ld_resolving t = ld_resolving s"
    using run by (auto simp: addResolvedDependency_def known)
  have st: "same_static s t" by (simp add: same_static_def t)
  have states: "bu_state (ld_heap t c) = bu_state (ld_heap s c)" for c by (simp add: t)
  have res: "isResolved (ld_heap t c) \<longleftrightarrow> isResolved (ld_heap s c)" for c by (rule isResolved_state) (rule states)
  have inv: "inv t"
    by (rule inv_kept [OF _ st]) (use w b res in \<open>auto simp: working_def t\<close>)
  have prog: "progress (- {b}) s t"
    by (rule progress_local [OF st]) (use b in \<open>auto simp: t\<close>)
  have names: "bundle_names (ld_heap t b) = insert (symbolicName (ld_heap s d)) (bundle_names (ld_heap s b))"
    by (auto simp: t bundle_names_def)
  have "listed_ok t b"
    unfolding listed_ok_def same_static_eqs(1,9) [OF st] res
  proof
    fix rd assume "rd \<in> set (bu_resolved (ld_heap t b))"
    then consider "rd \<in> set (bu_resolved (ld_heap s b))" | "rd = ?rd" by (auto simp: t split: if_splits)
    then show "\<exists>d. findBundle s (rd_symbolicName rd) = Some d \<and> bundle_version (ld_heap s d) = rd_version rd \<and> isResolved (ld_heap s d)"
      using w d by cases (auto simp: working_def listed_ok_def)
  qed
  then have "working b t" using w inv by (simp add: working_def t)
  then show ?thesis using r prog names by auto
qed

lemma dependency_step:
  assumes rs: "sound rs" and w: "working b s" and run: "resolveDependency rs b dep s = Some (r, t)"
  shows "inv t \<and> progress (if r = Inr () then untouched s t - {b} else {}) s t \<and>
    (r = Inr () \<longrightarrow> working b t \<and> met t b dep \<and> bundle_names (ld_heap s b) \<subseteq> bundle_names (ld_heap t b))"
proof (cases "\<exists>d. findBundle s (dep_symbolicName dep) = Some d \<and> accepts dep (ld_heap s d) \<and> (isResolved (ld_heap s d) \<or> d \<notin> ld_resolving s)")
  case False
  then have "\<exists>e. resolveDependency rs b dep s = Some (Inl e, s)"
    unfolding resolveDependency_def accepts_def by (cases "findBundle s (dep_symbolicName dep)") auto
  then show ?thesis using run w by (auto simp: working_def)
next
  case True
  then obtain d where d: "findBundle s (dep_symbolicName dep) = Some d" "accepts dep (ld_heap s d)" "isResolved (ld_heap s d) \<or> d \<notin> ld_resolving s"
    by blast
  let ?first = "if \<not> isResolved (ld_heap s d) then rs d else p_ret ()"
  let ?add = "addResolvedDependency b \<lparr>rd_symbolicName = symbolicName (ld_heap s d), rd_version = bundle_version (ld_heap s d)\<rparr>"
  have inv: "inv s" using w by (simp add: working_def)
  have "resolveDependency rs b dep s = p_seq ?first ?add s"
    using d unfolding resolveDependency_def accepts_def by (cases "isResolved (ld_heap s d)") (auto simp: p_seq_def p_bind_def)
  with run have "p_seq ?first ?add s = Some (r, t)" by simp
  then show ?thesis
  proof (cases rule: p_seq_cases)
    case (threw e)
    then have "rs d s = Some (Inl e, t)" by (simp split: if_splits)
    then show ?thesis using soundD(1) [OF rs inv] threw by simp
  next
    case (returned x u)
    have u: "inv u \<and> progress (untouched s u) s u \<and> isResolved (ld_heap u d)"
    proof (cases "isResolved (ld_heap s d)")
      case True
      then show ?thesis using returned(1) inv by simp
    next
      case False
      then have "rs d s = Some (Inr (), u)" using returned(1) by simp
      then show ?thesis using soundD(2) [OF rs inv] by blast
    qed
    have st: "same_static s u" and R: "ld_resolving u = ld_resolving s" using u by (simp_all add: progress_def)
    have b: "bu_state (ld_heap u b) = bu_state (ld_heap s b) \<and> bu_resolved (ld_heap u b) = bu_resolved (ld_heap s b)"
      using u w by (simp add: progress_def working_def untouched_def)
    have "listed_ok u b"
      by (rule listed_ok_kept [OF st]) (use progress_resolved [of "untouched s u" s u] u w b in \<open>auto simp: working_def\<close>)
    then have wu: "working b u" using w u R b by (simp add: working_def)
    have name: "symbolicName (ld_heap s d) = dep_symbolicName dep"
      using find_name [OF _ d(1)] inv by (simp add: inv_def)
    have add: "r = Inr () \<and> working b t \<and> progress (- {b}) u t \<and>
        bundle_names (ld_heap u b) \<subseteq> bundle_names (ld_heap t b) \<and> symbolicName (ld_heap u d) \<in> bundle_names (ld_heap t b)"
      by (rule add_step [OF wu]) (use u returned(2) same_static_eqs [OF st] name d(1) in auto)
    have "progress (untouched s t - {b}) s t"
      by (rule progress_extend [of "untouched s u" s u "- {b}"]) (use u add untouched_extend [of _ s u _ t] in blast)+
    moreover have "met t b dep"
      unfolding met_def using d add u same_static_eqs [OF st] same_static_eqs [of u t] progress_resolved [of _ u t]
      by (auto simp: progress_static)
    moreover have "bundle_names (ld_heap s b) = bundle_names (ld_heap u b)" using b by (simp add: bundle_names_def)
    ultimately show ?thesis using add by (auto simp: working_def)
  qed
qed

lemma dependencies_step:
  assumes rs: "sound rs" and w: "working b s" and run: "p_each (resolveDependency rs b) deps s = Some (r, t)"
  shows "inv t \<and> progress (if r = Inr () then untouched s t - {b} else {}) s t \<and>
    (r = Inr () \<longrightarrow> working b t \<and> (\<forall>dep \<in> set deps. met t b dep) \<and> bundle_names (ld_heap s b) \<subseteq> bundle_names (ld_heap t b))"
  using w run
proof (induction deps arbitrary: s)
  case Nil
  then show ?case by (auto simp: working_def)
next
  case (Cons dep deps)
  from Cons.prems(2) have "p_seq (resolveDependency rs b dep) (p_each (resolveDependency rs b) deps) s = Some (r, t)" by simp
  then show ?case
  proof (cases rule: p_seq_cases)
    case (threw e)
    then show ?thesis using dependency_step [OF rs Cons.prems(1) threw(1)] by simp
  next
    case (returned x u)
    have u: "progress (untouched s u - {b}) s u" "working b u" "met u b dep" "bundle_names (ld_heap s b) \<subseteq> bundle_names (ld_heap u b)"
      using dependency_step [OF rs Cons.prems(1) returned(1)] by simp_all
    have IH: "inv t \<and> progress (if r = Inr () then untouched u t - {b} else {}) u t \<and>
        (r = Inr () \<longrightarrow> working b t \<and> (\<forall>dep \<in> set deps. met t b dep) \<and> bundle_names (ld_heap u b) \<subseteq> bundle_names (ld_heap t b))"
      by (rule Cons.IH [OF u(2) returned(2)])
    have "progress (if r = Inr () then untouched s t - {b} else {}) s t"
      by (rule progress_extend [OF u(1) IH [THEN conjunct2, THEN conjunct1]])
        (use untouched_extend [OF u(1) IH [THEN conjunct2, THEN conjunct1]] in auto)
    moreover have "met t b dep" if "r = Inr ()"
      by (rule met_kept [of u t]) (use IH that u(3) progress_static [of _ u t] progress_resolved [of _ u t] in auto)
    ultimately show ?thesis using IH u(4) by auto
  qed
qed

section \<open>Resolving is sound\<close>

lemma p_keeps_each [intro]: "(\<And>x. p_keeps P (f x)) \<Longrightarrow> p_keeps P (p_each f xs)"
  by (induction xs) auto

text \<open>Installing libraries concerns the code cache only.\<close>

definition cache_only :: "'c loader \<Rightarrow> 'c loader \<Rightarrow> bool" where
  "cache_only s0 s \<longleftrightarrow> s\<lparr>ld_cache := ld_cache s0\<rparr> = s0"

lemma cache_only_refl [simp]: "cache_only s s"
  by (simp add: cache_only_def)

lemma with_cache_keeps [intro]: "p_keeps (cache_only s0) (with_cache m)"
  by (auto simp: p_keeps_def with_cache_def cache_only_def Let_def split: prod.splits)

lemma cache_modify_keeps [intro]: "p_keeps (cache_only s0) (p_modify (\<lambda>s. s\<lparr>ld_cache := f s\<rparr>))"
  by (rule p_keeps_modify) (simp add: cache_only_def)

lemma installLibrary_keeps [intro]: "p_keeps (cache_only s0) (installLibrary E lib ts)"
  unfolding installLibrary_def by (cases ts) (auto intro!: p_keeps_seq p_keeps_bind p_keeps_basic with_cache_keeps cache_modify_keeps)

lemma installLibraries_keeps: "p_keeps (cache_only s0) (installLibraries E b)"
  unfolding installLibraries_def getBundle_def by (intro p_keeps_bind p_keeps_basic p_keeps_each p_keeps_if installLibrary_keeps)

lemma cache_only_same: "cache_only s0 s \<Longrightarrow> ld_heap s = ld_heap s0 \<and> ld_bundles s = ld_bundles s0 \<and> ld_resolving s = ld_resolving s0"
  unfolding cache_only_def by (cases s0; cases s) simp

lemma installLibraries_same:
  assumes "installLibraries E b s = Some (r, t)"
  shows "ld_heap t = ld_heap s \<and> ld_bundles t = ld_bundles s \<and> ld_resolving t = ld_resolving s"
  using p_keepsD [OF installLibraries_keeps _ assms, of s] cache_only_same by auto

text \<open>Steps that leave states and recorded dependencies alone.\<close>

definition quiet :: "'c loader \<Rightarrow> 'c loader \<Rightarrow> bool" where
  "quiet s t \<longleftrightarrow> ld_bundles t = ld_bundles s \<and> ld_resolving t = ld_resolving s \<and>
     (\<forall>c. bu_manifest (ld_heap t c) = bu_manifest (ld_heap s c) \<and> bu_state (ld_heap t c) = bu_state (ld_heap s c) \<and>
          bu_resolved (ld_heap t c) = bu_resolved (ld_heap s c))"

lemma quiet_static: "quiet s t \<Longrightarrow> same_static s t"
  by (simp add: quiet_def same_static_def)

lemma quiet_progress: "quiet s t \<Longrightarrow> progress F s t"
  by (rule progress_local [OF quiet_static]) (simp_all add: quiet_def)

lemma quiet_inv: "quiet s t \<Longrightarrow> inv s \<Longrightarrow> inv t"
  by (rule inv_kept [OF _ quiet_static]) (auto simp: quiet_def isResolved_def)

lemma quiet_resolved: "quiet s t \<Longrightarrow> isResolved (ld_heap t b) \<longleftrightarrow> isResolved (ld_heap s b)"
  by (rule isResolved_state) (simp add: quiet_def)

lemma install_quiet: "installLibraries E b s = Some (r, t) \<Longrightarrow> quiet s t"
  using installLibraries_same by (fastforce simp: quiet_def)

lemma extension_quiet: "addExtensionBundle d b s = Some (r, t) \<Longrightarrow> quiet s t"
  by (auto simp: addExtensionBundle_def quiet_def Let_def split: if_splits)

lemma extend_step:
  assumes "sound rs" and "inv s" and run: "extendBundle rs b s = Some (r, t)"
  shows "inv t \<and> progress (if r = Inr () then untouched s t else {}) s t"
proof (cases "isExtensionBundle (ld_heap s b) \<and> (\<exists>d. extendedBundle s (ld_heap s b) = Some d)")
  case False
  then have "extendBundle rs b s = Some (Inr (), s)"
    unfolding extendBundle_def by (cases "isExtensionBundle (ld_heap s b)") auto
  then show ?thesis using assms(2) run by auto
next
  case True
  then obtain d where d: "extendedBundle s (ld_heap s b) = Some d" by blast
  have "extendBundle rs b s = p_seq (if \<not> isResolved (ld_heap s d) then rs d else p_ret ()) (addExtensionBundle d b) s"
    using True d unfolding extendBundle_def by (auto simp: p_seq_def p_bind_def)
  with run have "p_seq (if \<not> isResolved (ld_heap s d) then rs d else p_ret ()) (addExtensionBundle d b) s = Some (r, t)" by simp
  then show ?thesis
  proof (cases rule: p_seq_cases)
    case (threw e)
    then have "rs d s = Some (Inl e, t)" by (simp split: if_splits)
    then show ?thesis using soundD(1) [OF assms(1,2)] threw by simp
  next
    case (returned x u)
    have u: "inv u \<and> progress (untouched s u) s u"
    proof (cases "isResolved (ld_heap s d)")
      case True
      then show ?thesis using returned(1) assms(2) by simp
    next
      case False
      then have "rs d s = Some (Inr x, u)" using returned(1) by simp
      then show ?thesis using soundD(2) [OF assms(1,2)] by blast
    qed
    have q: "quiet u t" using returned(2) by (rule extension_quiet)
    have "progress (if r = Inr () then untouched s t else {}) s t"
      by (rule progress_extend [OF u [THEN conjunct2] quiet_progress [OF q, of UNIV]])
        (use untouched_extend [OF u [THEN conjunct2] quiet_progress [OF q]] in auto)
    then show ?thesis using u quiet_inv [OF q] by simp
  qed
qed

lemma sound_at_of_met:
  assumes w: "working b s" and met: "\<forall>dep \<in> set (demands s (bu_manifest (ld_heap s b))). met s b dep"
    and "providable s (bu_manifest (ld_heap s b))"
  shows "sound_at s b"
proof -
  have "wf_loader s" using w by (simp add: working_def inv_def)
  then show ?thesis
    using w met assms(3) unfolding sound_at_def met_demands [OF \<open>wf_loader s\<close>] met_def by (auto simp: working_def)
qed

lemma resolvable_states:
  assumes "same_static s t" and "\<And>c. bu_state (ld_heap t c) = bu_state (ld_heap s c)"
  shows "resolvable t b \<longleftrightarrow> resolvable s b"
proof
  have res: "isResolved (ld_heap t c) = isResolved (ld_heap s c)" for c by (rule isResolved_state) (rule assms(2))
  show "resolvable s b" if "resolvable t b"
    using that
  proof (induction rule: resolvable.induct)
    case (by_requirements b)
    have "requirements_met t (bu_manifest (ld_heap t b)) (resolvable s)"
      by (rule requirements_met_mono [OF _ by_requirements.IH]) simp
    then show ?case
      using by_requirements.hyps(1) same_static_eqs(9,10) [OF assms(1)] by (intro resolvable.by_requirements) (simp_all add: assms(2))
  qed (simp add: res resolvable.already)
  show "resolvable t b" if "resolvable s b"
    using that
  proof (induction rule: resolvable.induct)
    case (by_requirements b)
    have "requirements_met s (bu_manifest (ld_heap s b)) (resolvable t)"
      by (rule requirements_met_mono [OF _ by_requirements.IH]) simp
    then show ?case
      using by_requirements.hyps(1) same_static_eqs(9,10) [OF assms(1)] by (intro resolvable.by_requirements) (simp_all add: assms(2))
  qed (simp add: res resolvable.already)
qed

lemma progress_resolving:
  assumes "progress F (s\<lparr>ld_resolving := insert b (ld_resolving s)\<rparr>) t" and "b \<notin> ld_resolving s"
  shows "progress F s (t\<lparr>ld_resolving := ld_resolving t - {b}\<rparr>)"
proof -
  have "resolvable (s\<lparr>ld_resolving := insert b (ld_resolving s)\<rparr>) c = resolvable s c" for c
    by (rule resolvable_states) (simp_all add: same_static_def)
  then show ?thesis using assms by (auto simp: progress_def same_static_def)
qed

lemma resolving_inv: "inv s \<Longrightarrow> inv (s\<lparr>ld_resolving := A\<rparr>)"
  by (rule inv_kept [of s]) (auto simp: same_static_def)

lemma clear_inv:
  assumes "inv s" and "\<not> isResolved (ld_heap s b)"
  shows "inv (s\<lparr>ld_heap := (ld_heap s)(b := (ld_heap s b)\<lparr>bu_resolved := []\<rparr>)\<rparr>)"
  by (rule inv_kept [OF assms(1)]) (use assms(2) in \<open>auto simp: same_static_def isResolved_def\<close>)

lemma clear_progress:
  "\<not> isResolved (ld_heap s b) \<Longrightarrow> progress (- {b}) s (s\<lparr>ld_heap := (ld_heap s)(b := (ld_heap s b)\<lparr>bu_resolved := []\<rparr>)\<rparr>)"
  by (rule progress_local) (auto simp: same_static_def)

lemma trace_quiet: "quiet s (s\<lparr>ld_trace := tr\<rparr>)"
  by (simp add: quiet_def)

text \<open>Meeting the requirements of \<open>b\<close>.\<close>

lemma requirements_step:
  assumes rs: "sound rs" and w: "working b s" and run: "resolveRequirements rs b s = Some (r, t)"
  shows "inv t \<and> progress (if r = Inr () then untouched s t - {b} else {}) s t \<and> (r = Inr () \<longrightarrow> working b t \<and> sound_at t b)"
proof (cases "providable s (bu_manifest (ld_heap s b))")
  case False
  then obtain e where "resolveRequirements rs b s = Some (Inl e, s)" using resolveRequirements_fails by blast
  then show ?thesis using run w by (auto simp: working_def)
next
  case True
  let ?deps = "demands s (bu_manifest (ld_heap s b))"
  obtain ps where "p_seq (p_each (resolveDependency rs b) ?deps) (setBundle b (\<lambda>x. x\<lparr>bu_providers := ps\<rparr>)) s = Some (r, t)"
    using resolveRequirements_run [OF True] run by metis
  then show ?thesis
  proof (cases rule: p_seq_cases)
    case (threw e)
    then show ?thesis using dependencies_step [OF rs w threw(1)] by simp
  next
    case (returned x u)
    have u: "inv u" "progress (untouched s u - {b}) s u" "working b u" "\<forall>dep \<in> set ?deps. met u b dep"
      using dependencies_step [OF rs w returned(1)] by auto
    have r: "r = Inr ()" and t: "t = u\<lparr>ld_heap := (ld_heap u)(b := (ld_heap u b)\<lparr>bu_providers := ps\<rparr>)\<rparr>"
      using returned(2) by auto
    have q: "quiet u t" by (simp add: t quiet_def)
    have "sound_at u b"
      by (rule sound_at_of_met [OF u(3)])
        (use u(4) True same_static_eqs(4,5,9) [OF progress_static [OF u(2)]] in auto)
    then have "sound_at t b"
      by (rule sound_at_kept [OF quiet_static [OF q], rotated -1]) (use quiet_resolved [OF q] q in \<open>auto simp: quiet_def\<close>)
    moreover have "working b t"
      using u(3) quiet_inv [OF q] listed_ok_kept [OF quiet_static [OF q]] quiet_resolved [OF q] q by (auto simp: working_def quiet_def)
    moreover have "progress (untouched s t - {b}) s t"
      by (rule progress_extend [OF u(2) quiet_progress [OF q, of UNIV]]) (use untouched_extend [OF u(2) quiet_progress [OF q]] in auto)
    ultimately show ?thesis using r u quiet_inv [OF q] by simp
  qed
qed

lemma resolved_resolvable:
  assumes "progress F s t" and "sound_at t b" and "bu_state (ld_heap s b) = BUNDLE_INSTALLED"
  shows "resolvable s b"
proof (rule resolvable.by_requirements [OF assms(3)])
  have "requirements_met t (bu_manifest (ld_heap t b)) (resolvable s)"
    by (rule requirements_met_mono [OF _ assms(2) [unfolded sound_at_def, THEN conjunct2]]) (use assms(1) in \<open>auto simp: progress_def\<close>)
  then show "requirements_met s (bu_manifest (ld_heap s b)) (resolvable s)"
    using same_static_eqs(9,10) [OF progress_static [OF assms(1)]] by simp
qed

lemma bundle_step:
  assumes rs: "sound rs" and s: "inv s" "bu_state (ld_heap s b) = BUNDLE_INSTALLED" "bu_resolved (ld_heap s b) = []"
    and run: "resolveBundle E rs b s = Some (r, t)"
  shows "inv t \<and> progress (if r = Inr () then untouched s t - {b} else {}) s t \<and>
    (r = Inr () \<longrightarrow> b \<notin> ld_resolving s \<and> sound_at t b \<and> resolvable s b)"
proof (cases "b \<in> ld_resolving s")
  case True
  then show ?thesis using run s by (auto simp: resolveBundle_def)
next
  case False
  let ?s = "s\<lparr>ld_resolving := insert b (ld_resolving s)\<rparr>"
  let ?h = "\<lambda>e. p_seq (erase_resolving b) (p_seq (clearResolvedDependencies b) (p_throw e))"
  have w: "working b ?s" using s resolving_inv [OF s(1)] by (simp add: working_def listed_ok_def)
  have "p_seq (p_catch (resolveRequirements rs b) ?h) (p_seq (erase_resolving b) (p_seq (installLibraries E b) (extendBundle rs b))) ?s = Some (r, t)"
    using run False by (simp add: resolveBundle_def p_seq_def [of "p_modify _"] p_bind_def)
  then show ?thesis
  proof (cases rule: p_seq_cases)
    case (threw e)
    from threw(1) obtain e' u where u: "resolveRequirements rs b ?s = Some (Inl e', u)"
      and t: "t = u\<lparr>ld_resolving := ld_resolving u - {b}, ld_heap := (ld_heap u)(b := (ld_heap u b)\<lparr>bu_resolved := []\<rparr>)\<rparr>"
      by (cases rule: p_catch_cases) (auto simp: p_seq_def p_bind_def)
    let ?v = "u\<lparr>ld_resolving := ld_resolving u - {b}\<rparr>"
    have iu: "inv u" and pu: "progress {} ?s u" using requirements_step [OF rs w u] by auto
    have pv: "progress {} s ?v" by (rule progress_resolving [OF pu False])
    have "bu_state (ld_heap u b) = BUNDLE_INSTALLED" using pu s(2) by (simp add: progress_def)
    then have nr: "\<not> isResolved (ld_heap ?v b)" using installed_unresolved by simp
    have tv: "t = ?v\<lparr>ld_heap := (ld_heap ?v)(b := (ld_heap ?v b)\<lparr>bu_resolved := []\<rparr>)\<rparr>" by (simp add: t)
    have "inv t" unfolding tv by (rule clear_inv [OF resolving_inv [OF iu] nr])
    moreover have "progress {} s t"
      using progress_trans [OF pv progress_fewer [OF clear_progress [OF nr]]] unfolding tv by simp
    ultimately show ?thesis using threw by simp
  next
    case (returned x u)
    from returned(1) have req: "resolveRequirements rs b ?s = Some (Inr (), u)"
      by (cases rule: p_catch_cases) (auto simp: p_seq_def p_bind_def)
    let ?u = "u\<lparr>ld_resolving := ld_resolving u - {b}\<rparr>"
    have iu: "inv u" and pu: "progress (untouched ?s u - {b}) ?s u" and su: "sound_at u b"
      using requirements_step [OF rs w req] by auto
    have pu': "progress (untouched ?s u - {b}) s ?u" by (rule progress_resolving [OF pu False])
    have iu': "inv ?u" by (rule resolving_inv [OF iu])
    have su': "sound_at ?u b" by (rule sound_at_kept [OF _ _ _ su]) (auto simp: same_static_def)
    have resv: "resolvable s b" by (rule resolved_resolvable [OF pu' su' s(2)])
    have ut: "untouched s t - {b} \<subseteq> untouched ?s u" if "\<And>c. isResolved (ld_heap u c) \<Longrightarrow> isResolved (ld_heap t c)"
      using that by (auto simp: untouched_def)
    from returned(2) have "p_seq (installLibraries E b) (extendBundle rs b) ?u = Some (r, t)" by (simp add: p_seq_def p_bind_def)
    then show ?thesis
    proof (cases rule: p_seq_cases)
      case (threw e)
      have q: "quiet ?u t" using threw(1) by (rule install_quiet)
      then show ?thesis
        using quiet_inv [OF q iu'] progress_trans [OF progress_fewer [OF pu'] quiet_progress [OF q, of "{}"]] threw(2) by simp
    next
      case (returned y v)
      have q: "quiet ?u v" using returned(1) by (rule install_quiet)
      have iv: "inv v" using q iu' by (rule quiet_inv)
      have pv: "progress (untouched ?s u - {b}) s v" by (rule progress_trans [OF pu' quiet_progress [OF q]])
      have sv: "sound_at v b" by (rule sound_at_kept [OF quiet_static [OF q] _ _ su']) (use q quiet_resolved [OF q] in \<open>auto simp: quiet_def\<close>)
      have et: "inv t" "progress (if r = Inr () then untouched v t else {}) v t"
        using extend_step [OF rs iv returned(2)] by auto
      have mono: "isResolved (ld_heap t c)" if "isResolved (ld_heap u c)" for c
        using that quiet_resolved [OF q, of c] progress_resolved [OF et(2)] by simp
      have "ld_resolving v = ld_resolving s" using pv by (simp add: progress_def)
      then have "progress (if r = Inr () then untouched s t - {b} else {}) s t"
        by (intro progress_extend [OF pv et(2)]) (use ut [OF mono] in \<open>auto simp: untouched_def\<close>)
      moreover have "sound_at t b" if "r = Inr ()"
      proof (cases "isResolved (ld_heap t b)")
        case True
        then show ?thesis using et(1) by (simp add: inv_def deps_ok_def)
      next
        case False
        then have "bu_resolved (ld_heap t b) = bu_resolved (ld_heap v b)"
          using et(2) that by (simp add: progress_def untouched_def)
        then show ?thesis
          using sound_at_kept [OF progress_static [OF et(2)] _ _ sv] progress_resolved [OF et(2)] by blast
      qed
      ultimately show ?thesis using et(1) resv False by simp
    qed
  qed
qed

lemma resolve_body_sound:
  assumes rs: "sound rs"
  shows "sound (resolve_body E rs)"
  unfolding sound_def
proof (intro allI impI)
  fix b s r t assume i: "inv s" and run: "resolve_body E rs b s = Some (r, t)"
  show "inv t \<and> progress (if r = Inr () then untouched s t else {}) s t \<and> (r = Inr () \<longrightarrow> isResolved (ld_heap t b))"
  proof (cases "bu_state (ld_heap s b) = BUNDLE_INSTALLED")
    case False
    then show ?thesis using run i by (auto simp: resolve_body_def)
  next
    case True
    let ?a = "s\<lparr>ld_trace := ld_trace s @ [Fired EV_BUNDLE_RESOLVING b]\<rparr>"
    let ?s = "?a\<lparr>ld_heap := (ld_heap ?a)(b := (ld_heap ?a b)\<lparr>bu_resolved := []\<rparr>)\<rparr>"
    have nr: "\<not> isResolved (ld_heap ?a b)" using True installed_unresolved by simp
    have inv0: "inv ?s" by (rule clear_inv [OF quiet_inv [OF trace_quiet i] nr])
    have ps: "progress (- {b}) s ?s" by (rule progress_trans [OF quiet_progress [OF trace_quiet] clear_progress [OF nr]])
    have "p_seq (resolveBundle E rs b) (p_seq (setState b BUNDLE_RESOLVED) (act (Fired EV_BUNDLE_RESOLVED b))) ?s = Some (r, t)"
      using run True by (simp add: resolve_body_def p_seq_def p_bind_def)
    then show ?thesis
    proof (cases rule: p_seq_cases)
      case (threw e)
      then show ?thesis
        using bundle_step [OF rs inv0 _ _ threw(1)] True progress_extend [OF ps, of "{}" t "{}"] by simp
    next
      case (returned x u)
      have u: "inv u" "progress (untouched ?s u - {b}) ?s u" "b \<notin> ld_resolving ?s" "sound_at u b" "resolvable ?s b"
        using bundle_step [OF rs inv0 _ _ returned(1)] True by auto
      let ?u = "u\<lparr>ld_heap := (ld_heap u)(b := (ld_heap u b)\<lparr>bu_state := BUNDLE_RESOLVED\<rparr>)\<rparr>"
      have r: "r = Inr ()" and t: "t = ?u\<lparr>ld_trace := ld_trace u @ [Fired EV_BUNDLE_RESOLVED b]\<rparr>"
        using returned(2) by (auto simp: p_seq_def p_bind_def)
      have psu: "progress (untouched ?s u - {b}) s u"
        by (rule progress_extend [OF ps u(2)]) auto
      have stu: "same_static u t" by (simp add: t same_static_def)
      have ru: "isResolved (ld_heap t c) \<longleftrightarrow> c = b \<or> isResolved (ld_heap u c)" for c by (auto simp: t isResolved_def)
      have rb: "resolvable s b"
        by (rule resolvable_back [OF ps u(5)])
      have "deps_ok u" "wf_loader u" using u(1) by (simp_all add: inv_def)
      have "deps_ok t"
        by (rule deps_ok_kept [OF \<open>deps_ok u\<close> stu])
          (use ru sound_at_kept [OF stu _ _ u(4)] in \<open>auto simp: t\<close>)
      then have it: "inv t" using \<open>wf_loader u\<close> same_static_eqs(6) [OF stu] by (simp add: inv_def)
      have bu: "bu_state (ld_heap u b) = BUNDLE_INSTALLED \<or> bu_state (ld_heap u b) = BUNDLE_RESOLVED"
        using progress_states [OF psu, of b] True by auto
      have tb: "ld_heap t = (ld_heap u)(b := (ld_heap u b)\<lparr>bu_state := BUNDLE_RESOLVED\<rparr>)" "ld_resolving t = ld_resolving u" by (simp_all add: t)
      have "progress (untouched s t) s t"
        unfolding progress_def
      proof (intro conjI)
        show "same_static s t" using same_static_trans [OF progress_static [OF psu] stu] .
        show "ld_resolving t = ld_resolving s" using psu tb by (simp add: progress_def)
        show "\<forall>c. isResolved (ld_heap s c) \<longrightarrow> bu_state (ld_heap t c) = bu_state (ld_heap s c) \<and> bu_resolved (ld_heap t c) = bu_resolved (ld_heap s c)"
          using psu tb nr by (auto simp: progress_def)
        show "\<forall>c. bu_state (ld_heap t c) = bu_state (ld_heap s c) \<or> bu_state (ld_heap s c) = BUNDLE_INSTALLED \<and> bu_state (ld_heap t c) = BUNDLE_RESOLVED"
          using psu tb True by (auto simp: progress_def)
        show "\<forall>c. isResolved (ld_heap t c) \<longrightarrow> resolvable s c" using psu ru rb by (auto simp: progress_def)
        show "\<forall>c \<in> ld_resolving s. bu_state (ld_heap t c) = bu_state (ld_heap s c)" using psu tb u(3) by (auto simp: progress_def)
        show "\<forall>c \<in> untouched s t. bu_state (ld_heap t c) = bu_state (ld_heap s c) \<and> bu_resolved (ld_heap t c) = bu_resolved (ld_heap s c)"
        proof
          fix c assume c: "c \<in> untouched s t"
          have "c \<noteq> b" using c ru [of b] u(3) by (auto simp: untouched_def)
          moreover have "c \<in> untouched ?s u" using c ru [of c] by (auto simp: untouched_def)
          ultimately show "bu_state (ld_heap t c) = bu_state (ld_heap s c) \<and> bu_resolved (ld_heap t c) = bu_resolved (ld_heap s c)"
            using psu tb by (simp add: progress_def)
        qed
      qed
      then show ?thesis using it r ru by simp
    qed
  qed
qed

lemma resolve_sound: "sound (resolve E n)"
proof (induction n)
  case 0
  then show ?case by (simp add: sound_def)
next
  case (Suc n)
  have "resolve E (Suc n) = resolve_body E (resolve E n)" by (rule ext) simp
  then show ?case using resolve_body_sound [OF Suc.IH] by simp
qed

section \<open>Resolving ends\<close>

definition p_total :: "('s, 'a) prog \<Rightarrow> bool" where
  "p_total m \<longleftrightarrow> (\<forall>s. m s \<noteq> None)"

lemma p_total_basic [intro]: "p_total (p_ret x)" "p_total (p_throw e)" "p_total (p_get f)" "p_total (p_modify g)" "p_total (p_lift r)"
  by (simp_all add: p_total_def)

lemma p_total_bind [intro]: "p_total m \<Longrightarrow> (\<And>x. p_total (f x)) \<Longrightarrow> p_total (p_bind m f)"
  by (simp add: p_total_def p_bind_None)

lemma p_total_seq [intro]: "p_total m \<Longrightarrow> p_total n \<Longrightarrow> p_total (p_seq m n)"
  by (simp add: p_total_def p_seq_None)

lemma p_total_if [intro]: "p_total m \<Longrightarrow> p_total n \<Longrightarrow> p_total (if c then m else n)"
  by simp

lemma p_total_each [intro]: "(\<And>x. p_total (f x)) \<Longrightarrow> p_total (p_each f xs)"
  by (induction xs) auto

lemma p_total_cache [intro]: "p_total (with_cache m)"
  by (simp add: p_total_def with_cache_def Let_def split: prod.split)

lemma installLibrary_total [intro]: "p_total (installLibrary E lib ts)"
  unfolding installLibrary_def by (cases ts) (auto intro!: p_total_seq p_total_bind p_total_basic p_total_cache)

lemma installLibraries_total: "p_total (installLibraries E b)"
  unfolding installLibraries_def getBundle_def by (intro p_total_bind p_total_basic p_total_each p_total_if installLibrary_total)

lemma install_returns: "installLibraries E b s \<noteq> None"
  using installLibraries_total [of E b] unfolding p_total_def by blast

definition no_extensions :: "'c loader \<Rightarrow> bool" where
  "no_extensions s \<longleftrightarrow> (\<forall>b \<in> loaded s. \<not> isExtensionBundle (ld_heap s b))"

lemma no_extensions_static: "same_static s t \<Longrightarrow> no_extensions s \<Longrightarrow> no_extensions t"
  using same_static_eqs(2,9) [of s t] by (simp add: no_extensions_def isExtensionBundle_def)

lemma finite_loaded [simp]: "finite (loaded s)"
  by (simp add: loaded_def)

text \<open>The nested \<open>resolve\<close> returns in the states it is called in.\<close>

definition ends_in :: "(nat \<Rightarrow> ('c, unit) osp) \<Rightarrow> nat \<Rightarrow> bool" where
  "ends_in rs n \<longleftrightarrow> (\<forall>b s. inv s \<longrightarrow> no_extensions s \<longrightarrow> b \<in> loaded s \<longrightarrow> card (loaded s - ld_resolving s) < n \<longrightarrow> rs b s \<noteq> None)"

lemma dependency_ends:
  assumes "ends_in rs n" and "inv s" and "no_extensions s" and "card (loaded s - ld_resolving s) < n"
  shows "resolveDependency rs b dep s \<noteq> None"
proof (cases "findBundle s (dep_symbolicName dep)")
  case None
  then show ?thesis by (simp add: resolveDependency_def)
next
  case (Some d)
  then have "rs d s \<noteq> None" using assms find_loaded [OF Some] unfolding ends_in_def by blast
  show ?thesis
  proof
    assume "resolveDependency rs b dep s = None"
    then show False
      using \<open>rs d s \<noteq> None\<close> by (auto simp: resolveDependency_def Some p_none addResolvedDependency_def split: if_splits)
  qed
qed

lemma dependencies_end:
  assumes e: "ends_in rs n" and rs: "sound rs" and "working b s" and "no_extensions s" and "card (loaded s - ld_resolving s) < n"
  shows "p_each (resolveDependency rs b) deps s \<noteq> None"
  using assms(3-5)
proof (induction deps arbitrary: s)
  case (Cons dep deps)
  have "resolveDependency rs b dep s \<noteq> None"
    using dependency_ends [OF e] Cons.prems by (simp add: working_def)
  moreover have "p_each (resolveDependency rs b) deps t \<noteq> None" if "resolveDependency rs b dep s = Some (Inr x, t)" for x t
  proof -
    have t: "working b t" "progress (untouched s t - {b}) s t" using dependency_step [OF rs Cons.prems(1) that] by simp_all
    then have "same_static s t" "ld_resolving t = ld_resolving s" by (simp_all add: progress_def)
    then show ?thesis using Cons.IH [OF t(1)] Cons.prems no_extensions_static same_static_eqs(2) by metis
  qed
  ultimately show ?case by (simp add: p_seq_None)
qed simp

lemma extend_plain: "\<not> isExtensionBundle (ld_heap s b) \<Longrightarrow> extendBundle rs b s = Some (Inr (), s)"
  by (simp add: extendBundle_def)

lemma requirements_end:
  assumes e: "ends_in rs n" and rs: "sound rs" and w: "working b s" and "no_extensions s" and "card (loaded s - ld_resolving s) < n"
  shows "resolveRequirements rs b s \<noteq> None"
proof (cases "providable s (bu_manifest (ld_heap s b))")
  case False
  then show ?thesis using resolveRequirements_fails by fastforce
next
  case True
  show ?thesis
    using resolveRequirements_run [OF True] dependencies_end [OF e rs w assms(4,5)] by (metis p_seq_None setBundle_run option.distinct(1))
qed

lemma resolve_body_ends:
  assumes e: "ends_in rs n" and rs: "sound rs"
  shows "ends_in (resolve_body E rs) (Suc n)"
  unfolding ends_in_def
proof (intro allI impI)
  fix b and s :: "'a loader" assume i: "inv s" and pl: "no_extensions s" and b: "b \<in> loaded s" and card: "card (loaded s - ld_resolving s) < Suc n"
  show "resolve_body E rs b s \<noteq> None"
  proof (cases "bu_state (ld_heap s b) = BUNDLE_INSTALLED \<and> b \<notin> ld_resolving s")
    case False
    then show ?thesis by (auto simp: resolve_body_def resolveBundle_def p_none)
  next
    case True
    let ?a = "s\<lparr>ld_trace := ld_trace s @ [Fired EV_BUNDLE_RESOLVING b]\<rparr>"
    let ?c = "?a\<lparr>ld_heap := (ld_heap ?a)(b := (ld_heap ?a b)\<lparr>bu_resolved := []\<rparr>)\<rparr>"
    let ?s = "?c\<lparr>ld_resolving := insert b (ld_resolving ?c)\<rparr>"
    have nr: "\<not> isResolved (ld_heap ?a b)" using True installed_unresolved by simp
    have "inv ?c" by (rule clear_inv [OF quiet_inv [OF trace_quiet i] nr])
    then have w: "working b ?s" using resolving_inv True by (simp add: working_def listed_ok_def)
    have st: "same_static s ?s" by (simp add: same_static_def)
    have "card (loaded s - insert b (ld_resolving s)) < card (loaded s - ld_resolving s)"
      using b True by (intro psubset_card_mono) auto
    then have "card (loaded ?s - ld_resolving ?s) < n"
      using card same_static_eqs(2) [OF st] by simp
    then have req: "resolveRequirements rs b ?s \<noteq> None"
      using requirements_end [OF e rs w] no_extensions_static [OF st pl] by simp
    have ext: "extendBundle rs b v \<noteq> None" if "resolveRequirements rs b ?s = Some (Inr x, u)" and
        "installLibraries E b (u\<lparr>ld_resolving := ld_resolving u - {b}\<rparr>) = Some (Inr y, v)" for x y u v
    proof -
      have "same_static ?s u" using requirements_step [OF rs w that(1)] by (simp add: progress_def)
      moreover have "ld_heap v = ld_heap u" using installLibraries_same [OF that(2)] by simp
      ultimately have "bu_manifest (ld_heap v b) = bu_manifest (ld_heap s b)" by (simp add: same_static_def)
      then have "\<not> isExtensionBundle (ld_heap v b)" using pl b by (simp add: no_extensions_def isExtensionBundle_def)
      then show ?thesis by (simp add: extend_plain)
    qed
    show ?thesis
    proof
      assume "resolve_body E rs b s = None"
      then show False
        using True req ext install_returns [of E b]
        by (auto simp del: not_None_eq simp: resolve_body_def resolveBundle_def p_none p_catch_def split: option.splits prod.splits sum.splits)
    qed
  qed
qed

lemma resolve_ends: "ends_in (resolve E n) n"
proof (induction n)
  case 0
  then show ?case by (simp add: ends_in_def)
next
  case (Suc n)
  have "resolve E (Suc n) = resolve_body E (resolve E n)" by (rule ext) simp
  then show ?case using resolve_body_ends [OF Suc.IH resolve_sound] by simp
qed

section \<open>Resolving succeeds\<close>

lemma within_mono: "resolvable_within s k b \<Longrightarrow> k \<le> k' \<Longrightarrow> resolvable_within s k' b"
  by (induction k' arbitrary: k) (auto simp: le_Suc_eq)

lemma within_resolvable: "resolvable_within s k b \<Longrightarrow> resolvable s b"
proof (induction k arbitrary: b)
  case 0
  then show ?case by (simp add: resolvable.already)
next
  case (Suc k)
  from Suc.prems have "resolvable_within s k b \<or> bu_state (ld_heap s b) = BUNDLE_INSTALLED \<and>
      requirements_met s (bu_manifest (ld_heap s b)) (resolvable_within s k)" by simp
  then show ?case
  proof
    assume "resolvable_within s k b"
    then show ?thesis by (rule Suc.IH)
  next
    assume r: "bu_state (ld_heap s b) = BUNDLE_INSTALLED \<and> requirements_met s (bu_manifest (ld_heap s b)) (resolvable_within s k)"
    then have "requirements_met s (bu_manifest (ld_heap s b)) (resolvable s)"
      by (elim conjE) (rule requirements_met_mono [OF Suc.IH])
    then show ?thesis using r by (simp add: resolvable.by_requirements)
  qed
qed

text \<open>Finitely many levels are enough for finitely many requirements.\<close>

lemma level_of_all:
  assumes "finite A" and "\<And>x. x \<in> A \<Longrightarrow> \<exists>k. resolvable_within s k x"
  shows "\<exists>k. \<forall>x \<in> A. resolvable_within s k x"
  using assms
proof (induction A rule: finite_induct)
  case (insert x A)
  obtain k where k: "\<forall>y \<in> A. resolvable_within s k y" using insert by auto
  obtain k' where "resolvable_within s k' x" using insert.prems by auto
  have "\<forall>y \<in> insert x A. resolvable_within s (max k k') y"
  proof
    fix y assume "y \<in> insert x A"
    then have "resolvable_within s k y \<or> resolvable_within s k' y" using k \<open>resolvable_within s k' x\<close> by blast
    then show "resolvable_within s (max k k') y" using within_mono [of s k y "max k k'"] within_mono [of s k' y "max k k'"] by auto
  qed
  then show ?case by blast
qed simp

lemma resolvable_level:
  assumes "resolvable s b"
  shows "\<exists>k. resolvable_within s k b"
  using assms
proof (induction rule: resolvable.induct)
  case (already b)
  then show ?case by (intro exI [of _ 0]) simp
next
  case (by_requirements b)
  let ?P = "\<lambda>d. \<exists>k. resolvable_within s k d"
  let ?A = "{d \<in> loaded s. ?P d}"
  have "\<exists>k. \<forall>d \<in> ?A. resolvable_within s k d"
    by (rule level_of_all) (simp, blast)
  then obtain k where k: "\<forall>d \<in> ?A. resolvable_within s k d" by blast
  have kd: "resolvable_within s k d" if "?P d" "d \<in> loaded s" for d using k that by blast
  have "requirements_met s (bu_manifest (ld_heap s b)) ?P"
    by (rule requirements_met_mono [OF _ by_requirements.IH]) simp
  then have "requirements_met s (bu_manifest (ld_heap s b)) (resolvable_within s k)"
    unfolding requirements_met_def using kd find_loaded by blast
  then have "resolvable_within s (Suc k) b" using by_requirements.hyps by simp
  then show ?case by blast
qed

text \<open>What the states reached while resolving have in common with the first one.\<close>

definition later :: "'c loader \<Rightarrow> 'c loader \<Rightarrow> bool" where
  "later s0 s \<longleftrightarrow> inv s \<and> no_extensions s \<and> same_static s0 s \<and>
     (\<forall>c. bu_state (ld_heap s c) = bu_state (ld_heap s0 c) \<or> bu_state (ld_heap s0 c) = BUNDLE_INSTALLED \<and> bu_state (ld_heap s c) = BUNDLE_RESOLVED)"

lemma later_progress:
  assumes "later s0 s" and "progress F s t" and "inv t"
  shows "later s0 t"
  using assms no_extensions_static [OF progress_static [OF assms(2)]] same_static_trans [OF _ progress_static [OF assms(2)]] progress_states [OF assms(2)]
  unfolding later_def by metis

lemma later_unresolved: "later s0 s \<Longrightarrow> \<not> isResolved (ld_heap s c) \<Longrightarrow> bu_state (ld_heap s c) = bu_state (ld_heap s0 c) \<and> \<not> isResolved (ld_heap s0 c)"
  unfolding later_def isResolved_def by metis

definition cache_writable :: "'c osp_env \<Rightarrow> bool" where
  "cache_writable E \<longleftrightarrow> (\<forall>name. ev_cacheWritable E name)"

definition p_succeeds :: "('s, 'a) prog \<Rightarrow> bool" where
  "p_succeeds m \<longleftrightarrow> (\<forall>s r t. m s = Some (r, t) \<longrightarrow> (\<exists>x. r = Inr x))"

lemma p_succeeds_basic [intro]: "p_succeeds (p_ret x)" "p_succeeds (p_get f)" "p_succeeds (p_modify g)"
  by (simp_all add: p_succeeds_def)

lemma p_succeeds_bind [intro]: "p_succeeds m \<Longrightarrow> (\<And>x. p_succeeds (f x)) \<Longrightarrow> p_succeeds (p_bind m f)"
  unfolding p_succeeds_def
proof (intro allI impI)
  fix s r t
  assume m: "\<forall>s r t. m s = Some (r, t) \<longrightarrow> (\<exists>x. r = Inr x)" and f: "\<And>x. \<forall>s r t. f x s = Some (r, t) \<longrightarrow> (\<exists>x. r = Inr x)"
    and run: "p_bind m f s = Some (r, t)"
  from run show "\<exists>x. r = Inr x"
  proof (cases rule: p_bind_cases)
    case (threw e)
    then show ?thesis using m by blast
  next
    case (returned x u)
    then show ?thesis using f by blast
  qed
qed

lemma p_succeeds_seq [intro]: "p_succeeds m \<Longrightarrow> p_succeeds n \<Longrightarrow> p_succeeds (p_seq m n)"
  unfolding p_seq_def by (rule p_succeeds_bind)

lemma p_succeeds_each [intro]: "(\<And>x. p_succeeds (f x)) \<Longrightarrow> p_succeeds (p_each f xs)"
  by (induction xs) auto

lemma install_succeeds:
  assumes "cache_writable E"
  shows "p_succeeds (installLibraries E b)"
proof -
  have cache: "p_succeeds (with_cache (cacheInstall (ev_cacheWritable E n) now n))" for n now
    using assms by (auto simp: p_succeeds_def with_cache_def cacheInstall_def cache_writable_def)
  have lib: "p_succeeds (installLibrary E lib ts)" for lib ts
    unfolding installLibrary_def by (cases ts) (auto intro!: p_succeeds_seq p_succeeds_bind p_succeeds_basic cache)
  have time: "hasLibrary c n \<Longrightarrow> p_succeeds (p_bind (p_lift (libraryTimestamp c n)) f)" if "\<And>x. p_succeeds (f x)" for c n and f :: "int \<Rightarrow> ('a, unit) osp"
    using that by (auto simp: hasLibrary_def libraryTimestamp_def p_succeeds_def elim!: p_bind_cases)
  show ?thesis
    unfolding installLibraries_def getBundle_def
    by (rule p_succeeds_bind [OF p_succeeds_basic(2)], rule p_succeeds_each, rule p_succeeds_bind [OF p_succeeds_basic(2)])
      (auto intro!: lib time p_succeeds_basic)
qed

text \<open>The nested \<open>resolve\<close> does not throw for a bundle below level \<open>k\<close>, when no bundle below it is being resolved.\<close>

definition succeeds_below :: "'c loader \<Rightarrow> (nat \<Rightarrow> ('c, unit) osp) \<Rightarrow> bool" where
  "succeeds_below s0 rs \<longleftrightarrow> (\<forall>k b s r t. later s0 s \<longrightarrow> resolvable_within s0 k b \<longrightarrow> \<not> isResolved (ld_heap s b) \<longrightarrow> b \<in> loaded s0 \<longrightarrow>
     (\<forall>c \<in> ld_resolving s. \<not> resolvable_within s0 k c) \<longrightarrow> rs b s = Some (r, t) \<longrightarrow> r = Inr ())"

lemma dependencies_succeed:
  assumes sb: "succeeds_below s0 rs" and rs: "sound rs"
    and "working b s" and "later s0 s" and "\<forall>c \<in> ld_resolving s. \<not> resolvable_within s0 j c"
    and "\<forall>dep \<in> set deps. \<exists>d. findBundle s0 (dep_symbolicName dep) = Some d \<and> accepts dep (ld_heap s0 d) \<and> resolvable_within s0 j d"
    and "p_each (resolveDependency rs b) deps s = Some (r, t)"
  shows "r = Inr ()"
  using assms(3-)
proof (induction deps arbitrary: s)
  case (Cons dep deps)
  have st: "same_static s0 s" using Cons.prems(2) by (simp add: later_def)
  obtain d where d: "findBundle s (dep_symbolicName dep) = Some d" "accepts dep (ld_heap s d)" "resolvable_within s0 j d"
    using Cons.prems(4) same_static_eqs(1,7) [OF st] by auto
  then have dR: "d \<notin> ld_resolving s" and dl: "d \<in> loaded s0" using Cons.prems(3) find_loaded [OF d(1)] same_static_eqs(2) [OF st] by auto
  from Cons.prems(5) have "p_seq (resolveDependency rs b dep) (p_each (resolveDependency rs b) deps) s = Some (r, t)" by simp
  then show ?case
  proof (cases rule: p_seq_cases)
    case (threw e)
    have "isResolved (ld_heap s d) \<or> rs d s = Some (Inl e, t)"
      using threw(1) d dR unfolding resolveDependency_def accepts_def
      by (auto simp: p_seq_def p_bind_def addResolvedDependency_def split: if_splits option.splits prod.splits sum.splits)
    moreover have "\<not> isResolved (ld_heap s d)"
    proof
      assume "isResolved (ld_heap s d)"
      then show False
        using threw(1) d dR unfolding resolveDependency_def accepts_def
        by (auto simp: p_seq_def p_bind_def addResolvedDependency_def split: if_splits)
    qed
    ultimately show ?thesis using sb Cons.prems(2,3) d(3) dl unfolding succeeds_below_def by blast
  next
    case (returned x u)
    have u: "working b u" "progress (untouched s u - {b}) s u" "inv u" using dependency_step [OF rs Cons.prems(1) returned(1)] by simp_all
    have "later s0 u" using later_progress [OF Cons.prems(2) u(2,3)] .
    moreover have "\<forall>c \<in> ld_resolving u. \<not> resolvable_within s0 j c" using Cons.prems(3) u(2) by (simp add: progress_def)
    ultimately show ?thesis using Cons.IH [OF u(1) _ _ _ returned(2)] Cons.prems(4) by simp
  qed
qed simp

lemma resolve_body_succeeds:
  assumes w: "cache_writable E" and sb: "succeeds_below s0 rs" and rs: "sound rs" and wf: "wf_loader s0"
  shows "succeeds_below s0 (resolve_body E rs)"
  unfolding succeeds_below_def
proof (intro allI impI)
  fix k b and s :: "'a loader" and r t
  assume l: "later s0 s" and wk: "resolvable_within s0 k b" and nr: "\<not> isResolved (ld_heap s b)" and bl: "b \<in> loaded s0"
    and R: "\<forall>c \<in> ld_resolving s. \<not> resolvable_within s0 k c" and run: "resolve_body E rs b s = Some (r, t)"
  define m where "m = (LEAST m. resolvable_within s0 m b)"
  have m: "resolvable_within s0 m b" "m \<le> k" unfolding m_def using wk by (auto intro: LeastI Least_le)
  have st0: "same_static s0 s" and inv: "inv s" and plain: "no_extensions s" using l by (simp_all add: later_def)
  have nr0: "\<not> isResolved (ld_heap s0 b)" "bu_state (ld_heap s b) = bu_state (ld_heap s0 b)" using later_unresolved [OF l nr] by simp_all
  then obtain j where j: "m = Suc j" using m(1) by (cases m) auto
  have nj: "\<not> resolvable_within s0 j b" using not_less_Least [of j "\<lambda>m. resolvable_within s0 m b"] j m_def by simp
  then have inst: "bu_state (ld_heap s0 b) = BUNDLE_INSTALLED" and req: "requirements_met s0 (bu_manifest (ld_heap s0 b)) (resolvable_within s0 j)"
    using m(1) j by auto
  have Rj: "\<forall>c \<in> ld_resolving s. \<not> resolvable_within s0 j c" using R within_mono m(2) j by (metis Suc_leD)
  have bR: "b \<notin> ld_resolving s" using R wk by blast
  let ?a = "s\<lparr>ld_trace := ld_trace s @ [Fired EV_BUNDLE_RESOLVING b]\<rparr>"
  let ?c = "?a\<lparr>ld_heap := (ld_heap ?a)(b := (ld_heap ?a b)\<lparr>bu_resolved := []\<rparr>)\<rparr>"
  let ?s = "?c\<lparr>ld_resolving := insert b (ld_resolving ?c)\<rparr>"
  have "inv ?c" by (rule clear_inv [OF quiet_inv [OF trace_quiet inv]]) (use nr in simp)
  then have ws: "working b ?s" using resolving_inv inst nr0(2) by (simp add: working_def listed_ok_def)
  have st: "same_static s ?s" by (simp add: same_static_def)
  have states: "bu_state (ld_heap ?s c) = bu_state (ld_heap s c)" for c by simp
  have ls: "later s0 ?s"
    using l states no_extensions_static [OF st plain] same_static_trans [OF st0 st] ws unfolding later_def working_def by presburger
  have man: "bu_manifest (ld_heap ?s b) = bu_manifest (ld_heap s0 b)" using st0 by (simp add: same_static_def)
  have st0s: "same_static s0 ?s" using ls by (simp add: later_def)
  have met: "providable ?s (bu_manifest (ld_heap ?s b))"
      "\<forall>dep \<in> set (demands ?s (bu_manifest (ld_heap ?s b))). \<exists>d. findBundle s0 (dep_symbolicName dep) = Some d \<and> accepts dep (ld_heap s0 d) \<and> resolvable_within s0 j d"
    using req met_demands [OF wf] unfolding man same_static_eqs(4,5) [OF st0s] by auto
  have reqs: "q = Inr ()" if q: "resolveRequirements rs b ?s = Some (q, u)" for q u
  proof -
    obtain ps where "p_seq (p_each (resolveDependency rs b) (demands ?s (bu_manifest (ld_heap ?s b)))) (setBundle b (\<lambda>x. x\<lparr>bu_providers := ps\<rparr>)) ?s = Some (q, u)"
      using resolveRequirements_run [OF met(1)] q by metis
    then show ?thesis
    proof (cases rule: p_seq_cases)
      case (threw e)
      have "Inl e = (Inr () :: exc + unit)"
        by (rule dependencies_succeed [OF sb rs ws ls _ met(2) threw(1)]) (use Rj nj in auto)
      then show ?thesis by simp
    qed simp
  qed
  have ext: "extendBundle rs b v = Some (Inr (), v)" if "resolveRequirements rs b ?s = Some (Inr x, u)" and
      "installLibraries E b (u\<lparr>ld_resolving := ld_resolving u - {b}\<rparr>) = Some (Inr y, v)" for x y u v
  proof -
    have "same_static ?s u" using requirements_step [OF rs ws that(1)] by (simp add: progress_def)
    moreover have "ld_heap v = ld_heap u" using installLibraries_same [OF that(2)] by simp
    ultimately have "bu_manifest (ld_heap v b) = bu_manifest (ld_heap s b)" by (simp add: same_static_def)
    then have "\<not> isExtensionBundle (ld_heap v b)"
      using plain bl same_static_eqs(2) [OF st0] by (simp add: no_extensions_def isExtensionBundle_def)
    then show ?thesis by (rule extend_plain)
  qed
  have inst': "\<exists>x. q = Inr x" if "installLibraries E b v = Some (q, u)" for q v u
    using install_succeeds [OF w] that by (auto simp: p_succeeds_def)
  have "r = Inr () \<or> (\<exists>e u. resolveRequirements rs b ?s = Some (Inl e, u)) \<or> (\<exists>e u v. installLibraries E b v = Some (Inl e, u))"
    using run inst nr0(2) bR ext
    by (auto simp: resolve_body_def resolveBundle_def p_seq_def p_bind_def p_catch_def split: option.splits prod.splits sum.splits)
  then show "r = Inr ()" using reqs inst' by fastforce
qed

lemma resolve_succeeds:
  assumes "cache_writable E" and "wf_loader s0"
  shows "succeeds_below s0 (resolve E n)"
proof (induction n)
  case 0
  then show ?case by (simp add: succeeds_below_def)
next
  case (Suc n)
  have "resolve E (Suc n) = resolve_body E (resolve E n)" by (rule ext) simp
  then show ?case using resolve_body_succeeds [OF assms(1) Suc.IH resolve_sound assms(2)] by simp
qed

section \<open>All bundles\<close>

lemma resolve_errors: "p_keeps (\<lambda>s. ld_errors s = es) (resolve E n b)"
proof (induction n arbitrary: b)
  case 0
  then show ?case by (simp add: p_keeps_def)
next
  case (Suc n)
  have modify: "p_keeps (\<lambda>s. ld_errors s = es) (p_modify f)" if "\<And>s. ld_errors (f s) = ld_errors s" for f :: "'a loader \<Rightarrow> 'a loader"
    using that by (auto intro: p_keeps_modify)
  have setb: "p_keeps (\<lambda>s. ld_errors s = es) (setBundle c g :: ('a, unit) osp)" for c g
    unfolding setBundle_def by (rule modify) simp
  have cache: "p_keeps (\<lambda>s. ld_errors s = es) (with_cache m :: ('a, 'b) osp)" for m
    by (auto simp: p_keeps_def with_cache_def Let_def split: prod.splits)
  have lib: "p_keeps (\<lambda>s. ld_errors s = es) (installLibrary E lib ts)" for lib ts
    unfolding installLibrary_def by (cases ts) (auto intro!: p_keeps_seq p_keeps_bind p_keeps_basic cache modify)
  have libs: "p_keeps (\<lambda>s. ld_errors s = es) (installLibraries E b)"
    unfolding installLibraries_def getBundle_def by (intro p_keeps_bind p_keeps_basic p_keeps_each p_keeps_if lib)
  have add: "p_keeps (\<lambda>s. ld_errors s = es) (addExtensionBundle d b :: ('a, unit) osp)" for d
    unfolding addExtensionBundle_def getBundle_def by (intro p_keeps_bind p_keeps_basic p_keeps_if setb)
  have ext: "p_keeps (\<lambda>s. ld_errors s = es) (extendBundle (resolve E n) b)"
    unfolding extendBundle_def getBundle_def
    by (intro p_keeps_bind p_keeps_basic p_keeps_if) (auto intro!: p_keeps_basic p_keeps_seq p_keeps_bind p_keeps_if add Suc.IH split: option.split)
  have dep: "p_keeps (\<lambda>s. ld_errors s = es) (resolveDependency (resolve E n) b dep)" for dep
    unfolding resolveDependency_def getBundle_def addResolvedDependency_def
    by (intro p_keeps_bind p_keeps_basic) (auto intro!: p_keeps_basic p_keeps_seq p_keeps_bind p_keeps_if setb Suc.IH split: option.split)
  have req: "p_keeps (\<lambda>s. ld_errors s = es) (resolveRequirements (resolve E n) b)"
    unfolding resolveRequirements_def resolveProviders_def resolveDependencies_def getBundle_def
    by (intro p_keeps_bind p_keeps_seq p_keeps_each dep setb p_keeps_basic) (simp add: p_keeps_def)
  have whole: "p_keeps (\<lambda>s. ld_errors s = es) (resolveBundle E (resolve E n) b)"
    unfolding resolveBundle_def erase_resolving_def clearResolvedDependencies_def
    by (intro p_keeps_bind p_keeps_basic p_keeps_if p_keeps_seq p_keeps_catch req libs ext setb modify) simp_all
  show ?case
    unfolding resolve.simps resolve_body_def getBundle_def clearResolvedDependencies_def setState_def act_def
    by (intro p_keeps_bind p_keeps_basic p_keeps_if p_keeps_seq whole setb modify) simp_all
qed

definition reported :: "'c loader \<Rightarrow> nat \<Rightarrow> bool" where
  "reported s b \<longleftrightarrow> (\<exists>e \<in> set (ld_errors s). be_bundle e = b \<and> be_targetState e = BUNDLE_RESOLVED)"

lemma report_quiet: "quiet s (s\<lparr>ld_errors := es\<rparr>)"
  by (simp add: quiet_def)

definition all_step :: "'c loader \<Rightarrow> nat set \<Rightarrow> 'c loader \<Rightarrow> bool" where
  "all_step s0 B s \<longleftrightarrow> inv s \<and> no_extensions s \<and> progress {} s0 s \<and> ld_resolving s = {} \<and>
     (\<forall>b \<in> B. (resolvable s0 b \<longrightarrow> isResolved (ld_heap s b)) \<and> (isResolved (ld_heap s b) \<or> reported s b))"

lemma resolve_one:
  assumes E: "cache_writable E" and wf: "wf_loader s0" and a: "all_step s0 B s" and b: "b \<in> loaded s0" and n: "card (loaded s0) < n"
  shows "\<exists>t. resolve_or_report E n b s = Some (Inr (), t) \<and> all_step s0 (insert b B) t"
proof (cases "isResolved (ld_heap s b)")
  case True
  then show ?thesis using a by (auto simp: resolve_or_report_def all_step_def)
next
  case False
  have s: "inv s" "no_extensions s" "progress {} s0 s" "ld_resolving s = {}" using a by (simp_all add: all_step_def)
  have st0: "same_static s0 s" using s(3) by (rule progress_static)
  have bl: "b \<in> loaded s" "card (loaded s - ld_resolving s) < n" using b n same_static_eqs(2) [OF st0] s(4) by simp_all
  obtain r u where run: "resolve E n b s = Some (r, u)"
    using resolve_ends [of E n] s bl unfolding ends_in_def by (metis option.exhaust surj_pair)
  have errors: "ld_errors u = ld_errors s" using resolve_errors run unfolding p_keeps_def by blast
  have l: "later s0 s" using s st0 progress_states [OF s(3)] by (simp add: later_def)
  have ok: "r = Inr ()" if rb: "resolvable s0 b"
  proof -
    obtain k where "resolvable_within s0 k b" using resolvable_level [OF rb] by blast
    then show ?thesis using resolve_succeeds [OF E wf, of n] l False b run s(4) unfolding succeeds_below_def by blast
  qed
  have kept: "reported t c" if "reported s c" "ld_errors t = ld_errors s @ es" for t c es
    using that by (auto simp: reported_def)
  show ?thesis
  proof (cases r)
    case (Inr x)
    then have u: "inv u" "progress (untouched s u) s u" "isResolved (ld_heap u b)" using soundD(2) [OF resolve_sound s(1)] run by blast+
    have "resolve_or_report E n b s = Some (Inr (), u)" using False run Inr by (simp add: resolve_or_report_def)
    moreover have "progress {} s0 u" by (rule progress_extend [OF s(3) u(2)]) auto
    moreover have "(resolvable s0 c \<longrightarrow> isResolved (ld_heap u c)) \<and> (isResolved (ld_heap u c) \<or> reported u c)" if "c \<in> insert b B" for c
      using that u(3) a progress_resolved [OF u(2)] kept [of c u "[]"] errors by (auto simp: all_step_def)
    ultimately show ?thesis using u(1) no_extensions_static [OF progress_static [OF u(2)] s(2)] s(4) u(2)
      by (auto simp: all_step_def progress_def)
  next
    case (Inl e)
    then have u: "inv u" "progress {} s u" using soundD(1) [OF resolve_sound s(1)] run by blast+
    let ?es = "[\<lparr>be_bundle = b, be_targetState = BUNDLE_RESOLVED, be_exception = e\<rparr>]"
    let ?t = "u\<lparr>ld_errors := ld_errors u @ ?es\<rparr>"
    have q: "quiet u ?t" by (rule report_quiet)
    have "resolve_or_report E n b s = Some (Inr (), ?t)" using False run Inl by (simp add: resolve_or_report_def report_def)
    moreover have pt: "progress {} s ?t" by (rule progress_trans [OF u(2) quiet_progress [OF q]])
    moreover have "progress {} s0 ?t" by (rule progress_trans [OF s(3) pt])
    moreover have "reported ?t b" by (simp add: reported_def)
    moreover have "\<not> resolvable s0 b" using ok Inl by auto
    moreover have "(resolvable s0 c \<longrightarrow> isResolved (ld_heap ?t c)) \<and> (isResolved (ld_heap ?t c) \<or> reported ?t c)" if "c \<in> B" for c
      using that a progress_resolved [OF pt] kept [of c ?t ?es] errors by (auto simp: all_step_def)
    ultimately show ?thesis using quiet_inv [OF q u(1)] no_extensions_static [OF progress_static [OF pt] s(2)] s(4)
      by (auto simp: all_step_def progress_def)
  qed
qed

lemma resolve_each:
  assumes E: "cache_writable E" and wf: "wf_loader s0" and n: "card (loaded s0) < n" and "all_step s0 B s" and "set bs \<subseteq> loaded s0"
  shows "\<exists>t. p_each (resolve_or_report E n) bs s = Some (Inr (), t) \<and> all_step s0 (B \<union> set bs) t"
  using assms(4,5)
proof (induction bs arbitrary: s B)
  case (Cons b bs)
  obtain u where u: "resolve_or_report E n b s = Some (Inr (), u)" "all_step s0 (insert b B) u"
    using resolve_one [OF E wf Cons.prems(1) _ n] Cons.prems(2) by auto
  show ?case using Cons.IH [OF u(2)] Cons.prems(2) u(1) by auto
qed simp

section \<open>A loader with given bundles\<close>

definition plain_manifest :: "string \<Rightarrow> version \<Rightarrow> manifest" where
  "plain_manifest name v = \<lparr>mf_name = name, mf_symbolicName = name, mf_version = v, mf_vendor = [], mf_copyright = [],
     mf_activatorClass = [], mf_activatorLibrary = [], mf_requiredBundles = [], mf_requiredModules = [], mf_providedModules = [],
     mf_extendedBundle = [], mf_lazyStart = False, mf_sealed = False, mf_preventUninstall = False, mf_runLevel = ''999-user''\<rparr>"

text \<open>The manifests in the order of their names; the bundle of the \<open>i\<close>-th has the identity \<open>i\<close>.\<close>

definition sample_loader :: "manifest list \<Rightarrow> 'c loader" where
  "sample_loader ms = \<lparr>ld_next = length ms,
     ld_heap = (\<lambda>b. new_bundle ''/bundles/x.bndl'' (if b < length ms then ms ! b else plain_manifest [] no_version) []),
     ld_bundles = map (\<lambda>b. (mf_symbolicName (ms ! b), \<lparr>bi_bundle = b, bi_classLoader = None\<rparr>)) [0..<length ms],
     ld_ids = (\<lambda>b. if b < length ms then Some b else None), ld_resolving = {}, ld_lastStarted = [],
     ld_cache = \<lparr>cc_path = ''/cache/'', cc_entries = []\<rparr>, ld_files = (\<lambda>p. None), ld_trace = [], ld_errors = []\<rparr>"

definition sample_env :: "unit osp_env" where
  "sample_env = \<lparr>ev_storage = (\<lambda>c. Inr \<lparr>st_manifest = None, st_libraries = []\<rparr>), ev_dlopen = (\<lambda>c p. Inr [''Activator'']),
     ev_start = (\<lambda>tr b. Inr ()), ev_stop = (\<lambda>tr b. Inr ()), ev_now = (\<lambda>tr. 0), ev_cacheWritable = (\<lambda>n. True), ev_cacheDatable = (\<lambda>n. True),
     ev_removable = (\<lambda>p. True), ev_suffix = ''.so'', ev_paths = sample_paths, ev_autoUpdate = True, ev_sort = (\<lambda>k bs. sort_key k bs)\<rparr>"

lemma sample_loaded: "loaded (sample_loader ms) = {..<length ms}"
  by (auto simp: loaded_def listBundles_def sample_loader_def)

lemma sample_deps_ok [simp]: "deps_ok (sample_loader ms)"
  by (simp add: deps_ok_def sample_loader_def isResolved_def new_bundle_def)

lemma sample_wf: "distinct (map mf_symbolicName ms) \<Longrightarrow> wf_loader (sample_loader ms)"
  by (auto simp: wf_loader_def sample_loader_def new_bundle_def comp_def distinct_conv_nth)

lemma sample_resolving [simp]: "ld_resolving (sample_loader ms) = {}"
  by (simp add: sample_loader_def)

lemma sample_no_extensions: "(\<And>m. m \<in> set ms \<Longrightarrow> mf_extendedBundle m = []) \<Longrightarrow> no_extensions (sample_loader ms)"
  unfolding no_extensions_def sample_loaded by (simp add: isExtensionBundle_def sample_loader_def new_bundle_def)

lemma sample_writable [simp]: "cache_writable sample_env"
  by (simp add: cache_writable_def sample_env_def)

text \<open>One bundle that requires another, loaded in the order that makes the nested resolution necessary.\<close>

definition two_bundles :: "unit loader" where
  "two_bundles = sample_loader
     [(plain_manifest ''a'' (Version 1 0 0 []))\<lparr>mf_requiredBundles := [\<lparr>dep_symbolicName = ''b'', dep_versions = any_version\<rparr>]\<rparr>,
      plain_manifest ''b'' (Version 1 2 0 [])]"

lemma two_bundles_ok:
  "wf_loader two_bundles" "deps_ok two_bundles" "ld_resolving two_bundles = {}" "no_extensions two_bundles"
  "card (loaded two_bundles) < 3" "0 \<in> loaded two_bundles" "card (loaded two_bundles - ld_resolving two_bundles) < 3"
  unfolding two_bundles_def
  by (rule sample_wf sample_no_extensions | auto simp: plain_manifest_def sample_loaded)+

lemma two_bundles_resolvable: "resolvable two_bundles 0"
  by (rule within_resolvable [of _ 2])
    (simp add: numeral_2_eq_2 two_bundles_def sample_loader_def new_bundle_def plain_manifest_def requirements_met_def findBundle_def accepts_def
      any_version_def range_isEmpty_def same_version_def no_version_def isResolved_def)

section \<open>Properties\<close>

text \<open>C18: Resolving keeps the loader consistent on every path, exceptions included: every resolved bundle has its required bundles loaded,
  in the requested version range, resolved and recorded, and every module it requires has providers, all of them resolved and
  recorded; the set of bundles being resolved is back to what it was, resolved bundles are left alone, no bundle is
  resolved whose requirements cannot be met; and when \<open>resolve\<close> returns, its bundle is resolved.\<close>

theorem resolution_is_sound:
  assumes "wf_loader s" and "deps_ok s" and "resolve E n b s = Some (r, t)"
  shows "wf_loader t \<and> deps_ok t \<and> ld_resolving t = ld_resolving s \<and>
    (\<forall>c. isResolved (ld_heap s c) \<longrightarrow> bu_state (ld_heap t c) = bu_state (ld_heap s c) \<and> bu_resolved (ld_heap t c) = bu_resolved (ld_heap s c)) \<and>
    (\<forall>c. isResolved (ld_heap t c) \<longrightarrow> resolvable s c) \<and> (r = Inr () \<longrightarrow> isResolved (ld_heap t b))"
proof -
  have "inv t \<and> progress {} s t \<and> (r = Inr () \<longrightarrow> isResolved (ld_heap t b))"
  proof -
    have i: "inv s" using assms(1,2) by (simp add: inv_def)
    show ?thesis
    proof (cases r)
      case (Inl e)
      then show ?thesis using soundD(1) [OF resolve_sound i, of E n b e t] assms(3) by simp
    next
      case (Inr x)
      then show ?thesis using soundD(2) [OF resolve_sound i, of E n b x t] assms(3) progress_fewer [of _ s t "{}"] by auto
    qed
  qed
  then show ?thesis unfolding inv_def progress_def by blast
qed

lemma resolution_is_sound_witness:
  "\<exists>r t. resolve sample_env 3 0 two_bundles = Some (r, t) \<and> deps_ok t \<and> (r = Inr () \<longrightarrow> isResolved (ld_heap t 0))"
proof -
  obtain r t where t: "resolve sample_env 3 0 two_bundles = Some (r, t)"
    using resolve_ends [of sample_env 3] two_bundles_ok unfolding ends_in_def inv_def by (metis option.exhaust surj_pair)
  then show ?thesis using resolution_is_sound [OF two_bundles_ok(1,2) t] by blast
qed

text \<open>C2: Without extension bundles and with a writable code cache, \<open>resolveAllBundles\<close> ends, throws nothing, and resolves exactly the
  bundles whose requirements can be met, directly or through other bundles: those of the least set closed under the manifests'
  requirements. No order of loading and no circular reference among other bundles keeps such a bundle from being resolved, and
  every bundle that stays unresolved is reported.\<close>

theorem resolve_all_is_exact:
  assumes "wf_loader s" and "deps_ok s" and "ld_resolving s = {}" and "no_extensions s" and "cache_writable E" and "card (loaded s) < n"
  shows "\<exists>t. resolveAllBundles E n s = Some (Inr (), t) \<and> wf_loader t \<and> deps_ok t \<and>
    (\<forall>b \<in> loaded s. isResolved (ld_heap t b) = resolvable s b) \<and> (\<forall>b \<in> loaded s. isResolved (ld_heap t b) \<or> reported t b)"
proof -
  have "all_step s {} s" using assms by (simp add: all_step_def inv_def)
  from resolve_each [OF assms(5,1,6) this, of "listBundles s"]
  obtain t where t: "p_each (resolve_or_report E n) (listBundles s) s = Some (Inr (), t)" "all_step s (loaded s) t"
    by (auto simp: loaded_def)
  have "resolveAllBundles E n s = Some (Inr (), t)" using t(1) by (simp add: resolveAllBundles_def)
  moreover have "resolvable s b" if "isResolved (ld_heap t b)" for b
    using t(2) that by (simp add: all_step_def progress_def)
  ultimately show ?thesis using t(2) unfolding all_step_def inv_def by blast
qed

lemma resolve_all_is_exact_witness:
  "\<exists>t. resolveAllBundles sample_env 3 two_bundles = Some (Inr (), t) \<and> isResolved (ld_heap t 0)"
  using resolve_all_is_exact [OF two_bundles_ok(1-4) sample_writable two_bundles_ok(5)] two_bundles_ok(6) two_bundles_resolvable by blast

text \<open>\<open>resolve\<close> always returns in a loader without extension bundles: fuel for one call more than there are loaded bundles is
  enough, whatever the requirements, circular ones included.\<close>

theorem resolve_returns:
  assumes "wf_loader s" and "deps_ok s" and "no_extensions s" and "b \<in> loaded s" and "card (loaded s) < n"
  shows "\<exists>r t. resolve E n b s = Some (r, t)"
proof -
  have "card (loaded s - ld_resolving s) < n" using assms(5) card_mono [of "loaded s" "loaded s - ld_resolving s"] by (simp add: Diff_subset le_less_trans)
  then show ?thesis using resolve_ends [of E n] assms unfolding ends_in_def inv_def by (metis option.exhaust surj_pair)
qed

lemma resolve_returns_witness:
  "let m = (plain_manifest ''a'' (Version 1 0 0 []))\<lparr>mf_requiredBundles := [\<lparr>dep_symbolicName = ''a'', dep_versions = any_version\<rparr>]\<rparr>
   in \<exists>r t. resolve sample_env 2 0 (sample_loader [m]) = Some (r, t)"
proof -
  let ?ms = "[(plain_manifest ''a'' (Version 1 0 0 []))\<lparr>mf_requiredBundles := [\<lparr>dep_symbolicName = ''a'', dep_versions = any_version\<rparr>]\<rparr>]"
  have wf: "wf_loader (sample_loader ?ms :: unit loader)" by (rule sample_wf) simp
  have ext: "no_extensions (sample_loader ?ms :: unit loader)" by (rule sample_no_extensions) (auto simp: plain_manifest_def)
  show ?thesis unfolding Let_def by (rule resolve_returns [OF wf sample_deps_ok ext]) (simp_all add: sample_loaded)
qed

text \<open>A module required without a version is never provided, whatever is loaded: the empty range that stands for any version contains
  none, and the search for providers, unlike that for bundles, does not ask for it. The bundle is never resolved.\<close>

theorem unversioned_module_is_never_provided:
  assumes "mdl \<in> set (mf_requiredModules (bu_manifest (ld_heap s b)))" and "dep_versions mdl = any_version"
    and "bu_state (ld_heap s b) = BUNDLE_INSTALLED" and "b \<notin> ld_resolving s"
  shows "\<exists>e t. resolve E (Suc n) b s = Some (Inl e, t) \<and> bu_state (ld_heap t b) = BUNDLE_INSTALLED"
proof -
  let ?a = "s\<lparr>ld_trace := ld_trace s @ [Fired EV_BUNDLE_RESOLVING b]\<rparr>"
  let ?c = "?a\<lparr>ld_heap := (ld_heap ?a)(b := (ld_heap ?a b)\<lparr>bu_resolved := []\<rparr>)\<rparr>"
  let ?s = "?c\<lparr>ld_resolving := insert b (ld_resolving ?c)\<rparr>"
  have "\<not> isProvidingModule x mdl" for x
    using assms(2) by (auto simp: isProvidingModule_def list_ex_iff isInRange_def any_version_def less_version_def)
  then have "providers_of ?s mdl = []" by (simp add: providers_of_def)
  then have "\<not> providable ?s (bu_manifest (ld_heap ?s b))" using assms(1) by (auto simp: providable_def)
  then obtain e where "resolveRequirements (resolve E n) b ?s = Some (Inl e, ?s)" using resolveRequirements_fails by blast
  then show ?thesis using assms(3,4) by (simp add: resolve_body_def resolveBundle_def)
qed

lemma unversioned_module_is_never_provided_witness:
  "let m = (plain_manifest ''a'' (Version 1 0 0 []))\<lparr>mf_requiredModules := [\<lparr>dep_symbolicName = ''m'', dep_versions = any_version\<rparr>]\<rparr>;
       p = (plain_manifest ''p'' (Version 1 0 0 []))\<lparr>mf_providedModules := [\<lparr>mod_symbolicName = ''m'', mod_version = Version 1 0 0 []\<rparr>]\<rparr>
   in \<exists>e t. resolve sample_env 3 0 (sample_loader [m, p]) = Some (Inl e, t) \<and> bu_state (ld_heap t 0) = BUNDLE_INSTALLED"
  unfolding Let_def numeral_3_eq_3
  by (rule unversioned_module_is_never_provided [where mdl = "\<lparr>dep_symbolicName = ''m'', dep_versions = any_version\<rparr>"])
    (simp_all add: sample_loader_def new_bundle_def)

text \<open>Bundles that extend each other, or themselves, and have no other obstacle.\<close>

definition extension_cycle :: "'c loader \<Rightarrow> nat set \<Rightarrow> bool" where
  "extension_cycle s X \<longleftrightarrow> X \<inter> ld_resolving s = {} \<and> (\<forall>b \<in> X. let x = ld_heap s b in
     bu_state x = BUNDLE_INSTALLED \<and> mf_requiredBundles (bu_manifest x) = [] \<and> mf_requiredModules (bu_manifest x) = [] \<and>
     bu_libraries x = [] \<and> (\<exists>d \<in> X. extendedBundle s x = Some d))"

text \<open>Resolving a bundle of a circle of extension bundles, one that extends itself included, never returns: the circle is not detected
  because a bundle leaves the set of bundles being resolved before the bundle it extends is resolved, and no fuel is enough.\<close>

theorem extension_cycle_never_returns:
  assumes "extension_cycle s X" and "b \<in> X"
  shows "resolve E n b s = None"
  using assms
proof (induction n arbitrary: s b)
  case (Suc n)
  let ?x = "ld_heap s b"
  have x: "bu_state ?x = BUNDLE_INSTALLED" "mf_requiredBundles (bu_manifest ?x) = []" "mf_requiredModules (bu_manifest ?x) = []"
      "bu_libraries ?x = []" and bR: "b \<notin> ld_resolving s"
    using Suc.prems by (auto simp: extension_cycle_def Let_def)
  obtain d where d: "d \<in> X" "extendedBundle s ?x = Some d" using Suc.prems by (auto simp: extension_cycle_def Let_def)
  define t where "t = s\<lparr>ld_trace := ld_trace s @ [Fired EV_BUNDLE_RESOLVING b], ld_heap := (ld_heap s)(b := ?x\<lparr>bu_resolved := [], bu_providers := []\<rparr>)\<rparr>"
  have same: "extendedBundle t (ld_heap t c) = extendedBundle s (ld_heap s c)" for c
    by (simp add: extendedBundle_def findBundle_def t_def)
  have cyc: "extension_cycle t X"
    using Suc.prems(1) same unfolding extension_cycle_def Let_def by (auto simp: t_def)
  have nested: "resolve E n d t = None" by (rule Suc.IH [OF cyc d(1)])
  have "bu_state (ld_heap s d) = BUNDLE_INSTALLED" using Suc.prems(1) d(1) by (auto simp: extension_cycle_def Let_def)
  then have nr: "\<not> isResolved (ld_heap t d)" by (auto simp: t_def isResolved_def)
  have ext: "isExtensionBundle (ld_heap t b)" "extendedBundle t (ld_heap t b) = Some d"
    using d(2) same [of b] by (auto simp: isExtensionBundle_def extendedBundle_def t_def split: if_splits)
  have "extendBundle (resolve E n) b t = None"
    using ext nested nr by (simp add: extendBundle_def)
  moreover have "t\<lparr>ld_resolving := insert b (ld_resolving s) - {b}\<rparr> = t" using bR by (simp add: t_def)
  ultimately show ?case
    using x bR unfolding t_def
    by (simp add: resolve_body_def resolveBundle_def resolveRequirements_def resolveProviders_def resolveDependencies_def installLibraries_def p_bind_def)
qed simp

lemma extension_cycle_never_returns_witness:
  "resolve sample_env 100 0 (sample_loader [(plain_manifest ''a'' (Version 1 0 0 []))\<lparr>mf_extendedBundle := ''a''\<rparr>]) = None"
  by (rule extension_cycle_never_returns [where X = "{0}"])
    (simp_all add: extension_cycle_def sample_loader_def new_bundle_def plain_manifest_def extendedBundle_def findBundle_def)

end
