(* ===== verification/OspLifecycle.thy ===== *)
theory OspLifecycle
  imports OspResolve "HOL-Library.Multiset"
begin

text \<open>
  Starting, stopping and unloading bundles: which states the operations leave behind, in which order
  bundles are stopped, and what becomes of bundles whose library could not be loaded or whose
  dependencies have been unloaded.
\<close>

section \<open>What starting changes\<close>

definition entry_names :: "'c loader \<Rightarrow> (string \<times> nat) list" where
  "entry_names s = map (\<lambda>(k, i). (k, bi_bundle i)) (ld_bundles s)"

lemma find_names: "findBundle s name = map_of (entry_names s) name"
  by (simp add: findBundle_def entry_names_def map_of_map)

definition started_from :: "'c loader \<Rightarrow> 'c loader \<Rightarrow> bool" where
  "started_from s t \<longleftrightarrow> entry_names t = entry_names s \<and>
     (\<forall>c. bu_manifest (ld_heap t c) = bu_manifest (ld_heap s c) \<and> bu_resolved (ld_heap t c) = bu_resolved (ld_heap s c) \<and>
          (bu_state (ld_heap t c) = bu_state (ld_heap s c) \<or> bu_state (ld_heap s c) = BUNDLE_RESOLVED \<and> bu_state (ld_heap t c) = BUNDLE_ACTIVE))"

text \<open>Every active bundle has its recorded dependencies loaded, in the recorded version, and active.\<close>

definition dependencies_active :: "'c loader \<Rightarrow> nat \<Rightarrow> bool" where
  "dependencies_active s b \<longleftrightarrow> (\<forall>rd \<in> set (bu_resolved (ld_heap s b)). \<exists>d. findBundle s (rd_symbolicName rd) = Some d \<and>
     same_version (bundle_version (ld_heap s d)) (rd_version rd) \<and> isActive (ld_heap s d))"

definition active_ok :: "'c loader \<Rightarrow> bool" where
  "active_ok s \<longleftrightarrow> (\<forall>b. isActive (ld_heap s b) \<longrightarrow> dependencies_active s b)"

lemma started_from_refl [simp]: "started_from s s"
  by (simp add: started_from_def)

lemma started_from_trans: "started_from s t \<Longrightarrow> started_from t u \<Longrightarrow> started_from s u"
  unfolding started_from_def by (metis bundle_state.distinct(21))

lemma started_from_active: "started_from s t \<Longrightarrow> isActive (ld_heap s c) \<Longrightarrow> isActive (ld_heap t c)"
  unfolding started_from_def isActive_def by metis

lemma started_from_find: "started_from s t \<Longrightarrow> findBundle t = findBundle s"
  by (simp add: find_names started_from_def fun_eq_iff)

lemma dependencies_active_kept: "started_from s t \<Longrightarrow> dependencies_active s b \<Longrightarrow> dependencies_active t b"
  unfolding dependencies_active_def using started_from_find [of s t] started_from_active [of s t]
  by (fastforce simp: started_from_def)

lemma set_class_loader_names [simp]: "entry_names (s\<lparr>ld_bundles := map (\<lambda>(k, i). if k = name then (k, i\<lparr>bi_classLoader := cl\<rparr>) else (k, i)) (ld_bundles s)\<rparr>) = entry_names s"
  by (simp add: entry_names_def comp_def split_def)

text \<open>Loading the activator and calling it change neither states nor recorded dependencies.\<close>

definition states_kept :: "'c loader \<Rightarrow> 'c loader \<Rightarrow> bool" where
  "states_kept s t \<longleftrightarrow> entry_names t = entry_names s \<and>
     (\<forall>c. bu_manifest (ld_heap t c) = bu_manifest (ld_heap s c) \<and> bu_resolved (ld_heap t c) = bu_resolved (ld_heap s c) \<and>
          bu_state (ld_heap t c) = bu_state (ld_heap s c))"

lemma states_kept_refl [simp]: "states_kept s s"
  by (simp add: states_kept_def)

lemma states_kept_trans: "states_kept s t \<Longrightarrow> states_kept t u \<Longrightarrow> states_kept s u"
  by (simp add: states_kept_def)

lemma states_kept_started: "states_kept s t \<Longrightarrow> started_from s t"
  by (simp add: states_kept_def started_from_def)

lemma states_keeps_modify: "(\<And>s. states_kept s (f s)) \<Longrightarrow> p_keeps (states_kept s0) (p_modify f)"
  by (rule p_keeps_modify) (blast intro: states_kept_trans)

lemma class_loader_keeps: "p_keeps (states_kept s0) (setClassLoader name cl)"
  unfolding setClassLoader_def by (rule states_keeps_modify) (simp add: states_kept_def)

lemma loadActivator_keeps: "p_keeps (states_kept s0) (loadActivator E name info)"
  unfolding loadActivator_def getBundle_def setBundle_def
  by (intro p_keeps_bind p_keeps_basic p_keeps_if p_keeps_seq class_loader_keeps states_keeps_modify) (simp add: states_kept_def entry_names_def)

lemma call_activator_keeps: "p_keeps (states_kept s0) (call_activator f what b)"
  unfolding call_activator_def act_def
  by (intro p_keeps_bind p_keeps_basic p_keeps_seq states_keeps_modify) (simp add: states_kept_def entry_names_def)

section \<open>Starting\<close>

definition starts_well :: "(nat \<Rightarrow> ('c, unit) osp) \<Rightarrow> bool" where
  "starts_well st \<longleftrightarrow> (\<forall>b s r t. active_ok s \<longrightarrow> st b s = Some (r, t) \<longrightarrow>
     started_from s t \<and> active_ok t \<and> (case r of Inr _ \<Rightarrow> isActive (ld_heap t b) | Inl _ \<Rightarrow> bu_state (ld_heap t b) = bu_state (ld_heap s b)))"

lemma startDependencies_step:
  assumes st: "starts_well st" and "active_ok s" and "startDependencies st b s = Some (r, t)"
  shows "started_from s t \<and> active_ok t \<and> (r = Inr () \<longrightarrow> dependencies_active t b)"
proof -
  let ?one = "\<lambda>dep. p_bind (p_get (\<lambda>s. findBundle s (rd_symbolicName dep))) (\<lambda>found.
         case found of
           None \<Rightarrow> p_throw (osp_exc BundleResolveException ''A required bundle is no longer available'' (rd_symbolicName dep))
         | Some d \<Rightarrow>
             p_bind (getBundle d) (\<lambda>y.
               if same_version (bundle_version y) (rd_version dep) then
                 if \<not> isActive y then st d else p_ret ()
               else p_throw (osp_exc BundleResolveException ''A required bundle is no longer available'' (rd_symbolicName dep))))"
  let ?ok = "\<lambda>t rd. \<exists>d. findBundle t (rd_symbolicName rd) = Some d \<and> same_version (bundle_version (ld_heap t d)) (rd_version rd) \<and> isActive (ld_heap t d)"
  have one: "started_from s t \<and> active_ok t \<and> (r = Inr () \<longrightarrow> ?ok t rd)" if "active_ok s" "?one rd s = Some (r, t)" for rd s r t
  proof (cases "\<exists>d. findBundle s (rd_symbolicName rd) = Some d \<and> same_version (bundle_version (ld_heap s d)) (rd_version rd) \<and> \<not> isActive (ld_heap s d)")
    case True
    then obtain d where d: "findBundle s (rd_symbolicName rd) = Some d" "same_version (bundle_version (ld_heap s d)) (rd_version rd)" "\<not> isActive (ld_heap s d)" by blast
    then have run: "st d s = Some (r, t)" using that(2) by simp
    then have t: "started_from s t" "active_ok t" "r = Inr () \<Longrightarrow> isActive (ld_heap t d)"
      using st that(1) unfolding starts_well_def by fastforce+
    then show ?thesis using d started_from_find [OF t(1)] by (auto simp: started_from_def)
  next
    case False
    then show ?thesis using that by (cases "findBundle s (rd_symbolicName rd)") (auto split: if_splits)
  qed
  have all: "started_from s t \<and> active_ok t \<and> (r = Inr () \<longrightarrow> (\<forall>rd \<in> set deps. ?ok t rd))" if "active_ok s" "p_each ?one deps s = Some (r, t)" for deps s r t
    using that
  proof (induction deps arbitrary: s)
    case (Cons rd deps)
    from Cons.prems(2) have "p_seq (?one rd) (p_each ?one deps) s = Some (r, t)" by (simp only: p_each.simps)
    then show ?case
    proof (cases rule: p_seq_cases)
      case (threw e)
      then show ?thesis using one [OF Cons.prems(1) threw(1)] by simp
    next
      case (returned x u)
      have u: "started_from s u" "active_ok u" "?ok u rd" using one [OF Cons.prems(1) returned(1)] by simp_all
      have t: "started_from u t" "active_ok t" "r = Inr () \<longrightarrow> (\<forall>rd \<in> set deps. ?ok t rd)" using Cons.IH [OF u(2) returned(2)] by simp_all
      have "?ok t rd" using u(3) started_from_find [OF t(1)] started_from_active [OF t(1)] t(1) unfolding started_from_def by metis
      then show ?thesis using t u(1) started_from_trans by auto
    qed
  qed simp
  have "p_each ?one (bu_resolved (ld_heap s b)) s = Some (r, t)" using assms(3) by (simp add: startDependencies_def)
  from all [OF assms(2) this] show ?thesis unfolding dependencies_active_def started_from_def by metis
qed

lemma startBundle_step:
  assumes st: "starts_well st" and a: "active_ok s" and run: "startBundle E st b s = Some (r, t)"
  shows "started_from s t \<and> active_ok t \<and> (r = Inr () \<longrightarrow> dependencies_active t b)"
proof (cases "map_of (ld_bundles s) (symbolicName (ld_heap s b))")
  case None
  then show ?thesis using run a by (auto simp: startBundle_def)
next
  case (Some it)
  let ?name = "symbolicName (ld_heap s b)"
  let ?rest = "p_seq (p_modify (\<lambda>s. s\<lparr>ld_lastStarted := ?name\<rparr>))
        (p_bind (p_get (\<lambda>s. the (map_of (ld_bundles s) ?name))) (\<lambda>info.
         p_bind (loadActivator E ?name info) (\<lambda>activator.
           if activator then call_activator (ev_start E) ActivatorStart (bi_bundle info) else p_ret ())))"
  have keeps: "p_keeps (states_kept s1) ?rest" for s1
    by (intro p_keeps_bind p_keeps_basic p_keeps_if p_keeps_seq loadActivator_keeps call_activator_keeps states_keeps_modify)
      (simp add: states_kept_def entry_names_def)
  have "p_seq (startDependencies st b) ?rest s = Some (r, t)" using run Some by (simp add: startBundle_def)
  then show ?thesis
  proof (cases rule: p_seq_cases)
    case (threw e)
    then show ?thesis using startDependencies_step [OF st a threw(1)] by simp
  next
    case (returned x u)
    have u: "started_from s u" "active_ok u" "dependencies_active u b" using startDependencies_step [OF st a returned(1)] by simp_all
    have k: "states_kept u t" using p_keepsD [OF keeps states_kept_refl returned(2)] .
    have ut: "started_from u t" using k by (rule states_kept_started)
    have "active_ok t"
      using u(2) k dependencies_active_kept [OF ut] by (auto simp: active_ok_def isActive_def states_kept_def)
    then show ?thesis using started_from_trans [OF u(1) ut] dependencies_active_kept [OF ut u(3)] by simp
  qed
qed

definition with_state :: "nat \<Rightarrow> bundle_state \<Rightarrow> osp_action list \<Rightarrow> 'c loader \<Rightarrow> 'c loader" where
  "with_state b st acts s = s\<lparr>ld_heap := (ld_heap s)(b := (ld_heap s b)\<lparr>bu_state := st\<rparr>), ld_trace := ld_trace s @ acts\<rparr>"

lemma with_state_simps [simp]:
  "findBundle (with_state b st acts s) = findBundle s" "entry_names (with_state b st acts s) = entry_names s"
  "bu_manifest (ld_heap (with_state b st acts s) c) = bu_manifest (ld_heap s c)" "bu_resolved (ld_heap (with_state b st acts s) c) = bu_resolved (ld_heap s c)"
  "bu_state (ld_heap (with_state b st acts s) c) = (if c = b then st else bu_state (ld_heap s c))"
  "ld_bundles (with_state b st acts s) = ld_bundles s" "bu_activator (ld_heap (with_state b st acts s) c) = bu_activator (ld_heap s c)"
  by (simp_all add: with_state_def findBundle_def entry_names_def fun_eq_iff)

lemma active_ok_with_state:
  assumes "active_ok s" and "\<not> isActive (ld_heap s b)" and "st = BUNDLE_ACTIVE \<Longrightarrow> dependencies_active s b"
  shows "active_ok (with_state b st acts s)"
  using assms unfolding active_ok_def dependencies_active_def isActive_def by (simp; metis)

lemma start_body_starts_well:
  assumes st: "starts_well st"
  shows "starts_well (start_body E st)"
  unfolding starts_well_def
proof (intro allI impI)
  fix b and s :: "'a loader" and r t assume a: "active_ok s" and run: "start_body E st b s = Some (r, t)"
  show "started_from s t \<and> active_ok t \<and> (case r of Inr _ \<Rightarrow> isActive (ld_heap t b) | Inl _ \<Rightarrow> bu_state (ld_heap t b) = bu_state (ld_heap s b))"
  proof (cases "bu_state (ld_heap s b) = BUNDLE_RESOLVED")
    case False
    then show ?thesis using run a by (auto simp: start_body_def)
  next
    case True
    let ?a = "with_state b BUNDLE_STARTING [Fired EV_BUNDLE_STARTING b] s"
    let ?h = "\<lambda>e. p_seq (act (Fired EV_BUNDLE_FAILED b)) (p_seq (setState b BUNDLE_RESOLVED) (p_throw e))"
    have "p_seq (p_catch (startBundle E st b) ?h) (p_seq (setState b BUNDLE_ACTIVE) (act (Fired EV_BUNDLE_STARTED b))) ?a = Some (r, t)"
      using run True by (simp add: start_body_def p_seq_def p_bind_def with_state_def)
    moreover have aa: "active_ok ?a" by (rule active_ok_with_state [OF a]) (simp_all add: True isActive_def)
    ultimately show ?thesis
    proof (cases rule: p_seq_cases)
      case (threw e)
      from threw(1) obtain e' u where u: "startBundle E st b ?a = Some (Inl e', u)" and t: "t = with_state b BUNDLE_RESOLVED [Fired EV_BUNDLE_FAILED b] u"
        by (cases rule: p_catch_cases) (auto simp: with_state_def p_seq_def p_bind_def)
      have k: "started_from ?a u" "active_ok u" using startBundle_step [OF st aa u] by simp_all
      have b: "bu_state (ld_heap u b) = BUNDLE_STARTING"
        using k(1) [unfolded started_from_def, THEN conjunct2, THEN spec, of b] by simp
      have "active_ok t" unfolding t by (rule active_ok_with_state [OF k(2)]) (simp_all add: b isActive_def)
      moreover have "started_from s t" using k(1) True by (auto simp: started_from_def t split: if_splits)
      ultimately show ?thesis using threw(2) True by (simp add: t)
    next
      case (returned x u)
      from returned(1) have u: "startBundle E st b ?a = Some (Inr (), u)"
        by (cases rule: p_catch_cases) (auto simp: p_seq_def p_bind_def)
      have r: "r = Inr ()" and t: "t = with_state b BUNDLE_ACTIVE [Fired EV_BUNDLE_STARTED b] u"
        using returned(2) by (auto simp: with_state_def p_seq_def p_bind_def)
      have k: "started_from ?a u" "active_ok u" "dependencies_active u b" using startBundle_step [OF st aa u] by simp_all
      have b: "bu_state (ld_heap u b) = BUNDLE_STARTING"
        using k(1) [unfolded started_from_def, THEN conjunct2, THEN spec, of b] by simp
      have "active_ok t" unfolding t by (rule active_ok_with_state [OF k(2)]) (simp_all add: b k(3) isActive_def)
      moreover have "started_from s t" using k(1) True by (auto simp: started_from_def t split: if_splits)
      ultimately show ?thesis using r by (simp add: t isActive_def)
    qed
  qed
qed

lemma start_starts_well: "starts_well (start E n)"
proof (induction n)
  case 0
  then show ?case by (simp add: starts_well_def)
next
  case (Suc n)
  have "start E (Suc n) = start_body E (start E n)" by (rule ext) simp
  then show ?case using start_body_starts_well [OF Suc.IH] by simp
qed

section \<open>The order of stopping\<close>

definition waits_for :: "'c loader \<Rightarrow> nat \<Rightarrow> string set" where
  "waits_for s b = (if isResolved (ld_heap s b) then rd_symbolicName ` set (bu_resolved (ld_heap s b)) else {})"

abbreviation name_of :: "'c loader \<Rightarrow> nat \<Rightarrow> string" where "name_of s b \<equiv> symbolicName (ld_heap s b)"

lemma not_ready: "isResolved (ld_heap s b) \<and> list_ex (\<lambda>d. rd_symbolicName d \<notin> done_names) (bu_resolved (ld_heap s b)) \<longleftrightarrow> \<not> waits_for s b \<subseteq> done_names"
  by (auto simp: waits_for_def list_ex_iff)

lemma first_ready_Some:
  "first_ready s done_names bs = Some (pre, b, post) \<Longrightarrow> bs = pre @ b # post \<and> waits_for s b \<subseteq> done_names"
proof (induction bs arbitrary: pre)
  case (Cons x xs)
  show ?case
  proof (cases "waits_for s x \<subseteq> done_names")
    case True
    then show ?thesis using Cons.prems by (simp add: not_ready)
  next
    case False
    then obtain p where "first_ready s done_names xs = Some (p, b, post)" "pre = x # p"
      using Cons.prems by (auto simp: not_ready split: option.splits)
    then show ?thesis using Cons.IH by simp
  qed
qed simp

lemma first_ready_None: "first_ready s done_names bs = None \<longleftrightarrow> (\<forall>b \<in> set bs. \<not> waits_for s b \<subseteq> done_names)"
  by (induction bs) (auto simp: not_ready split: option.splits)

text \<open>A bundle that waits for a name which neither comes nor has come keeps the loop going for ever.\<close>

definition waits_in_vain :: "'c loader \<Rightarrow> nat list \<Rightarrow> string set \<Rightarrow> bool" where
  "waits_in_vain s remaining done_names \<longleftrightarrow>
     (\<exists>b \<in> set remaining. \<exists>n \<in> waits_for s b. n \<notin> done_names \<and> (\<forall>c \<in> set remaining. name_of s c \<noteq> n))"

lemma vain_step:
  assumes "waits_in_vain s remaining done_names" and "first_ready s done_names remaining = Some (pre, b, post)"
  shows "waits_in_vain s (pre @ post) (insert (name_of s b) done_names)"
proof -
  have fr: "remaining = pre @ b # post" "waits_for s b \<subseteq> done_names" using first_ready_Some [OF assms(2)] by simp_all
  obtain c n where c: "c \<in> set remaining" "n \<in> waits_for s c" "n \<notin> done_names" "\<forall>d \<in> set remaining. name_of s d \<noteq> n"
    using assms(1) by (auto simp: waits_in_vain_def)
  have "c \<noteq> b" using c fr(2) by blast
  then show ?thesis using c fr(1) unfolding waits_in_vain_def by (intro bexI [of _ c] bexI [of _ n]) auto
qed

lemma sort_loop_hangs:
  assumes "waits_in_vain s remaining done_names"
  shows "sort_loop s remaining done_names acc = None"
proof (rule ccontr)
  assume "sort_loop s remaining done_names acc \<noteq> None"
  then obtain y where "sort_loop s remaining done_names acc = Some y" by blast
  then have "waits_in_vain s remaining done_names \<longrightarrow> False"
  proof (rule sort_loop.raw_induct [rotated, where P = "\<lambda>s remaining done_names acc y. waits_in_vain s remaining done_names \<longrightarrow> False"])
    fix f :: "'a loader \<Rightarrow> nat list \<Rightarrow> string set \<Rightarrow> nat list \<Rightarrow> nat list option" and s remaining done_names acc y
    assume IH: "\<And>s remaining done_names acc y. f s remaining done_names acc = Some y \<Longrightarrow> waits_in_vain s remaining done_names \<longrightarrow> False"
      and body: "(if remaining = [] then Some acc
        else case first_ready s done_names remaining of
               None \<Rightarrow> f s remaining done_names acc
             | Some (pre, b, post) \<Rightarrow> f s (pre @ post) (insert (name_of s b) done_names) (acc @ [b])) = Some y"
    show "waits_in_vain s remaining done_names \<longrightarrow> False"
    proof
      assume v: "waits_in_vain s remaining done_names"
      then have "remaining \<noteq> []" by (auto simp: waits_in_vain_def)
      show False
      proof (cases "first_ready s done_names remaining")
        case None
        then show ?thesis using IH body v \<open>remaining \<noteq> []\<close> by auto
      next
        case (Some x)
        then obtain pre b post where x: "first_ready s done_names remaining = Some (pre, b, post)" by (cases x) auto
        then have "f s (pre @ post) (insert (name_of s b) done_names) (acc @ [b]) = Some y" using body \<open>remaining \<noteq> []\<close> by simp
        then show ?thesis using IH vain_step [OF v x] by blast
      qed
    qed
  qed
  then show False using assms by simp
qed

text \<open>With a rank that falls along the dependencies the loop ends, with the dependencies first.\<close>

definition ordered_after :: "'c loader \<Rightarrow> string set \<Rightarrow> nat list \<Rightarrow> bool" where
  "ordered_after s done_names bs \<longleftrightarrow> (\<forall>xs b ys. bs = xs @ b # ys \<longrightarrow> waits_for s b \<subseteq> done_names \<union> name_of s ` set xs)"

definition ranked :: "'c loader \<Rightarrow> (nat \<Rightarrow> nat) \<Rightarrow> nat list \<Rightarrow> string set \<Rightarrow> bool" where
  "ranked s rank remaining done_names \<longleftrightarrow>
     (\<forall>b \<in> set remaining. \<forall>n \<in> waits_for s b. n \<in> done_names \<or> (\<exists>d \<in> set remaining. name_of s d = n \<and> rank d < rank b))"

lemma ordered_after_Cons:
  assumes "waits_for s b \<subseteq> done_names" and "ordered_after s (insert (name_of s b) done_names) bs"
  shows "ordered_after s done_names (b # bs)"
  unfolding ordered_after_def
proof (intro allI impI)
  fix xs c ys assume "b # bs = xs @ c # ys"
  then show "waits_for s c \<subseteq> done_names \<union> name_of s ` set xs"
    using assms by (cases xs) (auto simp: ordered_after_def)
qed

lemma ranked_ready:
  assumes "ranked s rank remaining done_names" and "remaining \<noteq> []"
  shows "first_ready s done_names remaining \<noteq> None"
proof -
  obtain b where b: "b \<in> set remaining" "\<And>c. c \<in> set remaining \<Longrightarrow> rank b \<le> rank c"
    using assms(2) ex_min_if_finite [of "rank ` set remaining"] by (metis (no_types, lifting) arg_min_least arg_min_if_finite(1) finite_set set_empty)
  then have "waits_for s b \<subseteq> done_names" using assms(1) unfolding ranked_def by (meson leD subsetI)
  then show ?thesis using b(1) by (auto simp: first_ready_None)
qed

lemma sort_loop_ends:
  assumes "ranked s rank remaining done_names"
  shows "\<exists>bs. sort_loop s remaining done_names acc = Some (acc @ bs) \<and> mset bs = mset remaining \<and> ordered_after s done_names bs"
  using assms
proof (induction "length remaining" arbitrary: remaining done_names acc)
  case 0
  then show ?case by (simp add: sort_loop.simps ordered_after_def)
next
  case (Suc n)
  then have ne: "remaining \<noteq> []" by auto
  obtain pre b post where fr: "first_ready s done_names remaining = Some (pre, b, post)"
    using ranked_ready [OF Suc.prems ne] by (metis not_None_eq prod_cases3)
  have r: "remaining = pre @ b # post" "waits_for s b \<subseteq> done_names" using first_ready_Some [OF fr] by simp_all
  have "ranked s rank (pre @ post) (insert (name_of s b) done_names)"
    using Suc.prems unfolding ranked_def r(1) by (simp; metis)
  then obtain bs where bs: "sort_loop s (pre @ post) (insert (name_of s b) done_names) (acc @ [b]) = Some ((acc @ [b]) @ bs)"
      "mset bs = mset (pre @ post)" "ordered_after s (insert (name_of s b) done_names) bs"
    using Suc.hyps(1) [of "pre @ post"] Suc.hyps(2) r(1) by fastforce
  have "sort_loop s remaining done_names acc = Some (acc @ b # bs)"
    using bs(1) ne fr by (subst sort_loop.simps) simp
  then show ?case using bs(2) ordered_after_Cons [OF r(2) bs(3)] r(1) by (intro exI [of _ "b # bs"]) simp
qed

section \<open>Stopping\<close>

definition stop_actions :: "'c loader \<Rightarrow> nat \<Rightarrow> osp_action list" where
  "stop_actions s b = [Fired EV_BUNDLE_STOPPING b] @ (if bu_activator (ld_heap s b) then [ActivatorStop b] else []) @ [Fired EV_BUNDLE_STOPPED b]"

definition stops_cleanly :: "'c osp_env \<Rightarrow> bool" where
  "stops_cleanly E \<longleftrightarrow> (\<forall>tr b. ev_stop E tr b = Inr ())"

definition sorts :: "'c osp_env \<Rightarrow> bool" where
  "sorts E \<longleftrightarrow> (\<forall>k bs. mset (ev_sort E k bs) = mset bs \<and> sorted (map k (ev_sort E k bs)))"

lemma stop_run:
  assumes "stops_cleanly E" and "isActive (ld_heap s b)" and "map_of (ld_bundles s) (name_of s b) \<noteq> None"
  shows "stop E b s = Some (Inr (), with_state b BUNDLE_RESOLVED (stop_actions s b) s)"
  using assms by (simp add: stop_def stopBundle_def call_activator_def stops_cleanly_def isActive_def stop_actions_def with_state_def p_seq_def p_bind_def)

lemma in_listBundles: "b \<in> set (listBundles s) \<longleftrightarrow> b \<in> loaded s"
  by (simp add: loaded_def)

lemma stop_each:
  assumes "stops_cleanly E" and "distinct bs" and "\<forall>b \<in> set bs. map_of (ld_bundles s) (name_of s b) \<noteq> None"
  shows "\<exists>t. p_each (stop_if_active E) bs s = Some (Inr (), t) \<and>
    ld_trace t = ld_trace s @ concat (map (\<lambda>b. if isActive (ld_heap s b) then stop_actions s b else []) bs) \<and>
    (\<forall>c. bu_state (ld_heap t c) = (if c \<in> set bs \<and> isActive (ld_heap s c) then BUNDLE_RESOLVED else bu_state (ld_heap s c)))"
  using assms(2,3)
proof (induction bs arbitrary: s)
  case (Cons b bs)
  let ?t = "if isActive (ld_heap s b) then with_state b BUNDLE_RESOLVED (stop_actions s b) s else s"
  have run: "stop_if_active E b s = Some (Inr (), ?t)"
    using stop_run [OF assms(1)] Cons.prems(2) by (simp add: stop_if_active_def)
  have heap: "bu_manifest (ld_heap ?t c) = bu_manifest (ld_heap s c)" "bu_activator (ld_heap ?t c) = bu_activator (ld_heap s c)" "ld_bundles ?t = ld_bundles s" for c by simp_all
  have act: "isActive (ld_heap ?t c) = isActive (ld_heap s c)" if "c \<noteq> b" for c using that by (simp add: isActive_def)
  obtain u where u: "p_each (stop_if_active E) bs ?t = Some (Inr (), u)"
      "ld_trace u = ld_trace ?t @ concat (map (\<lambda>b. if isActive (ld_heap ?t b) then stop_actions ?t b else []) bs)"
      "\<forall>c. bu_state (ld_heap u c) = (if c \<in> set bs \<and> isActive (ld_heap ?t c) then BUNDLE_RESOLVED else bu_state (ld_heap ?t c))"
    using Cons.IH [of ?t] Cons.prems heap by auto
  have "concat (map (\<lambda>b. if isActive (ld_heap ?t b) then stop_actions ?t b else []) bs) = concat (map (\<lambda>b. if isActive (ld_heap s b) then stop_actions s b else []) bs)"
  proof (rule arg_cong [where f = concat], rule map_cong [OF refl])
    fix c assume "c \<in> set bs"
    then have "c \<noteq> b" using Cons.prems(1) by auto
    show "(if isActive (ld_heap ?t c) then stop_actions ?t c else []) = (if isActive (ld_heap s c) then stop_actions s c else [])"
      by (simp only: act [OF \<open>c \<noteq> b\<close>] stop_actions_def [of ?t c] stop_actions_def [of s c] heap)
  qed
  then have "ld_trace u = ld_trace s @ concat (map (\<lambda>b. if isActive (ld_heap s b) then stop_actions s b else []) (b # bs))"
    using u(2) by (simp add: with_state_def)
  moreover have "bu_state (ld_heap u c) = (if c \<in> set (b # bs) \<and> isActive (ld_heap s c) then BUNDLE_RESOLVED else bu_state (ld_heap s c))" for c
    using u(3) Cons.prems(1) act [of c] by (cases "c = b") (auto simp: isActive_def)
  ultimately show ?case using u(1) run by (intro exI [of _ u]) simp
qed simp

lemma distinct_listBundles:
  assumes "wf_loader s"
  shows "distinct (listBundles s)"
proof -
  have "map fst (ld_bundles s) = map (name_of s) (listBundles s)"
    using wf_entry [OF assms] by (auto simp: listBundles_def)
  then have "distinct (map (name_of s) (listBundles s))" using assms by (simp add: wf_loader_def)
  then show ?thesis by (simp add: distinct_map)
qed


text \<open>Two active bundles, the first depending on the second.\<close>

definition two_active :: "unit loader" where
  "two_active = two_bundles\<lparr>ld_heap := (\<lambda>b. (ld_heap two_bundles b)\<lparr>bu_state := BUNDLE_ACTIVE,
     bu_resolved := (if b = 0 then [\<lparr>rd_symbolicName = ''b'', rd_version = Version 1 2 0 []\<rparr>] else [])\<rparr>)\<rparr>"

lemma two_active_wf: "wf_loader two_active"
  using two_bundles_ok(1) by (simp add: wf_loader_def two_active_def)

lemma two_active_loaded: "loaded two_active = {0, 1}"
proof -
  have "loaded two_active = loaded two_bundles" by (simp add: loaded_def listBundles_def two_active_def)
  also have "\<dots> = {..<Suc (Suc 0)}" unfolding two_bundles_def sample_loaded by simp
  also have "\<dots> = {0, 1}" by (simp add: lessThan_Suc insert_commute)
  finally show ?thesis .
qed

lemma two_active_facts:
  "name_of two_active 0 = ''a''" "name_of two_active (Suc 0) = ''b''" "waits_for two_active 0 = {''b''}" "waits_for two_active (Suc 0) = {}"
  "ld_bundles two_active = [(''a'', \<lparr>bi_bundle = 0, bi_classLoader = None\<rparr>), (''b'', \<lparr>bi_bundle = Suc 0, bi_classLoader = None\<rparr>)]"
  "bu_state (ld_heap two_active c) = BUNDLE_ACTIVE" "mf_extendedBundle (bu_manifest (ld_heap two_active (Suc 0))) = []"
  "bu_activator (ld_heap two_active c) = False" "ld_trace two_active = []" "listBundles two_active = [0, Suc 0]"
  by (simp_all add: two_active_def two_bundles_def sample_loader_def new_bundle_def plain_manifest_def waits_for_def isResolved_def listBundles_def)

lemma sample_sorts: "sorts sample_env"
  by (simp add: sorts_def sample_env_def)

lemma sample_stops: "stops_cleanly sample_env"
  by (simp add: stops_cleanly_def sample_env_def)


text \<open>Once a bundle has been unloaded on which a resolved bundle depends, shutting down never returns: \<open>unloadBundle\<close> does not look
  for dependents, and the loop of \<open>sortBundles\<close>, which waits for the dependency to be sorted first, turns for ever, in
  \<open>stopAllBundles\<close> and in \<open>unloadAllBundles\<close>.\<close>

theorem shutdown_hangs_after_unload:
  assumes "wf_loader s" and "sorts E" and "d \<in> loaded s" and "b \<in> loaded s" and "b \<noteq> d" and "name_of s d \<in> waits_for s b"
    and "unloadBundle E d s = Some (Inr (), t)"
  shows "stopAllBundles E t = None \<and> unloadAllBundles E t = None"
proof -
  let ?x = "ld_heap s d"
  have detach: "p_keeps (states_kept s) (detach_extension d)"
    unfolding detach_extension_def getBundle_def removeExtensionBundle_def setBundle_def
    by (intro p_keeps_bind p_keeps_basic p_keeps_if)
      (auto intro!: p_keeps_basic states_keeps_modify simp: states_kept_def entry_names_def split: option.split)
  have drop: "p_keeps (states_kept s) (drop_activator E ?x)"
    unfolding drop_activator_def unloadActivator_def getBundle_def
    by (rule p_keeps_bind [OF p_keeps_basic(3)])
      (auto intro!: p_keeps_basic p_keeps_bind p_keeps_seq p_keeps_if class_loader_keeps split: option.split)
  have "\<not> isStarted ?x" using assms(7) by (auto simp: unloadBundle_def)
  then have "p_seq (detach_extension d) (p_seq (drop_activator E ?x) (forget_bundle d ?x)) s = Some (Inr (), t)"
    using assms(7) by (simp add: unloadBundle_def)
  then obtain u where u: "states_kept s u" "forget_bundle d ?x u = Some (Inr (), t)"
  proof (cases rule: p_seq_cases)
    case (returned x v)
    have v: "states_kept s v" by (rule p_keepsD [OF detach states_kept_refl returned(1)])
    from returned(2) show ?thesis
    proof (cases rule: p_seq_cases)
      case (returned y u)
      have "states_kept s u" by (rule p_keepsD [OF drop v returned(1)])
      then show ?thesis using that returned(2) by blast
    qed simp
  qed simp
  have t: "ld_heap t = ld_heap u" "entry_names t = filter (\<lambda>(k, c). k \<noteq> symbolicName ?x) (entry_names u)"
    using u(2) by (auto simp: forget_bundle_def map_erase_def entry_names_def filter_map comp_def split_def p_seq_def p_bind_def)
  have names: "entry_names t = filter (\<lambda>(k, c). k \<noteq> name_of s d) (entry_names s)"
    and heap: "name_of t c = name_of s c" "waits_for t c = waits_for s c" for c
    using t u(1) by (simp_all add: states_kept_def waits_for_def isResolved_def)
  have lb: "listBundles v = map snd (entry_names v)" for v :: "'a loader" by (simp add: listBundles_def entry_names_def comp_def split_def)
  have key: "(name_of s c, c) \<in> set (entry_names s)" if "c \<in> loaded s" for c
    using loaded_find [OF assms(1) that] by (auto simp: find_names dest: map_of_SomeD)
  have entry: "name_of s c = k" if "(k, c) \<in> set (entry_names s)" for k c
    using that wf_entry [OF assms(1)] by (auto simp: entry_names_def)
  have other: "name_of s b \<noteq> name_of s d" using loaded_find [OF assms(1)] assms(3-5) by (metis option.inject)
  have start: "set (by_run_level E t) = set (listBundles t)"
    by (rule mset_eq_setD) (use assms(2) in \<open>simp add: sorts_def by_run_level_def\<close>)
  have "b \<in> set (listBundles t)" unfolding lb names using key [OF assms(4)] other by force
  moreover have "name_of t c \<noteq> name_of s d" if "c \<in> set (listBundles t)" for c
    using that entry unfolding lb names heap by auto
  ultimately have "waits_in_vain t (by_run_level E t) {}"
    unfolding waits_in_vain_def start using assms(6) heap by (intro bexI [of _ b] bexI [of _ "name_of s d"]) auto
  then have "sortBundles E t = None" by (simp add: sortBundles_def sort_loop_hangs)
  then show ?thesis by (simp add: stopAllBundles_def unloadAllBundles_def sorted_bundles_def p_bind_def)
qed

lemma shutdown_hangs_after_unload_witness:
  "\<exists>t. stop sample_env 1 two_active = Some (Inr (), with_state 1 BUNDLE_RESOLVED (stop_actions two_active 1) two_active) \<and>
     unloadBundle sample_env 1 (with_state 1 BUNDLE_RESOLVED (stop_actions two_active 1) two_active) = Some (Inr (), t) \<and>
     stopAllBundles sample_env t = None"
proof -
  let ?s = "with_state 1 BUNDLE_RESOLVED (stop_actions two_active 1) two_active"
  have stop: "stop sample_env 1 two_active = Some (Inr (), ?s)"
    by (rule stop_run [OF sample_stops]) (simp_all add: isActive_def two_active_facts)
  have mf: "bu_manifest (ld_heap ?s c) = bu_manifest (ld_heap two_active c)" "ld_bundles ?s = ld_bundles two_active"
    "bu_state (ld_heap ?s (Suc 0)) = BUNDLE_RESOLVED" for c by simp_all
  obtain t where t: "unloadBundle sample_env 1 ?s = Some (Inr (), t)"
    by (simp add: unloadBundle_def isStarted_def detach_extension_def isExtensionBundle_def drop_activator_def unloadActivator_def
        forget_bundle_def p_seq_def p_bind_def two_active_facts)
  have "wf_loader ?s" using two_active_wf by (simp add: wf_loader_def)
  moreover have "loaded ?s = {0, 1}" using two_active_loaded by (simp add: loaded_def listBundles_def)
  moreover have "name_of ?s 1 \<in> waits_for ?s 0"
    using two_active_facts(2,3) by (simp add: waits_for_def isResolved_def two_active_facts split: if_splits)
  ultimately have "stopAllBundles sample_env t = None"
    using shutdown_hangs_after_unload [OF _ sample_sorts _ _ _ _ t, of 0] by simp
  then show ?thesis using stop t by blast
qed

section \<open>Starting ends\<close>

definition startable :: "'c loader \<Rightarrow> nat set" where
  "startable s = {c \<in> loaded s. bu_state (ld_heap s c) = BUNDLE_RESOLVED}"

definition start_ends :: "(nat \<Rightarrow> ('c, unit) osp) \<Rightarrow> nat \<Rightarrow> bool" where
  "start_ends st n \<longleftrightarrow> (\<forall>b s. active_ok s \<longrightarrow> b \<in> loaded s \<longrightarrow> card (startable s) < n \<longrightarrow> st b s \<noteq> None)"

lemma names_loaded:
  assumes "entry_names t = entry_names s"
  shows "loaded t = loaded s"
proof -
  have "listBundles s = map snd (entry_names s)" "listBundles t = map snd (entry_names t)"
    by (simp_all add: listBundles_def entry_names_def comp_def split_def)
  then show ?thesis using assms by (simp add: loaded_def)
qed

lemma startable_falls: "started_from s t \<Longrightarrow> card (startable t) \<le> card (startable s)"
  by (rule card_mono) (use names_loaded [of t s] in \<open>auto simp: startable_def started_from_def\<close>, metis bundle_state.distinct(21))

lemma startDependencies_end:
  assumes e: "start_ends st n" and w: "starts_well st" and "active_ok s" and "card (startable s) < n"
  shows "startDependencies st b s \<noteq> None"
proof -
  let ?one = "\<lambda>dep. p_bind (p_get (\<lambda>s. findBundle s (rd_symbolicName dep))) (\<lambda>found.
         case found of
           None \<Rightarrow> p_throw (osp_exc BundleResolveException ''A required bundle is no longer available'' (rd_symbolicName dep))
         | Some d \<Rightarrow>
             p_bind (getBundle d) (\<lambda>y.
               if same_version (bundle_version y) (rd_version dep) then
                 if \<not> isActive y then st d else p_ret ()
               else p_throw (osp_exc BundleResolveException ''A required bundle is no longer available'' (rd_symbolicName dep))))"
  have one: "?one rd s \<noteq> None \<and> (\<forall>x t. ?one rd s = Some (Inr x, t) \<longrightarrow> active_ok t \<and> card (startable t) < n)"
    if s: "active_ok s" "card (startable s) < n" for rd s
  proof (cases "findBundle s (rd_symbolicName rd)")
    case None
    then show ?thesis by simp
  next
    case (Some d)
    have st: "st d s \<noteq> None" using e s find_loaded [OF Some] unfolding start_ends_def by blast
    have ok: "active_ok t \<and> card (startable t) < n" if "st d s = Some (Inr x, t)" for x t
      using w s that startable_falls [of s t] unfolding starts_well_def by fastforce
    show ?thesis using st ok s by (auto simp: Some split: if_splits)
  qed
  have "p_each ?one deps s \<noteq> None" if "active_ok s" "card (startable s) < n" for deps s
    using that
  proof (induction deps arbitrary: s)
    case (Cons rd deps)
    have "p_each ?one deps t \<noteq> None" if "?one rd s = Some (Inr x, t)" for x t
      using one [OF Cons.prems, of rd] Cons.IH that by blast
    then show ?case using one [OF Cons.prems, of rd] unfolding p_each.simps p_seq_None by blast
  qed simp
  then show ?thesis using assms(3,4) by (simp add: startDependencies_def)
qed

lemma loadActivator_total: "p_total (loadActivator E name info)"
  unfolding loadActivator_def getBundle_def setBundle_def setClassLoader_def
  by (intro p_total_bind p_total_basic p_total_if p_total_seq)

lemma call_activator_total: "p_total (call_activator f what b)"
  unfolding call_activator_def act_def by (intro p_total_bind p_total_basic p_total_seq)

lemma startBundle_ends:
  assumes "start_ends st n" and "starts_well st" and "active_ok s" and "card (startable s) < n"
  shows "startBundle E st b s \<noteq> None"
proof -
  let ?name = "symbolicName (ld_heap s b)"
  let ?rest = "p_seq (p_modify (\<lambda>s. s\<lparr>ld_lastStarted := ?name\<rparr>))
        (p_bind (p_get (\<lambda>s. the (map_of (ld_bundles s) ?name))) (\<lambda>info.
         p_bind (loadActivator E ?name info) (\<lambda>activator.
           if activator then call_activator (ev_start E) ActivatorStart (bi_bundle info) else p_ret ())))"
  have "p_total ?rest" by (intro p_total_bind p_total_basic p_total_if p_total_seq loadActivator_total call_activator_total)
  then have rest: "?rest u \<noteq> None" for u unfolding p_total_def by blast
  have "p_seq (startDependencies st b) ?rest s \<noteq> None"
    using startDependencies_end [OF assms] rest unfolding p_seq_None by blast
  then show ?thesis by (simp add: startBundle_def)
qed

lemma start_body_ends:
  assumes e: "start_ends st n" and w: "starts_well st"
  shows "start_ends (start_body E st) (Suc n)"
  unfolding start_ends_def
proof (intro allI impI)
  fix b and s :: "'a loader" assume a: "active_ok s" and b: "b \<in> loaded s" and n: "card (startable s) < Suc n"
  show "start_body E st b s \<noteq> None"
  proof (cases "bu_state (ld_heap s b) = BUNDLE_RESOLVED")
    case True
    let ?a = "with_state b BUNDLE_STARTING [Fired EV_BUNDLE_STARTING b] s"
    have "active_ok ?a" by (rule active_ok_with_state [OF a]) (simp_all add: True isActive_def)
    moreover have "card (startable ?a) < card (startable s)"
      by (rule psubset_card_mono) (use b True names_loaded [of ?a s] in \<open>auto simp: startable_def split: if_splits\<close>)
    ultimately have "startBundle E st b ?a \<noteq> None" using startBundle_ends [OF e w] n by simp
    then show ?thesis using True by (auto simp: start_body_def p_seq_def p_bind_def p_catch_def with_state_def split: option.splits prod.splits sum.splits)
  qed (simp add: start_body_def)
qed

lemma start_start_ends: "start_ends (start E n) n"
proof (induction n)
  case 0
  then show ?case by (simp add: start_ends_def)
next
  case (Suc n)
  have "start E (Suc n) = start_body E (start E n)" by (rule ext) simp
  then show ?case using start_body_ends [OF Suc.IH start_starts_well] by simp
qed

text \<open>C25: Starting a bundle always returns (fuel for one call more than there are resolved bundles is enough, circular dependencies
  included), and on every path: a bundle is active only while everything it depends on is active in the version it was resolved
  with; bundles go from resolved to active and otherwise keep their state, so none is left starting; when it returns normally
  its bundle is active, and when it throws its bundle has the state it had.\<close>

theorem starting_a_bundle:
  assumes "active_ok s" and "b \<in> loaded s" and "card (startable s) < n"
  shows "\<exists>r t. start E n b s = Some (r, t) \<and> active_ok t \<and>
    (\<forall>c. bu_state (ld_heap t c) = bu_state (ld_heap s c) \<or> bu_state (ld_heap s c) = BUNDLE_RESOLVED \<and> bu_state (ld_heap t c) = BUNDLE_ACTIVE) \<and>
    (case r of Inr _ \<Rightarrow> isActive (ld_heap t b) | Inl _ \<Rightarrow> bu_state (ld_heap t b) = bu_state (ld_heap s b))"
proof -
  obtain r t where t: "start E n b s = Some (r, t)"
    using start_start_ends [of E n] assms unfolding start_ends_def by fastforce
  have "started_from s t \<and> active_ok t \<and> (case r of Inr _ \<Rightarrow> isActive (ld_heap t b) | Inl _ \<Rightarrow> bu_state (ld_heap t b) = bu_state (ld_heap s b))"
    using start_starts_well [of E n, unfolded starts_well_def, rule_format, OF assms(1) t] .
  then show ?thesis using t unfolding started_from_def by blast
qed

definition two_resolved :: "unit loader" where
  "two_resolved = two_active\<lparr>ld_heap := (\<lambda>b. (ld_heap two_active b)\<lparr>bu_state := BUNDLE_RESOLVED\<rparr>)\<rparr>"

lemma two_resolved_loaded: "loaded two_resolved = {0, 1}"
proof -
  have "loaded two_resolved = loaded two_active" by (simp add: loaded_def listBundles_def two_resolved_def)
  then show ?thesis using two_active_loaded by simp
qed

lemma starting_a_bundle_witness:
  "\<exists>r t. start sample_env 3 0 two_resolved = Some (r, t) \<and> active_ok t \<and>
    (case r of Inr _ \<Rightarrow> isActive (ld_heap t 0) | Inl _ \<Rightarrow> bu_state (ld_heap t 0) = BUNDLE_RESOLVED)"
proof -
  have "active_ok two_resolved" by (simp add: active_ok_def isActive_def two_resolved_def)
  moreover have "0 \<in> loaded two_resolved" by (simp add: two_resolved_loaded)
  moreover have "startable two_resolved \<subseteq> {0, 1}" using two_resolved_loaded by (auto simp: startable_def)
  then have "card (startable two_resolved) \<le> card {0, 1 :: nat}" by (rule card_mono [rotated]) simp
  then have "card (startable two_resolved) < 3" by simp
  ultimately obtain r t where t: "start sample_env 3 0 two_resolved = Some (r, t)" "active_ok t"
      "case r of Inr _ \<Rightarrow> isActive (ld_heap t 0) | Inl _ \<Rightarrow> bu_state (ld_heap t 0) = bu_state (ld_heap two_resolved 0)"
    using starting_a_bundle [of two_resolved 0 3 sample_env] by blast
  have "bu_state (ld_heap two_resolved 0) = BUNDLE_RESOLVED" by (simp add: two_resolved_def)
  then show ?thesis using t by (intro exI [of _ r] exI [of _ t]) (cases r; simp)
qed

section \<open>A library that cannot be loaded\<close>

lemma map_of_class_loader:
  "map_of (map (\<lambda>(k, i). if k = name then (k, i\<lparr>bi_classLoader := cl\<rparr>) else (k, i)) es) name = map_option (\<lambda>i. i\<lparr>bi_classLoader := cl\<rparr>) (map_of es name)"
  by (induction es) auto

text \<open>A bundle whose library could not be loaded starts at the second attempt without its activator: the first attempt throws, but
  leaves the class loader behind, and the second takes it as the sign that the activator is loaded. The bundle is then active
  although nothing of it runs; and it can no longer be unloaded, because the class loader does not know the library.\<close>

theorem failed_library_starts_empty:
  assumes "bu_state (ld_heap s b) = BUNDLE_RESOLVED" and "bu_resolved (ld_heap s b) = []" and "\<not> bu_activator (ld_heap s b)"
    and "mf_activatorClass (bu_manifest (ld_heap s b)) \<noteq> []" and "mf_extendedBundle (bu_manifest (ld_heap s b)) = []"
    and "map_of (ld_bundles s) (name_of s b) = Some \<lparr>bi_bundle = b, bi_classLoader = None\<rparr>"
    and "ev_dlopen E (ld_cache s) (libraryPathFor E s (ld_heap s b)) = Inl e"
  shows "\<exists>t u v. start E (Suc n) b s = Some (Inl e, t) \<and> start E (Suc n) b t = Some (Inr (), u) \<and>
    isActive (ld_heap u b) \<and> \<not> bu_activator (ld_heap u b) \<and>
    ld_trace u = ld_trace s @ [Fired EV_BUNDLE_STARTING b, Fired EV_BUNDLE_FAILED b, Fired EV_BUNDLE_STARTING b, Fired EV_BUNDLE_STARTED b] \<and>
    unloadBundle E b t = Some (Inl (NotFoundException (libraryPathFor E s (ld_heap s b))), v) \<and> findBundle v (name_of s b) = Some b"
proof -
  let ?name = "name_of s b"
  let ?bs = "map (\<lambda>(k, i). if k = ?name then (k, i\<lparr>bi_classLoader := Some []\<rparr>) else (k, i)) (ld_bundles s)"
  define t where "t = s\<lparr>ld_bundles := ?bs, ld_lastStarted := ?name, ld_trace := ld_trace s @ [Fired EV_BUNDLE_STARTING b, Fired EV_BUNDLE_FAILED b],
    ld_heap := (ld_heap s)(b := (ld_heap s b)\<lparr>bu_state := BUNDLE_RESOLVED\<rparr>)\<rparr>"
  define u where "u = t\<lparr>ld_trace := ld_trace t @ [Fired EV_BUNDLE_STARTING b, Fired EV_BUNDLE_STARTED b],
    ld_heap := (ld_heap t)(b := (ld_heap t b)\<lparr>bu_state := BUNDLE_ACTIVE\<rparr>)\<rparr>"
  have path: "libraryPathFor E x y = pathFor (ev_paths E) (ev_suffix E) (ld_cache x) (libraryNameFor y) True" for x y by (simp add: libraryPathFor_def)
  have name: "libraryNameFor (y\<lparr>bu_state := st\<rparr>) = libraryNameFor y" for y st by (simp add: libraryNameFor_def)
  have info: "map_of ?bs ?name = Some \<lparr>bi_bundle = b, bi_classLoader = Some []\<rparr>"
    using assms(6) map_of_class_loader [of ?name "Some []" "ld_bundles s"] by simp
  have dl: "ev_dlopen E (ld_cache s) (pathFor (ev_paths E) (ev_suffix E) (ld_cache s) (libraryNameFor (ld_heap s b)) True) = Inl e"
    using assms(7) by (simp add: path)
  have first: "start E (Suc n) b s = Some (Inl e, t)"
    using assms(1-6) dl
    by (simp add: start_body_def startBundle_def startDependencies_def loadActivator_def setClassLoader_def path name t_def)
  have second: "start E (Suc n) b t = Some (Inr (), u)"
    using assms(2-4) info
    by (simp add: start_body_def startBundle_def startDependencies_def loadActivator_def u_def t_def)
  have "unloadBundle E b t = Some (Inl (NotFoundException (libraryPathFor E s (ld_heap s b))), t)"
    using assms(4,5) info
    by (simp add: unloadBundle_def isStarted_def detach_extension_def isExtensionBundle_def drop_activator_def unloadActivator_def path name t_def)
  moreover have "findBundle t ?name = Some b" using info by (simp add: findBundle_def t_def)
  moreover have "isActive (ld_heap u b)" "\<not> bu_activator (ld_heap u b)"
    "ld_trace u = ld_trace s @ [Fired EV_BUNDLE_STARTING b, Fired EV_BUNDLE_FAILED b, Fired EV_BUNDLE_STARTING b, Fired EV_BUNDLE_STARTED b]"
    using assms(3) by (simp_all add: u_def t_def isActive_def)
  ultimately show ?thesis using first second by blast
qed

definition one_resolved :: "unit loader" where
  "one_resolved = (sample_loader [(plain_manifest ''a'' (Version 1 0 0 []))\<lparr>mf_activatorClass := ''Act''\<rparr>])
     \<lparr>ld_heap := (\<lambda>b. (new_bundle ''/bundles/a.bndl'' ((plain_manifest ''a'' (Version 1 0 0 []))\<lparr>mf_activatorClass := ''Act''\<rparr>) [])\<lparr>bu_state := BUNDLE_RESOLVED\<rparr>)\<rparr>"

lemma failed_library_starts_empty_witness:
  "\<exists>t u. start (sample_env\<lparr>ev_dlopen := (\<lambda>c p. Inl (PocoException ''Cannot load library''))\<rparr>) 1 0 one_resolved = Some (Inl (PocoException ''Cannot load library''), t) \<and>
     start (sample_env\<lparr>ev_dlopen := (\<lambda>c p. Inl (PocoException ''Cannot load library''))\<rparr>) 1 0 t = Some (Inr (), u) \<and> isActive (ld_heap u 0)"
proof -
  let ?E = "sample_env\<lparr>ev_dlopen := (\<lambda>c p. Inl (PocoException ''Cannot load library''))\<rparr>"
  have facts: "bu_state (ld_heap one_resolved 0) = BUNDLE_RESOLVED" "bu_resolved (ld_heap one_resolved 0) = []" "\<not> bu_activator (ld_heap one_resolved 0)"
    "mf_activatorClass (bu_manifest (ld_heap one_resolved 0)) \<noteq> []" "mf_extendedBundle (bu_manifest (ld_heap one_resolved 0)) = []"
    "map_of (ld_bundles one_resolved) (name_of one_resolved 0) = Some \<lparr>bi_bundle = 0, bi_classLoader = None\<rparr>"
    by (simp_all add: one_resolved_def sample_loader_def new_bundle_def plain_manifest_def)
  show ?thesis
    using failed_library_starts_empty [OF facts, of ?E "PocoException ''Cannot load library''" 0] by simp blast
qed

end
