(* ===== verification/OspRepository.thy ===== *)
theory OspRepository
  imports OspLifecycle
begin

text \<open>
  \<open>OSP/src/BundleRepository.cpp\<close>: finding the bundles in the directories of the repository, choosing among
  versions, and installing and replacing bundles. The directory tree comes in as the list of the entries the
  globbing and the directory iterator yield.
\<close>

section \<open>Loading the repository\<close>

text \<open>
  An entry of a directory: hidden or not, a directory or not, and whether it then has a \<open>META-INF\<close>
  directory; or the exception met when it is looked at. A hit of the globbing: a file, a directory with
  its entries, or neither.
\<close>

record directory_item =
  di_path :: string
  di_look :: "exc + (bool \<times> bool \<times> bool)"

record glob_hit =
  gh_path :: string
  gh_exists :: bool
  gh_isFile :: bool
  gh_isDirectory :: bool
  gh_bndl :: bool   \<comment> \<open>its extension is \<open>bndl\<close>, in whatever case\<close>
  gh_items :: "exc + directory_item list"

record repository =
  rp_paths :: "string list"
  rp_directory :: "string \<Rightarrow> string"   \<comment> \<open>a path read by \<open>Poco::Path\<close> and printed as a directory\<close>
  rp_glob :: "string \<Rightarrow> exc + glob_hit list"
  rp_filter :: "(osp_bundle \<Rightarrow> bool) option"

definition newRepository :: "string list \<Rightarrow> (string \<Rightarrow> string) \<Rightarrow> (string \<Rightarrow> exc + glob_hit list) \<Rightarrow> (osp_bundle \<Rightarrow> bool) option \<Rightarrow> exc + repository" where
  "newRepository paths dir glob accept =
     (if paths = [] then Inl (InvalidArgumentException ''At least one path must be supplied to a BundleRepository'')
      else Inr \<lparr>rp_paths = paths, rp_directory = dir, rp_glob = glob, rp_filter = accept\<rparr>)"

text \<open>\<open>tokenize\<close> is \<open>Poco::StringTokenizer\<close> with \<open>TOK_IGNORE_EMPTY | TOK_TRIM\<close>, given the separators and the text.\<close>

definition newRepositoryFromPath :: "(string \<Rightarrow> string \<Rightarrow> string list) \<Rightarrow> string \<Rightarrow> (string \<Rightarrow> string) \<Rightarrow> (string \<Rightarrow> exc + glob_hit list) \<Rightarrow>
    (osp_bundle \<Rightarrow> bool) option \<Rightarrow> exc + repository" where
  "newRepositoryFromPath tokenize path dir glob accept = newRepository (tokenize '':;'' path) dir glob accept"

text \<open>The bundles found so far, by symbolic name.\<close>

type_synonym found_bundles = "(string \<times> nat) list"

definition choose_version :: "osp_bundle \<Rightarrow> nat \<Rightarrow> 'c loader \<Rightarrow> found_bundles \<Rightarrow> found_bundles" where
  "choose_version x b s found =
     (case map_of found (symbolicName x) of
        None \<Rightarrow> map_insert (symbolicName x) b found
      | Some c \<Rightarrow> if bundle_version (ld_heap s c) \<le> bundle_version x then map_insert (symbolicName x) b found else found)"

text \<open>\<open>BundleRepository::loadBundle\<close>.\<close>

definition findBundleFile :: "'c osp_env \<Rightarrow> (osp_bundle \<Rightarrow> bool) option \<Rightarrow> string \<Rightarrow> found_bundles \<Rightarrow> ('c, found_bundles) osp" where
  "findBundleFile E accept path found =
     p_bind (createBundle E path) (\<lambda>b.
     p_bind (getBundle b) (\<lambda>x.
       if (case accept of None \<Rightarrow> False | Some f \<Rightarrow> \<not> f x) then p_ret found
       else p_get (\<lambda>s. choose_version x b s found)))"

text \<open>The exception of one candidate is logged, and the next one is looked at.\<close>

definition try_bundle :: "'c osp_env \<Rightarrow> (osp_bundle \<Rightarrow> bool) option \<Rightarrow> string \<Rightarrow> found_bundles \<Rightarrow> ('c, found_bundles) osp" where
  "try_bundle E accept path found = p_catch (findBundleFile E accept path found) (\<lambda>e. p_ret found)"

fun load_items :: "'c osp_env \<Rightarrow> (osp_bundle \<Rightarrow> bool) option \<Rightarrow> directory_item list \<Rightarrow> found_bundles \<Rightarrow> ('c, found_bundles) osp" where
  "load_items E accept [] found = p_ret found"
| "load_items E accept (i # is) found =
     p_bind
       (case di_look i of
          Inl e \<Rightarrow> p_ret found
        | Inr (hidden, directory, metaInf) \<Rightarrow>
            if \<not> hidden \<and> (\<not> directory \<or> metaInf) then try_bundle E accept (di_path i) found else p_ret found)
       (load_items E accept is)"

text \<open>\<open>BundleRepository::loadBundles(path, bundles)\<close>.\<close>

fun load_hits :: "'c osp_env \<Rightarrow> (osp_bundle \<Rightarrow> bool) option \<Rightarrow> glob_hit list \<Rightarrow> found_bundles \<Rightarrow> ('c, found_bundles \<times> exc option) osp" where
  "load_hits E accept [] found = p_ret (found, None)"
| "load_hits E accept (h # hs) found =
     (if gh_exists h then
        if gh_isFile h \<or> (gh_isDirectory h \<and> gh_bndl h)
        then p_bind (try_bundle E accept (gh_path h) found) (load_hits E accept hs)
        else case gh_items h of
               Inl e \<Rightarrow> p_ret (found, Some e)
             | Inr is \<Rightarrow> p_bind (load_items E accept is found) (load_hits E accept hs)
      else load_hits E accept hs found)"

text \<open>An exception of the file system ends the path; what it has found so far stays found.\<close>

fun load_paths :: "'c osp_env \<Rightarrow> repository \<Rightarrow> string list \<Rightarrow> found_bundles \<Rightarrow> ('c, found_bundles) osp" where
  "load_paths E R [] found = p_ret found"
| "load_paths E R (path # paths) found =
     p_bind
       (case rp_glob R path of
          Inl e \<Rightarrow> p_ret (found, Some e)
        | Inr hs \<Rightarrow> load_hits E (rp_filter R) hs found)
       (\<lambda>(found', failed). load_paths E R paths found')"

definition loadBundles :: "'c osp_env \<Rightarrow> repository \<Rightarrow> ('c, unit) osp" where
  "loadBundles E R = p_bind (load_paths E R (rp_paths R) []) (\<lambda>found. p_each (\<lambda>(name, b). loadBundle b) found)"

section \<open>Installing\<close>

text \<open>The serial number is shared by all repositories: the name, and the number that comes next.\<close>

definition tempBundleName :: "32 word \<Rightarrow> string \<times> 32 word" where
  "tempBundleName serial = (''tmp.bundle-'' @ show_nat (unat serial), serial + 1)"

definition removeBundle :: "'c osp_env \<Rightarrow> string \<Rightarrow> ('c, unit) osp" where
  "removeBundle E name =
     p_bind (p_get (\<lambda>s. findBundle s name)) (\<lambda>found.
       case found of
         None \<Rightarrow> p_ret ()
       | Some b \<Rightarrow>
           p_bind (getBundle b) (\<lambda>x.
           p_seq (if bu_state x = BUNDLE_ACTIVE then stop E b else p_ret ())
                 (p_bind (getBundle b) (\<lambda>y.
                    if bu_state y = BUNDLE_RESOLVED \<or> bu_state y = BUNDLE_INSTALLED then uninstall E b
                    else p_throw (osp_exc BundleStateException ''Cannot remove bundle in state'' (stateString (bu_state y)))))))"

text \<open>The name under which a bundle is stored.\<close>

definition stored_name :: "osp_bundle \<Rightarrow> string" where
  "stored_name x = symbolicName x @ ''_'' @ version_toString (bundle_version x) @ ''.bndl''"

definition writeFile :: "string \<Rightarrow> 'c \<Rightarrow> ('c, unit) osp" where
  "writeFile path c = p_modify (\<lambda>s. s\<lparr>ld_files := (ld_files s)(path \<mapsto> \<lparr>nd_kind = NodeFile, nd_content = c\<rparr>)\<rparr>)"

text \<open>\<open>ok\<close> tells whether the file system allows the renaming.\<close>

definition renameFile :: "bool \<Rightarrow> string \<Rightarrow> string \<Rightarrow> ('c, unit) osp" where
  "renameFile ok from to =
     p_bind (p_get (\<lambda>s. ld_files s from)) (\<lambda>f.
       case f of
         None \<Rightarrow> p_throw (FileNotFoundException from)
       | Some nd \<Rightarrow> if \<not> ok then p_throw (FileException from)
                   else p_modify (\<lambda>s. s\<lparr>ld_files := (ld_files s)(from := None, to \<mapsto> nd)\<rparr>))"

text \<open>
  \<open>BundleRepository::installBundleImpl\<close>; \<open>old\<close> is the name of the bundle to be replaced, empty when there is none.
  \<open>path\<close> ends with a slash, \<open>tmp\<close> is the temporary name in it; \<open>writable\<close> and \<open>renamable\<close> tell what the file
  system allows. The handler removes the file under the name it has by then.
\<close>

definition prepareInstall :: "'c osp_env \<Rightarrow> bool \<Rightarrow> string \<Rightarrow> string \<Rightarrow> string \<Rightarrow> ('c, string) osp" where
  "prepareInstall E renamable path tmp old =
     p_bind (createBundle E tmp) (\<lambda>b.
     p_bind (getBundle b) (\<lambda>x.
     p_bind (p_get (\<lambda>s. findBundle s (symbolicName x))) (\<lambda>existing.
       if old \<noteq> symbolicName x \<and> existing \<noteq> None
       then p_throw (osp_exc BundleInstallException ''A bundle with the same symbolic name is already installed'' (symbolicName x))
       else
         p_seq (if old \<noteq> [] then removeBundle E old else p_ret ())
        (p_seq (renameFile renamable tmp (path @ stored_name x))
               (p_ret (path @ stored_name x))))))"

definition discardFile :: "'c osp_env \<Rightarrow> string \<Rightarrow> exc \<Rightarrow> ('c, 'a) osp" where
  "discardFile E path e = p_seq (p_catch (removeFile E path) (\<lambda>x. p_ret ())) (p_throw e)"

definition installBundleImpl :: "'c osp_env \<Rightarrow> bool \<Rightarrow> bool \<Rightarrow> string \<Rightarrow> 'c \<Rightarrow> string \<Rightarrow> string \<Rightarrow> ('c, nat) osp" where
  "installBundleImpl E writable renamable tmp content path old =
     (if \<not> writable then p_throw (FileException tmp)
      else
        p_seq (writeFile tmp content)
       (p_bind (p_catch (prepareInstall E renamable path tmp old) (discardFile E tmp)) (\<lambda>np.
          p_catch (loadBundleFrom E np) (discardFile E np))))"

text \<open>\<open>BundleRepository::installBundle\<close>: into the given path of the repository, or into the first one.\<close>

definition installBundle :: "'c osp_env \<Rightarrow> bool \<Rightarrow> bool \<Rightarrow> repository \<Rightarrow> 32 word \<Rightarrow> 'c \<Rightarrow> string option \<Rightarrow> string \<Rightarrow> ('c, nat) osp" where
  "installBundle E writable renamable R serial content into old =
     (let dir = rp_directory R (case into of Some path \<Rightarrow> path | None \<Rightarrow> hd (rp_paths R)) in
      if rp_paths R = [] then p_throw (PocoException ''Assertion violation: !_paths.empty()'')
      else installBundleImpl E writable renamable (dir @ fst (tempBundleName serial)) content dir old)"

section \<open>Sorted maps\<close>

lemma map_of_insert: "map_of (map_insert k x m) = (map_of m)(k \<mapsto> x)" if "sorted_wrt (<) (map fst m)" for k :: string
  using that
proof (induction k x m rule: map_insert.induct)
  case (2 k x k' x' m)
  have tail: "\<forall>y \<in> set (map fst m). k' < y" using 2 by simp
  consider "k < k'" | "k = k'" | "k' < k" by (rule linorder_cases)
  then show ?case using 2 by cases (auto simp: fun_eq_iff)
qed simp

lemma set_map_insert: "set (map fst (map_insert k x m)) = insert k (set (map fst m))" for k :: string
  by (induction k x m rule: map_insert.induct) auto

lemma sorted_map_insert: "sorted_wrt (<) (map fst m) \<Longrightarrow> sorted_wrt (<) (map fst (map_insert k x m))" for k :: string
proof (induction k x m rule: map_insert.induct)
  case (2 k x k' x' m)
  have tail: "\<forall>y \<in> set (map fst m). k' < y" using 2 by simp
  consider "k < k'" | "k = k'" | "k' < k" by (rule linorder_cases)
  then show ?case
  proof cases
    case 1
    then show ?thesis using 2 tail by (auto intro: less_trans)
  next
    case 2
    then show ?thesis using "2.prems" by simp
  next
    case 3
    then have "sorted_wrt (<) (map fst (map_insert k x m))" using 2 by auto
    moreover have "\<forall>y \<in> set (map fst (map_insert k x m)). k' < y" using tail 3 unfolding set_map_insert by simp
    ultimately show ?thesis using 3 by (simp add: less_not_sym)
  qed
qed simp

section \<open>What a path offers\<close>

text \<open>The bundle a file or directory holds, and whether reading its manifest ends.\<close>

definition bundle_at :: "'c osp_env \<Rightarrow> 'c loader \<Rightarrow> string \<Rightarrow> osp_bundle option" where
  "bundle_at E s path =
     (case ld_files s path of
        None \<Rightarrow> None
      | Some nd \<Rightarrow>
          if nd_kind nd = NodeOther then None
          else case ev_storage E (nd_content nd) of
                 Inl e \<Rightarrow> None
               | Inr st \<Rightarrow>
                   (case st_manifest st of
                      None \<Rightarrow> None
                    | Some p \<Rightarrow> (case parseManifest p of Some (Inr m) \<Rightarrow> Some (new_bundle path m (st_libraries st)) | _ \<Rightarrow> None)))"

definition manifest_ends :: "'c osp_env \<Rightarrow> 'c loader \<Rightarrow> string \<Rightarrow> bool" where
  "manifest_ends E s path \<longleftrightarrow>
     (\<forall>nd st p. ld_files s path = Some nd \<longrightarrow> ev_storage E (nd_content nd) = Inr st \<longrightarrow> st_manifest st = Some p \<longrightarrow> parseManifest p \<noteq> None)"

text \<open>The paths at which the repository looks for a bundle.\<close>

definition offered_items :: "directory_item list \<Rightarrow> string list" where
  "offered_items is = map di_path (filter (\<lambda>i. case di_look i of Inl e \<Rightarrow> False | Inr (hidden, directory, metaInf) \<Rightarrow> \<not> hidden \<and> (\<not> directory \<or> metaInf)) is)"

fun offered_hits :: "glob_hit list \<Rightarrow> string list" where
  "offered_hits [] = []"
| "offered_hits (h # hs) =
     (if \<not> gh_exists h then offered_hits hs
      else if gh_isFile h \<or> (gh_isDirectory h \<and> gh_bndl h) then gh_path h # offered_hits hs
      else case gh_items h of Inl e \<Rightarrow> [] | Inr is \<Rightarrow> offered_items is @ offered_hits hs)"

definition offered :: "repository \<Rightarrow> string list \<Rightarrow> string list" where
  "offered R paths = concat (map (\<lambda>path. case rp_glob R path of Inl e \<Rightarrow> [] | Inr hs \<Rightarrow> offered_hits hs) paths)"

definition candidates :: "'c osp_env \<Rightarrow> 'c loader \<Rightarrow> (osp_bundle \<Rightarrow> bool) option \<Rightarrow> string list \<Rightarrow> osp_bundle set" where
  "candidates E s accept ps = {x. (\<exists>path \<in> set ps. bundle_at E s path = Some x) \<and> (case accept of None \<Rightarrow> True | Some f \<Rightarrow> f x)}"

lemma bundle_at_files: "ld_files s = ld_files t \<Longrightarrow> bundle_at E s path = bundle_at E t path"
  by (simp add: bundle_at_def)

lemma manifest_ends_files: "ld_files s = ld_files t \<Longrightarrow> manifest_ends E s path = manifest_ends E t path"
  by (simp add: manifest_ends_def)

lemma candidates_snoc: "candidates E s accept (ps @ [path]) =
    candidates E s accept ps \<union> {x. bundle_at E s path = Some x \<and> (case accept of None \<Rightarrow> True | Some f \<Rightarrow> f x)}"
  by (auto simp: candidates_def)

lemma createBundle_works:
  assumes "bundle_at E s path = Some x"
  shows "createBundle E path s = Some (Inr (ld_next s), s\<lparr>ld_next := ld_next s + 1, ld_heap := (ld_heap s)(ld_next s := x)\<rparr>)"
  using assms
  by (auto simp: bundle_at_def createBundle_def nextBundleId_def constructBundle_def p_seq_def p_bind_def
      split: option.splits sum.splits if_splits)

lemma createBundle_fails:
  assumes none: "bundle_at E s path = None" and ends: "manifest_ends E s path"
  shows "\<exists>e t. createBundle E path s = Some (Inl e, t) \<and> (t = s \<or> t = s\<lparr>ld_next := ld_next s + 1\<rparr>)"
proof (cases "ld_files s path")
  case None
  then show ?thesis by (simp add: createBundle_def)
next
  case (Some nd)
  show ?thesis
  proof (cases "nd_kind nd = NodeOther")
    case True
    then show ?thesis using Some by (simp add: createBundle_def)
  next
    case other: False
    show ?thesis
    proof (cases "ev_storage E (nd_content nd)")
      case (Inl e)
      then show ?thesis using Some other by (simp add: createBundle_def)
    next
      case (Inr st)
      have "createBundle E path s = constructBundle (ld_next s) path st (s\<lparr>ld_next := ld_next s + 1\<rparr>)"
        using Some other Inr by (simp add: createBundle_def nextBundleId_def p_seq_def p_bind_def)
      moreover have "\<exists>e. constructBundle (ld_next s) path st (s\<lparr>ld_next := ld_next s + 1\<rparr>) = Some (Inl e, s\<lparr>ld_next := ld_next s + 1\<rparr>)"
        using none ends Some other Inr
        by (auto simp: bundle_at_def manifest_ends_def constructBundle_def p_bind_def split: option.splits sum.splits)
      ultimately show ?thesis by auto
    qed
  qed
qed

section \<open>Choosing the highest version\<close>

definition best_of :: "'c osp_env \<Rightarrow> 'c loader \<Rightarrow> (osp_bundle \<Rightarrow> bool) option \<Rightarrow> string list \<Rightarrow> found_bundles \<Rightarrow> 'c loader \<Rightarrow> bool" where
  "best_of E s0 accept ps found s \<longleftrightarrow>
     ld_bundles s = ld_bundles s0 \<and> ld_files s = ld_files s0 \<and> sorted_wrt (<) (map fst found) \<and>
     (\<forall>(n, c) \<in> set found. c < ld_next s \<and> symbolicName (ld_heap s c) = n \<and> ld_heap s c \<in> candidates E s0 accept ps) \<and>
     (\<forall>x \<in> candidates E s0 accept ps. \<exists>c. map_of found (symbolicName x) = Some c \<and> bundle_version x \<le> bundle_version (ld_heap s c))"

lemma best_of_start: "ld_bundles s = ld_bundles s0 \<Longrightarrow> ld_files s = ld_files s0 \<Longrightarrow> best_of E s0 accept [] [] s"
  by (simp add: best_of_def candidates_def)

lemma best_of_no_candidate:
  "best_of E s0 accept ps found s \<Longrightarrow> candidates E s0 accept (ps @ qs) = candidates E s0 accept ps \<Longrightarrow> best_of E s0 accept (ps @ qs) found s"
  by (simp add: best_of_def)

lemma best_of_next: "best_of E s0 accept ps found s \<Longrightarrow> best_of E s0 accept ps found (s\<lparr>ld_next := ld_next s + 1\<rparr>)"
  by (fastforce simp: best_of_def)

text \<open>A fresh object that is not chosen changes nothing.\<close>

lemma best_of_fresh: "best_of E s0 accept ps found s \<Longrightarrow> best_of E s0 accept ps found (s\<lparr>ld_next := ld_next s + 1, ld_heap := (ld_heap s)(ld_next s := x)\<rparr>)"
proof -
  assume best: "best_of E s0 accept ps found s"
  have "c \<noteq> ld_next s" if "map_of found n = Some c" for n c
    using best map_of_SomeD [OF that] by (fastforce simp: best_of_def)
  then show ?thesis using best by (fastforce simp: best_of_def)
qed

lemma choose_version_lookup:
  assumes "sorted_wrt (<) (map fst found)"
  shows "map_of (choose_version x b t found) n =
      (if n = symbolicName x \<and> (\<forall>c. map_of found n = Some c \<longrightarrow> bundle_version (ld_heap t c) \<le> bundle_version x) then Some b else map_of found n)"
  by (auto simp: choose_version_def map_of_insert [OF assms] split: option.splits)

lemma choose_version_sorted: "sorted_wrt (<) (map fst found) \<Longrightarrow> sorted_wrt (<) (map fst (choose_version x b t found))"
  using sorted_map_insert by (auto simp: choose_version_def split: option.splits)

lemma best_of_chosen:
  assumes best: "best_of E s0 accept ps found s" and b: "b < ld_next s"
    and grows: "candidates E s0 accept qs = insert (ld_heap s b) (candidates E s0 accept ps)"
  shows "best_of E s0 accept qs (choose_version (ld_heap s b) b s found) s"
proof -
  let ?x = "ld_heap s b" and ?found = "choose_version (ld_heap s b) b s found"
  have sorted: "sorted_wrt (<) (map fst found)" using best by (simp add: best_of_def)
  note lookup = choose_version_lookup [OF sorted]
  have "distinct (map fst ?found)" using choose_version_sorted [OF sorted, of ?x b s] by (simp add: strict_sorted_iff)
  then have entry: "map_of ?found n = Some c" if "(n, c) \<in> set ?found" for n c using that by simp
  have ok: "c < ld_next s \<and> symbolicName (ld_heap s c) = n \<and> ld_heap s c \<in> candidates E s0 accept qs" if "(n, c) \<in> set ?found" for n c
  proof (cases "n = symbolicName ?x \<and> c = b")
    case False
    then have "map_of found n = Some c" using entry [OF that] unfolding lookup by (auto split: if_splits)
    then show ?thesis using best grows map_of_SomeD by (fastforce simp: best_of_def)
  qed (use b grows in simp)
  have "\<exists>c. map_of ?found (symbolicName y) = Some c \<and> bundle_version y \<le> bundle_version (ld_heap s c)"
    if "y \<in> candidates E s0 accept qs" for y
  proof (cases "y = ?x")
    case True
    then show ?thesis using version_linear [of "bundle_version ?x"] unfolding lookup by (auto split: if_splits)
  next
    case False
    then have "y \<in> candidates E s0 accept ps" using grows that by simp
    then obtain d where "map_of found (symbolicName y) = Some d" "bundle_version y \<le> bundle_version (ld_heap s d)"
      using best unfolding best_of_def by blast
    then show ?thesis unfolding lookup by (auto intro: order_trans)
  qed
  then show ?thesis
    using best ok choose_version_sorted [OF sorted] by (auto simp: best_of_def)
qed

text \<open>Looking at one candidate path.\<close>

lemma try_bundle_step:
  assumes best: "best_of E s0 accept ps found s" and ends: "manifest_ends E s0 path"
  shows "\<exists>found' t. try_bundle E accept path found s = Some (Inr found', t) \<and> best_of E s0 accept (ps @ [path]) found' t"
proof -
  have files: "ld_files s = ld_files s0" using best by (simp add: best_of_def)
  note at = bundle_at_files [OF files, of E path]
  show ?thesis
  proof (cases "bundle_at E s0 path")
    case None
    then obtain e t where run: "createBundle E path s = Some (Inl e, t)" and t: "t = s \<or> t = s\<lparr>ld_next := ld_next s + 1\<rparr>"
      using createBundle_fails [of E s path] ends at manifest_ends_files [OF files, of E path] by auto
    have "best_of E s0 accept ps found t" using t best best_of_next by blast
    moreover have "candidates E s0 accept (ps @ [path]) = candidates E s0 accept ps" using None by (simp add: candidates_snoc)
    moreover have "try_bundle E accept path found s = Some (Inr found, t)" using run by (simp add: try_bundle_def findBundleFile_def)
    ultimately show ?thesis using best_of_no_candidate by blast
  next
    case (Some x)
    let ?t = "s\<lparr>ld_next := ld_next s + 1, ld_heap := (ld_heap s)(ld_next s := x)\<rparr>"
    let ?ok = "case accept of None \<Rightarrow> True | Some f \<Rightarrow> f x"
    have run: "createBundle E path s = Some (Inr (ld_next s), ?t)" using Some at by (intro createBundle_works) simp
    have best': "best_of E s0 accept ps found ?t" using best by (rule best_of_fresh)
    show ?thesis
    proof (cases ?ok)
      case True
      then have "try_bundle E accept path found s = Some (Inr (choose_version x (ld_next s) ?t found), ?t)"
        using run by (auto simp: try_bundle_def findBundleFile_def split: option.splits)
      moreover have "best_of E s0 accept (ps @ [path]) (choose_version (ld_heap ?t (ld_next s)) (ld_next s) ?t found) ?t"
        using True Some by (intro best_of_chosen [OF best']) (auto simp: candidates_snoc)
      ultimately show ?thesis by simp
    next
      case False
      then have "try_bundle E accept path found s = Some (Inr found, ?t)"
        using run by (auto simp: try_bundle_def findBundleFile_def split: option.splits)
      moreover have "candidates E s0 accept (ps @ [path]) = candidates E s0 accept ps" using False Some by (auto simp: candidates_snoc)
      ultimately show ?thesis using best_of_no_candidate [OF best'] by blast
    qed
  qed
qed

definition searches :: "'c osp_env \<Rightarrow> 'c loader \<Rightarrow> (osp_bundle \<Rightarrow> bool) option \<Rightarrow> string list \<Rightarrow> (found_bundles \<Rightarrow> ('c, found_bundles) osp) \<Rightarrow> bool" where
  "searches E s0 accept qs m \<longleftrightarrow>
     (\<forall>ps found s. best_of E s0 accept ps found s \<longrightarrow> (\<exists>found' t. m found s = Some (Inr found', t) \<and> best_of E s0 accept (ps @ qs) found' t))"

lemma searches_ret [simp]: "searches E s0 accept [] p_ret"
  by (auto simp: searches_def)

lemma searches_bind:
  assumes "searches E s0 accept ps m" and "searches E s0 accept qs n"
  shows "searches E s0 accept (ps @ qs) (\<lambda>found. p_bind (m found) n)"
  unfolding searches_def
proof (intro allI impI)
  fix rs found s assume "best_of E s0 accept rs found s"
  then obtain found' t where "m found s = Some (Inr found', t)" "best_of E s0 accept (rs @ ps) found' t"
    using assms(1) unfolding searches_def by blast
  moreover from this obtain found'' u where "n found' t = Some (Inr found'', u)" "best_of E s0 accept ((rs @ ps) @ qs) found'' u"
    using assms(2) unfolding searches_def by blast
  ultimately show "\<exists>found' t. p_bind (m found) n s = Some (Inr found', t) \<and> best_of E s0 accept (rs @ ps @ qs) found' t" by simp
qed

lemma try_bundle_searches: "manifest_ends E s0 path \<Longrightarrow> searches E s0 accept [path] (try_bundle E accept path)"
  unfolding searches_def using try_bundle_step by blast

lemma load_items_searches: "\<forall>path \<in> set (offered_items is). manifest_ends E s0 path \<Longrightarrow> searches E s0 accept (offered_items is) (load_items E accept is)"
proof (induction "is")
  case Nil
  then show ?case by (simp add: offered_items_def searches_def)
next
  case (Cons i "is")
  let ?one = "offered_items [i]"
  have split: "offered_items (i # is) = ?one @ offered_items is" by (simp add: offered_items_def)
  have "searches E s0 accept ?one
      (\<lambda>found. case di_look i of Inl e \<Rightarrow> p_ret found
        | Inr (hidden, directory, metaInf) \<Rightarrow> if \<not> hidden \<and> (\<not> directory \<or> metaInf) then try_bundle E accept (di_path i) found else p_ret found)"
  proof (cases "?one = []")
    case True
    then have "(\<lambda>found. case di_look i of Inl e \<Rightarrow> p_ret found
        | Inr (hidden, directory, metaInf) \<Rightarrow> if \<not> hidden \<and> (\<not> directory \<or> metaInf) then try_bundle E accept (di_path i) found else p_ret found) = p_ret"
      by (auto simp: offered_items_def fun_eq_iff split: sum.splits if_splits)
    then show ?thesis using True by simp
  next
    case False
    then obtain hidden directory metaInf where i: "di_look i = Inr (hidden, directory, metaInf)" "\<not> hidden \<and> (\<not> directory \<or> metaInf)"
      by (auto simp: offered_items_def split: sum.splits if_splits)
    then have one: "?one = [di_path i]" by (simp add: offered_items_def)
    then have "manifest_ends E s0 (di_path i)" using Cons.prems unfolding split by simp
    then show ?thesis using try_bundle_searches i unfolding one by simp
  qed
  moreover have "searches E s0 accept (offered_items is) (load_items E accept is)" using Cons unfolding split by simp
  ultimately show ?case unfolding split load_items.simps by (rule searches_bind)
qed

lemma load_hits_searches:
  assumes "\<forall>path \<in> set (offered_hits hs). manifest_ends E s0 path" and "best_of E s0 accept ps found s"
  shows "\<exists>found' e t. load_hits E accept hs found s = Some (Inr (found', e), t) \<and> best_of E s0 accept (ps @ offered_hits hs) found' t"
  using assms
proof (induction hs arbitrary: ps found s)
  case (Cons h hs)
  let ?direct = "gh_isFile h \<or> (gh_isDirectory h \<and> gh_bndl h)"
  have go: ?case if look: "searches E s0 accept qs m" "load_hits E accept (h # hs) found = p_bind (m found) (load_hits E accept hs)"
    "offered_hits (h # hs) = qs @ offered_hits hs" for m qs
  proof -
    obtain found' t where "m found s = Some (Inr found', t)" "best_of E s0 accept (ps @ qs) found' t"
      using look(1) Cons.prems(2) unfolding searches_def by blast
    moreover from this obtain found'' e u where "load_hits E accept hs found' t = Some (Inr (found'', e), u)"
      "best_of E s0 accept ((ps @ qs) @ offered_hits hs) found'' u"
      using Cons.IH [of "ps @ qs" found' t] Cons.prems(1) look(3) by auto
    ultimately show ?thesis using look(2,3) by simp
  qed
  consider "\<not> gh_exists h" | "gh_exists h" ?direct | e where "gh_exists h" "\<not> ?direct" "gh_items h = Inl e"
    | "is" where "gh_exists h" "\<not> ?direct" "gh_items h = Inr is" by (cases "gh_items h") blast+
  then show ?case
  proof cases
    case 1
    then show ?thesis using Cons by simp
  next
    case 2
    then show ?thesis using Cons.prems(1) by (intro go [OF try_bundle_searches]) auto
  next
    case 3
    then show ?thesis using Cons.prems(2) by auto
  next
    case 4
    then show ?thesis using Cons.prems(1) by (intro go [OF load_items_searches]) auto
  qed
qed simp

lemma load_paths_search:
  assumes "\<forall>path \<in> set (offered R paths). manifest_ends E s0 path" and "best_of E s0 (rp_filter R) ps found s"
  shows "\<exists>found' t. load_paths E R paths found s = Some (Inr found', t) \<and> best_of E s0 (rp_filter R) (ps @ offered R paths) found' t"
  using assms
proof (induction paths arbitrary: ps found s)
  case (Cons path paths)
  let ?one = "offered R [path]"
  have split: "offered R (path # paths) = ?one @ offered R paths" by (simp add: offered_def)
  have "\<exists>found' e t. (case rp_glob R path of Inl e \<Rightarrow> p_ret (found, Some e) | Inr hs \<Rightarrow> load_hits E (rp_filter R) hs found) s = Some (Inr (found', e), t) \<and>
      best_of E s0 (rp_filter R) (ps @ ?one) found' t"
  proof (cases "rp_glob R path")
    case (Inl e)
    then show ?thesis using Cons.prems(2) by (simp add: offered_def)
  next
    case (Inr hs)
    then show ?thesis using load_hits_searches [OF _ Cons.prems(2), of hs] Cons.prems(1) by (simp add: offered_def)
  qed
  then obtain found' e t where run: "(case rp_glob R path of Inl e \<Rightarrow> p_ret (found, Some e) | Inr hs \<Rightarrow> load_hits E (rp_filter R) hs found) s = Some (Inr (found', e), t)"
    and best: "best_of E s0 (rp_filter R) (ps @ ?one) found' t" by blast
  then have "load_paths E R (path # paths) found s = load_paths E R paths found' t" by simp
  moreover have "\<exists>found'' u. load_paths E R paths found' t = Some (Inr found'', u) \<and> best_of E s0 (rp_filter R) ((ps @ ?one) @ offered R paths) found'' u"
    using Cons.IH [OF _ best] Cons.prems(1) unfolding split by simp
  ultimately show ?case unfolding split by simp
qed (simp add: offered_def)

lemma load_found:
  assumes "sorted_wrt (<) (map fst found)" and "\<forall>(n, c) \<in> set found. symbolicName (ld_heap s c) = n \<and> findBundle s n = None"
    and "sorted_wrt (<) (map fst (ld_bundles s))"
  shows "\<exists>t. p_each (\<lambda>(name, b). loadBundle b) found s = Some (Inr (), t) \<and> ld_heap t = ld_heap s \<and> ld_files t = ld_files s \<and>
    sorted_wrt (<) (map fst (ld_bundles t)) \<and> (\<forall>n. findBundle t n = (case map_of found n of Some c \<Rightarrow> Some c | None \<Rightarrow> findBundle s n))"
  using assms
proof (induction found arbitrary: s)
  case (Cons p found)
  obtain n c where p: "p = (n, c)" by force
  let ?s = "s\<lparr>ld_bundles := map_insert n \<lparr>bi_bundle = c, bi_classLoader = None\<rparr> (ld_bundles s), ld_ids := (ld_ids s)(c \<mapsto> c),
    ld_trace := ld_trace s @ [Fired EV_BUNDLE_LOADED c]\<rparr>"
  have run: "loadBundle c s = Some (Inr (), ?s)"
    using Cons.prems(2) by (auto simp: p loadBundle_def p_seq_def)
  have find: "findBundle ?s m = (if m = n then Some c else findBundle s m)" for m
    by (simp add: findBundle_def map_of_insert [OF Cons.prems(3)])
  have rest: "\<forall>(m, d) \<in> set found. symbolicName (ld_heap ?s d) = m \<and> findBundle ?s m = None"
    using Cons.prems(1,2) unfolding find by (fastforce simp: p)
  have "sorted_wrt (<) (map fst (ld_bundles ?s))" using sorted_map_insert [OF Cons.prems(3)] by simp
  then obtain t where "p_each (\<lambda>(name, b). loadBundle b) found ?s = Some (Inr (), t)" "ld_heap t = ld_heap ?s" "ld_files t = ld_files ?s"
    "sorted_wrt (<) (map fst (ld_bundles t))" "\<forall>m. findBundle t m = (case map_of found m of Some c \<Rightarrow> Some c | None \<Rightarrow> findBundle ?s m)"
    using Cons.IH [OF _ rest] Cons.prems(1) by auto
  moreover have "map_of found n = None" using Cons.prems(1) by (auto simp: p map_of_eq_None_iff)
  ultimately show ?case using run unfolding find by (auto simp: p split: option.splits)
qed simp

text \<open>C16: Loading the repository into an empty loader ends without an exception whenever the manifests it meets can be parsed to
  their ends, whatever is broken among the files: the loaded bundles are among those the files under the paths hold and the filter
  accepts, the map of the loaded bundles has each of them under its own name, and of each name the highest version met is loaded.\<close>

theorem highest_versions_are_loaded:
  assumes "ld_bundles s = []" and "\<forall>path \<in> set (offered R (rp_paths R)). manifest_ends E s path"
  shows "\<exists>t. loadBundles E R s = Some (Inr (), t) \<and> wf_loader t \<and> ld_files t = ld_files s \<and>
    (\<forall>b \<in> loaded t. ld_heap t b \<in> candidates E s (rp_filter R) (offered R (rp_paths R))) \<and>
    (\<forall>x \<in> candidates E s (rp_filter R) (offered R (rp_paths R)).
       \<exists>b. findBundle t (symbolicName x) = Some b \<and> bundle_version x \<le> bundle_version (ld_heap t b))"
proof -
  let ?C = "candidates E s (rp_filter R) (offered R (rp_paths R))"
  have "best_of E s (rp_filter R) [] [] s" by (rule best_of_start) simp_all
  from load_paths_search [OF assms(2) this] obtain found u where
    search: "load_paths E R (rp_paths R) [] s = Some (Inr found, u)" and best: "best_of E s (rp_filter R) (offered R (rp_paths R)) found u" by auto
  have none: "findBundle u n = None" for n using best assms(1) by (simp add: best_of_def findBundle_def)
  have "\<forall>(n, c) \<in> set found. symbolicName (ld_heap u c) = n \<and> findBundle u n = None" using best none by (auto simp: best_of_def)
  from load_found [OF _ this] best assms(1) obtain t where
    each: "p_each (\<lambda>(name, b). loadBundle b) found u = Some (Inr (), t)" and t: "ld_heap t = ld_heap u" "ld_files t = ld_files s"
      "sorted_wrt (<) (map fst (ld_bundles t))" and find: "\<And>n. findBundle t n = map_of found n"
    by (auto simp: best_of_def none split: option.splits) (metis option.case_eq_if option.collapse)
  have entry: "name_of t c = n \<and> ld_heap t c \<in> ?C" if "findBundle t n = Some c" for n c
    using best map_of_SomeD [OF that [unfolded find]] by (fastforce simp: best_of_def t(1))
  have lookup: "findBundle t k = Some (bi_bundle i)" if "(k, i) \<in> set (ld_bundles t)" for k i
    using that t(3) by (simp add: findBundle_def strict_sorted_iff)
  have "wf_loader t" using t(3) entry lookup by (force simp: wf_loader_def strict_sorted_iff)
  moreover have "ld_heap t b \<in> ?C" if "b \<in> loaded t" for b
    using that entry lookup unfolding in_loaded by blast
  moreover have "\<exists>b. findBundle t (symbolicName x) = Some b \<and> bundle_version x \<le> bundle_version (ld_heap t b)" if "x \<in> ?C" for x
    using best that by (auto simp: best_of_def find t(1))
  moreover have "loadBundles E R s = Some (Inr (), t)" using search each by (simp add: loadBundles_def)
  ultimately show ?thesis using t(2) by blast
qed

text \<open>A directory with two versions of a bundle and a file that is no archive; a file holds the version of its bundle.\<close>

definition sample_properties :: "string \<Rightarrow> string \<Rightarrow> properties" where
  "sample_properties name v = \<lparr>pr_string = map_of [(''Manifest-Version'', ''1.0''), (''Bundle-Name'', name), (''Bundle-SymbolicName'', name), (''Bundle-Version'', v)],
     pr_bool = (\<lambda>key. Inr False)\<rparr>"

definition archive_env :: "string osp_env" where
  "archive_env = \<lparr>ev_storage = (\<lambda>c. if c = [] then Inl (PocoException ''no archive'') else Inr \<lparr>st_manifest = Some (sample_properties ''a'' c), st_libraries = []\<rparr>),
     ev_dlopen = (\<lambda>c p. Inr []), ev_start = (\<lambda>tr b. Inr ()), ev_stop = (\<lambda>tr b. Inr ()), ev_now = (\<lambda>tr. 0),
     ev_cacheWritable = (\<lambda>n. True), ev_cacheDatable = (\<lambda>n. True), ev_removable = (\<lambda>p. True), ev_suffix = ''.so'', ev_paths = sample_paths, ev_autoUpdate = True,
     ev_sort = (\<lambda>k bs. sort_key k bs)\<rparr>"

definition directory_of_three :: repository where
  "directory_of_three = \<lparr>rp_paths = [''/b''], rp_directory = (\<lambda>p. p @ ''/''),
     rp_glob = (\<lambda>p. Inr [\<lparr>gh_path = ''/b'', gh_exists = True, gh_isFile = False, gh_isDirectory = True, gh_bndl = False,
       gh_items = Inr (map (\<lambda>p. \<lparr>di_path = p, di_look = Inr (False, False, False)\<rparr>) [''/b/x'', ''/b/y'', ''/b/z''])\<rparr>]),
     rp_filter = None\<rparr>"

definition three_files :: "string loader" where
  "three_files = (sample_loader [])\<lparr>ld_files := map_of [(''/b/x'', \<lparr>nd_kind = NodeFile, nd_content = ''1.2.0''\<rparr>),
     (''/b/y'', \<lparr>nd_kind = NodeFile, nd_content = ''1.10.0''\<rparr>), (''/b/z'', \<lparr>nd_kind = NodeFile, nd_content = []\<rparr>)]\<rparr>"

lemma no_requirements: "parse_items item [] acc = Some (Inr acc)"
  by (simp add: parse_items.simps)

lemma no_activator: "parseActivator [] = Inr ([], [])"
  by code_simp

lemma sample_manifest: "parseManifest (sample_properties name v) = (case parseVersion v of Inl e \<Rightarrow> Some (Inl e) | Inr w \<Rightarrow> Some (Inr (plain_manifest name w)))"
  by (simp add: parseManifest_def sample_properties_def mh_bind_def getString_def getStringOr_def getBoolOr_def no_activator
      parseRequiredBundles_def parseRequiredModules_def parseProvidedModules_def parseRequiredItems_def no_requirements plain_manifest_def split: sum.splits)

lemma offered_three: "offered directory_of_three (rp_paths directory_of_three) = [''/b/x'', ''/b/y'', ''/b/z'']"
  by (simp add: offered_def offered_items_def directory_of_three_def)

lemma highest_versions_are_loaded_witness:
  "\<exists>t. loadBundles archive_env directory_of_three three_files = Some (Inr (), t) \<and>
     (\<exists>b. findBundle t ''a'' = Some b \<and> Version 1 10 0 [] \<le> bundle_version (ld_heap t b))"
proof -
  have ends: "\<forall>path \<in> set (offered directory_of_three (rp_paths directory_of_three)). manifest_ends archive_env three_files path"
    by (auto simp: manifest_ends_def archive_env_def sample_manifest split: sum.splits if_splits)
  have v: "parseVersion ''1.10.0'' = Inr (Version 1 10 0 [])" by code_simp
  have y: "ld_files three_files ''/b/y'' = Some \<lparr>nd_kind = NodeFile, nd_content = ''1.10.0''\<rparr>" by (simp add: three_files_def)
  have "bundle_at archive_env three_files ''/b/y'' = Some (new_bundle ''/b/y'' (plain_manifest ''a'' (Version 1 10 0 [])) [])"
    by (simp add: bundle_at_def y archive_env_def sample_manifest v)
  then have "new_bundle ''/b/y'' (plain_manifest ''a'' (Version 1 10 0 [])) [] \<in>
      candidates archive_env three_files (rp_filter directory_of_three) (offered directory_of_three (rp_paths directory_of_three))"
    unfolding offered_three by (simp add: candidates_def directory_of_three_def)
  moreover have "ld_bundles three_files = []" by (simp add: three_files_def sample_loader_def)
  ultimately show ?thesis
    using highest_versions_are_loaded [OF _ ends] by (fastforce simp: new_bundle_def plain_manifest_def)
qed

section \<open>Installing and replacing\<close>

definition written :: "string \<Rightarrow> 'c \<Rightarrow> 'c loader \<Rightarrow> 'c loader" where
  "written path content s = s\<lparr>ld_files := (ld_files s)(path \<mapsto> \<lparr>nd_kind = NodeFile, nd_content = content\<rparr>)\<rparr>"

lemma written_simps [simp]: "ld_next (written p c s) = ld_next s" "ld_heap (written p c s) = ld_heap s" "ld_bundles (written p c s) = ld_bundles s" "ld_cache (written p c s) = ld_cache s"
  "ld_files (written p c s) = (ld_files s)(p \<mapsto> \<lparr>nd_kind = NodeFile, nd_content = c\<rparr>)" "findBundle (written p c s) = findBundle s"
  by (simp_all add: written_def findBundle_def fun_eq_iff)

text \<open>The archive at one place is the archive at another.\<close>

lemma bundle_at_renamed:
  assumes "ld_files s p = ld_files t q"
  shows "bundle_at E t q = map_option (\<lambda>x. x\<lparr>bu_path := q\<rparr>) (bundle_at E s p)"
  using assms by (auto simp: bundle_at_def new_bundle_def split: option.split sum.split)

definition same_bundles :: "'c loader \<Rightarrow> 'c loader \<Rightarrow> bool" where
  "same_bundles s t \<longleftrightarrow> ld_bundles t = ld_bundles s \<and> (\<forall>c < ld_next s. ld_heap t c = ld_heap s c)"

definition installed_as :: "'c loader \<Rightarrow> osp_bundle \<Rightarrow> string \<Rightarrow> nat \<Rightarrow> 'c loader \<Rightarrow> bool" where
  "installed_as s x path b t \<longleftrightarrow>
     b \<ge> ld_next s \<and> ld_heap t b = x\<lparr>bu_path := path\<rparr> \<and> (\<forall>c < ld_next s. ld_heap t c = ld_heap s c) \<and>
     (\<forall>n. findBundle t n = (if n = symbolicName x then Some b else findBundle s n))"

text \<open>The last step: the renamed archive is loaded.\<close>

lemma loadBundleFrom_run:
  assumes "bundle_at E s path = Some x" and "findBundle s (symbolicName x) = None" and "sorted_wrt (<) (map fst (ld_bundles s))"
  shows "\<exists>t. loadBundleFrom E path s = Some (Inr (ld_next s), t) \<and> ld_files t = ld_files s \<and> ld_heap t = (ld_heap s)(ld_next s := x) \<and>
    ld_resolving t = ld_resolving s \<and> map_of (ld_bundles t) (symbolicName x) = Some \<lparr>bi_bundle = ld_next s, bi_classLoader = None\<rparr> \<and>
    ld_next t = ld_next s + 1 \<and> ld_bundles t = map_insert (symbolicName x) \<lparr>bi_bundle = ld_next s, bi_classLoader = None\<rparr> (ld_bundles s) \<and>
    (\<forall>n. findBundle t n = (if n = symbolicName x then Some (ld_next s) else findBundle s n))"
  using createBundle_works [OF assms(1)] assms(2)
  by (simp add: loadBundleFrom_def loadBundle_def p_seq_def p_bind_def findBundle_def map_of_insert [OF assms(3)])

text \<open>What precedes it, when the archive is readable and no bundle is to be replaced.\<close>

lemma prepareInstall_new:
  assumes "bundle_at E s tmp = Some x" and "ld_files s tmp = Some nd" and "symbolicName x \<noteq> []"
  shows "prepareInstall E renamable path tmp [] s =
    (let u = s\<lparr>ld_next := ld_next s + 1, ld_heap := (ld_heap s)(ld_next s := x)\<rparr> in
     if findBundle s (symbolicName x) \<noteq> None
     then Some (Inl (osp_exc BundleInstallException ''A bundle with the same symbolic name is already installed'' (symbolicName x)), u)
     else if renamable then Some (Inr (path @ stored_name x), u\<lparr>ld_files := (ld_files s)(tmp := None, path @ stored_name x \<mapsto> nd)\<rparr>)
     else Some (Inl (FileException tmp), u))"
  using createBundle_works [OF assms(1)] assms(2,3)
  by (auto simp: prepareInstall_def renameFile_def Let_def p_seq_def p_bind_def findBundle_def)

lemma discardFile_run:
  assumes "ev_removable E path"
  shows "discardFile E path e s = Some (Inl e, s\<lparr>ld_files := (ld_files s)(path := None)\<rparr>)"
proof (cases "ld_files s path")
  case None
  then have "(ld_files s)(path := None) = ld_files s" by (simp add: fun_eq_iff)
  then show ?thesis using None by (simp add: discardFile_def removeFile_def p_seq_def p_bind_def p_catch_def)
next
  case (Some nd)
  then show ?thesis using assms by (simp add: discardFile_def removeFile_def p_seq_def p_bind_def p_catch_def)
qed

lemma install_start:
  "installBundleImpl E True renamable tmp content dir [] s =
     p_bind (p_catch (prepareInstall E renamable dir tmp []) (discardFile E tmp)) (\<lambda>np. p_catch (loadBundleFrom E np) (discardFile E np)) (written tmp content s)"
  by (simp add: installBundleImpl_def writeFile_def written_def p_seq_def p_bind_def)

lemma install_fails:
  assumes "manifest_ends E (written tmp content s) tmp" and "ev_removable E tmp"
    and "\<forall>x. bundle_at E (written tmp content s) tmp = Some x \<longrightarrow> symbolicName x \<noteq> [] \<and> (findBundle s (symbolicName x) \<noteq> None \<or> \<not> renamable)"
  shows "\<exists>e t. installBundleImpl E True renamable tmp content dir [] s = Some (Inl e, t) \<and> same_bundles s t \<and> ld_files t = (ld_files s)(tmp := None)"
proof (cases "bundle_at E (written tmp content s) tmp")
  case None
  let ?u = "written tmp content s"
  obtain e t where run: "createBundle E tmp ?u = Some (Inl e, t)" and t: "t = ?u \<or> t = ?u\<lparr>ld_next := ld_next ?u + 1\<rparr>"
    using createBundle_fails [OF None assms(1)] by blast
  then have "installBundleImpl E True renamable tmp content dir [] s = Some (Inl e, t\<lparr>ld_files := (ld_files t)(tmp := None)\<rparr>)"
    unfolding install_start by (simp add: prepareInstall_def discardFile_run [OF assms(2)] p_bind_def p_catch_def)
  moreover have "same_bundles s (t\<lparr>ld_files := (ld_files t)(tmp := None)\<rparr>)" using t by (auto simp: same_bundles_def)
  moreover have "ld_files (t\<lparr>ld_files := (ld_files t)(tmp := None)\<rparr>) = (ld_files s)(tmp := None)" using t by auto
  ultimately show ?thesis by blast
next
  case (Some x)
  let ?u = "written tmp content s"
  let ?v = "?u\<lparr>ld_next := ld_next ?u + 1, ld_heap := (ld_heap ?u)(ld_next ?u := x)\<rparr>"
  have entry: "ld_files ?u tmp = Some \<lparr>nd_kind = NodeFile, nd_content = content\<rparr>" by simp
  have x: "symbolicName x \<noteq> []" "findBundle s (symbolicName x) \<noteq> None \<or> \<not> renamable" using assms(3) Some by auto
  obtain e where "prepareInstall E renamable dir tmp [] ?u = Some (Inl e, ?v)"
    using prepareInstall_new [OF Some entry x(1), of renamable dir] x(2) by (auto simp: Let_def split: if_splits)
  then have "installBundleImpl E True renamable tmp content dir [] s = Some (Inl e, ?v\<lparr>ld_files := (ld_files ?v)(tmp := None)\<rparr>)"
    unfolding install_start by (simp add: discardFile_run [OF assms(2)] p_bind_def p_catch_def)
  moreover have "same_bundles s (?v\<lparr>ld_files := (ld_files ?v)(tmp := None)\<rparr>)" by (simp add: same_bundles_def)
  moreover have "ld_files (?v\<lparr>ld_files := (ld_files ?v)(tmp := None)\<rparr>) = (ld_files s)(tmp := None)" by simp
  ultimately show ?thesis by blast
qed

lemma install_works:
  assumes "bundle_at E (written tmp content s) tmp = Some x" and "symbolicName x \<noteq> []" and "findBundle s (symbolicName x) = None"
    and "sorted_wrt (<) (map fst (ld_bundles s))" and "dir @ stored_name x \<noteq> tmp"
  shows "\<exists>b t. installBundleImpl E True True tmp content dir [] s = Some (Inr b, t) \<and> installed_as s x (dir @ stored_name x) b t \<and>
    ld_files t = (ld_files s)(tmp := None, dir @ stored_name x \<mapsto> \<lparr>nd_kind = NodeFile, nd_content = content\<rparr>)"
proof -
  let ?u = "written tmp content s" and ?nd = "\<lparr>nd_kind = NodeFile, nd_content = content\<rparr>" and ?np = "dir @ stored_name x"
  let ?w = "?u\<lparr>ld_next := ld_next ?u + 1, ld_heap := (ld_heap ?u)(ld_next ?u := x), ld_files := (ld_files ?u)(tmp := None, ?np \<mapsto> ?nd)\<rparr>"
  have entry: "ld_files ?u tmp = Some ?nd" by simp
  have "prepareInstall E True dir tmp [] ?u = Some (Inr ?np, ?w)"
    using prepareInstall_new [OF assms(1) entry assms(2), of True dir] assms(3) by (simp add: Let_def)
  then have run: "installBundleImpl E True True tmp content dir [] s = p_catch (loadBundleFrom E ?np) (discardFile E ?np) ?w"
    unfolding install_start by (simp add: p_bind_def p_catch_def)
  have "bundle_at E ?w ?np = Some (x\<lparr>bu_path := ?np\<rparr>)"
    using bundle_at_renamed [of ?u tmp ?w ?np E] assms(1) by simp
  moreover have "findBundle ?w = findBundle s" by (simp add: findBundle_def fun_eq_iff)
  ultimately obtain t where t: "loadBundleFrom E ?np ?w = Some (Inr (ld_next ?w), t)" "ld_files t = ld_files ?w"
      "ld_heap t = (ld_heap ?w)(ld_next ?w := x\<lparr>bu_path := ?np\<rparr>)"
      "\<forall>n. findBundle t n = (if n = symbolicName x then Some (ld_next ?w) else findBundle s n)"
    using loadBundleFrom_run [of E ?w ?np "x\<lparr>bu_path := ?np\<rparr>"] assms(3,4) by auto
  then have "installed_as s x ?np (ld_next ?w) t" by (simp add: installed_as_def)
  moreover have "ld_files t = (ld_files s)(tmp := None, ?np \<mapsto> ?nd)" using t(2) by simp
  moreover have "installBundleImpl E True True tmp content dir [] s = Some (Inr (ld_next ?w), t)"
    unfolding run using t(1) by (simp add: p_catch_def)
  ultimately show ?thesis by blast
qed

text \<open>C24: Installing a new bundle is all or nothing. When the file system lets the temporary file be written and renamed, the archive is
  readable and no bundle of its name is loaded, the bundle is loaded from a file named after it, the temporary file is gone and
  the other bundles are as before. In every other case there is an exception, the loaded bundles are as before, and the only
  trace in the file system is that the temporary name is free.\<close>

theorem install_all_or_nothing:
  assumes "sorted_wrt (<) (map fst (ld_bundles s))" and "manifest_ends E (written tmp content s) tmp" and "ev_removable E tmp"
    and "\<forall>x. bundle_at E (written tmp content s) tmp = Some x \<longrightarrow> symbolicName x \<noteq> [] \<and> dir @ stored_name x \<noteq> tmp"
  shows "(\<exists>x b t. writable \<and> renamable \<and> bundle_at E (written tmp content s) tmp = Some x \<and> findBundle s (symbolicName x) = None \<and>
       installBundleImpl E writable renamable tmp content dir [] s = Some (Inr b, t) \<and> installed_as s x (dir @ stored_name x) b t \<and>
       ld_files t = (ld_files s)(tmp := None, dir @ stored_name x \<mapsto> \<lparr>nd_kind = NodeFile, nd_content = content\<rparr>)) \<or>
    (\<exists>e t. (writable \<longrightarrow> renamable \<longrightarrow> (\<forall>x. bundle_at E (written tmp content s) tmp = Some x \<longrightarrow> findBundle s (symbolicName x) \<noteq> None)) \<and>
       installBundleImpl E writable renamable tmp content dir [] s = Some (Inl e, t) \<and> same_bundles s t \<and>
       ld_files t = (if writable then (ld_files s)(tmp := None) else ld_files s))"
proof (cases "writable \<and> renamable \<and> (\<exists>x. bundle_at E (written tmp content s) tmp = Some x \<and> findBundle s (symbolicName x) = None)")
  case True
  then obtain x where "writable" "renamable" "bundle_at E (written tmp content s) tmp = Some x" "findBundle s (symbolicName x) = None" by blast
  then show ?thesis using install_works [of E tmp content s x dir] assms(1,4) by auto
next
  case False
  show ?thesis
  proof (cases "writable")
    case True
    then have "\<forall>x. bundle_at E (written tmp content s) tmp = Some x \<longrightarrow> symbolicName x \<noteq> [] \<and> (findBundle s (symbolicName x) \<noteq> None \<or> \<not> renamable)"
      using False assms(4) by auto
    from install_fails [OF assms(2,3) this, of dir] show ?thesis using True False by auto
  qed (simp add: installBundleImpl_def same_bundles_def)
qed

text \<open>
  A bundle that can be stopped and uninstalled: it is not in transition, not protected, no extension, has no
  libraries to be removed, its activator's library is the one that was loaded, and its file can be removed.
\<close>

definition activator_known :: "'c osp_env \<Rightarrow> 'c loader \<Rightarrow> nat \<Rightarrow> bool" where
  "activator_known E s b \<longleftrightarrow>
     (\<exists>info. map_of (ld_bundles s) (name_of s b) = Some info \<and> bi_bundle info = b \<and>
       (\<forall>libs. bi_classLoader info = Some libs \<longrightarrow> mf_activatorClass (bu_manifest (ld_heap s b)) = [] \<or> libraryPathFor E s (ld_heap s b) \<in> set libs))"

definition removable_bundle :: "'c osp_env \<Rightarrow> 'c loader \<Rightarrow> nat \<Rightarrow> bool" where
  "removable_bundle E s b \<longleftrightarrow>
     (let x = ld_heap s b in
      (bu_state x = BUNDLE_INSTALLED \<or> bu_state x = BUNDLE_RESOLVED \<or> bu_state x = BUNDLE_ACTIVE \<and> stops_cleanly E) \<and>
      \<not> mf_preventUninstall (bu_manifest x) \<and> \<not> isExtensionBundle x \<and> bu_libraries x = [] \<and>
      activator_known E s b \<and>
      ld_files s (bu_path x) \<noteq> None \<and> ev_removable E (bu_path x))"

lemma map_of_erase: "map_of (map_erase k m) n = (if n = k then None else map_of m n)"
  by (induction m) (auto simp: map_erase_def)

lemma sorted_map_erase: "sorted_wrt (<) (map fst m) \<Longrightarrow> sorted_wrt (<) (map fst (map_erase k m))" for k :: string
  by (induction m) (auto simp: map_erase_def)

lemma map_erase_class_loader:
  "map_erase k (map (\<lambda>(k', i). if k' = k then (k', i\<lparr>bi_classLoader := cl\<rparr>) else (k', i)) m) = map_erase k m"
  by (induction m) (auto simp: map_erase_def)

text \<open>What removing a bundle leaves; \<open>tr\<close> is what happened meanwhile.\<close>

definition without_bundle :: "nat \<Rightarrow> osp_action list \<Rightarrow> 'c loader \<Rightarrow> 'c loader" where
  "without_bundle b tr s = s\<lparr>ld_trace := tr, ld_files := (ld_files s)(bu_path (ld_heap s b) := None), ld_bundles := map_erase (name_of s b) (ld_bundles s),
    ld_ids := (ld_ids s)(b := None), ld_heap := (ld_heap s)(b := (ld_heap s b)\<lparr>bu_state := BUNDLE_UNINSTALLED\<rparr>)\<rparr>"

lemma drop_activator_run:
  assumes "activator_known E s b"
  shows "\<exists>m. drop_activator E (ld_heap s b) s = Some (Inr (), s\<lparr>ld_bundles := m\<rparr>) \<and> map_erase (name_of s b) m = map_erase (name_of s b) (ld_bundles s)"
proof -
  obtain info where info: "map_of (ld_bundles s) (name_of s b) = Some info" "bi_bundle info = b"
    and lib: "\<forall>libs. bi_classLoader info = Some libs \<longrightarrow> mf_activatorClass (bu_manifest (ld_heap s b)) = [] \<or> libraryPathFor E s (ld_heap s b) \<in> set libs"
    using assms by (auto simp: activator_known_def)
  show ?thesis
  proof (cases "bi_classLoader info")
    case None
    then have "drop_activator E (ld_heap s b) s = Some (Inr (), s\<lparr>ld_bundles := ld_bundles s\<rparr>)"
      using info by (simp add: drop_activator_def unloadActivator_def p_bind_def)
    then show ?thesis by blast
  next
    case (Some libs)
    define relabel where "relabel cl m = map (\<lambda>(k', i). if k' = name_of s b then (k', i\<lparr>bi_classLoader := cl\<rparr>) else (k', i)) m" for cl and m :: "(string \<times> bundle_info) list"
    have set: "setClassLoader (name_of s b) cl u = Some (Inr (), u\<lparr>ld_bundles := relabel cl (ld_bundles u)\<rparr>)" for cl and u :: "'a loader"
      by (simp add: setClassLoader_def relabel_def)
    have erase: "map_erase (name_of s b) (relabel cl m) = map_erase (name_of s b) m" for cl m
      unfolding relabel_def by (rule map_erase_class_loader)
    show ?thesis
    proof (cases "mf_activatorClass (bu_manifest (ld_heap s b)) = []")
      case True
      then have "drop_activator E (ld_heap s b) s = Some (Inr (), s\<lparr>ld_bundles := relabel None (ld_bundles s)\<rparr>)"
        using info Some set by (simp add: drop_activator_def unloadActivator_def p_bind_def p_seq_def)
      then show ?thesis using erase by blast
    next
      case False
      then have "libraryPathFor E s (ld_heap s b) \<in> set libs" using lib Some by simp
      then have "drop_activator E (ld_heap s b) s = Some (Inr (), s\<lparr>ld_bundles :=
          relabel None (relabel (Some (filter (\<lambda>l. l \<noteq> libraryPathFor E s (ld_heap s b)) libs)) (ld_bundles s))\<rparr>)"
        using info Some False set by (simp add: drop_activator_def unloadActivator_def p_bind_def p_seq_def)
      then show ?thesis using erase by metis
    qed
  qed
qed

lemma uninstall_run:
  assumes "removable_bundle E s b" and "bu_state (ld_heap s b) \<noteq> BUNDLE_ACTIVE"
  shows "\<exists>tr. uninstall E b s = Some (Inr (), without_bundle b tr s)"
proof -
  let ?x = "ld_heap s b" and ?s = "s\<lparr>ld_trace := ld_trace s @ [Fired EV_BUNDLE_UNINSTALLING b]\<rparr>"
  have x: "\<not> mf_preventUninstall (bu_manifest ?x)" "\<not> isExtensionBundle ?x" "bu_libraries ?x = []" "ev_removable E (bu_path ?x)"
    and st: "bu_state ?x = BUNDLE_INSTALLED \<or> bu_state ?x = BUNDLE_RESOLVED"
    using assms by (auto simp: removable_bundle_def Let_def)
  obtain nd where nd: "ld_files s (bu_path ?x) = Some nd" using assms by (auto simp: removable_bundle_def Let_def)
  have "activator_known E ?s b" using assms(1) by (simp add: removable_bundle_def activator_known_def libraryPathFor_def Let_def)
  from drop_activator_run [OF this] obtain m where
    drop: "drop_activator E ?x ?s = Some (Inr (), ?s\<lparr>ld_bundles := m\<rparr>)" "map_erase (name_of s b) m = map_erase (name_of s b) (ld_bundles s)" by auto
  have "uninstallBundle E b ?s = Some (Inr (), ?s\<lparr>ld_files := (ld_files s)(bu_path ?x := None), ld_bundles := map_erase (name_of s b) (ld_bundles s),
      ld_ids := (ld_ids s)(b := None), ld_trace := ld_trace ?s @ [Fired EV_BUNDLE_UNLOADED b]\<rparr>)"
    using x nd drop by (simp add: uninstallBundle_def detach_extension_def uninstallLibraries_def removeFile_def forget_bundle_def p_seq_def p_bind_def p_catch_def)
  then show ?thesis
    using x st
    by (intro exI [of _ "ld_trace s @ [Fired EV_BUNDLE_UNINSTALLING b, Fired EV_BUNDLE_UNLOADED b, Fired EV_BUNDLE_UNINSTALLED b]"], elim disjE)
      (simp_all add: uninstall_def p_seq_def p_bind_def without_bundle_def)
qed

lemma removeBundle_run:
  assumes "findBundle s n = Some b" and rm: "removable_bundle E s b"
  shows "\<exists>tr. removeBundle E n s = Some (Inr (), without_bundle b tr s)"
proof (cases "bu_state (ld_heap s b) = BUNDLE_ACTIVE")
  case False
  then have "removeBundle E n s = uninstall E b s"
    using assms by (auto simp: removeBundle_def removable_bundle_def Let_def p_seq_def p_bind_def)
  then show ?thesis using uninstall_run [OF rm False] by simp
next
  case True
  let ?t = "with_state b BUNDLE_RESOLVED (stop_actions s b) s"
  have "stops_cleanly E" using rm True by (simp add: removable_bundle_def Let_def)
  moreover have "map_of (ld_bundles s) (name_of s b) \<noteq> None" using rm by (auto simp: removable_bundle_def activator_known_def Let_def)
  ultimately have stop: "stop E b s = Some (Inr (), ?t)" using True by (intro stop_run) (simp_all add: isActive_def)
  have "libraryPathFor E ?t (ld_heap ?t b) = libraryPathFor E s (ld_heap s b)" by (simp add: libraryPathFor_def libraryNameFor_def with_state_def)
  then have "removable_bundle E ?t b" using rm by (simp add: removable_bundle_def activator_known_def Let_def with_state_def isExtensionBundle_def)
  moreover have "bu_state (ld_heap ?t b) \<noteq> BUNDLE_ACTIVE" by simp
  ultimately obtain tr where "uninstall E b ?t = Some (Inr (), without_bundle b tr ?t)" using uninstall_run by blast
  moreover have "without_bundle b tr ?t = without_bundle b tr s" by (simp add: without_bundle_def with_state_def)
  moreover have "removeBundle E n s = uninstall E b ?t"
    using assms(1) stop True by (simp add: removeBundle_def p_seq_def p_bind_def)
  ultimately show ?thesis by auto
qed

text \<open>The bundle \<open>b\<close> of the name of \<open>x\<close> can be replaced by the archive \<open>content\<close>, which holds \<open>x\<close>.\<close>

definition replaceable :: "'c osp_env \<Rightarrow> string \<Rightarrow> 'c \<Rightarrow> string \<Rightarrow> osp_bundle \<Rightarrow> nat \<Rightarrow> 'c loader \<Rightarrow> bool" where
  "replaceable E tmp content dir x b s \<longleftrightarrow>
     wf_loader s \<and> sorted_wrt (<) (map fst (ld_bundles s)) \<and> bundle_at E (written tmp content s) tmp = Some x \<and> symbolicName x \<noteq> [] \<and>
     findBundle s (symbolicName x) = Some b \<and> b < ld_next s \<and> removable_bundle E s b \<and> ev_removable E tmp \<and>
     bu_path (ld_heap s b) \<noteq> tmp \<and> dir @ stored_name x \<noteq> tmp"

lemma replace_prepare:
  assumes "replaceable E tmp content dir x b s"
  shows "\<exists>w. installBundleImpl E True renamable tmp content dir (symbolicName x) s =
      p_bind (p_catch (\<lambda>_. p_seq (renameFile renamable tmp (dir @ stored_name x)) (p_ret (dir @ stored_name x)) w) (discardFile E tmp))
        (\<lambda>np. p_catch (loadBundleFrom E np) (discardFile E np)) s \<and>
    ld_files w = (ld_files s)(tmp \<mapsto> \<lparr>nd_kind = NodeFile, nd_content = content\<rparr>, bu_path (ld_heap s b) := None) \<and>
    ld_bundles w = map_erase (symbolicName x) (ld_bundles s) \<and> ld_next w = ld_next s + 1 \<and> ld_resolving w = ld_resolving s \<and>
    ld_heap w = (ld_heap s)(ld_next s := x, b := (ld_heap s b)\<lparr>bu_state := BUNDLE_UNINSTALLED\<rparr>)"
proof -
  note a = assms [unfolded replaceable_def]
  let ?u = "written tmp content s" and ?n = "symbolicName x" and ?old = "bu_path (ld_heap s b)"
  let ?v = "?u\<lparr>ld_next := ld_next ?u + 1, ld_heap := (ld_heap ?u)(ld_next ?u := x)\<rparr>"
  have name: "name_of s b = ?n" using find_name a by blast
  have heap: "ld_heap ?v b = ld_heap s b" and find_v: "findBundle ?v = findBundle s" using a by (auto simp: findBundle_def fun_eq_iff)
  have rm: "removable_bundle E ?v b" using a heap by (simp add: removable_bundle_def activator_known_def Let_def libraryPathFor_def)
  obtain tr where "removeBundle E ?n ?v = Some (Inr (), without_bundle b tr ?v)"
    using removeBundle_run [OF _ rm, of ?n] find_v a by auto
  moreover define w where "w = without_bundle b tr ?v"
  ultimately have w: "removeBundle E ?n ?v = Some (Inr (), w)" "ld_files w = (ld_files ?u)(?old := None)"
      "ld_bundles w = map_erase ?n (ld_bundles s)" "ld_next w = ld_next ?v" "ld_heap w = (ld_heap ?v)(b := (ld_heap s b)\<lparr>bu_state := BUNDLE_UNINSTALLED\<rparr>)"
      "ld_resolving w = ld_resolving s"
    using heap name by (simp_all add: without_bundle_def written_def)
  have "createBundle E tmp ?u = Some (Inr (ld_next ?u), ?v)" using a createBundle_works by blast
  then have "prepareInstall E renamable dir tmp ?n ?u = p_seq (renameFile renamable tmp (dir @ stored_name x)) (p_ret (dir @ stored_name x)) w"
    using a w(1) by (simp add: prepareInstall_def p_seq_def p_bind_def)
  then have "installBundleImpl E True renamable tmp content dir ?n s =
      p_bind (p_catch (\<lambda>_. p_seq (renameFile renamable tmp (dir @ stored_name x)) (p_ret (dir @ stored_name x)) w) (discardFile E tmp))
        (\<lambda>np. p_catch (loadBundleFrom E np) (discardFile E np)) s"
    by (simp add: installBundleImpl_def writeFile_def written_def p_seq_def p_bind_def p_catch_def)
  then show ?thesis using w by (intro exI [of _ w]) simp
qed

lemma replace_fails:
  assumes "replaceable E tmp content dir x b s"
  shows "\<exists>t. installBundleImpl E True False tmp content dir (symbolicName x) s = Some (Inl (FileException tmp), t) \<and>
    (\<forall>m. findBundle t m = (if m = symbolicName x then None else findBundle s m)) \<and> bu_state (ld_heap t b) = BUNDLE_UNINSTALLED \<and>
    ld_files t = (ld_files s)(tmp := None, bu_path (ld_heap s b) := None)"
proof -
  note a = assms [unfolded replaceable_def]
  let ?np = "dir @ stored_name x" and ?old = "bu_path (ld_heap s b)"
  obtain w where run: "installBundleImpl E True False tmp content dir (symbolicName x) s =
      p_bind (p_catch (\<lambda>_. p_seq (renameFile False tmp ?np) (p_ret ?np) w) (discardFile E tmp)) (\<lambda>np. p_catch (loadBundleFrom E np) (discardFile E np)) s"
    and w: "ld_files w = (ld_files s)(tmp \<mapsto> \<lparr>nd_kind = NodeFile, nd_content = content\<rparr>, ?old := None)"
      "ld_bundles w = map_erase (symbolicName x) (ld_bundles s)" "ld_heap w = (ld_heap s)(ld_next s := x, b := (ld_heap s b)\<lparr>bu_state := BUNDLE_UNINSTALLED\<rparr>)"
    using replace_prepare [OF assms, of False] by blast
  let ?t = "w\<lparr>ld_files := (ld_files w)(tmp := None)\<rparr>"
  have "p_seq (renameFile False tmp ?np) (p_ret ?np) w = Some (Inl (FileException tmp), w)"
    using w(1) a by (auto simp: renameFile_def p_seq_def p_bind_def)
  then have "installBundleImpl E True False tmp content dir (symbolicName x) s = Some (Inl (FileException tmp), ?t)"
    unfolding run using a by (simp add: discardFile_run p_bind_def p_catch_def)
  moreover have "ld_files ?t = (ld_files s)(tmp := None, ?old := None)" using w(1) a by (auto simp: fun_eq_iff)
  moreover have "findBundle ?t m = (if m = symbolicName x then None else findBundle s m)" for m by (simp add: findBundle_def w(2) map_of_erase)
  ultimately show ?thesis using w(3) by (intro exI [of _ ?t]) simp
qed

lemma replace_succeeds:
  assumes "replaceable E tmp content dir x b s"
  shows "\<exists>t. installBundleImpl E True True tmp content dir (symbolicName x) s = Some (Inr (ld_next s + 1), t) \<and>
    ld_bundles t = map_insert (symbolicName x) \<lparr>bi_bundle = ld_next s + 1, bi_classLoader = None\<rparr> (map_erase (symbolicName x) (ld_bundles s)) \<and>
    ld_heap t = (ld_heap s)(ld_next s := x, b := (ld_heap s b)\<lparr>bu_state := BUNDLE_UNINSTALLED\<rparr>, ld_next s + 1 := x\<lparr>bu_path := dir @ stored_name x\<rparr>) \<and>
    ld_files t = (ld_files s)(tmp := None, bu_path (ld_heap s b) := None, dir @ stored_name x \<mapsto> \<lparr>nd_kind = NodeFile, nd_content = content\<rparr>) \<and>
    ld_resolving t = ld_resolving s \<and> ld_next t = ld_next s + 2"
proof -
  note a = assms [unfolded replaceable_def]
  let ?np = "dir @ stored_name x" and ?old = "bu_path (ld_heap s b)" and ?n = "symbolicName x" and ?nd = "\<lparr>nd_kind = NodeFile, nd_content = content\<rparr>"
  obtain w where run: "installBundleImpl E True True tmp content dir ?n s =
      p_bind (p_catch (\<lambda>_. p_seq (renameFile True tmp ?np) (p_ret ?np) w) (discardFile E tmp)) (\<lambda>np. p_catch (loadBundleFrom E np) (discardFile E np)) s"
    and w: "ld_files w = (ld_files s)(tmp \<mapsto> ?nd, ?old := None)" "ld_bundles w = map_erase ?n (ld_bundles s)" "ld_next w = ld_next s + 1"
      "ld_resolving w = ld_resolving s" "ld_heap w = (ld_heap s)(ld_next s := x, b := (ld_heap s b)\<lparr>bu_state := BUNDLE_UNINSTALLED\<rparr>)"
    using replace_prepare [OF assms, of True] by blast
  let ?w = "w\<lparr>ld_files := (ld_files w)(tmp := None, ?np \<mapsto> ?nd)\<rparr>"
  have "p_seq (renameFile True tmp ?np) (p_ret ?np) w = Some (Inr ?np, ?w)"
    using w(1) a by (auto simp: renameFile_def p_seq_def p_bind_def)
  then have "installBundleImpl E True True tmp content dir ?n s = p_catch (loadBundleFrom E ?np) (discardFile E ?np) ?w"
    unfolding run by (simp add: p_bind_def p_catch_def)
  moreover have "bundle_at E ?w ?np = Some (x\<lparr>bu_path := ?np\<rparr>)"
    using bundle_at_renamed [of "written tmp content s" tmp ?w ?np E] a by simp
  moreover have "findBundle ?w ?n = None" "sorted_wrt (<) (map fst (ld_bundles ?w))"
    using a sorted_map_erase [of "ld_bundles s" ?n] by (simp_all add: findBundle_def w(2) map_of_erase)
  ultimately obtain t where "installBundleImpl E True True tmp content dir ?n s = Some (Inr (ld_next ?w), t)" "ld_files t = ld_files ?w"
      "ld_heap t = (ld_heap ?w)(ld_next ?w := x\<lparr>bu_path := ?np\<rparr>)" "ld_resolving t = ld_resolving ?w" "ld_next t = ld_next ?w + 1"
      "ld_bundles t = map_insert ?n \<lparr>bi_bundle = ld_next ?w, bi_classLoader = None\<rparr> (ld_bundles ?w)"
    using loadBundleFrom_run [of E ?w ?np "x\<lparr>bu_path := ?np\<rparr>"] by (auto simp: p_catch_def)
  moreover have "(ld_files w)(tmp := None, ?np \<mapsto> ?nd) = (ld_files s)(tmp := None, ?old := None, ?np \<mapsto> ?nd)"
    using w(1) a by (auto simp: fun_eq_iff)
  ultimately show ?thesis using w by (intro exI [of _ t]) simp
qed

text \<open>C27: Replacing a bundle uninstalls the old one before it puts the new archive in its place. When the renaming works, the new version is
  loaded under the name and the old file is gone; when it fails, the name is left without any bundle: the old version is
  unloaded and deleted, and so is the archive of the new one. The other names keep their bundles.\<close>

theorem replacing_a_bundle:
  assumes "replaceable E tmp content dir x b s"
  shows "\<exists>r t. installBundleImpl E True renamable tmp content dir (symbolicName x) s = Some (r, t) \<and>
    (\<forall>m. m \<noteq> symbolicName x \<longrightarrow> findBundle t m = findBundle s m) \<and> bu_state (ld_heap t b) = BUNDLE_UNINSTALLED \<and>
    (if renamable
     then (\<exists>b'. r = Inr b' \<and> findBundle t (symbolicName x) = Some b' \<and> ld_heap t b' = x\<lparr>bu_path := dir @ stored_name x\<rparr>) \<and>
       ld_files t = (ld_files s)(tmp := None, bu_path (ld_heap s b) := None, dir @ stored_name x \<mapsto> \<lparr>nd_kind = NodeFile, nd_content = content\<rparr>)
     else r = Inl (FileException tmp) \<and> findBundle t (symbolicName x) = None \<and> ld_files t = (ld_files s)(tmp := None, bu_path (ld_heap s b) := None))"
proof (cases renamable)
  case False
  obtain t where "installBundleImpl E True False tmp content dir (symbolicName x) s = Some (Inl (FileException tmp), t)"
    "\<forall>m. findBundle t m = (if m = symbolicName x then None else findBundle s m)" "bu_state (ld_heap t b) = BUNDLE_UNINSTALLED"
    "ld_files t = (ld_files s)(tmp := None, bu_path (ld_heap s b) := None)" using replace_fails [OF assms] by blast
  then show ?thesis using False by (intro exI [of _ "Inl (FileException tmp)"] exI [of _ t]) simp
next
  case True
  obtain t where t: "installBundleImpl E True True tmp content dir (symbolicName x) s = Some (Inr (ld_next s + 1), t)"
    "ld_bundles t = map_insert (symbolicName x) \<lparr>bi_bundle = ld_next s + 1, bi_classLoader = None\<rparr> (map_erase (symbolicName x) (ld_bundles s))"
    "ld_heap t = (ld_heap s)(ld_next s := x, b := (ld_heap s b)\<lparr>bu_state := BUNDLE_UNINSTALLED\<rparr>, ld_next s + 1 := x\<lparr>bu_path := dir @ stored_name x\<rparr>)"
    "ld_files t = (ld_files s)(tmp := None, bu_path (ld_heap s b) := None, dir @ stored_name x \<mapsto> \<lparr>nd_kind = NodeFile, nd_content = content\<rparr>)"
    using replace_succeeds [OF assms] by blast
  have "sorted_wrt (<) (map fst (ld_bundles s))" "b < ld_next s" using assms by (simp_all add: replaceable_def)
  then have "findBundle t m = (if m = symbolicName x then Some (ld_next s + 1) else findBundle s m)" for m
    by (simp add: findBundle_def t(2) map_of_insert [OF sorted_map_erase] map_of_erase)
  then show ?thesis using True t \<open>b < ld_next s\<close> by (intro exI [of _ "Inr (ld_next s + 1)"] exI [of _ t]) simp
qed

text \<open>The examples of the two properties: installing into an empty loader, and replacing what has been installed.\<close>

definition nothing_installed :: "string loader" where
  "nothing_installed = sample_loader []"

definition old_version :: "string loader" where
  "old_version = (sample_loader [plain_manifest ''a'' (Version 1 1 0 [])])\<lparr>
     ld_files := [''/bundles/x.bndl'' \<mapsto> \<lparr>nd_kind = NodeFile, nd_content = ''1.1.0''\<rparr>]\<rparr>"

lemma sample_archive: "bundle_at archive_env (written ''/b/tmp.bundle-0'' ''1.2.0'' s) ''/b/tmp.bundle-0'' =
    Some (new_bundle ''/b/tmp.bundle-0'' (plain_manifest ''a'' (Version 1 2 0 [])) [])"
proof -
  have "parseVersion ''1.2.0'' = Inr (Version 1 2 0 [])" by code_simp
  then show ?thesis by (simp add: bundle_at_def archive_env_def sample_manifest)
qed

lemma sample_stored: "stored_name (new_bundle p (plain_manifest ''a'' (Version 1 2 0 [])) []) = ''a_1.2.0.bndl''"
  by (simp add: stored_name_def new_bundle_def plain_manifest_def) code_simp

lemma install_all_or_nothing_witness:
  "\<exists>b t. installBundleImpl archive_env True True ''/b/tmp.bundle-0'' ''1.2.0'' ''/b/'' [] nothing_installed = Some (Inr b, t) \<and>
     findBundle t ''a'' = Some b \<and> ld_files t ''/b/a_1.2.0.bndl'' \<noteq> None"
proof -
  let ?x = "new_bundle ''/b/tmp.bundle-0'' (plain_manifest ''a'' (Version 1 2 0 [])) []"
  have name: "symbolicName ?x = ''a''" "stored_name ?x = ''a_1.2.0.bndl''" by (simp_all add: sample_stored) (simp add: new_bundle_def plain_manifest_def)
  have none: "findBundle nothing_installed n = None" "sorted_wrt (<) (map fst (ld_bundles nothing_installed))" for n
    by (simp_all add: nothing_installed_def sample_loader_def findBundle_def)
  have ends: "manifest_ends archive_env (written ''/b/tmp.bundle-0'' ''1.2.0'' nothing_installed) ''/b/tmp.bundle-0''"
    by (auto simp: manifest_ends_def archive_env_def sample_manifest split: sum.splits if_splits)
  have "\<forall>x. bundle_at archive_env (written ''/b/tmp.bundle-0'' ''1.2.0'' nothing_installed) ''/b/tmp.bundle-0'' = Some x \<longrightarrow>
      symbolicName x \<noteq> [] \<and> ''/b/'' @ stored_name x \<noteq> ''/b/tmp.bundle-0''"
    using name by (simp add: sample_archive)
  note all = install_all_or_nothing [OF none(2) ends _ this, of True True]
  have removable: "ev_removable archive_env p" for p by (simp add: archive_env_def)
  show ?thesis
    using all [OF removable] name none(1) unfolding sample_archive by (auto simp: installed_as_def)
qed

lemma replacing_a_bundle_witness:
  "\<exists>t. installBundleImpl archive_env True False ''/b/tmp.bundle-0'' ''1.2.0'' ''/b/'' ''a'' old_version = Some (Inl (FileException ''/b/tmp.bundle-0''), t) \<and>
     findBundle old_version ''a'' \<noteq> None \<and> findBundle t ''a'' = None"
proof -
  let ?x = "new_bundle ''/b/tmp.bundle-0'' (plain_manifest ''a'' (Version 1 2 0 [])) []"
  have name: "symbolicName ?x = ''a''" "stored_name ?x = ''a_1.2.0.bndl''" by (simp_all add: sample_stored) (simp add: new_bundle_def plain_manifest_def)
  have ok: "wf_loader old_version" "sorted_wrt (<) (map fst (ld_bundles old_version))" "findBundle old_version (symbolicName ?x) = Some 0" "0 < ld_next old_version"
    unfolding name by (simp_all add: old_version_def sample_loader_def findBundle_def wf_loader_def new_bundle_def plain_manifest_def)
  have removable: "ev_removable archive_env p" for p by (simp add: archive_env_def)
  have old: "removable_bundle archive_env old_version 0"
    by (simp add: removable_bundle_def activator_known_def old_version_def sample_loader_def new_bundle_def plain_manifest_def isExtensionBundle_def removable)
  have path: "bu_path (ld_heap old_version 0) \<noteq> ''/b/tmp.bundle-0''" by (simp add: old_version_def sample_loader_def new_bundle_def)
  have "replaceable archive_env ''/b/tmp.bundle-0'' ''1.2.0'' ''/b/'' ?x 0 old_version"
    unfolding replaceable_def using ok old path removable name by (simp add: sample_archive)
  then show ?thesis
    using replacing_a_bundle [of archive_env "''/b/tmp.bundle-0''" "''1.2.0''" "''/b/''" ?x 0 old_version False] ok(3) unfolding name by auto
qed

end
