(* ===== verification/BundleWatcher.thy ===== *)
theory BundleWatcher
  imports OspRepository
begin

text \<open>
  \<open>services/BundleWatcher/src/BundleWatcherService.cpp\<close>: the service that watches the directories of the
  repository and installs, replaces and unloads bundles when their files change. What the handlers see of
  the file comes in with the event, attempt by attempt; the loader, the clock and the ignored paths are state.
\<close>

section \<open>Options and directories\<close>

record watch_options =
  wo_scanInterval :: int
  wo_settleDelayMs :: int
  wo_retryCount :: int

definition default_options :: watch_options where
  "default_options = \<lparr>wo_scanInterval = 1, wo_settleDelayMs = 300, wo_retryCount = 20\<rparr>"

type_synonym configuration = "string \<Rightarrow> exc + int option"

definition getIntOr :: "configuration \<Rightarrow> string \<Rightarrow> exc + int \<Rightarrow> exc + int" where
  "getIntOr p key dflt =
     (case dflt of Inl e \<Rightarrow> Inl e
      | Inr d \<Rightarrow> (case p key of Inl e \<Rightarrow> Inl e | Inr None \<Rightarrow> Inr d | Inr (Some v) \<Rightarrow> Inr v))"

definition clamp_options :: "watch_options \<Rightarrow> watch_options" where
  "clamp_options opts =
     opts\<lparr>wo_retryCount := (if wo_retryCount opts < 1 then 1 else wo_retryCount opts),
       wo_scanInterval := (if wo_scanInterval opts < 1 then 1 else wo_scanInterval opts),
       wo_settleDelayMs := (if wo_settleDelayMs opts < 50 then 50 else wo_settleDelayMs opts)\<rparr>"

text \<open>\<open>prefs\<close> is the configuration of the preferences service, when there is one; \<open>props\<close> are the properties of the bundle.\<close>

definition loadOptions :: "configuration option \<Rightarrow> configuration \<Rightarrow> exc + watch_options" where
  "loadOptions prefs props =
     (case prefs of
        None \<Rightarrow> Inr (clamp_options default_options)
      | Some p \<Rightarrow>
          (case getIntOr p ''myiot.bundleWatcher.scanInterval'' (getIntOr props ''bundleWatcher.scanInterval'' (Inr (wo_scanInterval default_options))) of
             Inl e \<Rightarrow> Inl e
           | Inr scanInterval \<Rightarrow>
          (case getIntOr p ''myiot.bundleWatcher.settleDelayMs'' (getIntOr props ''bundleWatcher.settleDelayMs'' (Inr (wo_settleDelayMs default_options))) of
             Inl e \<Rightarrow> Inl e
           | Inr settleDelayMs \<Rightarrow>
          (case getIntOr p ''myiot.bundleWatcher.retryCount'' (getIntOr props ''bundleWatcher.retryCount'' (Inr (wo_retryCount default_options))) of
             Inl e \<Rightarrow> Inl e
           | Inr retryCount \<Rightarrow> Inr (clamp_options \<lparr>wo_scanInterval = scanInterval, wo_settleDelayMs = settleDelayMs, wo_retryCount = retryCount\<rparr>)))))"

fun distinct_directories :: "(string \<Rightarrow> bool) \<Rightarrow> string list \<Rightarrow> string list \<Rightarrow> string list" where
  "distinct_directories isDir [] dirs = dirs"
| "distinct_directories isDir (d # ds) dirs =
     (if isDir d \<and> d \<notin> set dirs then distinct_directories isDir ds (dirs @ [d]) else distinct_directories isDir ds dirs)"

text \<open>\<open>bundleRepository\<close> is the configured list of paths; \<open>tokenize\<close> splits and trims it, \<open>absolute\<close> makes a path absolute.\<close>

definition resolveWatchDirectories :: "(string \<Rightarrow> string \<Rightarrow> string list) \<Rightarrow> (string \<Rightarrow> string) \<Rightarrow> (string \<Rightarrow> bool) \<Rightarrow> string option \<Rightarrow> string list" where
  "resolveWatchDirectories tokenize absolute isDir bundleRepository =
     (case bundleRepository of
        None \<Rightarrow> []
      | Some paths \<Rightarrow> distinct_directories isDir (map absolute (tokenize '';'' paths)) [])"

section \<open>Names of files\<close>

definition isBundleFile :: "path_api \<Rightarrow> string \<Rightarrow> bool" where
  "isBundleFile P path \<longleftrightarrow> pa_same P (pa_extension P path) ''bndl''"

definition symbolicNameFromPath :: "path_api \<Rightarrow> string \<Rightarrow> string" where
  "symbolicNameFromPath P path =
     (let baseName = pa_baseName P path;
          versionPart = rev (takeWhile (\<lambda>c. c \<noteq> CHR ''_'') (rev baseName)) in
      if CHR ''_'' \<notin> set baseName then baseName
      else if versionPart = [] then baseName
      else if \<not> c_isdigit (hd versionPart) then baseName
      else take (length baseName - length versionPart - 1) baseName)"

definition shouldDeferHotReload :: "string \<Rightarrow> bool" where
  "shouldDeferHotReload name \<longleftrightarrow> take 15 name = ''io.myiot.webui.''"

section \<open>The payload\<close>

text \<open>An entry of the archive, with the text it unpacks to.\<close>

record zip_entry =
  ze_name :: string
  ze_isFile :: bool
  ze_text :: "exc + string"

definition endsWithExtensionsXml :: "path_api \<Rightarrow> string \<Rightarrow> bool" where
  "endsWithExtensionsXml P name \<longleftrightarrow> length name \<ge> 14 \<and> pa_same P (drop (length name - 14) name) ''extensions.xml''"

fun scan_entries :: "path_api \<Rightarrow> (string \<Rightarrow> exc + unit) \<Rightarrow> zip_entry list \<Rightarrow> bool" where
  "scan_entries P parse [] = True"
| "scan_entries P parse (e # es) =
     (if \<not> ze_isFile e \<or> \<not> endsWithExtensionsXml P (ze_name e) then scan_entries P parse es
      else case ze_text e of
             Inl x \<Rightarrow> False
           | Inr xml \<Rightarrow> if xml = [] then False else (case parse xml of Inl x \<Rightarrow> False | Inr _ \<Rightarrow> True))"

definition hasValidExtensionsXml :: "path_api \<Rightarrow> ('c \<Rightarrow> exc + zip_entry list) \<Rightarrow> (string \<Rightarrow> exc + unit) \<Rightarrow> 'c \<Rightarrow> bool" where
  "hasValidExtensionsXml P archive parse payload = (case archive payload of Inl e \<Rightarrow> False | Inr es \<Rightarrow> scan_entries P parse es)"

text \<open>What one attempt sees: the file before reading, whether it could be opened, what was read, and the file after the delay.\<close>

record file_look =
  lk_exists :: bool
  lk_isFile :: bool
  lk_size :: nat
  lk_modified :: int

record 'c attempt =
  at_before :: "exc + file_look"
  at_open :: "exc + bool"
  at_content :: "exc + 'c"
  at_after :: "exc + file_look"

definition settled :: "('c \<Rightarrow> bool) \<Rightarrow> file_look \<Rightarrow> 'c \<Rightarrow> file_look \<Rightarrow> bool" where
  "settled good before payload after \<longleftrightarrow>
     lk_exists after \<and> lk_isFile after \<and> lk_size after = lk_size before \<and> lk_modified after = lk_modified before \<and> good payload"

text \<open>
  \<open>tryReadBundlePayload\<close>: \<open>good\<close> says that a payload is not empty and valid, \<open>base\<close> is the time of the last
  modification seen first, and the last argument counts the delays, which are returned with the payload.
\<close>

fun read_attempts :: "('c \<Rightarrow> bool) \<Rightarrow> (nat \<Rightarrow> 'c attempt) \<Rightarrow> nat \<Rightarrow> nat \<Rightarrow> int option \<Rightarrow> nat \<Rightarrow> 'c option \<times> nat" where
  "read_attempts good views 0 k base delays = (None, delays)"
| "read_attempts good views (Suc r) k base delays =
     (case at_before (views k) of
        Inl e \<Rightarrow> read_attempts good views r (k + 1) base (delays + 1)
      | Inr before \<Rightarrow>
          if \<not> lk_exists before \<or> \<not> lk_isFile before then read_attempts good views r (k + 1) base (delays + 1)
          else if lk_size before = 0 then read_attempts good views r (k + 1) base (delays + 1)
          else if base \<noteq> Some (lk_modified before) then read_attempts good views r (k + 1) (Some (lk_modified before)) (delays + 1)
          else case at_open (views k) of
                 Inl e \<Rightarrow> read_attempts good views r (k + 1) base (delays + 1)
               | Inr opened \<Rightarrow>
                   if \<not> opened then read_attempts good views r (k + 1) base (delays + 1)
                   else case at_content (views k) of
                          Inl e \<Rightarrow> read_attempts good views r (k + 1) base (delays + 1)
                        | Inr payload \<Rightarrow>
                            (case at_after (views k) of
                               Inl e \<Rightarrow> read_attempts good views r (k + 1) base (delays + 2)
                             | Inr after \<Rightarrow>
                                 if settled good before payload after then (Some payload, delays + 1)
                                 else read_attempts good views r (k + 1) base (delays + 2)))"

section \<open>The service\<close>

record 'c watcher_env =
  we_osp :: "'c osp_env"
  we_repository :: repository
  we_writable :: bool
  we_renamable :: bool
  we_normalize :: "string \<Rightarrow> string"
  we_clock :: "nat \<Rightarrow> int"
  we_self :: string
  we_installer :: bool
  we_empty :: "'c \<Rightarrow> bool"
  we_archive :: "'c \<Rightarrow> exc + zip_entry list"
  we_xml :: "string \<Rightarrow> exc + unit"
  we_fuel :: nat

abbreviation watch_paths :: "'c watcher_env \<Rightarrow> path_api" where
  "watch_paths E \<equiv> ev_paths (we_osp E)"

datatype watcher_message =
    Deferred string
  | Unstable string
  | NoInstaller
  | NotNormalized string
  | Replaced string
  | Installed string
  | LoadFailed string exc
  | Protected string
  | ForceUnloadFailed string exc
  | Unloaded string
  | NotUnloaded string
  | UnloadedAfterException string
  | UnloadFailed string exc

record 'c watcher =
  wt_loader :: "'c loader"
  wt_ignored :: "string \<rightharpoonup> int"
  wt_options :: watch_options
  wt_watchers :: "string list"
  wt_serial :: "32 word"
  wt_readings :: nat
  wt_log :: "watcher_message list"

type_synonym ('c, 'a) wt = "('c watcher, 'a) prog"

definition on_loader :: "('c, 'a) osp \<Rightarrow> ('c, 'a) wt" where
  "on_loader m w = (case m (wt_loader w) of None \<Rightarrow> None | Some (r, s) \<Rightarrow> Some (r, w\<lparr>wt_loader := s\<rparr>))"

definition log_message :: "watcher_message \<Rightarrow> ('c, unit) wt" where
  "log_message m = p_modify (\<lambda>w. w\<lparr>wt_log := wt_log w @ [m]\<rparr>)"

definition read_clock :: "'c watcher_env \<Rightarrow> ('c, int) wt" where
  "read_clock E = p_bind (p_get wt_readings) (\<lambda>k. p_seq (p_modify (\<lambda>w. w\<lparr>wt_readings := k + 1\<rparr>)) (p_ret (we_clock E k)))"

definition purge_ignored :: "int \<Rightarrow> (string \<rightharpoonup> int) \<Rightarrow> string \<rightharpoonup> int" where
  "purge_ignored now m = (\<lambda>p. case m p of None \<Rightarrow> None | Some expiry \<Rightarrow> if expiry < now then None else Some expiry)"

definition shouldIgnorePath :: "'c watcher_env \<Rightarrow> string \<Rightarrow> ('c, bool) wt" where
  "shouldIgnorePath E path =
     p_bind (read_clock E) (\<lambda>now.
     p_seq (p_modify (\<lambda>w. w\<lparr>wt_ignored := purge_ignored now (wt_ignored w)\<rparr>))
    (p_bind (p_get (\<lambda>w. wt_ignored w (we_normalize E path))) (\<lambda>it.
       case it of
         None \<Rightarrow> p_ret False
       | Some expiry \<Rightarrow>
           if expiry < now then p_seq (p_modify (\<lambda>w. w\<lparr>wt_ignored := (wt_ignored w)(we_normalize E path := None)\<rparr>)) (p_ret False)
           else p_ret True)))"

definition IGNORE_WINDOW :: int where
  "IGNORE_WINDOW = 8 * 1000000"

definition ignorePath :: "'c watcher_env \<Rightarrow> string \<Rightarrow> ('c, unit) wt" where
  "ignorePath E path =
     p_bind (read_clock E) (\<lambda>now.
       p_modify (\<lambda>w. w\<lparr>wt_ignored := (wt_ignored w)(we_normalize E path \<mapsto> now + IGNORE_WINDOW)\<rparr>))"

definition good_payload :: "'c watcher_env \<Rightarrow> 'c \<Rightarrow> bool" where
  "good_payload E payload \<longleftrightarrow> \<not> we_empty E payload \<and> hasValidExtensionsXml (watch_paths E) (we_archive E) (we_xml E) payload"

definition tryReadBundlePayload :: "'c watcher_env \<Rightarrow> watch_options \<Rightarrow> (nat \<Rightarrow> 'c attempt) \<Rightarrow> 'c option \<times> nat" where
  "tryReadBundlePayload E opts views = read_attempts (good_payload E) views (nat (wo_retryCount opts)) 0 None 0"

text \<open>\<open>rm k\<close>: the \<open>k\<close>-th attempt to remove the file succeeds.\<close>

fun remove_attempts :: "(nat \<Rightarrow> bool) \<Rightarrow> string \<Rightarrow> nat \<Rightarrow> nat \<Rightarrow> ('c, bool) osp" where
  "remove_attempts rm path 0 k = p_ret False"
| "remove_attempts rm path (Suc r) k =
     p_bind (p_get (\<lambda>s. ld_files s path)) (\<lambda>f.
       if f = None then p_ret True
       else if rm k then p_seq (p_modify (\<lambda>s. s\<lparr>ld_files := (ld_files s)(path := None)\<rparr>)) (p_ret True)
       else remove_attempts rm path r (k + 1))"

definition tryRemoveIncomingBundleFile :: "watch_options \<Rightarrow> (nat \<Rightarrow> bool) \<Rightarrow> string \<Rightarrow> ('c, bool) osp" where
  "tryRemoveIncomingBundleFile opts rm path = remove_attempts rm path (nat (wo_retryCount opts)) 0"

definition findBundleByPath :: "'c watcher_env \<Rightarrow> 'c loader \<Rightarrow> string \<Rightarrow> nat option" where
  "findBundleByPath E s path = find (\<lambda>b. we_normalize E (bu_path (ld_heap s b)) = we_normalize E path) (listBundles s)"

definition tryForceUnload :: "'c watcher_env \<Rightarrow> nat \<Rightarrow> ('c, bool) wt" where
  "tryForceUnload E b =
     p_bind (p_get (\<lambda>w. name_of (wt_loader w) b)) (\<lambda>name.
       p_catch (p_seq (on_loader (unloadBundle (we_osp E) b)) (p_ret True))
         (\<lambda>e. p_seq (log_message (ForceUnloadFailed name e)) (p_ret False)))"

section \<open>The handlers\<close>

text \<open>The bundle is replaced or installed; the serial number of the temporary name is used up.\<close>

definition install_payload :: "'c watcher_env \<Rightarrow> 'c \<Rightarrow> string \<Rightarrow> ('c, nat) wt" where
  "install_payload E payload old =
     p_bind (p_get wt_serial) (\<lambda>serial.
     p_seq (p_modify (\<lambda>w. w\<lparr>wt_serial := snd (tempBundleName serial)\<rparr>))
           (on_loader (installBundle (we_osp E) (we_writable E) (we_renamable E) (we_repository E) serial payload None old)))"

definition bring_up :: "'c watcher_env \<Rightarrow> nat \<Rightarrow> ('c, unit) osp" where
  "bring_up E b =
     p_bind (getBundle b) (\<lambda>x.
     p_seq (if bu_state x = BUNDLE_INSTALLED then resolve (we_osp E) (we_fuel E) b else p_ret ())
           (p_bind (getBundle b) (\<lambda>y.
              if bu_state y = BUNDLE_RESOLVED \<and> \<not> mf_lazyStart (bu_manifest y) then start (we_osp E) (we_fuel E) b else p_ret ())))"

text \<open>The \<open>try\<close> block of \<open>handleBundleAvailable\<close>.\<close>

definition install_or_replace :: "'c watcher_env \<Rightarrow> string \<Rightarrow> string \<Rightarrow> 'c \<Rightarrow> (nat \<Rightarrow> bool) \<Rightarrow> ('c, unit) wt" where
  "install_or_replace E path name payload rm =
     p_seq (ignorePath E path)
    (p_bind (p_get (\<lambda>w. findBundle (wt_loader w) name)) (\<lambda>existing.
       if existing \<noteq> None then
         p_bind (install_payload E payload name) (\<lambda>b.
         p_seq (log_message (Replaced name)) (on_loader (bring_up E b)))
       else
         p_bind (p_get wt_options) (\<lambda>opts.
         p_bind (on_loader (tryRemoveIncomingBundleFile opts rm path)) (\<lambda>removed.
           if \<not> removed then log_message (NotNormalized path)
           else
             p_bind (install_payload E payload []) (\<lambda>b.
             p_bind (p_get (\<lambda>w. name_of (wt_loader w) b)) (\<lambda>installed.
             p_seq (log_message (Installed installed)) (on_loader (bring_up E b))))))))"

definition handleBundleAvailable :: "'c watcher_env \<Rightarrow> (nat \<Rightarrow> 'c attempt) \<Rightarrow> (nat \<Rightarrow> bool) \<Rightarrow> string \<Rightarrow> ('c, unit) wt" where
  "handleBundleAvailable E views rm path =
     (if \<not> isBundleFile (watch_paths E) path then p_ret ()
      else
        p_bind (shouldIgnorePath E path) (\<lambda>ignored.
        if ignored then p_ret ()
        else
          p_bind (shouldIgnorePath E path) (\<lambda>ignored.
          if ignored then p_ret ()
          else
            let name = symbolicNameFromPath (watch_paths E) path in
            if name = [] \<or> name = we_self E then p_ret ()
            else if shouldDeferHotReload name then p_seq (ignorePath E path) (log_message (Deferred name))
            else
              p_bind (p_get (\<lambda>w. fst (tryReadBundlePayload E (wt_options w) views))) (\<lambda>read.
                case read of
                  None \<Rightarrow> log_message (Unstable path)
                | Some payload \<Rightarrow>
                    if \<not> we_installer E then log_message NoInstaller
                    else p_catch (install_or_replace E path name payload rm) (\<lambda>e. log_message (LoadFailed path e))))))"

text \<open>The \<open>try\<close> block of \<open>handleBundleRemoved\<close> and its handler.\<close>

definition stop_and_unload :: "'c watcher_env \<Rightarrow> nat \<Rightarrow> ('c, unit) wt" where
  "stop_and_unload E b =
     p_bind (on_loader (getBundle b)) (\<lambda>x.
     p_seq (ignorePath E (bu_path x))
    (p_seq (if bu_state x = BUNDLE_ACTIVE then on_loader (stop (we_osp E) b) else p_ret ())
    (p_bind (on_loader (getBundle b)) (\<lambda>y.
       if bu_state y = BUNDLE_RESOLVED \<or> bu_state y = BUNDLE_INSTALLED then
         p_bind (tryForceUnload E b) (\<lambda>unloaded.
           if unloaded then log_message (Unloaded (symbolicName y)) else log_message (NotUnloaded (symbolicName y)))
       else p_ret ()))))"

definition removal_failed :: "'c watcher_env \<Rightarrow> nat \<Rightarrow> exc \<Rightarrow> ('c, unit) wt" where
  "removal_failed E b e =
     p_bind (on_loader (getBundle b)) (\<lambda>x.
     p_bind (p_get (\<lambda>w. ld_files (wt_loader w) (bu_path x))) (\<lambda>f.
       if f = None \<and> \<not> isStarted x then
         p_bind (tryForceUnload E b) (\<lambda>unloaded.
           log_message (if unloaded then UnloadedAfterException (symbolicName x) else UnloadFailed (symbolicName x) e))
       else log_message (UnloadFailed (symbolicName x) e)))"

definition findRemovedBundle :: "'c watcher_env \<Rightarrow> 'c loader \<Rightarrow> string \<Rightarrow> nat option" where
  "findRemovedBundle E s path =
     (case findBundleByPath E s path of
        Some b \<Rightarrow> Some b
      | None \<Rightarrow> if symbolicNameFromPath (watch_paths E) path \<noteq> [] then findBundle s (symbolicNameFromPath (watch_paths E) path) else None)"

definition handleBundleRemoved :: "'c watcher_env \<Rightarrow> string \<Rightarrow> ('c, unit) wt" where
  "handleBundleRemoved E path =
     (if \<not> isBundleFile (watch_paths E) path then p_ret ()
      else
        p_bind (shouldIgnorePath E path) (\<lambda>ignored.
        if ignored then p_ret ()
        else
          p_bind (shouldIgnorePath E path) (\<lambda>ignored.
          if ignored then p_ret ()
          else
            p_bind (p_get (\<lambda>w. findRemovedBundle E (wt_loader w) path)) (\<lambda>found.
              case found of
                None \<Rightarrow> p_ret ()
              | Some b \<Rightarrow>
                  p_bind (on_loader (getBundle b)) (\<lambda>x.
                    if symbolicName x = we_self E then p_ret ()
                    else if shouldDeferHotReload (symbolicName x) then p_seq (ignorePath E path) (log_message (Deferred (symbolicName x)))
                    else if mf_preventUninstall (bu_manifest x) then log_message (Protected (symbolicName x))
                    else p_catch (stop_and_unload E b) (removal_failed E b))))))"

section \<open>Watching\<close>

text \<open>\<open>startWatching\<close>; \<open>watch\<close> tells whether a directory can be watched. What has been created before a failure stays.\<close>

fun create_watchers :: "(string \<Rightarrow> exc + unit) \<Rightarrow> string list \<Rightarrow> ('c, unit) wt" where
  "create_watchers watch [] = p_ret ()"
| "create_watchers watch (d # ds) =
     p_seq (p_lift (watch d)) (p_seq (p_modify (\<lambda>w. w\<lparr>wt_watchers := wt_watchers w @ [d]\<rparr>)) (create_watchers watch ds))"

definition startWatching :: "configuration option \<Rightarrow> configuration \<Rightarrow> string list \<Rightarrow> (string \<Rightarrow> exc + unit) \<Rightarrow> ('c, unit) wt" where
  "startWatching prefs props directories watch =
     p_bind (p_get wt_watchers) (\<lambda>watchers.
       if watchers \<noteq> [] then p_ret ()
       else
         p_bind (p_lift (loadOptions prefs props)) (\<lambda>opts.
         p_seq (p_modify (\<lambda>w. w\<lparr>wt_options := opts\<rparr>)) (create_watchers watch directories)))"

definition stopWatching :: "('c, unit) wt" where
  "stopWatching = p_modify (\<lambda>w. w\<lparr>wt_watchers := []\<rparr>)"

datatype 'c watch_event =
    ItemAdded "nat \<Rightarrow> 'c attempt" "nat \<Rightarrow> bool" string
  | ItemRemoved string
  | ItemModified "nat \<Rightarrow> 'c attempt" "nat \<Rightarrow> bool" string
  | ItemMovedTo "nat \<Rightarrow> 'c attempt" "nat \<Rightarrow> bool" string

primrec on_event :: "'c watcher_env \<Rightarrow> 'c watch_event \<Rightarrow> ('c, unit) wt" where
  "on_event E (ItemAdded views rm path) = handleBundleAvailable E views rm path"
| "on_event E (ItemRemoved path) = handleBundleRemoved E path"
| "on_event E (ItemModified views rm path) = handleBundleAvailable E views rm path"
| "on_event E (ItemMovedTo views rm path) = handleBundleAvailable E views rm path"

section \<open>Reading the payload\<close>

text \<open>Attempt \<open>k\<close> reads the payload of a file that is as it was before, and has been since attempt \<open>j\<close> or whenever \<open>base\<close> was set.\<close>

definition stable_read :: "('c \<Rightarrow> bool) \<Rightarrow> (nat \<Rightarrow> 'c attempt) \<Rightarrow> nat \<Rightarrow> file_look \<Rightarrow> 'c \<Rightarrow> bool" where
  "stable_read good views k before payload \<longleftrightarrow>
     at_before (views k) = Inr before \<and> lk_exists before \<and> lk_isFile before \<and> lk_size before \<noteq> 0 \<and>
     at_open (views k) = Inr True \<and> at_content (views k) = Inr payload \<and> (\<exists>after. at_after (views k) = Inr after \<and> settled good before payload after)"

lemma read_attempts_sound:
  assumes "read_attempts good views r k base n = (Some payload, d)"
  shows "\<exists>i before. k \<le> i \<and> i < k + r \<and> stable_read good views i before payload \<and>
    (base = Some (lk_modified before) \<or> (\<exists>j look. k \<le> j \<and> j < i \<and> at_before (views j) = Inr look \<and> lk_modified look = lk_modified before))"
  using assms
proof (induction r arbitrary: k base n)
  case (Suc r)
  have later: ?case if run: "read_attempts good views r (Suc k) base' n' = (Some payload, d)"
    and base: "base' = base \<or> (\<exists>look. at_before (views k) = Inr look \<and> base' = Some (lk_modified look))" for base' n'
  proof -
    obtain i before where i: "Suc k \<le> i" "i < Suc k + r" "stable_read good views i before payload"
      and since: "base' = Some (lk_modified before) \<or> (\<exists>j look. Suc k \<le> j \<and> j < i \<and> at_before (views j) = Inr look \<and> lk_modified look = lk_modified before)"
      using Suc.IH [OF run] by blast
    have "base = Some (lk_modified before) \<or> (\<exists>j look. k \<le> j \<and> j < i \<and> at_before (views j) = Inr look \<and> lk_modified look = lk_modified before)"
      using since
    proof
      assume now: "base' = Some (lk_modified before)"
      from base show ?thesis
      proof
        assume "\<exists>look. at_before (views k) = Inr look \<and> base' = Some (lk_modified look)"
        then show ?thesis using now i(1) by (metis Suc_le_lessD option.inject order_refl)
      qed (use now in simp)
    next
      assume "\<exists>j look. Suc k \<le> j \<and> j < i \<and> at_before (views j) = Inr look \<and> lk_modified look = lk_modified before"
      then show ?thesis by (metis Suc_leD)
    qed
    then show ?thesis using i by (intro exI [of _ i] exI [of _ before]) auto
  qed
  show ?case
  proof (cases "at_before (views k)")
    case (Inl e)
    then show ?thesis using Suc.prems by (intro later) auto
  next
    case (Inr before)
    consider "\<not> (lk_exists before \<and> lk_isFile before \<and> lk_size before \<noteq> 0)"
      | "lk_exists before \<and> lk_isFile before \<and> lk_size before \<noteq> 0" "base \<noteq> Some (lk_modified before)"
      | "lk_exists before \<and> lk_isFile before \<and> lk_size before \<noteq> 0" "base = Some (lk_modified before)" by blast
    then show ?thesis
    proof cases
      case 1
      then show ?thesis using Suc.prems Inr by (intro later [of base "n + 1"]) (auto split: if_splits)
    next
      case 2
      then show ?thesis using Suc.prems Inr by (intro later [of "Some (lk_modified before)" "n + 1"]) auto
    next
      case 3
      have "(\<exists>n'. read_attempts good views r (Suc k) base n' = (Some payload, d)) \<or> stable_read good views k before payload"
        using Suc.prems Inr 3 by (auto simp: stable_read_def split: sum.splits if_splits)
      then show ?thesis
      proof
        assume "stable_read good views k before payload"
        then show ?thesis using 3(2) by (intro exI [of _ k] exI [of _ before]) simp
      next
        assume "\<exists>n'. read_attempts good views r (Suc k) base n' = (Some payload, d)"
        then obtain n' where "read_attempts good views r (Suc k) base n' = (Some payload, d)" by blast
        then show ?thesis by (rule later) simp
      qed
    qed
  qed
qed simp

lemma read_attempts_delays: "snd (read_attempts good views r k base n) \<le> n + 2 * r"
proof (induction r arbitrary: k base n)
  case (Suc r)
  have "snd (read_attempts good views r (k + 1) b (n + 1)) \<le> n + 2 * Suc r" "snd (read_attempts good views r (k + 1) b (n + 2)) \<le> n + 2 * Suc r" for b
    using Suc.IH [of "k + 1" b "n + 1"] Suc.IH [of "k + 1" b "n + 2"] by simp_all
  then show ?case by (simp split: sum.split)
qed simp

text \<open>C28: A payload is accepted only when the file was there, was not empty and had been seen with the same time of modification at an
  earlier attempt, its size and time were the same after the reading and a delay as before, and the payload is not empty and has
  no broken \<open>extensions.xml\<close>. With a single attempt nothing is ever accepted. The handler waits at most twice per attempt.\<close>

theorem accepted_payload_is_stable:
  shows "(fst (tryReadBundlePayload E opts views) = Some payload \<longrightarrow>
      (\<exists>i j before look. j < i \<and> int i < wo_retryCount opts \<and> stable_read (good_payload E) views i before payload \<and>
         at_before (views j) = Inr look \<and> lk_modified look = lk_modified before)) \<and>
    (wo_retryCount opts \<le> 1 \<longrightarrow> fst (tryReadBundlePayload E opts views) = None) \<and>
    snd (tryReadBundlePayload E opts views) \<le> 2 * nat (wo_retryCount opts)"
proof -
  have sound: "\<exists>i j before look. j < i \<and> int i < wo_retryCount opts \<and> stable_read (good_payload E) views i before p \<and>
      at_before (views j) = Inr look \<and> lk_modified look = lk_modified before"
    if read: "fst (tryReadBundlePayload E opts views) = Some p" for p
  proof -
    obtain d where "read_attempts (good_payload E) views (nat (wo_retryCount opts)) 0 None 0 = (Some p, d)"
      using read by (metis prod.collapse tryReadBundlePayload_def)
    from read_attempts_sound [OF this] obtain i before j look where
      i: "i < nat (wo_retryCount opts)" "stable_read (good_payload E) views i before p" "j < i" "at_before (views j) = Inr look" "lk_modified look = lk_modified before"
      by auto
    then have "int i < wo_retryCount opts" by linarith
    then show ?thesis using i by blast
  qed
  moreover have "fst (tryReadBundlePayload E opts views) = None" if "wo_retryCount opts \<le> 1"
  proof (rule ccontr)
    assume "\<not> ?thesis"
    then obtain p where "fst (tryReadBundlePayload E opts views) = Some p" by blast
    from sound [OF this] show False using that by auto
  qed
  moreover have "snd (tryReadBundlePayload E opts views) \<le> 2 * nat (wo_retryCount opts)"
    using read_attempts_delays [of "good_payload E" views "nat (wo_retryCount opts)" 0 None 0] by (simp add: tryReadBundlePayload_def)
  ultimately show ?thesis by blast
qed

text \<open>The example: a file that holds the version of its bundle, and is not touched any more.\<close>

definition untouched_file :: "'c \<Rightarrow> nat \<Rightarrow> 'c attempt" where
  "untouched_file c k =
     (let look = \<lparr>lk_exists = True, lk_isFile = True, lk_size = 5, lk_modified = 100\<rparr> in
      \<lparr>at_before = Inr look, at_open = Inr True, at_content = Inr c, at_after = Inr look\<rparr>)"

definition watched_repository :: "string watcher_env" where
  "watched_repository = \<lparr>we_osp = archive_env, we_repository = directory_of_three, we_writable = True, we_renamable = True,
     we_normalize = (\<lambda>p. p), we_clock = (\<lambda>k. int k), we_self = ''io.myiot.services.bundlewatcher'', we_installer = True,
     we_empty = (\<lambda>c. c = []), we_archive = (\<lambda>c. Inr []), we_xml = (\<lambda>t. Inr ()), we_fuel = 3\<rparr>"

lemma untouched_is_read:
  assumes "good_payload E c" and "2 \<le> wo_retryCount opts"
  shows "tryReadBundlePayload E opts (untouched_file c) = (Some c, 2)"
proof -
  obtain r where "nat (wo_retryCount opts) = Suc (Suc r)" using assms(2) by (metis Suc_nat_eq_nat_zadd1 add.commute nat_0_le numeral_2_eq_2 nat_mono nat_numeral Suc_le_D le_Suc_ex add_2_eq_Suc)
  then show ?thesis using assms(1) by (simp add: tryReadBundlePayload_def untouched_file_def settled_def Let_def)
qed

lemma sample_payload: "c \<noteq> [] \<Longrightarrow> good_payload watched_repository c"
  by (simp add: good_payload_def watched_repository_def hasValidExtensionsXml_def)

lemma accepted_payload_is_stable_witness:
  "\<exists>i before. tryReadBundlePayload watched_repository default_options (untouched_file ''1.2.0'') = (Some ''1.2.0'', 2) \<and>
     stable_read (good_payload watched_repository) (untouched_file ''1.2.0'') i before ''1.2.0''"
proof -
  have "tryReadBundlePayload watched_repository default_options (untouched_file ''1.2.0'') = (Some ''1.2.0'', 2)"
    by (rule untouched_is_read) (simp_all add: sample_payload default_options_def)
  then show ?thesis
    using accepted_payload_is_stable [of watched_repository default_options "untouched_file ''1.2.0''" "''1.2.0''"] by auto
qed

section \<open>File names and symbolic names\<close>

definition plain_version :: "version \<Rightarrow> bool" where
  "plain_version v \<longleftrightarrow> small_version v \<and> CHR ''_'' \<notin> set (v_designation v) \<and> CHR ''/'' \<notin> set (v_designation v)"

lemma version_text_chars:
  assumes "plain_version v"
  shows "version_toString v \<noteq> []" "c_isdigit (hd (version_toString v))" "CHR ''_'' \<notin> set (version_toString v)" "CHR ''/'' \<notin> set (version_toString v)"
proof -
  have small: "0 \<le> v_major v" "0 \<le> v_minor v" "0 \<le> v_revision v"
    using assms by (simp_all add: plain_version_def small_version_def small_number_def)
  have shown: "show_int i = show_nat (nat i)" if "0 \<le> i" for i using that by (simp add: show_int_def)
  have digits: "CHR ''_'' \<notin> set (show_nat n)" "CHR ''/'' \<notin> set (show_nat n)" for n
    using show_nat_digits [of "CHR ''_''" n] show_nat_digits [of "CHR ''/''" n] by (auto simp: c_isdigit_def)
  show "version_toString v \<noteq> []" by (simp add: version_toString_def shown small)
  show "c_isdigit (hd (version_toString v))"
    using show_nat_digits [of "hd (show_nat (nat (v_major v)))" "nat (v_major v)"] by (simp add: version_toString_def shown small)
  show "CHR ''_'' \<notin> set (version_toString v)" "CHR ''/'' \<notin> set (version_toString v)"
    using assms digits by (auto simp: version_toString_def shown small plain_version_def)
qed

text \<open>The watcher reads back the names the repository gives to its files: the path under which a bundle is stored is that of a
  bundle file, and its symbolic name is found in it, underscores in the name included. A designation with an underscore is
  excluded: the name would be cut there.\<close>

theorem stored_name_round_trip:
  assumes "path_laws P" and "plain_version (bundle_version x)" and "CHR ''/'' \<notin> set (symbolicName x)"
  shows "symbolicNameFromPath P (dir @ ''/'' @ stored_name x) = symbolicName x \<and> isBundleFile P (dir @ ''/'' @ stored_name x)"
proof -
  let ?n = "symbolicName x" and ?v = "version_toString (bundle_version x)"
  note chars = version_text_chars [OF assms(2)]
  have law: "pa_baseName P (dir @ ''/'' @ b @ ''.'' @ ''bndl'') = b \<and> pa_extension P (dir @ ''/'' @ b @ ''.'' @ ''bndl'') = ''bndl''" if "CHR ''/'' \<notin> set b" for b
    using assms(1) that unfolding path_laws_def by simp
  have parts: "pa_baseName P (dir @ ''/'' @ stored_name x) = ?n @ CHR ''_'' # ?v" "pa_extension P (dir @ ''/'' @ stored_name x) = ''bndl''"
    using law [of "?n @ CHR ''_'' # ?v"] assms(3) chars by (simp_all add: stored_name_def)
  have "takeWhile (\<lambda>c. c \<noteq> CHR ''_'') (rev (?n @ CHR ''_'' # ?v)) = rev ?v"
    using chars(3) by (simp add: takeWhile_append takeWhile_all)
  then have part: "rev (takeWhile (\<lambda>c. c \<noteq> CHR ''_'') (rev (?n @ CHR ''_'' # ?v))) = ?v" by simp
  have "symbolicNameFromPath P (dir @ ''/'' @ stored_name x) = ?n"
    unfolding symbolicNameFromPath_def parts part Let_def using chars(1,2) by simp
  moreover have "isBundleFile P (dir @ ''/'' @ stored_name x)"
    using assms(1) unfolding isBundleFile_def parts path_laws_def by simp
  ultimately show ?thesis by blast
qed

lemma stored_name_round_trip_witness:
  "symbolicNameFromPath sample_paths (''/bundles/'' @ stored_name (new_bundle [] (plain_manifest ''io.my_iot'' (Version 1 2 0 ''rc1'')) [])) = ''io.my_iot''"
  using stored_name_round_trip [OF sample_path_laws, of "new_bundle [] (plain_manifest ''io.my_iot'' (Version 1 2 0 ''rc1'')) []" "''/bundles''"]
  by (simp add: plain_version_def small_version_def small_number_def new_bundle_def plain_manifest_def)

section \<open>Bringing up a bundle that needs nothing\<close>

definition self_contained :: "osp_bundle \<Rightarrow> bool" where
  "self_contained x \<longleftrightarrow> mf_requiredBundles (bu_manifest x) = [] \<and> mf_requiredModules (bu_manifest x) = [] \<and> mf_extendedBundle (bu_manifest x) = [] \<and>
     mf_activatorClass (bu_manifest x) = [] \<and> \<not> mf_lazyStart (bu_manifest x) \<and> bu_libraries x = []"

definition up_and_running :: "nat \<Rightarrow> 'c loader \<Rightarrow> 'c loader \<Rightarrow> bool" where
  "up_and_running b s t \<longleftrightarrow>
     ld_heap t = (ld_heap s)(b := (ld_heap s b)\<lparr>bu_resolved := [], bu_providers := [], bu_state := BUNDLE_ACTIVE\<rparr>) \<and> ld_files t = ld_files s \<and>
     ld_bundles t = map (\<lambda>(k, i). if k = name_of s b then (k, i\<lparr>bi_classLoader := Some []\<rparr>) else (k, i)) (ld_bundles s)"

lemma resolve_self_contained:
  assumes "self_contained (ld_heap s b)" and "bu_state (ld_heap s b) = BUNDLE_INSTALLED" and "b \<notin> ld_resolving s"
  shows "resolve E (Suc n) b s = Some (Inr (), s\<lparr>ld_trace := ld_trace s @ [Fired EV_BUNDLE_RESOLVING b, Fired EV_BUNDLE_RESOLVED b],
    ld_heap := (ld_heap s)(b := (ld_heap s b)\<lparr>bu_resolved := [], bu_providers := [], bu_state := BUNDLE_RESOLVED\<rparr>)\<rparr>)"
proof -
  have released: "insert b (ld_resolving s) - {b} = ld_resolving s" using assms(3) by blast
  show ?thesis
    using assms by (simp add: resolve_body_def resolveBundle_def resolveRequirements_def resolveProviders_def resolveDependencies_def
        installLibraries_def extendBundle_def isExtensionBundle_def self_contained_def released p_seq_def p_bind_def p_catch_def)
qed

lemma start_self_contained:
  assumes "self_contained (ld_heap s b)" and "bu_state (ld_heap s b) = BUNDLE_RESOLVED" and "bu_resolved (ld_heap s b) = []"
    and "map_of (ld_bundles s) (name_of s b) = Some \<lparr>bi_bundle = b, bi_classLoader = None\<rparr>"
  shows "\<exists>t. start E (Suc n) b s = Some (Inr (), t) \<and> ld_heap t = (ld_heap s)(b := (ld_heap s b)\<lparr>bu_state := BUNDLE_ACTIVE\<rparr>) \<and> ld_files t = ld_files s \<and>
    ld_bundles t = map (\<lambda>(k, i). if k = name_of s b then (k, i\<lparr>bi_classLoader := Some []\<rparr>) else (k, i)) (ld_bundles s)"
  using assms by (simp add: start_body_def startBundle_def startDependencies_def loadActivator_def setClassLoader_def self_contained_def
      p_seq_def p_bind_def p_catch_def)

lemma bring_up_self_contained:
  assumes "self_contained (ld_heap s b)" and "bu_state (ld_heap s b) = BUNDLE_INSTALLED" and "b \<notin> ld_resolving s"
    and "map_of (ld_bundles s) (name_of s b) = Some \<lparr>bi_bundle = b, bi_classLoader = None\<rparr>" and "0 < we_fuel E"
  shows "\<exists>t. bring_up E b s = Some (Inr (), t) \<and> up_and_running b s t"
proof -
  obtain n where n: "we_fuel E = Suc n" using assms(5) by (cases "we_fuel E") auto
  let ?x = "(ld_heap s b)\<lparr>bu_resolved := [], bu_providers := [], bu_state := BUNDLE_RESOLVED\<rparr>"
  let ?r = "s\<lparr>ld_trace := ld_trace s @ [Fired EV_BUNDLE_RESOLVING b, Fired EV_BUNDLE_RESOLVED b], ld_heap := (ld_heap s)(b := ?x)\<rparr>"
  have r: "resolve (we_osp E) (we_fuel E) b s = Some (Inr (), ?r)"
    unfolding n by (rule resolve_self_contained [OF assms(1-3)])
  have "self_contained (ld_heap ?r b)" "bu_state (ld_heap ?r b) = BUNDLE_RESOLVED" "bu_resolved (ld_heap ?r b) = []"
    "map_of (ld_bundles ?r) (name_of ?r b) = Some \<lparr>bi_bundle = b, bi_classLoader = None\<rparr>" using assms(1,4) by (simp_all add: self_contained_def)
  from start_self_contained [OF this, of "we_osp E" n] obtain t where
    t: "start (we_osp E) (we_fuel E) b ?r = Some (Inr (), t)" "ld_heap t = (ld_heap ?r)(b := (ld_heap ?r b)\<lparr>bu_state := BUNDLE_ACTIVE\<rparr>)" "ld_files t = ld_files ?r"
      "ld_bundles t = map (\<lambda>(k, i). if k = name_of ?r b then (k, i\<lparr>bi_classLoader := Some []\<rparr>) else (k, i)) (ld_bundles ?r)"
    unfolding n by blast
  have "\<not> mf_lazyStart (bu_manifest (ld_heap s b))" using assms(1) by (simp add: self_contained_def)
  then have "bring_up E b s = Some (Inr (), t)"
    using r t(1) assms(2) by (simp add: bring_up_def p_seq_def p_bind_def)
  then show ?thesis using t by (auto simp: up_and_running_def)
qed

section \<open>An upgrade, and what follows it\<close>

lemma shouldIgnorePath_clear:
  assumes "wt_ignored w (we_normalize E path) = None"
  shows "\<exists>g k. shouldIgnorePath E path w = Some (Inr False, w\<lparr>wt_readings := k, wt_ignored := g\<rparr>) \<and> (\<forall>p. wt_ignored w p = None \<longrightarrow> g p = None)"
proof -
  let ?g = "purge_ignored (we_clock E (wt_readings w)) (wt_ignored w)"
  have "?g p = None" if "wt_ignored w p = None" for p using that by (simp add: purge_ignored_def)
  moreover from this [OF assms] have "shouldIgnorePath E path w = Some (Inr False, w\<lparr>wt_readings := wt_readings w + 1, wt_ignored := ?g\<rparr>)"
    by (simp add: shouldIgnorePath_def read_clock_def p_seq_def p_bind_def)
  ultimately show ?thesis by blast
qed

lemma on_loader_run [simp]:
  "m (wt_loader w) = Some (r, s) \<Longrightarrow> on_loader m w = Some (r, w\<lparr>wt_loader := s\<rparr>)"
  by (simp add: on_loader_def)

lemma unload_run:
  assumes "activator_known E s b" and "\<not> isExtensionBundle (ld_heap s b)" and "\<not> isStarted (ld_heap s b)"
  shows "\<exists>tr ids. unloadBundle E b s = Some (Inr (), s\<lparr>ld_bundles := map_erase (name_of s b) (ld_bundles s), ld_ids := ids, ld_trace := tr\<rparr>)"
proof -
  obtain m where "drop_activator E (ld_heap s b) s = Some (Inr (), s\<lparr>ld_bundles := m\<rparr>)" "map_erase (name_of s b) m = map_erase (name_of s b) (ld_bundles s)"
    using drop_activator_run [OF assms(1)] by blast
  then have "unloadBundle E b s = Some (Inr (), s\<lparr>ld_bundles := map_erase (name_of s b) (ld_bundles s), ld_ids := (ld_ids s)(b := None),
      ld_trace := ld_trace s @ [Fired EV_BUNDLE_UNLOADED b]\<rparr>)"
    using assms(2,3) by (simp add: unloadBundle_def detach_extension_def forget_bundle_def p_seq_def p_bind_def)
  then show ?thesis by blast
qed

text \<open>A file is removed, and the bundle found for it is active.\<close>

lemma removal_unloads:
  assumes bndl: "isBundleFile (watch_paths E) path" and clear: "wt_ignored w (we_normalize E path) = None"
    and found: "findRemovedBundle E (wt_loader w) path = Some b"
    and other: "name_of (wt_loader w) b \<noteq> we_self E" "\<not> shouldDeferHotReload (name_of (wt_loader w) b)" "\<not> mf_preventUninstall (bu_manifest (ld_heap (wt_loader w) b))"
    and b: "bu_state (ld_heap (wt_loader w) b) = BUNDLE_ACTIVE" "\<not> isExtensionBundle (ld_heap (wt_loader w) b)" "activator_known (we_osp E) (wt_loader w) b"
    and stops: "stops_cleanly (we_osp E)"
  shows "\<exists>w'. handleBundleRemoved E path w = Some (Inr (), w') \<and> ld_files (wt_loader w') = ld_files (wt_loader w) \<and>
    ld_bundles (wt_loader w') = map_erase (name_of (wt_loader w) b) (ld_bundles (wt_loader w))"
proof -
  obtain g k where 1: "shouldIgnorePath E path w = Some (Inr False, w\<lparr>wt_readings := k, wt_ignored := g\<rparr>)" "g (we_normalize E path) = None"
    using shouldIgnorePath_clear [OF clear] clear by blast
  let ?w1 = "w\<lparr>wt_readings := k, wt_ignored := g\<rparr>"
  have "wt_ignored ?w1 (we_normalize E path) = None" using 1(2) by simp
  from shouldIgnorePath_clear [OF this] obtain h l where 2: "shouldIgnorePath E path ?w1 = Some (Inr False, ?w1\<lparr>wt_readings := l, wt_ignored := h\<rparr>)" by blast
  define v where "v = w\<lparr>wt_readings := l, wt_ignored := h\<rparr>"
  have v [simp]: "wt_loader v = wt_loader w" "v\<lparr>wt_loader := wt_loader w\<rparr> = v" by (simp_all add: v_def)
  define s where "s = wt_loader w"
  let ?x = "ld_heap s b" and ?t = "with_state b BUNDLE_RESOLVED (stop_actions s b) s"
  let ?u = "v\<lparr>wt_ignored := (wt_ignored v)(we_normalize E (bu_path ?x) \<mapsto> we_clock E (wt_readings v) + IGNORE_WINDOW), wt_readings := wt_readings v + 1\<rparr>"
  have stop: "stop (we_osp E) b s = Some (Inr (), ?t)"
    using b stops by (intro stop_run) (auto simp: s_def isActive_def activator_known_def)
  have "libraryPathFor (we_osp E) ?t (ld_heap ?t b) = libraryPathFor (we_osp E) s ?x" by (simp add: libraryPathFor_def libraryNameFor_def with_state_def)
  then have "activator_known (we_osp E) ?t b" using b(3) by (simp add: s_def activator_known_def with_state_def)
  moreover have "\<not> isExtensionBundle (ld_heap ?t b)" "\<not> isStarted (ld_heap ?t b)" using b(2) by (simp_all add: s_def isExtensionBundle_def isStarted_def)
  ultimately obtain tr ids where unload: "unloadBundle (we_osp E) b ?t = Some (Inr (), ?t\<lparr>ld_bundles := map_erase (name_of ?t b) (ld_bundles ?t), ld_ids := ids, ld_trace := tr\<rparr>)"
    using unload_run by blast
  let ?s' = "?t\<lparr>ld_bundles := map_erase (name_of ?t b) (ld_bundles ?t), ld_ids := ids, ld_trace := tr\<rparr>"
  have "stop_and_unload E b v = Some (Inr (), ?u\<lparr>wt_loader := ?s', wt_log := wt_log v @ [Unloaded (name_of s b)]\<rparr>)"
    using b(1) stop unload
    by (simp add: s_def stop_and_unload_def ignorePath_def read_clock_def tryForceUnload_def log_message_def p_seq_def p_bind_def p_catch_def on_loader_def)
  then have "handleBundleRemoved E path w = Some (Inr (), ?u\<lparr>wt_loader := ?s', wt_log := wt_log v @ [Unloaded (name_of s b)]\<rparr>)"
    using bndl 1 2 found other by (simp add: handleBundleRemoved_def on_loader_def p_catch_def flip: v_def)
  then show ?thesis by (intro exI) (auto simp: s_def with_state_def)
qed

text \<open>What the handler of an upgrade needs: the old version \<open>b\<close> is replaced by the archive \<open>content\<close> of \<open>x\<close>, which needs nothing.\<close>

definition temp_path :: "'c watcher_env \<Rightarrow> 'c watcher \<Rightarrow> string" where
  "temp_path E w = rp_directory (we_repository E) (hd (rp_paths (we_repository E))) @ fst (tempBundleName (wt_serial w))"

definition stored_path :: "'c watcher_env \<Rightarrow> osp_bundle \<Rightarrow> string" where
  "stored_path E x = rp_directory (we_repository E) (hd (rp_paths (we_repository E))) @ stored_name x"

definition upgradable :: "'c watcher_env \<Rightarrow> (nat \<Rightarrow> 'c attempt) \<Rightarrow> string \<Rightarrow> 'c \<Rightarrow> osp_bundle \<Rightarrow> nat \<Rightarrow> 'c watcher \<Rightarrow> bool" where
  "upgradable E views path content x b w \<longleftrightarrow>
     isBundleFile (watch_paths E) path \<and> wt_ignored w (we_normalize E path) = None \<and> symbolicNameFromPath (watch_paths E) path = symbolicName x \<and>
     symbolicName x \<noteq> we_self E \<and> \<not> shouldDeferHotReload (symbolicName x) \<and>
     fst (tryReadBundlePayload E (wt_options w) views) = Some content \<and> we_installer E \<and> we_writable E \<and> we_renamable E \<and> 0 < we_fuel E \<and>
     rp_paths (we_repository E) \<noteq> [] \<and> ld_resolving (wt_loader w) = {} \<and> self_contained x \<and>
     replaceable (we_osp E) (temp_path E w) content (rp_directory (we_repository E) (hd (rp_paths (we_repository E)))) x b (wt_loader w)"

lemma bundle_at_new: "bundle_at E s p = Some x \<Longrightarrow> bu_state x = BUNDLE_INSTALLED \<and> bu_extensions x = []"
  by (auto simp: bundle_at_def new_bundle_def split: option.splits sum.splits if_splits)

lemma upgrade_run:
  assumes up: "upgradable E views path content x b w"
  defines "s \<equiv> wt_loader w"
  shows "\<exists>w'. handleBundleAvailable E views rm path w = Some (Inr (), w') \<and>
    (\<forall>p. p \<noteq> we_normalize E path \<longrightarrow> wt_ignored w p = None \<longrightarrow> wt_ignored w' p = None) \<and>
    ld_heap (wt_loader w') = (ld_heap s)(ld_next s := x, b := (ld_heap s b)\<lparr>bu_state := BUNDLE_UNINSTALLED\<rparr>,
      ld_next s + 1 := x\<lparr>bu_path := stored_path E x, bu_resolved := [], bu_providers := [], bu_state := BUNDLE_ACTIVE\<rparr>) \<and>
    ld_bundles (wt_loader w') = map (\<lambda>(k, i). if k = symbolicName x then (k, i\<lparr>bi_classLoader := Some []\<rparr>) else (k, i))
      (map_insert (symbolicName x) \<lparr>bi_bundle = ld_next s + 1, bi_classLoader = None\<rparr> (map_erase (symbolicName x) (ld_bundles s))) \<and>
    ld_files (wt_loader w') = (ld_files s)(temp_path E w := None, bu_path (ld_heap s b) := None, stored_path E x \<mapsto> \<lparr>nd_kind = NodeFile, nd_content = content\<rparr>)"
proof -
  note a = up [unfolded upgradable_def, folded s_def]
  let ?n = "symbolicName x" and ?dir = "rp_directory (we_repository E) (hd (rp_paths (we_repository E)))"
  have rp: "replaceable (we_osp E) (temp_path E w) content ?dir x b s" using a by blast
  have state: "bu_state x = BUNDLE_INSTALLED" using rp bundle_at_new by (fastforce simp: replaceable_def)
  have sorted: "sorted_wrt (<) (map fst (ld_bundles s))" and small: "b < ld_next s" and found: "findBundle s ?n = Some b" and name: "?n \<noteq> []"
    using rp by (simp_all add: replaceable_def)
  obtain t where t: "installBundleImpl (we_osp E) True True (temp_path E w) content ?dir ?n s = Some (Inr (ld_next s + 1), t)"
      "ld_bundles t = map_insert ?n \<lparr>bi_bundle = ld_next s + 1, bi_classLoader = None\<rparr> (map_erase ?n (ld_bundles s))"
      "ld_heap t = (ld_heap s)(ld_next s := x, b := (ld_heap s b)\<lparr>bu_state := BUNDLE_UNINSTALLED\<rparr>, ld_next s + 1 := x\<lparr>bu_path := stored_path E x\<rparr>)"
      "ld_files t = (ld_files s)(temp_path E w := None, bu_path (ld_heap s b) := None, stored_path E x \<mapsto> \<lparr>nd_kind = NodeFile, nd_content = content\<rparr>)"
      "ld_resolving t = {}"
    using replace_succeeds [OF rp] a unfolding stored_path_def by auto
  have new: "ld_heap t (ld_next s + 1) = x\<lparr>bu_path := stored_path E x\<rparr>" by (simp add: t(3))
  have "self_contained (ld_heap t (ld_next s + 1))" using a unfolding new by (simp add: self_contained_def)
  moreover have "bu_state (ld_heap t (ld_next s + 1)) = BUNDLE_INSTALLED" unfolding new using state by simp
  moreover have "map_of (ld_bundles t) (name_of t (ld_next s + 1)) = Some \<lparr>bi_bundle = ld_next s + 1, bi_classLoader = None\<rparr>"
    unfolding new t(2) by (simp add: map_of_insert [OF sorted_map_erase [OF sorted]])
  ultimately obtain u where u: "bring_up E (ld_next s + 1) t = Some (Inr (), u)" "up_and_running (ld_next s + 1) t u"
    using bring_up_self_contained [of t "ld_next s + 1" E] t(5) a by auto
  obtain g k where 1: "shouldIgnorePath E path w = Some (Inr False, w\<lparr>wt_readings := k, wt_ignored := g\<rparr>)" "\<forall>p. wt_ignored w p = None \<longrightarrow> g p = None"
    using shouldIgnorePath_clear a by blast
  let ?w1 = "w\<lparr>wt_readings := k, wt_ignored := g\<rparr>"
  have "wt_ignored ?w1 (we_normalize E path) = None" using 1(2) a by simp
  from shouldIgnorePath_clear [OF this] obtain h l where 2: "shouldIgnorePath E path ?w1 = Some (Inr False, w\<lparr>wt_readings := l, wt_ignored := h\<rparr>)"
      "\<forall>p. g p = None \<longrightarrow> h p = None" by auto
  let ?w2 = "w\<lparr>wt_readings := l, wt_ignored := h\<rparr>"
  let ?h = "h(we_normalize E path \<mapsto> we_clock E l + IGNORE_WINDOW)"
  let ?w' = "w\<lparr>wt_readings := l + 1, wt_ignored := ?h, wt_serial := snd (tempBundleName (wt_serial w)), wt_loader := u, wt_log := wt_log w @ [Replaced ?n]\<rparr>"
  have install: "installBundle (we_osp E) True True (we_repository E) (wt_serial w) content None ?n s = Some (Inr (ld_next s + 1), t)"
    using t(1) a by (simp add: installBundle_def temp_path_def Let_def)
  have "install_or_replace E path ?n content rm ?w2 = Some (Inr (), ?w')"
    using found install u(1) a
    by (simp add: install_or_replace_def ignorePath_def read_clock_def install_payload_def log_message_def p_seq_def p_bind_def on_loader_def flip: s_def)
  moreover have "wt_options ?w2 = wt_options w" by simp
  ultimately have "handleBundleAvailable E views rm path w = Some (Inr (), ?w')"
    using a name 1(1) 2(1) by (simp add: handleBundleAvailable_def Let_def p_catch_def)
  moreover have "wt_ignored ?w' p = None" if "p \<noteq> we_normalize E path" "wt_ignored w p = None" for p using that 1(2) 2(2) by simp
  ultimately show ?thesis
    using u(2) t(2-4) by (intro exI [of _ ?w']) (simp add: up_and_running_def)
qed

lemma set_inserted: "set (map_insert k x m) \<subseteq> insert (k, x) (set m)" for k :: string
  by (induction k x m rule: map_insert.induct) auto

lemma loaded_after_replacing:
  assumes "wf_loader s" and "findBundle s n = Some b" and c: "c \<in> loaded t"
    and t: "ld_bundles t = map (\<lambda>(k, i). if k = n then (k, i\<lparr>bi_classLoader := cl\<rparr>) else (k, i))
        (map_insert n \<lparr>bi_bundle = b', bi_classLoader = None\<rparr> (map_erase n (ld_bundles s)))"
    and b': "map_of (ld_bundles t) n = Some \<lparr>bi_bundle = b', bi_classLoader = cl\<rparr>"
  shows "c = b' \<or> (c \<in> loaded s \<and> c \<noteq> b)"
proof -
  obtain k i where i: "(k, i) \<in> set (ld_bundles t)" "bi_bundle i = c" using c unfolding in_loaded by blast
  then have "k = n \<and> c = b' \<or> k \<noteq> n \<and> (k, i) \<in> set (ld_bundles s)"
    using set_inserted [of n "\<lparr>bi_bundle = b', bi_classLoader = None\<rparr>" "map_erase n (ld_bundles s)"]
    unfolding t map_erase_def by (fastforce split: if_splits)
  moreover have "c \<noteq> b" if "k \<noteq> n" "(k, i) \<in> set (ld_bundles s)"
    using that i(2) wf_entry [OF assms(1), of k i] find_name [OF assms(1,2)] by auto
  ultimately show ?thesis using i(2) unfolding in_loaded by blast
qed

text \<open>C3: An upgrade whose file has another name than that of the installed version undoes itself. The watcher replaces the bundle:
  the new version is loaded, active, and stored under its own name, and the file of the old version is deleted. When the watcher is
  told of that deletion, no bundle has the path, so it looks for one with the symbolic name in the name of the file, finds the new
  version, and stops and unloads it. At the end no bundle of the name is loaded, although its file is there.\<close>

theorem upgrade_is_undone:
  assumes "upgradable E views path content x b w" and "stops_cleanly (we_osp E)" and "\<not> mf_preventUninstall (bu_manifest x)"
    and "bu_path (ld_heap (wt_loader w) b) = old" and "isBundleFile (watch_paths E) old" and "symbolicNameFromPath (watch_paths E) old = symbolicName x"
    and "wt_ignored w (we_normalize E old) = None" and "we_normalize E old \<noteq> we_normalize E path" and "we_normalize E old \<noteq> we_normalize E (stored_path E x)"
    and "\<forall>c \<in> loaded (wt_loader w). c \<noteq> b \<longrightarrow> c < ld_next (wt_loader w) \<and> we_normalize E (bu_path (ld_heap (wt_loader w) c)) \<noteq> we_normalize E old"
  shows "\<exists>w1 w2 b'. on_event E (ItemAdded views rm path) w = Some (Inr (), w1) \<and> findBundle (wt_loader w1) (symbolicName x) = Some b' \<and>
      isActive (ld_heap (wt_loader w1) b') \<and> bundle_version (ld_heap (wt_loader w1) b') = bundle_version x \<and> ld_files (wt_loader w1) old = None \<and>
    on_event E (ItemRemoved old) w1 = Some (Inr (), w2) \<and> findBundle (wt_loader w2) (symbolicName x) = None \<and> ld_files (wt_loader w2) (stored_path E x) \<noteq> None"
proof -
  define s where "s = wt_loader w"
  let ?n = "symbolicName x" and ?b = "ld_next s + 1"
  let ?y = "x\<lparr>bu_path := stored_path E x, bu_resolved := [], bu_providers := [], bu_state := BUNDLE_ACTIVE\<rparr>"
  note up = assms(1) [unfolded upgradable_def replaceable_def, folded s_def]
  have gone: "bu_path (ld_heap s b) = old" using assms(4) by (simp add: s_def)
  obtain w1 where w1: "handleBundleAvailable E views rm path w = Some (Inr (), w1)"
      "\<forall>p. p \<noteq> we_normalize E path \<longrightarrow> wt_ignored w p = None \<longrightarrow> wt_ignored w1 p = None"
      "ld_heap (wt_loader w1) = (ld_heap s)(ld_next s := x, b := (ld_heap s b)\<lparr>bu_state := BUNDLE_UNINSTALLED\<rparr>, ?b := ?y)"
      "ld_bundles (wt_loader w1) = map (\<lambda>(k, i). if k = ?n then (k, i\<lparr>bi_classLoader := Some []\<rparr>) else (k, i))
        (map_insert ?n \<lparr>bi_bundle = ?b, bi_classLoader = None\<rparr> (map_erase ?n (ld_bundles s)))"
      "ld_files (wt_loader w1) = (ld_files s)(temp_path E w := None, old := None, stored_path E x \<mapsto> \<lparr>nd_kind = NodeFile, nd_content = content\<rparr>)"
    using upgrade_run [OF assms(1), of rm, folded s_def, unfolded gone] by blast
  have clear: "wt_ignored w1 (we_normalize E old) = None" using w1(2) assms(7,8) by blast
  let ?t = "wt_loader w1"
  have heap: "ld_heap ?t ?b = ?y" unfolding w1(3) by simp
  have sorted: "sorted_wrt (<) (map fst (map_erase ?n (ld_bundles s)))" using up sorted_map_erase by blast
  have entry: "map_of (ld_bundles ?t) ?n = Some \<lparr>bi_bundle = ?b, bi_classLoader = Some []\<rparr>"
    unfolding w1(4) map_of_class_loader by (simp add: map_of_insert [OF sorted])
  then have found: "findBundle ?t ?n = Some ?b" by (simp add: findBundle_def)
  have "we_normalize E (bu_path (ld_heap ?t c)) \<noteq> we_normalize E old" if c: "c \<in> loaded ?t" for c
  proof -
    have "c = ?b \<or> (c \<in> loaded s \<and> c \<noteq> b)" using up by (intro loaded_after_replacing [OF _ _ c w1(4) entry]) blast+
    then show ?thesis using assms(9,10) unfolding w1(3) s_def [symmetric] by auto
  qed
  then have "findBundleByPath E ?t old = None" by (simp add: findBundleByPath_def find_None_iff loaded_def)
  then have removed: "findRemovedBundle E ?t old = Some ?b"
    using found up assms(6) by (simp add: findRemovedBundle_def)
  have name: "name_of ?t ?b = ?n" by (simp only: heap) simp
  have self: "self_contained x" using up by blast
  have known: "activator_known (we_osp E) ?t ?b"
    unfolding activator_known_def name heap using self entry by (auto simp: self_contained_def)
  obtain w2 where w2: "handleBundleRemoved E old w1 = Some (Inr (), w2)" "ld_files (wt_loader w2) = ld_files ?t" "ld_bundles (wt_loader w2) = map_erase ?n (ld_bundles ?t)"
    using removal_unloads [OF assms(5) clear removed _ _ _ _ _ known assms(2)] up assms(3) self unfolding name heap
    by (auto simp: isExtensionBundle_def self_contained_def)
  have "findBundle (wt_loader w2) ?n = None" by (simp add: findBundle_def w2(3) map_of_erase)
  moreover have "ld_files ?t old = None" using assms(9) by (auto simp: w1(5))
  moreover have "ld_files (wt_loader w2) (stored_path E x) \<noteq> None" by (simp add: w2(2) w1(5))
  moreover have "isActive (ld_heap ?t ?b)" "bundle_version (ld_heap ?t ?b) = bundle_version x" unfolding heap by (simp_all add: isActive_def)
  moreover have "on_event E (ItemAdded views rm path) w = Some (Inr (), w1)" "on_event E (ItemRemoved old) w1 = Some (Inr (), w2)"
    using w1(1) w2(1) by simp_all
  ultimately show ?thesis using found by blast
qed

definition version_1_1 :: "string watcher" where
  "version_1_1 = \<lparr>wt_loader = (sample_loader [plain_manifest ''a'' (Version 1 1 0 [])])\<lparr>
       ld_heap := (\<lambda>b. new_bundle ''/b/a_1.1.0.bndl'' (plain_manifest ''a'' (Version 1 1 0 [])) []),
       ld_files := [''/b/a_1.1.0.bndl'' \<mapsto> \<lparr>nd_kind = NodeFile, nd_content = ''1.1.0''\<rparr>]\<rparr>,
     wt_ignored = (\<lambda>p. None), wt_options = default_options, wt_watchers = [''/b''], wt_serial = 0, wt_readings = 0, wt_log = []\<rparr>"

lemma upgrade_is_undone_witness:
  "\<exists>w1 w2. on_event watched_repository (ItemAdded (untouched_file ''1.2.0'') (\<lambda>k. True) ''/b/a_1.2.0.bndl'') version_1_1 = Some (Inr (), w1) \<and>
     on_event watched_repository (ItemRemoved ''/b/a_1.1.0.bndl'') w1 = Some (Inr (), w2) \<and>
     findBundle (wt_loader version_1_1) ''a'' \<noteq> None \<and> findBundle (wt_loader w2) ''a'' = None"
proof -
  let ?x = "new_bundle ''/b/tmp.bundle-0'' (plain_manifest ''a'' (Version 1 2 0 [])) []" and ?s = "wt_loader version_1_1"
  have x: "symbolicName ?x = ''a''" "stored_name ?x = ''a_1.2.0.bndl''" "self_contained ?x" "\<not> mf_preventUninstall (bu_manifest ?x)"
    by (simp_all add: sample_stored) (simp_all add: new_bundle_def plain_manifest_def self_contained_def)
  have env: "we_osp watched_repository = archive_env" "we_repository watched_repository = directory_of_three" "ev_paths archive_env = sample_paths"
    "we_normalize watched_repository p = p" for p
    by (simp_all add: watched_repository_def archive_env_def)
  have zero: "show_nat 0 = ''0''" by code_simp
  have tmp: "temp_path watched_repository version_1_1 = ''/b/tmp.bundle-0''"
    by (simp add: temp_path_def env directory_of_three_def tempBundleName_def version_1_1_def zero)
  have dir: "rp_directory directory_of_three (hd (rp_paths directory_of_three)) = ''/b/''" by (simp add: directory_of_three_def)
  have stored: "stored_path watched_repository ?x = ''/b/a_1.2.0.bndl''" by (simp add: stored_path_def env dir x)
  have s: "wf_loader ?s" "sorted_wrt (<) (map fst (ld_bundles ?s))" "findBundle ?s ''a'' = Some 0" "ld_next ?s = 1" "ld_resolving ?s = {}" "loaded ?s = {0}"
    by (simp_all add: version_1_1_def sample_loader_def findBundle_def wf_loader_def new_bundle_def plain_manifest_def loaded_def listBundles_def)
  have old: "removable_bundle archive_env ?s 0" "bu_path (ld_heap ?s 0) = ''/b/a_1.1.0.bndl''"
    by (simp_all add: removable_bundle_def activator_known_def version_1_1_def sample_loader_def new_bundle_def plain_manifest_def isExtensionBundle_def archive_env_def)
  have names: "symbolicNameFromPath sample_paths ''/b/a_1.2.0.bndl'' = ''a''" "symbolicNameFromPath sample_paths ''/b/a_1.1.0.bndl'' = ''a''"
    "isBundleFile sample_paths ''/b/a_1.2.0.bndl''" "isBundleFile sample_paths ''/b/a_1.1.0.bndl''" by code_simp+
  have "replaceable archive_env ''/b/tmp.bundle-0'' ''1.2.0'' ''/b/'' ?x 0 ?s"
    unfolding replaceable_def using s old x by (simp add: sample_archive) (simp add: archive_env_def)
  moreover have "tryReadBundlePayload watched_repository (wt_options version_1_1) (untouched_file ''1.2.0'') = (Some ''1.2.0'', 2)"
    by (rule untouched_is_read) (simp_all add: sample_payload version_1_1_def default_options_def)
  moreover have "\<not> shouldDeferHotReload ''a''" "''a'' \<noteq> we_self watched_repository" by (simp_all add: shouldDeferHotReload_def watched_repository_def)
  ultimately have up: "upgradable watched_repository (untouched_file ''1.2.0'') ''/b/a_1.2.0.bndl'' ''1.2.0'' ?x 0 version_1_1"
    unfolding upgradable_def env tmp dir using names x s(5) by (simp add: directory_of_three_def) (simp add: watched_repository_def version_1_1_def)
  have rest: "stops_cleanly (we_osp watched_repository)" "symbolicNameFromPath (watch_paths watched_repository) ''/b/a_1.1.0.bndl'' = symbolicName ?x"
    "wt_ignored version_1_1 (we_normalize watched_repository ''/b/a_1.1.0.bndl'') = None"
    "we_normalize watched_repository ''/b/a_1.1.0.bndl'' \<noteq> we_normalize watched_repository ''/b/a_1.2.0.bndl''"
    "we_normalize watched_repository ''/b/a_1.1.0.bndl'' \<noteq> we_normalize watched_repository (stored_path watched_repository ?x)"
    "\<forall>c \<in> loaded ?s. c \<noteq> 0 \<longrightarrow> c < ld_next ?s \<and> we_normalize watched_repository (bu_path (ld_heap ?s c)) \<noteq> we_normalize watched_repository ''/b/a_1.1.0.bndl''"
    by (simp_all only: env stored x names s(6)) (simp_all add: stops_cleanly_def archive_env_def version_1_1_def)
  have bndl: "isBundleFile (watch_paths watched_repository) ''/b/a_1.1.0.bndl''" unfolding env by (rule names(4))
  show ?thesis
    using upgrade_is_undone [OF up rest(1) x(4) old(2) bndl rest(2-6)] s(3) unfolding x by blast
qed

section \<open>A new bundle that cannot be installed\<close>

lemma remove_attempts_run: "rm k \<Longrightarrow> remove_attempts rm path (Suc r) k s = Some (Inr True, s\<lparr>ld_files := (ld_files s)(path := None)\<rparr>)"
proof (cases "ld_files s path")
  case None
  then have "(ld_files s)(path := None) = ld_files s" by (simp add: fun_eq_iff)
  then show ?thesis using None by (simp add: p_bind_def)
qed (simp add: p_seq_def p_bind_def)

lemma manifest_ends_written: "manifest_ends E (written tmp c (s\<lparr>ld_files := m\<rparr>)) tmp = manifest_ends E (written tmp c s) tmp"
  by (simp add: manifest_ends_def)

lemma bundle_at_written: "bundle_at E (written tmp c (s\<lparr>ld_files := m\<rparr>)) tmp = bundle_at E (written tmp c s) tmp"
  by (simp add: bundle_at_def)

text \<open>The watcher deletes the file of a new bundle before it installs the payload it has read. When the installation then fails, because the
  archive is broken, holds a bundle of a name that is loaded already, or cannot be renamed, the file is gone: no bundle has
  been loaded, the failure is in the log, and neither the file nor the temporary one exists.\<close>

theorem failed_install_loses_archive:
  fixes E :: "'c watcher_env" and w :: "'c watcher"
  defines "s \<equiv> wt_loader w" and "dir \<equiv> rp_directory (we_repository E) (hd (rp_paths (we_repository E)))"
  assumes "isBundleFile (watch_paths E) path" and "wt_ignored w (we_normalize E path) = None" and "symbolicNameFromPath (watch_paths E) path \<noteq> []" and "symbolicNameFromPath (watch_paths E) path \<noteq> we_self E"
    and "\<not> shouldDeferHotReload (symbolicNameFromPath (watch_paths E) path)" and "findBundle s (symbolicNameFromPath (watch_paths E) path) = None"
    and "fst (tryReadBundlePayload E (wt_options w) views) = Some content" and "we_installer E" and "we_writable E" and "rp_paths (we_repository E) \<noteq> []"
    and "rm 0" and "0 < wo_retryCount (wt_options w)" and "manifest_ends (we_osp E) (written (temp_path E w) content s) (temp_path E w)"
    and "ev_removable (we_osp E) (temp_path E w)"
    and "\<forall>x. bundle_at (we_osp E) (written (temp_path E w) content s) (temp_path E w) = Some x \<longrightarrow>
      symbolicName x \<noteq> [] \<and> (findBundle s (symbolicName x) \<noteq> None \<or> \<not> we_renamable E)"
  shows "\<exists>w' e. handleBundleAvailable E views rm path w = Some (Inr (), w') \<and> same_bundles s (wt_loader w') \<and>
    ld_files (wt_loader w') = (ld_files s)(path := None, temp_path E w := None) \<and> wt_log w' = wt_log w @ [LoadFailed path e]"
proof -
  let ?s = "s\<lparr>ld_files := (ld_files s)(path := None)\<rparr>" and ?n = "symbolicNameFromPath (watch_paths E) path"
  have find: "findBundle ?s = findBundle s" by (simp add: findBundle_def fun_eq_iff)
  obtain e t where t: "installBundleImpl (we_osp E) True (we_renamable E) (temp_path E w) content dir [] ?s = Some (Inl e, t)"
      "same_bundles ?s t" "ld_files t = (ld_files ?s)(temp_path E w := None)"
    using install_fails [of "we_osp E" "temp_path E w" content ?s "we_renamable E" dir] assms(15-17)
    unfolding manifest_ends_written bundle_at_written find by auto
  obtain g k where 1: "shouldIgnorePath E path w = Some (Inr False, w\<lparr>wt_readings := k, wt_ignored := g\<rparr>)" "\<forall>p. wt_ignored w p = None \<longrightarrow> g p = None"
    using shouldIgnorePath_clear assms(4) by blast
  let ?w1 = "w\<lparr>wt_readings := k, wt_ignored := g\<rparr>"
  have "wt_ignored ?w1 (we_normalize E path) = None" using 1(2) assms(4) by simp
  from shouldIgnorePath_clear [OF this] obtain h l where 2: "shouldIgnorePath E path ?w1 = Some (Inr False, w\<lparr>wt_readings := l, wt_ignored := h\<rparr>)" by auto
  let ?w2 = "w\<lparr>wt_readings := l, wt_ignored := h\<rparr>"
  let ?w3 = "w\<lparr>wt_readings := l + 1, wt_ignored := h(we_normalize E path \<mapsto> we_clock E l + IGNORE_WINDOW), wt_serial := snd (tempBundleName (wt_serial w)), wt_loader := t\<rparr>"
  obtain r where r: "nat (wo_retryCount (wt_options w)) = Suc r" using assms(14) by (metis gr0_implies_Suc zero_less_nat_eq)
  have remove: "tryRemoveIncomingBundleFile (wt_options w) rm path s = Some (Inr True, ?s)"
    unfolding tryRemoveIncomingBundleFile_def r by (rule remove_attempts_run [of rm]) (rule assms(13))
  have install: "installBundle (we_osp E) True (we_renamable E) (we_repository E) (wt_serial w) content None [] ?s = Some (Inl e, t)"
    using t(1) assms(12) by (simp add: installBundle_def temp_path_def dir_def Let_def)
  have "install_or_replace E path ?n content rm ?w2 = Some (Inl e, ?w3)"
    using assms(8,11) remove install
    by (simp add: install_or_replace_def ignorePath_def read_clock_def install_payload_def p_seq_def p_bind_def on_loader_def flip: s_def)
  then have "handleBundleAvailable E views rm path w = Some (Inr (), ?w3\<lparr>wt_log := wt_log w @ [LoadFailed path e]\<rparr>)"
    using 1(1) 2 assms(3,5,6,7,9,10) by (simp add: handleBundleAvailable_def log_message_def Let_def p_catch_def)
  then show ?thesis using t(2,3) by (intro exI) (auto simp: same_bundles_def)
qed

lemma failed_install_loses_archive_witness:
  "\<exists>w' e. handleBundleAvailable watched_repository (untouched_file ''1.2.0'') (\<lambda>k. True) ''/b/renamed.bndl'' version_1_1 = Some (Inr (), w') \<and>
     ld_files (wt_loader w') ''/b/renamed.bndl'' = None \<and> wt_log w' = [LoadFailed ''/b/renamed.bndl'' e]"
proof -
  let ?x = "new_bundle ''/b/tmp.bundle-0'' (plain_manifest ''a'' (Version 1 2 0 [])) []" and ?s = "wt_loader version_1_1"
  let ?E = watched_repository and ?p = "''/b/renamed.bndl''"
  have env: "we_osp ?E = archive_env" "we_repository ?E = directory_of_three" by (simp_all add: watched_repository_def)
  have paths: "watch_paths ?E = sample_paths" by (simp add: watched_repository_def archive_env_def)
  have zero: "show_nat 0 = ''0''" by code_simp
  have tmp: "temp_path ?E version_1_1 = ''/b/tmp.bundle-0''"
    by (simp add: temp_path_def env directory_of_three_def tempBundleName_def version_1_1_def zero)
  have x: "symbolicName ?x = ''a''" by (simp add: new_bundle_def plain_manifest_def)
  have names: "symbolicNameFromPath (watch_paths ?E) ?p = ''renamed''" "isBundleFile (watch_paths ?E) ?p" unfolding paths by code_simp+
  have find: "findBundle ?s ''renamed'' = None" "findBundle ?s ''a'' \<noteq> None"
    by (simp_all add: version_1_1_def sample_loader_def findBundle_def plain_manifest_def)
  have ends: "manifest_ends archive_env s p" for s p
    by (auto simp: manifest_ends_def archive_env_def sample_manifest split: sum.splits if_splits)
  have "tryReadBundlePayload ?E (wt_options version_1_1) (untouched_file ''1.2.0'') = (Some ''1.2.0'', 2)"
    by (rule untouched_is_read) (simp_all add: sample_payload version_1_1_def default_options_def)
  then have read: "fst (tryReadBundlePayload ?E (wt_options version_1_1) (untouched_file ''1.2.0'')) = Some ''1.2.0''" by simp
  have hyps: "wt_ignored version_1_1 (we_normalize ?E ?p) = None" "symbolicNameFromPath (watch_paths ?E) ?p \<noteq> []" "symbolicNameFromPath (watch_paths ?E) ?p \<noteq> we_self ?E"
    "\<not> shouldDeferHotReload (symbolicNameFromPath (watch_paths ?E) ?p)" "findBundle ?s (symbolicNameFromPath (watch_paths ?E) ?p) = None" "we_installer ?E" "we_writable ?E"
    "rp_paths (we_repository ?E) \<noteq> []" "0 < wo_retryCount (wt_options version_1_1)" "ev_removable (we_osp ?E) (temp_path ?E version_1_1)"
    "manifest_ends (we_osp ?E) (written (temp_path ?E version_1_1) ''1.2.0'' ?s) (temp_path ?E version_1_1)"
    unfolding names using find(1) ends
    by (simp_all add: env) (simp_all add: version_1_1_def watched_repository_def shouldDeferHotReload_def directory_of_three_def default_options_def archive_env_def)
  have conflict: "\<forall>x. bundle_at (we_osp ?E) (written (temp_path ?E version_1_1) ''1.2.0'' ?s) (temp_path ?E version_1_1) = Some x \<longrightarrow>
      symbolicName x \<noteq> [] \<and> (findBundle ?s (symbolicName x) \<noteq> None \<or> \<not> we_renamable ?E)"
    unfolding env tmp sample_archive using x find(2) by auto
  obtain w' e where "handleBundleAvailable ?E (untouched_file ''1.2.0'') (\<lambda>k. True) ?p version_1_1 = Some (Inr (), w')"
    "ld_files (wt_loader w') = (ld_files ?s)(?p := None, temp_path ?E version_1_1 := None)" "wt_log w' = wt_log version_1_1 @ [LoadFailed ?p e]"
    using failed_install_loses_archive [OF names(2) hyps(1-5) read hyps(6-8) _ hyps(9,11,10) conflict, of "\<lambda>k. True"] by blast
  then show ?thesis by (auto simp: tmp version_1_1_def)
qed

end
