(* ===== verification/WatcherSafety.thy ===== *)
theory WatcherSafety
  imports BundleWatcher
begin

text \<open>
  What no event of the directory watcher can do: the loader stays in order, and the bundle of the watcher
  itself and the bundles of the web interface stay loaded and running. The proof follows one such bundle
  through every operation of the loader, the repository and the handlers.
\<close>

section \<open>A bundle that is watched over\<close>

definition orderly :: "'c loader \<Rightarrow> bool" where
  "orderly s \<longleftrightarrow> wf_loader s \<and> sorted_wrt (<) (map fst (ld_bundles s)) \<and> (\<forall>b \<in> loaded s. b < ld_next s)"

text \<open>
  The bundle \<open>c\<close> of the name \<open>n\<close> is loaded, and active when \<open>a\<close>; at the same time the name \<open>m\<close> of a bundle \<open>d\<close>,
  with which something else is about to happen, is kept in mind.
\<close>

definition guarded :: "bool \<Rightarrow> string \<Rightarrow> nat \<Rightarrow> nat \<Rightarrow> string \<Rightarrow> 'c loader \<Rightarrow> bool" where
  "guarded a n c d m s \<longleftrightarrow>
     orderly s \<and> findBundle s n = Some c \<and> (a \<longrightarrow> isActive (ld_heap s c)) \<and> d < ld_next s \<and> name_of s d = m"

lemma orderly_names:
  "orderly s \<longleftrightarrow> sorted_wrt (<) (map fst (entry_names s)) \<and> (\<forall>(k, b) \<in> set (entry_names s). name_of s b = k \<and> b < ld_next s)"
  by (auto simp: orderly_def wf_loader_def loaded_def listBundles_def entry_names_def strict_sorted_iff comp_def split_def)

lemma guarded_step:
  assumes "guarded a n c d m s" and "entry_names t = entry_names s" and "ld_next t = ld_next s"
    and "\<And>b. bu_manifest (ld_heap t b) = bu_manifest (ld_heap s b)" and "a \<Longrightarrow> bu_state (ld_heap t c) = bu_state (ld_heap s c)"
  shows "guarded a n c d m t"
  using assms unfolding guarded_def orderly_names find_names isActive_def by simp

lemma p_keeps_get:
  assumes "\<And>s. P s \<Longrightarrow> p_keeps P (f (g s))"
  shows "p_keeps P (p_bind (p_get g) f)"
  unfolding p_keeps_def
proof (intro allI impI)
  fix s r t assume "P s" "p_bind (p_get g) f s = Some (r, t)"
  then show "P t" using assms [OF \<open>P s\<close>] by (simp add: p_keeps_def)
qed

lemma modify_keeps_guarded:
  assumes "\<And>s. entry_names (f s) = entry_names s" and "\<And>s. ld_next (f s) = ld_next s" and "\<And>s b. bu_manifest (ld_heap (f s) b) = bu_manifest (ld_heap s b)"
    and "\<And>s. a \<Longrightarrow> bu_state (ld_heap (f s) c) = bu_state (ld_heap s c)"
  shows "p_keeps (guarded a n c d m) (p_modify f)"
  by (rule p_keeps_modify, erule guarded_step) (simp_all add: assms)

lemma set_keeps_guarded: "(\<And>x. bu_manifest (g x) = bu_manifest x) \<Longrightarrow> (\<And>x. bu_state (g x) = bu_state x) \<Longrightarrow> p_keeps (guarded a n c d m) (setBundle b g)"
  unfolding setBundle_def by (rule modify_keeps_guarded) (auto simp: entry_names_def)

lemma setState_keeps_guarded: "b \<noteq> c \<or> \<not> a \<Longrightarrow> p_keeps (guarded a n c d m) (setState b st)"
  unfolding setState_def setBundle_def by (rule modify_keeps_guarded) (auto simp: entry_names_def)

lemma act_keeps_guarded: "p_keeps (guarded a n c d m) (act x)"
  unfolding act_def by (rule modify_keeps_guarded) (auto simp: entry_names_def)

lemma class_loader_keeps_guarded: "p_keeps (guarded a n c d m) (setClassLoader name cl)"
  unfolding setClassLoader_def by (rule modify_keeps_guarded) simp_all

lemma with_cache_keeps_guarded: "p_keeps (guarded a n c d m) (with_cache f)"
  by (auto simp: p_keeps_def with_cache_def split: prod.splits intro: guarded_step simp: entry_names_def)

lemma each_keeps: "(\<And>x. x \<in> set xs \<Longrightarrow> p_keeps P (f x)) \<Longrightarrow> p_keeps P (p_each f xs)"
  by (induction xs) auto

lemmas guarded_basic = p_keeps_basic p_keeps_bind p_keeps_seq p_keeps_catch p_keeps_if set_keeps_guarded act_keeps_guarded
  class_loader_keeps_guarded with_cache_keeps_guarded each_keeps

lemma not_the_active_one: "guarded a n c d m s \<Longrightarrow> bu_state (ld_heap s b) \<noteq> BUNDLE_ACTIVE \<Longrightarrow> b \<noteq> c \<or> \<not> a"
  by (auto simp: guarded_def isActive_def)

section \<open>Resolving and starting\<close>

lemma installLibrary_guarded: "p_keeps (guarded a n c d m) (installLibrary E lib ts)"
  unfolding installLibrary_def
  by (intro guarded_basic) (auto intro!: guarded_basic modify_keeps_guarded simp: entry_names_def split: option.split)

lemma installLibraries_guarded: "p_keeps (guarded a n c d m) (installLibraries E b)"
  unfolding installLibraries_def getBundle_def by (intro guarded_basic installLibrary_guarded)

lemma clear_guarded: "p_keeps (guarded a n c d m) (clearResolvedDependencies b)"
  unfolding clearResolvedDependencies_def by (intro guarded_basic) simp_all

lemma erase_guarded: "p_keeps (guarded a n c d m) (erase_resolving b)"
  unfolding erase_resolving_def by (rule modify_keeps_guarded) (simp_all add: entry_names_def)

lemma resolveDependency_guarded:
  assumes "\<And>b. p_keeps (guarded a n c d m) (rs b)"
  shows "p_keeps (guarded a n c d m) (resolveDependency rs b dep)"
  unfolding resolveDependency_def addResolvedDependency_def getBundle_def
  by (rule p_keeps_bind, rule p_keeps_basic) (auto intro!: guarded_basic assms split: option.split)

lemma resolveBundle_guarded:
  assumes "\<And>b. p_keeps (guarded a n c d m) (rs b)"
  shows "p_keeps (guarded a n c d m) (resolveBundle E rs b)"
proof -
  have modules: "p_keeps (guarded a n c d m) (\<lambda>s. Some (resolveModules s q ms, s))" for q ms by (auto simp: p_keeps_def)
  have req: "p_keeps (guarded a n c d m) (resolveRequirements rs b)"
    unfolding resolveRequirements_def getBundle_def resolveProviders_def resolveDependencies_def
    by (intro guarded_basic modules resolveDependency_guarded assms) simp_all
  have ext: "p_keeps (guarded a n c d m) (extendBundle rs b)"
    unfolding extendBundle_def addExtensionBundle_def getBundle_def
    by (intro p_keeps_bind p_keeps_basic p_keeps_if) (auto intro!: guarded_basic assms simp: Let_def split: option.split)
  have ins: "p_keeps (guarded a n c d m) (p_modify (\<lambda>s. s\<lparr>ld_resolving := insert b (ld_resolving s)\<rparr>))"
    by (rule modify_keeps_guarded) (simp_all add: entry_names_def)
  show ?thesis
    unfolding resolveBundle_def by (intro guarded_basic req ext ins erase_guarded clear_guarded installLibraries_guarded)
qed

lemma resolve_guarded: "p_keeps (guarded a n c d m) (resolve E k b)"
proof (induction k arbitrary: b)
  case 0
  show ?case by (simp add: p_keeps_def)
next
  case (Suc k)
  show ?case
    unfolding resolve.simps resolve_body_def getBundle_def
  proof (rule p_keeps_get)
    fix s :: "'a loader" assume s: "guarded a n c d m s"
    show "p_keeps (guarded a n c d m)
        (if bu_state (ld_heap s b) \<noteq> BUNDLE_INSTALLED then p_throw (OspException BundleStateException ''resolve() requires INSTALLED state'')
         else p_seq (act (Fired EV_BUNDLE_RESOLVING b)) (p_seq (clearResolvedDependencies b) (p_seq (resolveBundle E (resolve E k) b)
           (p_seq (setState b BUNDLE_RESOLVED) (act (Fired EV_BUNDLE_RESOLVED b))))))"
    proof (cases "bu_state (ld_heap s b) = BUNDLE_INSTALLED")
      case True
      then have "b \<noteq> c \<or> \<not> a" using not_the_active_one [OF s, of b] by simp
      then show ?thesis using True by (simp only: not_True_eq_False simp_thms if_False) (intro guarded_basic clear_guarded setState_keeps_guarded resolveBundle_guarded Suc.IH)
    qed (auto intro: p_keeps_basic)
  qed
qed

lemma loadActivator_guarded: "p_keeps (guarded a n c d m) (loadActivator E name info)"
  unfolding loadActivator_def getBundle_def by (intro guarded_basic) simp_all

lemma call_activator_guarded: "p_keeps (guarded a n c d m) (call_activator f what b)"
  unfolding call_activator_def by (intro guarded_basic)

lemma startBundle_guarded:
  assumes "\<And>b. p_keeps (guarded a n c d m) (st b)"
  shows "p_keeps (guarded a n c d m) (startBundle E st b)"
proof -
  have started: "p_keeps (guarded a n c d m) (p_modify (\<lambda>s. s\<lparr>ld_lastStarted := x\<rparr>))" for x
    by (rule modify_keeps_guarded) (simp_all add: entry_names_def)
  have deps: "p_keeps (guarded a n c d m) (startDependencies st b)"
    unfolding startDependencies_def getBundle_def
    by (intro p_keeps_bind p_keeps_basic each_keeps) (auto intro!: guarded_basic assms split: option.split)
  show ?thesis
    unfolding startBundle_def getBundle_def
    by (intro guarded_basic deps started loadActivator_guarded call_activator_guarded)
qed

lemma start_guarded: "p_keeps (guarded a n c d m) (start E k b)"
proof (induction k arbitrary: b)
  case 0
  show ?case by (simp add: p_keeps_def)
next
  case (Suc k)
  show ?case
    unfolding start.simps start_body_def getBundle_def
  proof (rule p_keeps_get)
    fix s :: "'a loader" assume s: "guarded a n c d m s"
    show "p_keeps (guarded a n c d m)
        (if bu_state (ld_heap s b) \<noteq> BUNDLE_RESOLVED then p_throw (OspException BundleStateException ''start() requires RESOLVED state'')
         else p_seq (setState b BUNDLE_STARTING) (p_seq (act (Fired EV_BUNDLE_STARTING b))
           (p_seq (p_catch (startBundle E (start E k) b)
               (\<lambda>e. p_seq (act (Fired EV_BUNDLE_FAILED b)) (p_seq (setState b BUNDLE_RESOLVED) (p_throw e))))
           (p_seq (setState b BUNDLE_ACTIVE) (act (Fired EV_BUNDLE_STARTED b))))))"
    proof (cases "bu_state (ld_heap s b) = BUNDLE_RESOLVED")
      case True
      then have "b \<noteq> c \<or> \<not> a" using not_the_active_one [OF s, of b] by simp
      then show ?thesis using True by (simp only: not_True_eq_False simp_thms if_False) (intro guarded_basic setState_keeps_guarded startBundle_guarded Suc.IH)
    qed (auto intro: p_keeps_basic)
  qed
qed

section \<open>Stopping and removing another bundle\<close>

lemma guarded_other: "guarded a n c d m s \<Longrightarrow> m \<noteq> n \<Longrightarrow> d \<noteq> c"
  by (auto simp: guarded_def orderly_def dest: find_name)

lemma stop_guarded:
  assumes "m \<noteq> n"
  shows "p_keeps (guarded a n c d m) (stop E d)"
proof (cases "d = c")
  case True
  then show ?thesis using guarded_other [OF _ assms] unfolding p_keeps_def by blast
next
  case False
  show ?thesis
    unfolding stop_def stopBundle_def getBundle_def
    by (intro guarded_basic call_activator_guarded setState_keeps_guarded disjI1 False)
qed

lemma detach_guarded: "p_keeps (guarded a n c d m) (detach_extension b)"
  unfolding detach_extension_def removeExtensionBundle_def getBundle_def
  by (intro p_keeps_bind p_keeps_basic p_keeps_if) (auto intro!: guarded_basic split: option.split)

lemma drop_activator_guarded: "p_keeps (guarded a n c d m) (drop_activator E x)"
  unfolding drop_activator_def unloadActivator_def getBundle_def
  by (intro p_keeps_bind p_keeps_basic) (auto intro!: guarded_basic split: option.split)

lemma entry_names_erase: "entry_names (s\<lparr>ld_bundles := map_erase k (ld_bundles s)\<rparr>) = filter (\<lambda>(k', b). k' \<noteq> k) (entry_names s)"
  by (simp add: entry_names_def map_erase_def filter_map comp_def split_def)

lemma guarded_erase:
  assumes "guarded a n c d m s" and "k \<noteq> n"
  shows "guarded a n c d m (s\<lparr>ld_bundles := map_erase k (ld_bundles s)\<rparr>)"
proof -
  have "findBundle (s\<lparr>ld_bundles := map_erase k (ld_bundles s)\<rparr>) n = findBundle s n" using assms(2) by (simp add: findBundle_def map_of_erase)
  moreover have "sorted_wrt (<) (map fst (filter (\<lambda>(k', b). k' \<noteq> k) (entry_names s)))"
    using assms(1) sorted_map_erase [of "entry_names s" k] by (simp add: guarded_def orderly_names map_erase_def)
  ultimately show ?thesis using assms(1) unfolding guarded_def orderly_names entry_names_erase by auto
qed

lemma forget_guarded:
  assumes "symbolicName x \<noteq> n"
  shows "p_keeps (guarded a n c d m) (forget_bundle b x)"
proof -
  have "p_keeps (guarded a n c d m) (p_modify (\<lambda>s. s\<lparr>ld_bundles := map_erase (symbolicName x) (ld_bundles s), ld_ids := (ld_ids s)(b := None)\<rparr>))"
  proof (rule p_keeps_modify)
    fix s assume "guarded a n c d m s"
    from guarded_erase [OF this assms] show "guarded a n c d m (s\<lparr>ld_bundles := map_erase (symbolicName x) (ld_bundles s), ld_ids := (ld_ids s)(b := None)\<rparr>)"
      by (rule guarded_step) (simp_all add: entry_names_def)
  qed
  then show ?thesis unfolding forget_bundle_def by (intro guarded_basic)
qed

lemma unload_guarded:
  assumes "m \<noteq> n"
  shows "p_keeps (guarded a n c d m) (unloadBundle E d)"
  unfolding unloadBundle_def getBundle_def
proof (rule p_keeps_get)
  fix s :: "'a loader" assume "guarded a n c d m s"
  then have "name_of s d \<noteq> n" using assms by (simp add: guarded_def)
  then show "p_keeps (guarded a n c d m)
      (if isStarted (ld_heap s d) then p_throw (osp_exc BundleStateException ''An active bundle cannot be unloaded'' (name_of s d))
       else p_seq (detach_extension d) (p_seq (drop_activator E (ld_heap s d)) (forget_bundle d (ld_heap s d))))"
    by (intro guarded_basic detach_guarded drop_activator_guarded forget_guarded)
qed

lemma files_guarded: "p_keeps (guarded a n c d m) (p_modify (\<lambda>s. s\<lparr>ld_files := f s\<rparr>))"
  by (rule modify_keeps_guarded) (simp_all add: entry_names_def)

lemma removeFile_guarded: "p_keeps (guarded a n c d m) (removeFile E path)"
  unfolding removeFile_def by (intro guarded_basic files_guarded)

lemma uninstall_guarded:
  assumes "m \<noteq> n"
  shows "p_keeps (guarded a n c d m) (uninstall E d)"
proof -
  have libs: "p_keeps (guarded a n c d m) (uninstallLibraries d)"
    unfolding uninstallLibraries_def getBundle_def by (intro guarded_basic)
  have body: "p_keeps (guarded a n c d m) (uninstallBundle E d)"
    unfolding uninstallBundle_def getBundle_def
  proof (rule p_keeps_get)
    fix s :: "'a loader" assume "guarded a n c d m s"
    then have "name_of s d \<noteq> n" using assms by (simp add: guarded_def)
    then show "p_keeps (guarded a n c d m)
      (p_seq (detach_extension d) (p_seq (drop_activator E (ld_heap s d)) (p_seq (uninstallLibraries d)
        (p_seq (p_catch (removeFile E (bu_path (ld_heap s d)))
            (\<lambda>e. p_bind (p_get (\<lambda>s'. ld_files s' (bu_path (ld_heap s d)))) (\<lambda>f. if f = None then p_ret () else p_throw e)))
          (forget_bundle d (ld_heap s d))))))"
      by (intro guarded_basic detach_guarded drop_activator_guarded forget_guarded libs removeFile_guarded)
  qed
  show ?thesis
  proof (cases "d = c")
    case True
    then show ?thesis using guarded_other [OF _ assms] unfolding p_keeps_def by blast
  next
    case False
    show ?thesis
      unfolding uninstall_def getBundle_def
      by (intro guarded_basic body setState_keeps_guarded disjI1 False)
  qed
qed

section \<open>The repository\<close>

definition kept :: "bool \<Rightarrow> string \<Rightarrow> nat \<Rightarrow> 'c loader \<Rightarrow> bool" where
  "kept a n c s \<longleftrightarrow> orderly s \<and> findBundle s n = Some c \<and> (a \<longrightarrow> isActive (ld_heap s c))"

lemma kept_guarded: "kept a n c s \<Longrightarrow> findBundle s m = Some d \<Longrightarrow> guarded a n c d m s"
  by (auto simp: kept_def guarded_def orderly_def intro: find_name find_loaded)

lemma guarded_kept: "guarded a n c d m s \<Longrightarrow> kept a n c s"
  by (simp add: kept_def guarded_def)

lemma keeps_kept:
  assumes "p_keeps (guarded a n c c n) m"
  shows "p_keeps (kept a n c) m"
  unfolding p_keeps_def
proof (intro allI impI)
  fix s r t assume "kept a n c s" "m s = Some (r, t)"
  moreover from this(1) have "guarded a n c c n s" using kept_guarded [of a n c s n c] by (simp add: kept_def)
  ultimately show "kept a n c t" using assms unfolding p_keeps_def by (blast intro: guarded_kept)
qed

lemma p_keeps_get_at:
  assumes "\<And>s r t. P s \<Longrightarrow> f (g s) s = Some (r, t) \<Longrightarrow> P t"
  shows "p_keeps P (p_bind (p_get g) f)"
  unfolding p_keeps_def
proof (intro allI impI)
  fix s r t assume "P s" "p_bind (p_get g) f s = Some (r, t)"
  then show "P t" using assms [of s r t] by simp
qed

lemma removeBundle_kept:
  assumes "old \<noteq> n"
  shows "p_keeps (kept a n c) (removeBundle E old)"
  unfolding removeBundle_def
proof (rule p_keeps_get_at)
  fix s t :: "'a loader" and r
  assume s: "kept a n c s"
    and run: "(case findBundle s old of None \<Rightarrow> p_ret ()
      | Some b \<Rightarrow> p_bind (getBundle b) (\<lambda>x. p_seq (if bu_state x = BUNDLE_ACTIVE then stop E b else p_ret ())
          (p_bind (getBundle b) (\<lambda>y. if bu_state y = BUNDLE_RESOLVED \<or> bu_state y = BUNDLE_INSTALLED then uninstall E b
             else p_throw (osp_exc BundleStateException ''Cannot remove bundle in state'' (stateString (bu_state y))))))) s = Some (r, t)"
  show "kept a n c t"
  proof (cases "findBundle s old")
    case None
    then show ?thesis using s run by simp
  next
    case (Some d)
    have "p_keeps (guarded a n c d old) (p_bind (getBundle d) (\<lambda>x. p_seq (if bu_state x = BUNDLE_ACTIVE then stop E d else p_ret ())
          (p_bind (getBundle d) (\<lambda>y. if bu_state y = BUNDLE_RESOLVED \<or> bu_state y = BUNDLE_INSTALLED then uninstall E d
             else p_throw (osp_exc BundleStateException ''Cannot remove bundle in state'' (stateString (bu_state y)))))))"
      unfolding getBundle_def by (intro guarded_basic stop_guarded uninstall_guarded assms)
    from p_keepsD [OF this kept_guarded [OF s Some]] run Some show ?thesis by (auto intro: guarded_kept)
  qed
qed

text \<open>Creating a bundle touches nothing but the number that comes next and the object that has this number.\<close>

lemma createBundle_cases:
  assumes "createBundle E path s = Some (r, t)"
  shows "t = s \<and> (\<exists>e. r = Inl e) \<or> (\<exists>e. r = Inl e) \<and> t = s\<lparr>ld_next := ld_next s + 1\<rparr> \<or>
    (\<exists>x. r = Inr (ld_next s) \<and> t = s\<lparr>ld_next := ld_next s + 1, ld_heap := (ld_heap s)(ld_next s := x)\<rparr>)"
proof (cases "bundle_at E s path")
  case (Some x)
  then show ?thesis using assms createBundle_works [OF Some] by auto
next
  case None
  show ?thesis
  proof (cases "manifest_ends E s path")
    case True
    then show ?thesis using assms createBundle_fails [OF None True] by auto
  next
    case False
    then obtain nd st p where entry: "ld_files s path = Some nd" "ev_storage E (nd_content nd) = Inr st" "st_manifest st = Some p" "parseManifest p = None"
      by (auto simp: manifest_ends_def)
    show ?thesis
    proof (cases "nd_kind nd = NodeOther")
      case True
      then show ?thesis using assms entry(1) by (auto simp: createBundle_def)
    next
      case False
      then show ?thesis
        using assms entry by (simp add: createBundle_def nextBundleId_def constructBundle_def p_seq_def p_bind_def)
    qed
  qed
qed

lemma kept_created:
  assumes "kept a n c s"
  shows "kept a n c (s\<lparr>ld_next := ld_next s + 1\<rparr>)" "kept a n c (s\<lparr>ld_next := ld_next s + 1, ld_heap := (ld_heap s)(ld_next s := x)\<rparr>)"
proof -
  have c: "c < ld_next s" using assms by (auto simp: kept_def orderly_def intro: find_loaded)
  have names: "entry_names (s\<lparr>ld_next := k\<rparr>) = entry_names s" "entry_names (s\<lparr>ld_next := k, ld_heap := h\<rparr>) = entry_names s" for k h
    by (simp_all add: entry_names_def)
  have small: "\<forall>(k, b) \<in> set (entry_names s). name_of s b = k \<and> b < ld_next s" using assms by (simp add: kept_def orderly_names)
  then show "kept a n c (s\<lparr>ld_next := ld_next s + 1\<rparr>)"
    using assms unfolding kept_def orderly_names find_names names by auto
  show "kept a n c (s\<lparr>ld_next := ld_next s + 1, ld_heap := (ld_heap s)(ld_next s := x)\<rparr>)"
    using assms small c unfolding kept_def orderly_names find_names names by auto
qed

lemma loadBundle_kept:
  assumes "kept a n c s" and "b < ld_next s" and "loadBundle b s = Some (r, t)"
  shows "kept a n c t"
proof (cases "findBundle s (name_of s b)")
  case (Some d)
  then show ?thesis using assms by (simp add: loadBundle_def p_bind_def)
next
  case None
  let ?i = "\<lparr>bi_bundle = b, bi_classLoader = None\<rparr>"
  have "t = s\<lparr>ld_bundles := map_insert (name_of s b) ?i (ld_bundles s), ld_ids := (ld_ids s)(b \<mapsto> b), ld_trace := ld_trace s @ [Fired EV_BUNDLE_LOADED b]\<rparr>"
    using assms(3) None by (simp add: loadBundle_def p_seq_def p_bind_def)
  moreover have sorted: "sorted_wrt (<) (map fst (ld_bundles s))" using assms(1) by (simp add: kept_def orderly_def)
  moreover have "name_of s b \<noteq> n" using None assms(1) by (auto simp: kept_def)
  ultimately have t: "ld_bundles t = map_insert (name_of s b) ?i (ld_bundles s)" "ld_heap t = ld_heap s" "ld_next t = ld_next s" "findBundle t n = findBundle s n"
    "sorted_wrt (<) (map fst (ld_bundles t))"
    by (simp_all add: findBundle_def map_of_insert sorted_map_insert)
  have "name_of t (bi_bundle i) = k \<and> bi_bundle i < ld_next t" if ki: "(k, i) \<in> set (ld_bundles t)" for k i
  proof -
    consider "k = name_of s b" "i = ?i" | "(k, i) \<in> set (ld_bundles s)"
      using ki set_inserted [of "name_of s b" ?i "ld_bundles s"] unfolding t(1) by blast
    then show ?thesis
    proof cases
      case 2
      then have "bi_bundle i \<in> loaded s" unfolding in_loaded by blast
      then show ?thesis using 2 assms(1) wf_entry unfolding t(2,3) kept_def orderly_def by blast
    qed (use assms(2) t(2,3) in simp)
  qed
  then have "orderly t" using t(5) by (auto simp: orderly_def wf_loader_def strict_sorted_iff in_loaded)
  then show ?thesis using assms(1) t by (simp add: kept_def)
qed

lemma createBundle_kept: "p_keeps (kept a n c) (createBundle E path)"
  unfolding p_keeps_def using createBundle_cases kept_created by metis

lemma loadBundleFrom_kept: "p_keeps (kept a n c) (loadBundleFrom E path)"
  unfolding p_keeps_def
proof (intro allI impI)
  fix s r t assume s: "kept a n c s" and "loadBundleFrom E path s = Some (r, t)"
  from this(2) [unfolded loadBundleFrom_def] show "kept a n c t"
  proof (cases rule: p_bind_cases)
    case (threw e)
    then show ?thesis using s createBundle_kept by (blast dest: p_keepsD)
  next
    case (returned b u)
    have u: "kept a n c u" using s createBundle_kept returned(1) by (blast dest: p_keepsD)
    have b: "b < ld_next u" using createBundle_cases [OF returned(1)] by auto
    from returned(2) show ?thesis
    proof (cases rule: p_seq_cases)
      case (threw e)
      then show ?thesis using loadBundle_kept [OF u b] by blast
    next
      case (returned y v)
      then show ?thesis using loadBundle_kept [OF u b] by auto
    qed
  qed
qed

lemma files_kept: "p_keeps (kept a n c) (p_modify (\<lambda>s. s\<lparr>ld_files := f s\<rparr>))"
  by (rule keeps_kept) (rule files_guarded)

lemma removeFile_kept: "p_keeps (kept a n c) (removeFile E path)"
  by (rule keeps_kept) (rule removeFile_guarded)

lemma installBundle_kept:
  assumes "old \<noteq> n"
  shows "p_keeps (kept a n c) (installBundle E writable renamable R serial content into old)"
proof -
  have discard: "p_keeps (kept a n c) (discardFile E p e)" for p e
    unfolding discardFile_def by (intro p_keeps_seq p_keeps_catch p_keeps_basic removeFile_kept)
  have ren: "p_keeps (kept a n c) (renameFile ok p q)" for ok p q
    unfolding renameFile_def by (intro p_keeps_bind p_keeps_basic) (auto intro!: p_keeps_basic p_keeps_if files_kept split: option.split)
  have prepare: "p_keeps (kept a n c) (prepareInstall E renamable dir tmp old)" for dir tmp
    unfolding prepareInstall_def getBundle_def
    by (intro p_keeps_bind p_keeps_seq p_keeps_if p_keeps_basic createBundle_kept ren removeBundle_kept assms)
  have writes: "p_keeps (kept a n c) (writeFile p x)" for p x unfolding writeFile_def by (rule files_kept)
  show ?thesis
    unfolding installBundle_def installBundleImpl_def Let_def
    by (intro p_keeps_bind p_keeps_seq p_keeps_if p_keeps_catch p_keeps_basic prepare discard writes loadBundleFrom_kept)
qed

section \<open>The handlers\<close>

definition watched_over :: "bool \<Rightarrow> string \<Rightarrow> nat \<Rightarrow> 'c watcher \<Rightarrow> bool" where
  "watched_over a n c w \<longleftrightarrow> kept a n c (wt_loader w)"

lemma on_loader_keeps: "p_keeps (kept a n c) m \<Longrightarrow> p_keeps (watched_over a n c) (on_loader m)"
  by (auto simp: p_keeps_def on_loader_def watched_over_def split: option.splits)

lemma watcher_modify_keeps: "(\<And>w. wt_loader (f w) = wt_loader w) \<Longrightarrow> p_keeps (watched_over a n c) (p_modify f)"
  by (auto simp: p_keeps_def watched_over_def)

lemma p_keeps_cond: "(b \<Longrightarrow> p_keeps P m) \<Longrightarrow> (\<not> b \<Longrightarrow> p_keeps P n) \<Longrightarrow> p_keeps P (if b then m else n)"
  by simp

lemma log_keeps: "p_keeps (watched_over a n c) (log_message x)"
  unfolding log_message_def by (rule watcher_modify_keeps) simp

lemma read_clock_keeps: "p_keeps (watched_over a n c) (read_clock E)"
  unfolding read_clock_def by (intro p_keeps_bind p_keeps_seq p_keeps_basic watcher_modify_keeps) simp

lemma shouldIgnorePath_keeps: "p_keeps (watched_over a n c) (shouldIgnorePath E path)"
  unfolding shouldIgnorePath_def
  by (intro p_keeps_bind p_keeps_seq p_keeps_basic read_clock_keeps watcher_modify_keeps)
    (auto intro!: p_keeps_basic p_keeps_if p_keeps_seq watcher_modify_keeps split: option.split)

lemma ignorePath_keeps: "p_keeps (watched_over a n c) (ignorePath E path)"
  unfolding ignorePath_def by (intro p_keeps_bind p_keeps_basic read_clock_keeps watcher_modify_keeps) simp

lemma install_payload_keeps: "old \<noteq> n \<Longrightarrow> p_keeps (watched_over a n c) (install_payload E payload old)"
  unfolding install_payload_def
  by (intro p_keeps_bind p_keeps_seq p_keeps_basic watcher_modify_keeps on_loader_keeps installBundle_kept) simp_all

lemma bring_up_kept: "p_keeps (kept a n c) (bring_up E b)"
proof -
  have "p_keeps (kept a n c) (resolve (we_osp E) k b)" "p_keeps (kept a n c) (start (we_osp E) k b)" for k
    by (rule keeps_kept, rule resolve_guarded) (rule keeps_kept, rule start_guarded)
  then show ?thesis unfolding bring_up_def getBundle_def by (intro p_keeps_bind p_keeps_seq p_keeps_if p_keeps_basic)
qed

lemma remove_attempts_kept: "p_keeps (kept a n c) (remove_attempts rm path r k)"
  by (induction r arbitrary: k) (simp_all add: p_keeps_bind p_keeps_seq p_keeps_basic p_keeps_if files_kept)

lemma install_or_replace_keeps:
  assumes "name \<noteq> n" and "n \<noteq> []"
  shows "p_keeps (watched_over a n c) (install_or_replace E path name payload rm)"
  unfolding install_or_replace_def tryRemoveIncomingBundleFile_def
  by (intro p_keeps_bind p_keeps_seq p_keeps_if p_keeps_basic ignorePath_keeps install_payload_keeps log_keeps on_loader_keeps bring_up_kept
      remove_attempts_kept assms assms [symmetric])

lemma available_keeps:
  assumes "n = we_self E \<or> shouldDeferHotReload n" and "n \<noteq> []"
  shows "p_keeps (watched_over a n c) (handleBundleAvailable E views rm path)"
proof -
  let ?name = "symbolicNameFromPath (watch_paths E) path"
  have install: "p_keeps (watched_over a n c) (p_catch (install_or_replace E path ?name payload rm) (\<lambda>e. log_message (LoadFailed path e)))"
    if "?name \<noteq> we_self E" "\<not> shouldDeferHotReload ?name" for payload
    using that assms by (intro p_keeps_catch install_or_replace_keeps log_keeps) auto
  show ?thesis
    unfolding handleBundleAvailable_def Let_def
    by (intro p_keeps_cond p_keeps_bind p_keeps_basic shouldIgnorePath_keeps)
      (auto intro!: p_keeps_cond p_keeps_bind p_keeps_seq p_keeps_basic shouldIgnorePath_keeps ignorePath_keeps log_keeps install split: option.split)
qed

lemma unload_keeps:
  assumes "m \<noteq> n"
  shows "p_keeps (\<lambda>w. guarded a n c d m (wt_loader w)) (tryForceUnload E d)"
proof -
  let ?P = "\<lambda>w :: 'a watcher. guarded a n c d m (wt_loader w)"
  have "p_keeps ?P (on_loader (unloadBundle (we_osp E) d))"
    using unload_guarded [OF assms] by (fastforce simp: p_keeps_def on_loader_def split: option.splits)
  moreover have "p_keeps ?P (log_message x)" for x unfolding log_message_def by (rule p_keeps_modify) simp
  ultimately show ?thesis unfolding tryForceUnload_def by (intro p_keeps_bind p_keeps_catch p_keeps_seq p_keeps_basic)
qed

lemma removal_keeps:
  assumes "m \<noteq> n"
  shows "p_keeps (\<lambda>w. guarded a n c d m (wt_loader w)) (p_catch (stop_and_unload E d) (removal_failed E d))"
proof -
  let ?P = "\<lambda>w :: 'a watcher. guarded a n c d m (wt_loader w)"
  have modify: "p_keeps ?P (p_modify f)" if "\<And>w. wt_loader (f w) = wt_loader w" for f :: "'a watcher \<Rightarrow> 'a watcher" using that by (auto simp: p_keeps_def)
  have logs: "p_keeps ?P (log_message x)" for x unfolding log_message_def by (rule modify) simp
  have get: "p_keeps ?P (on_loader (getBundle b))" for b by (auto simp: p_keeps_def on_loader_def)
  have stops: "p_keeps ?P (on_loader (stop (we_osp E) d))"
    using stop_guarded [OF assms] by (fastforce simp: p_keeps_def on_loader_def split: option.splits)
  have ignore: "p_keeps ?P (ignorePath E path)" for path
    unfolding ignorePath_def read_clock_def by (intro p_keeps_bind p_keeps_seq p_keeps_basic modify) simp_all
  show ?thesis
    unfolding stop_and_unload_def removal_failed_def
    by (intro p_keeps_bind p_keeps_catch p_keeps_seq p_keeps_if p_keeps_basic get stops ignore logs unload_keeps assms)
qed

lemma removed_keeps:
  assumes "n = we_self E \<or> shouldDeferHotReload n"
  shows "p_keeps (watched_over a n c) (handleBundleRemoved E path)"
proof -
  have handle: "p_keeps (watched_over a n c) (p_bind (p_get (\<lambda>w. findRemovedBundle E (wt_loader w) path)) (\<lambda>found.
      case found of
        None \<Rightarrow> p_ret ()
      | Some b \<Rightarrow>
          p_bind (on_loader (getBundle b)) (\<lambda>x.
            if symbolicName x = we_self E then p_ret ()
            else if shouldDeferHotReload (symbolicName x) then p_seq (ignorePath E path) (log_message (Deferred (symbolicName x)))
            else if mf_preventUninstall (bu_manifest x) then log_message (Protected (symbolicName x))
            else p_catch (stop_and_unload E b) (removal_failed E b))))"
  proof (rule p_keeps_get_at)
    fix w v :: "'a watcher" and r
    let ?found = "findRemovedBundle E (wt_loader w) path"
    assume w: "watched_over a n c w"
      and run: "(case ?found of
        None \<Rightarrow> p_ret ()
      | Some b \<Rightarrow>
          p_bind (on_loader (getBundle b)) (\<lambda>x.
            if symbolicName x = we_self E then p_ret ()
            else if shouldDeferHotReload (symbolicName x) then p_seq (ignorePath E path) (log_message (Deferred (symbolicName x)))
            else if mf_preventUninstall (bu_manifest x) then log_message (Protected (symbolicName x))
            else p_catch (stop_and_unload E b) (removal_failed E b))) w = Some (r, v)"
    show "watched_over a n c v"
    proof (cases ?found)
      case None
      then show ?thesis using w run by simp
    next
      case (Some b)
      let ?m = "name_of (wt_loader w) b"
      have "b \<in> loaded (wt_loader w)"
        using Some by (auto simp: findRemovedBundle_def findBundleByPath_def loaded_def find_Some_iff split: option.splits if_splits intro: find_loaded [unfolded loaded_def])
      then have "findBundle (wt_loader w) ?m = Some b" using w by (auto simp: watched_over_def kept_def orderly_def intro: loaded_find)
      with w have g: "guarded a n c b ?m (wt_loader w)" by (simp add: watched_over_def kept_guarded)
      consider "?m = we_self E \<or> shouldDeferHotReload ?m \<or> mf_preventUninstall (bu_manifest (ld_heap (wt_loader w) b))"
        | "p_catch (stop_and_unload E b) (removal_failed E b) w = Some (r, v)" "?m \<noteq> n"
        using run Some assms by (auto simp: on_loader_def p_bind_def split: if_splits)
      then show ?thesis
      proof cases
        case 1
        have "p_keeps (watched_over a n c) (p_ret ())" "p_keeps (watched_over a n c) (p_seq (ignorePath E path) (log_message (Deferred ?m)))"
          "p_keeps (watched_over a n c) (log_message (Protected ?m))" by (intro p_keeps_basic p_keeps_seq ignorePath_keeps log_keeps)+
        moreover have "p_ret () w = Some (r, v) \<or> p_seq (ignorePath E path) (log_message (Deferred ?m)) w = Some (r, v) \<or> log_message (Protected ?m) w = Some (r, v)"
          using run Some 1 by (auto simp: on_loader_def p_bind_def split: if_splits)
        ultimately show ?thesis using w by (blast dest: p_keepsD)
      next
        case 2
        from p_keepsD [OF removal_keeps [OF 2(2)] g 2(1)] show ?thesis by (simp add: watched_over_def guarded_kept)
      qed
    qed
  qed
  show ?thesis
    unfolding handleBundleRemoved_def by (intro p_keeps_if p_keeps_bind p_keeps_basic shouldIgnorePath_keeps handle)
qed

text \<open>C5: Whatever happens in the watched directories, in whatever order, the loader stays in order, names unique and identities below the
  next number, and neither the bundle of the watcher nor a bundle of the web interface is ever unloaded, replaced or stopped by it:
  what was loaded under such a name is loaded, and active when it was.\<close>

theorem watcher_spares_itself:
  assumes "orderly (wt_loader w)" and "findBundle (wt_loader w) n = Some c" and "n \<noteq> []" and "n = we_self E \<or> shouldDeferHotReload n"
    and "p_each (on_event E) events w = Some (r, w')"
  shows "orderly (wt_loader w') \<and> findBundle (wt_loader w') n = Some c \<and>
    (isActive (ld_heap (wt_loader w) c) \<longrightarrow> isActive (ld_heap (wt_loader w') c))"
proof -
  have "p_keeps (watched_over a n c) (on_event E e)" for a e
    using available_keeps [OF assms(4,3)] removed_keeps [OF assms(4)] by (cases e) simp_all
  then have keeps: "p_keeps (watched_over a n c) (p_each (on_event E) events)" for a by (intro each_keeps)
  have "watched_over (isActive (ld_heap (wt_loader w) c)) n c w" using assms(1,2) by (simp add: watched_over_def kept_def)
  from p_keepsD [OF keeps this assms(5)] show ?thesis by (simp add: watched_over_def kept_def)
qed

lemma removal_of_self:
  assumes "isBundleFile (watch_paths E) path" and clear: "wt_ignored w (we_normalize E path) = None" and "findRemovedBundle E (wt_loader w) path = Some b"
    and "name_of (wt_loader w) b = we_self E"
  shows "\<exists>g k. handleBundleRemoved E path w = Some (Inr (), w\<lparr>wt_readings := k, wt_ignored := g\<rparr>)"
proof -
  obtain g k where 1: "shouldIgnorePath E path w = Some (Inr False, w\<lparr>wt_readings := k, wt_ignored := g\<rparr>)" "g (we_normalize E path) = None"
    using shouldIgnorePath_clear [OF clear] clear by blast
  have "wt_ignored (w\<lparr>wt_readings := k, wt_ignored := g\<rparr>) (we_normalize E path) = None" using 1(2) by simp
  from shouldIgnorePath_clear [OF this] obtain h l where
    2: "shouldIgnorePath E path (w\<lparr>wt_readings := k, wt_ignored := g\<rparr>) = Some (Inr False, w\<lparr>wt_readings := l, wt_ignored := h\<rparr>)" by auto
  define v where "v = w\<lparr>wt_readings := l, wt_ignored := h\<rparr>"
  have v: "wt_loader v = wt_loader w" "v\<lparr>wt_loader := wt_loader w\<rparr> = v" by (simp_all add: v_def)
  have "handleBundleRemoved E path w = Some (Inr (), v)"
    unfolding handleBundleRemoved_def using assms(1,3,4) v
    apply (simp add: on_loader_def)
    apply (subst p_bind_run(3))
    apply (rule 1(1))
    apply simp
    apply (subst p_bind_run(3))
    apply (rule 2)
    apply (simp flip: v_def)
    done
  then show ?thesis unfolding v_def by blast
qed

text \<open>The example: the file of the watcher itself disappears.\<close>

definition watcher_running :: "string watcher" where
  "watcher_running = version_1_1\<lparr>wt_loader := sample_loader [plain_manifest ''io.myiot.services.bundlewatcher'' (Version 1 0 0 [])]\<rparr>"

lemma watcher_spares_itself_witness:
  "\<exists>w'. p_each (on_event watched_repository) [ItemRemoved ''/b/io.myiot.services.bundlewatcher_1.0.0.bndl''] watcher_running = Some (Inr (), w') \<and>
     findBundle (wt_loader w') ''io.myiot.services.bundlewatcher'' = Some 0"
proof -
  let ?path = "''/b/io.myiot.services.bundlewatcher_1.0.0.bndl''" and ?n = "''io.myiot.services.bundlewatcher''" and ?w = watcher_running
  have paths: "watch_paths watched_repository = sample_paths" by (simp add: watched_repository_def archive_env_def)
  have names: "symbolicNameFromPath (watch_paths watched_repository) ?path = ?n" "isBundleFile (watch_paths watched_repository) ?path"
    unfolding paths by code_simp+
  have s: "orderly (wt_loader ?w)" "findBundle (wt_loader ?w) ?n = Some 0" "name_of (wt_loader ?w) 0 = ?n"
    by (simp_all add: watcher_running_def sample_loader_def orderly_def wf_loader_def loaded_def listBundles_def findBundle_def new_bundle_def plain_manifest_def)
  have self: "we_self watched_repository = ?n" by (simp add: watched_repository_def)
  have none: "findBundleByPath watched_repository (wt_loader ?w) ?path = None"
    by (simp add: findBundleByPath_def watched_repository_def watcher_running_def sample_loader_def listBundles_def new_bundle_def)
  have clear: "wt_ignored ?w (we_normalize watched_repository ?path) = None" by (simp add: watcher_running_def version_1_1_def)
  have "findRemovedBundle watched_repository (wt_loader ?w) ?path = Some 0" using none s(2) names(1) by (simp add: findRemovedBundle_def)
  from removal_of_self [OF names(2) clear this] obtain g k where
    "handleBundleRemoved watched_repository ?path ?w = Some (Inr (), ?w\<lparr>wt_readings := k, wt_ignored := g\<rparr>)" using s(3) self by auto
  then have run: "p_each (on_event watched_repository) [ItemRemoved ?path] ?w = Some (Inr (), ?w\<lparr>wt_readings := k, wt_ignored := g\<rparr>)" by simp
  have "?n \<noteq> []" "?n = we_self watched_repository \<or> shouldDeferHotReload ?n" using self by simp_all
  from watcher_spares_itself [OF s(1,2) this run] have "findBundle (wt_loader (?w\<lparr>wt_readings := k, wt_ignored := g\<rparr>)) ?n = Some 0" by (rule conjE) (erule conjE)
  with run show ?thesis by (intro exI conjI)
qed

end
