(* ===== verification/AcquisitionBridge.thy ===== *)
theory AcquisitionBridge
  imports AgentCommands
begin

text \<open>
  The web side of the acquisition: JNDM123Support.cpp (payloads, parsing), JNDM123AgentManager.cpp (the agent's process) and
  JNDM123DdsBridge.cpp (snapshots received, commands sent). The summaries written to the log are left out: what they throw is caught
  after the state has been read.
\<close>

section \<open>Reading payloads\<close>

text \<open>The accessors of POCO's JSON objects that the agent does not use.\<close>

type_synonym json_object = "(string \<times> json) list"

record json_access =
  ja_optUInt64 :: "json_object \<Rightarrow> string \<Rightarrow> u64 \<Rightarrow> u64"
  ja_optInt :: "json_object \<Rightarrow> string \<Rightarrow> int \<Rightarrow> int"
  ja_optDouble :: "json_object \<Rightarrow> string \<Rightarrow> rat \<Rightarrow> rat"
  ja_getObject :: "json_object \<Rightarrow> string \<Rightarrow> json_object option"
  ja_elementObject :: "json \<Rightarrow> json_object option"
  ja_elementUInt64 :: "json \<Rightarrow> exc + u64"

text \<open>Documented: a member of the requested type is returned as it is; a missing one yields the default or null.\<close>

definition json_reads :: "poco \<Rightarrow> json_access \<Rightarrow> bool" where
  "json_reads P J \<longleftrightarrow> poco_json P \<and>
     (\<forall>ob k i d. obj_get ob k = Some (JInt i) \<longrightarrow> 0 \<le> i \<longrightarrow> i < 2 ^ 64 \<longrightarrow> ja_optUInt64 J ob k d = of_int i) \<and>
     (\<forall>ob k i d. obj_get ob k = Some (JInt i) \<longrightarrow> - (2 ^ 31) \<le> i \<longrightarrow> i < 2 ^ 31 \<longrightarrow> ja_optInt J ob k d = i) \<and>
     (\<forall>ob k x d. obj_get ob k = Some (JReal x) \<longrightarrow> ja_optDouble J ob k d = x) \<and>
     (\<forall>ob k o'. obj_get ob k = Some (JObj o') \<longrightarrow> ja_getObject J ob k = Some o') \<and>
     (\<forall>ob k. obj_get ob k = None \<longrightarrow> ja_getObject J ob k = None \<and> p_getArray P ob k = None) \<and>
     (\<forall>ob k js. obj_get ob k = Some (JArr js) \<longrightarrow> p_getArray P ob k = Some js) \<and>
     (\<forall>o'. ja_elementObject J (JObj o') = Some o')"

definition sample_access :: json_access where
  "sample_access =
     \<lparr>ja_optUInt64 = (\<lambda>ob k d. case obj_get ob k of Some (JInt i) \<Rightarrow> of_int i | _ \<Rightarrow> d),
      ja_optInt = (\<lambda>ob k d. case obj_get ob k of Some (JInt i) \<Rightarrow> i | _ \<Rightarrow> d),
      ja_optDouble = (\<lambda>ob k d. case obj_get ob k of Some (JReal x) \<Rightarrow> x | _ \<Rightarrow> d),
      ja_getObject = (\<lambda>ob k. case obj_get ob k of Some (JObj o') \<Rightarrow> Some o' | _ \<Rightarrow> None),
      ja_elementObject = (\<lambda>j. case j of JObj o' \<Rightarrow> Some o' | _ \<Rightarrow> None),
      ja_elementUInt64 = (\<lambda>j. case j of JInt i \<Rightarrow> Inr (of_int i) | _ \<Rightarrow> Inl (PocoException []))\<rparr>"

lemma sample_access_reads: "json_reads sample_poco sample_access"
  using sample_poco_json by (simp add: json_reads_def sample_access_def sample_poco_def)

section \<open>Payloads of the user interface\<close>

definition createUnauthorizedPayload :: "string \<Rightarrow> string \<Rightarrow> json_object" where
  "createUnauthorizedPayload now message =
     [(''authenticated'', JBool False), (''ok'', JBool False), (''message'', JStr message), (''updatedAt'', JStr now)]"

definition createErrorPayload :: "string \<Rightarrow> string \<Rightarrow> json_object" where
  "createErrorPayload now message =
     [(''authenticated'', JBool True), (''ok'', JBool False), (''message'', JStr message), (''updatedAt'', JStr now)]"

text \<open>The user interface's own limit; the agent has another one.\<close>

definition kWebHistoryLimit :: nat where
  "kWebHistoryLimit = 240"

definition waiting_channel :: "nat \<Rightarrow> json" where
  "waiting_channel channelIndex =
     JObj [(''index'', JInt (int channelIndex)), (''name'', JStr (''CH'' @ show_nat (channelIndex + 1))),
           (''hasValue'', JBool False), (''value'', JInt 0), (''samples'', JArr [])]"

definition waiting_chip :: "nat \<Rightarrow> json" where
  "waiting_chip chipIndex =
     JObj [(''index'', JInt (int chipIndex)), (''name'', JStr (''ADC'' @ show_nat (chipIndex + 1))),
           (''channels'', JArr (map waiting_channel [0..<kChannelsPerChip]))]"

definition createWaitingAcquisitionPayload :: "string \<Rightarrow> string \<Rightarrow> json_object" where
  "createWaitingAcquisitionPayload now message =
     [(''authenticated'', JBool True), (''ok'', JBool True), (''updatedAt'', JStr now), (''message'', JStr message),
      (''running'', JBool False), (''previewActive'', JBool False), (''historyLimit'', JInt (int kWebHistoryLimit)),
      (''queueDepth'', JInt 0), (''totalFrames'', JInt 0), (''droppedFrames'', JInt 0), (''recoveries'', JInt 0),
      (''lastFrameSequence'', JInt 0), (''lastFrameAt'', JStr []), (''waveformUpdatedAt'', JStr []), (''lastError'', JStr []),
      (''includeWaveform'', JBool True), (''commandSequence'', JInt 0), (''commandAction'', JStr ''status''),
      (''commandUpdatedAt'', JStr []), (''timelineUs'', JArr []), (''chips'', JArr (map waiting_chip [0..<kAd7606Count]))]"

text \<open>The nested objects are shared, so the samples vanish from the payload itself.\<close>

definition strip_channel :: "json_access \<Rightarrow> json \<Rightarrow> json" where
  "strip_channel J j = (case ja_elementObject J j of None \<Rightarrow> j | Some channel \<Rightarrow> JObj (obj_set channel ''samples'' (JArr [])))"

definition strip_chip :: "poco \<Rightarrow> json_access \<Rightarrow> json \<Rightarrow> json" where
  "strip_chip P J j =
     (case ja_elementObject J j of
        None \<Rightarrow> j
      | Some chip \<Rightarrow>
          (case p_getArray P chip ''channels'' of
             None \<Rightarrow> j
           | Some channels \<Rightarrow> JObj (obj_set chip ''channels'' (JArr (map (strip_channel J) channels)))))"

definition stripWaveformSamples :: "poco \<Rightarrow> json_access \<Rightarrow> json_object \<Rightarrow> json_object" where
  "stripWaveformSamples P J payload0 =
     (let payload = obj_set (obj_set payload0 ''includeWaveform'' (JBool False)) ''timelineUs'' (JArr []) in
      case p_getArray P payload ''chips'' of
        None \<Rightarrow> payload
      | Some chips \<Rightarrow> obj_set payload ''chips'' (JArr (map (strip_chip P J) chips)))"

definition webDividerSnapshotToJson :: "string \<Rightarrow> divider_snapshot \<Rightarrow> json_object" where
  "webDividerSnapshotToJson now s =
     [(''authenticated'', JBool True), (''ok'', JBool (ds_ok s)), (''message'', JStr (ds_message s)), (''updatedAt'', JStr now),
      (''devicePath'', JStr (ds_devicePath s)), (''referenceClockHz'', JInt (uint (ds_referenceClockHz s))),
      (''deviceType'', JStr (ds_deviceType s)), (''address'', JStr (ds_address s)), (''inputClock'', JStr (ds_inputClock s)),
      (''revisionId'', JInt (ds_revisionId s)), (''eepBusy'', JBool (ds_eepBusy s)), (''eepLock'', JBool (ds_eepLock s)),
      (''powerDown'', JBool (ds_powerDown s)), (''outputs'', JArr (map divider_output_json (ds_outputs s)))]"

definition output_from_object :: "poco \<Rightarrow> json_access \<Rightarrow> json_object \<Rightarrow> divider_output_state" where
  "output_from_object P J item =
     \<lparr>dos_index = ja_optInt J item ''index'' 0, dos_name = p_optString P item ''name'' [], dos_pdivName = p_optString P item ''pdiv'' [],
      dos_pin = ja_optInt J item ''pin'' 0, dos_divider = ja_optInt J item ''divider'' 0, dos_frequencyHz = ja_optDouble J item ''frequencyHz'' 0\<rparr>"

text \<open>The object \<open>divider\<close> of a payload, or the payload itself.\<close>

definition divider_object :: "json_access \<Rightarrow> json_object \<Rightarrow> json_object" where
  "divider_object J payload = (case ja_getObject J payload ''divider'' of Some divider \<Rightarrow> divider | None \<Rightarrow> payload)"

definition missing_outputs_message :: "poco \<Rightarrow> json_object \<Rightarrow> json_object \<Rightarrow> string" where
  "missing_outputs_message P divider payload =
     (let message = p_optString P divider ''message'' (p_optString P payload ''message'' []);
          lastError = p_optString P divider ''lastError'' (p_optString P payload ''lastError'' [])
      in if message \<noteq> [] then message else if lastError \<noteq> [] then lastError else ''Divider snapshot is missing outputs.'')"

definition dividerSnapshotFromPayload :: "poco \<Rightarrow> json_access \<Rightarrow> json_object \<Rightarrow> exc + divider_snapshot" where
  "dividerSnapshotFromPayload P J payload =
     (let divider = divider_object J payload in
      case p_getArray P divider ''outputs'' of
        None \<Rightarrow> Inl (InvalidArgumentException (missing_outputs_message P divider payload))
      | Some outputs \<Rightarrow> Inr
          \<lparr>ds_ok = p_optBool P divider ''ok'' True,
           ds_message = p_optString P divider ''message'' ''Divider status synchronized.'',
           ds_devicePath = p_optString P divider ''devicePath'' kDefaultI2CDevice,
           ds_referenceClockHz = ja_optUInt64 J divider ''referenceClockHz'' kFallbackReferenceClockHz,
           ds_deviceType = p_optString P divider ''deviceType'' ''unsupported'',
           ds_address = p_optString P divider ''address'' ''--'',
           ds_inputClock = p_optString P divider ''inputClock'' ''--'',
           ds_revisionId = ja_optInt J divider ''revisionId'' 0,
           ds_eepBusy = p_optBool P divider ''eepBusy'' False,
           ds_eepLock = p_optBool P divider ''eepLock'' False,
           ds_powerDown = p_optBool P divider ''powerDown'' False,
           ds_outputs = map (output_from_object P J) (List.map_filter (ja_elementObject J) outputs)\<rparr>)"

definition acquisitionResultFromPayload :: "poco \<Rightarrow> json_object \<Rightarrow> string \<Rightarrow> bool \<times> string" where
  "acquisitionResultFromPayload P payload defaultMessage =
     (p_optBool P payload ''ok'' True, p_optString P payload ''message'' defaultMessage)"

text \<open>\<open>None\<close> is the null pointer for an empty text.\<close>

definition cloneFromText :: "poco \<Rightarrow> string \<Rightarrow> exc + json_object option" where
  "cloneFromText P text' =
     (if text' = [] then Inr None else case p_parse P text' of Inl e \<Rightarrow> Inl e | Inr ob \<Rightarrow> Inr (Some ob))"

section \<open>The process of the agent\<close>

text \<open>What the manager asks of the operating system; the state \<open>'p\<close> holds the processes.\<close>

record 'p process_api =
  pr_shell :: "string \<Rightarrow> ('p, string) io"
  pr_exists :: "string \<Rightarrow> ('p, bool) io"
  pr_launch :: "string \<Rightarrow> string \<Rightarrow> ('p, unit) io"
  pr_parse :: "string \<Rightarrow> exc + int"
  pr_executable :: "string option"
  pr_setFileName :: "string \<Rightarrow> string \<Rightarrow> string"
  pr_parent :: "string \<Rightarrow> string"
  pr_libPath :: "string \<Rightarrow> string"

record ('d, 'p) bridge_env =
  be_poco :: poco
  be_json :: json_access
  be_dds :: "'d dds"
  be_process :: "'p process_api"
  be_iso :: "nat \<Rightarrow> string"

text \<open>The bridge, the manager's counters, the DDS domain and the processes; readings of the clock are numbered.\<close>

record ('d, 'p) bridge =
  br_publisher :: dds_publisher
  br_subscriber :: dds_subscriber
  br_started :: bool
  br_queue :: "string list"
  br_latest :: string
  br_updatedAt :: string
  br_recent :: "string list"
  br_pending :: nat
  br_seen :: u64
  br_debugCount :: u64
  br_next :: u64
  br_restarts :: u32
  br_managerError :: string
  br_dds :: 'd
  br_processes :: 'p
  br_tick :: nat

type_synonym ('d, 'p, 'a) br = "(('d, 'p) bridge, 'a) io"

definition br_modify :: "(('d, 'p) bridge \<Rightarrow> ('d, 'p) bridge) \<Rightarrow> ('d, 'p, unit) br" where
  "br_modify f b = (Inr (), f b)"

definition br_read :: "(('d, 'p) bridge \<Rightarrow> 'a) \<Rightarrow> ('d, 'p, 'a) br" where
  "br_read f b = (Inr (f b), b)"

definition br_now :: "('d, 'p) bridge_env \<Rightarrow> ('d, 'p, string) br" where
  "br_now E b = (Inr (be_iso E (br_tick b)), b\<lparr>br_tick := Suc (br_tick b)\<rparr>)"

definition on_processes :: "('p, 'a) io \<Rightarrow> ('d, 'p, 'a) br" where
  "on_processes m b = (let (r, p) = m (br_processes b) in (r, b\<lparr>br_processes := p\<rparr>))"

definition br_catch :: "('d, 'p, 'a) br \<Rightarrow> (exc \<Rightarrow> ('d, 'p, 'a) br) \<Rightarrow> ('d, 'p, 'a) br" where
  "br_catch m h b = (case m b of (Inl e, b') \<Rightarrow> h e b' | (Inr x, b') \<Rightarrow> (Inr x, b'))"

definition newBridge :: "'d \<Rightarrow> 'p \<Rightarrow> ('d, 'p) bridge" where
  "newBridge d p =
     \<lparr>br_publisher = newDdsPublisher, br_subscriber = newDdsSubscriber, br_started = False, br_queue = [], br_latest = [],
      br_updatedAt = [], br_recent = [], br_pending = 0, br_seen = 0, br_debugCount = 0, br_next = 0, br_restarts = 0,
      br_managerError = [], br_dds = d, br_processes = p, br_tick = 0\<rparr>"

definition kAgentExecutableName :: string where
  "kAgentExecutableName = ''myiot-jndm123-acquisition-agent''"

definition kDdsDomain :: int where
  "kDdsDomain = 37"

definition agentExecutablePath :: "'p process_api \<Rightarrow> string" where
  "agentExecutablePath R =
     pr_setFileName R (case pr_executable R of Some path \<Rightarrow> path | None \<Rightarrow> ''/opt/myiot/bin/macchina'') kAgentExecutableName"

definition shell_quoted :: "string \<Rightarrow> string" where
  "shell_quoted s = CHR 0x22 # s @ [CHR 0x22]"

definition makeLaunchCommand :: "'p process_api \<Rightarrow> string \<Rightarrow> string" where
  "makeLaunchCommand R executablePath =
     ''LD_LIBRARY_PATH='' @ shell_quoted (pr_libPath R executablePath @ ''${LD_LIBRARY_PATH:+:${LD_LIBRARY_PATH}}'') @
     '' MYIOT_JNDM123_AGENT_DDS_DOMAIN='' @ shell_quoted (show_int kDdsDomain) @ '' exec '' @ shell_quoted executablePath"

text \<open>\<open>Poco::StringTokenizer\<close> at white space, without empty tokens.\<close>

fun tokens_aux :: "string \<Rightarrow> string \<Rightarrow> string list" where
  "tokens_aux acc [] = [acc]"
| "tokens_aux acc (c # cs) =
     (if c \<in> {CHR '' '', CHR 0x09, CHR 0x0D, CHR 0x0A} then acc # tokens_aux [] cs else tokens_aux (acc @ [c]) cs)"

definition tokens :: "poco \<Rightarrow> string \<Rightarrow> string list" where
  "tokens P s = filter (\<lambda>t. t \<noteq> []) (map (p_trim P) (tokens_aux [] s))"

definition currentAgentPidLocked :: "('d, 'p) bridge_env \<Rightarrow> ('d, 'p, int) br" where
  "currentAgentPidLocked E =
     io_bind (on_processes (pr_shell (be_process E) ''pidof myiot-jndm123-acquisition-agent 2>/dev/null || true'')) (\<lambda>output.
       io_ret (case tokens (be_poco E) output of
                 [] \<Rightarrow> - 1
               | t # _ \<Rightarrow> (case pr_parse (be_process E) t of Inr pid \<Rightarrow> pid | Inl _ \<Rightarrow> - 1)))"

definition ensureProcessRunningLocked :: "('d, 'p) bridge_env \<Rightarrow> ('d, 'p, unit) br" where
  "ensureProcessRunningLocked E =
     io_bind (currentAgentPidLocked E) (\<lambda>pid0.
       if pid0 > 0 then io_ret ()
       else
         (let executablePath = agentExecutablePath (be_process E) in
          io_bind (on_processes (pr_exists (be_process E) executablePath)) (\<lambda>there.
            if \<not> there then io_throw (FileNotFoundException (''Acquisition agent executable not found: '' @ executablePath))
            else
              io_seq (on_processes (pr_launch (be_process E) (makeLaunchCommand (be_process E) executablePath)
                        (pr_parent (be_process E) executablePath)))
                (io_bind (currentAgentPidLocked E) (\<lambda>pid.
                   if pid \<le> 0 then io_throw (PocoException ''Acquisition agent did not appear after launch.'')
                   else br_modify (\<lambda>b. b\<lparr>br_restarts := br_restarts b + 1, br_managerError := []\<rparr>))))))"

text \<open>At most twenty looks, a tenth of a second apart.\<close>

fun waitForEnd :: "('d, 'p) bridge_env \<Rightarrow> nat \<Rightarrow> ('d, 'p, unit) br" where
  "waitForEnd E 0 = io_ret ()"
| "waitForEnd E (Suc n) = io_bind (currentAgentPidLocked E) (\<lambda>pid. if pid \<le> 0 then io_ret () else waitForEnd E n)"

definition kill_command :: string where
  "kill_command = ''for pid in $(pidof myiot-jndm123-acquisition-agent 2>/dev/null); do kill '' @ shell_quoted ''$pid'' @ '' 2>/dev/null || true; done''"

definition terminateProcessLocked :: "('d, 'p) bridge_env \<Rightarrow> ('d, 'p, unit) br" where
  "terminateProcessLocked E = io_bind (on_processes (pr_shell (be_process E) kill_command)) (\<lambda>_. waitForEnd E 20)"

definition createStatusPayload :: "string \<Rightarrow> bool \<Rightarrow> int \<Rightarrow> u32 \<Rightarrow> string \<Rightarrow> string \<Rightarrow> json_object" where
  "createStatusPayload now running pid restartCount managerError message =
     [(''authenticated'', JBool True), (''ok'', JBool True), (''updatedAt'', JStr now), (''message'', JStr message),
      (''agentProcessRunning'', JBool running), (''agentProcessId'', JInt pid), (''agentRestartCount'', JInt (uint restartCount)),
      (''agentManagerError'', JStr managerError)]"

definition acquisitionProcessStatusOrThrow :: "('d, 'p) bridge_env \<Rightarrow> ('d, 'p, json_object) br" where
  "acquisitionProcessStatusOrThrow E =
     io_seq (ensureProcessRunningLocked E)
    (io_bind (currentAgentPidLocked E) (\<lambda>pid.
     io_bind (br_now E) (\<lambda>now b.
       (Inr (createStatusPayload now (pid > 0) pid (br_restarts b) (br_managerError b)
          (if pid > 0 then ''Acquisition process is running.'' else ''Acquisition process is not running.'')), b))))"

definition restartAcquisitionProcessOrThrow :: "('d, 'p) bridge_env \<Rightarrow> ('d, 'p, json_object) br" where
  "restartAcquisitionProcessOrThrow E =
     io_seq (terminateProcessLocked E)
    (io_seq (ensureProcessRunningLocked E)
    (io_bind (currentAgentPidLocked E) (\<lambda>pid.
     io_bind (br_now E) (\<lambda>now b.
       (Inr (createStatusPayload now (pid > 0) pid (br_restarts b) (br_managerError b) ''Acquisition process restarted.''), b)))))"

section \<open>The bridge\<close>

definition kSnapshotRetentionLimit :: nat where
  "kSnapshotRetentionLimit = 60"

definition kAcquisitionDdsDomain :: int where
  "kAcquisitionDdsDomain = 37"

definition isDividerAction :: "string \<Rightarrow> bool" where
  "isDividerAction action \<longleftrightarrow> take 8 action = ''divider-''"

definition payloadHasDividerOutputs :: "('d, 'p) bridge_env \<Rightarrow> json_object \<Rightarrow> bool" where
  "payloadHasDividerOutputs E payload \<longleftrightarrow> p_getArray (be_poco E) (divider_object (be_json E) payload) ''outputs'' \<noteq> None"

text \<open>The queue is emptied down to the limit before the new snapshot enters it; \<open>br_pending\<close> is the code's own count.\<close>

fun dropOldest :: "nat \<Rightarrow> string list \<Rightarrow> nat \<times> string list" where
  "dropOldest pending queue =
     (if pending \<ge> kSnapshotRetentionLimit
      then (case queue of [] \<Rightarrow> (pending, queue) | _ # rest \<Rightarrow> dropOldest (pending - 1) rest)
      else (pending, queue))"

definition onMessage :: "('d, 'p) bridge_env \<Rightarrow> dds_message \<Rightarrow> ('d, 'p) bridge \<Rightarrow> ('d, 'p) bridge" where
  "onMessage E m b =
     (let (commandSequence, updatedAt, debugCount) =
            (case cloneFromText (be_poco E) (dm_payload m) of
               Inr (Some payload) \<Rightarrow> (ja_optUInt64 (be_json E) payload ''commandSequence'' 0,
                                     p_optString (be_poco E) payload ''updatedAt'' (dm_updatedAt m), br_debugCount b + 1)
             | _ \<Rightarrow> (0, dm_updatedAt m, br_debugCount b));
          (pending, queue) = dropOldest (br_pending b) (br_queue b)
      in b\<lparr>br_latest := dm_payload m, br_updatedAt := updatedAt, br_debugCount := debugCount,
           br_seen := (if commandSequence > br_seen b then commandSequence else br_seen b),
           br_queue := queue @ [dm_payload m], br_pending := pending + 1\<rparr>)"

definition lastN :: "nat \<Rightarrow> 'a list \<Rightarrow> 'a list" where
  "lastN n xs = drop (length xs - n) xs"

definition drainPendingSnapshotsLocked :: "('d, 'p) bridge \<Rightarrow> ('d, 'p) bridge" where
  "drainPendingSnapshotsLocked b =
     b\<lparr>br_queue := [], br_pending := br_pending b - length (br_queue b),
       br_recent := foldl (\<lambda>recent t. if t = [] then recent else lastN kSnapshotRetentionLimit (recent @ [t])) (br_recent b) (br_queue b)\<rparr>"

definition ensureStarted :: "('d, 'p) bridge_env \<Rightarrow> ('d, 'p, unit) br" where
  "ensureStarted E b =
     (if br_started b then (Inr (), b)
      else case startPublisher (be_dds E) kAcquisitionDdsDomain kAcquisitionControlTopicName (br_publisher b, br_dds b) of
        (Inl e, (pub, d)) \<Rightarrow> (Inl e, b\<lparr>br_publisher := pub, br_dds := d\<rparr>)
      | (Inr _, (pub, d)) \<Rightarrow>
          (case startSubscriber (be_dds E) kAcquisitionDdsDomain kAcquisitionSnapshotTopicName (br_subscriber b, d) of
             (Inl e, (sub, d')) \<Rightarrow> (Inl e, b\<lparr>br_publisher := pub, br_subscriber := sub, br_dds := d'\<rparr>)
           | (Inr _, (sub, d')) \<Rightarrow>
               (Inr (), b\<lparr>br_publisher := pub, br_subscriber := sub, br_dds := d', br_started := True\<rparr>)))"

definition newest_text :: "('d, 'p) bridge \<Rightarrow> string" where
  "newest_text b = (if br_recent b \<noteq> [] then last (br_recent b) else br_latest b)"

definition latestSnapshot :: "('d, 'p) bridge_env \<Rightarrow> ('d, 'p, json_object) br" where
  "latestSnapshot E =
     io_seq (ensureStarted E)
    (io_seq (br_modify drainPendingSnapshotsLocked)
    (io_bind (br_read newest_text) (\<lambda>payloadText.
       case cloneFromText (be_poco E) payloadText of
         Inr (Some payload) \<Rightarrow> io_ret payload
       | _ \<Rightarrow> io_bind (br_now E) (\<lambda>now.
           io_ret (createWaitingAcquisitionPayload now ''Waiting for acquisition snapshots from the external process.'')))))"

definition isRunning :: "('d, 'p) bridge_env \<Rightarrow> ('d, 'p, bool) br" where
  "isRunning E = io_bind (latestSnapshot E) (\<lambda>payload. io_ret (p_optBool (be_poco E) payload ''running'' False))"

definition remoteAcquisitionRunning :: "('d, 'p) bridge_env \<Rightarrow> ('d, 'p, bool) br" where
  "remoteAcquisitionRunning E = br_catch (isRunning E) (\<lambda>_. io_ret False)"

text \<open>What a look at the latest snapshot makes of it while waiting for command \<open>n\<close>.\<close>

definition replyFor :: "('d, 'p) bridge_env \<Rightarrow> string \<Rightarrow> u64 \<Rightarrow> ('d, 'p) bridge \<Rightarrow> json_object option" where
  "replyFor E action n b =
     (if br_seen b \<ge> n then
        (case cloneFromText (be_poco E) (br_latest b) of
           Inr (Some payload) \<Rightarrow>
             (if \<not> isDividerAction action \<or> payloadHasDividerOutputs E payload \<or> \<not> p_optBool (be_poco E) payload ''ok'' True
              then Some payload else None)
         | _ \<Rightarrow> None)
      else None)"

text \<open>
  The loop until the deadline: \<open>rounds\<close> are the messages that arrive before each look, one list for every look the clock allows.
\<close>

fun awaitReply :: "('d, 'p) bridge_env \<Rightarrow> string \<Rightarrow> u64 \<Rightarrow> dds_message list list \<Rightarrow> ('d, 'p) bridge \<Rightarrow> json_object option \<times> ('d, 'p) bridge" where
  "awaitReply E action n [] b = (None, b)"
| "awaitReply E action n (ms # rounds) b =
     (let b' = fold (onMessage E) ms b in
      case replyFor E action n b' of Some payload \<Rightarrow> (Some payload, b') | None \<Rightarrow> awaitReply E action n rounds b')"

definition timeout_message :: "string \<Rightarrow> string" where
  "timeout_message action =
     ''No acquisition response within 5 seconds after '' @ [CHR 0x27] @ action @ [CHR 0x27] @ ''. Restarting the acquisition process.''"

definition restartAfterTimeout :: "('d, 'p) bridge_env \<Rightarrow> json_object \<Rightarrow> ('d, 'p, json_object) br" where
  "restartAfterTimeout E payload =
     br_catch
       (io_bind (restartAcquisitionProcessOrThrow E) (\<lambda>r.
          io_ret (obj_set (obj_set (obj_set (obj_set payload
            ''agentProcessRunning'' (JBool (p_optBool (be_poco E) r ''agentProcessRunning'' False)))
            ''agentProcessId'' (JInt (ja_optInt (be_json E) r ''agentProcessId'' (- 1))))
            ''agentRestartCount'' (JInt (uint (ja_optUInt64 (be_json E) r ''agentRestartCount'' 0))))
            ''agentManagerError'' (JStr (p_optString (be_poco E) r ''agentManagerError'' [])))))
       (\<lambda>e. case e of
          StdException _ \<Rightarrow> io_throw e
        | _ \<Rightarrow> io_bind (io_lift (p_getString (be_poco E) payload ''message'')) (\<lambda>message.
            io_ret (obj_set payload ''message'' (JStr (message @ '' Restart failed: '' @ p_displayText (be_poco E) e)))))"

definition commandMessage :: "('d, 'p) bridge_env \<Rightarrow> u64 \<Rightarrow> string \<Rightarrow> string \<Rightarrow> string \<Rightarrow> json_object \<Rightarrow> dds_message" where
  "commandMessage E n now action message arguments =
     \<lparr>dm_sequence = n, dm_updatedAt = now,
      dm_payload = p_stringify (be_poco E) (JObj (obj_set (obj_set arguments ''action'' (JStr action)) ''message'' (JStr message)))\<rparr>"

definition publishCommand :: "('d, 'p) bridge_env \<Rightarrow> dds_message \<Rightarrow> ('d, 'p, bool) br" where
  "publishCommand E m b =
     (let (ok, (pub, d)) = publishMessage (be_dds E) m (br_publisher b, br_dds b) in (Inr ok, b\<lparr>br_publisher := pub, br_dds := d\<rparr>))"

definition afterTimeout :: "('d, 'p) bridge_env \<Rightarrow> string \<Rightarrow> bool \<Rightarrow> ('d, 'p, json_object) br" where
  "afterTimeout E action restartOnTimeout =
     io_bind (latestSnapshot E) (\<lambda>payload0.
       (let payload = obj_set (obj_set payload0 ''ok'' (JBool False)) ''message'' (JStr (timeout_message action))
        in if restartOnTimeout then restartAfterTimeout E payload else io_ret payload))"

text \<open>The first half: the number of the command, and whether it was written.\<close>

definition submitCommand :: "('d, 'p) bridge_env \<Rightarrow> string \<Rightarrow> string \<Rightarrow> json_object \<Rightarrow> ('d, 'p, u64 \<times> bool) br" where
  "submitCommand E action message arguments =
     io_seq (ensureStarted E)
    (io_bind (acquisitionProcessStatusOrThrow E) (\<lambda>_.
     io_seq (br_modify (\<lambda>b. b\<lparr>br_next := br_next b + 1\<rparr>))
    (io_bind (br_read br_next) (\<lambda>n.
     io_bind (br_now E) (\<lambda>now.
     io_bind (publishCommand E (commandMessage E n now action message arguments)) (\<lambda>published.
       io_ret (n, published)))))))"

definition sendCommandAndAwait ::
    "('d, 'p) bridge_env \<Rightarrow> dds_message list list \<Rightarrow> dds_message list \<Rightarrow> string \<Rightarrow> string \<Rightarrow> json_object \<Rightarrow> bool \<Rightarrow> ('d, 'p, json_object) br" where
  "sendCommandAndAwait E rounds late action message arguments restartOnTimeout =
     io_bind (submitCommand E action message arguments) (\<lambda>(n, published).
       if \<not> published then
         io_bind (br_now E) (\<lambda>now.
           io_ret (obj_set (createWaitingAcquisitionPayload now ''Failed to publish acquisition DDS command.'') ''ok'' (JBool False)))
       else
         io_bind (\<lambda>b. let (r, b') = awaitReply E action n rounds b in (Inr r, b')) (\<lambda>r.
           case r of
             Some payload \<Rightarrow> io_ret payload
           | None \<Rightarrow> io_seq (br_modify (fold (onMessage E) late)) (afterTimeout E action restartOnTimeout)))"

definition resetSnapshotCache :: "('d, 'p) bridge \<Rightarrow> ('d, 'p) bridge" where
  "resetSnapshotCache b = b\<lparr>br_latest := [], br_updatedAt := [], br_recent := [], br_queue := [], br_pending := 0, br_seen := 0\<rparr>"

section \<open>What the bridge retains\<close>

text \<open>The count is exact and the two buffers are bounded.\<close>

definition wf_bridge :: "('d, 'p) bridge \<Rightarrow> bool" where
  "wf_bridge b \<longleftrightarrow> br_pending b = length (br_queue b) \<and> br_pending b \<le> kSnapshotRetentionLimit \<and> length (br_recent b) \<le> kSnapshotRetentionLimit"

declare dropOldest.simps [simp del]

lemma dropOldest_exact:
  "p = length q \<Longrightarrow> dropOldest p q = (min p (kSnapshotRetentionLimit - 1), lastN (kSnapshotRetentionLimit - 1) q)"
proof (induction p q rule: dropOldest.induct)
  case (1 p q)
  show ?case
  proof (cases "p \<ge> kSnapshotRetentionLimit")
    case True
    then obtain x rest where "q = x # rest" using 1(2) by (cases q) (simp_all add: kSnapshotRetentionLimit_def)
    then show ?thesis
      using 1 True
      by (subst dropOldest.simps) (auto simp: kSnapshotRetentionLimit_def lastN_def min_def drop_Cons' intro: arg_cong [where f = "\<lambda>n. drop n _"])
  next
    case False
    then show ?thesis using 1(2) by (subst dropOldest.simps) (auto simp: kSnapshotRetentionLimit_def lastN_def)
  qed
qed

lemma onMessage_wf: "wf_bridge b \<Longrightarrow> wf_bridge (onMessage E m b)"
  by (auto simp: wf_bridge_def onMessage_def dropOldest_exact Let_def lastN_def kSnapshotRetentionLimit_def split: sum.split option.split)

lemma onMessage_fields [simp]:
  "br_latest (onMessage E m b) = dm_payload m" "br_recent (onMessage E m b) = br_recent b" "br_next (onMessage E m b) = br_next b"
  "br_started (onMessage E m b) = br_started b"
  by (simp_all add: onMessage_def Let_def case_prod_beta)

lemma onMessage_queue: "wf_bridge b \<Longrightarrow> br_queue (onMessage E m b) = lastN (kSnapshotRetentionLimit - 1) (br_queue b) @ [dm_payload m]"
  by (simp add: onMessage_def Let_def case_prod_beta wf_bridge_def dropOldest_exact)

definition keep_recent :: "string list \<Rightarrow> string \<Rightarrow> string list" where
  "keep_recent recent t = (if t = [] then recent else lastN kSnapshotRetentionLimit (recent @ [t]))"

lemma drain_recent: "br_recent (drainPendingSnapshotsLocked b) = foldl keep_recent (br_recent b) (br_queue b)"
  by (simp add: drainPendingSnapshotsLocked_def keep_recent_def [abs_def])

lemma keep_recent_length: "length recent \<le> kSnapshotRetentionLimit \<Longrightarrow> length (foldl keep_recent recent ts) \<le> kSnapshotRetentionLimit"
  by (induction ts arbitrary: recent) (auto simp: keep_recent_def lastN_def)

lemma keep_recent_last: "[] \<notin> set ts \<Longrightarrow> ts \<noteq> [] \<Longrightarrow> foldl keep_recent recent ts \<noteq> [] \<and> last (foldl keep_recent recent ts) = last ts"
  by (cases ts rule: rev_cases) (auto simp: keep_recent_def lastN_def kSnapshotRetentionLimit_def)

lemma drain_wf: "wf_bridge b \<Longrightarrow> wf_bridge (drainPendingSnapshotsLocked b)"
  by (simp add: wf_bridge_def drain_recent keep_recent_length) (simp add: drainPendingSnapshotsLocked_def)

text \<open>What can happen to the buffers, and what a reader should see: the text that arrived last.\<close>

datatype bridge_event = Message dds_message | Look | Reset

fun on_bridge_event :: "('d, 'p) bridge_env \<Rightarrow> bridge_event \<Rightarrow> ('d, 'p) bridge \<Rightarrow> ('d, 'p) bridge" where
  "on_bridge_event E (Message m) b = onMessage E m b"
| "on_bridge_event E Look b = drainPendingSnapshotsLocked b"
| "on_bridge_event E Reset b = resetSnapshotCache b"

fun newest_spec :: "bridge_event \<Rightarrow> string \<Rightarrow> string" where
  "newest_spec (Message m) t = dm_payload m"
| "newest_spec Look t = t"
| "newest_spec Reset t = []"

text \<open>A look now would show \<open>t\<close>; texts are never empty.\<close>

definition shows_newest :: "string \<Rightarrow> ('d, 'p) bridge \<Rightarrow> bool" where
  "shows_newest t b \<longleftrightarrow> wf_bridge b \<and> [] \<notin> set (br_queue b) \<and> br_latest b = t \<and> (t = [] \<longrightarrow> br_queue b = [] \<and> br_recent b = []) \<and>
     (if br_queue b \<noteq> [] then last (br_queue b) = t else br_recent b \<noteq> [] \<longrightarrow> last (br_recent b) = t)"

lemma set_lastN: "set (lastN n xs) \<subseteq> set xs"
  by (simp add: lastN_def set_drop_subset)

lemma shows_step:
  assumes "shows_newest t b" and "\<And>m. e = Message m \<Longrightarrow> dm_payload m \<noteq> []"
  shows "shows_newest (newest_spec e t) (on_bridge_event E e b)"
proof (cases e)
  case (Message m)
  then show ?thesis
    using assms set_lastN [of "kSnapshotRetentionLimit - 1" "br_queue b"]
    by (auto simp: shows_newest_def onMessage_wf onMessage_queue)
next
  case Look
  have wf: "wf_bridge (drainPendingSnapshotsLocked b)" using assms(1) by (simp add: shows_newest_def drain_wf)
  show ?thesis
  proof (cases "br_queue b = []")
    case True
    then show ?thesis using wf assms(1) Look by (simp add: shows_newest_def drainPendingSnapshotsLocked_def)
  next
    case False
    then show ?thesis
      using wf assms(1) Look keep_recent_last [of "br_queue b" "br_recent b"]
      by (auto simp: shows_newest_def drain_recent) (simp_all add: drainPendingSnapshotsLocked_def)
  qed
next
  case Reset
  then show ?thesis by (simp add: shows_newest_def wf_bridge_def resetSnapshotCache_def)
qed

lemma shows_run:
  "shows_newest t b \<Longrightarrow> \<forall>m. Message m \<in> set es \<longrightarrow> dm_payload m \<noteq> [] \<Longrightarrow>
     shows_newest (fold newest_spec es t) (fold (on_bridge_event E) es b)"
proof (induction es arbitrary: t b)
  case (Cons e es)
  then show ?case using shows_step [OF Cons.prems(1), of e E] by (auto intro: Cons.IH)
qed simp

lemma shows_look: "shows_newest t b \<Longrightarrow> newest_text (drainPendingSnapshotsLocked b) = t"
  using shows_step [of t b Look] by (auto simp: shows_newest_def newest_text_def drainPendingSnapshotsLocked_def)

section \<open>A divider snapshot on its way\<close>

definition int32 :: "int \<Rightarrow> bool" where
  "int32 i \<longleftrightarrow> - (2 ^ 31) \<le> i \<and> i < 2 ^ 31"

text \<open>The numbers of a snapshot are C++ ints.\<close>

definition fits_ints :: "divider_snapshot \<Rightarrow> bool" where
  "fits_ints s \<longleftrightarrow> int32 (ds_revisionId s) \<and>
     (\<forall>x \<in> set (ds_outputs s). int32 (dos_index x) \<and> int32 (dos_pin x) \<and> int32 (dos_divider x))"

lemma json_readsD:
  assumes "json_reads P J"
  shows "obj_get ob k = Some (JBool b) \<Longrightarrow> p_optBool P ob k db = b" and "obj_get ob k = Some (JStr t) \<Longrightarrow> p_optString P ob k ds = t"
    and "obj_get ob k = Some (JStr t) \<Longrightarrow> p_getString P ob k = Inr t"
    and "obj_get ob k = Some (JInt i) \<Longrightarrow> 0 \<le> i \<Longrightarrow> i < 2 ^ 64 \<Longrightarrow> ja_optUInt64 J ob k du = of_int i"
    and "obj_get ob k = Some (JInt i) \<Longrightarrow> int32 i \<Longrightarrow> ja_optInt J ob k di = i"
    and "obj_get ob k = Some (JReal x) \<Longrightarrow> ja_optDouble J ob k dx = x"
    and "obj_get ob k = Some (JObj o') \<Longrightarrow> ja_getObject J ob k = Some o'" and "obj_get ob k = None \<Longrightarrow> ja_getObject J ob k = None"
    and "obj_get ob k = Some (JArr js) \<Longrightarrow> p_getArray P ob k = Some js" and "obj_get ob k = None \<Longrightarrow> p_getArray P ob k = None"
    and "ja_elementObject J (JObj o') = Some o'"
  using assms unfolding json_reads_def poco_json_def int32_def by - (elim conjE, simp)+

definition snapshot_object :: "string \<Rightarrow> divider_snapshot \<Rightarrow> json_object" where
  "snapshot_object now s = (case dividerSnapshotToJson now s of JObj ob \<Rightarrow> ob | _ \<Rightarrow> [])"

lemma snapshot_object: "dividerSnapshotToJson now s = JObj (snapshot_object now s)"
  by (simp add: snapshot_object_def dividerSnapshotToJson_def)

lemma output_is_read_back:
  assumes "json_reads P J" and "int32 (dos_index x) \<and> int32 (dos_pin x) \<and> int32 (dos_divider x)"
  obtains item where "ja_elementObject J (divider_output_json x) = Some item" "output_from_object P J item = x"
proof -
  define item where "item = [(''index'', JInt (dos_index x)), (''name'', JStr (dos_name x)), (''pdiv'', JStr (dos_pdivName x)),
      (''pin'', JInt (dos_pin x)), (''divider'', JInt (dos_divider x)), (''frequencyHz'', JReal (dos_frequencyHz x))]"
  have member: "obj_get item ''index'' = Some (JInt (dos_index x))" "obj_get item ''name'' = Some (JStr (dos_name x))"
    "obj_get item ''pdiv'' = Some (JStr (dos_pdivName x))" "obj_get item ''pin'' = Some (JInt (dos_pin x))"
    "obj_get item ''divider'' = Some (JInt (dos_divider x))" "obj_get item ''frequencyHz'' = Some (JReal (dos_frequencyHz x))"
    by (simp_all add: item_def obj_get_def)
  note read = json_readsD [OF assms(1)]
  have "output_from_object P J item = x"
    using assms(2) read(5) [OF member(1)] read(2) [OF member(2)] read(2) [OF member(3)] read(5) [OF member(4)] read(5) [OF member(5)]
      read(6) [OF member(6)] by (simp add: output_from_object_def)
  moreover have "ja_elementObject J (divider_output_json x) = Some item"
    using read(11) by (simp add: divider_output_json_def item_def)
  ultimately show thesis using that by blast
qed

lemma outputs_are_read_back:
  assumes "json_reads P J" and "\<forall>x \<in> set xs. int32 (dos_index x) \<and> int32 (dos_pin x) \<and> int32 (dos_divider x)"
  shows "map (output_from_object P J) (List.map_filter (ja_elementObject J) (map divider_output_json xs)) = xs"
  using assms(2)
proof (induction xs)
  case (Cons x xs)
  then obtain item where "ja_elementObject J (divider_output_json x) = Some item" "output_from_object P J item = x"
    using output_is_read_back [OF assms(1), of x] by auto
  then show ?case using Cons by (simp add: List.map_filter_simps)
qed (simp add: List.map_filter_simps)

lemma divider_is_read_back:
  assumes reads: "json_reads P J" and "fits_ints s" and "divider_object J payload = snapshot_object now s"
  shows "dividerSnapshotFromPayload P J payload = Inr s"
proof -
  let ?ob = "snapshot_object now s"
  have member: "obj_get ?ob ''ok'' = Some (JBool (ds_ok s))" "obj_get ?ob ''message'' = Some (JStr (ds_message s))"
    "obj_get ?ob ''devicePath'' = Some (JStr (ds_devicePath s))" "obj_get ?ob ''referenceClockHz'' = Some (JInt (uint (ds_referenceClockHz s)))"
    "obj_get ?ob ''deviceType'' = Some (JStr (ds_deviceType s))" "obj_get ?ob ''address'' = Some (JStr (ds_address s))"
    "obj_get ?ob ''inputClock'' = Some (JStr (ds_inputClock s))" "obj_get ?ob ''revisionId'' = Some (JInt (ds_revisionId s))"
    "obj_get ?ob ''eepBusy'' = Some (JBool (ds_eepBusy s))" "obj_get ?ob ''eepLock'' = Some (JBool (ds_eepLock s))"
    "obj_get ?ob ''powerDown'' = Some (JBool (ds_powerDown s))"
    "obj_get ?ob ''outputs'' = Some (JArr (map divider_output_json (ds_outputs s)))"
    by (simp_all add: snapshot_object_def dividerSnapshotToJson_def obj_get_def)
  note read = json_readsD [OF reads]
  have "uint (ds_referenceClockHz s) < 2 ^ 64" using uint_lt2p [of "ds_referenceClockHz s"] by simp
  then have clock: "ja_optUInt64 J ?ob ''referenceClockHz'' d = ds_referenceClockHz s" for d
    using read(4) [OF member(4)] by simp
  show ?thesis
    using assms(2) outputs_are_read_back [OF reads, of "ds_outputs s"]
      read(1) [OF member(1)] read(2) [OF member(2)] read(2) [OF member(3)] read(2) [OF member(5)] read(2) [OF member(6)]
      read(2) [OF member(7)] read(5) [OF member(8)] read(1) [OF member(9)] read(1) [OF member(10)] read(1) [OF member(11)] read(9) [OF member(12)]
    by (simp add: dividerSnapshotFromPayload_def Let_def assms(3) clock fits_ints_def)
qed

text \<open>The agent attaches the last divider snapshot to every snapshot it publishes.\<close>

lemma attached_divider:
  assumes reads: "json_reads P J" and "rt_latestDividerPayloadText r \<noteq> []" and "p_parse P (rt_latestDividerPayloadText r) = Inr ob"
  shows "divider_object J (snapshot_json P stamp r) = ob"
proof -
  have "obj_get (snapshot_json P stamp r) ''divider'' = Some (JObj ob)"
    using assms(2,3) by (simp add: snapshot_json_def Let_def obj_get_set attachDividerPayload_def) (simp add: obj_get_def)
  then show ?thesis using json_readsD(7) [OF reads] by (simp add: divider_object_def)
qed

section \<open>Commands and replies\<close>

lemma awaitReply_reply:
  assumes "awaitReply E action n rounds b = (Some payload, b')"
  obtains k where "k < length rounds" "b' = fold (onMessage E) (concat (take (Suc k) rounds)) b" "replyFor E action n b' = Some payload"
    "\<And>j. j < k \<Longrightarrow> replyFor E action n (fold (onMessage E) (concat (take (Suc j) rounds)) b) = None"
  using assms
proof (induction rounds arbitrary: b thesis)
  case (Cons ms rounds)
  let ?b = "fold (onMessage E) ms b"
  show ?case
  proof (cases "replyFor E action n ?b")
    case None
    then have "awaitReply E action n rounds ?b = (Some payload, b')" using Cons.prems(2) by (simp add: Let_def)
    then obtain k where k: "k < length rounds" "b' = fold (onMessage E) (concat (take (Suc k) rounds)) ?b"
        "replyFor E action n b' = Some payload" "\<And>j. j < k \<Longrightarrow> replyFor E action n (fold (onMessage E) (concat (take (Suc j) rounds)) ?b) = None"
      using Cons.IH by blast
    have "replyFor E action n (fold (onMessage E) (concat (take (Suc j) (ms # rounds))) b) = None" if "j < Suc k" for j
      using that None k(4) by (cases j) auto
    then show ?thesis using k by (intro Cons.prems(1) [of "Suc k"]) simp_all
  next
    case (Some p)
    then show ?thesis using Cons.prems(2) by (intro Cons.prems(1) [of 0]) (simp_all add: Let_def)
  qed
qed simp

lemma awaitReply_timeout:
  "awaitReply E action n rounds b = (None, b') \<Longrightarrow> k < length rounds \<Longrightarrow>
     replyFor E action n (fold (onMessage E) (concat (take (Suc k) rounds)) b) = None"
proof (induction rounds arbitrary: b k)
  case (Cons ms rounds)
  let ?b = "fold (onMessage E) ms b"
  have "replyFor E action n ?b = None" and rest: "awaitReply E action n rounds ?b = (None, b')"
    using Cons.prems(1) by (simp_all add: Let_def split: option.splits)
  then show ?case using Cons.IH [OF rest, of "k - 1"] Cons.prems(2) by (cases k) simp_all
qed simp

text \<open>The message a publication of the agent writes.\<close>

definition published_message :: "('s, 'h, 'd, 'n) platform \<Rightarrow> ('s, 'h, 'd, 'n) agent \<Rightarrow> dds_message" where
  "published_message F a =
     \<lparr>dm_sequence = rt_lastFrameSequence (ag_rt a), dm_updatedAt = pf_iso F (ag_tick a),
      dm_payload = p_stringify (pf_poco F) (JObj (snapshot_json (pf_poco F) (pf_iso F (ag_tick a)) (ag_rt a)))\<rparr>"

lemma publishSnapshot_writes:
  assumes "poco_json (pf_poco F)"
  obtains a' where "publishSnapshot F a = Some (Inr (), a')"
    "ag_dds a' = snd (snd (publishMessage (pf_dds F) (published_message F a) (rt_publisher (ag_rt a), ag_dds a)))"
proof -
  let ?p = "snapshot_json (pf_poco F) (pf_iso F (ag_tick a)) (ag_rt a)"
  have get: "p_getString (pf_poco F) ?p ''updatedAt'' = Inr (pf_iso F (ag_tick a))"
    using assms snapshot_members(5) unfolding poco_json_def by blast
  obtain ok pub d where w: "publishMessage (pf_dds F) (published_message F a) (rt_publisher (ag_rt a), ag_dds a) = (ok, (pub, d))"
    by (metis prod.collapse)
  show thesis
    by (rule that [of "a\<lparr>ag_tick := Suc (ag_tick a), ag_dds := d, ag_rt := (ag_rt a)\<lparr>rt_publisher := pub,
        rt_lastPublishedAt := pf_iso F (ag_tick a)\<rparr>\<rparr>"])
      (use get w in \<open>simp_all add: publishSnapshot_def snapshot_def p_bind_def published_message_def\<close>)
qed

lemma ensureStarted_buffers:
  "ensureStarted E b = (r, b') \<Longrightarrow> br_queue b' = br_queue b \<and> br_recent b' = br_recent b \<and> br_latest b' = br_latest b"
  by (auto simp: ensureStarted_def split: if_splits prod.splits sum.splits)

lemma await_first:
  "replyFor E action n (fold (onMessage E) ms b) = Some payload \<Longrightarrow> awaitReply E action n (ms # rounds) b = (Some payload, fold (onMessage E) ms b)"
  by simp

lemma replyFor_message:
  assumes reads: "json_reads (be_poco E) (be_json E)" and "dm_payload m \<noteq> []" and "p_parse (be_poco E) (dm_payload m) = Inr payload"
    and "obj_get payload ''commandSequence'' = Some (JInt N)" and "uint n \<le> N" and "N < 2 ^ 64"
    and "\<not> isDividerAction action \<or> obj_get payload ''ok'' = Some (JBool False)"
  shows "replyFor E action n (onMessage E m b) = Some payload"
proof -
  have clone: "cloneFromText (be_poco E) (dm_payload m) = Inr (Some payload)" using assms(2,3) by (simp add: cloneFromText_def)
  have "0 \<le> N" using assms(5) uint_ge_0 [of n] by linarith
  then have "ja_optUInt64 (be_json E) payload ''commandSequence'' d = of_int N" for d
    using json_readsD(4) [OF reads assms(4)] assms(6) by blast
  moreover have "n \<le> of_int N" using assms(5,6) \<open>0 \<le> N\<close> by (simp add: word_le_def uint_word_of_int_eq take_bit_int_eq_self)
  ultimately have "n \<le> br_seen (onMessage E m b)"
    by (auto simp: onMessage_def clone Let_def case_prod_beta)
  then show ?thesis
    using assms(7) json_readsD(1) [OF reads] by (auto simp: replyFor_def clone)
qed

lemma send_first_reply:
  assumes "submitCommand E action message args b = (Inr (n, True), b1)" and "replyFor E action n (onMessage E m b1) = Some payload"
  shows "sendCommandAndAwait E ([m] # rounds) late action message args restart b = (Inr payload, onMessage E m b1)"
  using assms by (simp add: sendCommandAndAwait_def io_bind_def)

text \<open>Numbers are handed out one by one.\<close>

lemma br_keeps:
  "(\<And>b p. P b \<Longrightarrow> P (b\<lparr>br_processes := p\<rparr>)) \<Longrightarrow> io_keeps P (on_processes m)"
  "(\<And>b t. P b \<Longrightarrow> P (b\<lparr>br_tick := t\<rparr>)) \<Longrightarrow> io_keeps P (br_now E)"
  "(\<And>b. P b \<Longrightarrow> P (f b)) \<Longrightarrow> io_keeps P (br_modify f)"
  by (simp_all add: io_keeps_def on_processes_def br_now_def br_modify_def case_prod_beta Let_def)

lemma process_keeps_number:
  "io_keeps (\<lambda>b. br_next b = x) (currentAgentPidLocked E)" "io_keeps (\<lambda>b. br_next b = x) (ensureProcessRunningLocked E)"
  "io_keeps (\<lambda>b. br_next b = x) (acquisitionProcessStatusOrThrow E)"
proof -
  show pid: "io_keeps (\<lambda>b. br_next b = x) (currentAgentPidLocked E)"
    unfolding currentAgentPidLocked_def by (intro io_keeps_bind br_keeps io_keeps_ret) simp_all
  show run: "io_keeps (\<lambda>b. br_next b = x) (ensureProcessRunningLocked E)"
    unfolding ensureProcessRunningLocked_def Let_def
    by (auto intro!: io_keeps_bind io_keeps_seq io_keeps_throw io_keeps_ret br_keeps pid)
  show "io_keeps (\<lambda>b. br_next b = x) (acquisitionProcessStatusOrThrow E)"
    unfolding acquisitionProcessStatusOrThrow_def
    by (intro io_keeps_seq run io_keeps_bind pid br_keeps) (simp_all add: io_keeps_def)
qed

lemma submit_number:
  assumes "submitCommand E action message args b = (Inr (n, ok), b1)"
  shows "n = br_next b + 1"
proof -
  obtain r0 b0 where start: "ensureStarted E b = (r0, b0)" by fastforce
  then have n0: "br_next b0 = br_next b" by (auto simp: ensureStarted_def split: if_splits prod.splits sum.splits)
  obtain r2 b2 where status: "acquisitionProcessStatusOrThrow E b0 = (r2, b2)" by fastforce
  have "br_next (snd (acquisitionProcessStatusOrThrow E b0)) = br_next b0"
    using process_keeps_number(3) [of "br_next b0" E] by (simp add: io_keeps_def)
  then have "br_next b2 = br_next b" using n0 by (simp add: status)
  then show ?thesis
    using assms
    by (auto simp: submitCommand_def io_seq_def io_bind_def start status br_modify_def br_read_def br_now_def split: sum.splits prod.splits)
qed

text \<open>What is returned after the deadline says that the command failed.\<close>

lemma timeout_fails:
  assumes "afterTimeout E action restart b = (Inr payload, b')"
  shows "obj_get payload ''ok'' = Some (JBool False)"
proof -
  obtain payload0 b0 where snap: "latestSnapshot E b = (Inr payload0, b0)"
    using assms by (auto simp: afterTimeout_def io_bind_def split: prod.splits sum.splits)
  let ?p = "obj_set (obj_set payload0 ''ok'' (JBool False)) ''message'' (JStr (timeout_message action))"
  have ok: "obj_get ?p ''ok'' = Some (JBool False)" by (simp add: obj_get_set)
  show ?thesis
  proof (cases restart)
    case False
    then show ?thesis using assms snap ok by (simp add: afterTimeout_def io_bind_def Let_def)
  next
    case True
    then have "restartAfterTimeout E ?p b0 = (Inr payload, b')" using assms snap by (simp add: afterTimeout_def io_bind_def Let_def)
    then show ?thesis
      using ok
      by (auto simp: restartAfterTimeout_def br_catch_def io_bind_def io_throw_def obj_get_set split: prod.splits sum.splits exc.splits)
  qed
qed

section \<open>Properties\<close>

text \<open>What the agent measured is what the user interface reads: a divider snapshot that the agent prints, attaches to its
  snapshots and publishes as text is read back by the web side as it was, every field and every output of it.\<close>

theorem divider_reply_is_read_back:
  assumes "json_reads P J" and "fits_ints s" and "rt_latestDividerPayloadText r = p_stringify P (dividerSnapshotToJson now s)"
    and "rt_latestDividerPayloadText r \<noteq> []" and "p_parse P (p_stringify P (dividerSnapshotToJson now s)) = Inr (snapshot_object now s)"
    and "cloneFromText P (p_stringify P (JObj (snapshot_json P stamp r))) = Inr (Some (snapshot_json P stamp r))"
  shows "\<exists>payload. cloneFromText P (p_stringify P (JObj (snapshot_json P stamp r))) = Inr (Some payload) \<and>
    dividerSnapshotFromPayload P J payload = Inr s"
proof -
  have "divider_object J (snapshot_json P stamp r) = snapshot_object now s"
    using assms(3-5) by (intro attached_divider [OF assms(1)]) simp_all
  then show ?thesis using assms(6) divider_is_read_back [OF assms(1,2)] by blast
qed

text \<open>C12: A divider command that fails in the agent is reported to the user as a success. The agent marks its reply as failed, but
  attaches the divider snapshot of an earlier command to it; the web side takes the reply for the command's and reads the verdict and the values of that
  earlier snapshot.\<close>

theorem failed_divider_command_reports_success:
  assumes "json_reads (pf_poco F) (be_json E)" and "be_poco E = pf_poco F"
    and "decodeCommand F m a = Some (Inr (action, msg, request), a)" and "executeCommand F m action msg request a = Some (Inl e, a1)"
    and "rt_latestDividerPayloadText (ag_rt a1) \<noteq> []"
    and "p_parse (pf_poco F) (rt_latestDividerPayloadText (ag_rt a1)) = Inr (snapshot_object now s)" and "fits_ints s"
    and "submitCommand E action message args b = (Inr (dm_sequence m, True), b1)"
    and "a2 = on_rt (commandFailed m action (caught_text (pf_poco F) e)) a1"
    and "cloneFromText (pf_poco F) (dm_payload (published_message F a2)) =
      Inr (Some (snapshot_json (pf_poco F) (pf_iso F (ag_tick a2)) (ag_rt a2)))"
  shows "\<exists>a3 payload b2.
    handleControlMessage F m a = Some (Inr (), a3) \<and>
    ag_dds a3 = snd (snd (publishMessage (pf_dds F) (published_message F a2) (rt_publisher (ag_rt a2), ag_dds a2))) \<and>
    sendCommandAndAwait E ([published_message F a2] # rounds) late action message args restart b = (Inr payload, b2) \<and>
    obj_get payload ''ok'' = Some (JBool False) \<and> dividerSnapshotFromPayload (pf_poco F) (be_json E) payload = Inr s"
proof -
  let ?P = "pf_poco F"
  let ?payload = "snapshot_json ?P (pf_iso F (ag_tick a2)) (ag_rt a2)"
  have poco: "poco_json ?P" using assms(1) by (simp add: json_reads_def)
  obtain a3 where a3: "handleControlMessage F m a = Some (Inr (), a3)"
      "ag_dds a3 = snd (snd (publishMessage (pf_dds F) (published_message F a2) (rt_publisher (ag_rt a2), ag_dds a2)))"
    using publishSnapshot_writes [OF poco, of a2] unfolding failed_command [OF assms(3,4)] assms(9) by metis
  have rt: "rt_lastCommandSequence (ag_rt a2) = dm_sequence m" "\<not> rt_lastCommandOk (ag_rt a2)"
      "rt_latestDividerPayloadText (ag_rt a2) = rt_latestDividerPayloadText (ag_rt a1)"
    by (simp_all add: assms(9) on_rt_def commandFailed_def markCommand_def)
  have ok: "obj_get ?payload ''ok'' = Some (JBool False)" using snapshot_members(2) [of ?P _ "ag_rt a2"] rt(2) by simp
  have parse: "dm_payload (published_message F a2) \<noteq> []" "p_parse (be_poco E) (dm_payload (published_message F a2)) = Inr ?payload"
    using assms(10) by (simp_all add: cloneFromText_def assms(2) split: if_splits sum.splits)
  have sequence: "obj_get ?payload ''commandSequence'' = Some (JInt (uint (dm_sequence m)))"
    using snapshot_members(1) [of ?P _ "ag_rt a2"] rt(1) by simp
  have "uint (dm_sequence m) < 2 ^ 64" using uint_lt2p [of "dm_sequence m"] by simp
  then have "replyFor E action (dm_sequence m) (onMessage E (published_message F a2) b1) = Some ?payload"
    using assms(1) parse sequence ok by (intro replyFor_message) (simp_all add: assms(2))
  from send_first_reply [OF assms(8) this]
  have "sendCommandAndAwait E ([published_message F a2] # rounds) late action message args restart b =
      (Inr ?payload, onMessage E (published_message F a2) b1)" .
  moreover have "divider_object (be_json E) ?payload = snapshot_object now s"
    using assms(5,6) by (intro attached_divider [OF assms(1)]) (simp_all add: rt(3))
  ultimately show ?thesis using a3 ok divider_is_read_back [OF assms(1,7)] by blast
qed

text \<open>C37: After a restart of the server any snapshot of an agent that kept running answers the next command: commands are numbered from
  one again, and a snapshot that carries the number of a command of the former server is taken for the reply, whatever the agent makes of the new command.\<close>

theorem stale_snapshot_answers_command:
  assumes "json_reads (be_poco E) (be_json E)" and "br_next b = 0" and "submitCommand E action message args b = (Inr (n, True), b1)"
    and "\<not> isDividerAction action" and "dm_payload m \<noteq> []" and "p_parse (be_poco E) (dm_payload m) = Inr payload"
    and "obj_get payload ''commandSequence'' = Some (JInt N)" and "1 \<le> N" and "N < 2 ^ 64"
  shows "fst (sendCommandAndAwait E ([m] # rounds) late action message args restart b) = Inr payload"
proof -
  have "n = 1" using submit_number [OF assms(3)] assms(2) by simp
  then have "replyFor E action n (onMessage E m b1) = Some payload"
    using assms(4-9) by (intro replyFor_message [OF assms(1)]) simp_all
  from send_first_reply [OF assms(3) this] show ?thesis by simp
qed

text \<open>A command never succeeds by itself: when its call returns, then either with the first snapshot among those that arrived before the
  deadline that carries a number as high as the command's - and, for a divider command, its outputs or a refusal - or with a document that says it failed.\<close>

theorem reply_or_failure:
  assumes "sendCommandAndAwait E rounds late action message args restart b = (Inr payload, b')"
  shows "obj_get payload ''ok'' = Some (JBool False) \<or>
    (\<exists>n b1 k. submitCommand E action message args b = (Inr (n, True), b1) \<and> k < length rounds \<and>
       b' = fold (onMessage E) (concat (take (Suc k) rounds)) b1 \<and> replyFor E action n b' = Some payload \<and>
       (\<forall>j < k. replyFor E action n (fold (onMessage E) (concat (take (Suc j) rounds)) b1) = None))"
proof -
  obtain n published b1 where submit: "submitCommand E action message args b = (Inr (n, published), b1)"
    using assms by (auto simp: sendCommandAndAwait_def io_bind_def split: prod.splits sum.splits)
  show ?thesis
  proof (cases published)
    case False
    then show ?thesis using assms submit by (auto simp: sendCommandAndAwait_def io_bind_def br_now_def)
  next
    case True
    obtain r b2 where wait: "awaitReply E action n rounds b1 = (r, b2)" by fastforce
    show ?thesis
    proof (cases r)
      case (Some p)
      then have same: "payload = p" "b' = b2" using assms submit True wait by (simp_all add: sendCommandAndAwait_def io_bind_def)
      obtain k where k: "k < length rounds" "b2 = fold (onMessage E) (concat (take (Suc k) rounds)) b1"
          "replyFor E action n b2 = Some p"
          "\<And>j. j < k \<Longrightarrow> replyFor E action n (fold (onMessage E) (concat (take (Suc j) rounds)) b1) = None"
        using awaitReply_reply [OF wait [unfolded Some]] by blast
      have "submitCommand E action message args b = (Inr (n, True), b1)" using submit True by simp
      then show ?thesis
        using k(1,3,4) k(2) [symmetric] unfolding same by (intro disjI2 exI [of _ n] exI [of _ b1] exI [of _ k]) simp
    next
      case None
      then have "afterTimeout E action restart (fold (onMessage E) late b2) = (Inr payload, b')"
        using assms submit True wait by (simp add: sendCommandAndAwait_def io_bind_def io_seq_def br_modify_def)
      then show ?thesis using timeout_fails by blast
    qed
  qed
qed

text \<open>C21: The bridge shows the snapshot that arrived last, and no more than it may keep: after any sequence of messages, looks and
  resets, a look finds the text of the last message since the last reset, the queue and the list of recent texts hold at most sixty texts each, and the code's
  own count of the queue is exact.\<close>

theorem bridge_shows_newest_snapshot:
  assumes "\<forall>m. Message m \<in> set es \<longrightarrow> dm_payload m \<noteq> []"
  shows "let b = fold (on_bridge_event E) es (newBridge d p); newest = fold newest_spec es [] in
    newest_text (drainPendingSnapshotsLocked b) = newest \<and>
    (\<forall>b' payload. ensureStarted E b = (Inr (), b') \<longrightarrow> cloneFromText (be_poco E) newest = Inr (Some payload) \<longrightarrow>
       fst (latestSnapshot E b) = Inr payload) \<and>
    br_pending b = length (br_queue b) \<and> length (br_queue b) \<le> 60 \<and> length (br_recent b) \<le> 60"
proof -
  let ?b = "fold (on_bridge_event E) es (newBridge d p)" and ?t = "fold newest_spec es []"
  have "shows_newest [] (newBridge d p)" by (simp add: shows_newest_def wf_bridge_def newBridge_def)
  then have shown: "shows_newest ?t ?b" using assms by (rule shows_run)
  then have look: "newest_text (drainPendingSnapshotsLocked ?b) = ?t" by (rule shows_look)
  have "fst (latestSnapshot E ?b) = Inr payload"
    if started: "ensureStarted E ?b = (Inr (), b')" and "cloneFromText (be_poco E) ?t = Inr (Some payload)" for b' payload
  proof -
    have "newest_text (drainPendingSnapshotsLocked b') = newest_text (drainPendingSnapshotsLocked ?b)"
      using ensureStarted_buffers [OF started] by (simp add: newest_text_def drainPendingSnapshotsLocked_def)
    then show ?thesis
      using that look by (simp add: latestSnapshot_def io_seq_def io_bind_def br_modify_def br_read_def)
  qed
  then show ?thesis using shown look by (auto simp: Let_def shows_newest_def wf_bridge_def kSnapshotRetentionLimit_def)
qed

section \<open>Witnesses\<close>

text \<open>A library whose parser knows three texts: a divider snapshot, a command and, for any other text, a snapshot of the agent.\<close>

definition sample_snapshot :: divider_snapshot where
  "sample_snapshot =
     \<lparr>ds_ok = True, ds_message = ''done'', ds_devicePath = ''/dev/i2c-1'', ds_referenceClockHz = 1000000, ds_deviceType = ''CDCE937'',
      ds_address = ''0x6d'', ds_inputClock = ''crystal'', ds_revisionId = 1, ds_eepBusy = False, ds_eepLock = False, ds_powerDown = False,
      ds_outputs = [\<lparr>dos_index = 1, dos_name = ''Y2'', dos_pdivName = ''PDIV2'', dos_pin = 9, dos_divider = 10, dos_frequencyHz = 100000\<rparr>]\<rparr>"

definition sample_command :: json_object where
  "sample_command = [(''action'', JStr ''divider-apply'')]"

definition table_poco :: "json_object \<Rightarrow> poco" where
  "table_poco ob = sample_poco\<lparr>p_stringify := (\<lambda>j. if j = dividerSnapshotToJson ''now'' sample_snapshot then ''d'' else ''s''),
     p_parse := (\<lambda>t. Inr (if t = ''d'' then snapshot_object ''now'' sample_snapshot else if t = ''c'' then sample_command else ob))\<rparr>"

lemma table_reads: "json_reads (table_poco ob) sample_access"
  using sample_access_reads by (simp add: table_poco_def json_reads_def poco_json_def)

lemma table_parse [simp]:
  "p_parse (table_poco ob) ''d'' = Inr (snapshot_object ''now'' sample_snapshot)" "p_parse (table_poco ob) ''c'' = Inr sample_command"
  "p_parse (table_poco ob) ''s'' = Inr ob"
  by (simp_all add: table_poco_def)

lemma sample_fits: "fits_ints sample_snapshot"
  by (simp add: fits_ints_def int32_def sample_snapshot_def)

text \<open>The snapshot of a runtime depends on the library only by what its divider text means.\<close>

lemma table_snapshot: "rt_latestDividerPayloadText r = ''d'' \<Longrightarrow> snapshot_json (table_poco ob) stamp r = snapshot_json (table_poco ob') stamp r"
  by (simp add: snapshot_json_def attachDividerPayload_def)

lemma table_stringify: "p_stringify (table_poco ob) (JObj (snapshot_json P stamp r)) = ''s''"
proof -
  have "obj_get (snapshot_json P stamp r) ''commandSequence'' \<noteq> None" by (simp add: snapshot_members)
  moreover have "obj_get (snapshot_object ''now'' sample_snapshot) ''commandSequence'' = None"
    by (simp add: snapshot_object_def dividerSnapshotToJson_def obj_get_def)
  ultimately have "JObj (snapshot_json P stamp r) \<noteq> dividerSnapshotToJson ''now'' sample_snapshot" by (auto simp: snapshot_object)
  then show ?thesis by (simp add: table_poco_def)
qed

definition divider_runtime :: runtime where
  "divider_runtime = (newRuntime sample_poco (\<lambda>_. Inr ()) sample_settings)\<lparr>rt_latestDividerPayloadText := ''d''\<rparr>"

lemma divider_reply_is_read_back_witness:
  "\<exists>P payload. cloneFromText P (p_stringify P (JObj (snapshot_json P ''now'' divider_runtime))) = Inr (Some payload) \<and>
    dividerSnapshotFromPayload P sample_access payload = Inr sample_snapshot"
proof -
  let ?ob = "snapshot_json (table_poco []) ''now'' divider_runtime"
  let ?P = "table_poco ?ob"
  have d: "rt_latestDividerPayloadText divider_runtime = ''d''" by (simp add: divider_runtime_def)
  have s: "p_stringify ?P (dividerSnapshotToJson ''now'' sample_snapshot) = ''d''" by (simp add: table_poco_def)
  have "cloneFromText ?P (p_stringify ?P (JObj (snapshot_json ?P ''now'' divider_runtime))) =
      Inr (Some (snapshot_json ?P ''now'' divider_runtime))"
    unfolding table_stringify using table_snapshot [OF d, of ?ob "''now''" "[]"] by (simp add: cloneFromText_def)
  from divider_reply_is_read_back [where now = "''now''", OF table_reads sample_fits _ _ _ this] show ?thesis
    using d s by (intro exI [of _ ?P]) simp
qed

definition sample_processes :: "unit process_api" where
  "sample_processes =
     \<lparr>pr_shell = (\<lambda>_ p. (Inr ''12'', p)), pr_exists = (\<lambda>_ p. (Inr True, p)), pr_launch = (\<lambda>_ _ p. (Inr (), p)), pr_parse = (\<lambda>_. Inr 12),
      pr_executable = None, pr_setFileName = (\<lambda>p f. f), pr_parent = (\<lambda>p. p), pr_libPath = (\<lambda>p. p)\<rparr>"

definition sample_bridge_env :: "poco \<Rightarrow> (entities \<times> nat, unit) bridge_env" where
  "sample_bridge_env P =
     \<lparr>be_poco = P, be_json = sample_access, be_dds = sample_dds 99, be_process = sample_processes, be_iso = (\<lambda>_. ''now'')\<rparr>"

definition sample_bridge :: "(entities \<times> nat, unit) bridge" where
  "sample_bridge = newBridge (no_entities, 0) ()"

lemma sample_submits:
  "\<exists>b1. submitCommand (sample_bridge_env (table_poco ob)) action message args sample_bridge = (Inr (1, True), b1)"
proof -
  have "tokens (table_poco ob) ''12'' = [''12'']"
    by (simp add: tokens_def table_poco_def sample_poco_def trim_spaces_def c_isspace_def)
  then show ?thesis
    by (simp add: submitCommand_def io_seq_def io_bind_def io_ret_def ensureStarted_def sample_bridge_def newBridge_def sample_bridge_env_def
        startPublisher_def startSubscriber_def newDdsPublisher_def newDdsSubscriber_def sample_dds_def Let_def no_entities_def
        acquisitionProcessStatusOrThrow_def ensureProcessRunningLocked_def currentAgentPidLocked_def on_processes_def sample_processes_def
        br_now_def br_modify_def br_read_def publishCommand_def publishMessage_def)
qed

text \<open>A message whose payload the parser takes for a snapshot of the agent after its fifth command.\<close>

definition fifth_message :: dds_message where
  "fifth_message = \<lparr>dm_sequence = 0, dm_updatedAt = ''now'', dm_payload = ''s''\<rparr>"

definition fifth_snapshot :: json_object where
  "fifth_snapshot = [(''commandSequence'', JInt 5), (''ok'', JBool True)]"

lemma stale_snapshot_answers_command_witness:
  "fst (sendCommandAndAwait (sample_bridge_env (table_poco fifth_snapshot)) [[fifth_message]] [] ''start'' [] [] True sample_bridge) = Inr fifth_snapshot"
proof -
  let ?E = "sample_bridge_env (table_poco fifth_snapshot)"
  obtain b1 where submit: "submitCommand ?E ''start'' [] [] sample_bridge = (Inr (1, True), b1)" using sample_submits by blast
  have "json_reads (be_poco ?E) (be_json ?E)" using table_reads by (simp add: sample_bridge_env_def)
  moreover have "br_next sample_bridge = 0" by (simp add: sample_bridge_def newBridge_def)
  ultimately show ?thesis
    by (rule stale_snapshot_answers_command [OF _ _ submit, where N = 5])
      (simp_all add: isDividerAction_def fifth_message_def sample_bridge_env_def fifth_snapshot_def obj_get_def)
qed

lemma reply_or_failure_witness:
  "\<exists>b'. sendCommandAndAwait (sample_bridge_env (table_poco fifth_snapshot)) [[fifth_message], []] [] ''start'' [] [] True sample_bridge =
      (Inr fifth_snapshot, b') \<and> replyFor (sample_bridge_env (table_poco fifth_snapshot)) ''start'' 1 b' = Some fifth_snapshot"
proof -
  let ?E = "sample_bridge_env (table_poco fifth_snapshot)"
  obtain b1 where submit: "submitCommand ?E ''start'' [] [] sample_bridge = (Inr (1, True), b1)" using sample_submits by blast
  have reads: "json_reads (be_poco ?E) (be_json ?E)" using table_reads by (simp add: sample_bridge_env_def)
  have "replyFor ?E ''start'' 1 (onMessage ?E fifth_message b1) = Some fifth_snapshot"
    by (rule replyFor_message [OF reads, where N = 5])
      (simp_all add: isDividerAction_def fifth_message_def sample_bridge_env_def fifth_snapshot_def obj_get_def)
  from send_first_reply [OF submit this]
  have sent: "sendCommandAndAwait ?E [[fifth_message], []] [] ''start'' [] [] True sample_bridge =
      (Inr fifth_snapshot, onMessage ?E fifth_message b1)" .
  have "obj_get fifth_snapshot ''ok'' \<noteq> Some (JBool False)" by (simp add: fifth_snapshot_def obj_get_def)
  then show ?thesis using reply_or_failure [OF sent] sent submit by auto
qed

lemma bridge_shows_newest_snapshot_witness:
  "newest_text (drainPendingSnapshotsLocked
      (fold (on_bridge_event (sample_bridge_env (table_poco fifth_snapshot))) [Message fifth_message, Look, Reset, Message fifth_message]
        (newBridge (no_entities, 0) ()))) = ''s''"
  using bridge_shows_newest_snapshot [of "[Message fifth_message, Look, Reset, Message fifth_message]"
      "sample_bridge_env (table_poco fifth_snapshot)" "(no_entities, 0)" "()"]
  by (simp add: Let_def fifth_message_def)

text \<open>The agent last measured the divider for the first command; the second one names no outputs.\<close>

definition measured_agent :: "((u8 \<Rightarrow> u8) \<times> int, u8, entities \<times> nat, unit) agent" where
  "measured_agent = on_rt (\<lambda>r. r\<lparr>rt_latestDividerPayloadText := ''d''\<rparr>) sample_agent"

lemma failed_divider_command_reports_success_witness:
  "\<exists>P a payload b. handleControlMessage (sample_platform\<lparr>pf_poco := P\<rparr>) \<lparr>dm_sequence = 1, dm_updatedAt = [], dm_payload = ''c''\<rparr> measured_agent =
      Some (Inr (), a) \<and>
    fst (sendCommandAndAwait (sample_bridge_env P) [[b]] [] ''divider-apply'' [] [] True sample_bridge) = Inr payload \<and>
    obj_get payload ''ok'' = Some (JBool False) \<and> dividerSnapshotFromPayload P sample_access payload = Inr sample_snapshot \<and> ds_ok sample_snapshot"
proof -
  let ?m = "\<lparr>dm_sequence = 1, dm_updatedAt = [], dm_payload = ''c''\<rparr> :: dds_message"
  let ?e = "InvalidArgumentException ''outputIndices must contain at least one output.''"
  let ?text = "caught_text sample_poco ?e"
  let ?a2 = "on_rt (commandFailed ?m ''divider-apply'' ?text) measured_agent"
  let ?ob = "snapshot_json (table_poco []) ''now'' (ag_rt ?a2)"
  let ?P = "table_poco ?ob" and ?E = "sample_bridge_env (table_poco ?ob)"
  let ?F = "sample_platform\<lparr>pf_poco := ?P\<rparr>"
  have d: "rt_latestDividerPayloadText (ag_rt ?a2) = ''d''"
    by (simp add: on_rt_def measured_agent_def commandFailed_def markCommand_def)
  have decode: "decodeCommand ?F ?m measured_agent = Some (Inr (''divider-apply'', [], sample_command), measured_agent)"
    by (simp add: decodeCommand_def p_ret_def) (simp add: table_poco_def sample_poco_def sample_command_def obj_get_def)
  have "parseOutputIndices ?P sample_command = Inl ?e"
    by (simp add: parseOutputIndices_def table_poco_def sample_poco_def sample_command_def obj_get_def)
  moreover have "\<not> rt_running (ag_rt measured_agent)"
    by (simp add: measured_agent_def on_rt_def sample_agent_def newRuntime_def)
  ultimately have fails: "executeCommand ?F ?m ''divider-apply'' [] sample_command measured_agent = Some (Inl ?e, measured_agent)"
    by (simp add: executeCommand_def dividerApplyCommand_def p_seq_def p_bind_def p_get_def p_lift_def p_ret_def)
  obtain b1 where submit: "submitCommand ?E ''divider-apply'' [] [] sample_bridge = (Inr (1, True), b1)" using sample_submits by blast
  have text': "caught_text (pf_poco ?F) ?e = ?text" by (simp add: table_poco_def)
  have clone: "cloneFromText (pf_poco ?F) (dm_payload (published_message ?F ?a2)) =
      Inr (Some (snapshot_json (pf_poco ?F) (pf_iso ?F (ag_tick ?a2)) (ag_rt ?a2)))"
    using table_snapshot [OF d, of ?ob "''now''" "[]"]
    by (simp add: published_message_def table_stringify cloneFromText_def) (simp add: sample_platform_def)
  have reads: "json_reads (pf_poco ?F) (be_json ?E)" and same: "be_poco ?E = pf_poco ?F"
    using table_reads by (simp_all add: sample_bridge_env_def)
  have attached: "rt_latestDividerPayloadText (ag_rt measured_agent) \<noteq> []"
    "p_parse (pf_poco ?F) (rt_latestDividerPayloadText (ag_rt measured_agent)) = Inr (snapshot_object ''now'' sample_snapshot)"
    by (simp_all add: measured_agent_def on_rt_def)
  have numbered: "submitCommand ?E ''divider-apply'' [] [] sample_bridge = (Inr (dm_sequence ?m, True), b1)" using submit by simp
  have "?a2 = on_rt (commandFailed ?m ''divider-apply'' (caught_text (pf_poco ?F) ?e)) measured_agent" by (simp only: text')
  from failed_divider_command_reports_success [OF reads same decode fails attached sample_fits numbered this clone, of "[]" "[]" True]
  obtain a payload b where shown: "handleControlMessage ?F ?m measured_agent = Some (Inr (), a)"
      "sendCommandAndAwait ?E [[published_message ?F ?a2]] [] ''divider-apply'' [] [] True sample_bridge = (Inr payload, b)"
      "obj_get payload ''ok'' = Some (JBool False)" "dividerSnapshotFromPayload (pf_poco ?F) (be_json ?E) payload = Inr sample_snapshot"
    by blast
  have "fst (sendCommandAndAwait ?E [[published_message ?F ?a2]] [] ''divider-apply'' [] [] True sample_bridge) = Inr payload"
    using shown(2) by simp
  moreover have "dividerSnapshotFromPayload ?P sample_access payload = Inr sample_snapshot" using shown(4) by (simp add: sample_bridge_env_def)
  ultimately show ?thesis using shown(1,3) by (intro exI [of _ ?P] exI conjI) (assumption | simp add: sample_snapshot_def)+
qed

end
