(* ===== verification/WebSession.thy ===== *)
theory WebSession
  imports PocoApi
begin

text \<open>
  The sessions of the web server, as in OSP/Web: WebSession.cpp and WebSessionManager.cpp. Sessions live on a heap, as the shared
  pointers of the cache and of the request handlers alias them. A request is handled at one instant.
\<close>

section \<open>Sessions\<close>

text \<open>\<open>Poco::Any\<close>: the sources store strings; what else other bundles store is opaque.\<close>

datatype any = AnyString string | AnyOther nat

text \<open>Times are in microseconds, the timeout in seconds; \<open>ws_stored\<close> tells whether there is a store behind the session.\<close>

record web_session =
  ws_id :: string
  ws_version :: int
  ws_timeout :: int
  ws_context :: nat
  ws_created :: int
  ws_expiration :: int
  ws_clientAddress :: string
  ws_attrs :: "string \<Rightarrow> any option"
  ws_stored :: bool

definition CSRF_TOKEN :: string where
  "CSRF_TOKEN = ''#csrfToken''"

definition accessImpl :: "int \<Rightarrow> web_session \<Rightarrow> web_session" where
  "accessImpl now s = s\<lparr>ws_expiration := now + 1000000 * ws_timeout s\<rparr>"

definition newWebSession :: "int \<Rightarrow> string \<Rightarrow> string \<Rightarrow> int \<Rightarrow> int \<Rightarrow> string \<Rightarrow> bool \<Rightarrow> nat \<Rightarrow> web_session" where
  "newWebSession now i csrfToken version timeoutSeconds clientAddress stored context' =
     accessImpl now
       \<lparr>ws_id = i, ws_version = version, ws_timeout = timeoutSeconds, ws_context = context', ws_created = now,
        ws_expiration = now, ws_clientAddress = clientAddress, ws_attrs = [CSRF_TOKEN \<mapsto> AnyString csrfToken], ws_stored = stored\<rparr>"

text \<open>What a store hands to the second constructor.\<close>

record stored_session =
  st_id :: string
  st_version :: int
  st_timeout :: int
  st_clientAddress :: string
  st_created :: int
  st_attrs :: "string \<Rightarrow> any option"

definition storedWebSession :: "int \<Rightarrow> nat \<Rightarrow> stored_session \<Rightarrow> web_session" where
  "storedWebSession now context' r =
     accessImpl now
       \<lparr>ws_id = st_id r, ws_version = st_version r, ws_timeout = st_timeout r, ws_context = context', ws_created = st_created r,
        ws_expiration = now, ws_clientAddress = st_clientAddress r, ws_attrs = st_attrs r, ws_stored = True\<rparr>"

definition has :: "string \<Rightarrow> web_session \<Rightarrow> bool" where
  "has key s \<longleftrightarrow> ws_attrs s key \<noteq> None"

definition any_string :: "any \<Rightarrow> exc + string" where
  "any_string v = (case v of AnyString t \<Rightarrow> Inr t | AnyOther _ \<Rightarrow> Inl (PocoException ''Bad cast exception''))"

definition getValue :: "string \<Rightarrow> web_session \<Rightarrow> exc + string" where
  "getValue key s = (case ws_attrs s key of None \<Rightarrow> Inl (NotFoundException key) | Some v \<Rightarrow> any_string v)"

definition getValueOr :: "string \<Rightarrow> string \<Rightarrow> web_session \<Rightarrow> exc + string" where
  "getValueOr key deflt s = (case ws_attrs s key of None \<Rightarrow> Inr deflt | Some v \<Rightarrow> any_string v)"

definition csrfToken :: "web_session \<Rightarrow> exc + string" where
  "csrfToken s = getValue CSRF_TOKEN s"

definition updateVersion :: "int \<Rightarrow> web_session \<Rightarrow> web_session" where
  "updateVersion version s = (if version = ws_version s + 1 then s\<lparr>ws_version := version\<rparr> else s)"

section \<open>The manager\<close>

text \<open>
  \<open>Poco::UniqueExpireCache\<close>: \<open>ca_live\<close> is the object it would return for an identifier at a time. An operation takes the current time,
  as it drops what has expired.
\<close>

record 'k cache_api =
  ca_live :: "int \<Rightarrow> 'k \<Rightarrow> string \<Rightarrow> nat option"
  ca_get :: "int \<Rightarrow> string \<Rightarrow> 'k \<Rightarrow> nat option \<times> 'k"
  ca_add :: "int \<Rightarrow> string \<Rightarrow> nat \<Rightarrow> int \<Rightarrow> 'k \<Rightarrow> 'k"
  ca_remove :: "int \<Rightarrow> string \<Rightarrow> 'k \<Rightarrow> 'k"
  ca_forEach :: "int \<Rightarrow> 'k \<Rightarrow> (string \<times> nat) list \<times> 'k"

text \<open>\<open>WebSessionStore\<close>, an optional service.\<close>

record 'st session_store =
  so_saveSession :: "web_session \<Rightarrow> ('st, unit) io"
  so_loadSession :: "string \<Rightarrow> int \<Rightarrow> ('st, stored_session option \<times> bool) io"
  so_expireSession :: "string \<Rightarrow> int \<Rightarrow> ('st, unit) io"
  so_saveValue :: "string \<Rightarrow> string \<Rightarrow> any \<Rightarrow> ('st, int) io"
  so_removeValue :: "string \<Rightarrow> string \<Rightarrow> ('st, int) io"
  so_clearValues :: "string \<Rightarrow> ('st, int) io"

text \<open>\<open>wv_random n\<close> are the 32 bytes of the n-th read of the random stream, \<open>wv_digest\<close> the hexadecimal digest of the four updates.\<close>

record ('k, 'st) web_env =
  wv_cache :: "'k cache_api"
  wv_store :: "'st session_store"
  wv_random :: "nat \<Rightarrow> string"
  wv_digest :: "u32 \<Rightarrow> int \<Rightarrow> string \<Rightarrow> string \<Rightarrow> string"

datatype cookie_persistence = COOKIE_TRANSIENT | COOKIE_PERSISTENT

datatype same_site = SAME_SITE_NOT_SPECIFIED | SAME_SITE_NONE | SAME_SITE_LAX | SAME_SITE_STRICT

record http_cookie =
  hc_name :: string
  hc_value :: string
  hc_maxAge :: "int option"
  hc_path :: string
  hc_domain :: string
  hc_httpOnly :: bool
  hc_secure :: bool
  hc_sameSite :: same_site

text \<open>A request: the lookups of its cookies, headers and form fields, the addresses at both ends, and when it is handled.\<close>

record web_request =
  rq_now :: int
  rq_method :: string
  rq_host :: string
  rq_clientAddress :: string
  rq_cookie :: "string \<Rightarrow> string option"
  rq_header :: "string \<Rightarrow> string option"
  rq_form :: "exc + (string \<Rightarrow> string option)"
  rq_serverHost :: string
  rq_serverPort :: int
  rq_serverAddress :: string
  rq_serverIPv6 :: bool
  rq_secure :: bool

text \<open>The manager, with the heap of sessions, the state of the store, and the cookies added to the response of the current request.\<close>

record ('k, 'st) web =
  wb_context :: nat
  wb_serial :: u32
  wb_draws :: nat
  wb_cache :: 'k
  wb_heap :: "nat \<Rightarrow> web_session"
  wb_next :: nat
  wb_store :: 'st
  wb_hasStore :: bool
  wb_defaultDomain :: string
  wb_defaultPath :: string
  wb_csrfCookie :: string
  wb_cookiePersistence :: cookie_persistence
  wb_cookieSecure :: bool
  wb_verifyAddress :: bool
  wb_cookieSameSite :: same_site
  wb_cookies :: "http_cookie list"

definition newSessionManager :: "nat \<Rightarrow> 'k \<Rightarrow> 'st \<Rightarrow> (nat \<Rightarrow> web_session) \<Rightarrow> ('k, 'st) web" where
  "newSessionManager context' cache st heap =
     \<lparr>wb_context = context', wb_serial = 0, wb_draws = 0, wb_cache = cache, wb_heap = heap, wb_next = 0, wb_store = st, wb_hasStore = False,
      wb_defaultDomain = [], wb_defaultPath = [], wb_csrfCookie = [], wb_cookiePersistence = COOKIE_PERSISTENT, wb_cookieSecure = False,
      wb_verifyAddress = True, wb_cookieSameSite = SAME_SITE_NOT_SPECIFIED, wb_cookies = []\<rparr>"

section \<open>Session operations\<close>

type_synonym ('k, 'st, 'a) wb = "(('k, 'st) web, 'a) io"

definition wb_modify :: "(('k, 'st) web \<Rightarrow> ('k, 'st) web) \<Rightarrow> ('k, 'st, unit) wb" where
  "wb_modify f w = (Inr (), f w)"

definition wb_read :: "(('k, 'st) web \<Rightarrow> 'a) \<Rightarrow> ('k, 'st, 'a) wb" where
  "wb_read f w = (Inr (f w), w)"

definition on_session :: "nat \<Rightarrow> (web_session \<Rightarrow> web_session) \<Rightarrow> ('k, 'st) web \<Rightarrow> ('k, 'st) web" where
  "on_session c f w = w\<lparr>wb_heap := (wb_heap w)(c := f (wb_heap w c))\<rparr>"

definition on_store :: "('st, 'a) io \<Rightarrow> ('k, 'st, 'a) wb" where
  "on_store m w = (let (r, st) = m (wb_store w) in (r, w\<lparr>wb_store := st\<rparr>))"

text \<open>The store is told when the session has one, and its answer may be the new version.\<close>

definition tellStore :: "nat \<Rightarrow> (string \<Rightarrow> ('st, int) io) \<Rightarrow> ('k, 'st, unit) wb" where
  "tellStore c call w =
     (if ws_stored (wb_heap w c)
      then io_bind (on_store (call (ws_id (wb_heap w c)))) (\<lambda>version. wb_modify (on_session c (updateVersion version))) w
      else (Inr (), w))"

definition sessionSet :: "('k, 'st) web_env \<Rightarrow> nat \<Rightarrow> string \<Rightarrow> any \<Rightarrow> ('k, 'st, unit) wb" where
  "sessionSet E c key v =
     io_seq (wb_modify (on_session c (\<lambda>s. s\<lparr>ws_attrs := (ws_attrs s)(key \<mapsto> v)\<rparr>)))
       (tellStore c (\<lambda>i. so_saveValue (wv_store E) i key v))"

definition sessionErase :: "('k, 'st) web_env \<Rightarrow> nat \<Rightarrow> string \<Rightarrow> ('k, 'st, unit) wb" where
  "sessionErase E c key =
     io_seq (wb_modify (on_session c (\<lambda>s. s\<lparr>ws_attrs := (ws_attrs s)(key := None)\<rparr>)))
       (tellStore c (\<lambda>i. so_removeValue (wv_store E) i key))"

definition clearImpl :: "('k, 'st) web_env \<Rightarrow> nat \<Rightarrow> ('k, 'st, unit) wb" where
  "clearImpl E c =
     io_seq (wb_modify (on_session c (\<lambda>s. s\<lparr>ws_attrs := (\<lambda>_. None)\<rparr>))) (tellStore c (so_clearValues (wv_store E)))"

definition sessionClear :: "('k, 'st) web_env \<Rightarrow> nat \<Rightarrow> ('k, 'st, unit) wb" where
  "sessionClear E c =
     io_bind (wb_read (\<lambda>w. ws_attrs (wb_heap w c) CSRF_TOKEN)) (\<lambda>token.
       io_seq (clearImpl E c)
         (case token of
            None \<Rightarrow> io_ret ()
          | Some t \<Rightarrow> wb_modify (on_session c (\<lambda>s. s\<lparr>ws_attrs := (ws_attrs s)(CSRF_TOKEN \<mapsto> t)\<rparr>))))"

definition access :: "('k, 'st) web_env \<Rightarrow> int \<Rightarrow> nat \<Rightarrow> ('k, 'st, unit) wb" where
  "access E now c =
     io_seq (wb_modify (on_session c (accessImpl now)))
       (\<lambda>w. if ws_stored (wb_heap w c)
            then on_store (so_expireSession (wv_store E) (ws_id (wb_heap w c)) (ws_timeout (wb_heap w c))) w
            else (Inr (), w))"

definition onBundleStopping :: "('k, 'st) web_env \<Rightarrow> nat \<Rightarrow> nat \<Rightarrow> ('k, 'st, unit) wb" where
  "onBundleStopping E b c w = (if ws_context (wb_heap w c) = b then clearImpl E c w else (Inr (), w))"

section \<open>Cookies\<close>

definition COOKIE_NAME :: string where
  "COOKIE_NAME = ''osp.web.session''"

definition cookieName :: "string \<Rightarrow> string" where
  "cookieName appName =
     (if appName = [] then COOKIE_NAME
      else COOKIE_NAME @ ''.'' @
        take (case find_char (CHR ''@'') appName of
                Some pos \<Rightarrow> pos
              | None \<Rightarrow> (case find_char (CHR ''/'') appName of Some pos \<Rightarrow> pos | None \<Rightarrow> length appName)) appName)"

definition cookieDomain :: "('k, 'st) web \<Rightarrow> string \<Rightarrow> string" where
  "cookieDomain w appName =
     (let result = (case find_char (CHR ''@'') appName of
                      None \<Rightarrow> []
                    | Some pos \<Rightarrow> takeWhile (\<lambda>c. c \<noteq> CHR ''/'') (drop (pos + 1) appName))
      in if result = [] then wb_defaultDomain w else result)"

definition cookiePath :: "('k, 'st) web \<Rightarrow> string \<Rightarrow> string" where
  "cookiePath w appName =
     (let result = (case find_char (CHR ''/'') appName of None \<Rightarrow> ''/'' | Some pos \<Rightarrow> drop pos appName)
      in if result = [] then wb_defaultPath w else result)"

definition addCookie :: "http_cookie \<Rightarrow> ('k, 'st) web \<Rightarrow> ('k, 'st) web" where
  "addCookie k w = w\<lparr>wb_cookies := wb_cookies w @ [k]\<rparr>"

definition cookie_age :: "('k, 'st) web \<Rightarrow> web_session \<Rightarrow> int option" where
  "cookie_age w s = (if wb_cookiePersistence w = COOKIE_PERSISTENT then Some (ws_timeout s) else None)"

definition addSessionCookie :: "string \<Rightarrow> nat \<Rightarrow> ('k, 'st, unit) wb" where
  "addSessionCookie appName c w =
     (Inr (), addCookie
       \<lparr>hc_name = cookieName appName, hc_value = ws_id (wb_heap w c), hc_maxAge = cookie_age w (wb_heap w c),
        hc_path = cookiePath w appName, hc_domain = cookieDomain w appName, hc_httpOnly = True,
        hc_secure = wb_cookieSecure w, hc_sameSite = wb_cookieSameSite w\<rparr> w)"

definition addCSRFCookie :: "string \<Rightarrow> nat \<Rightarrow> ('k, 'st, unit) wb" where
  "addCSRFCookie appName c w =
     (if wb_csrfCookie w = [] then (Inr (), w)
      else case csrfToken (wb_heap w c) of
        Inl e \<Rightarrow> (Inl e, w)
      | Inr token \<Rightarrow>
          (Inr (), addCookie
            \<lparr>hc_name = wb_csrfCookie w, hc_value = token, hc_maxAge = cookie_age w (wb_heap w c),
             hc_path = cookiePath w appName, hc_domain = [], hc_httpOnly = False,
             hc_secure = wb_cookieSecure w, hc_sameSite = SAME_SITE_STRICT\<rparr> w))"

section \<open>Finding, creating and removing sessions\<close>

definition getId :: "string \<Rightarrow> web_request \<Rightarrow> string" where
  "getId appName rq = (case rq_cookie rq (cookieName appName) of None \<Rightarrow> [] | Some i \<Rightarrow> i)"

definition createToken :: "('k, 'st) web_env \<Rightarrow> web_request \<Rightarrow> ('k, 'st, string) wb" where
  "createToken E rq w =
     (let serial = wb_serial w + 1 in
      (Inr (wv_digest E serial (rq_now rq) (wv_random E (wb_draws w)) (rq_clientAddress rq)),
       w\<lparr>wb_serial := serial, wb_draws := Suc (wb_draws w)\<rparr>))"

definition newSessionObject :: "web_session \<Rightarrow> ('k, 'st, nat) wb" where
  "newSessionObject s w = (Inr (wb_next w), w\<lparr>wb_heap := (wb_heap w)(wb_next w := s), wb_next := Suc (wb_next w)\<rparr>)"

definition cacheGet :: "('k, 'st) web_env \<Rightarrow> int \<Rightarrow> string \<Rightarrow> ('k, 'st, nat option) wb" where
  "cacheGet E now i w = (let (r, k) = ca_get (wv_cache E) now i (wb_cache w) in (Inr r, w\<lparr>wb_cache := k\<rparr>))"

definition cacheAdd :: "('k, 'st) web_env \<Rightarrow> int \<Rightarrow> nat \<Rightarrow> ('k, 'st, unit) wb" where
  "cacheAdd E now c w =
     (Inr (), w\<lparr>wb_cache := ca_add (wv_cache E) now (ws_id (wb_heap w c)) c (ws_expiration (wb_heap w c)) (wb_cache w)\<rparr>)"

definition loadStored :: "('k, 'st) web_env \<Rightarrow> int \<Rightarrow> nat \<Rightarrow> string \<Rightarrow> int \<Rightarrow> ('k, 'st, nat option \<times> bool) wb" where
  "loadStored E now ctx i version =
     io_bind (on_store (so_loadSession (wv_store E) i version)) (\<lambda>(r, found).
       case r of
         None \<Rightarrow> io_ret (None, found)
       | Some s \<Rightarrow> io_bind (newSessionObject (storedWebSession now ctx s)) (\<lambda>c. io_ret (Some c, found)))"

definition findByIdImpl :: "('k, 'st) web_env \<Rightarrow> int \<Rightarrow> string \<Rightarrow> nat \<Rightarrow> ('k, 'st, nat option) wb" where
  "findByIdImpl E now i ctx =
     io_bind (cacheGet E now i) (\<lambda>p.
     io_bind (wb_read wb_hasStore) (\<lambda>hasStore.
       if \<not> hasStore then io_ret p
       else case p of
         Some c \<Rightarrow>
           io_bind (wb_read (\<lambda>w. ws_version (wb_heap w c))) (\<lambda>version.
           io_bind (loadStored E now ctx i version) (\<lambda>(r, found).
             io_ret (if r \<noteq> None \<and> found then r else if \<not> found then None else Some c)))
       | None \<Rightarrow>
           io_bind (loadStored E now ctx i 0) (\<lambda>(r, found). io_ret (if found then r else None))))"

definition removeById :: "('k, 'st) web_env \<Rightarrow> int \<Rightarrow> string \<Rightarrow> ('k, 'st, unit) wb" where
  "removeById E now i =
     io_seq (wb_modify (\<lambda>w. w\<lparr>wb_cache := ca_remove (wv_cache E) now i (wb_cache w)\<rparr>))
       (\<lambda>w. if wb_hasStore w then on_store (so_expireSession (wv_store E) i 0) w else (Inr (), w))"

definition removeImpl :: "('k, 'st) web_env \<Rightarrow> int \<Rightarrow> nat \<Rightarrow> ('k, 'st, unit) wb" where
  "removeImpl E now c w = removeById E now (ws_id (wb_heap w c)) w"

definition addressAccepted :: "web_request \<Rightarrow> nat \<Rightarrow> ('k, 'st) web \<Rightarrow> bool" where
  "addressAccepted rq c w \<longleftrightarrow> \<not> wb_verifyAddress w \<or> ws_clientAddress (wb_heap w c) = rq_host rq"

definition findImpl :: "('k, 'st) web_env \<Rightarrow> string \<Rightarrow> web_request \<Rightarrow> nat \<Rightarrow> ('k, 'st, nat option) wb" where
  "findImpl E appName rq ctx =
     (let sessionId = getId appName rq; now = rq_now rq in
      io_bind (if sessionId \<noteq> [] then findByIdImpl E now sessionId ctx else io_ret None) (\<lambda>p.
        case p of
          None \<Rightarrow> io_ret None
        | Some c \<Rightarrow>
            io_bind (wb_read (addressAccepted rq c)) (\<lambda>accepted.
              if accepted
              then io_seq (access E now c)
                  (io_seq (cacheAdd E now c)
                  (io_seq (addSessionCookie appName c)
                  (io_seq (addCSRFCookie appName c)
                    (io_ret (Some c)))))
              else io_seq (removeImpl E now c) (io_ret None))))"

definition createImpl :: "('k, 'st) web_env \<Rightarrow> string \<Rightarrow> web_request \<Rightarrow> int \<Rightarrow> nat \<Rightarrow> ('k, 'st, nat) wb" where
  "createImpl E appName rq expireSeconds ctx =
     io_bind (createToken E rq) (\<lambda>i.
     io_bind (createToken E rq) (\<lambda>csrf.
     io_bind (wb_read wb_hasStore) (\<lambda>hasStore.
     io_bind (newSessionObject (newWebSession (rq_now rq) i csrf 1 expireSeconds (rq_host rq) hasStore ctx)) (\<lambda>c.
     io_seq (cacheAdd E (rq_now rq) c)
    (io_seq (addSessionCookie appName c)
    (io_seq (addCSRFCookie appName c)
    (io_seq (\<lambda>w. if hasStore then on_store (so_saveSession (wv_store E) (wb_heap w c)) w else (Inr (), w))
      (io_ret c))))))))"

definition sessionFindById :: "('k, 'st) web_env \<Rightarrow> int \<Rightarrow> string \<Rightarrow> ('k, 'st, nat option) wb" where
  "sessionFindById E now i w = findByIdImpl E now i (wb_context w) w"

definition sessionFind :: "('k, 'st) web_env \<Rightarrow> string \<Rightarrow> web_request \<Rightarrow> ('k, 'st, nat option) wb" where
  "sessionFind E appName rq w = findImpl E appName rq (wb_context w) w"

definition sessionGet :: "('k, 'st) web_env \<Rightarrow> string \<Rightarrow> web_request \<Rightarrow> int \<Rightarrow> nat \<Rightarrow> ('k, 'st, nat) wb" where
  "sessionGet E appName rq expireSeconds ctx =
     io_bind (findImpl E appName rq ctx) (\<lambda>p.
       case p of None \<Rightarrow> createImpl E appName rq expireSeconds ctx | Some c \<Rightarrow> io_ret c)"

definition sessionCreate :: "('k, 'st) web_env \<Rightarrow> string \<Rightarrow> web_request \<Rightarrow> int \<Rightarrow> nat \<Rightarrow> ('k, 'st, nat) wb" where
  "sessionCreate E appName rq expireSeconds ctx = createImpl E appName rq expireSeconds ctx"

definition sessionRemove :: "('k, 'st) web_env \<Rightarrow> int \<Rightarrow> nat \<Rightarrow> ('k, 'st, unit) wb" where
  "sessionRemove E now c = removeImpl E now c"

definition sessions_of :: "('k, 'st) web \<Rightarrow> string \<Rightarrow> (string \<times> nat) list \<Rightarrow> string list" where
  "sessions_of w username entries =
     map fst (filter (\<lambda>(i, c). ws_attrs (wb_heap w c) ''username'' = Some (AnyString username)) entries)"

definition removeForUser :: "('k, 'st) web_env \<Rightarrow> int \<Rightarrow> string \<Rightarrow> ('k, 'st, unit) wb" where
  "removeForUser E now username w =
     (let (entries, k) = ca_forEach (wv_cache E) now (wb_cache w)
      in io_each (removeById E now) (sessions_of w username entries) (w\<lparr>wb_cache := k\<rparr>))"

text \<open>A bundle is about to stop: each session in the cache hears of it.\<close>

definition bundleStopping :: "('k, 'st) web_env \<Rightarrow> int \<Rightarrow> nat \<Rightarrow> ('k, 'st, unit) wb" where
  "bundleStopping E now b w =
     (let (entries, k) = ca_forEach (wv_cache E) now (wb_cache w)
      in io_each (\<lambda>(i, c). onBundleStopping E b c) entries (w\<lparr>wb_cache := k\<rparr>))"

section \<open>Settings\<close>

definition setDefaultDomain :: "string \<Rightarrow> ('k, 'st) web \<Rightarrow> ('k, 'st) web" where
  "setDefaultDomain domain w = w\<lparr>wb_defaultDomain := domain\<rparr>"

definition setDefaultPath :: "string \<Rightarrow> ('k, 'st) web \<Rightarrow> ('k, 'st) web" where
  "setDefaultPath path w = w\<lparr>wb_defaultPath := path\<rparr>"

definition setCookiePersistence :: "cookie_persistence \<Rightarrow> ('k, 'st) web \<Rightarrow> ('k, 'st) web" where
  "setCookiePersistence persistence w = w\<lparr>wb_cookiePersistence := persistence\<rparr>"

definition setCookieSameSite :: "same_site \<Rightarrow> ('k, 'st) web \<Rightarrow> ('k, 'st) web" where
  "setCookieSameSite sameSite w = w\<lparr>wb_cookieSameSite := sameSite\<rparr>"

definition setCookieSecure :: "bool \<Rightarrow> ('k, 'st) web \<Rightarrow> ('k, 'st) web" where
  "setCookieSecure secure w = w\<lparr>wb_cookieSecure := secure\<rparr>"

definition setVerifyAddress :: "bool \<Rightarrow> ('k, 'st) web \<Rightarrow> ('k, 'st) web" where
  "setVerifyAddress verify w = w\<lparr>wb_verifyAddress := verify\<rparr>"

definition setCSRFCookie :: "string \<Rightarrow> ('k, 'st) web \<Rightarrow> ('k, 'st) web" where
  "setCSRFCookie name w = w\<lparr>wb_csrfCookie := name\<rparr>"

definition setSessionStore :: "'st option \<Rightarrow> ('k, 'st) web \<Rightarrow> ('k, 'st) web" where
  "setSessionStore store w = (case store of None \<Rightarrow> w\<lparr>wb_hasStore := False\<rparr> | Some st \<Rightarrow> w\<lparr>wb_hasStore := True, wb_store := st\<rparr>)"

section \<open>What the cache promises\<close>

text \<open>
  An entry is returned until it expires; an operation does not change what is live later on, apart from the entry it is about; and
  what has expired does not come back.
\<close>

definition cache_laws :: "'k cache_api \<Rightarrow> bool" where
  "cache_laws C \<longleftrightarrow>
     (\<forall>now i k. fst (ca_get C now i k) = ca_live C now k i) \<and>
     (\<forall>now now' i j k. now \<le> now' \<longrightarrow> ca_live C now' (snd (ca_get C now i k)) j = ca_live C now' k j) \<and>
     (\<forall>now now' i c t j k. now \<le> now' \<longrightarrow>
        ca_live C now' (ca_add C now i c t k) j = (if j = i then (if now' < t then Some c else None) else ca_live C now' k j)) \<and>
     (\<forall>now now' i j k. now \<le> now' \<longrightarrow> ca_live C now' (ca_remove C now i k) j = (if j = i then None else ca_live C now' k j)) \<and>
     (\<forall>now i c k. (i, c) \<in> set (fst (ca_forEach C now k)) \<longleftrightarrow> ca_live C now k i = Some c) \<and>
     (\<forall>now now' j k. now \<le> now' \<longrightarrow> ca_live C now' (snd (ca_forEach C now k)) j = ca_live C now' k j) \<and>
     (\<forall>now now' j c k. now \<le> now' \<longrightarrow> ca_live C now' k j = Some c \<longrightarrow> ca_live C now k j = Some c)"

lemma cache_lawsD:
  assumes "cache_laws C"
  shows "fst (ca_get C now i k) = ca_live C now k i"
    and "now \<le> now' \<Longrightarrow> ca_live C now' (snd (ca_get C now i k)) j = ca_live C now' k j"
    and "now \<le> now' \<Longrightarrow> ca_live C now' (ca_add C now i c t k) j = (if j = i then (if now' < t then Some c else None) else ca_live C now' k j)"
    and "now \<le> now' \<Longrightarrow> ca_live C now' (ca_remove C now i k) j = (if j = i then None else ca_live C now' k j)"
    and "(i, c) \<in> set (fst (ca_forEach C now k)) \<longleftrightarrow> ca_live C now k i = Some c"
    and "now \<le> now' \<Longrightarrow> ca_live C now' (snd (ca_forEach C now k)) j = ca_live C now' k j"
    and "now \<le> now' \<Longrightarrow> ca_live C now' k j = Some c \<Longrightarrow> ca_live C now k j = Some c"
  using assms unfolding cache_laws_def by - (elim conjE, simp)+

text \<open>A list of entries with their times of expiry.\<close>

definition sample_cache :: "(string \<times> nat \<times> int) list cache_api" where
  "sample_cache =
     \<lparr>ca_live = (\<lambda>now k i. case map_of k i of Some (c, t) \<Rightarrow> (if now < t then Some c else None) | None \<Rightarrow> None),
      ca_get = (\<lambda>now i k. (case map_of k i of Some (c, t) \<Rightarrow> (if now < t then Some c else None) | None \<Rightarrow> None, k)),
      ca_add = (\<lambda>now i c t k. (i, c, t) # filter (\<lambda>e. fst e \<noteq> i) k),
      ca_remove = (\<lambda>now i k. filter (\<lambda>e. fst e \<noteq> i) k),
      ca_forEach = (\<lambda>now k. (map (\<lambda>(i, c, t). (i, c)) (filter (\<lambda>(i, c, t). now < t \<and> map_of k i = Some (c, t)) k), k))\<rparr>"

lemma map_of_filter_key: "map_of (filter (\<lambda>e. fst e \<noteq> i) k) j = (if j = i then None else map_of k j)"
  by (induction k) auto

lemma sample_cache_laws: "cache_laws sample_cache"
  unfolding cache_laws_def sample_cache_def
  by (intro conjI allI impI) (auto simp: map_of_filter_key image_iff Bex_def split: option.splits if_splits dest: map_of_SomeD)

section \<open>Sessions without a store\<close>

text \<open>No store is part of the repository; without one, the sessions live in memory only.\<close>

definition memory_only :: "('k, 'st) web \<Rightarrow> bool" where
  "memory_only w \<longleftrightarrow> \<not> wb_hasStore w \<and> (\<forall>c. \<not> ws_stored (wb_heap w c))"

lemma web_run [simp]:
  "wb_modify f w = (Inr (), f w)" "wb_read g w = (Inr (g w), w)"
  by (simp_all add: wb_modify_def wb_read_def)

lemma accessImpl_fields [simp]:
  "ws_id (accessImpl now s) = ws_id s" "ws_attrs (accessImpl now s) = ws_attrs s" "ws_stored (accessImpl now s) = ws_stored s"
  "ws_clientAddress (accessImpl now s) = ws_clientAddress s" "ws_timeout (accessImpl now s) = ws_timeout s"
  "ws_context (accessImpl now s) = ws_context s" "ws_expiration (accessImpl now s) = now + 1000000 * ws_timeout s"
  by (simp_all add: accessImpl_def)

lemma tellStore_memory: "memory_only w \<Longrightarrow> tellStore c call w = (Inr (), w)"
  by (simp add: tellStore_def memory_only_def)

lemma memory_only_session [simp]:
  "(\<And>s. ws_stored (f s) = ws_stored s) \<Longrightarrow> memory_only (on_session c f w) = memory_only w"
  by (auto simp: memory_only_def on_session_def)

lemma set_memory:
  assumes "memory_only w"
  shows "sessionSet E c key v w = (Inr (), on_session c (\<lambda>s. s\<lparr>ws_attrs := (ws_attrs s)(key \<mapsto> v)\<rparr>) w)"
    and "sessionErase E c key w = (Inr (), on_session c (\<lambda>s. s\<lparr>ws_attrs := (ws_attrs s)(key := None)\<rparr>) w)"
    and "clearImpl E c w = (Inr (), on_session c (\<lambda>s. s\<lparr>ws_attrs := (\<lambda>_. None)\<rparr>) w)"
    and "access E now c w = (Inr (), on_session c (accessImpl now) w)"
  using assms by (simp_all add: sessionSet_def sessionErase_def clearImpl_def access_def io_seq_def io_bind_def tellStore_memory)
    (simp add: memory_only_def on_session_def)

text \<open>The session \<open>c\<close> is touched, put back into the cache and cookie_announced in a cookie.\<close>

definition touched :: "('k, 'st) web_env \<Rightarrow> string \<Rightarrow> int \<Rightarrow> nat \<Rightarrow> ('k, 'st) web \<Rightarrow> ('k, 'st) web" where
  "touched E appName now c w = snd (addSessionCookie appName c (snd (cacheAdd E now c (on_session c (accessImpl now) w))))"

definition got :: "('k, 'st) web_env \<Rightarrow> int \<Rightarrow> string \<Rightarrow> ('k, 'st) web \<Rightarrow> ('k, 'st) web" where
  "got E now i w = w\<lparr>wb_cache := snd (ca_get (wv_cache E) now i (wb_cache w))\<rparr>"

definition dropped :: "('k, 'st) web_env \<Rightarrow> int \<Rightarrow> string \<Rightarrow> ('k, 'st) web \<Rightarrow> ('k, 'st) web" where
  "dropped E now i w = w\<lparr>wb_cache := ca_remove (wv_cache E) now i (wb_cache w)\<rparr>"

lemma find_memory:
  assumes "memory_only w"
  shows "findImpl E appName rq ctx w =
    (if getId appName rq = [] then (Inr None, w)
     else let w1 = got E (rq_now rq) (getId appName rq) w in
       case fst (ca_get (wv_cache E) (rq_now rq) (getId appName rq) (wb_cache w)) of
         None \<Rightarrow> (Inr None, w1)
       | Some c \<Rightarrow>
           if addressAccepted rq c w
           then io_seq (addCSRFCookie appName c) (io_ret (Some c)) (touched E appName (rq_now rq) c w1)
           else (Inr None, dropped E (rq_now rq) (ws_id (wb_heap w c)) w1))"
proof (cases "getId appName rq = []")
  case False
  let ?i = "getId appName rq" and ?now = "rq_now rq"
  have mem: "memory_only (got E ?now ?i w)" using assms by (simp add: memory_only_def got_def)
  have get: "cacheGet E ?now ?i w = (Inr (fst (ca_get (wv_cache E) ?now ?i (wb_cache w))), got E ?now ?i w)"
    by (simp add: cacheGet_def got_def case_prod_beta Let_def)
  have by_id: "findByIdImpl E ?now ?i ctx w = (Inr (fst (ca_get (wv_cache E) ?now ?i (wb_cache w))), got E ?now ?i w)"
    using mem by (simp add: findByIdImpl_def io_bind_def get memory_only_def)
  show ?thesis
  proof (cases "fst (ca_get (wv_cache E) ?now ?i (wb_cache w))")
    case None
    then show ?thesis using False by (simp add: findImpl_def Let_def io_bind_def by_id)
  next
    case (Some c)
    have accepted: "addressAccepted rq c (got E ?now ?i w) = addressAccepted rq c w" by (simp add: addressAccepted_def got_def)
    show ?thesis
    proof (cases "addressAccepted rq c w")
      case True
      then show ?thesis
        using False Some mem
        by (simp add: findImpl_def Let_def io_bind_def io_seq_def by_id accepted set_memory touched_def addSessionCookie_def cacheAdd_def)
    next
      case refused: False
      have "removeImpl E ?now c (got E ?now ?i w) = (Inr (), dropped E ?now (ws_id (wb_heap w c)) (got E ?now ?i w))"
        using mem by (simp add: removeImpl_def removeById_def io_seq_def io_bind_def dropped_def memory_only_def got_def)
      then show ?thesis using False Some refused by (simp add: findImpl_def Let_def io_bind_def io_seq_def by_id accepted)
    qed
  qed
qed (simp add: findImpl_def Let_def io_bind_def)

section \<open>What an operation leaves alone\<close>

definition live :: "('k, 'st) web_env \<Rightarrow> int \<Rightarrow> ('k, 'st) web \<Rightarrow> string \<Rightarrow> nat option" where
  "live E now w i = ca_live (wv_cache E) now (wb_cache w) i"

text \<open>From the time \<open>t\<close> on, what the cache returns for an identifier is an existing session of that identifier.\<close>

definition sessions_sound :: "('k, 'st) web_env \<Rightarrow> int \<Rightarrow> ('k, 'st) web \<Rightarrow> bool" where
  "sessions_sound E t w \<longleftrightarrow> memory_only w \<and>
     (\<forall>now i c. t \<le> now \<longrightarrow> live E now w i = Some c \<longrightarrow> c < wb_next w \<and> ws_id (wb_heap w c) = i)"

text \<open>Every session has the attributes and the client it had, or is new and anonymous; the settings are the same.\<close>

definition frame :: "('k, 'st) web \<Rightarrow> ('k, 'st) web \<Rightarrow> bool" where
  "frame w w' \<longleftrightarrow>
     wb_verifyAddress w' = wb_verifyAddress w \<and> wb_csrfCookie w' = wb_csrfCookie w \<and> wb_context w' = wb_context w \<and>
     (\<forall>c. ws_attrs (wb_heap w' c) ''username'' = None \<or>
        ws_attrs (wb_heap w' c) = ws_attrs (wb_heap w c) \<and> ws_clientAddress (wb_heap w' c) = ws_clientAddress (wb_heap w c))"

lemma frame_refl [simp]: "frame w w"
  by (simp add: frame_def)

lemma frame_trans: "frame w w' \<Longrightarrow> frame w' w'' \<Longrightarrow> frame w w''"
  unfolding frame_def by metis

definition cookie_announced :: "string \<Rightarrow> nat \<Rightarrow> ('k, 'st) web \<Rightarrow> bool" where
  "cookie_announced appName c w \<longleftrightarrow> (\<exists>k \<in> set (wb_cookies w). hc_name k = cookieName appName \<and> hc_value k = ws_id (wb_heap w c))"

text \<open>The result of putting a session into the cache until its expiration.\<close>

definition kept_live :: "('k, 'st) web_env \<Rightarrow> int \<Rightarrow> nat \<Rightarrow> ('k, 'st) web \<Rightarrow> ('k, 'st) web \<Rightarrow> bool" where
  "kept_live E now c w w' \<longleftrightarrow>
     (\<forall>now' j. now \<le> now' \<longrightarrow> live E now' w' j =
        (if j = ws_id (wb_heap w' c) then (if now' < ws_expiration (wb_heap w' c) then Some c else None) else live E now' w j))"

definition announcing :: "string \<Rightarrow> nat \<Rightarrow> ('k, 'st) web \<Rightarrow> ('k, 'st) web" where
  "announcing appName c w = snd (addCSRFCookie appName c (snd (addSessionCookie appName c w)))"

lemma announcing_same [simp]:
  "wb_cache (announcing appName c w) = wb_cache w" "wb_heap (announcing appName c w) = wb_heap w"
  "wb_next (announcing appName c w) = wb_next w" "wb_hasStore (announcing appName c w) = wb_hasStore w"
  "wb_verifyAddress (announcing appName c w) = wb_verifyAddress w" "wb_csrfCookie (announcing appName c w) = wb_csrfCookie w"
  "wb_context (announcing appName c w) = wb_context w" "wb_store (announcing appName c w) = wb_store w"
  by (simp_all add: announcing_def addCSRFCookie_def addSessionCookie_def addCookie_def split: sum.split)

lemma announcing_announces: "cookie_announced appName c (announcing appName c w)"
  by (simp add: cookie_announced_def announcing_def addCSRFCookie_def addSessionCookie_def addCookie_def split: sum.split)

text \<open>Touching the session \<open>c\<close> as \<open>findImpl\<close> does.\<close>

definition renewed :: "('k, 'st) web_env \<Rightarrow> int \<Rightarrow> nat \<Rightarrow> ('k, 'st) web \<Rightarrow> ('k, 'st) web" where
  "renewed E now c w = snd (cacheAdd E now c (on_session c (accessImpl now) w))"

lemma find_found:
  assumes "memory_only w" and "getId appName rq \<noteq> []" and "addressAccepted rq c w"
    and "fst (ca_get (wv_cache E) (rq_now rq) (getId appName rq) (wb_cache w)) = Some c"
  shows "findImpl E appName rq ctx w =
     (case fst (addCSRFCookie appName c (renewed E (rq_now rq) c w)) of Inl e \<Rightarrow> Inl e | Inr _ \<Rightarrow> Inr (Some c),
      announcing appName c (renewed E (rq_now rq) c (got E (rq_now rq) (getId appName rq) w)))"
  using assms
  by (simp add: find_memory Let_def touched_def renewed_def announcing_def io_seq_def io_bind_def addSessionCookie_def addCookie_def
      addCSRFCookie_def cacheAdd_def on_session_def got_def csrfToken_def getValue_def split: sum.splits option.splits)

lemma sound_kept:
  assumes "sessions_sound E t w" and "t \<le> now" and "memory_only w'" and "kept_live E now c w w'" and "c < wb_next w'"
    and "wb_next w \<le> wb_next w'" and "\<And>d. d < wb_next w \<Longrightarrow> ws_id (wb_heap w' d) = ws_id (wb_heap w d)"
  shows "sessions_sound E now w'"
  unfolding sessions_sound_def
proof (intro conjI allI impI)
  fix now' j d assume "now \<le> now'" and at: "live E now' w' j = Some d"
  have "live E now' w' j = (if j = ws_id (wb_heap w' c) then (if now' < ws_expiration (wb_heap w' c) then Some c else None) else live E now' w j)"
    using assms(4) \<open>now \<le> now'\<close> unfolding kept_live_def by blast
  then have "(d = c \<and> j = ws_id (wb_heap w' c)) \<or> live E now' w j = Some d" using at by (simp split: if_splits)
  moreover have "d < wb_next w \<and> ws_id (wb_heap w d) = j" if "live E now' w j = Some d"
    using assms(1,2) that \<open>now \<le> now'\<close> unfolding sessions_sound_def by (meson order_trans)
  ultimately show "d < wb_next w'" "ws_id (wb_heap w' d) = j" using assms(5-7) by auto
qed (rule assms(3))

lemma renewed_facts:
  assumes "cache_laws (wv_cache E)" and "sessions_sound E t w" and "t \<le> now" and "live E now w i = Some c"
  shows "sessions_sound E now (renewed E now c (got E now i w))" and "frame w (renewed E now c (got E now i w))"
    and "kept_live E now c w (renewed E now c (got E now i w))"
    and "wb_heap (renewed E now c (got E now i w)) = (wb_heap w)(c := accessImpl now (wb_heap w c))"
    and "wb_next (renewed E now c (got E now i w)) = wb_next w"
proof -
  have c: "c < wb_next w" "ws_id (wb_heap w c) = i" using assms unfolding sessions_sound_def by auto
  show "frame w (renewed E now c (got E now i w))"
    by (simp add: frame_def renewed_def cacheAdd_def on_session_def got_def)
  show heap: "wb_heap (renewed E now c (got E now i w)) = (wb_heap w)(c := accessImpl now (wb_heap w c))"
    and next': "wb_next (renewed E now c (got E now i w)) = wb_next w"
    by (simp_all add: renewed_def cacheAdd_def on_session_def got_def)
  show kept: "kept_live E now c w (renewed E now c (got E now i w))"
    by (simp add: kept_live_def live_def renewed_def cacheAdd_def on_session_def got_def cache_lawsD(2,3) [OF assms(1)])
  have "memory_only (renewed E now c (got E now i w))"
    using assms(2) by (simp add: sessions_sound_def memory_only_def renewed_def cacheAdd_def on_session_def got_def)
  then show "sessions_sound E now (renewed E now c (got E now i w))"
    by (rule sound_kept [OF assms(2,3) _ kept]) (simp_all add: heap next' c)
qed

lemma announcing_keeps [simp]:
  "sessions_sound E t (announcing appName c w) = sessions_sound E t w" "frame v (announcing appName c w) = frame v w"
  "kept_live E now d v (announcing appName c w) = kept_live E now d v w" "live E now (announcing appName c w) i = live E now w i"
  by (simp_all add: sessions_sound_def memory_only_def frame_def kept_live_def live_def)

text \<open>The ways \<open>findImpl\<close> ends: without a session, when what the cookie named is not live afterwards, or at the live session it named.\<close>

lemma find_cases:
  assumes laws: "cache_laws (wv_cache E)" and ok: "sessions_sound E t w" "t \<le> rq_now rq" and run: "findImpl E appName rq ctx w = (r, w')"
  obtains (absent) "r = Inr None" "sessions_sound E (rq_now rq) w'" "frame w w'" "wb_heap w' = wb_heap w" "wb_next w' = wb_next w"
      "\<And>now'. getId appName rq \<noteq> [] \<Longrightarrow> rq_now rq \<le> now' \<Longrightarrow> live E now' w' (getId appName rq) = None"
    | (found) c where "getId appName rq \<noteq> []" "live E (rq_now rq) w (getId appName rq) = Some c" "addressAccepted rq c w"
      "ws_id (wb_heap w c) = getId appName rq" "c < wb_next w"
      "r = (case fst (addCSRFCookie appName c w) of Inl e \<Rightarrow> Inl e | Inr _ \<Rightarrow> Inr (Some c))"
      "sessions_sound E (rq_now rq) w'" "frame w w'" "kept_live E (rq_now rq) c w w'" "cookie_announced appName c w'"
      "wb_heap w' = (wb_heap w)(c := accessImpl (rq_now rq) (wb_heap w c))" "wb_next w' = wb_next w"
proof -
  let ?i = "getId appName rq" and ?now = "rq_now rq"
  have mem: "memory_only w" using ok(1) by (simp add: sessions_sound_def)
  have get: "fst (ca_get (wv_cache E) ?now i (wb_cache w)) = live E ?now w i" for i
    by (simp add: live_def cache_lawsD(1) [OF laws])
  have got: "live E now' (got E ?now ?i w) j = live E now' w j" if "?now \<le> now'" for now' j
    using that by (simp add: live_def got_def cache_lawsD(2) [OF laws])
  have sound_at: "sessions_sound E ?now v"
    if "memory_only v" "wb_heap v = wb_heap w" "wb_next v = wb_next w"
      "\<And>now' j d. ?now \<le> now' \<Longrightarrow> live E now' v j = Some d \<Longrightarrow> live E now' w j = Some d" for v
    using ok that unfolding sessions_sound_def by (metis order_trans)
  have later: "live E now' w j = None" if "live E ?now w j = None" "?now \<le> now'" for now' j
  proof (cases "live E now' w j")
    case (Some d)
    then have "live E ?now w j = Some d" using cache_lawsD(7) [OF laws that(2)] by (simp add: live_def)
    then show ?thesis using that(1) by simp
  qed
  have fields: "wb_heap (got E ?now ?i w) = wb_heap w" "wb_next (got E ?now ?i w) = wb_next w"
      "memory_only (got E ?now ?i w)" "frame w (got E ?now ?i w)" using mem by (simp_all add: got_def memory_only_def frame_def)
  show thesis
  proof (cases "?i = [] \<or> live E ?now w ?i = None")
    case True
    then have "r = Inr None \<and> (w' = w \<and> ?i = [] \<or> w' = got E ?now ?i w \<and> live E ?now w ?i = None)"
      using run by (auto simp: find_memory [OF mem] get Let_def split: if_splits)
    then show thesis
    proof (elim conjE disjE)
      assume "r = Inr None" "w' = w" "?i = []"
      then show thesis by (intro absent) (auto intro: sound_at mem)
    next
      assume "r = Inr None" "w' = got E ?now ?i w" "live E ?now w ?i = None"
      then show thesis by (intro absent) (auto simp: fields got later intro: sound_at)
    qed
  next
    case False
    then obtain c where i: "?i \<noteq> []" and c: "live E ?now w ?i = Some c" by auto
    have at: "c < wb_next w" "ws_id (wb_heap w c) = ?i" using ok c unfolding sessions_sound_def by auto
    show thesis
    proof (cases "addressAccepted rq c w")
      case True
      have csrf: "fst (addCSRFCookie appName c (renewed E ?now c w)) = fst (addCSRFCookie appName c w)"
        by (simp add: addCSRFCookie_def renewed_def cacheAdd_def on_session_def csrfToken_def getValue_def split: sum.split)
      from find_found [OF mem i True, of E ctx] c run
      have w': "w' = announcing appName c (renewed E ?now c (got E ?now ?i w))"
        and r: "r = (case fst (addCSRFCookie appName c w) of Inl e \<Rightarrow> Inl e | Inr _ \<Rightarrow> Inr (Some c))"
        unfolding csrf by (simp_all add: get)
      note facts = renewed_facts [OF laws ok c]
      show thesis
        by (rule found [OF i c True at(2,1) r]) (simp_all add: w' facts announcing_announces)
    next
      case refused: False
      then have w': "r = Inr None" "w' = dropped E ?now ?i (got E ?now ?i w)"
        using run i c by (simp_all add: find_memory [OF mem] get Let_def at)
      have dropped: "live E now' w' j = (if j = ?i then None else live E now' w j)" if "?now \<le> now'" for now' j
        using that got by (simp add: w' live_def dropped_def cache_lawsD(4) [OF laws])
      have "wb_heap w' = wb_heap w" "wb_next w' = wb_next w" "memory_only w'" "frame w w'"
        using fields by (simp_all add: w' dropped_def memory_only_def frame_def)
      then show thesis using w'(1) dropped by (intro absent sound_at) (auto split: if_splits)
    qed
  qed
qed

text \<open>The new session, and the manager that knows it.\<close>

definition new_token :: "('k, 'st) web_env \<Rightarrow> web_request \<Rightarrow> u32 \<Rightarrow> nat \<Rightarrow> string" where
  "new_token E rq serial n = wv_digest E serial (rq_now rq) (wv_random E n) (rq_clientAddress rq)"

definition fresh_session :: "('k, 'st) web_env \<Rightarrow> web_request \<Rightarrow> int \<Rightarrow> nat \<Rightarrow> ('k, 'st) web \<Rightarrow> web_session" where
  "fresh_session E rq secs ctx w =
     newWebSession (rq_now rq) (new_token E rq (wb_serial w + 1) (wb_draws w)) (new_token E rq (wb_serial w + 2) (Suc (wb_draws w)))
       1 secs (rq_host rq) False ctx"

definition made :: "('k, 'st) web_env \<Rightarrow> web_request \<Rightarrow> web_session \<Rightarrow> ('k, 'st) web \<Rightarrow> ('k, 'st) web" where
  "made E rq s w = w\<lparr>wb_serial := wb_serial w + 2, wb_draws := Suc (Suc (wb_draws w)), wb_heap := (wb_heap w)(wb_next w := s),
     wb_next := Suc (wb_next w), wb_cache := ca_add (wv_cache E) (rq_now rq) (ws_id s) (wb_next w) (ws_expiration s) (wb_cache w)\<rparr>"

lemma fresh_session_facts [simp]:
  "ws_stored (fresh_session E rq secs ctx w) = False" "ws_attrs (fresh_session E rq secs ctx w) ''username'' = None"
  "ws_clientAddress (fresh_session E rq secs ctx w) = rq_host rq"
  by (simp_all add: fresh_session_def newWebSession_def CSRF_TOKEN_def)

lemma create_run:
  assumes "memory_only w"
  shows "createImpl E appName rq secs ctx w =
     (Inr (wb_next w), announcing appName (wb_next w) (made E rq (fresh_session E rq secs ctx w) w))"
proof -
  obtain csrf where "csrfToken (fresh_session E rq secs ctx w) = Inr csrf"
    by (simp add: fresh_session_def newWebSession_def csrfToken_def getValue_def any_string_def)
  then show ?thesis
    using assms
    by (simp add: createImpl_def io_bind_def io_seq_def createToken_def Let_def memory_only_def newSessionObject_def cacheAdd_def
        new_token_def [symmetric] fresh_session_def [symmetric] made_def announcing_def addSessionCookie_def addCSRFCookie_def
        addCookie_def add.assoc)
qed

lemma made_facts:
  assumes "memory_only w"
  shows "memory_only (made E rq (fresh_session E rq secs ctx w) w)" "frame w (made E rq (fresh_session E rq secs ctx w) w)"
  using assms by (simp_all add: made_def memory_only_def frame_def)

lemma create_facts:
  assumes laws: "cache_laws (wv_cache E)" and ok: "sessions_sound E t w" "t \<le> rq_now rq" and run: "createImpl E appName rq secs ctx w = (r, w')"
  obtains "r = Inr (wb_next w)" "sessions_sound E (rq_now rq) w'" "frame w w'" "kept_live E (rq_now rq) (wb_next w) w w'"
    "cookie_announced appName (wb_next w) w'" "wb_next w' = Suc (wb_next w)"
    "wb_heap w' = (wb_heap w)(wb_next w := fresh_session E rq secs ctx w)"
proof -
  let ?v = "made E rq (fresh_session E rq secs ctx w) w"
  have mem: "memory_only w" using ok(1) by (simp add: sessions_sound_def)
  have w': "r = Inr (wb_next w)" "w' = announcing appName (wb_next w) ?v" using run create_run [OF mem] by simp_all
  have v: "wb_heap ?v = (wb_heap w)(wb_next w := fresh_session E rq secs ctx w)" "wb_next ?v = Suc (wb_next w)"
    by (simp_all add: made_def)
  have kept: "kept_live E (rq_now rq) (wb_next w) w ?v"
    by (simp add: kept_live_def live_def made_def cache_lawsD(3) [OF laws])
  have "sessions_sound E (rq_now rq) ?v" by (rule sound_kept [OF ok made_facts(1) [OF mem] kept]) (auto simp: v)
  then show thesis
    by (intro that) (simp_all add: w' v kept announcing_announces made_facts(2) [OF mem])
qed

section \<open>The service as its clients see it\<close>

text \<open>
  A session as a client reads it: the user it is signed in for, if any, and the client it belongs to. No operation of the service signs
  a user in or moves a session to another client, except that a client sets the attribute \<open>username\<close>.
\<close>

definition session_user :: "('k, 'st) web \<Rightarrow> nat \<Rightarrow> string option" where
  "session_user w c = (case ws_attrs (wb_heap w c) ''username'' of Some (AnyString u) \<Rightarrow> Some u | _ \<Rightarrow> None)"

definition session_client :: "('k, 'st) web \<Rightarrow> nat \<Rightarrow> string" where
  "session_client w c = ws_clientAddress (wb_heap w c)"

text \<open>\<open>J h u\<close> stands for: user \<open>u\<close> may be signed in from host \<open>h\<close>, where \<open>None\<close> is any host.\<close>

definition vouched ::
    "('w \<Rightarrow> bool) \<Rightarrow> ('w \<Rightarrow> bool) \<Rightarrow> ('w \<Rightarrow> nat \<Rightarrow> string option) \<Rightarrow> ('w \<Rightarrow> nat \<Rightarrow> string) \<Rightarrow> bool \<Rightarrow> (string option \<Rightarrow> string \<Rightarrow> bool) \<Rightarrow> 'w \<Rightarrow> bool" where
  "vouched ok verify user client v J w \<longleftrightarrow> ok w \<and> verify w = v \<and>
     (\<forall>c u. user w c = Some u \<longrightarrow> J (if v then Some (client w c) else None) u)"

definition leaves_users ::
    "('w \<Rightarrow> bool) \<Rightarrow> ('w \<Rightarrow> bool) \<Rightarrow> ('w \<Rightarrow> nat \<Rightarrow> string option) \<Rightarrow> ('w \<Rightarrow> nat \<Rightarrow> string) \<Rightarrow> ('w, 'a) io \<Rightarrow> bool" where
  "leaves_users ok verify user client m \<longleftrightarrow> (\<forall>w. ok w \<longrightarrow> ok (snd (m w)) \<and> verify (snd (m w)) = verify w \<and>
     (\<forall>c. user (snd (m w)) c = None \<or> user (snd (m w)) c = user w c \<and> client (snd (m w)) c = client w c))"

locale session_service =
  fixes ok :: "'w \<Rightarrow> bool" and verify :: "'w \<Rightarrow> bool" and user :: "'w \<Rightarrow> nat \<Rightarrow> string option" and client :: "'w \<Rightarrow> nat \<Rightarrow> string"
    and find :: "string \<Rightarrow> web_request \<Rightarrow> ('w, nat option) io" and get :: "string \<Rightarrow> web_request \<Rightarrow> int \<Rightarrow> nat \<Rightarrow> ('w, nat) io"
    and create :: "string \<Rightarrow> web_request \<Rightarrow> int \<Rightarrow> nat \<Rightarrow> ('w, nat) io" and remove :: "int \<Rightarrow> nat \<Rightarrow> ('w, unit) io"
    and set_attr :: "nat \<Rightarrow> string \<Rightarrow> any \<Rightarrow> ('w, unit) io" and erase :: "nat \<Rightarrow> string \<Rightarrow> ('w, unit) io"
  assumes quiet_find: "leaves_users ok verify user client (find app rq)"
    and quiet_get: "leaves_users ok verify user client (get app rq secs ctx)"
    and quiet_create: "leaves_users ok verify user client (create app rq secs ctx)"
    and quiet_remove: "leaves_users ok verify user client (remove now c)"
    and quiet_erase: "leaves_users ok verify user client (erase c key)"
    and quiet_set: "key \<noteq> ''username'' \<Longrightarrow> leaves_users ok verify user client (set_attr c key v)"
    and find_client: "ok w \<Longrightarrow> find app rq w = (Inr (Some c), w') \<Longrightarrow> verify w \<Longrightarrow> client w' c = rq_host rq"
    and get_client: "ok w \<Longrightarrow> get app rq secs ctx w = (Inr c, w') \<Longrightarrow> verify w \<Longrightarrow> client w' c = rq_host rq"
    and create_client: "ok w \<Longrightarrow> create app rq secs ctx w = (Inr c, w') \<Longrightarrow> client w' c = rq_host rq"
    and set_user: "ok w \<Longrightarrow> set_attr c ''username'' (AnyString u) w = (r, w') \<Longrightarrow>
      ok w' \<and> verify w' = verify w \<and> (\<forall>d. client w' d = client w d) \<and> (\<forall>d. user w' d = (if d = c then Some u else user w d))"
begin

lemma quiet_keeps: "leaves_users ok verify user client m \<Longrightarrow> io_keeps (vouched ok verify user client v J) m"
  unfolding leaves_users_def io_keeps_def vouched_def by (metis option.distinct(1))

lemmas keeps = quiet_find [THEN quiet_keeps] quiet_get [THEN quiet_keeps] quiet_create [THEN quiet_keeps]
  quiet_remove [THEN quiet_keeps] quiet_erase [THEN quiet_keeps] quiet_set [THEN quiet_keeps]

lemma sign_in_keeps:
  assumes "vouched ok verify user client v J w" and "J (if v then Some (client w c) else None) u"
  shows "vouched ok verify user client v J (snd (set_attr c ''username'' (AnyString u) w))"
proof -
  obtain r w' where run: "set_attr c ''username'' (AnyString u) w = (r, w')" by fastforce
  show ?thesis using set_user [OF _ run] assms unfolding vouched_def run by auto
qed

end

lemma frame_quiet:
  assumes "\<And>w. memory_only w \<Longrightarrow> memory_only (snd (m w)) \<and> frame w (snd (m w))"
  shows "leaves_users memory_only wb_verifyAddress session_user session_client m"
  unfolding leaves_users_def
proof (intro allI impI conjI)
  fix w :: "('a, 'b) web" and c assume "memory_only w"
  then have "memory_only (snd (m w))" and f: "frame w (snd (m w))" using assms by blast+
  then show "memory_only (snd (m w))" "wb_verifyAddress (snd (m w)) = wb_verifyAddress w" by (simp_all add: frame_def)
  from f show "session_user (snd (m w)) c = None \<or>
      session_user (snd (m w)) c = session_user w c \<and> session_client (snd (m w)) c = session_client w c"
    unfolding frame_def session_user_def session_client_def by (metis option.case(1))
qed

lemma find_frame:
  assumes "memory_only w"
  shows "memory_only (snd (findImpl E app rq ctx w)) \<and> frame w (snd (findImpl E app rq ctx w))"
  using assms
  by (simp add: find_memory Let_def touched_def io_seq_def io_bind_def addSessionCookie_def addCookie_def addCSRFCookie_def
      cacheAdd_def on_session_def got_def dropped_def memory_only_def frame_def split: sum.split option.split prod.split)

lemma find_accepted:
  assumes "memory_only w" and "findImpl E app rq ctx w = (Inr (Some c), w')" and "wb_verifyAddress w"
  shows "session_client w' c = rq_host rq"
proof -
  let ?r = "fst (ca_get (wv_cache E) (rq_now rq) (getId app rq) (wb_cache w))"
  have id: "getId app rq \<noteq> []" using assms(2) by (auto simp: find_memory [OF assms(1)])
  then obtain d where d: "?r = Some d" "addressAccepted rq d w"
    using assms(2) by (auto simp: find_memory [OF assms(1)] Let_def split: option.splits if_splits)
  then have "c = d" "w' = announcing app d (renewed E (rq_now rq) d (got E (rq_now rq) (getId app rq) w))"
    using assms(2) find_found [OF assms(1) id d(2,1), of ctx] by (simp_all split: sum.splits)
  then show ?thesis
    using d(2) assms(3)
    by (simp add: session_client_def addressAccepted_def) (simp add: renewed_def cacheAdd_def on_session_def got_def)
qed

lemma create_frame:
  assumes "memory_only w"
  shows "memory_only (snd (createImpl E app rq secs ctx w)) \<and> frame w (snd (createImpl E app rq secs ctx w)) \<and>
    session_client (snd (createImpl E app rq secs ctx w)) (wb_next w) = rq_host rq \<and> fst (createImpl E app rq secs ctx w) = Inr (wb_next w)"
  using made_facts [OF assms, of E rq secs ctx]
  by (simp add: create_run [OF assms] session_client_def) (simp add: memory_only_def made_def)

lemma get_frame:
  assumes "memory_only w"
  shows "memory_only (snd (sessionGet E app rq secs ctx w)) \<and> frame w (snd (sessionGet E app rq secs ctx w))"
proof -
  obtain r v where run: "findImpl E app rq ctx w = (r, v)" by fastforce
  have v: "memory_only v" "frame w v" using find_frame [OF assms, of E app rq ctx] by (simp_all add: run)
  show ?thesis
    using v create_frame [OF v(1)] by (auto simp: sessionGet_def io_bind_def run intro: frame_trans split: sum.split option.split)
qed

lemma get_accepted:
  assumes "memory_only w" and "sessionGet E app rq secs ctx w = (Inr c, w')" and "wb_verifyAddress w"
  shows "session_client w' c = rq_host rq"
proof -
  obtain r v where run: "findImpl E app rq ctx w = (r, v)" by fastforce
  have v: "memory_only v" using find_frame [OF assms(1), of E app rq ctx] by (simp add: run)
  have found: "session_client w' c = rq_host rq" if "r = Inr (Some c)" "w' = v"
    using find_accepted [OF assms(1) _ assms(3)] run that by simp
  have "session_client w' c = rq_host rq" if "createImpl E app rq secs ctx v = (Inr c, w')"
    using create_frame [OF v, of E app rq secs ctx] that by simp
  with found show ?thesis
    using assms(2) by (auto simp: sessionGet_def io_bind_def run split: sum.splits option.splits)
qed

interpretation web_sessions: session_service memory_only wb_verifyAddress session_user session_client "sessionFind E" "sessionGet E"
    "sessionCreate E" "sessionRemove E" "sessionSet E" "sessionErase E" for E
proof
  show "leaves_users memory_only wb_verifyAddress session_user session_client (sessionFind E app rq)" for app rq
    by (rule frame_quiet) (simp add: sessionFind_def find_frame)
  show "leaves_users memory_only wb_verifyAddress session_user session_client (sessionGet E app rq secs ctx)" for app rq secs ctx
    by (rule frame_quiet [OF get_frame])
  show "leaves_users memory_only wb_verifyAddress session_user session_client (sessionCreate E app rq secs ctx)" for app rq secs ctx
    by (rule frame_quiet) (simp add: sessionCreate_def create_frame)
  show "leaves_users memory_only wb_verifyAddress session_user session_client (sessionRemove E now c)" for now c
    by (rule frame_quiet)
      (simp add: sessionRemove_def removeImpl_def removeById_def io_seq_def io_bind_def memory_only_def frame_def)
  show "leaves_users memory_only wb_verifyAddress session_user session_client (sessionErase E c key)" for c key
    by (simp add: leaves_users_def set_memory, auto simp: memory_only_def session_user_def session_client_def on_session_def split: option.splits)
  show "leaves_users memory_only wb_verifyAddress session_user session_client (sessionSet E c key v)" if "key \<noteq> ''username''" for key c v
    using that by (simp add: leaves_users_def set_memory, auto simp: memory_only_def session_user_def session_client_def on_session_def split: option.splits)
  show "session_client w' c = rq_host rq" if "memory_only w" "sessionFind E app rq w = (Inr (Some c), w')" "wb_verifyAddress w" for w app rq c w'
    using that unfolding sessionFind_def by (rule find_accepted)
  show "session_client w' c = rq_host rq" if "memory_only w" "sessionGet E app rq secs ctx w = (Inr c, w')" "wb_verifyAddress w" for w app rq secs ctx c w'
    using that by (rule get_accepted)
  show "session_client w' c = rq_host rq" if "memory_only w" "sessionCreate E app rq secs ctx w = (Inr c, w')" for w app rq secs ctx c w'
    using create_frame [OF that(1), of E app rq secs ctx] that(2) by (simp add: sessionCreate_def)
  show "memory_only w' \<and> wb_verifyAddress w' = wb_verifyAddress w \<and> (\<forall>d. session_client w' d = session_client w d) \<and>
      (\<forall>d. session_user w' d = (if d = c then Some u else session_user w d))"
    if "memory_only w" "sessionSet E c ''username'' (AnyString u) w = (r, w')" for w c u r w'
    using that by (auto simp: set_memory session_user_def session_client_def) (simp_all add: memory_only_def on_session_def)
qed

lemma removeById_quiet:
  assumes "memory_only w"
  shows "memory_only (snd (removeById E now i w)) \<and> frame w (snd (removeById E now i w))"
  using assms by (simp add: removeById_def io_seq_def io_bind_def memory_only_def frame_def)

lemma io_each_frame:
  assumes "\<And>x w. memory_only w \<Longrightarrow> memory_only (snd (f x w)) \<and> frame w (snd (f x w))"
  shows "memory_only w \<Longrightarrow> memory_only (snd (io_each f xs w)) \<and> frame w (snd (io_each f xs w))"
proof (induction xs arbitrary: w)
  case (Cons x xs)
  obtain r v where run: "f x w = (r, v)" by fastforce
  have "memory_only v" "frame w v" using assms [OF Cons.prems, of x] by (simp_all add: run)
  then show ?case using Cons.IH [of v] by (auto simp: io_seq_def io_bind_def run intro: frame_trans split: sum.split)
qed simp

text \<open>The manager's own housekeeping signs nobody in either.\<close>

lemma housekeeping_quiet:
  "leaves_users memory_only wb_verifyAddress session_user session_client (removeForUser E now username)"
  "leaves_users memory_only wb_verifyAddress session_user session_client (bundleStopping E now b)"
proof -
  show "leaves_users memory_only wb_verifyAddress session_user session_client (removeForUser E now username)"
  proof (rule frame_quiet)
    fix w :: "('a, 'b) web" assume mem: "memory_only w"
    let ?v = "w\<lparr>wb_cache := snd (ca_forEach (wv_cache E) now (wb_cache w))\<rparr>"
    have "memory_only ?v" "frame w ?v" using mem by (simp_all add: memory_only_def frame_def)
    then show "memory_only (snd (removeForUser E now username w)) \<and> frame w (snd (removeForUser E now username w))"
      using io_each_frame [of "removeById E now", OF removeById_quiet]
      by (auto simp: removeForUser_def case_prod_beta Let_def intro: frame_trans)
  qed
  show "leaves_users memory_only wb_verifyAddress session_user session_client (bundleStopping E now b)"
  proof (rule frame_quiet)
    fix w :: "('a, 'b) web" assume mem: "memory_only w"
    let ?v = "w\<lparr>wb_cache := snd (ca_forEach (wv_cache E) now (wb_cache w))\<rparr>"
    have v: "memory_only ?v" "frame w ?v" using mem by (simp_all add: memory_only_def frame_def)
    have "memory_only (snd (onBundleStopping E b c u)) \<and> frame u (snd (onBundleStopping E b c u))" if "memory_only u" for c u
      using that by (simp add: onBundleStopping_def set_memory) (simp add: frame_def on_session_def)
    then have "memory_only u \<Longrightarrow> memory_only (snd ((case e of (i, c) \<Rightarrow> onBundleStopping E b c) u)) \<and>
        frame u (snd ((case e of (i, c) \<Rightarrow> onBundleStopping E b c) u))" for e :: "string \<times> nat" and u
      by (cases e) simp
    from io_each_frame [of "\<lambda>(i, c). onBundleStopping E b c", OF this v(1)]
    have "memory_only (snd (bundleStopping E now b w)) \<and> frame ?v (snd (bundleStopping E now b w))"
      by (simp add: bundleStopping_def case_prod_beta Let_def)
    then show "memory_only (snd (bundleStopping E now b w)) \<and> frame w (snd (bundleStopping E now b w))"
      using frame_trans [OF v(2)] by blast
  qed
qed

section \<open>Properties\<close>


section \<open>A session for the witnesses\<close>

definition no_store :: "unit session_store" where
  "no_store = \<lparr>so_saveSession = (\<lambda>_. io_ret ()), so_loadSession = (\<lambda>_ _. io_ret (None, False)), so_expireSession = (\<lambda>_ _. io_ret ()),
     so_saveValue = (\<lambda>_ _ _. io_ret 0), so_removeValue = (\<lambda>_ _. io_ret 0), so_clearValues = (\<lambda>_. io_ret 0)\<rparr>"

definition blank_session :: web_session where
  "blank_session = \<lparr>ws_id = [], ws_version = 0, ws_timeout = 0, ws_context = 0, ws_created = 0, ws_expiration = 0, ws_clientAddress = [],
     ws_attrs = (\<lambda>_. None), ws_stored = False\<rparr>"

definition one_session :: "((string \<times> nat \<times> int) list, unit) web" where
  "one_session = (newSessionManager 0 [(''1'', 0, 100)] ()
     (\<lambda>_. blank_session\<lparr>ws_id := ''1'', ws_timeout := 10, ws_clientAddress := ''10.0.0.2'', ws_expiration := 100\<rparr>))\<lparr>wb_next := 1\<rparr>"

definition listed_sessions :: "((string \<times> nat \<times> int) list, unit) web_env" where
  "listed_sessions = \<lparr>wv_cache = sample_cache, wv_store = no_store, wv_random = (\<lambda>_. []), wv_digest = (\<lambda>serial _ _ _. show_nat (unat serial))\<rparr>"

definition cookie_request :: web_request where
  "cookie_request =
     \<lparr>rq_now = 50, rq_method = ''GET'', rq_host = ''10.0.0.2'', rq_clientAddress = ''10.0.0.2:4711'', rq_cookie = (\<lambda>_. Some ''1''),
      rq_header = (\<lambda>_. None), rq_form = Inr (\<lambda>_. None), rq_serverHost = ''10.0.0.1'', rq_serverPort = 80,
      rq_serverAddress = ''10.0.0.1:80'', rq_serverIPv6 = False, rq_secure = False\<rparr>"

lemma one_session_sound: "sessions_sound listed_sessions 0 one_session"
  by (auto simp: sessions_sound_def memory_only_def live_def one_session_def listed_sessions_def newSessionManager_def blank_session_def sample_cache_def
      split: if_splits)


end
