(* ===== verification/Launcher.thy ===== *)
theory Launcher
  imports WebSession
begin

text \<open>
  The login gateway of the user interface: AuthRequestHandler.cpp (login, logout) and SessionJSON.cpp (who is signed in) of the
  launcher. The Chinese texts are the bytes of their UTF-8 form. Log and telemetry calls are left out.
\<close>

section \<open>Texts\<close>

definition utf8 :: "nat list \<Rightarrow> string" where
  "utf8 bs = map char_of bs"

definition zh_post_required :: string where
  "zh_post_required = utf8
     [232, 175, 183, 230, 177, 130, 230, 150, 185, 229, 188, 143, 233, 148, 153, 232, 175, 175, 239, 188, 140,
      229, 191, 133, 233, 161, 187, 228, 189, 191, 231, 148, 168, 32, 80, 79, 83, 84, 227, 128, 130]"

definition zh_missing_credentials :: string where
  "zh_missing_credentials = utf8
     [232, 175, 183, 232, 190, 147, 229, 133, 165, 231, 148, 168, 230, 136, 183, 229, 144, 141, 229, 146, 140,
      229, 175, 134, 231, 160, 129, 229, 144, 142, 229, 134, 141, 231, 153, 187, 229, 189, 149, 227, 128, 130]"

definition zh_account :: string where
  "zh_account = utf8
     [232, 180, 166, 229, 143, 183, 32]"

definition zh_verified :: string where
  "zh_verified = utf8
     [32, 233, 170, 140, 232, 175, 129, 233, 128, 154, 232, 191, 135, 239, 188, 140, 231, 153, 187, 229, 189,
      149, 228, 188, 154, 232, 175, 157, 229, 183, 178, 229, 187, 186, 231, 171, 139, 227, 128, 130]"

definition zh_rejected :: string where
  "zh_rejected = utf8
     [231, 148, 168, 230, 136, 183, 229, 144, 141, 230, 136, 150, 229, 175, 134, 231, 160, 129, 233, 148, 153,
      232, 175, 175, 239, 188, 140, 230, 136, 150, 232, 175, 165, 232, 180, 166, 229, 143, 183, 229, 183, 178,
      232, 162, 171, 231, 166, 129, 231, 148, 168, 227, 128, 130]"

definition zh_signed_out :: string where
  "zh_signed_out = utf8
     [229, 183, 178, 233, 128, 128, 229, 135, 186, 231, 153, 187, 229, 189, 149, 239, 188, 140, 232, 175, 183,
      233, 135, 141, 230, 150, 176, 233, 170, 140, 232, 175, 129, 232, 186, 171, 228, 187, 189, 227, 128, 130]"

definition zh_unavailable :: string where
  "zh_unavailable = utf8
     [232, 174, 164, 232, 175, 129, 230, 156, 141, 229, 138, 161, 229, 189, 147, 229, 137, 141, 228, 184, 141,
      229, 143, 175, 231, 148, 168, 227, 128, 130]"

definition zh_gateway_ready :: string where
  "zh_gateway_ready = utf8
     [231, 153, 187, 229, 189, 149, 231, 189, 145, 229, 133, 179, 229, 183, 178, 229, 176, 177, 231, 187, 170,
      239, 188, 140, 232, 175, 183, 229, 133, 136, 229, 174, 140, 230, 136, 144, 232, 186, 171, 228, 187, 189,
      233, 170, 140, 232, 175, 129, 227, 128, 130]"

section \<open>The environment\<close>

text \<open>
  How a write to the client ends. The first two classes of exceptions are those of a client that went away.
\<close>

datatype send_result = Sent | ConnectionResetException | ConnectionAbortedException | SendFailed exc

text \<open>
  The services the handlers look up, the properties of their bundle, the authentication service (which may change its mind
  over time) and the results of the successive writes to clients.
\<close>

record ('k, 'st) launcher_env =
  le_web :: "('k, 'st) web_env"
  le_poco :: poco
  le_toLower :: "string \<Rightarrow> string"
  le_context :: nat
  le_sessionManager :: "exc + unit"
  le_websessionId :: "exc + string"
  le_websessionTimeout :: "exc + int"
  le_authService :: "exc + unit"
  le_authenticate :: "int \<Rightarrow> string \<Rightarrow> string \<Rightarrow> exc + bool"
  le_send :: "nat \<Rightarrow> send_result"

type_synonym payload = "(string \<times> json) list"

text \<open>The manager and the response of the current request: its status, headers, and the documents written; \<open>ex_sends\<close> counts writes.\<close>

record ('k, 'st) exchange =
  ex_web :: "('k, 'st) web"
  ex_status :: int
  ex_headers :: "(string \<times> string) list"
  ex_sent :: "payload list"
  ex_sends :: nat

type_synonym ('k, 'st, 'a) ex = "(('k, 'st) exchange, 'a) io"

definition HTTP_OK :: int where "HTTP_OK = 200"
definition HTTP_UNAUTHORIZED :: int where "HTTP_UNAUTHORIZED = 401"
definition HTTP_METHOD_NOT_ALLOWED :: int where "HTTP_METHOD_NOT_ALLOWED = 405"
definition HTTP_INTERNAL_SERVER_ERROR :: int where "HTTP_INTERNAL_SERVER_ERROR = 500"

lemmas http_status = HTTP_OK_def HTTP_UNAUTHORIZED_def HTTP_METHOD_NOT_ALLOWED_def HTTP_INTERNAL_SERVER_ERROR_def

definition on_web :: "('k, 'st, 'a) wb \<Rightarrow> ('k, 'st, 'a) ex" where
  "on_web m x = (let (r, w) = m (ex_web x) in (r, x\<lparr>ex_web := w\<rparr>))"

definition setStatus :: "int \<Rightarrow> ('k, 'st, unit) ex" where
  "setStatus status x = (Inr (), x\<lparr>ex_status := status\<rparr>)"

text \<open>\<open>try { m } catch (\<dots>) { h }\<close>\<close>

definition io_catch :: "('s, 'a) io \<Rightarrow> (exc \<Rightarrow> ('s, 'a) io) \<Rightarrow> ('s, 'a) io" where
  "io_catch m h s = (case m s of (Inl e, s') \<Rightarrow> h e s' | (Inr x, s') \<Rightarrow> (Inr x, s'))"

section \<open>Helpers\<close>

definition normalizeLocale :: "('k, 'st) launcher_env \<Rightarrow> string \<Rightarrow> string" where
  "normalizeLocale E value = (if List.take 2 (le_toLower E value) = ''en'' then ''en'' else ''zh'')"

definition header_or :: "web_request \<Rightarrow> string \<Rightarrow> string" where
  "header_or rq name = (case rq_header rq name of None \<Rightarrow> [] | Some v \<Rightarrow> v)"

definition requestLocale :: "('k, 'st) launcher_env \<Rightarrow> web_request \<Rightarrow> string" where
  "requestLocale E rq =
     (let explicitLocale = header_or rq ''X-MyIoT-Locale''; acceptLanguage = header_or rq ''Accept-Language'' in
      if explicitLocale \<noteq> [] then normalizeLocale E explicitLocale
      else if acceptLanguage \<noteq> [] then normalizeLocale E acceptLanguage
      else ''zh'')"

definition localized :: "('k, 'st) launcher_env \<Rightarrow> web_request \<Rightarrow> string \<Rightarrow> string \<Rightarrow> string" where
  "localized E rq zh en = (if requestLocale E rq = ''en'' then en else zh)"

definition contains :: "string \<Rightarrow> string \<Rightarrow> bool" where
  "contains text part \<longleftrightarrow> sublist part text"

definition isMissingCSRFTToken :: "('k, 'st) launcher_env \<Rightarrow> exc \<Rightarrow> bool" where
  "isMissingCSRFTToken E e \<longleftrightarrow> contains (p_displayText (le_poco E) e) ''#csrfToken''"

text \<open>A session without its token makes the manager throw when it announces it; then a fresh one is created.\<close>

definition recoverSession ::
    "('k, 'st) launcher_env \<Rightarrow> web_request \<Rightarrow> string \<Rightarrow> int \<Rightarrow> (nat \<Rightarrow> 'a) \<Rightarrow> exc \<Rightarrow> ('k, 'st, 'a) ex" where
  "recoverSession E rq sessionId sessionTimeout f e =
     (case e of
        NotFoundException _ \<Rightarrow>
          (if isMissingCSRFTToken E e
           then io_bind (on_web (sessionCreate (le_web E) sessionId rq sessionTimeout (le_context E))) (\<lambda>c. io_ret (f c))
           else io_throw e)
      | _ \<Rightarrow> io_throw e)"

definition getSession :: "('k, 'st) launcher_env \<Rightarrow> web_request \<Rightarrow> ('k, 'st, nat) ex" where
  "getSession E rq =
     io_bind (io_lift (le_sessionManager E)) (\<lambda>_.
     io_bind (io_lift (le_websessionId E)) (\<lambda>sessionId.
     io_bind (io_lift (le_websessionTimeout E)) (\<lambda>sessionTimeout.
       io_catch (on_web (sessionGet (le_web E) sessionId rq sessionTimeout (le_context E)))
         (recoverSession E rq sessionId sessionTimeout (\<lambda>c. c)))))"

definition findSession :: "('k, 'st) launcher_env \<Rightarrow> web_request \<Rightarrow> ('k, 'st, nat option) ex" where
  "findSession E rq =
     io_bind (io_lift (le_sessionManager E)) (\<lambda>_.
     io_bind (io_lift (le_websessionId E)) (\<lambda>sessionId.
     io_bind (io_lift (le_websessionTimeout E)) (\<lambda>sessionTimeout.
       io_catch (on_web (sessionFind (le_web E) sessionId rq))
         (recoverSession E rq sessionId sessionTimeout Some))))"

text \<open>A client that went away is not an error.\<close>

definition clientGone :: "('k, 'st) launcher_env \<Rightarrow> send_result \<Rightarrow> bool" where
  "clientGone E s = (case s of
     ConnectionResetException \<Rightarrow> True
   | ConnectionAbortedException \<Rightarrow> True
   | SendFailed (IOException m) \<Rightarrow>
       contains (p_displayText (le_poco E) (IOException m)) ''broken pipe'' \<or> contains (p_displayText (le_poco E) (IOException m)) ''Broken pipe''
   | _ \<Rightarrow> False)"

definition writeJSON :: "('k, 'st) launcher_env \<Rightarrow> payload \<Rightarrow> ('k, 'st, unit) ex" where
  "writeJSON E payload x =
     (let s = le_send E (ex_sends x); y = x\<lparr>ex_sends := Suc (ex_sends x)\<rparr> in
      case s of
        Sent \<Rightarrow> (Inr (), y\<lparr>ex_sent := ex_sent y @ [payload]\<rparr>)
      | SendFailed e \<Rightarrow> (if clientGone E s then Inr () else Inl e, y)
      | _ \<Rightarrow> (Inr (), y))"

definition jsonHeaders :: "(string \<times> string) list \<Rightarrow> ('k, 'st, unit) ex" where
  "jsonHeaders extra x = (Inr (), x\<lparr>ex_headers := ex_headers x @ [(''Transfer-Encoding'', ''chunked''), (''Content-Type'', ''application/json'')] @ extra\<rparr>)"

definition sendJSON :: "('k, 'st) launcher_env \<Rightarrow> payload \<Rightarrow> ('k, 'st, unit) ex" where
  "sendJSON E payload = io_seq (jsonHeaders [(''Cache-Control'', ''no-cache'')]) (writeJSON E payload)"

definition sendPayload :: "('k, 'st) launcher_env \<Rightarrow> payload \<Rightarrow> ('k, 'st, unit) ex" where
  "sendPayload E payload = io_seq (jsonHeaders []) (writeJSON E payload)"

definition createPayload :: "bool \<Rightarrow> string \<Rightarrow> string \<Rightarrow> string \<Rightarrow> payload" where
  "createPayload authenticated username message lastError =
     [(''authenticated'', JBool authenticated), (''username'', JStr username), (''message'', JStr message), (''lastError'', JStr lastError)]"

definition form_or :: "(string \<Rightarrow> string option) \<Rightarrow> string \<Rightarrow> string" where
  "form_or form name = (case form name of None \<Rightarrow> [] | Some v \<Rightarrow> v)"

section \<open>Login and logout\<close>

datatype auth_mode = Login | Logout

text \<open>What a failed login leaves in the session.\<close>

definition refuseLogin :: "('k, 'st) launcher_env \<Rightarrow> nat \<Rightarrow> string \<Rightarrow> ('k, 'st, unit) ex" where
  "refuseLogin E c errorMessage =
     io_seq (on_web (sessionErase (le_web E) c ''username''))
    (io_seq (on_web (sessionSet (le_web E) c ''message'' (AnyString errorMessage)))
    (io_seq (on_web (sessionSet (le_web E) c ''lastError'' (AnyString errorMessage)))
      (sendJSON E (createPayload False [] errorMessage errorMessage))))"

definition loginRequest :: "('k, 'st) launcher_env \<Rightarrow> web_request \<Rightarrow> (string \<Rightarrow> string option) \<Rightarrow> nat \<Rightarrow> ('k, 'st, unit) ex" where
  "loginRequest E rq form c =
     (let username = form_or form ''username''; password = form_or form ''password'' in
      if username = [] \<or> password = []
      then refuseLogin E c (localized E rq zh_missing_credentials ''Please enter both username and password before signing in.'')
      else
        io_bind (io_lift (le_authService E)) (\<lambda>_.
        io_bind (io_lift (le_authenticate E (rq_now rq) username password)) (\<lambda>accepted.
          if accepted then
            (let successMessage = (if requestLocale E rq = ''en'' then ''Account '' @ username @ '' authenticated successfully.''
                                   else zh_account @ username @ zh_verified) in
             io_seq (on_web (sessionSet (le_web E) c ''username'' (AnyString username)))
            (io_seq (on_web (sessionSet (le_web E) c ''message'' (AnyString successMessage)))
            (io_seq (on_web (sessionErase (le_web E) c ''lastError''))
              (sendJSON E (createPayload True username successMessage [])))))
          else refuseLogin E c
            (localized E rq zh_rejected ''Incorrect username or password, or the account has been disabled.''))))"

definition logoutRequest :: "('k, 'st) launcher_env \<Rightarrow> web_request \<Rightarrow> nat \<Rightarrow> ('k, 'st, unit) ex" where
  "logoutRequest E rq c =
     io_bind (io_lift (le_sessionManager E)) (\<lambda>_.
     io_bind (\<lambda>x. (getValueOr ''username'' [] (wb_heap (ex_web x) c), x)) (\<lambda>username.
     io_seq (on_web (sessionRemove (le_web E) (rq_now rq) c))
       (sendJSON E (createPayload False [] (localized E rq zh_signed_out ''Signed out. Please authenticate again.'') []))))"

definition exception_text :: "('k, 'st) launcher_env \<Rightarrow> exc \<Rightarrow> string" where
  "exception_text E e = (case e of StdException what \<Rightarrow> what | _ \<Rightarrow> p_displayText (le_poco E) e)"

definition authHandleRequest :: "('k, 'st) launcher_env \<Rightarrow> auth_mode \<Rightarrow> web_request \<Rightarrow> ('k, 'st, unit) ex" where
  "authHandleRequest E mode rq =
     (if rq_method rq \<noteq> ''POST'' then
        (let message = localized E rq zh_post_required ''Invalid request method. POST is required.'' in
         io_seq (setStatus HTTP_METHOD_NOT_ALLOWED) (sendJSON E (createPayload False [] message message)))
      else io_catch
        (io_bind (io_lift (rq_form rq)) (\<lambda>form.
         io_bind (getSession E rq) (\<lambda>c.
           case mode of Login \<Rightarrow> loginRequest E rq form c | Logout \<Rightarrow> logoutRequest E rq c)))
        (\<lambda>e. io_seq (setStatus HTTP_INTERNAL_SERVER_ERROR)
           (sendJSON E (createPayload False [] (localized E rq zh_unavailable ''The authentication service is currently unavailable.'')
             (exception_text E e)))))"

section \<open>Who is signed in\<close>

definition buildAccessURL :: "web_request \<Rightarrow> string" where
  "buildAccessURL rq =
     (if rq_secure rq then ''https'' else ''http'') @ ''://'' @
     (if rq_serverIPv6 rq then ''['' @ rq_serverHost rq @ '']'' else rq_serverHost rq) @ '':'' @ show_int (rq_serverPort rq)"

definition session_text :: "nat option \<Rightarrow> string \<Rightarrow> string \<Rightarrow> ('k, 'st, string) ex" where
  "session_text p key deflt x =
     (case p of None \<Rightarrow> (Inr deflt, x) | Some c \<Rightarrow> (getValueOr key deflt (wb_heap (ex_web x) c), x))"

definition sessionPayload :: "web_request \<Rightarrow> string \<Rightarrow> string \<Rightarrow> string \<Rightarrow> payload" where
  "sessionPayload rq username message lastError =
     [(''authenticated'', JBool (username \<noteq> [])), (''username'', JStr username), (''message'', JStr message),
      (''lastError'', JStr lastError), (''deviceIp'', JStr (rq_serverHost rq)), (''devicePort'', JInt (rq_serverPort rq)),
      (''serverAddress'', JStr (rq_serverAddress rq)), (''accessProtocol'', JStr (if rq_secure rq then ''https'' else ''http'')),
      (''accessUrl'', JStr (buildAccessURL rq)), (''clientIp'', JStr (rq_host rq))]"

definition sessionHandleRequest :: "('k, 'st) launcher_env \<Rightarrow> web_request \<Rightarrow> ('k, 'st, unit) ex" where
  "sessionHandleRequest E rq =
     io_bind (io_catch (findSession E rq) (\<lambda>_. io_ret None)) (\<lambda>p.
     io_bind (session_text p ''username'' []) (\<lambda>username.
     io_bind (session_text p ''message''
         (localized E rq zh_gateway_ready ''The session gateway is ready. Please authenticate first.'')) (\<lambda>message.
     io_bind (session_text p ''lastError'' []) (\<lambda>lastError.
       sendPayload E (sessionPayload rq username message lastError)))))"

section \<open>Running the handlers\<close>

lemma on_web_run [simp]: "m (ex_web x) = (r, w) \<Longrightarrow> on_web m x = (r, x\<lparr>ex_web := w\<rparr>)"
  by (simp add: on_web_def)

lemma io_catch_run [simp]:
  "m s = (Inl e, s') \<Longrightarrow> io_catch m h s = h e s'"
  "m s = (Inr v, s') \<Longrightarrow> io_catch m h s = (Inr v, s')"
  by (simp_all add: io_catch_def)

lemma io_keeps_catch [intro]: "io_keeps P m \<Longrightarrow> (\<And>e. io_keeps P (h e)) \<Longrightarrow> io_keeps P (io_catch m h)"
  by (fastforce simp: io_keeps_def io_catch_def split: prod.splits sum.splits)

lemma io_keepsD: "io_keeps P m \<Longrightarrow> P s \<Longrightarrow> P (snd (m s))"
  by (simp add: io_keeps_def)

lemma io_keeps_on_web: "io_keeps P m \<Longrightarrow> io_keeps (\<lambda>x. P (ex_web x)) (on_web m)"
  by (auto simp: io_keeps_def on_web_def split: prod.splits)

text \<open>Writing a response does not touch the sessions.\<close>

lemma response_keeps [intro]:
  "io_keeps (\<lambda>x. P (ex_web x)) (setStatus code)" "io_keeps (\<lambda>x. P (ex_web x)) (sendJSON E payload)"
  "io_keeps (\<lambda>x. P (ex_web x)) (sendPayload E payload)"
proof -
  have "io_keeps (\<lambda>x. P (ex_web x)) (writeJSON E payload)"
    by (auto simp: io_keeps_def writeJSON_def Let_def split: send_result.split)
  then show "io_keeps (\<lambda>x. P (ex_web x)) (setStatus code)" "io_keeps (\<lambda>x. P (ex_web x)) (sendJSON E payload)"
    "io_keeps (\<lambda>x. P (ex_web x)) (sendPayload E payload)"
    by (auto simp: io_keeps_def setStatus_def sendJSON_def sendPayload_def jsonHeaders_def io_seq_def io_bind_def)
qed

abbreviation vouches :: "bool \<Rightarrow> (string option \<Rightarrow> string \<Rightarrow> bool) \<Rightarrow> ('k, 'st) exchange \<Rightarrow> bool" where
  "vouches v J x \<equiv> vouched memory_only wb_verifyAddress session_user session_client v J (ex_web x)"

lemmas web_keeps = web_sessions.keeps [THEN io_keeps_on_web]

lemma recoverSession_keeps: "io_keeps (vouches v J) (recoverSession E rq sessionId secs f e)"
proof -
  have "io_keeps (vouches v J) (io_bind (on_web (sessionCreate (le_web E) sessionId rq secs (le_context E))) (\<lambda>c. io_ret (f c)))"
    by (intro io_keeps_bind web_keeps io_keeps_ret)
  then show ?thesis by (cases e) (auto simp: recoverSession_def)
qed

lemma session_keeps:
  "io_keeps (vouches v J) (getSession E rq)" "io_keeps (vouches v J) (findSession E rq)"
  unfolding getSession_def findSession_def
  by (intro io_keeps_bind io_keeps_lift io_keeps_catch web_keeps recoverSession_keeps)+

lemma refuse_keeps: "io_keeps (vouches v J) (refuseLogin E c m)"
  unfolding refuseLogin_def by (intro io_keeps_seq web_keeps response_keeps) simp_all

lemma logout_keeps: "io_keeps (vouches v J) (logoutRequest E rq c)"
  unfolding logoutRequest_def
  by (intro io_keeps_bind io_keeps_seq io_keeps_lift web_keeps response_keeps) (simp add: io_keeps_def)

lemma probe_keeps: "io_keeps (vouches v J) (sessionHandleRequest E rq)"
proof -
  have "io_keeps (vouches v J) (session_text p key d)" for p key d
    by (simp add: io_keeps_def session_text_def split: option.split)
  then show ?thesis
    unfolding sessionHandleRequest_def
    by (intro io_keeps_bind io_keeps_catch session_keeps response_keeps io_keeps_ret)
qed

text \<open>Only an accepted login needs a reason.\<close>

lemma login_keeps:
  assumes "vouches v J x" and "v \<longrightarrow> session_client (ex_web x) c = rq_host rq"
    and "\<And>u. u = form_or form ''username'' \<Longrightarrow> le_authenticate E (rq_now rq) u (form_or form ''password'') = Inr True \<Longrightarrow>
      J (if v then Some (rq_host rq) else None) u"
  shows "vouches v J (snd (loginRequest E rq form c x))"
proof -
  let ?u = "form_or form ''username''" and ?p = "form_or form ''password''"
  let ?rest = "\<lambda>m. io_seq (on_web (sessionSet (le_web E) c ''message'' (AnyString m)))
      (io_seq (on_web (sessionErase (le_web E) c ''lastError'')) (sendJSON E (createPayload True ?u m [])))"
  have rest: "io_keeps (vouches v J) (?rest m)" for m by (intro io_keeps_seq web_keeps response_keeps) simp_all
  have accept: "vouches v J (snd (io_seq (on_web (sessionSet (le_web E) c ''username'' (AnyString ?u))) (?rest m) x))"
    if "le_authenticate E (rq_now rq) ?u ?p = Inr True" for m
  proof -
    obtain r w where run: "sessionSet (le_web E) c ''username'' (AnyString ?u) (ex_web x) = (r, w)" by fastforce
    have "J (if v then Some (session_client (ex_web x) c) else None) ?u" using assms(2,3) that by auto
    then have "vouches v J (x\<lparr>ex_web := w\<rparr>)" using web_sessions.sign_in_keeps [OF assms(1), of c ?u "le_web E"] by (simp add: run)
    then show ?thesis using rest [of m] by (cases r) (simp_all add: io_seq_def io_bind_def run io_keeps_def)
  qed
  show ?thesis
    using accept refuse_keeps [of v J E c] assms(1)
    by (auto simp: loginRequest_def Let_def io_bind_def io_keeps_def split: sum.split bool.split)
qed

lemma getSession_client:
  assumes "memory_only (ex_web x)" and "getSession E rq x = (Inr c, y)" and "wb_verifyAddress (ex_web x)"
  shows "session_client (ex_web y) c = rq_host rq"
proof -
  from assms(2) obtain i secs where cfg: "le_websessionId E = Inr i" "le_websessionTimeout E = Inr secs" "le_sessionManager E = Inr ()"
    by (auto simp: getSession_def io_bind_def io_lift_def split: sum.splits)
  obtain r w where get: "sessionGet (le_web E) i rq secs (le_context E) (ex_web x) = (r, w)" by fastforce
  have w: "memory_only w" using get_frame [OF assms(1), of "le_web E" i rq secs "le_context E"] by (simp add: get)
  show ?thesis
  proof (cases r)
    case (Inr d)
    then have "c = d" "y = x\<lparr>ex_web := w\<rparr>"
      using assms(2) by (simp_all add: getSession_def io_bind_def cfg get)
    then show ?thesis using get_accepted [OF assms(1) get [unfolded Inr] assms(3)] by simp
  next
    case (Inl e)
    let ?w = "snd (createImpl (le_web E) i rq secs (le_context E) w)"
    have "recoverSession E rq i secs (\<lambda>c. c) e (x\<lparr>ex_web := w\<rparr>) = (Inr c, y)"
      using assms(2) Inl by (simp add: getSession_def io_bind_def cfg get)
    then have "c = wb_next w" "ex_web y = ?w"
      using create_frame [OF w, of "le_web E" i rq secs "le_context E"]
      by (cases e; auto simp: recoverSession_def io_bind_def io_throw_def on_web_def sessionCreate_def split: if_splits prod.splits)+
    then show ?thesis using create_frame [OF w, of "le_web E" i rq secs "le_context E"] by simp
  qed
qed

lemma auth_keeps:
  assumes "vouches v J x"
    and "\<And>form u. mode = Login \<Longrightarrow> rq_method rq = ''POST'' \<Longrightarrow> rq_form rq = Inr form \<Longrightarrow> u = form_or form ''username'' \<Longrightarrow>
      le_authenticate E (rq_now rq) u (form_or form ''password'') = Inr True \<Longrightarrow> J (if v then Some (rq_host rq) else None) u"
  shows "vouches v J (snd (authHandleRequest E mode rq x))"
proof -
  have error: "io_keeps (vouches v J) (io_seq (setStatus code) (sendJSON E payload))" for code payload
    by (intro io_keeps_seq response_keeps)
  show ?thesis
  proof (cases "rq_method rq = ''POST''")
    case False
    then show ?thesis using error assms(1) by (simp add: authHandleRequest_def Let_def io_keeps_def)
  next
    case post: True
    have "vouches v J (snd (io_bind (io_lift (rq_form rq)) (\<lambda>form. io_bind (getSession E rq) (\<lambda>c.
        case mode of Login \<Rightarrow> loginRequest E rq form c | Logout \<Rightarrow> logoutRequest E rq c)) x))"
    proof (cases "rq_form rq")
      case (Inr form)
      obtain r y where get: "getSession E rq x = (r, y)" by fastforce
      have y: "vouches v J y" using session_keeps(1) [of v J E rq] assms(1) by (simp add: io_keeps_def) (metis get snd_conv)
      have wv: "wb_verifyAddress (ex_web x) = v" "memory_only (ex_web x)" using assms(1) by (simp_all add: vouched_def)
      show ?thesis
      proof (cases r)
        case (Inr c)
        have at: "v \<longrightarrow> session_client (ex_web y) c = rq_host rq" using getSession_client [OF wv(2) get [unfolded Inr]] wv(1) by simp
        show ?thesis
        proof (cases mode)
          case Login
          then show ?thesis
            using login_keeps [OF y at assms(2) [OF Login post \<open>rq_form rq = Inr form\<close>]] \<open>rq_form rq = Inr form\<close> get Inr
            by (simp add: io_bind_def)
        next
          case Logout
          then show ?thesis
            using logout_keeps [of v J E rq c] y \<open>rq_form rq = Inr form\<close> get Inr by (simp add: io_bind_def io_keeps_def)
        qed
      qed (simp add: io_bind_def Inr get y)
    qed (simp add: io_bind_def assms(1))
    then show ?thesis
      using error post by (fastforce simp: authHandleRequest_def io_keeps_def io_catch_def split: prod.splits sum.splits)
  qed
qed

section \<open>A history of requests\<close>

text \<open>What can happen to the sessions: the launcher's own requests, requests to other bundles, which only look their session up,
  the removal of a user's sessions and the end of a bundle. Every request starts a new response.\<close>

datatype web_event =
    AuthRequest auth_mode web_request
  | SessionRequest web_request
  | PageRequest string web_request
  | RemoveUser int string
  | BundleStops int nat

definition new_response :: "('k, 'st) exchange \<Rightarrow> ('k, 'st) exchange" where
  "new_response x = x\<lparr>ex_web := (ex_web x)\<lparr>wb_cookies := []\<rparr>, ex_status := HTTP_OK, ex_headers := [], ex_sent := []\<rparr>"

fun on_web_event :: "('k, 'st) launcher_env \<Rightarrow> web_event \<Rightarrow> ('k, 'st) exchange \<Rightarrow> ('k, 'st) exchange" where
  "on_web_event E (AuthRequest mode rq) x = snd (authHandleRequest E mode rq (new_response x))"
| "on_web_event E (SessionRequest rq) x = snd (sessionHandleRequest E rq (new_response x))"
| "on_web_event E (PageRequest app rq) x = snd (on_web (sessionFind (le_web E) app rq) (new_response x))"
| "on_web_event E (RemoveUser now u) x = snd (on_web (removeForUser (le_web E) now u) x)"
| "on_web_event E (BundleStops now b) x = snd (on_web (bundleStopping (le_web E) now b) x)"

text \<open>An accepted login of user \<open>u\<close> among the events, from host \<open>h\<close> unless any host will do.\<close>

definition logged_in :: "('k, 'st) launcher_env \<Rightarrow> web_event list \<Rightarrow> string option \<Rightarrow> string \<Rightarrow> bool" where
  "logged_in E events h u \<longleftrightarrow> (\<exists>rq form. AuthRequest Login rq \<in> set events \<and> rq_method rq = ''POST'' \<and> rq_form rq = Inr form \<and>
     form_or form ''username'' = u \<and> le_authenticate E (rq_now rq) u (form_or form ''password'') = Inr True \<and>
     (h = None \<or> h = Some (rq_host rq)))"

lemma new_response_vouches [simp]: "vouches v J (new_response x) = vouches v J x"
proof -
  have "session_user (ex_web (new_response x)) = session_user (ex_web x)"
    "session_client (ex_web (new_response x)) = session_client (ex_web x)"
    by (simp_all add: fun_eq_iff new_response_def session_user_def session_client_def)
  then show ?thesis by (simp add: vouched_def) (simp add: new_response_def memory_only_def)
qed

lemma event_keeps:
  assumes "vouches v (logged_in E events) x" and "e \<in> set events"
  shows "vouches v (logged_in E events) (on_web_event E e x)"
proof -
  have new: "vouches v (logged_in E events) (new_response x)" using assms(1) by simp
  show ?thesis
  proof (cases e)
    case (AuthRequest mode rq)
    show ?thesis unfolding AuthRequest on_web_event.simps
      by (rule auth_keeps [OF new]) (use assms(2) AuthRequest in \<open>auto simp: logged_in_def\<close>)
  next
    case (SessionRequest rq)
    then show ?thesis by (simp add: io_keepsD [OF probe_keeps new])
  next
    case (PageRequest app rq)
    then show ?thesis by (simp add: io_keepsD [OF web_keeps(1) new])
  next
    case (RemoveUser now u)
    then show ?thesis
      by (simp add: io_keepsD [OF io_keeps_on_web [OF web_sessions.quiet_keeps [OF housekeeping_quiet(1)]] assms(1)])
  next
    case (BundleStops now b)
    then show ?thesis
      by (simp add: io_keepsD [OF io_keeps_on_web [OF web_sessions.quiet_keeps [OF housekeeping_quiet(2)]] assms(1)])
  qed
qed

lemma history_keeps:
  "vouches v (logged_in E events) x \<Longrightarrow> set es \<subseteq> set events \<Longrightarrow> vouches v (logged_in E events) (fold (on_web_event E) es x)"
  by (induction es arbitrary: x) (simp_all add: event_keeps)

text \<open>What the session page tells a request.\<close>

definition says :: "('k, 'st) launcher_env \<Rightarrow> web_request \<Rightarrow> ('k, 'st) exchange \<Rightarrow> payload \<Rightarrow> bool" where
  "says E rq x payload \<longleftrightarrow> ex_sent (snd (sessionHandleRequest E rq (new_response x))) = [payload]"

lemma sessionPayload_members [simp]:
  "obj_get (sessionPayload rq username m e) ''authenticated'' = Some (JBool (username \<noteq> []))"
  "obj_get (sessionPayload rq username m e) ''username'' = Some (JStr username)"
  by (simp_all add: sessionPayload_def obj_get_def)

lemma says_payload:
  assumes "says E rq x payload"
  obtains p y username m e where "io_catch (findSession E rq) (\<lambda>_. io_ret None) (new_response x) = (Inr p, y)"
    "session_text p ''username'' [] y = (Inr username, y)" "payload = sessionPayload rq username m e"
proof -
  obtain r y where found: "io_catch (findSession E rq) (\<lambda>_. io_ret None) (new_response x) = (r, y)" by fastforce
  obtain p where p: "r = Inr p"
    using found by (auto simp: io_catch_def io_ret_def split: prod.splits sum.splits)
  have at: "session_text p key d y = (fst (session_text p key d y), y)" for key d
    by (simp add: session_text_def split: option.split)
  have sent: "ex_sent y = []"
  proof -
    have "io_keeps (\<lambda>x. ex_sent x = []) (on_web m)" for m by (auto simp: io_keeps_def on_web_def split: prod.splits)
    moreover have "io_keeps (\<lambda>x. ex_sent x = []) (recoverSession E rq i secs f e)" for i secs f e
      using calculation by (cases e) (auto simp: recoverSession_def)
    ultimately have "io_keeps (\<lambda>x. ex_sent x = []) (io_catch (findSession E rq) (\<lambda>_. io_ret None))"
      unfolding findSession_def by (intro io_keeps_catch io_keeps_bind io_keeps_lift io_keeps_ret)
    moreover have "ex_sent (new_response x) = []" by (simp add: new_response_def)
    ultimately have "ex_sent (snd (io_catch (findSession E rq) (\<lambda>_. io_ret None) (new_response x))) = []" by (rule io_keepsD)
    then show ?thesis by (simp add: found)
  qed
  have send: "ex_sent (snd (sendPayload E q y)) = [payload] \<Longrightarrow> payload = q" for q
    using sent by (auto simp: sendPayload_def jsonHeaders_def writeJSON_def io_seq_def io_bind_def Let_def split: send_result.splits if_splits)
  define zh where "zh = localized E rq zh_gateway_ready ''The session gateway is ready. Please authenticate first.''"
  have run: "sessionHandleRequest E rq (new_response x) =
      (case fst (session_text p ''username'' [] y) of Inl e \<Rightarrow> (Inl e, y) | Inr u \<Rightarrow>
       (case fst (session_text p ''message'' zh y) of Inl e \<Rightarrow> (Inl e, y) | Inr m \<Rightarrow>
       (case fst (session_text p ''lastError'' [] y) of Inl e \<Rightarrow> (Inl e, y) | Inr l \<Rightarrow> sendPayload E (sessionPayload rq u m l) y)))"
    by (cases p) (simp_all add: sessionHandleRequest_def io_bind_def found p zh_def session_text_def split: sum.split)
  show thesis
  proof (cases "fst (session_text p ''username'' [] y)")
    case (Inl e)
    then show thesis using assms sent by (simp add: says_def run)
  next
    case (Inr username)
    then obtain m l where "ex_sent (snd (sendPayload E (sessionPayload rq username m l) y)) = [payload]"
      using assms sent by (auto simp: says_def run split: sum.splits)
    then show thesis using send Inr at [of "''username''" "[]"] found p by (intro that [of p y username m l]) simp_all
  qed
qed

text \<open>A session the page speaks of was found, or is new.\<close>

lemma page_session:
  assumes "memory_only (ex_web x)" and "io_catch (findSession E rq) (\<lambda>_. io_ret None) x = (Inr (Some c), y)"
  obtains (found) i where "le_websessionId E = Inr i" "sessionFind (le_web E) i rq (ex_web x) = (Inr (Some c), ex_web y)"
    | (created) "ws_attrs (wb_heap (ex_web y) c) ''username'' = None"
proof -
  have run: "findSession E rq x = (Inr (Some c), y)"
    using assms(2) by (auto simp: io_catch_def split: prod.splits sum.splits)
  then obtain i secs where cfg: "le_websessionId E = Inr i" "le_websessionTimeout E = Inr secs" "le_sessionManager E = Inr ()"
    by (auto simp: findSession_def io_bind_def io_lift_def split: sum.splits)
  obtain r w where find: "sessionFind (le_web E) i rq (ex_web x) = (r, w)" by fastforce
  have w: "memory_only w"
    using find_frame [OF assms(1), of "le_web E" i rq "wb_context (ex_web x)"] find by (simp add: sessionFind_def)
  show thesis
  proof (cases r)
    case (Inr p)
    then have "p = Some c" "y = x\<lparr>ex_web := w\<rparr>" using run find cfg by (simp_all add: findSession_def io_bind_def)
    then show thesis using find cfg Inr by (intro found [of i]) simp_all
  next
    case (Inl e)
    then have "recoverSession E rq i secs Some e (x\<lparr>ex_web := w\<rparr>) = (Inr (Some c), y)"
      using run by (simp add: findSession_def io_bind_def cfg find)
    then have "sessionCreate (le_web E) i rq secs (le_context E) w = (Inr c, ex_web y)"
      by (cases e; auto simp: recoverSession_def io_bind_def io_throw_def on_web_def split: if_splits prod.splits sum.splits)+
    then have "c = wb_next w" "wb_heap (ex_web y) = wb_heap (made (le_web E) rq (fresh_session (le_web E) rq secs (le_context E) w) w)"
      by (simp_all add: sessionCreate_def create_run [OF w]) (metis announcing_same(2))
    then show thesis by (intro created) (simp add: made_def)
  qed
qed

section \<open>The session of a request\<close>

definition csrf_ok :: "nat \<Rightarrow> ('k, 'st) web \<Rightarrow> bool" where
  "csrf_ok c w \<longleftrightarrow> wb_csrfCookie w = [] \<or> (\<exists>token. csrfToken (wb_heap w c) = Inr token)"

lemma csrf_ok_iff: "csrf_ok c w \<longleftrightarrow> fst (addCSRFCookie app c w) = Inr ()"
  by (auto simp: csrf_ok_def addCSRFCookie_def split: sum.split)

text \<open>What a handler holds after \<open>getSession\<close>: a session that is live until it expires, was cookie_announced, and belongs to the client; what the
  request's own cookie still leads to is that session, or one that can no longer be cookie_announced.\<close>

definition session_at_hand :: "('k, 'st) launcher_env \<Rightarrow> string \<Rightarrow> web_request \<Rightarrow> nat \<Rightarrow> ('k, 'st) web \<Rightarrow> bool" where
  "session_at_hand E app rq c w \<longleftrightarrow>
     sessions_sound (le_web E) (rq_now rq) w \<and> cookie_announced app c w \<and> csrf_ok c w \<and> addressAccepted rq c w \<and> c < wb_next w \<and>
     (\<forall>now' \<ge> rq_now rq. now' < ws_expiration (wb_heap w c) \<longrightarrow> live (le_web E) now' w (ws_id (wb_heap w c)) = Some c) \<and>
     (\<forall>now' d. rq_now rq \<le> now' \<longrightarrow> getId app rq \<noteq> [] \<longrightarrow> live (le_web E) now' w (getId app rq) = Some d \<longrightarrow> d = c \<or> \<not> csrf_ok d w)"

lemma get_at_hand:
  assumes laws: "cache_laws (wv_cache (le_web E))" and ok: "sessions_sound (le_web E) t w" "t \<le> rq_now rq"
    and run: "findImpl (le_web E) app rq ctx w = (r, v)"
  shows "r = Inr (Some c) \<Longrightarrow> session_at_hand E app rq c v"
    and "r = Inr None \<or> r = Inl e \<Longrightarrow> createImpl (le_web E) app rq secs ctx' v = (Inr c, w') \<Longrightarrow> session_at_hand E app rq c w'"
proof -
  have found: "sessions_sound (le_web E) (rq_now rq) v \<and> (\<forall>now' d. rq_now rq \<le> now' \<longrightarrow> getId app rq \<noteq> [] \<longrightarrow>
        live (le_web E) now' v (getId app rq) = Some d \<longrightarrow> d < wb_next v \<and> (r = Inr (Some d) \<and> csrf_ok d v \<or> (\<exists>e. r = Inl e) \<and> \<not> csrf_ok d v)) \<and>
      (r = Inr (Some c) \<longrightarrow> session_at_hand E app rq c v)"
    using laws ok run
  proof (cases rule: find_cases)
    case absent
    then show ?thesis by auto
  next
    case (found d)
    have csrf: "csrf_ok d v \<longleftrightarrow> fst (addCSRFCookie app d w) = Inr ()"
      using found(8) by (simp add: csrf_ok_iff [symmetric] csrf_ok_def found(11) csrfToken_def getValue_def frame_def)
    have only: "d' = d" if "rq_now rq \<le> now'" "live (le_web E) now' v (getId app rq) = Some d'" for now' d'
      using that found(4,9,11) by (auto simp: kept_live_def split: if_splits)
    have "session_at_hand E app rq d v" if "r = Inr (Some d)"
      using found that csrf only unfolding session_at_hand_def
      by (auto simp: kept_live_def addressAccepted_def frame_def split: sum.splits)
    moreover have "r = Inr (Some d) \<and> csrf_ok d v \<or> (\<exists>e. r = Inl e) \<and> \<not> csrf_ok d v"
      using found(6) csrf by (auto split: sum.splits)
    ultimately show ?thesis using only found(5,6,7,12) by (auto split: sum.splits)
  qed
  then show "r = Inr (Some c) \<Longrightarrow> session_at_hand E app rq c v" by blast
  assume r: "r = Inr None \<or> r = Inl e" and create: "createImpl (le_web E) app rq secs ctx' v = (Inr c, w')"
  from laws conjunct1 [OF found] order_refl create show "session_at_hand E app rq c w'"
  proof (cases rule: create_facts)
    case 1
    have c: "c = wb_next v" "wb_csrfCookie w' = wb_csrfCookie v" "wb_verifyAddress w' = wb_verifyAddress v"
      using 1(1,3) by (simp_all add: frame_def)
    have token: "\<exists>token. csrfToken (fresh_session (le_web E) rq secs ctx' v) = Inr token"
      by (simp add: fresh_session_def newWebSession_def csrfToken_def getValue_def any_string_def)
    have old: "csrf_ok d w' = csrf_ok d v" if "d < wb_next v" for d using that c 1(7) by (simp add: csrf_ok_def)
    have at: "live (le_web E) now' w' j = (if j = ws_id (wb_heap w' c) then (if now' < ws_expiration (wb_heap w' c) then Some c else None)
        else live (le_web E) now' v j)" if "rq_now rq \<le> now'" for now' j
      using 1(4) that c(1) unfolding kept_live_def by blast
    have other: "d = c \<or> \<not> csrf_ok d w'"
      if "rq_now rq \<le> now'" "getId app rq \<noteq> []" "live (le_web E) now' w' (getId app rq) = Some d" for now' d
    proof (cases "live (le_web E) now' v (getId app rq) = Some d")
      case True
      then show ?thesis using found that(1,2) r old by auto
    next
      case False
      then show ?thesis using that(3) at [OF that(1)] by (simp split: if_splits)
    qed
    show ?thesis
      unfolding session_at_hand_def using 1 c token other at
      by (auto simp: addressAccepted_def csrf_ok_def)
  qed
qed

lemma getSession_at_hand:
  assumes laws: "cache_laws (wv_cache (le_web E))" and ok: "sessions_sound (le_web E) t (ex_web x)" "t \<le> rq_now rq"
    and app: "le_websessionId E = Inr app" and run: "getSession E rq x = (Inr c, y)"
  shows "session_at_hand E app rq c (ex_web y)"
proof -
  from run obtain secs where cfg: "le_websessionTimeout E = Inr secs" "le_sessionManager E = Inr ()"
    by (auto simp: getSession_def io_bind_def io_lift_def split: sum.splits)
  obtain r v where find: "findImpl (le_web E) app rq (le_context E) (ex_web x) = (r, v)" by fastforce
  note at = get_at_hand [OF laws ok find]
  have v: "memory_only v" using find_frame [of "ex_web x" "le_web E" app rq "le_context E"] ok(1) by (simp add: find sessions_sound_def)
  have caught: "io_catch (on_web (sessionGet (le_web E) app rq secs (le_context E))) (recoverSession E rq app secs (\<lambda>c. c)) x = (Inr c, y)"
    using run by (simp add: getSession_def io_bind_def cfg app)
  show ?thesis
  proof (cases "r = Inr None \<or> (\<exists>e. r = Inl e)")
    case True
    then have "createImpl (le_web E) app rq secs (le_context E) v = (Inr c, ex_web y)"
    proof (elim disjE exE)
      assume "r = Inr None"
      then have "sessionGet (le_web E) app rq secs (le_context E) (ex_web x) = createImpl (le_web E) app rq secs (le_context E) v"
        by (simp add: sessionGet_def io_bind_def find)
      then show ?thesis using caught by (auto simp: io_catch_def on_web_def create_run [OF v])
    next
      fix e assume "r = Inl e"
      then have "recoverSession E rq app secs (\<lambda>c. c) e (x\<lparr>ex_web := v\<rparr>) = (Inr c, y)"
        using caught by (simp add: io_catch_def on_web_def sessionGet_def io_bind_def find)
      then show ?thesis
        by (cases e; auto simp: recoverSession_def io_bind_def io_throw_def on_web_def sessionCreate_def split: if_splits prod.splits sum.splits)+
    qed
    then show ?thesis using at(2) True by blast
  next
    case False
    then obtain d where d: "r = Inr (Some d)" by (cases r) auto
    then have "d = c" "v = ex_web y" using caught by (auto simp: io_catch_def on_web_def sessionGet_def io_bind_def find)
    then show ?thesis using at(1) d by blast
  qed
qed

text \<open>A request whose cookie leads to no session that is signed in is told so.\<close>

definition anonymous :: "('k, 'st) launcher_env \<Rightarrow> int \<Rightarrow> string \<Rightarrow> ('k, 'st) web \<Rightarrow> bool" where
  "anonymous E now i w \<longleftrightarrow> sessions_sound (le_web E) now w \<and>
     (\<forall>now' \<ge> now. \<forall>d. i \<noteq> [] \<longrightarrow> live (le_web E) now' w i = Some d \<longrightarrow> ws_attrs (wb_heap w d) ''username'' = None \<or> \<not> csrf_ok d w)"

lemma new_response_web [simp]:
  "wb_heap (ex_web (new_response x)) = wb_heap (ex_web x)" "csrf_ok d (ex_web (new_response x)) = csrf_ok d (ex_web x)"
  "live E now (ex_web (new_response x)) i = live E now (ex_web x) i" "sessions_sound E t (ex_web (new_response x)) = sessions_sound E t (ex_web x)"
  "addressAccepted rq c (ex_web (new_response x)) = addressAccepted rq c (ex_web x)"
  "memory_only (ex_web (new_response x)) = memory_only (ex_web x)" "wb_next (ex_web (new_response x)) = wb_next (ex_web x)"
  by (simp_all add: new_response_def csrf_ok_def live_def sessions_sound_def memory_only_def addressAccepted_def)

lemma anonymous_says:
  assumes laws: "cache_laws (wv_cache (le_web E))" and app: "le_websessionId E = Inr app"
    and anon: "anonymous E now (getId app rq) (ex_web x)" "now \<le> rq_now rq" and page: "says E rq x payload"
  shows "obj_get payload ''authenticated'' = Some (JBool False)"
proof -
  have ok: "sessions_sound (le_web E) now (ex_web (new_response x))" using anon(1) by (simp add: anonymous_def)
  then have mem: "memory_only (ex_web (new_response x))" by (simp add: sessions_sound_def)
  obtain p y username m e where y: "io_catch (findSession E rq) (\<lambda>_. io_ret None) (new_response x) = (Inr p, y)"
      "session_text p ''username'' [] y = (Inr username, y)" "payload = sessionPayload rq username m e"
    using page by (rule says_payload)
  have "username = []"
  proof (cases p)
    case None
    then show ?thesis using y(2) by (simp add: session_text_def)
  next
    case (Some c)
    have "ws_attrs (wb_heap (ex_web y) c) ''username'' = None"
      using mem y(1) [unfolded Some]
    proof (cases rule: page_session)
      case (found i)
      then have "findImpl (le_web E) app rq (wb_context (ex_web (new_response x))) (ex_web (new_response x)) = (Inr (Some c), ex_web y)"
        using app by (simp add: sessionFind_def)
      with laws ok anon(2) show ?thesis
      proof (cases rule: find_cases)
        case (found d)
        then have "d = c" "csrf_ok d (ex_web x)"
          using csrf_ok_iff [of d "ex_web (new_response x)" app] by (simp_all split: sum.splits)
        then show ?thesis using found(1,2,11) anon unfolding anonymous_def by auto
      qed simp
    qed
    then show ?thesis using y(2) by (simp add: Some session_text_def getValueOr_def)
  qed
  then show ?thesis by (simp add: y(3))
qed

text \<open>What a request that ends the session at hand leaves behind.\<close>

lemma live_on_session [simp]:
  "live E now (on_session c f w) i = live E now w i" "wb_next (on_session c f w) = wb_next w"
  "wb_csrfCookie (on_session c f w) = wb_csrfCookie w" "wb_verifyAddress (on_session c f w) = wb_verifyAddress w"
  "wb_heap (on_session c f w) d = (if d = c then f (wb_heap w c) else wb_heap w d)" "wb_cookies (on_session c f w) = wb_cookies w"
  by (simp_all add: on_session_def live_def)

lemma sound_on_session:
  "sessions_sound E t w \<Longrightarrow> (\<And>s. ws_id (f s) = ws_id s) \<Longrightarrow> (\<And>s. ws_stored (f s) = ws_stored s) \<Longrightarrow> sessions_sound E t (on_session c f w)"
  by (simp add: sessions_sound_def)

lemma erase_user_anonymous:
  assumes "session_at_hand E app rq c w"
  shows "anonymous E (rq_now rq) (getId app rq) (on_session c (\<lambda>s. s\<lparr>ws_attrs := (ws_attrs s)(''username'' := None)\<rparr>) w)"
  using assms sound_on_session [of "le_web E" "rq_now rq" w "\<lambda>s. s\<lparr>ws_attrs := (ws_attrs s)(''username'' := None)\<rparr>" c]
  unfolding session_at_hand_def anonymous_def by (auto simp: csrf_ok_def)

lemma remove_anonymous:
  assumes "cache_laws (wv_cache (le_web E))" and "session_at_hand E app rq c w"
  shows "anonymous E (rq_now rq) (getId app rq) (dropped (le_web E) (rq_now rq) (ws_id (wb_heap w c)) w)"
proof -
  let ?w = "dropped (le_web E) (rq_now rq) (ws_id (wb_heap w c)) w"
  have live: "live (le_web E) now' ?w j = (if j = ws_id (wb_heap w c) then None else live (le_web E) now' w j)" if "rq_now rq \<le> now'" for now' j
    using that by (simp add: live_def dropped_def cache_lawsD(4) [OF assms(1)])
  have same: "wb_heap ?w = wb_heap w" "wb_next ?w = wb_next w" "csrf_ok d ?w = csrf_ok d w" "memory_only ?w = memory_only w" for d
    by (simp_all add: dropped_def csrf_ok_def memory_only_def)
  have at: "sessions_sound (le_web E) (rq_now rq) w"
      "\<And>now' d. rq_now rq \<le> now' \<Longrightarrow> getId app rq \<noteq> [] \<Longrightarrow> live (le_web E) now' w (getId app rq) = Some d \<Longrightarrow> d = c \<or> \<not> csrf_ok d w"
    using assms(2) by (auto simp: session_at_hand_def)
  have "sessions_sound (le_web E) (rq_now rq) ?w" using at(1) live by (auto simp: sessions_sound_def same split: if_splits)
  moreover have "\<not> csrf_ok d ?w" if "rq_now rq \<le> now'" "getId app rq \<noteq> []" "live (le_web E) now' ?w (getId app rq) = Some d" for now' d
  proof -
    have old: "live (le_web E) now' w (getId app rq) = Some d" "getId app rq \<noteq> ws_id (wb_heap w c)"
      using that live by (simp_all split: if_splits)
    then have "d \<noteq> c" using at(1) that(1) by (auto simp: sessions_sound_def)
    then show ?thesis using at(2) [OF that(1,2) old(1)] same by blast
  qed
  ultimately show ?thesis by (auto simp: anonymous_def)
qed

lemma set_anonymous:
  assumes "key \<noteq> ''username''" and "key \<noteq> CSRF_TOKEN"
  shows "io_keeps (anonymous E now i) (sessionSet (le_web E) c key v)"
  unfolding io_keeps_def
proof (intro allI impI)
  fix w :: "('a, 'b) web" assume "anonymous E now i w"
  let ?f = "\<lambda>s. s\<lparr>ws_attrs := (ws_attrs s)(key \<mapsto> v)\<rparr>"
  have mem: "memory_only w" using \<open>anonymous E now i w\<close> by (simp add: anonymous_def sessions_sound_def)
  have "csrf_ok d (on_session c ?f w) = csrf_ok d w" for d using assms(2) by (simp add: csrf_ok_def csrfToken_def getValue_def)
  moreover have "sessions_sound (le_web E) now (on_session c ?f w)"
    using \<open>anonymous E now i w\<close> by (intro sound_on_session) (simp_all add: anonymous_def)
  ultimately show "anonymous E now i (snd (sessionSet (le_web E) c key v w))"
    using \<open>anonymous E now i w\<close> assms(1) by (auto simp: set_memory [OF mem] anonymous_def)
qed

lemma refuse_anonymous:
  assumes "session_at_hand E app rq c (ex_web y)"
  shows "anonymous E (rq_now rq) (getId app rq) (ex_web (snd (refuseLogin E c m y)))"
proof -
  let ?P = "\<lambda>y. anonymous E (rq_now rq) (getId app rq) (ex_web y)"
  have mem: "memory_only (ex_web y)" using assms by (simp add: session_at_hand_def sessions_sound_def)
  have "io_keeps ?P (io_seq (on_web (sessionSet (le_web E) c ''message'' (AnyString m)))
    (io_seq (on_web (sessionSet (le_web E) c ''lastError'' (AnyString m))) (sendJSON E (createPayload False [] m m))))"
    by (intro io_keeps_seq io_keeps_on_web set_anonymous response_keeps) (simp_all add: CSRF_TOKEN_def)
  from io_keepsD [OF this, of "y\<lparr>ex_web := on_session c (\<lambda>s. s\<lparr>ws_attrs := (ws_attrs s)(''username'' := None)\<rparr>) (ex_web y)\<rparr>"]
  show ?thesis using erase_user_anonymous [OF assms] by (simp add: refuseLogin_def io_seq_def io_bind_def set_memory [OF mem])
qed

text \<open>The requests that end it: a logout, and a login without credentials or with credentials that are refused.\<close>

definition ends_session :: "('k, 'st) launcher_env \<Rightarrow> auth_mode \<Rightarrow> web_request \<Rightarrow> (string \<Rightarrow> string option) \<Rightarrow> nat \<Rightarrow> ('k, 'st) web \<Rightarrow> bool" where
  "ends_session E mode rq form c w \<longleftrightarrow>
     (let username = form_or form ''username''; password = form_or form ''password'' in
      case mode of
        Logout \<Rightarrow> le_sessionManager E = Inr () \<and> (\<exists>u. getValueOr ''username'' [] (wb_heap w c) = Inr u)
      | Login \<Rightarrow> username = [] \<or> password = [] \<or>
          le_authService E = Inr () \<and> le_authenticate E (rq_now rq) username password = Inr False)"

lemma ending_anonymous:
  assumes laws: "cache_laws (wv_cache (le_web E))" and at: "session_at_hand E app rq c (ex_web y)"
    and ends: "ends_session E mode rq form c (ex_web y)"
  shows "anonymous E (rq_now rq) (getId app rq)
    (ex_web (snd ((case mode of Login \<Rightarrow> loginRequest E rq form c | Logout \<Rightarrow> logoutRequest E rq c) y)))"
proof (cases mode)
  case Login
  then show ?thesis
    using ends refuse_anonymous [OF at] by (auto simp: ends_session_def loginRequest_def Let_def io_bind_def)
next
  case Logout
  have mem: "memory_only (ex_web y)" using at by (simp add: session_at_hand_def sessions_sound_def)
  let ?P = "\<lambda>y. anonymous E (rq_now rq) (getId app rq) (ex_web y)"
  have "sessionRemove (le_web E) (rq_now rq) c (ex_web y) = (Inr (), dropped (le_web E) (rq_now rq) (ws_id (wb_heap (ex_web y) c)) (ex_web y))"
    using mem by (simp add: sessionRemove_def removeImpl_def removeById_def io_seq_def io_bind_def dropped_def memory_only_def)
  moreover obtain u where "getValueOr ''username'' [] (wb_heap (ex_web y) c) = Inr u" "le_sessionManager E = Inr ()"
    using ends Logout by (auto simp: ends_session_def)
  ultimately show ?thesis
    using io_keepsD [OF response_keeps(2) [of "anonymous E (rq_now rq) (getId app rq)"]] remove_anonymous [OF laws at] Logout
    by (simp add: logoutRequest_def io_bind_def io_seq_def)
qed

lemma auth_run:
  assumes "rq_method rq = ''POST''" and "rq_form rq = Inr form" and "getSession E rq x = (Inr c, y)"
    and "P (ex_web (snd ((case mode of Login \<Rightarrow> loginRequest E rq form c | Logout \<Rightarrow> logoutRequest E rq c) y)))"
  shows "P (ex_web (snd (authHandleRequest E mode rq x)))"
proof -
  obtain r z where body: "(case mode of Login \<Rightarrow> loginRequest E rq form c | Logout \<Rightarrow> logoutRequest E rq c) y = (r, z)" by fastforce
  have error: "io_keeps (\<lambda>x. P (ex_web x)) (io_seq (setStatus code) (sendJSON E payload))" for code payload
    by (intro io_keeps_seq response_keeps)
  show ?thesis
    using assms(4) io_keepsD [OF error, of z]
    by (cases r) (simp_all add: authHandleRequest_def assms(1-3) io_bind_def io_catch_def body)
qed

text \<open>The session at hand once somebody is signed in.\<close>

definition signed_in :: "nat \<Rightarrow> string \<Rightarrow> string \<Rightarrow> ('k, 'st) web \<Rightarrow> ('k, 'st) web" where
  "signed_in c u m = on_session c (\<lambda>s. s\<lparr>ws_attrs := (ws_attrs s)
     (''username'' := Some (AnyString u), ''message'' := Some (AnyString m), ''lastError'' := None)\<rparr>)"

lemma login_accepted:
  assumes "memory_only (ex_web y)" and "le_authService E = Inr ()"
    and "form_or form ''username'' = u" and "u \<noteq> []" and "form_or form ''password'' \<noteq> []"
    and "le_authenticate E (rq_now rq) u (form_or form ''password'') = Inr True"
  obtains m where "ex_web (snd (loginRequest E rq form c y)) = signed_in c u m (ex_web y)"
proof -
  define m where "m = (if requestLocale E rq = ''en'' then ''Account '' @ u @ '' authenticated successfully.'' else zh_account @ u @ zh_verified)"
  have "io_keeps (\<lambda>x. ex_web x = signed_in c u m (ex_web y)) (sendJSON E (createPayload True u m []))"
    by (rule response_keeps)
  from io_keepsD [OF this, of "y\<lparr>ex_web := signed_in c u m (ex_web y)\<rparr>"]
  have "ex_web (snd (loginRequest E rq form c y)) = signed_in c u m (ex_web y)"
    using assms
    by (simp add: loginRequest_def Let_def io_bind_def io_seq_def set_memory m_def [symmetric])
      (simp add: signed_in_def on_session_def fun_upd_twist)
  then show thesis by (rule that)
qed

text \<open>Someone who holds a session at hand is told so while it lives.\<close>

lemma signed_in_says:
  assumes laws: "cache_laws (wv_cache (le_web E))" and at: "session_at_hand E app rq c w" and z: "ex_web z = signed_in c u m w"
    and cfg: "le_websessionId E = Inr app" "le_sessionManager E = Inr ()" "le_websessionTimeout E = Inr secs"
    and later: "rq_now rq \<le> rq_now rq'" "rq_now rq' < ws_expiration (wb_heap w c)"
    and same: "getId app rq' = ws_id (wb_heap w c)" "getId app rq' \<noteq> []" "rq_host rq' = rq_host rq"
    and sent: "le_send E (ex_sends z) = Sent"
  shows "says E rq' z (sessionPayload rq' u m [])"
proof -
  let ?w = "ex_web (new_response z)"
  have facts: "sessions_sound (le_web E) (rq_now rq) w" "csrf_ok c w" "addressAccepted rq c w"
      "live (le_web E) (rq_now rq') w (ws_id (wb_heap w c)) = Some c"
    using at later unfolding session_at_hand_def by auto
  have w: "sessions_sound (le_web E) (rq_now rq) ?w" "csrf_ok c ?w" "addressAccepted rq' c ?w"
      "live (le_web E) (rq_now rq') ?w (getId app rq') = Some c"
  proof -
    have "sessions_sound (le_web E) (rq_now rq) (signed_in c u m w)" using facts(1) by (simp add: signed_in_def sound_on_session)
    moreover have "csrf_ok c (signed_in c u m w)"
      using facts(2) by (simp add: signed_in_def csrf_ok_def csrfToken_def getValue_def CSRF_TOKEN_def)
    moreover have "addressAccepted rq' c (signed_in c u m w)"
      using facts(3) same(3) by (simp add: signed_in_def addressAccepted_def)
    moreover have "live (le_web E) (rq_now rq') (signed_in c u m w) (getId app rq') = Some c"
      using facts(4) same(1) by (simp add: signed_in_def)
    ultimately show "sessions_sound (le_web E) (rq_now rq) ?w" "csrf_ok c ?w" "addressAccepted rq' c ?w"
      "live (le_web E) (rq_now rq') ?w (getId app rq') = Some c" by (simp_all add: z)
  qed
  obtain r v where find: "findImpl (le_web E) app rq' (wb_context ?w) ?w = (r, v)" by fastforce
  have "r = Inr (Some c) \<and> ws_attrs (wb_heap v c) = ws_attrs (wb_heap (signed_in c u m w) c)"
    using laws w(1) later(1) find
  proof (cases rule: find_cases)
    case absent
    then show ?thesis using w(3,4) same(2) find find_found [of ?w app rq' c "le_web E" "wb_context ?w"] w(1)
      by (auto simp: sessions_sound_def live_def cache_lawsD(1) [OF laws] split: sum.splits)
  next
    case (found d)
    then have "d = c" using w(4) by simp
    then have "fst (addCSRFCookie app d ?w) = Inr ()" using w(2) csrf_ok_iff by blast
    then show ?thesis using found(6,11) \<open>d = c\<close> by (simp add: z)
  qed
  then have v: "r = Inr (Some c)" "ws_attrs (wb_heap v c) ''username'' = Some (AnyString u)" "ws_attrs (wb_heap v c) ''message'' = Some (AnyString m)"
      "ws_attrs (wb_heap v c) ''lastError'' = None" by (simp_all add: signed_in_def)
  have "io_catch (findSession E rq') (\<lambda>_. io_ret None) (new_response z) = (Inr (Some c), (new_response z)\<lparr>ex_web := v\<rparr>)"
    by (simp add: io_catch_def findSession_def io_bind_def cfg sessionFind_def find v(1))
  moreover have "ex_sends ((new_response z)\<lparr>ex_web := v\<rparr>) = ex_sends z" by (simp add: new_response_def)
  ultimately show ?thesis
    using sent v
    by (simp add: says_def sessionHandleRequest_def io_bind_def session_text_def getValueOr_def any_string_def sendPayload_def
        io_seq_def jsonHeaders_def writeJSON_def Let_def) (simp add: new_response_def)
qed

section \<open>A launcher for the witnesses\<close>

definition sample_launcher :: "((string \<times> nat \<times> int) list, unit) launcher_env" where
  "sample_launcher =
     \<lparr>le_web = \<lparr>wv_cache = sample_cache, wv_store = no_store, wv_random = (\<lambda>_. []), wv_digest = (\<lambda>serial _ _ _. show_nat (unat serial))\<rparr>,
      le_poco = sample_poco, le_toLower = (\<lambda>s. s), le_context = 0, le_sessionManager = Inr (), le_websessionId = Inr ''myiot.webui'',
      le_websessionTimeout = Inr 7200, le_authService = Inr (),
      le_authenticate = (\<lambda>_ u p. Inr (u = ''admin'' \<and> p = ''secret'')), le_send = (\<lambda>_. Sent)\<rparr>"

definition launcher_start :: "((string \<times> nat \<times> int) list, unit) exchange" where
  "launcher_start = \<lparr>ex_web = newSessionManager 0 [] () (\<lambda>_. blank_session), ex_status = HTTP_OK, ex_headers = [], ex_sent = [], ex_sends = 0\<rparr>"

definition sample_request :: "int \<Rightarrow> string option \<Rightarrow> string \<Rightarrow> web_request" where
  "sample_request now cookie password =
     \<lparr>rq_now = now, rq_method = ''POST'', rq_host = ''10.0.0.2'', rq_clientAddress = ''10.0.0.2:4711'', rq_cookie = (\<lambda>_. cookie),
      rq_header = (\<lambda>_. Some ''en''), rq_form = Inr [''username'' \<mapsto> ''admin'', ''password'' \<mapsto> password],
      rq_serverHost = ''10.0.0.1'', rq_serverPort = 80, rq_serverAddress = ''10.0.0.1:80'', rq_serverIPv6 = False, rq_secure = False\<rparr>"

lemma launcher_start_sound: "sessions_sound (le_web sample_launcher) 0 (ex_web launcher_start)"
  by (simp add: sessions_sound_def memory_only_def live_def launcher_start_def newSessionManager_def blank_session_def sample_launcher_def sample_cache_def)

lemma sample_launcher_laws [simp]:
  "cache_laws (wv_cache (le_web sample_launcher))" "le_websessionId sample_launcher = Inr ''myiot.webui''"
  "le_authService sample_launcher = Inr ()" "le_sessionManager sample_launcher = Inr ()"
  "le_authenticate sample_launcher now u p = Inr (u = ''admin'' \<and> p = ''secret'')" "le_send sample_launcher n = Sent"
  by (simp_all add: sample_launcher_def sample_cache_laws)

lemma sample_request_fields [simp]:
  "rq_now (sample_request now cookie p) = now" "rq_method (sample_request now cookie p) = ''POST''"
  "rq_form (sample_request now cookie p) = Inr [''username'' \<mapsto> ''admin'', ''password'' \<mapsto> p]"
  "rq_host (sample_request now cookie p) = ''10.0.0.2''" "rq_cookie (sample_request now cookie p) k = cookie"
  by (simp_all add: sample_request_def)

lemma launcher_start_fields [simp]: "memory_only (ex_web launcher_start)" "wb_next (ex_web launcher_start) = 0"
    "session_user (ex_web launcher_start) c = None" "wb_verifyAddress (ex_web launcher_start)"
  by (simp_all add: launcher_start_def newSessionManager_def memory_only_def blank_session_def session_user_def)

lemma get_without_cookie:
  "memory_only w \<Longrightarrow> getId app rq = [] \<Longrightarrow> sessionGet E app rq secs ctx w = createImpl E app rq secs ctx w"
  by (simp add: sessionGet_def find_memory io_bind_def)

lemma first_session:
  assumes "x = launcher_start \<or> x = new_response launcher_start"
  obtains y where "getSession sample_launcher (sample_request 5 None p) x = (Inr 0, y)" "ws_id (wb_heap (ex_web y) 0) = ''1''"
    "ws_expiration (wb_heap (ex_web y) 0) = 7200000005"
proof -
  let ?rq = "sample_request 5 None p" and ?E = "le_web sample_launcher"
  have x: "memory_only (ex_web x)" "wb_next (ex_web x) = 0" "wb_serial (ex_web x) = 0"
    using assms by (auto simp: new_response_def launcher_start_def newSessionManager_def memory_only_def blank_session_def)
  have "le_websessionTimeout sample_launcher = Inr 7200" by (simp add: sample_launcher_def)
  then have run: "getSession sample_launcher ?rq x = (Inr 0, x\<lparr>ex_web := announcing ''myiot.webui'' 0
      (made ?E ?rq (fresh_session ?E ?rq 7200 (le_context sample_launcher) (ex_web x)) (ex_web x))\<rparr>)"
    using x by (simp add: getSession_def io_bind_def io_catch_def on_web_def get_without_cookie getId_def create_run)
  have "show_nat 1 = ''1''" by code_simp
  then have "ws_id (fresh_session ?E ?rq 7200 (le_context sample_launcher) (ex_web x)) = ''1''"
    "ws_expiration (fresh_session ?E ?rq 7200 (le_context sample_launcher) (ex_web x)) = 7200000005"
    using x(3) by (simp_all add: fresh_session_def newWebSession_def new_token_def sample_launcher_def)
  then show thesis using x(2) by (intro that [OF run]) (simp_all add: made_def)
qed

lemma login_signs_in:
  assumes "cache_laws (wv_cache (le_web E))" and "sessions_sound (le_web E) t (ex_web x)" and "t \<le> rq_now rq" and "le_websessionId E = Inr app"
    and "rq_method rq = ''POST''" and "rq_form rq = Inr form" and "getSession E rq x = (Inr c, y)" and "le_authService E = Inr ()"
    and "form_or form ''username'' = u" and "u \<noteq> []" and "form_or form ''password'' \<noteq> []"
    and "le_authenticate E (rq_now rq) u (form_or form ''password'') = Inr True"
  obtains m where "session_at_hand E app rq c (ex_web y)" "ex_web (snd (authHandleRequest E Login rq x)) = signed_in c u m (ex_web y)"
proof -
  note at = getSession_at_hand [OF assms(1-4,7)]
  then have "memory_only (ex_web y)" by (simp add: session_at_hand_def sessions_sound_def)
  from login_accepted [OF this assms(8-12)]
  obtain m where "ex_web (snd (loginRequest E rq form c y)) = signed_in c u m (ex_web y)" .
  then have "ex_web (snd (authHandleRequest E Login rq x)) = signed_in c u m (ex_web y)"
    using auth_run [OF assms(5-7), where mode = Login and P = "\<lambda>w. w = signed_in c u m (ex_web y)"] by simp
  with at show thesis by (rule that)
qed

section \<open>Properties\<close>

text \<open>C11: Whoever the session page takes a visitor for has logged in: after any history of requests, removals and bundle ends that starts
  with nobody signed in, a request is told that it is authenticated as a user only if an earlier login gave that user's name with a
  password the authentication service accepted, from the same host when addresses are verified.\<close>

theorem authenticated_only_by_login:
  assumes "memory_only (ex_web x)" and "\<And>c. session_user (ex_web x) c = None"
    and "says E rq (fold (on_web_event E) events x) payload"
    and "obj_get payload ''authenticated'' = Some (JBool True)" and "obj_get payload ''username'' = Some (JStr u)"
  shows "u \<noteq> [] \<and> logged_in E events (if wb_verifyAddress (ex_web x) then Some (rq_host rq) else None) u"
proof -
  let ?v = "wb_verifyAddress (ex_web x)" and ?J = "logged_in E events"
  let ?x = "new_response (fold (on_web_event E) events x)"
  have "vouches ?v ?J x" using assms(1,2) by (simp add: vouched_def)
  then have x: "vouches ?v ?J ?x" by (simp add: history_keeps)
  obtain p y username m e where page: "io_catch (findSession E rq) (\<lambda>_. io_ret None) ?x = (Inr p, y)"
      "session_text p ''username'' [] y = (Inr username, y)" "payload = sessionPayload rq username m e"
    using assms(3) by (rule says_payload)
  then have u: "username = u" "u \<noteq> []" using assms(4,5) by auto
  then obtain c where c: "p = Some c" using page(2) by (cases p) (simp_all add: session_text_def)
  have y: "vouches ?v ?J y"
    using io_keepsD [OF io_keeps_catch [OF session_keeps(2) io_keeps_ret] x, of E rq "\<lambda>_. None"] page(1) by simp
  have user: "session_user (ex_web y) c = Some u"
    using page(2) u by (auto simp: c session_text_def getValueOr_def any_string_def session_user_def split: option.splits any.splits)
  have "session_client (ex_web y) c = rq_host rq" if ?v
  proof -
    have "memory_only (ex_web ?x)" "wb_verifyAddress (ex_web ?x)" using x that by (simp_all add: vouched_def)
    moreover from this(1) page(1) [unfolded c]
    obtain i where "sessionFind (le_web E) i rq (ex_web ?x) = (Inr (Some c), ex_web y)"
      by (rule page_session) (use user in \<open>auto simp: session_user_def\<close>)
    ultimately show ?thesis by (intro web_sessions.find_client)
  qed
  moreover have "?J (if ?v then Some (session_client (ex_web y) c) else None) u"
    using y user unfolding vouched_def by blast
  ultimately show ?thesis using u(2) by (cases ?v) simp_all
qed

text \<open>C20: A login that is accepted opens a session: the response announces its identifier, and until the session expires every request
  from the same host with that identifier in its cookie is told by the session page that it is authenticated as the user, whatever
  cookie the login itself came with.\<close>

theorem login_opens_session:
  assumes "cache_laws (wv_cache (le_web E))" and "sessions_sound (le_web E) t (ex_web x)" and "t \<le> rq_now rq" and "le_websessionId E = Inr app"
    and "rq_method rq = ''POST''" and "rq_form rq = Inr form" and "getSession E rq x = (Inr c, y)" and "le_authService E = Inr ()"
    and "form_or form ''username'' = u" and "u \<noteq> []" and "form_or form ''password'' \<noteq> []"
    and "le_authenticate E (rq_now rq) u (form_or form ''password'') = Inr True"
  shows "let z = snd (authHandleRequest E Login rq x); i = ws_id (wb_heap (ex_web z) c) in
    cookie_announced app c (ex_web z) \<and> session_user (ex_web z) c = Some u \<and>
    (\<forall>rq'. rq_now rq \<le> rq_now rq' \<longrightarrow> rq_now rq' < ws_expiration (wb_heap (ex_web z) c) \<longrightarrow> rq_cookie rq' (cookieName app) = Some i \<longrightarrow>
       i \<noteq> [] \<longrightarrow> rq_host rq' = rq_host rq \<longrightarrow> le_send E (ex_sends z) = Sent \<longrightarrow>
       (\<exists>payload. says E rq' z payload \<and> obj_get payload ''authenticated'' = Some (JBool True) \<and> obj_get payload ''username'' = Some (JStr u)))"
proof -
  let ?z = "snd (authHandleRequest E Login rq x)"
  from assms(7) obtain secs where cfg: "le_websessionTimeout E = Inr secs" "le_sessionManager E = Inr ()"
    by (auto simp: getSession_def io_bind_def io_lift_def split: sum.splits)
  obtain m where at: "session_at_hand E app rq c (ex_web y)" and z: "ex_web ?z = signed_in c u m (ex_web y)"
    by (rule login_signs_in [OF assms])
  have "cookie_announced app c (ex_web ?z)" "session_user (ex_web ?z) c = Some u"
    using at by (simp_all add: z signed_in_def session_at_hand_def cookie_announced_def session_user_def)
  moreover have "\<exists>payload. says E rq' ?z payload \<and> obj_get payload ''authenticated'' = Some (JBool True) \<and> obj_get payload ''username'' = Some (JStr u)"
    if "rq_now rq \<le> rq_now rq'" "rq_now rq' < ws_expiration (wb_heap (ex_web ?z) c)"
      "rq_cookie rq' (cookieName app) = Some (ws_id (wb_heap (ex_web ?z) c))" "ws_id (wb_heap (ex_web ?z) c) \<noteq> []"
      "rq_host rq' = rq_host rq" "le_send E (ex_sends ?z) = Sent" for rq'
    using signed_in_says [OF assms(1) at z assms(4) cfg(2,1) that(1) _ _ _ that(5,6)] that(2-4) assms(10)
    by (intro exI [of _ "sessionPayload rq' u m []"]) (simp add: z signed_in_def getId_def)
  ultimately show ?thesis by (auto simp: Let_def)
qed



lemma login_opens_session_witness:
  "\<exists>z. z = snd (authHandleRequest sample_launcher Login (sample_request 5 None ''secret'') launcher_start) \<and>
    cookie_announced ''myiot.webui'' 0 (ex_web z) \<and> session_user (ex_web z) 0 = Some ''admin''"
proof -
  obtain y where "getSession sample_launcher (sample_request 5 None ''secret'') launcher_start = (Inr 0, y)"
    by (rule first_session [OF disjI1 [OF refl]])
  from login_opens_session [OF _ launcher_start_sound _ _ _ _ this, of "''myiot.webui''" "[''username'' \<mapsto> ''admin'', ''password'' \<mapsto> ''secret'']" "''admin''"]
  show ?thesis by (auto simp: Let_def form_or_def)
qed

lemma authenticated_only_by_login_witness:
  "\<exists>payload. says sample_launcher (sample_request 9 (Some ''1'') []) (fold (on_web_event sample_launcher)
      [AuthRequest Login (sample_request 5 None ''secret'')] launcher_start) payload \<and>
    logged_in sample_launcher [AuthRequest Login (sample_request 5 None ''secret'')] (Some ''10.0.0.2'') ''admin''"
proof -
  let ?rq = "sample_request 5 None ''secret''" and ?z = "fold (on_web_event sample_launcher) [AuthRequest Login (sample_request 5 None ''secret'')] launcher_start"
  obtain y where y: "getSession sample_launcher ?rq (new_response launcher_start) = (Inr 0, y)"
      "ws_id (wb_heap (ex_web y) 0) = ''1''" "ws_expiration (wb_heap (ex_web y) 0) = 7200000005"
    by (rule first_session [OF disjI2 [OF refl]])
  have "sessions_sound (le_web sample_launcher) 0 (ex_web (new_response launcher_start))" by (simp add: launcher_start_sound)
  from login_signs_in [OF _ this _ _ _ _ y(1), of "''myiot.webui''" "[''username'' \<mapsto> ''admin'', ''password'' \<mapsto> ''secret'']" "''admin''"]
  obtain m where at: "session_at_hand sample_launcher ''myiot.webui'' ?rq 0 (ex_web y)" and z: "ex_web ?z = signed_in 0 ''admin'' m (ex_web y)"
    by (auto simp: form_or_def)
  have "le_websessionTimeout sample_launcher = Inr 7200" by (simp add: sample_launcher_def)
  then have says: "says sample_launcher (sample_request 9 (Some ''1'') []) ?z (sessionPayload (sample_request 9 (Some ''1'') []) ''admin'' m [])"
    by (intro signed_in_says [OF _ at z]) (simp_all add: y(2,3) getId_def)
  from authenticated_only_by_login [OF _ _ this, of "''admin''"]
  have "logged_in sample_launcher [AuthRequest Login ?rq] (Some ''10.0.0.2'') ''admin''" by simp
  with says show ?thesis by blast
qed


end
