(* ===== verification/AcquisitionWeb.thy ===== *)
theory AcquisitionWeb
  imports AcquisitionBridge Launcher
begin

text \<open>
  The request handlers of the acquisition pages: JNDM123RequestHandler.cpp (authentication, forms, responses), JNDM123Runtime.cpp (the
  commands behind them) and the configuration part of JNDM123Support.cpp. Telemetry and log lines are left out, except that a log line
  whose text cannot be made fails the request. Requests are handled one after the other: the code serialises commands by a mutex.
\<close>

section \<open>The saved configuration as the user interface reads it\<close>

text \<open>It starts from the clock its bundle is configured with, where the agent starts from a constant.\<close>

definition webLoadSavedDividerConfiguration :: "poco \<Rightarrow> u64 \<Rightarrow> string option \<Rightarrow> saved_config" where
  "webLoadSavedDividerConfiguration P configured content =
     (let configuration = default_saved_config\<lparr>sc_referenceClockHz := configured\<rparr> in
      case content of
        None \<Rightarrow> configuration
      | Some contents \<Rightarrow> finish_config (foldl (load_line P) configuration (getlines contents)))"

definition webResolvePreferredDevicePath :: "poco \<Rightarrow> u64 \<Rightarrow> string option \<Rightarrow> string \<Rightarrow> string" where
  "webResolvePreferredDevicePath P configured content requested =
     (if requested \<noteq> [] then requested
      else let saved = webLoadSavedDividerConfiguration P configured content in
        if sc_devicePath saved \<noteq> [] then sc_devicePath saved else kDefaultI2CDevice)"

definition webResolvePreferredReferenceClockHz :: "poco \<Rightarrow> u64 \<Rightarrow> string option \<Rightarrow> string \<Rightarrow> exc + u64" where
  "webResolvePreferredReferenceClockHz P configured content requested =
     (if requested \<noteq> [] then
        (case parseUInt64Strict requested of
           None \<Rightarrow> Inl (InvalidArgumentException ''referenceClockHz must be a numeric value.'')
         | Some hz \<Rightarrow> (case validateReferenceClockHzOrThrow hz of Inl e \<Rightarrow> Inl e | Inr _ \<Rightarrow> Inr hz))
      else let saved = webLoadSavedDividerConfiguration P configured content in
        case validateReferenceClockHzOrThrow (sc_referenceClockHz saved) of
          Inl e \<Rightarrow> Inl e
        | Inr _ \<Rightarrow> Inr (sc_referenceClockHz saved))"

text \<open>The property \<open>referenceClockHz\<close> of the bundle, empty when it has none.\<close>

definition configuredClock :: "string \<Rightarrow> u64" where
  "configuredClock configured =
     (case parseUInt64Strict configured of
        None \<Rightarrow> kFallbackReferenceClockHz
      | Some hz \<Rightarrow> (case validateReferenceClockHzOrThrow hz of Inl _ \<Rightarrow> kFallbackReferenceClockHz | Inr _ \<Rightarrow> hz))"

section \<open>Forms\<close>

text \<open>\<open>Poco::icompare\<close> with a result of zero.\<close>

definition icompareEqual :: "string \<Rightarrow> string \<Rightarrow> bool" where
  "icompareEqual s t \<longleftrightarrow> map c_tolower s = map c_tolower t"

definition parseBoolValue :: "string \<Rightarrow> bool \<Rightarrow> bool" where
  "parseBoolValue value defaultValue =
     (if value = [] then defaultValue
      else if list_ex (icompareEqual value) [''1'', ''true'', ''yes'', ''on''] then True
      else if list_ex (icompareEqual value) [''0'', ''false'', ''no'', ''off''] then False
      else defaultValue)"

text \<open>The successive results of \<open>std::getline\<close> with a delimiter.\<close>

fun split_at :: "char \<Rightarrow> string \<Rightarrow> string \<Rightarrow> string list" where
  "split_at d acc [] = (if acc = [] then [] else [acc])"
| "split_at d acc (c # cs) = (if c = d then acc # split_at d [] cs else split_at d (acc @ [c]) cs)"

fun output_index_list :: "poco \<Rightarrow> string list \<Rightarrow> exc + int list" where
  "output_index_list P [] = Inr []"
| "output_index_list P (t # ts) =
     (let token = p_trim P t in
      if token = [] then output_index_list P ts
      else case parseIntStrict token of
        None \<Rightarrow> Inl (InvalidArgumentException ''outputIndices must contain numeric output indexes.'')
      | Some i \<Rightarrow> (case output_index_list P ts of Inl e \<Rightarrow> Inl e | Inr is \<Rightarrow> Inr (i # is)))"

definition parseOutputIndexListOrThrow :: "poco \<Rightarrow> string \<Rightarrow> exc + int list" where
  "parseOutputIndexListOrThrow P value =
     (case output_index_list P (split_at (CHR '','') [] value) of Inl e \<Rightarrow> Inl e | Inr is \<Rightarrow> normalizeOutputIndicesOrThrow is)"

section \<open>The commands\<close>

text \<open>What arrives while a command waits, and the files it may read, at the time of a request.\<close>

record aq_request =
  ar_rq :: web_request
  ar_rounds :: "dds_message list list"
  ar_late :: "dds_message list"
  ar_read :: "string \<Rightarrow> string option"

definition stateText :: "aq_request \<Rightarrow> string option" where
  "stateText A = ar_read A (dividerStateFilePath (ar_read A ''/proc/mounts''))"

definition sendCommand :: "('d, 'p) bridge_env \<Rightarrow> aq_request \<Rightarrow> string \<Rightarrow> string \<Rightarrow> json_object \<Rightarrow> ('d, 'p, json_object) br" where
  "sendCommand B A action message arguments = sendCommandAndAwait B (ar_rounds A) (ar_late A) action message arguments True"

definition dividerCommand :: "('d, 'p) bridge_env \<Rightarrow> aq_request \<Rightarrow> string \<Rightarrow> json_object \<Rightarrow> ('d, 'p, divider_snapshot) br" where
  "dividerCommand B A action arguments =
     io_bind (sendCommand B A action [] arguments) (\<lambda>payload. io_lift (dividerSnapshotFromPayload (be_poco B) (be_json B) payload))"

definition createDividerRequestPayload :: "string \<Rightarrow> u64 \<Rightarrow> json_object" where
  "createDividerRequestPayload devicePath referenceClockHz =
     [(''devicePath'', JStr devicePath), (''referenceClockHz'', JInt (uint referenceClockHz))]"

definition runtimeReadDividerStatus :: "('d, 'p) bridge_env \<Rightarrow> aq_request \<Rightarrow> u64 \<Rightarrow> string \<Rightarrow> ('d, 'p, divider_snapshot) br" where
  "runtimeReadDividerStatus B A configured devicePath =
     io_bind (io_lift (webResolvePreferredReferenceClockHz (be_poco B) configured (stateText A) [])) (\<lambda>hz.
       dividerCommand B A ''divider-status'' (createDividerRequestPayload devicePath hz))"

definition validateDividers :: "poco \<Rightarrow> int \<Rightarrow> int list \<Rightarrow> exc + unit" where
  "validateDividers P divider outputs =
     (case List.find (\<lambda>i. validateDividerOrThrow P i divider \<noteq> Inr ()) outputs of
        None \<Rightarrow> Inr ()
      | Some i \<Rightarrow> validateDividerOrThrow P i divider)"

definition applyDividersPayload :: "poco \<Rightarrow> string \<Rightarrow> int list \<Rightarrow> int \<Rightarrow> u64 \<Rightarrow> exc + json_object" where
  "applyDividersPayload P devicePath outputIndices divider referenceClockHz =
     (case normalizeOutputIndicesOrThrow outputIndices of
        Inl e \<Rightarrow> Inl e
      | Inr normalizedOutputs \<Rightarrow>
          (case validateDividers P divider normalizedOutputs of
             Inl e \<Rightarrow> Inl e
           | Inr _ \<Rightarrow>
               (case validateReferenceClockHzOrThrow referenceClockHz of
                  Inl e \<Rightarrow> Inl e
                | Inr _ \<Rightarrow>
                    Inr (obj_set (obj_set (createDividerRequestPayload devicePath referenceClockHz)
                      ''divider'' (JInt divider))
                      ''outputIndices'' (JArr (map JInt normalizedOutputs))))))"

definition runtimeApplyDividers ::
    "('d, 'p) bridge_env \<Rightarrow> aq_request \<Rightarrow> string \<Rightarrow> int list \<Rightarrow> int \<Rightarrow> u64 \<Rightarrow> ('d, 'p, divider_snapshot) br" where
  "runtimeApplyDividers B A devicePath outputIndices divider referenceClockHz =
     io_bind (io_lift (applyDividersPayload (be_poco B) devicePath outputIndices divider referenceClockHz))
       (dividerCommand B A ''divider-apply'')"

definition runtimeUpdateReferenceClock :: "('d, 'p) bridge_env \<Rightarrow> aq_request \<Rightarrow> string \<Rightarrow> u64 \<Rightarrow> ('d, 'p, divider_snapshot) br" where
  "runtimeUpdateReferenceClock B A devicePath referenceClockHz =
     io_bind (io_lift (validateReferenceClockHzOrThrow referenceClockHz)) (\<lambda>_.
       dividerCommand B A ''divider-update-reference'' (createDividerRequestPayload devicePath referenceClockHz))"

definition runtimeStartAcquisition :: "('d, 'p) bridge_env \<Rightarrow> aq_request \<Rightarrow> ('d, 'p, bool \<times> string) br" where
  "runtimeStartAcquisition B A =
     io_bind (sendCommand B A ''start'' [] []) (\<lambda>payload. io_ret (acquisitionResultFromPayload (be_poco B) payload ''Acquisition started.''))"

definition runtimeStopAcquisition :: "('d, 'p) bridge_env \<Rightarrow> aq_request \<Rightarrow> string \<Rightarrow> ('d, 'p, bool \<times> string) br" where
  "runtimeStopAcquisition B A message =
     io_bind (sendCommand B A ''stop'' message []) (\<lambda>payload. io_ret (acquisitionResultFromPayload (be_poco B) payload message))"
section \<open>Snapshots for the page\<close>

fun commas :: "string list \<Rightarrow> string" where
  "commas [] = []"
| "commas [t] = t"
| "commas (t # ts) = t @ '','' @ commas ts"

fun element_u64s :: "json_access \<Rightarrow> json list \<Rightarrow> exc + u64 list" where
  "element_u64s J [] = Inr []"
| "element_u64s J (j # js) =
     (case ja_elementUInt64 J j of
        Inl e \<Rightarrow> Inl e
      | Inr n \<Rightarrow> (case element_u64s J js of Inl e \<Rightarrow> Inl e | Inr ns \<Rightarrow> Inr (n # ns)))"

definition summary_of_debug :: "poco \<Rightarrow> json_access \<Rightarrow> json_object \<Rightarrow> exc + string" where
  "summary_of_debug P J payload =
     (case ja_getObject J payload ''debug'' of
        None \<Rightarrow> Inr []
      | Some debug \<Rightarrow>
          (let sequence = ''seq='' @ show_nat (unat (ja_optUInt64 J debug ''sequence'' 0)) in
           case p_getArray P debug ''hiLoUnsigned'' of
             None \<Rightarrow> Inr sequence
           | Some hiLo \<Rightarrow>
               (case element_u64s J hiLo of
                  Inl e \<Rightarrow> Inl e
                | Inr ns \<Rightarrow> Inr (sequence @ '' hiLo='' @ commas (map (\<lambda>n. show_nat (unat n)) ns)))))"

definition summary_of_chip :: "poco \<Rightarrow> json_access \<Rightarrow> json_object \<Rightarrow> string" where
  "summary_of_chip P J payload =
     (case p_getArray P payload ''chips'' of
        Some (first # _) \<Rightarrow>
          (case Option.bind (ja_elementObject J first) (\<lambda>chip. p_getArray P chip ''channels'') of
             Some (c # cs) \<Rightarrow> '' chip0='' @ commas (map (\<lambda>j. show_int
               (case ja_elementObject J j of Some channel \<Rightarrow> ja_optInt J channel ''value'' 0 | None \<Rightarrow> 0)) (take 4 (c # cs)))
           | _ \<Rightarrow> [])
      | _ \<Rightarrow> [])"

definition httpSnapshotDebugSummary :: "poco \<Rightarrow> json_access \<Rightarrow> json_object \<Rightarrow> exc + string" where
  "httpSnapshotDebugSummary P J payload =
     (case summary_of_debug P J payload of Inl e \<Rightarrow> Inl e | Inr debug \<Rightarrow> Inr (debug @ summary_of_chip P J payload))"

section \<open>The handlers\<close>

record ('d, 'p, 'k, 'st) aq_env =
  ae_launcher :: "('k, 'st) launcher_env"
  ae_bridge :: "('d, 'p) bridge_env"
  ae_iso :: "nat \<Rightarrow> string"

text \<open>The sessions and the response, the bridge, the configured clock, the number of snapshots served, and the readings of the clock.\<close>

record ('d, 'p, 'k, 'st) aq_ui =
  aq_exchange :: "('k, 'st) exchange"
  aq_bridge :: "('d, 'p) bridge"
  aq_configured :: u64
  aq_snapshots :: u64
  aq_tick :: nat

type_synonym ('d, 'p, 'k, 'st, 'a) aq = "(('d, 'p, 'k, 'st) aq_ui, 'a) io"

definition on_exchange :: "('k, 'st, 'a) ex \<Rightarrow> ('d, 'p, 'k, 'st, 'a) aq" where
  "on_exchange m s = (let (r, x) = m (aq_exchange s) in (r, s\<lparr>aq_exchange := x\<rparr>))"

definition on_bridge :: "('d, 'p, 'a) br \<Rightarrow> ('d, 'p, 'k, 'st, 'a) aq" where
  "on_bridge m s = (let (r, b) = m (aq_bridge s) in (r, s\<lparr>aq_bridge := b\<rparr>))"

definition ui_now :: "('d, 'p, 'k, 'st) aq_env \<Rightarrow> ('d, 'p, 'k, 'st, string) aq" where
  "ui_now E s = (Inr (ae_iso E (aq_tick s)), s\<lparr>aq_tick := Suc (aq_tick s)\<rparr>)"

definition ui_read :: "(('d, 'p, 'k, 'st) aq_ui \<Rightarrow> 'a) \<Rightarrow> ('d, 'p, 'k, 'st, 'a) aq" where
  "ui_read f s = (Inr (f s), s)"

definition HTTP_BAD_REQUEST :: int where
  "HTTP_BAD_REQUEST = 400"

definition acquisitionFindSession :: "('k, 'st) launcher_env \<Rightarrow> web_request \<Rightarrow> ('k, 'st, nat option) ex" where
  "acquisitionFindSession L rq =
     io_bind (io_lift (le_sessionManager L)) (\<lambda>_.
     io_bind (io_lift (le_websessionId L)) (\<lambda>sessionId.
       on_web (sessionFind (le_web L) sessionId rq)))"

definition isAuthenticated :: "('k, 'st) launcher_env \<Rightarrow> web_request \<Rightarrow> ('k, 'st, bool) ex" where
  "isAuthenticated L rq =
     io_catch
       (io_bind (acquisitionFindSession L rq) (\<lambda>p.
        io_bind (session_text p ''username'' []) (\<lambda>username. io_ret (username \<noteq> []))))
       (\<lambda>_. io_ret False)"

definition acquisitionSendJSON :: "('d, 'p, 'k, 'st) aq_env \<Rightarrow> json_object \<Rightarrow> int \<Rightarrow> ('d, 'p, 'k, 'st, unit) aq" where
  "acquisitionSendJSON E payload status = on_exchange (io_seq (setStatus status) (sendJSON (ae_launcher E) payload))"

definition sendError :: "('d, 'p, 'k, 'st) aq_env \<Rightarrow> string \<Rightarrow> int \<Rightarrow> ('d, 'p, 'k, 'st, unit) aq" where
  "sendError E message status = io_bind (ui_now E) (\<lambda>now. acquisitionSendJSON E (createErrorPayload now message) status)"

definition sendDivider :: "('d, 'p, 'k, 'st) aq_env \<Rightarrow> divider_snapshot \<Rightarrow> ('d, 'p, 'k, 'st, unit) aq" where
  "sendDivider E divider = io_bind (ui_now E) (\<lambda>now. acquisitionSendJSON E (webDividerSnapshotToJson now divider) HTTP_OK)"

text \<open>Every handler asks first who is there.\<close>

definition authenticatedOnly ::
    "('d, 'p, 'k, 'st) aq_env \<Rightarrow> web_request \<Rightarrow> string \<Rightarrow> ('d, 'p, 'k, 'st, unit) aq \<Rightarrow> ('d, 'p, 'k, 'st, unit) aq" where
  "authenticatedOnly E rq message body =
     io_bind (on_exchange (isAuthenticated (ae_launcher E) rq)) (\<lambda>authenticated.
       if authenticated then body
       else io_bind (ui_now E) (\<lambda>now. acquisitionSendJSON E (createUnauthorizedPayload now message) HTTP_UNAUTHORIZED))"

definition ui_text :: "('d, 'p, 'k, 'st) aq_env \<Rightarrow> exc \<Rightarrow> string" where
  "ui_text E e = (case e of StdException what \<Rightarrow> what | _ \<Rightarrow> p_displayText (be_poco (ae_bridge E)) e)"

text \<open>The outputs a form asks for: a list, or a single one; \<open>None\<close> when it names neither.\<close>

definition requestedOutputs :: "poco \<Rightarrow> (string \<Rightarrow> string option) \<Rightarrow> exc + int list option" where
  "requestedOutputs P form =
     (if form_or form ''outputIndices'' \<noteq> []
      then (case parseOutputIndexListOrThrow P (form_or form ''outputIndices'') of Inl e \<Rightarrow> Inl e | Inr is \<Rightarrow> Inr (Some is))
      else Inr (map_option (\<lambda>i. [i]) (parseIntStrict (form_or form ''outputIndex''))))"

definition applyRequest ::
    "('d, 'p, 'k, 'st) aq_env \<Rightarrow> aq_request \<Rightarrow> (string \<Rightarrow> string option) \<Rightarrow> string \<Rightarrow> u64 \<Rightarrow> ('d, 'p, 'k, 'st, unit) aq" where
  "applyRequest E A form devicePath hz =
     (case parseIntStrict (form_or form ''divider'') of
        None \<Rightarrow> sendError E ''divider is a required numeric value.'' HTTP_BAD_REQUEST
      | Some divider \<Rightarrow>
          io_bind (io_lift (requestedOutputs (be_poco (ae_bridge E)) form)) (\<lambda>outputs.
            case outputs of
              None \<Rightarrow> sendError E ''outputIndex or outputIndices is required.'' HTTP_BAD_REQUEST
            | Some outputIndices \<Rightarrow>
                io_bind (on_bridge (runtimeApplyDividers (ae_bridge E) A devicePath outputIndices divider hz)) (sendDivider E)))"

definition dividerRequest :: "('d, 'p, 'k, 'st) aq_env \<Rightarrow> aq_request \<Rightarrow> (string \<Rightarrow> string option) \<Rightarrow> ('d, 'p, 'k, 'st, unit) aq" where
  "dividerRequest E A form =
     io_bind (ui_read aq_configured) (\<lambda>configured.
       let P = be_poco (ae_bridge E);
           devicePath = webResolvePreferredDevicePath P configured (stateText A) (form_or form ''devicePath'') in
       io_bind (io_lift (webResolvePreferredReferenceClockHz P configured (stateText A) (form_or form ''referenceClockHz''))) (\<lambda>hz.
         if icompareEqual (rq_method (ar_rq A)) ''POST'' then
           (if form ''divider'' = None
            then io_bind (on_bridge (runtimeUpdateReferenceClock (ae_bridge E) A devicePath hz)) (sendDivider E)
            else applyRequest E A form devicePath hz)
         else io_bind (on_bridge (runtimeReadDividerStatus (ae_bridge E) A configured devicePath)) (sendDivider E)))"

definition dividerHandleRequest :: "('d, 'p, 'k, 'st) aq_env \<Rightarrow> aq_request \<Rightarrow> ('d, 'p, 'k, 'st, unit) aq" where
  "dividerHandleRequest E A =
     authenticatedOnly E (ar_rq A) ''Authentication required for JNDM123 divider control.''
       (io_catch (io_bind (io_lift (rq_form (ar_rq A))) (dividerRequest E A))
         (\<lambda>e. sendError E (ui_text E e)
            (case e of InvalidArgumentException _ \<Rightarrow> HTTP_BAD_REQUEST | _ \<Rightarrow> HTTP_INTERNAL_SERVER_ERROR)))"

text \<open>Some of the snapshots are summarised in the log.\<close>

definition acquisitionSnapshot :: "('d, 'p, 'k, 'st) aq_env \<Rightarrow> bool \<Rightarrow> ('d, 'p, 'k, 'st, json_object) aq" where
  "acquisitionSnapshot E includeWaveform =
     (let B = ae_bridge E in
      io_bind (on_bridge (latestSnapshot B)) (\<lambda>payload0.
        let payload1 = obj_set payload0 ''authenticated'' (JBool True);
            payload = (if includeWaveform then payload1 else stripWaveformSamples (be_poco B) (be_json B) payload1) in
        io_seq (\<lambda>s. (Inr (), s\<lparr>aq_snapshots := aq_snapshots s + 1\<rparr>))
       (io_bind (ui_read aq_snapshots) (\<lambda>count.
          if count \<le> 5 \<or> count mod 20 = 0
          then io_bind (io_lift (httpSnapshotDebugSummary (be_poco B) (be_json B) payload)) (\<lambda>_. io_ret payload)
          else io_ret payload))))"

definition sendAction ::
    "('d, 'p, 'k, 'st) aq_env \<Rightarrow> bool \<Rightarrow> bool \<times> string \<Rightarrow> int \<Rightarrow> ('d, 'p, 'k, 'st, unit) aq" where
  "sendAction E includeWaveform result failedStatus =
     io_bind (acquisitionSnapshot E includeWaveform) (\<lambda>payload.
       acquisitionSendJSON E (obj_set (obj_set payload ''ok'' (JBool (fst result))) ''message'' (JStr (snd result)))
         (if fst result then HTTP_OK else failedStatus))"

definition restartProcessRequest :: "('d, 'p, 'k, 'st) aq_env \<Rightarrow> bool \<Rightarrow> ('d, 'p, 'k, 'st, unit) aq" where
  "restartProcessRequest E includeWaveform =
     (let B = ae_bridge E; P = be_poco B in
      io_seq (on_bridge (br_modify resetSnapshotCache))
     (io_bind (on_bridge (restartAcquisitionProcessOrThrow B)) (\<lambda>status.
      io_bind (on_bridge (br_catch
          (io_bind (latestSnapshot B) (\<lambda>snapshotPayload.
             io_ret (obj_set snapshotPayload ''message''
               (JStr (p_optString P status ''message'' ''Acquisition process restarted.'')))))
          (\<lambda>_. io_ret status))) (\<lambda>payload0.
        let payload = (if includeWaveform then payload0 else stripWaveformSamples P (be_json B) payload0) in
        acquisitionSendJSON E payload (if p_optBool P payload ''ok'' True then HTTP_OK else HTTP_INTERNAL_SERVER_ERROR)))))"

definition kStopMessage :: string where
  "kStopMessage = ''Acquisition stopped by operator.''"

definition acquisitionRequest :: "('d, 'p, 'k, 'st) aq_env \<Rightarrow> aq_request \<Rightarrow> (string \<Rightarrow> string option) \<Rightarrow> ('d, 'p, 'k, 'st, unit) aq" where
  "acquisitionRequest E A form =
     (let B = ae_bridge E;
          includeWaveform = parseBoolValue (case form ''includeWaveform'' of None \<Rightarrow> ''0'' | Some v \<Rightarrow> v) False;
          action = (if icompareEqual (rq_method (ar_rq A)) ''POST'' then form_or form ''action'' else []) in
      if action = ''start'' then
        io_bind (on_bridge (runtimeStartAcquisition B A)) (\<lambda>result. sendAction E includeWaveform result HTTP_INTERNAL_SERVER_ERROR)
      else if action = ''stop'' then
        io_bind (on_bridge (runtimeStopAcquisition B A kStopMessage)) (\<lambda>result. sendAction E includeWaveform result HTTP_OK)
      else if action = ''restart-process'' then restartProcessRequest E includeWaveform
      else io_bind (acquisitionSnapshot E includeWaveform) (\<lambda>payload. acquisitionSendJSON E payload HTTP_OK))"

definition acquisitionHandleRequest :: "('d, 'p, 'k, 'st) aq_env \<Rightarrow> aq_request \<Rightarrow> ('d, 'p, 'k, 'st, unit) aq" where
  "acquisitionHandleRequest E A =
     authenticatedOnly E (ar_rq A) ''Authentication required for JNDM123 acquisition.''
       (io_catch (io_bind (io_lift (rq_form (ar_rq A))) (acquisitionRequest E A))
         (\<lambda>e. sendError E (ui_text E e) HTTP_INTERNAL_SERVER_ERROR))"

section \<open>Start and stop of the bundle\<close>

definition initializeJNDM123Runtime :: "('d, 'p, 'k, 'st) aq_env \<Rightarrow> string \<Rightarrow> ('d, 'p, 'k, 'st, unit) aq" where
  "initializeJNDM123Runtime E configured =
     io_seq (\<lambda>s. (Inr (), s\<lparr>aq_configured := configuredClock configured\<rparr>))
       (on_bridge (br_catch (io_bind (latestSnapshot (ae_bridge E)) (\<lambda>_. io_ret ())) (\<lambda>_. io_ret ())))"

section \<open>Who may command the agent\<close>

lemma on_exchange_keeps: "io_keeps P m \<Longrightarrow> io_keeps (\<lambda>s. P (aq_exchange s)) (on_exchange m)"
  by (auto simp: io_keeps_def on_exchange_def split: prod.splits)

lemma ui_keeps [intro]:
  "io_keeps (\<lambda>s. P (aq_exchange s)) (on_bridge b)" "io_keeps (\<lambda>s. P (aq_exchange s)) (ui_now E)"
  "io_keeps (\<lambda>s. P (aq_exchange s)) (ui_read f)" "(\<And>s. aq_exchange (g s) = aq_exchange s) \<Longrightarrow> io_keeps (\<lambda>s. P (aq_exchange s)) (\<lambda>s. (Inr (), g s))"
  by (auto simp: io_keeps_def on_bridge_def ui_now_def ui_read_def split: prod.splits)

lemma send_keeps [intro]:
  "io_keeps (\<lambda>s. P (ex_web (aq_exchange s))) (acquisitionSendJSON E payload status)"
  "io_keeps (\<lambda>s. P (ex_web (aq_exchange s))) (sendError E message status)"
  "io_keeps (\<lambda>s. P (ex_web (aq_exchange s))) (sendDivider E divider)"
proof -
  show json: "io_keeps (\<lambda>s. P (ex_web (aq_exchange s))) (acquisitionSendJSON E payload status)" for payload status
    unfolding acquisitionSendJSON_def by (intro on_exchange_keeps io_keeps_seq response_keeps)
  show "io_keeps (\<lambda>s. P (ex_web (aq_exchange s))) (sendError E message status)"
    "io_keeps (\<lambda>s. P (ex_web (aq_exchange s))) (sendDivider E divider)"
    unfolding sendError_def sendDivider_def by (intro io_keeps_bind ui_keeps json)+
qed

text \<open>Behind the authentication, the handlers leave the sessions alone.\<close>

lemma divider_keeps: "io_keeps (\<lambda>s. P (ex_web (aq_exchange s))) (dividerRequest E A form)"
proof -
  have "io_keeps (\<lambda>s. P (ex_web (aq_exchange s))) (applyRequest E A form path hz)" for path hz
    unfolding applyRequest_def
    by (auto split: option.split intro!: io_keeps_bind io_keeps_lift ui_keeps(1) send_keeps)
  then show ?thesis
    unfolding dividerRequest_def Let_def
    by (auto intro!: io_keeps_bind io_keeps_lift ui_keeps(1,3) send_keeps)
qed

lemma snapshot_keeps: "io_keeps (\<lambda>s. P (ex_web (aq_exchange s))) (acquisitionSnapshot E includeWaveform)"
  unfolding acquisitionSnapshot_def Let_def
  by (auto intro!: io_keeps_bind io_keeps_seq io_keeps_lift io_keeps_ret ui_keeps)

lemma acquisition_keeps: "io_keeps (\<lambda>s. P (ex_web (aq_exchange s))) (acquisitionRequest E A form)"
proof -
  have "io_keeps (\<lambda>s. P (ex_web (aq_exchange s))) (sendAction E w result status)" for w result status
    unfolding sendAction_def by (intro io_keeps_bind snapshot_keeps send_keeps)
  moreover have "io_keeps (\<lambda>s. P (ex_web (aq_exchange s))) (restartProcessRequest E w)" for w
    unfolding restartProcessRequest_def Let_def by (intro io_keeps_bind io_keeps_seq ui_keeps(1) send_keeps)
  ultimately show ?thesis
    unfolding acquisitionRequest_def Let_def by (auto intro!: io_keeps_bind snapshot_keeps send_keeps ui_keeps(1))
qed

lemma find_keeps: "io_keeps (vouches v J) (acquisitionFindSession L rq)"
  unfolding acquisitionFindSession_def by (intro io_keeps_bind io_keeps_lift web_keeps(1))

lemma session_text_keeps: "io_keeps P (session_text p key d)"
  by (simp add: io_keeps_def session_text_def split: option.split)

lemma authentication_keeps: "io_keeps (vouches v J) (isAuthenticated L rq)"
  unfolding isAuthenticated_def by (intro io_keeps_catch io_keeps_bind find_keeps session_text_keeps io_keeps_ret)

lemma authenticated_is_vouched:
  assumes "vouches v J x" and "isAuthenticated L rq x = (Inr True, y)"
  obtains u where "u \<noteq> []" "J (if v then Some (rq_host rq) else None) u"
proof -
  obtain c where find: "acquisitionFindSession L rq x = (Inr (Some c), y)" and user: "session_user (ex_web y) c \<noteq> None"
    and named: "session_user (ex_web y) c \<noteq> Some []"
    using assms(2)
    by (auto simp: isAuthenticated_def io_catch_def io_bind_def io_ret_def session_text_def getValueOr_def any_string_def session_user_def
        split: prod.splits sum.splits option.splits any.splits)
  have y: "vouches v J y" using io_keepsD [OF find_keeps assms(1), of L rq] find by simp
  obtain i where web: "sessionFind (le_web L) i rq (ex_web x) = (Inr (Some c), ex_web y)"
    using find by (auto simp: acquisitionFindSession_def io_bind_def on_web_def io_lift_def split: prod.splits sum.splits)
  have ok: "memory_only (ex_web x)" "wb_verifyAddress (ex_web x) = v" using assms(1) by (simp_all add: vouched_def)
  have "session_client (ex_web y) c = rq_host rq" if v
    using web_sessions.find_client [OF ok(1) web] ok(2) that by simp
  moreover obtain u where u: "session_user (ex_web y) c = Some u" "u \<noteq> []" using user named by (cases "session_user (ex_web y) c") auto
  moreover have "J (if v then Some (session_client (ex_web y) c) else None) u" using y u(1) unfolding vouched_def by blast
  ultimately show thesis by (intro that [of u]) auto
qed

lemma authenticatedOnly_keeps:
  assumes "io_keeps (\<lambda>s. vouches v J (aq_exchange s)) body"
  shows "io_keeps (\<lambda>s. vouches v J (aq_exchange s)) (authenticatedOnly E rq message body)"
  unfolding authenticatedOnly_def
  by (intro io_keeps_bind on_exchange_keeps authentication_keeps) (auto intro!: assms io_keeps_bind ui_keeps send_keeps)

lemma handlers_keep:
  "io_keeps (\<lambda>s. vouches v J (aq_exchange s)) (dividerHandleRequest E A)"
  "io_keeps (\<lambda>s. vouches v J (aq_exchange s)) (acquisitionHandleRequest E A)"
  unfolding dividerHandleRequest_def acquisitionHandleRequest_def
  by (intro authenticatedOnly_keeps io_keeps_catch io_keeps_bind io_keeps_lift divider_keeps acquisition_keeps send_keeps)+

lemma sendJSON_status: "ex_status (snd (sendJSON L payload x)) = ex_status x"
  by (simp add: sendJSON_def io_seq_def io_bind_def jsonHeaders_def writeJSON_def Let_def split: send_result.split)

text \<open>A request of nobody goes no further than its answer.\<close>

lemma authenticatedOnly_cases:
  obtains (refused) "aq_bridge (snd (authenticatedOnly E rq message body s)) = aq_bridge s"
      "ex_status (aq_exchange (snd (authenticatedOnly E rq message body s))) = HTTP_UNAUTHORIZED"
    | (accepted) x where "isAuthenticated (ae_launcher E) rq (aq_exchange s) = (Inr True, x)"
proof -
  obtain r x where run: "isAuthenticated (ae_launcher E) rq (aq_exchange s) = (r, x)" by fastforce
  show thesis
  proof (cases "r = Inr True")
    case True
    then show thesis using run by (intro accepted [of x]) simp
  next
    case False
    then have "r = Inr False"
      using run by (auto simp: isAuthenticated_def io_catch_def io_ret_def split: prod.splits sum.splits)
    then show thesis
      using run
      by (intro refused)
        (simp_all add: authenticatedOnly_def io_bind_def io_seq_def on_exchange_def ui_now_def acquisitionSendJSON_def setStatus_def
          case_prod_beta Let_def sendJSON_status)
  qed
qed

text \<open>What can happen to the pages: the launcher's events, their own requests, and snapshots that arrive in between.\<close>

datatype ui_event = WebEvent web_event | DividerRequest aq_request | AcquisitionRequest aq_request | SnapshotArrives dds_message

definition new_request :: "('d, 'p, 'k, 'st) aq_ui \<Rightarrow> ('d, 'p, 'k, 'st) aq_ui" where
  "new_request s = s\<lparr>aq_exchange := new_response (aq_exchange s)\<rparr>"

fun on_ui_event :: "('d, 'p, 'k, 'st) aq_env \<Rightarrow> ui_event \<Rightarrow> ('d, 'p, 'k, 'st) aq_ui \<Rightarrow> ('d, 'p, 'k, 'st) aq_ui" where
  "on_ui_event E (WebEvent e) s = s\<lparr>aq_exchange := on_web_event (ae_launcher E) e (aq_exchange s)\<rparr>"
| "on_ui_event E (DividerRequest A) s = snd (dividerHandleRequest E A (new_request s))"
| "on_ui_event E (AcquisitionRequest A) s = snd (acquisitionHandleRequest E A (new_request s))"
| "on_ui_event E (SnapshotArrives m) s = s\<lparr>aq_bridge := onMessage (ae_bridge E) m (aq_bridge s)\<rparr>"

fun web_events :: "ui_event list \<Rightarrow> web_event list" where
  "web_events [] = []"
| "web_events (WebEvent e # es) = e # web_events es"
| "web_events (_ # es) = web_events es"

lemma web_events_mem: "WebEvent e \<in> set es \<Longrightarrow> e \<in> set (web_events es)"
  by (induction es rule: web_events.induct) auto

lemma new_request_fields [simp]: "aq_exchange (new_request s) = new_response (aq_exchange s)" "aq_bridge (new_request s) = aq_bridge s"
  by (simp_all add: new_request_def)

lemma ui_event_keeps:
  assumes "vouches v (logged_in (ae_launcher E) (web_events events)) (aq_exchange s)" and "e \<in> set events"
  shows "vouches v (logged_in (ae_launcher E) (web_events events)) (aq_exchange (on_ui_event E e s))"
proof -
  let ?J = "logged_in (ae_launcher E) (web_events events)"
  have new: "vouches v ?J (aq_exchange (new_request s))" using assms(1) by simp
  show ?thesis
  proof (cases e)
    case (WebEvent f)
    then show ?thesis using event_keeps [OF assms(1)] web_events_mem [of f events] assms(2) by simp
  next
    case (DividerRequest A)
    then show ?thesis using io_keepsD [OF handlers_keep(1) [of v ?J E A], of "new_request s"] new by simp
  next
    case (AcquisitionRequest A)
    then show ?thesis using io_keepsD [OF handlers_keep(2) [of v ?J E A], of "new_request s"] new by simp
  next
    case (SnapshotArrives m)
    then show ?thesis using assms(1) by simp
  qed
qed

lemma ui_history_keeps:
  "vouches v (logged_in (ae_launcher E) (web_events events)) (aq_exchange s) \<Longrightarrow> set es \<subseteq> set events \<Longrightarrow>
     vouches v (logged_in (ae_launcher E) (web_events events)) (aq_exchange (fold (on_ui_event E) es s))"
  by (induction es arbitrary: s) (simp_all add: ui_event_keeps)

text \<open>C4: Only users command the agent: after any history of requests that starts with nobody signed in, a request to the divider or the
  acquisition page either gets 401 and leaves the bridge as it was - nothing is sent, restarted or read - or it comes from a host from which
  somebody has logged in with a password the authentication service accepted.\<close>

theorem only_users_command_the_agent:
  assumes "memory_only (ex_web (aq_exchange s))" and "\<And>c. session_user (ex_web (aq_exchange s)) c = None"
    and "e = DividerRequest A \<or> e = AcquisitionRequest A"
  shows "let t = fold (on_ui_event E) events s; t' = on_ui_event E e t in
    (aq_bridge t' = aq_bridge t \<and> ex_status (aq_exchange t') = HTTP_UNAUTHORIZED) \<or>
    (\<exists>u. u \<noteq> [] \<and> logged_in (ae_launcher E) (web_events events)
       (if wb_verifyAddress (ex_web (aq_exchange s)) then Some (rq_host (ar_rq A)) else None) u)"
proof -
  let ?v = "wb_verifyAddress (ex_web (aq_exchange s))" and ?J = "logged_in (ae_launcher E) (web_events events)"
  let ?t = "fold (on_ui_event E) events s"
  have "vouches ?v ?J (aq_exchange s)" using assms(1,2) by (simp add: vouched_def)
  then have t: "vouches ?v ?J (new_response (aq_exchange ?t))" by (simp add: ui_history_keeps)
  have user: "\<exists>u. u \<noteq> [] \<and> ?J (if ?v then Some (rq_host (ar_rq A)) else None) u"
    if "isAuthenticated (ae_launcher E) (ar_rq A) (new_response (aq_exchange ?t)) = (Inr True, x)" for x
    using authenticated_is_vouched [OF t that] by blast
  from assms(3) show ?thesis
  proof
    assume e: "e = DividerRequest A"
    show ?thesis
      unfolding e on_ui_event.simps dividerHandleRequest_def Let_def
      by (rule authenticatedOnly_cases [where s = "new_request ?t"]) (use user in auto)
  next
    assume e: "e = AcquisitionRequest A"
    show ?thesis
      unfolding e on_ui_event.simps acquisitionHandleRequest_def Let_def
      by (rule authenticatedOnly_cases [where s = "new_request ?t"]) (use user in auto)
  qed
qed

text \<open>A status request reads the clock it is given, but asks the agent with the saved one.\<close>

lemma status_ignores_requested_clock:
  assumes "\<not> icompareEqual (rq_method (ar_rq A)) ''POST''" and "form_or f ''devicePath'' = form_or f' ''devicePath''"
    and "webResolvePreferredReferenceClockHz (be_poco (ae_bridge E)) (aq_configured s) (stateText A) (form_or f ''referenceClockHz'') = Inr hz"
    and "webResolvePreferredReferenceClockHz (be_poco (ae_bridge E)) (aq_configured s) (stateText A) (form_or f' ''referenceClockHz'') = Inr hz'"
  shows "dividerRequest E A f s = dividerRequest E A f' s"
  using assms by (simp add: dividerRequest_def io_bind_def ui_read_def io_lift_def Let_def)

section \<open>What the agent makes of a command\<close>

text \<open>Documented of the accessors the agent reads a command with: a number in range is returned as it is.\<close>

definition json_numbers :: "poco \<Rightarrow> bool" where
  "json_numbers P \<longleftrightarrow>
     (\<forall>ob k i. obj_get ob k = Some (JInt i) \<longrightarrow> 0 \<le> i \<longrightarrow> i < 2 ^ 64 \<longrightarrow> p_getUInt64 P ob k = Inr (of_int i)) \<and>
     (\<forall>i. int32 i \<longrightarrow> p_elementInt P (JInt i) = Inr i)"

lemma element_ints_read: "json_numbers P \<Longrightarrow> \<forall>i \<in> set is. int32 i \<Longrightarrow> element_ints P (map JInt is) = Inr is"
  by (induction "is") (auto simp: json_numbers_def)

lemma normalize_again: "normalizeOutputIndicesOrThrow is = Inr ns \<Longrightarrow> normalizeOutputIndicesOrThrow ns = Inr ns"
proof -
  assume "normalizeOutputIndicesOrThrow is = Inr ns"
  then have ns: "ns = remdups_adj (sort is)" "is \<noteq> []" "\<forall>i \<in> set is. 0 \<le> i \<and> i < int kDividerOutputCount"
    by (auto simp: normalizeOutputIndices_ok)
  have "sorted_wrt (<) ns" using ns(1) by (simp add: strict_sorted_remdups_adj)
  then have sorted: "sorted ns" "distinct ns" by (simp_all add: strict_sorted_iff)
  have "sort ns = ns" using sorted(1) by (simp add: sort_key_id_if_sorted)
  moreover have "remdups_adj ns = ns" using sorted(2) by (simp add: remdups_adj_distinct)
  moreover have "ns \<noteq> []" "set ns = set is" using ns(1,2) by (auto dest: arg_cong [where f = set])
  ultimately show ?thesis using ns(3) by (auto simp: normalizeOutputIndices_ok)
qed

text \<open>C22: What the page asks for is what the agent does: a divider command the page accepts reaches the agent with the outputs asked for,
  sorted and without repetition, the divider, the clock and the device asked for, each of which the agent accepts too.\<close>

theorem divider_command_reaches_agent:
  assumes "json_reads P J" and "json_numbers P" and "pf_poco F = P" and "be_poco E = P"
    and "applyDividersPayload P devicePath outputs divider hz = Inr arguments" and "devicePath \<noteq> []"
    and "request = obj_set (obj_set arguments ''action'' (JStr ''divider-apply'')) ''message'' (JStr message)"
    and "p_parse P (p_stringify P (JObj request)) = Inr request" and "p_stringify P (JObj request) \<noteq> []"
  shows "decodeCommand F (commandMessage E n now ''divider-apply'' message arguments) a = Some (Inr (''divider-apply'', message, request), a) \<and>
    parseOutputIndices P request = Inr (remdups_adj (sort outputs)) \<and> p_getInt P request ''divider'' = Inr divider \<and>
    requestReferenceClockHz P content request = Inr hz \<and> requestDevicePath P content request = devicePath \<and>
    (\<forall>i \<in> set outputs. validateDividerOrThrow P i divider = Inr ()) \<and> validateReferenceClockHzOrThrow hz = Inr ()"
proof -
  obtain ns where ns: "normalizeOutputIndicesOrThrow outputs = Inr ns" and valid: "validateDividers P divider ns = Inr ()"
      "validateReferenceClockHzOrThrow hz = Inr ()"
    and arguments: "arguments = obj_set (obj_set (createDividerRequestPayload devicePath hz) ''divider'' (JInt divider))
      ''outputIndices'' (JArr (map JInt ns))"
    using assms(5) by (auto simp: applyDividersPayload_def split: sum.splits)
  have ns': "ns = remdups_adj (sort outputs)" "outputs \<noteq> []" "\<forall>i \<in> set outputs. 0 \<le> i \<and> i < int kDividerOutputCount"
    using ns by (simp_all add: normalizeOutputIndices_ok)
  have same: "set ns = set outputs" using ns'(1) by simp
  then have "ns \<noteq> []" using ns'(2) by auto
  have "List.find (\<lambda>i. validateDividerOrThrow P i divider \<noteq> Inr ()) ns = None"
    using valid(1) by (auto simp: validateDividers_def find_Some_iff split: option.splits)
  then have each: "\<forall>i \<in> set outputs. validateDividerOrThrow P i divider = Inr ()" using same by (auto simp: find_None_iff)
  obtain i where "i \<in> set outputs" using ns'(2) by (cases outputs) auto
  then have "0 < divider" "divider \<le> 1023" using each by (auto simp: validateDivider_ok dividerLimitForOutput_def split: if_splits)
  then have small: "int32 divider" "\<forall>i \<in> set ns. int32 i"
    using ns'(3) same by (auto simp: int32_def kDividerOutputCount_def)
  have member: "obj_get request ''action'' = Some (JStr ''divider-apply'')" "obj_get request ''message'' = Some (JStr message)"
      "obj_get request ''outputIndices'' = Some (JArr (map JInt ns))" "obj_get request ''divider'' = Some (JInt divider)"
      "obj_get request ''referenceClockHz'' = Some (JInt (uint hz))" "obj_get request ''devicePath'' = Some (JStr devicePath)"
    by (simp_all add: assms(7) arguments createDividerRequestPayload_def obj_get_set) (simp_all add: obj_get_def)
  note read = json_readsD [OF assms(1)]
  have "dm_payload (commandMessage E n now ''divider-apply'' message arguments) = p_stringify P (JObj request)"
    by (simp add: commandMessage_def assms(4,7))
  then have "decodeCommand F (commandMessage E n now ''divider-apply'' message arguments) a = Some (Inr (''divider-apply'', message, request), a)"
    using assms(9) read(2) [OF member(1)] read(2) [OF member(2)] by (simp add: decodeCommand_def assms(3,8) p_ret_def)
  moreover have "parseOutputIndices P request = Inr ns"
    using read(9) [OF member(3)] \<open>ns \<noteq> []\<close> element_ints_read [OF assms(2) small(2)] normalize_again [OF ns]
    by (simp add: parseOutputIndices_def)
  moreover have "p_getInt P request ''divider'' = Inr divider"
  proof -
    have "poco_json P" using assms(1) by (simp add: json_reads_def)
    then have "\<forall>ob k i. obj_get ob k = Some (JInt i) \<longrightarrow> - (2 ^ 31) \<le> i \<longrightarrow> i < 2 ^ 31 \<longrightarrow> p_getInt P ob k = Inr i"
      unfolding poco_json_def by (elim conjE)
    then show ?thesis using member(4) small(1) unfolding int32_def by blast
  qed
  moreover have "requestReferenceClockHz P content request = Inr hz"
  proof -
    have "p_getUInt64 P request ''referenceClockHz'' = Inr hz"
      using assms(2) member(5) uint_lt2p [of hz] unfolding json_numbers_def by fastforce
    then show ?thesis using member(5) valid(2) by (simp add: requestReferenceClockHz_def)
  qed
  moreover have "requestDevicePath P content request = devicePath"
    using read(3) [OF member(6)] member(6) assms(6) by (simp add: requestDevicePath_def requestStringField_def resolvePreferredDevicePath_def)
  ultimately show ?thesis using each valid(2) ns'(1) by blast
qed

section \<open>Two readers of one file\<close>

text \<open>A line sets the clock to a number other than zero, or leaves it alone; the rest of the configuration does not depend on the clock.\<close>

lemma load_entry_clock:
  "\<exists>h. h \<noteq> Some 0 \<and> (\<forall>c hz. load_entry P (c\<lparr>sc_referenceClockHz := hz\<rparr>) key val =
     (load_entry P c key val)\<lparr>sc_referenceClockHz := (case h of None \<Rightarrow> hz | Some k \<Rightarrow> k)\<rparr>)"
proof (cases "key = ''referenceClockHz'' \<and> (\<exists>k. parseUInt64Strict val = Some k \<and> validateReferenceClockHzOrThrow k = Inr ())")
  case True
  then obtain k where k: "parseUInt64Strict val = Some k" "validateReferenceClockHzOrThrow k = Inr ()" by blast
  then have "k \<noteq> 0" by (simp add: validateReferenceClock_ok)
  then show ?thesis using True k by (intro exI [of _ "Some k"]) (simp add: load_entry_def)
next
  case False
  then show ?thesis
    by (intro exI [of _ None]) (auto simp: load_entry_def Let_def split: option.split sum.split)
qed

lemma load_line_clock:
  "\<exists>h. h \<noteq> Some 0 \<and> (\<forall>c hz. load_line P (c\<lparr>sc_referenceClockHz := hz\<rparr>) l =
     (load_line P c l)\<lparr>sc_referenceClockHz := (case h of None \<Rightarrow> hz | Some k \<Rightarrow> k)\<rparr>)"
proof (cases "p_trim P l = [] \<or> p_trim P l ! 0 = CHR ''#'' \<or> find_char (CHR ''='') (p_trim P l) = None")
  case True
  then show ?thesis by (intro exI [of _ None]) (auto simp: load_line_def Let_def)
next
  case False
  then obtain i where "find_char (CHR ''='') (p_trim P l) = Some i" by blast
  then show ?thesis using False load_entry_clock by (simp add: load_line_def Let_def)
qed

lemma load_lines_clock:
  "\<exists>h. h \<noteq> Some 0 \<and> (\<forall>c hz. foldl (load_line P) (c\<lparr>sc_referenceClockHz := hz\<rparr>) lines =
     (foldl (load_line P) c lines)\<lparr>sc_referenceClockHz := (case h of None \<Rightarrow> hz | Some k \<Rightarrow> k)\<rparr>)"
proof (induction lines)
  case Nil
  then show ?case by (intro exI [of _ None]) simp
next
  case (Cons l lines)
  then obtain h where h: "h \<noteq> Some 0" "\<And>c hz. foldl (load_line P) (c\<lparr>sc_referenceClockHz := hz\<rparr>) lines =
      (foldl (load_line P) c lines)\<lparr>sc_referenceClockHz := (case h of None \<Rightarrow> hz | Some k \<Rightarrow> k)\<rparr>" by blast
  obtain g where g: "g \<noteq> Some 0" "\<And>c hz. load_line P (c\<lparr>sc_referenceClockHz := hz\<rparr>) l =
      (load_line P c l)\<lparr>sc_referenceClockHz := (case g of None \<Rightarrow> hz | Some k \<Rightarrow> k)\<rparr>" using load_line_clock by blast
  show ?case using h(1) g(1) by (intro exI [of _ "case h of None \<Rightarrow> g | Some k \<Rightarrow> Some k"]) (auto simp: g(2) h(2) split: option.split)
qed

text \<open>The page and the agent read the state file alike: what the page loads is what the agent loads, except that where the file has no
  usable clock the page takes the clock its bundle is configured with.\<close>

theorem page_reads_state_like_agent:
  "webLoadSavedDividerConfiguration P hz content = (loadSavedDividerConfiguration P content)\<lparr>sc_referenceClockHz :=
     (if sc_referenceClockHz (webLoadSavedDividerConfiguration P 0 content) = 0 then hz
      else sc_referenceClockHz (loadSavedDividerConfiguration P content))\<rparr>"
proof (cases content)
  case None
  then show ?thesis by (simp add: webLoadSavedDividerConfiguration_def loadSavedDividerConfiguration_def Let_def)
next
  case (Some contents)
  let ?F = "foldl (load_line P) default_saved_config (getlines contents)"
  obtain h where h: "h \<noteq> Some 0" "\<And>x. foldl (load_line P) (default_saved_config\<lparr>sc_referenceClockHz := x\<rparr>) (getlines contents) =
      ?F\<lparr>sc_referenceClockHz := (case h of None \<Rightarrow> x | Some k \<Rightarrow> k)\<rparr>"
    using load_lines_clock [of P "getlines contents"] by blast
  have "sc_referenceClockHz ?F = (case h of None \<Rightarrow> sc_referenceClockHz default_saved_config | Some k \<Rightarrow> k)"
    using arg_cong [OF h(2) [of "sc_referenceClockHz default_saved_config"], where f = sc_referenceClockHz] by simp
  then show ?thesis
    using h(1) by (cases h)
      (simp_all add: Some webLoadSavedDividerConfiguration_def loadSavedDividerConfiguration_def Let_def h(2) finish_config_def)
qed

section \<open>Witnesses\<close>

definition sample_ui_env :: "(entities \<times> nat, unit, (string \<times> nat \<times> int) list, unit) aq_env" where
  "sample_ui_env = \<lparr>ae_launcher = sample_launcher, ae_bridge = sample_bridge_env sample_poco, ae_iso = (\<lambda>_. ''now'')\<rparr>"

definition sample_ui :: "(entities \<times> nat, unit, (string \<times> nat \<times> int) list, unit) aq_ui" where
  "sample_ui = \<lparr>aq_exchange = launcher_start, aq_bridge = sample_bridge, aq_configured = kFallbackReferenceClockHz, aq_snapshots = 0, aq_tick = 0\<rparr>"

definition start_request :: aq_request where
  "start_request = \<lparr>ar_rq = sample_request 5 None [], ar_rounds = [], ar_late = [], ar_read = (\<lambda>_. None)\<rparr>"

lemma only_users_command_the_agent_witness:
  "let t = on_ui_event sample_ui_env (AcquisitionRequest start_request) sample_ui in
    aq_bridge t = sample_bridge \<and> ex_status (aq_exchange t) = HTTP_UNAUTHORIZED"
  using only_users_command_the_agent [of sample_ui "AcquisitionRequest start_request" start_request sample_ui_env "[]"]
  by (auto simp: Let_def sample_ui_def logged_in_def)

lemma divider_command_reaches_agent_witness:
  "\<exists>P arguments request. applyDividersPayload P ''/dev/i2c-1'' [2, 0, 2] 10 1000000 = Inr arguments \<and>
    parseOutputIndices P request = Inr [0, 2] \<and> p_getInt P request ''divider'' = Inr 10 \<and>
    requestReferenceClockHz P None request = Inr 1000000 \<and> requestDevicePath P None request = ''/dev/i2c-1''"
proof -
  let ?arguments = "obj_set (obj_set (createDividerRequestPayload ''/dev/i2c-1'' 1000000) ''divider'' (JInt 10)) ''outputIndices'' (JArr [JInt 0, JInt 2])"
  let ?request = "obj_set (obj_set ?arguments ''action'' (JStr ''divider-apply'')) ''message'' (JStr [])"
  let ?P = "sample_poco\<lparr>p_parse := \<lambda>t. Inr ?request\<rparr>"
  have reads: "json_reads ?P sample_access" using sample_access_reads by (simp add: json_reads_def poco_json_def)
  have numbers: "json_numbers ?P" by (simp add: json_numbers_def sample_poco_def)
  have "normalizeOutputIndicesOrThrow [2, 0, 2] = Inr [0, 2]" by (simp add: normalizeOutputIndicesOrThrow_def kDividerOutputCount_def)
  moreover have "validateDividers ?P 10 [0, 2] = Inr ()"
    by (simp add: validateDividers_def validateDividerOrThrow_def kDividerOutputCount_def dividerLimitForOutput_def)
  moreover have "validateReferenceClockHzOrThrow 1000000 = Inr ()" by (simp add: validateReferenceClock_ok)
  ultimately have payload: "applyDividersPayload ?P ''/dev/i2c-1'' [2, 0, 2] 10 1000000 = Inr ?arguments"
    by (simp add: applyDividersPayload_def)
  have "p_stringify ?P j \<noteq> []" for j by (simp add: sample_poco_def)
  from divider_command_reaches_agent [where content = None and F = "sample_platform\<lparr>pf_poco := ?P\<rparr>" and E = "sample_bridge_env ?P",
      OF reads numbers _ _ payload _ refl _ this]
  show ?thesis using payload by (intro exI [of _ ?P] exI [of _ ?arguments] exI [of _ ?request]) (simp add: sample_bridge_env_def)
qed

end
