(* ===== verification/ServiceQuery.thy ===== *)
theory ServiceQuery
  imports AgentSupport "HOL-Library.List_Lexorder" "HOL-Library.Char_ord"
begin

text \<open>
  The query language of the service registry (\<open>src/platform/OSP/src/QLTokens.cpp\<close>, \<open>QLParser.cpp\<close>, \<open>QLExpr.cpp\<close>,
  \<open>Properties.cpp\<close>): the scanning of tokens, the recursive-descent parser, the expressions and their
  evaluation on the properties of a service, the pattern matcher. POCO's tokenizer, number conversions, regular
  expressions and the comparison without case are parameters.
\<close>

section \<open>The library\<close>

text \<open>
  What \<open>StreamTokenizer::next\<close> delivers, one call after the other: a token, or the exception its rule throws. When
  the list is used up, it delivers the token for the end of the input.
\<close>

datatype token_class =
    OPERATOR_TOKEN | IDENTIFIER_TOKEN | STRING_LITERAL_TOKEN | INTEGER_LITERAL_TOKEN | FLOAT_LITERAL_TOKEN
  | USER_TOKEN | INVALID_TOKEN | EOF_TOKEN

record ql_token =
  tk_class :: token_class
  tk_value :: string

datatype ql_input = Tok ql_token | Fails exc

text \<open>\<open>'d\<close> are the doubles, with the comparisons of the language.\<close>

record 'd ql_api =
  qa_tokens :: "string \<Rightarrow> ql_input list"          \<comment> \<open>\<open>StreamTokenizer::next\<close> until the end of the input\<close>
  qa_icompare :: "string \<Rightarrow> string \<Rightarrow> int"         \<comment> \<open>\<open>Poco::icompare\<close>\<close>
  qa_parse :: "string \<Rightarrow> exc + int"               \<comment> \<open>\<open>NumberParser::parse\<close>\<close>
  qa_parse64 :: "string \<Rightarrow> exc + int"             \<comment> \<open>\<open>NumberParser::parse64\<close>\<close>
  qa_parseFloat :: "string \<Rightarrow> exc + 'd"           \<comment> \<open>\<open>NumberParser::parseFloat\<close>\<close>
  qa_zero :: 'd                                     \<comment> \<open>the double 0\<close>
  qa_eq :: "'d \<Rightarrow> 'd \<Rightarrow> bool"
  qa_less :: "'d \<Rightarrow> 'd \<Rightarrow> bool"
  qa_lessEq :: "'d \<Rightarrow> 'd \<Rightarrow> bool"
  qa_regExp :: "string \<Rightarrow> exc option"             \<comment> \<open>\<open>RegularExpression(pattern)\<close>: the exception, if it throws\<close>
  qa_regExpMatch :: "string \<Rightarrow> string \<Rightarrow> exc + bool" \<comment> \<open>\<open>RegularExpression::match\<close>\<close>
  qa_char :: "char \<Rightarrow> int"                        \<comment> \<open>the value of a \<open>char\<close>, whose sign depends on the platform\<close>
  qa_format :: "int \<Rightarrow> string"                    \<comment> \<open>\<open>NumberFormatter::format\<close> of an \<open>int\<close> or \<open>Int64\<close>\<close>
  qa_formatFloat :: "'d \<Rightarrow> string"                \<comment> \<open>\<open>NumberFormatter::format\<close> of a \<open>double\<close>\<close>

text \<open>Dereferencing a null \<open>AutoPtr\<close> throws \<open>NullPointerException\<close>; \<open>ExistsException\<close> is its own class too.\<close>

definition nullPointer :: exc where
  "nullPointer = PocoException ''Null pointer''"

definition existsException :: "string \<Rightarrow> exc" where
  "existsException name = PocoException (''Exists: '' @ name)"

text \<open>\<open>SyntaxException(msg, arg)\<close>\<close>

definition syntaxException :: "string \<Rightarrow> string \<Rightarrow> exc" where
  "syntaxException msg arg = SyntaxException (msg @ '': '' @ arg)"

section \<open>Tokens\<close>

text \<open>
  Every rule has \<open>start\<close>, which decides on the first character (and a look at the next one), and \<open>finish\<close>, which
  takes the rest of the token from the stream. Both get the first character and the stream after it.
\<close>

definition qlSyntaxError :: "string \<Rightarrow> string \<Rightarrow> exc" where
  "qlSyntaxError expected actual = SyntaxException (''expected: '' @ expected @ '', got: '' @ actual)"

text \<open>\<open>peek\<close> cast to \<open>char\<close>: the end of the stream is the character 255.\<close>

definition peek_char :: "string \<Rightarrow> char" where
  "peek_char s = (case s of [] \<Rightarrow> CHR 0xFF | c # _ \<Rightarrow> c)"

definition next_is :: "char \<Rightarrow> string \<Rightarrow> bool" where
  "next_is c s \<longleftrightarrow> (case s of [] \<Rightarrow> False | d # _ \<Rightarrow> d = c)"

datatype ql_op =
  OP_OPENPARENT | OP_CLOSPARENT | OP_LT | OP_LE | OP_GT | OP_GE | OP_EQ | OP_MATCH | OP_NOT | OP_NE | OP_AND | OP_OR

definition opMap :: "(string \<times> ql_op) list" where
  "opMap =
     [(''('', OP_OPENPARENT), ('')'', OP_CLOSPARENT), (''<'', OP_LT), (''<='', OP_LE), (''>'', OP_GT), (''>='', OP_GE),
      (''=='', OP_EQ), (''=~'', OP_MATCH), (''!'', OP_NOT), (''!='', OP_NE), (''&&'', OP_AND), (''||'', OP_OR)]"

definition operatorStart :: "char \<Rightarrow> bool" where
  "operatorStart c \<longleftrightarrow> c \<in> set ''()<>=!&|''"

definition operatorFinish :: "char \<Rightarrow> string \<Rightarrow> exc + string \<times> string" where
  "operatorFinish c s =
     (let next = peek_char s; alone = Inr ([c], s); taken = Inr ([c, next], tl s) in
      if c = CHR ''('' \<or> c = CHR '')'' then alone
      else if c = CHR ''<'' \<or> c = CHR ''>'' then (if next = CHR ''='' then taken else alone)
      else if c = CHR ''&'' then (if next = CHR ''&'' then taken else Inl (qlSyntaxError ''&'' [next]))
      else if c = CHR ''|'' then (if next = CHR ''|'' then taken else Inl (qlSyntaxError ''|'' [next]))
      else if c = CHR ''='' then (if next = CHR ''~'' \<or> next = CHR ''='' then taken else alone)
      else if c = CHR ''!'' then (if next = CHR ''='' then taken else alone)
      else Inl (StdException ''bugcheck''))"

definition in_range :: "char \<Rightarrow> char \<Rightarrow> char \<Rightarrow> bool" where
  "in_range lo c hi \<longleftrightarrow> (of_char lo :: nat) \<le> of_char c \<and> (of_char c :: nat) \<le> of_char hi"

definition identifierStart :: "char \<Rightarrow> bool" where
  "identifierStart c \<longleftrightarrow>
     in_range (CHR ''A'') c (CHR ''Z'') \<or> in_range (CHR ''a'') c (CHR ''z'') \<or> c = CHR ''_''"

definition identifierChar :: "char \<Rightarrow> bool" where
  "identifierChar c \<longleftrightarrow>
     in_range (CHR ''A'') c (CHR ''Z'') \<or> in_range (CHR ''a'') c (CHR ''z'') \<or> in_range (CHR ''0'') c (CHR ''9'') \<or>
     c = CHR ''_'' \<or> c = CHR ''.''"

definition identifierFinish :: "char \<Rightarrow> string \<Rightarrow> string \<times> string" where
  "identifierFinish c s = (c # takeWhile identifierChar s, dropWhile identifierChar s)"

text \<open>
  A string literal goes on to the next quote; a backslash takes the character after it along. At the end of the
  stream or of the line it is unterminated.
\<close>

fun stringLiteralLoop :: "string \<Rightarrow> (string \<times> string) option" where
  "stringLiteralLoop [] = None"
| "stringLiteralLoop (next # s) =
     (if next = CHR 0x22 then Some ([next], s)
      else if next = CHR 0x0A \<or> next = CHR 0x0D then None
      else if next = CHR 0x5C then
        (case s of [] \<Rightarrow> None | taken # s' \<Rightarrow> map_option (\<lambda>(v, r). (next # taken # v, r)) (stringLiteralLoop s'))
      else map_option (\<lambda>(v, r). (next # v, r)) (stringLiteralLoop s))"

definition stringLiteralFinish :: "char \<Rightarrow> string \<Rightarrow> exc + string \<times> string" where
  "stringLiteralFinish c s =
     (case stringLiteralLoop s of
        None \<Rightarrow> Inl (SyntaxException ''Unterminated string literal'')
      | Some (v, r) \<Rightarrow> Inr (c # v, r))"

fun unescapeLoop :: "string \<Rightarrow> string" where
  "unescapeLoop [] = []"
| "unescapeLoop (c # s) =
     (if c = CHR 0x22 then []
      else if c = CHR 0x5C then (case s of [] \<Rightarrow> [] | d # s' \<Rightarrow> d # unescapeLoop s')
      else c # unescapeLoop s)"

definition stringLiteralAsString :: "string \<Rightarrow> string" where
  "stringLiteralAsString v =
     (case v of [] \<Rightarrow> [] | c # s \<Rightarrow> unescapeLoop (if c = CHR 0x22 then s else v))"

definition regExpStart :: "char \<Rightarrow> bool" where
  "regExpStart c \<longleftrightarrow> c = CHR ''/'' \<or> c = CHR ''#''"

definition regExpFinish :: "char \<Rightarrow> string \<Rightarrow> exc + string \<times> string" where
  "regExpFinish c s =
     (let go = (\<lambda>next. next \<noteq> c \<and> next \<noteq> CHR 0x0A \<and> next \<noteq> CHR 0x0D); rest = dropWhile go s in
      if next_is c rest then Inr (c # takeWhile go s @ [c], tl rest)
      else Inl (SyntaxException ''Unterminated regular expression''))"

definition regExpAsString :: "string \<Rightarrow> string" where
  "regExpAsString v = (case v of [] \<Rightarrow> [] | c # s \<Rightarrow> takeWhile (\<lambda>d. d \<noteq> c) s)"

definition next_digit :: "string \<Rightarrow> bool" where
  "next_digit s \<longleftrightarrow> (case s of [] \<Rightarrow> False | d # _ \<Rightarrow> c_isdigit d)"

definition c_isxdigit :: "char \<Rightarrow> bool" where
  "c_isxdigit c \<longleftrightarrow> c_isdigit c \<or> in_range (CHR ''A'') c (CHR ''F'') \<or> in_range (CHR ''a'') c (CHR ''f'')"

definition numberStart :: "char \<Rightarrow> string \<Rightarrow> bool" where
  "numberStart c s \<longleftrightarrow> c_isdigit c \<or> c = CHR ''.'' \<and> next_digit s"

text \<open>The exponent, after the digits; \<open>flt\<close> is \<open>_isFloat\<close>, \<open>v\<close> the text taken so far.\<close>

definition numberExponent :: "bool \<Rightarrow> string \<Rightarrow> string \<Rightarrow> exc + bool \<times> string \<times> string" where
  "numberExponent flt v s =
     (if next_is (CHR ''e'') s \<or> next_is (CHR ''E'') s then
        (let v1 = v @ [hd s]; s1 = tl s;
             signed = next_is (CHR ''+'') s1 \<or> next_is (CHR ''-'') s1;
             v2 = (if signed then v1 @ [hd s1] else v1); s2 = (if signed then tl s1 else s1) in
         if next_digit s2 then Inr (True, v2 @ takeWhile c_isdigit s2, dropWhile c_isdigit s2)
         else Inl (qlSyntaxError ''digit'' [peek_char s2]))
      else Inr (flt, v, s))"

definition numberFinish :: "char \<Rightarrow> string \<Rightarrow> exc + bool \<times> string \<times> string" where
  "numberFinish c s =
     (let fraction = (\<lambda>flt v s. numberExponent flt (v @ takeWhile c_isdigit s) (dropWhile c_isdigit s)) in
      if c \<noteq> CHR ''.'' then
        (if next_is (CHR ''x'') s then Inr (False, c # CHR ''x'' # takeWhile c_isxdigit (tl s), dropWhile c_isxdigit (tl s))
         else
           (let v = c # takeWhile c_isdigit s; s1 = dropWhile c_isdigit s in
            if next_is (CHR ''.'') s1 \<and> \<not> next_is (CHR ''.'') (tl s1) then fraction True (v @ ''.'') (tl s1)
            else fraction False v s1))
      else fraction True [c, peek_char s] (tl s))"

text \<open>The rules in the order in which the constructor of \<open>QLParser\<close> adds them; white space is skipped by the tokenizer.\<close>

definition scanToken :: "char \<Rightarrow> string \<Rightarrow> exc + ql_token \<times> string" where
  "scanToken c s =
     (let token = (\<lambda>k. map_sum id (\<lambda>(v, r). (\<lparr>tk_class = k, tk_value = v\<rparr>, r))) in
      if operatorStart c then token OPERATOR_TOKEN (operatorFinish c s)
      else if identifierStart c then token IDENTIFIER_TOKEN (Inr (identifierFinish c s))
      else if c = CHR 0x22 then token STRING_LITERAL_TOKEN (stringLiteralFinish c s)
      else if numberStart c s then
        map_sum id (\<lambda>(flt, v, r). (\<lparr>tk_class = (if flt then FLOAT_LITERAL_TOKEN else INTEGER_LITERAL_TOKEN), tk_value = v\<rparr>, r))
          (numberFinish c s)
      else if regExpStart c then token USER_TOKEN (regExpFinish c s)
      else Inr (\<lparr>tk_class = INVALID_TOKEN, tk_value = [c]\<rparr>, s))"

text \<open>\<open>Token::asString\<close>, and \<open>asInteger\<close> of an operator: \<open>None\<close> for the 0 of a text that is none (a single \<open>=\<close>).\<close>

definition tokenString :: "ql_token \<Rightarrow> string" where
  "tokenString t = tk_value t"

definition tokenAsString :: "ql_token \<Rightarrow> string" where
  "tokenAsString t =
     (case tk_class t of
        STRING_LITERAL_TOKEN \<Rightarrow> stringLiteralAsString (tk_value t)
      | USER_TOKEN \<Rightarrow> regExpAsString (tk_value t)
      | _ \<Rightarrow> tk_value t)"

definition tokenOperator :: "ql_token \<Rightarrow> ql_op option" where
  "tokenOperator t = (if tk_class t = OPERATOR_TOKEN then map_of opMap (tk_value t) else None)"

text \<open>
  The documented behaviour of \<open>StreamTokenizer\<close>: white space is skipped, the first rule that starts on the next
  character makes the token, an exception of the rule leaves \<open>next\<close>.
\<close>

definition tokenizer_laws :: "(string \<Rightarrow> ql_input list) \<Rightarrow> bool" where
  "tokenizer_laws T \<longleftrightarrow>
     T [] = [] \<and>
     (\<forall>c s. T (c # s) =
        (if c_isspace c then T s
         else case scanToken c s of Inl e \<Rightarrow> [Fails e] | Inr (t, r) \<Rightarrow> Tok t # T r))"

section \<open>Properties\<close>

text \<open>
  \<open>std::map<std::string, std::string, ILT>\<close>: entries in the order of their keys, a key found by comparison without
  case. Assigning to a key that differs in case only keeps the key that is there.
\<close>

type_synonym service_props = "(string \<times> string) list"

fun propsFind :: "'d ql_api \<Rightarrow> service_props \<Rightarrow> string \<Rightarrow> string option" where
  "propsFind A [] key = None"
| "propsFind A ((k, v) # ps) key = (if qa_icompare A key k = 0 then Some v else propsFind A ps key)"

fun propsSet :: "'d ql_api \<Rightarrow> string \<Rightarrow> string \<Rightarrow> service_props \<Rightarrow> service_props" where
  "propsSet A key value [] = [(key, value)]"
| "propsSet A key value ((k, v) # ps) =
     (if qa_icompare A key k = 0 then (k, value) # ps
      else if qa_icompare A key k < 0 then (key, value) # (k, v) # ps
      else (k, v) # propsSet A key value ps)"

definition PROP_TRUE :: string where "PROP_TRUE = ''true''"
definition PROP_FALSE :: string where "PROP_FALSE = ''false''"

definition propsHas :: "'d ql_api \<Rightarrow> service_props \<Rightarrow> string \<Rightarrow> bool" where
  "propsHas A ps key \<longleftrightarrow> propsFind A ps key \<noteq> None"

definition propsGet :: "'d ql_api \<Rightarrow> service_props \<Rightarrow> string \<Rightarrow> exc + string" where
  "propsGet A ps key = (case propsFind A ps key of Some v \<Rightarrow> Inr v | None \<Rightarrow> Inl (NotFoundException key))"

definition propsGetOr :: "'d ql_api \<Rightarrow> service_props \<Rightarrow> string \<Rightarrow> string \<Rightarrow> string" where
  "propsGetOr A ps key deflt = (case propsFind A ps key of Some v \<Rightarrow> v | None \<Rightarrow> deflt)"

definition propsGetBool :: "'d ql_api \<Rightarrow> service_props \<Rightarrow> string \<Rightarrow> exc + bool" where
  "propsGetBool A ps key =
     (case propsFind A ps key of Some v \<Rightarrow> Inr (v \<noteq> PROP_FALSE) | None \<Rightarrow> Inl (NotFoundException key))"

definition propsGetBoolOr :: "'d ql_api \<Rightarrow> service_props \<Rightarrow> string \<Rightarrow> bool \<Rightarrow> bool" where
  "propsGetBoolOr A ps key deflt = (case propsFind A ps key of Some v \<Rightarrow> v \<noteq> PROP_FALSE | None \<Rightarrow> deflt)"

definition propsGetInt :: "'d ql_api \<Rightarrow> service_props \<Rightarrow> string \<Rightarrow> exc + int" where
  "propsGetInt A ps key =
     (case propsFind A ps key of Some v \<Rightarrow> qa_parse A v | None \<Rightarrow> Inl (NotFoundException key))"

definition propsGetIntOr :: "'d ql_api \<Rightarrow> service_props \<Rightarrow> string \<Rightarrow> int \<Rightarrow> exc + int" where
  "propsGetIntOr A ps key deflt = (case propsFind A ps key of Some v \<Rightarrow> qa_parse A v | None \<Rightarrow> Inr deflt)"

definition propsGetInt64 :: "'d ql_api \<Rightarrow> service_props \<Rightarrow> string \<Rightarrow> exc + int" where
  "propsGetInt64 A ps key =
     (case propsFind A ps key of Some v \<Rightarrow> qa_parse64 A v | None \<Rightarrow> Inl (NotFoundException key))"

definition propsGetInt64Or :: "'d ql_api \<Rightarrow> service_props \<Rightarrow> string \<Rightarrow> int \<Rightarrow> exc + int" where
  "propsGetInt64Or A ps key deflt = (case propsFind A ps key of Some v \<Rightarrow> qa_parse64 A v | None \<Rightarrow> Inr deflt)"

definition propsGetFloat :: "'d ql_api \<Rightarrow> service_props \<Rightarrow> string \<Rightarrow> exc + 'd" where
  "propsGetFloat A ps key =
     (case propsFind A ps key of Some v \<Rightarrow> qa_parseFloat A v | None \<Rightarrow> Inl (NotFoundException key))"

definition propsGetFloatOr :: "'d ql_api \<Rightarrow> service_props \<Rightarrow> string \<Rightarrow> 'd \<Rightarrow> exc + 'd" where
  "propsGetFloatOr A ps key deflt = (case propsFind A ps key of Some v \<Rightarrow> qa_parseFloat A v | None \<Rightarrow> Inr deflt)"

definition propsSetBool :: "'d ql_api \<Rightarrow> string \<Rightarrow> bool \<Rightarrow> service_props \<Rightarrow> service_props" where
  "propsSetBool A key value = propsSet A key (if value then PROP_TRUE else PROP_FALSE)"

definition propsSetInt :: "'d ql_api \<Rightarrow> string \<Rightarrow> int \<Rightarrow> service_props \<Rightarrow> service_props" where
  "propsSetInt A key value = propsSet A key (qa_format A value)"

definition propsSetFloat :: "'d ql_api \<Rightarrow> string \<Rightarrow> 'd \<Rightarrow> service_props \<Rightarrow> service_props" where
  "propsSetFloat A key value = propsSet A key (qa_formatFloat A value)"

definition propsKeys :: "service_props \<Rightarrow> string list" where
  "propsKeys ps = map fst ps"

text \<open>\<open>icompare\<close> orders the texts up to case.\<close>

definition icompare_laws :: "(string \<Rightarrow> string \<Rightarrow> int) \<Rightarrow> bool" where
  "icompare_laws c \<longleftrightarrow>
     (\<forall>a. c a a = 0) \<and> (\<forall>a b. c a b < 0 \<longleftrightarrow> 0 < c b a) \<and>
     (\<forall>a b d. c a b \<le> 0 \<longrightarrow> c b d \<le> 0 \<longrightarrow> c a d \<le> 0)"

section \<open>Expressions\<close>

text \<open>\<open>Poco::Any\<close> as the parser fills it; \<open>QLNull\<close> is a null \<open>QLExpr::Ptr\<close>.\<close>

datatype 'd ql_value = VInt int | VFloat 'd | VBool bool | VString string

datatype 'd ql_expr =
    QLNull
  | QLAndExpr "'d ql_expr" "'d ql_expr"
  | QLOrExpr "'d ql_expr" "'d ql_expr"
  | QLNotExpr "'d ql_expr"
  | QLExistsExpr string
  | QLEqExpr string "'d ql_value"
  | QLNeExpr string "'d ql_value"
  | QLLtExpr string "'d ql_value"
  | QLLeExpr string "'d ql_value"
  | QLGtExpr string "'d ql_value"
  | QLGeExpr string "'d ql_value"
  | QLMatchExpr string string
  | QLMatchRegExpr string string

text \<open>
  \<open>evaluateImpl\<close> of the six comparisons: the property is read as the type of the value, with a default when it is
  missing, and compared by the operator of the type.
\<close>

definition compareProperty ::
  "'d ql_api \<Rightarrow> (int \<Rightarrow> int \<Rightarrow> bool) \<Rightarrow> ('d \<Rightarrow> 'd \<Rightarrow> bool) \<Rightarrow> (bool \<Rightarrow> bool \<Rightarrow> bool) \<Rightarrow> (string \<Rightarrow> string \<Rightarrow> bool) \<Rightarrow>
     service_props \<Rightarrow> string \<Rightarrow> 'd ql_value \<Rightarrow> exc + bool" where
  "compareProperty A int_op double_op bool_op string_op ps prop v =
     (case v of
        VInt i \<Rightarrow> map_sum id (\<lambda>x. int_op x i) (propsGetIntOr A ps prop 0)
      | VFloat d \<Rightarrow> map_sum id (\<lambda>x. double_op x d) (propsGetFloatOr A ps prop (qa_zero A))
      | VBool b \<Rightarrow> Inr (bool_op (propsGetBoolOr A ps prop False) b)
      | VString s \<Rightarrow> Inr (string_op (propsGetOr A ps prop []) s))"

definition eqImpl where "eqImpl A = compareProperty A (=) (qa_eq A) (=) (=)"
definition neImpl where "neImpl A = compareProperty A (\<noteq>) (\<lambda>x d. \<not> qa_eq A x d) (\<noteq>) (\<noteq>)"
definition ltImpl where "ltImpl A = compareProperty A (<) (qa_less A) (<) (<)"
definition leImpl where "leImpl A = compareProperty A (\<le>) (qa_lessEq A) (\<le>) (\<le>)"
definition gtImpl where "gtImpl A = compareProperty A (>) (\<lambda>x d. qa_less A d x) (>) (>)"
definition geImpl where "geImpl A = compareProperty A (\<ge>) (\<lambda>x d. qa_lessEq A d x) (\<ge>) (\<ge>)"

text \<open>\<open>QLRelExpr::evaluate\<close> catches every \<open>Poco::Exception\<close>.\<close>

definition relEvaluate :: "exc + bool \<Rightarrow> exc + bool" where
  "relEvaluate r = (case r of Inr b \<Rightarrow> Inr b | Inl (StdException m) \<Rightarrow> Inl (StdException m) | Inl e \<Rightarrow> Inr False)"

section \<open>Patterns\<close>

text \<open>After a hit the rest of the set is skipped, up to its closing bracket.\<close>

fun skipSet :: "string \<Rightarrow> exc + string" where
  "skipSet [] = Inl (SyntaxException ''range must be terminated by closing bracket in glob pattern'')"
| "skipSet (p # ps) =
     (if p = CHR '']'' then Inr ps
      else if p = CHR 0x5C then (case ps of [] \<Rightarrow> skipSet [] | q # qs \<Rightarrow> skipSet qs)
      else skipSet ps)"

text \<open>\<open>matchSet\<close> gives its verdict and the pattern after the set; without a hit it may run to the end of the pattern.\<close>

fun rangeLast :: "char \<Rightarrow> string \<Rightarrow> exc + char \<times> string" where
  "rangeLast first [] = Inr (first, [])"
| "rangeLast first (d # ps) =
     (if d \<noteq> CHR ''-'' then Inr (first, d # ps)
      else case ps of [] \<Rightarrow> Inl (SyntaxException ''bad range syntax in glob pattern'') | l # qs \<Rightarrow> Inr (l, qs))"

lemma rangeLast_shorter: "rangeLast first ps = Inr (l, qs) \<Longrightarrow> length qs \<le> length ps"
  by (induction first ps rule: rangeLast.induct) (auto split: if_splits list.splits)

function matchSet :: "(char \<Rightarrow> int) \<Rightarrow> string \<Rightarrow> char \<Rightarrow> exc + bool \<times> string" where
  "matchSet V [] c = Inr (False, [])"
| "matchSet V (p # ps) c =
     (if p = CHR '']'' then Inr (False, ps)
      else if p = CHR 0x5C \<and> ps = [] then Inl (SyntaxException ''backslash must be followed by character in glob pattern'')
      else
        (let first = (if p = CHR 0x5C then hd ps else p); rest = (if p = CHR 0x5C then tl ps else ps) in
         case rangeLast first rest of
           Inl e \<Rightarrow> Inl e
         | Inr (final, qs) \<Rightarrow>
             if V first \<le> V c \<and> V c \<le> V final then map_sum id (Pair True) (skipSet qs)
             else matchSet V qs c))"
  by pat_completeness auto
termination
proof (relation "measure (\<lambda>(V, ps, c). length ps)", goal_cases)
  case 1
  then show ?case by simp
next
  case (2 V p ps c first rest r final qs)
  then have "length qs \<le> length rest" by (metis rangeLast_shorter)
  moreover have "length rest \<le> length ps" using 2 by simp
  ultimately show ?case by simp
qed

lemma skipSet_shorter: "skipSet ps = Inr qs \<Longrightarrow> length qs < length ps"
  by (induction ps rule: skipSet.induct) (auto split: if_splits list.splits)

lemma matchSet_shorter: "matchSet V ps c = Inr (hit, qs) \<Longrightarrow> length qs \<le> length ps"
proof (induction V ps c rule: matchSet.induct)
  case (2 V p ps c)
  let ?first = "if p = CHR 0x5C then hd ps else p" and ?rest = "if p = CHR 0x5C then tl ps else ps"
  show ?case
  proof (cases "p = CHR '']'' \<or> p = CHR 0x5C \<and> ps = []")
    case True
    then show ?thesis using 2(2) by auto
  next
    case False
    with 2(2) obtain final rs where rs: "rangeLast ?first ?rest = Inr (final, rs)"
      by (auto simp: Let_def split: sum.splits)
    have short: "length rs \<le> length ps" using rangeLast_shorter [OF rs] by (auto split: if_splits)
    show ?thesis
    proof (cases "V ?first \<le> V c \<and> V c \<le> V final")
      case True
      then have "skipSet rs = Inr qs" using 2(2) False rs by (auto simp: map_sum_def split: sum.splits)
      then show ?thesis using skipSet_shorter short by fastforce
    next
      case hit: False
      then have "matchSet V rs c = Inr (hit, qs)" using 2(2) False rs by (simp split: if_splits)
      then have "length qs \<le> length rs" using False hit rs by (intro 2(1)) auto
      then show ?thesis using short by simp
    qed
  qed
qed simp

text \<open>
  \<open>match\<close> walks through pattern and text; \<open>starLoop\<close> is the loop that tries the rest of the pattern after a \<open>*\<close> at
  every position of the text.
\<close>

definition badRange :: exc where
  "badRange = SyntaxException ''bad range syntax in pattern''"

function globMatch :: "(char \<Rightarrow> int) \<Rightarrow> string \<Rightarrow> string \<Rightarrow> exc + bool"
  and starLoop :: "(char \<Rightarrow> int) \<Rightarrow> string \<Rightarrow> string \<Rightarrow> exc + bool" where
  "globMatch V [] s = Inr (s = [])"
| "globMatch V (p # ps) [] = Inr (dropWhile (\<lambda>c. c = CHR ''*'') (p # ps) = [])"
| "globMatch V (p # ps) (c # s) =
     (if p = CHR ''?'' then globMatch V ps s
      else if p = CHR ''*'' then (if ps = [] then Inr True else starLoop V ps (c # s))
      else if p = CHR ''['' then
        (let invert = (ps \<noteq> [] \<and> hd ps = CHR ''!''); set = (if invert then tl ps else ps) in
         if set = [] then Inl badRange
         else case matchSet V set c of
             Inl e \<Rightarrow> Inl e
           | Inr (mtch, rest) \<Rightarrow> if invert \<and> mtch \<or> \<not> invert \<and> \<not> mtch then Inr False else globMatch V rest s)
      else if p = CHR 0x5C then
        (if ps = [] then Inl (SyntaxException ''backslash must be followed by character in pattern'')
         else if hd ps \<noteq> c then Inr False else globMatch V (tl ps) s)
      else if p \<noteq> c then Inr False
      else globMatch V ps s)"
| "starLoop V ps [] = Inr False"
| "starLoop V ps (c # s) =
     (case globMatch V ps (c # s) of
        Inl e \<Rightarrow> Inl e
      | Inr m \<Rightarrow> if m then Inr True else starLoop V ps s)"
  by pat_completeness auto
termination
proof (relation "inv_image (less_than <*lex*> less_than <*lex*> less_than)
    (\<lambda>x. case x of Inl (V, ps, s) \<Rightarrow> (length ps, 0::nat, length s) | Inr (V, ps, s) \<Rightarrow> (length ps, 1, length s))", goal_cases)
  case (4 V p ps c s invert set r mtch rest)
  then have "length rest \<le> length set" by (metis matchSet_shorter)
  moreover have "length set \<le> length ps" using 4 by simp
  ultimately show ?case by simp
qed (auto simp: less_Suc_eq_le)

section \<open>Evaluation\<close>

primrec evaluate :: "'d ql_api \<Rightarrow> service_props \<Rightarrow> 'd ql_expr \<Rightarrow> exc + bool" where
  "evaluate A ps QLNull = Inl nullPointer"
| "evaluate A ps (QLAndExpr l r) =
     (case evaluate A ps l of Inl e \<Rightarrow> Inl e | Inr b \<Rightarrow> if b then evaluate A ps r else Inr False)"
| "evaluate A ps (QLOrExpr l r) =
     (case evaluate A ps l of Inl e \<Rightarrow> Inl e | Inr b \<Rightarrow> if b then Inr True else evaluate A ps r)"
| "evaluate A ps (QLNotExpr x) = map_sum id Not (evaluate A ps x)"
| "evaluate A ps (QLExistsExpr prop) = Inr (propsHas A ps prop)"
| "evaluate A ps (QLEqExpr prop v) = relEvaluate (eqImpl A ps prop v)"
| "evaluate A ps (QLNeExpr prop v) = relEvaluate (neImpl A ps prop v)"
| "evaluate A ps (QLLtExpr prop v) = relEvaluate (ltImpl A ps prop v)"
| "evaluate A ps (QLLeExpr prop v) = relEvaluate (leImpl A ps prop v)"
| "evaluate A ps (QLGtExpr prop v) = relEvaluate (gtImpl A ps prop v)"
| "evaluate A ps (QLGeExpr prop v) = relEvaluate (geImpl A ps prop v)"
| "evaluate A ps (QLMatchExpr prop pat) = globMatch (qa_char A) pat (propsGetOr A ps prop [])"
| "evaluate A ps (QLMatchRegExpr prop pat) = qa_regExpMatch A pat (propsGetOr A ps prop [])"

section \<open>The parser\<close>

text \<open>
  The state is what the tokenizer has still to deliver; the current token is passed along, as the code does. The
  functions call one another; \<open>n\<close> bounds the depth of the calls and turns of the loops.
\<close>

type_synonym 'a parser = "(ql_input list, 'a) prog"

definition nextToken :: "ql_token parser" where
  "nextToken s =
     (case s of
        [] \<Rightarrow> Some (Inr \<lparr>tk_class = EOF_TOKEN, tk_value = []\<rparr>, [])
      | Tok t # s' \<Rightarrow> Some (Inr t, s')
      | Fails e # s' \<Rightarrow> Some (Inl e, s'))"

definition isRelOp :: "ql_token \<Rightarrow> bool" where
  "isRelOp t \<longleftrightarrow> tokenOperator t \<in> Some ` {OP_EQ, OP_NE, OP_LT, OP_LE, OP_GT, OP_GE, OP_MATCH}"

definition token2value :: "'d ql_api \<Rightarrow> ql_token \<Rightarrow> exc + 'd ql_value" where
  "token2value A t =
     (case tk_class t of
        STRING_LITERAL_TOKEN \<Rightarrow> Inr (VString (tokenAsString t))
      | INTEGER_LITERAL_TOKEN \<Rightarrow> map_sum id VInt (qa_parse A (tk_value t))
      | FLOAT_LITERAL_TOKEN \<Rightarrow> map_sum id VFloat (qa_parseFloat A (tk_value t))
      | IDENTIFIER_TOKEN \<Rightarrow>
          (let value = tokenAsString t in
           if value = ''true'' then Inr (VBool True)
           else if value = ''false'' then Inr (VBool False)
           else Inl (syntaxException ''Misplaced identifier'' value))
      | _ \<Rightarrow> Inl (syntaxException ''Misplaced token'' (tokenString t)))"

text \<open>The expression an identifier, a relational operator and the token after it stand for.\<close>

definition relExpr :: "'d ql_api \<Rightarrow> string \<Rightarrow> ql_op \<Rightarrow> ql_token \<Rightarrow> exc + 'd ql_expr" where
  "relExpr A prop oper t =
     (let value = (\<lambda>f. map_sum id (f prop) (token2value A t)) in
      case oper of
        OP_EQ \<Rightarrow> value QLEqExpr
      | OP_NE \<Rightarrow> value QLNeExpr
      | OP_LT \<Rightarrow> value QLLtExpr
      | OP_LE \<Rightarrow> value QLLeExpr
      | OP_GT \<Rightarrow> value QLGtExpr
      | OP_GE \<Rightarrow> value QLGeExpr
      | OP_MATCH \<Rightarrow>
          (if tk_class t = STRING_LITERAL_TOKEN then Inr (QLMatchExpr prop (tokenAsString t))
           else if tk_class t = USER_TOKEN then
             (case qa_regExp A (tokenAsString t) of Some e \<Rightarrow> Inl e | None \<Rightarrow> Inr (QLMatchRegExpr prop (tokenAsString t)))
           else Inl (syntaxException ''Misplaced token'' (tokenString t)))
      | _ \<Rightarrow> Inl (syntaxException ''Misplaced token'' (tokenString t)))"

definition identifierExpr :: "'d ql_api \<Rightarrow> string \<Rightarrow> ('d ql_expr \<times> ql_token) parser" where
  "identifierExpr A prop =
     p_bind nextToken (\<lambda>next.
       if isRelOp next then
         p_bind nextToken (\<lambda>arg.
         p_bind (p_lift (relExpr A prop (the (tokenOperator next)) arg)) (\<lambda>expr.
         p_bind nextToken (\<lambda>after. p_ret (expr, after))))
       else p_ret (QLExistsExpr prop, next))"

definition negated :: "bool \<Rightarrow> 'd ql_expr \<Rightarrow> 'd ql_expr" where
  "negated neg expr = (if neg then QLNotExpr expr else expr)"

fun parseExpr :: "nat \<Rightarrow> 'd ql_api \<Rightarrow> ql_token \<Rightarrow> ('d ql_expr \<times> ql_token) parser"
  and orLoop :: "nat \<Rightarrow> 'd ql_api \<Rightarrow> 'd ql_expr \<Rightarrow> ql_token \<Rightarrow> ('d ql_expr \<times> ql_token) parser"
  and parseAndExpr :: "nat \<Rightarrow> 'd ql_api \<Rightarrow> ql_token \<Rightarrow> ('d ql_expr \<times> ql_token) parser"
  and andLoop :: "nat \<Rightarrow> 'd ql_api \<Rightarrow> 'd ql_expr \<Rightarrow> ql_token \<Rightarrow> ('d ql_expr \<times> ql_token) parser"
  and parseRelExpr :: "nat \<Rightarrow> 'd ql_api \<Rightarrow> ql_token \<Rightarrow> ('d ql_expr \<times> ql_token) parser" where
  "parseExpr 0 A next = (\<lambda>s. None)"
| "parseExpr (Suc n) A next = p_bind (parseAndExpr n A next) (\<lambda>(expr, next). orLoop n A expr next)"
| "orLoop 0 A expr next = (\<lambda>s. None)"
| "orLoop (Suc n) A expr next =
     (if tokenOperator next = Some OP_OR then
        p_bind nextToken (\<lambda>next.
        p_bind (parseAndExpr n A next) (\<lambda>(right, next). orLoop n A (QLOrExpr expr right) next))
      else p_ret (expr, next))"
| "parseAndExpr 0 A next = (\<lambda>s. None)"
| "parseAndExpr (Suc n) A next = p_bind (parseRelExpr n A next) (\<lambda>(expr, next). andLoop n A expr next)"
| "andLoop 0 A expr next = (\<lambda>s. None)"
| "andLoop (Suc n) A expr next =
     (if tokenOperator next = Some OP_AND then
        p_bind nextToken (\<lambda>next.
        p_bind (parseRelExpr n A next) (\<lambda>(right, next). andLoop n A (QLAndExpr expr right) next))
      else p_ret (expr, next))"
| "parseRelExpr 0 A next = (\<lambda>s. None)"
| "parseRelExpr (Suc n) A next =
     (let neg = (tokenOperator next = Some OP_NOT) in
      p_bind (if neg then nextToken else p_ret next) (\<lambda>next.
        if tokenOperator next = Some OP_OPENPARENT then
          p_bind nextToken (\<lambda>next.
          p_bind (parseExpr n A next) (\<lambda>(expr, next).
            if tokenOperator next = Some OP_CLOSPARENT then
              p_bind nextToken (\<lambda>next. p_ret (negated neg expr, next))
            else p_throw (SyntaxException (''Expected: '' @ [CHR 0x27, CHR '')'', CHR 0x27]))))
        else if tk_class next = IDENTIFIER_TOKEN then
          p_bind (identifierExpr A (tokenAsString next)) (\<lambda>(expr, next). p_ret (negated neg expr, next))
        else p_ret (negated neg QLNull, next)))"

text \<open>A query of \<open>k\<close> tokens needs no more than \<open>3 k + 5\<close> nested calls.\<close>

definition parse_bound :: "ql_input list \<Rightarrow> nat" where
  "parse_bound s = 3 * length s + 5"

definition parseTokens :: "nat \<Rightarrow> 'd ql_api \<Rightarrow> 'd ql_expr parser" where
  "parseTokens n A =
     p_bind nextToken (\<lambda>next.
     p_bind (parseExpr n A next) (\<lambda>(expr, next).
       if tk_class next = EOF_TOKEN then p_ret expr
       else p_throw (syntaxException ''Extra tokens after expression'' (tokenAsString next))))"

definition qlParse :: "'d ql_api \<Rightarrow> string \<Rightarrow> (exc + 'd ql_expr) option" where
  "qlParse A query = (let s = qa_tokens A query in map_option fst (parseTokens (parse_bound s) A s))"

section \<open>A concrete library\<close>

lemma stringLiteralLoop_shorter: "stringLiteralLoop s = Some (v, r) \<Longrightarrow> length r < length s"
  by (induction s arbitrary: v rule: stringLiteralLoop.induct) (auto split: if_splits list.splits, fastforce+)

lemma numberExponent_shorter: "numberExponent flt v s = Inr (f, w, r) \<Longrightarrow> length r \<le> length s"
  by (auto simp: numberExponent_def Let_def split: if_splits intro: le_trans [OF length_dropWhile_le])

lemma length_drop_twice:
  "length (dropWhile P (tl (dropWhile Q s))) \<le> length s" "length (dropWhile P s) \<le> Suc (length s)"
  by (metis length_dropWhile_le length_tl diff_le_self le_trans) (simp add: length_dropWhile_le le_SucI)

lemma numberFinish_shorter: "numberFinish c s = Inr (f, w, r) \<Longrightarrow> length r \<le> length s"
  unfolding numberFinish_def Let_def
  by (auto split: if_splits dest!: numberExponent_shorter
      intro: le_trans [OF length_dropWhile_le] le_trans [OF _ length_dropWhile_le] length_drop_twice elim!: le_trans
      simp: le_diff_conv)

lemma scanToken_shorter: "scanToken c s = Inr (t, r) \<Longrightarrow> length r \<le> length s"
  unfolding scanToken_def Let_def
  by (auto simp: operatorFinish_def identifierFinish_def stringLiteralFinish_def regExpFinish_def Let_def map_sum_def
      length_dropWhile_le le_diff_conv length_drop_twice split: if_splits sum.splits option.splits
      dest!: numberFinish_shorter stringLiteralLoop_shorter intro: le_trans [OF length_dropWhile_le])

function sample_tokens :: "string \<Rightarrow> ql_input list" where
  "sample_tokens [] = []"
| "sample_tokens (c # s) =
     (if c_isspace c then sample_tokens s
      else case scanToken c s of Inl e \<Rightarrow> [Fails e] | Inr (t, r) \<Rightarrow> Tok t # sample_tokens r)"
  by pat_completeness auto
termination
  by (relation "measure length") (auto simp: less_Suc_eq_le dest: scanToken_shorter sym)

definition sample_icompare :: "string \<Rightarrow> string \<Rightarrow> int" where
  "sample_icompare a b =
     (let s = map c_tolower a; t = map c_tolower b in if s = t then 0 else if s < t then -1 else 1)"

definition sample_number :: "string \<Rightarrow> exc + int" where
  "sample_number s = (case parseIntStrict s of None \<Rightarrow> Inl (SyntaxException s) | Some i \<Rightarrow> Inr i)"

definition sample_ql :: "rat ql_api" where
  "sample_ql =
     \<lparr>qa_tokens = sample_tokens, qa_icompare = sample_icompare, qa_parse = sample_number, qa_parse64 = sample_number,
      qa_parseFloat = (\<lambda>s. map_sum id of_int (sample_number s)), qa_zero = 0, qa_eq = (=), qa_less = (<), qa_lessEq = (\<le>),
      qa_regExp = (\<lambda>p. None), qa_regExpMatch = (\<lambda>p s. Inr (p = s)), qa_char = (\<lambda>c. of_char c),
      qa_format = show_int, qa_formatFloat = (\<lambda>d. [])\<rparr>"

lemma sample_tokenizer: "tokenizer_laws (qa_tokens sample_ql)"
  by (simp add: tokenizer_laws_def sample_ql_def)

lemma sample_icompare_laws: "icompare_laws (qa_icompare sample_ql)"
  by (auto simp: icompare_laws_def sample_ql_def sample_icompare_def Let_def split: if_splits)

end
