(* ===== verification/QueryLaws.thy ===== *)
theory QueryLaws
  imports ServiceQuery
begin

text \<open>
  What the query language guarantees: patterns match what their items say, the parser always returns, and it reads
  back the text of every expression it can produce, with the precedence and the association of the operators.
\<close>

section \<open>What a pattern means\<close>

datatype glob_item = AnyChar | AnySeq | Literal char | OneOf bool "(char \<times> char) list"

definition range_admits :: "(char \<Rightarrow> int) \<Rightarrow> char \<Rightarrow> char \<times> char \<Rightarrow> bool" where
  "range_admits V c ab \<longleftrightarrow> V (fst ab) \<le> V c \<and> V c \<le> V (snd ab)"

primrec admits :: "(char \<Rightarrow> int) \<Rightarrow> glob_item \<Rightarrow> char \<Rightarrow> bool" where
  "admits V AnyChar c = True"
| "admits V AnySeq c = True"
| "admits V (Literal d) c = (c = d)"
| "admits V (OneOf excl rs) c = (list_ex (range_admits V c) rs \<noteq> excl)"

primrec glob_matches :: "(char \<Rightarrow> int) \<Rightarrow> glob_item list \<Rightarrow> string \<Rightarrow> bool" where
  "glob_matches V [] s = (s = [])"
| "glob_matches V (i # is) s =
     (if i = AnySeq then \<exists>n \<le> length s. glob_matches V is (drop n s)
      else s \<noteq> [] \<and> admits V i (hd s) \<and> glob_matches V is (tl s))"

text \<open>The text of a pattern. In a set, a bracket, a backslash, an exclamation mark and a dash are escaped.\<close>

definition set_char :: "char \<Rightarrow> string" where
  "set_char c = (if c \<in> {CHR '']'', CHR 0x5C, CHR ''!'', CHR ''-''} then [CHR 0x5C, c] else [c])"

definition range_text :: "char \<times> char \<Rightarrow> string" where
  "range_text ab = (if fst ab = snd ab then set_char (fst ab) else set_char (fst ab) @ CHR ''-'' # [snd ab])"

primrec item_text :: "glob_item \<Rightarrow> string" where
  "item_text AnyChar = ''?''"
| "item_text AnySeq = ''*''"
| "item_text (Literal c) = (if c \<in> {CHR ''?'', CHR ''*'', CHR ''['', CHR 0x5C} then [CHR 0x5C, c] else [c])"
| "item_text (OneOf excl rs) = CHR ''['' # (if excl then ''!'' else []) @ concat (map range_text rs) @ '']''"

definition glob_text :: "glob_item list \<Rightarrow> string" where
  "glob_text is = concat (map item_text is)"

text \<open>The end of a range is not escaped: it may be neither the bracket nor the backslash.\<close>

primrec item_ok :: "glob_item \<Rightarrow> bool" where
  "item_ok AnyChar = True"
| "item_ok AnySeq = True"
| "item_ok (Literal c) = True"
| "item_ok (OneOf excl rs) = list_all (\<lambda>(a, b). a = b \<or> b \<noteq> CHR '']'' \<and> b \<noteq> CHR 0x5C) rs"

lemma item_text_nonempty [simp]: "item_text i \<noteq> []"
  by (cases i) auto

lemma glob_text_simps [simp]:
  "glob_text [] = []" "glob_text (i # is) = item_text i @ glob_text is" "glob_text is = [] \<longleftrightarrow> is = []"
  by (auto simp: glob_text_def)

text \<open>The text of ranges never starts with a dash or an exclamation mark, and the skipping loop sees no bracket in it.\<close>

definition range_ok :: "char \<times> char \<Rightarrow> bool" where
  "range_ok ab \<longleftrightarrow> fst ab = snd ab \<or> snd ab \<noteq> CHR '']'' \<and> snd ab \<noteq> CHR 0x5C"

lemma item_ok_ranges: "item_ok (OneOf excl rs) \<longleftrightarrow> list_all range_ok rs"
  by (induction rs) (auto simp: range_ok_def)

lemma ranges_text_head:
  "\<exists>d ds. concat (map range_text rs) @ CHR '']'' # rest = d # ds \<and> d \<noteq> CHR ''-'' \<and> d \<noteq> CHR ''!''"
  by (cases rs) (auto simp: range_text_def set_char_def)

lemma skip_set_char: "skipSet (set_char c @ ps) = skipSet ps"
  by (simp add: set_char_def)

lemma skip_ranges: "list_all range_ok rs \<Longrightarrow> skipSet (concat (map range_text rs) @ CHR '']'' # rest) = Inr rest"
  by (induction rs) (auto simp: range_text_def range_ok_def skip_set_char)

lemma matchSet_set_char:
  "matchSet V (set_char a @ ps) c =
     (case rangeLast a ps of
        Inl e \<Rightarrow> Inl e
      | Inr (final, qs) \<Rightarrow> if V a \<le> V c \<and> V c \<le> V final then map_sum id (Pair True) (skipSet qs) else matchSet V qs c)"
  by (auto simp: set_char_def split: sum.splits)

lemma matchSet_ranges:
  assumes "list_all range_ok rs"
  shows "matchSet V (concat (map range_text rs) @ CHR '']'' # rest) c = Inr (list_ex (range_admits V c) rs, rest)"
  using assms
proof (induction rs)
  case (Cons ab rs)
  obtain a b where ab: "ab = (a, b)" by (cases ab)
  obtain d ds where d: "concat (map range_text rs) @ CHR '']'' # rest = d # ds" "d \<noteq> CHR ''-''"
    using ranges_text_head by blast
  let ?ps = "concat (map range_text rs) @ CHR '']'' # rest"
  have t: "concat (map range_text (ab # rs)) @ CHR '']'' # rest = set_char a @ (if a = b then [] else [CHR ''-'', b]) @ ?ps"
    by (simp add: ab range_text_def)
  have last: "rangeLast a ((if a = b then [] else [CHR ''-'', b]) @ ?ps) = Inr (b, ?ps)"
    using d by simp
  have skip: "skipSet ?ps = Inr rest" using Cons.prems by (intro skip_ranges) simp
  show ?case
    unfolding t matchSet_set_char last using Cons skip by (auto simp: ab range_admits_def)
qed simp

text \<open>Only stars match the empty text.\<close>

lemma glob_matches_Nil: "glob_matches V is [] \<longleftrightarrow> list_all (\<lambda>i. i = AnySeq) is"
  by (induction "is") auto

lemma glob_matches_stars: "list_all (\<lambda>i. i = AnySeq) is \<Longrightarrow> is \<noteq> [] \<Longrightarrow> glob_matches V is s"
  by (cases "is") (auto simp: glob_matches_Nil intro!: exI [of _ "length s"])

lemma stars_text: "dropWhile (\<lambda>c. c = CHR ''*'') (glob_text is) = [] \<longleftrightarrow> list_all (\<lambda>i. i = AnySeq) is"
proof (induction "is")
  case (Cons i "is")
  then show ?case by (cases i) auto
qed simp

lemma globMatch_Nil: "globMatch V (glob_text is) [] = Inr (glob_matches V is [])"
proof (cases "is")
  case (Cons i js)
  obtain p ps where p: "glob_text is = p # ps" using Cons by (cases "glob_text is") auto
  show ?thesis using stars_text [of "is"] unfolding p glob_matches_Nil by simp
qed simp

lemma starLoop_tries:
  assumes "\<And>t. globMatch V ps t = Inr (m t)"
  shows "starLoop V ps s = Inr (\<exists>n < length s. m (drop n s))"
proof (induction s)
  case (Cons c s)
  have "(\<exists>n < length (c # s). m (drop n (c # s))) \<longleftrightarrow> m (c # s) \<or> (\<exists>n < length s. m (drop n s))"
    by (auto simp: less_Suc_eq_0_disj)
  then show ?case using Cons assms by simp
qed simp

lemma globMatch_text:
  assumes "list_all item_ok is"
  shows "globMatch V (glob_text is) s = Inr (glob_matches V is s)"
  using assms
proof (induction "is" arbitrary: s)
  case Nil
  then show ?case by simp
next
  case (Cons i "is")
  show ?case
  proof (cases s)
    case Nil
    then show ?thesis using globMatch_Nil [of V "i # is"] by simp
  next
    case s: (Cons c t)
    show ?thesis
    proof (cases i)
      case AnyChar
      then show ?thesis using Cons s by simp
    next
      case (Literal d)
      then show ?thesis using Cons s by auto
    next
      case AnySeq
      show ?thesis
      proof (cases "is = []")
        case True
        then show ?thesis using AnySeq s by (auto intro!: exI [of _ "Suc (length t)"])
      next
        case False
        have "globMatch V (glob_text (i # is)) s = starLoop V (glob_text is) s" using AnySeq s False by simp
        also have "\<dots> = Inr (\<exists>n < length s. glob_matches V is (drop n s))"
          using Cons by (intro starLoop_tries) simp
        also have "(\<exists>n < length s. glob_matches V is (drop n s)) \<longleftrightarrow> (\<exists>n \<le> length s. glob_matches V is (drop n s))"
        proof
          assume "\<exists>n \<le> length s. glob_matches V is (drop n s)"
          then obtain n where n: "n \<le> length s" "glob_matches V is (drop n s)" by blast
          show "\<exists>n < length s. glob_matches V is (drop n s)"
          proof (cases "n = length s")
            case True
            then have "glob_matches V is s" using n False by (simp add: glob_matches_Nil glob_matches_stars)
            then show ?thesis using s by (intro exI [of _ 0]) simp
          next
            case False
            then show ?thesis using n by (intro exI [of _ n]) simp
          qed
        qed (blast intro: less_imp_le)
        finally show ?thesis using AnySeq by simp
      qed
    next
      case (OneOf excl rs)
      have ok: "list_all range_ok rs" using Cons OneOf item_ok_ranges by simp
      let ?set = "concat (map range_text rs) @ CHR '']'' # glob_text is"
      obtain d ds where d: "?set = d # ds" "d \<noteq> CHR ''!''" using ranges_text_head by blast
      have hit: "matchSet V ?set c = Inr (list_ex (range_admits V c) rs, glob_text is)"
        by (rule matchSet_ranges [OF ok])
      have "glob_text (i # is) = CHR ''['' # (if excl then [CHR ''!''] else []) @ ?set" using OneOf by simp
      then have "globMatch V (glob_text (i # is)) s =
          (if list_ex (range_admits V c) rs = excl then Inr False else globMatch V (glob_text is) t)"
        using s d hit by (cases excl) auto
      then show ?thesis using Cons OneOf s by auto
    qed
  qed
qed

section \<open>The parser returns\<close>

text \<open>What is left to read: the current token and the tokens after it.\<close>

definition left :: "ql_token \<Rightarrow> ql_input list \<Rightarrow> nat" where
  "left t s = length s + (if tk_class t = EOF_TOKEN then 0 else 1)"

definition returns :: "('d ql_expr \<times> ql_token) parser \<Rightarrow> ql_input list \<Rightarrow> nat \<Rightarrow> bool" where
  "returns m s k \<longleftrightarrow> (\<exists>r s'. m s = Some (r, s') \<and> (\<forall>x t. r = Inr (x, t) \<longrightarrow> left t s' \<le> k))"

lemma returns_ret: "left t s \<le> k \<Longrightarrow> returns (p_ret (x, t)) s k"
  by (simp add: returns_def)

lemma returns_throw: "returns (p_throw e) s k"
  by (simp add: returns_def)

lemma returns_bind:
  assumes "returns m s k" and "\<And>x t s'. left t s' \<le> k \<Longrightarrow> returns (f (x, t)) s' j"
  shows "returns (p_bind m f) s j"
proof -
  obtain r s' where r: "m s = Some (r, s')" "\<forall>x t. r = Inr (x, t) \<longrightarrow> left t s' \<le> k"
    using assms(1) by (auto simp: returns_def)
  show ?thesis
  proof (cases r)
    case (Inl e)
    then show ?thesis using r by (simp add: returns_def)
  next
    case (Inr xt)
    obtain x t where "xt = (x, t)" by (cases xt)
    then have "p_bind m f s = f (x, t) s'" and "left t s' \<le> k" using r Inr by simp_all
    then show ?thesis using assms(2) [of t s' x] by (simp add: returns_def)
  qed
qed

lemma returns_next:
  assumes "\<And>t s'. left t s' \<le> length s \<Longrightarrow> returns (f t) s' j"
  shows "returns (p_bind nextToken f) s j"
proof (cases s)
  case Nil
  then show ?thesis
    using assms [of "\<lparr>tk_class = EOF_TOKEN, tk_value = []\<rparr>" "[]"] by (simp add: returns_def p_bind_def nextToken_def left_def)
next
  case (Cons i s')
  then show ?thesis
  proof (cases i)
    case (Tok t)
    then show ?thesis using assms [of t s'] Cons by (simp add: returns_def p_bind_def nextToken_def left_def)
  next
    case (Fails e)
    then show ?thesis using Cons by (simp add: returns_def p_bind_def nextToken_def)
  qed
qed

lemma returns_lift: "(\<And>x. returns (f x) s j) \<Longrightarrow> returns (p_bind (p_lift r) f) s j"
  by (cases r) (simp_all add: returns_def)

lemma identifier_returns: "returns (identifierExpr A prop) s (length s)"
  unfolding identifierExpr_def
proof (rule returns_next)
  fix t s' assume t: "left t s' \<le> length s"
  have "returns (p_bind nextToken (\<lambda>arg. p_bind (p_lift (relExpr A prop (the (tokenOperator t)) arg)) (\<lambda>expr.
      p_bind nextToken (\<lambda>after. p_ret (expr, after))))) s' (length s)"
    by (intro returns_next returns_lift returns_ret) (use t in \<open>simp add: left_def split: if_splits\<close>)
  then show "returns (if isRelOp t then p_bind nextToken (\<lambda>arg. p_bind (p_lift (relExpr A prop (the (tokenOperator t)) arg))
      (\<lambda>expr. p_bind nextToken (\<lambda>after. p_ret (expr, after)))) else p_ret (QLExistsExpr prop, t)) s' (length s)"
    using t by (simp add: returns_ret)
qed

text \<open>The rest of \<open>parseRelExpr\<close>, after the exclamation mark.\<close>

definition relBody :: "bool \<Rightarrow> nat \<Rightarrow> 'd ql_api \<Rightarrow> ql_token \<Rightarrow> ('d ql_expr \<times> ql_token) parser" where
  "relBody neg n A next =
     (if tokenOperator next = Some OP_OPENPARENT then
        p_bind nextToken (\<lambda>next.
        p_bind (parseExpr n A next) (\<lambda>(expr, next).
          if tokenOperator next = Some OP_CLOSPARENT then
            p_bind nextToken (\<lambda>next. p_ret (negated neg expr, next))
          else p_throw (SyntaxException (''Expected: '' @ [CHR 0x27, CHR '')'', CHR 0x27]))))
      else if tk_class next = IDENTIFIER_TOKEN then
        p_bind (identifierExpr A (tokenAsString next)) (\<lambda>(expr, next). p_ret (negated neg expr, next))
      else p_ret (negated neg QLNull, next))"

lemma parseRelExpr_body:
  "parseRelExpr (Suc n) A next =
     (if tokenOperator next = Some OP_NOT then p_bind nextToken (relBody True n A) else relBody False n A next)"
  by (auto simp: relBody_def [abs_def] p_bind_def p_ret_def fun_eq_iff)

declare parseRelExpr.simps(2) [simp del]

lemma operator_left: "tokenOperator t = Some oper \<Longrightarrow> left t s = Suc (length s)"
  by (simp add: tokenOperator_def left_def split: if_splits)

lemma relBody_returns:
  assumes parse: "\<And>t s. 3 * left t s + 3 \<le> n \<Longrightarrow> returns (parseExpr n A t) s (left t s)"
    and n: "3 * left t s \<le> n"
  shows "returns (relBody neg n A t) s (left t s)"
proof (cases "tokenOperator t = Some OP_OPENPARENT")
  case True
  note here = operator_left [OF True, of s]
  have "returns (p_bind nextToken (\<lambda>next. p_bind (parseExpr n A next) (\<lambda>(expr, next).
      if tokenOperator next = Some OP_CLOSPARENT then p_bind nextToken (\<lambda>next. p_ret (negated neg expr, next))
      else p_throw (SyntaxException (''Expected: '' @ [CHR 0x27, CHR '')'', CHR 0x27]))))) s (left t s)"
  proof (rule returns_next, rule returns_bind)
    fix t' s' assume t': "left t' s' \<le> length s"
    show "returns (parseExpr n A t') s' (left t' s')" using t' n here by (intro parse) simp
    fix x u s'' assume u: "left u s'' \<le> left t' s'"
    have "returns (p_bind nextToken (\<lambda>next. p_ret (negated neg x, next))) s'' (left t s)"
      by (intro returns_next returns_ret) (use u t' here in \<open>simp add: left_def split: if_splits\<close>)
    then show "returns (case (x, u) of (expr, next) \<Rightarrow>
        if tokenOperator next = Some OP_CLOSPARENT then p_bind nextToken (\<lambda>next. p_ret (negated neg expr, next))
        else p_throw (SyntaxException (''Expected: '' @ [CHR 0x27, CHR '')'', CHR 0x27]))) s'' (left t s)"
      by (simp add: returns_throw)
  qed
  then show ?thesis using True by (simp add: relBody_def)
next
  case False
  have "returns (p_bind (identifierExpr A (tokenAsString t)) (\<lambda>(expr, next). p_ret (negated neg expr, next))) s (left t s)"
    by (rule returns_bind [OF identifier_returns]) (simp add: returns_ret left_def)
  then show ?thesis using False by (simp add: relBody_def returns_ret)
qed

text \<open>With depth \<open>n\<close> every function of the parser returns on inputs that are short enough for it.\<close>

definition deep_enough :: "nat \<Rightarrow> 'd ql_api \<Rightarrow> bool" where
  "deep_enough n A \<longleftrightarrow>
     (\<forall>t s. 3 * left t s + 3 \<le> n \<longrightarrow> returns (parseExpr n A t) s (left t s)) \<and>
     (\<forall>t s e. 3 * left t s + 1 \<le> n \<longrightarrow> returns (orLoop n A e t) s (left t s)) \<and>
     (\<forall>t s. 3 * left t s + 2 \<le> n \<longrightarrow> returns (parseAndExpr n A t) s (left t s)) \<and>
     (\<forall>t s e. 3 * left t s + 1 \<le> n \<longrightarrow> returns (andLoop n A e t) s (left t s)) \<and>
     (\<forall>t s. 3 * left t s + 1 \<le> n \<longrightarrow> returns (parseRelExpr n A t) s (left t s))"

lemma returns_weaken: "returns m s k \<Longrightarrow> k \<le> j \<Longrightarrow> returns m s j"
  by (auto simp: returns_def intro: le_trans)

text \<open>An operand followed by its loop, and a turn of the loop.\<close>

lemma operand_and_loop_return:
  assumes "returns operand s k" and "\<And>e u s'. left u s' \<le> k \<Longrightarrow> returns (loop e u) s' (left u s')"
  shows "returns (p_bind operand (\<lambda>(expr, next). loop expr next)) s k"
  by (rule returns_bind [OF assms(1)]) (auto intro: returns_weaken assms(2))

lemma turn_returns:
  assumes "tokenOperator t = Some oper"
    and "\<And>u s'. left u s' < left t s \<Longrightarrow> returns (operand u) s' (left u s')"
    and "\<And>e u s'. left u s' < left t s \<Longrightarrow> returns (loop e u) s' (left u s')"
  shows "returns (p_bind nextToken (\<lambda>next. p_bind (operand next) (\<lambda>(right, next). loop (f right) next))) s (left t s)"
proof (rule returns_next)
  fix u s' assume "left u s' \<le> length s"
  then have u: "left u s' < left t s" using operator_left [OF assms(1), of s] by simp
  have "returns (p_bind (operand u) (\<lambda>(right, next). loop (f right) next)) s' (left u s')"
    using u by (intro operand_and_loop_return assms(2)) (auto intro: assms(3))
  then show "returns (p_bind (operand u) (\<lambda>(right, next). loop (f right) next)) s' (left t s)"
    using u by (auto intro: returns_weaken)
qed

lemma expr_returns: "deep_enough n A \<Longrightarrow> 3 * left t s + 3 \<le> Suc n \<Longrightarrow> returns (parseExpr (Suc n) A t) s (left t s)"
  unfolding parseExpr.simps deep_enough_def by (rule operand_and_loop_return) simp_all

lemma and_expr_returns: "deep_enough n A \<Longrightarrow> 3 * left t s + 2 \<le> Suc n \<Longrightarrow> returns (parseAndExpr (Suc n) A t) s (left t s)"
  unfolding parseAndExpr.simps deep_enough_def by (rule operand_and_loop_return) simp_all

lemma or_loop_returns: "deep_enough n A \<Longrightarrow> 3 * left t s + 1 \<le> Suc n \<Longrightarrow> returns (orLoop (Suc n) A e t) s (left t s)"
  by (auto simp: returns_ret deep_enough_def intro!: turn_returns)

lemma and_loop_returns: "deep_enough n A \<Longrightarrow> 3 * left t s + 1 \<le> Suc n \<Longrightarrow> returns (andLoop (Suc n) A e t) s (left t s)"
  by (auto simp: returns_ret deep_enough_def intro!: turn_returns)

lemma rel_expr_returns:
  assumes deep: "deep_enough n A" and n: "3 * left t s + 1 \<le> Suc n"
  shows "returns (parseRelExpr (Suc n) A t) s (left t s)"
proof -
  have parse: "returns (parseExpr n A u) s' (left u s')" if "3 * left u s' + 3 \<le> n" for u s'
    using that deep by (simp add: deep_enough_def)
  have "returns (p_bind nextToken (relBody True n A)) s (left t s)" if "tokenOperator t = Some OP_NOT"
  proof (rule returns_next)
    fix t' s' assume t': "left t' s' \<le> length s"
    have "returns (relBody True n A t') s' (left t' s')"
      using t' n operator_left [OF that, of s] by (intro relBody_returns parse) simp_all
    then show "returns (relBody True n A t') s' (left t s)" using t' operator_left [OF that, of s] by (auto intro: returns_weaken)
  qed
  moreover have "returns (relBody False n A t) s (left t s)" using n by (intro relBody_returns parse) simp_all
  ultimately show ?thesis by (simp add: parseRelExpr_body)
qed

lemma parser_returns: "deep_enough n A"
proof (induction n)
  case (Suc n)
  then show ?case
    unfolding deep_enough_def [of "Suc n"]
    by (intro conjI allI impI)
      (rule expr_returns and_expr_returns or_loop_returns and_loop_returns rel_expr_returns, assumption+)+
qed (simp add: deep_enough_def)

lemma parseExpr_returns: "3 * left t s + 3 \<le> n \<Longrightarrow> returns (parseExpr n A t) s (left t s)"
  using parser_returns [of n A] by (simp add: deep_enough_def)

lemma qlParse_returns: "parse_bound s \<le> n \<Longrightarrow> \<exists>r s'. parseTokens n A s = Some (r, s')"
proof -
  assume n: "parse_bound s \<le> n"
  show ?thesis
  proof (cases s)
    case Nil
    let ?t = "\<lparr>tk_class = EOF_TOKEN, tk_value = []\<rparr> :: ql_token"
    have "returns (parseExpr n A ?t) [] (left ?t [])"
      by (rule parseExpr_returns) (use n Nil in \<open>simp add: parse_bound_def left_def\<close>)
    then show ?thesis using Nil
      by (auto simp: parseTokens_def nextToken_def p_bind_def returns_def split: sum.splits)
  next
    case (Cons i s')
    show ?thesis
    proof (cases i)
      case (Tok t)
      have "returns (parseExpr n A t) s' (left t s')"
        by (rule parseExpr_returns) (use n Cons in \<open>simp add: parse_bound_def left_def\<close>)
      then show ?thesis using Cons Tok
        by (auto simp: parseTokens_def nextToken_def p_bind_def returns_def split: sum.splits)
    qed (use Cons in \<open>simp add: parseTokens_def nextToken_def p_bind_def\<close>)
  qed
qed

section \<open>More depth changes nothing\<close>

definition extends :: "('s, 'a) prog \<Rightarrow> ('s, 'a) prog \<Rightarrow> bool" where
  "extends m m' \<longleftrightarrow> (\<forall>s r. m s = Some r \<longrightarrow> m' s = Some r)"

named_theorems deeper \<open>what a deeper parser still returns\<close>

lemma extends_refl [deeper]: "extends m m"
  by (simp add: extends_def)

lemma extends_none [deeper]: "extends (\<lambda>s. None) m"
  by (simp add: extends_def)

lemma extends_bind [deeper]:
  assumes "extends m m'" and "\<And>x. extends (f x) (f' x)"
  shows "extends (p_bind m f) (p_bind m' f')"
  unfolding extends_def
proof (intro allI impI)
  fix s r assume run: "p_bind m f s = Some r"
  obtain r1 s1 where r: "r = (r1, s1)" by fastforce
  from run [unfolded r] show "p_bind m' f' s = Some r"
    by (cases rule: p_bind_cases) (use assms r in \<open>auto simp: extends_def\<close>)
qed

lemma extends_if [deeper]: "extends m m' \<Longrightarrow> extends k k' \<Longrightarrow> extends (if b then m else k) (if b then m' else k')"
  by simp

lemma extends_pair [deeper]: "(\<And>x y. extends (f x y) (f' x y)) \<Longrightarrow> extends (case p of (x, y) \<Rightarrow> f x y) (case p of (x, y) \<Rightarrow> f' x y)"
  by (cases p) simp

definition deepens :: "nat \<Rightarrow> nat \<Rightarrow> 'd ql_api \<Rightarrow> bool" where
  "deepens n m A \<longleftrightarrow>
     (\<forall>t. extends (parseExpr n A t) (parseExpr m A t)) \<and>
     (\<forall>e t. extends (orLoop n A e t) (orLoop m A e t)) \<and>
     (\<forall>t. extends (parseAndExpr n A t) (parseAndExpr m A t)) \<and>
     (\<forall>e t. extends (andLoop n A e t) (andLoop m A e t)) \<and>
     (\<forall>t. extends (parseRelExpr n A t) (parseRelExpr m A t))"

lemma relBody_deepens:
  "(\<And>t. extends (parseExpr n A t) (parseExpr m A t)) \<Longrightarrow> extends (relBody neg n A t) (relBody neg m A t)"
  unfolding relBody_def by (intro deeper) 

lemma deepens_step:
  assumes "deepens n m A"
  shows "deepens (Suc n) (Suc m) A"
proof -
  have IH: "\<And>t. extends (parseExpr n A t) (parseExpr m A t)" "\<And>e t. extends (orLoop n A e t) (orLoop m A e t)"
    "\<And>t. extends (parseAndExpr n A t) (parseAndExpr m A t)" "\<And>e t. extends (andLoop n A e t) (andLoop m A e t)"
    "\<And>t. extends (parseRelExpr n A t) (parseRelExpr m A t)"
    using assms unfolding deepens_def by blast+
  have "extends (parseRelExpr (Suc n) A t) (parseRelExpr (Suc m) A t)" for t
    unfolding parseRelExpr_body by (intro deeper relBody_deepens IH)
  then show ?thesis
    unfolding deepens_def parseExpr.simps(2) orLoop.simps(2) parseAndExpr.simps(2) andLoop.simps(2)
    by (intro conjI allI deeper IH) auto
qed

lemma parser_deepens: "n \<le> m \<Longrightarrow> deepens n m A"
proof (induction n arbitrary: m)
  case (Suc n)
  then obtain k where "m = Suc k" "n \<le> k" by (cases m) auto
  then show ?case using Suc.IH by (simp add: deepens_step)
qed (simp add: deepens_def extends_none)

lemma parseExpr_deeper: "n \<le> m \<Longrightarrow> extends (parseExpr n A t) (parseExpr m A t)"
  using parser_deepens [of n m A] by (simp add: deepens_def)

lemma parseTokens_deeper: "n \<le> m \<Longrightarrow> extends (parseTokens n A) (parseTokens m A)"
  unfolding parseTokens_def by (intro deeper parseExpr_deeper)

text \<open>What the parser returns at any depth is what it returns at its own.\<close>

lemma qlParse_from_depth:
  assumes "parseTokens n A (qa_tokens A query) = Some (r, s')"
  shows "qlParse A query = Some r"
proof -
  let ?s = "qa_tokens A query" and ?m = "max n (parse_bound (qa_tokens A query))"
  obtain r1 where r1: "parseTokens (parse_bound ?s) A ?s = Some r1"
    using qlParse_returns [of ?s "parse_bound ?s" A] by auto
  have "parseTokens ?m A ?s = Some r1" and "parseTokens ?m A ?s = Some (r, s')"
    using parseTokens_deeper [of "parse_bound ?s" ?m A] parseTokens_deeper [of n ?m A] r1 assms by (metis extends_def max.cobounded1 max.cobounded2)+
  then show ?thesis using r1 by (auto simp: qlParse_def Let_def)
qed

section \<open>The text of an expression\<close>

text \<open>
  The tokens of an expression with as few parentheses as the precedences allow: at level 0 stands a whole expression,
  at level 1 an operand of \<open>||\<close>, at level 2 one of \<open>&&\<close>, at level 3 one of \<open>!\<close>.
\<close>

abbreviation op_token :: "string \<Rightarrow> ql_token" where
  "op_token v \<equiv> \<lparr>tk_class = OPERATOR_TOKEN, tk_value = v\<rparr>"

definition id_token :: "string \<Rightarrow> ql_token" where
  "id_token v = \<lparr>tk_class = IDENTIFIER_TOKEN, tk_value = v\<rparr>"

definition quoted_char :: "char \<Rightarrow> string" where
  "quoted_char c = (if c \<in> {CHR 0x22, CHR 0x5C, CHR 0x0A, CHR 0x0D} then [CHR 0x5C, c] else [c])"

definition quoted_text :: "string \<Rightarrow> string" where
  "quoted_text s = CHR 0x22 # concat (map quoted_char s) @ [CHR 0x22]"

definition string_token :: "string \<Rightarrow> ql_token" where
  "string_token s = \<lparr>tk_class = STRING_LITERAL_TOKEN, tk_value = quoted_text s\<rparr>"

primrec value_token :: "'d ql_value \<Rightarrow> ql_token" where
  "value_token (VInt i) = \<lparr>tk_class = INTEGER_LITERAL_TOKEN, tk_value = show_nat (nat i)\<rparr>"
| "value_token (VFloat d) = \<lparr>tk_class = FLOAT_LITERAL_TOKEN, tk_value = []\<rparr>"
| "value_token (VBool b) = id_token (if b then ''true'' else ''false'')"
| "value_token (VString s) = string_token s"

definition in_parens :: "bool \<Rightarrow> ql_token list \<Rightarrow> ql_token list" where
  "in_parens b ts = (if b then op_token ''('' # ts @ [op_token '')''] else ts)"

primrec expr_tokens :: "'d ql_expr \<Rightarrow> nat \<Rightarrow> ql_token list" where
  "expr_tokens QLNull p = []"
| "expr_tokens (QLOrExpr l r) p = in_parens (0 < p) (expr_tokens l 0 @ op_token ''||'' # expr_tokens r 1)"
| "expr_tokens (QLAndExpr l r) p = in_parens (1 < p) (expr_tokens l 1 @ op_token ''&&'' # expr_tokens r 2)"
| "expr_tokens (QLNotExpr x) p = in_parens (2 < p) (op_token ''!'' # expr_tokens x 3)"
| "expr_tokens (QLExistsExpr prop) p = [id_token prop]"
| "expr_tokens (QLEqExpr prop v) p = [id_token prop, op_token ''=='', value_token v]"
| "expr_tokens (QLNeExpr prop v) p = [id_token prop, op_token ''!='', value_token v]"
| "expr_tokens (QLLtExpr prop v) p = [id_token prop, op_token ''<'', value_token v]"
| "expr_tokens (QLLeExpr prop v) p = [id_token prop, op_token ''<='', value_token v]"
| "expr_tokens (QLGtExpr prop v) p = [id_token prop, op_token ''>'', value_token v]"
| "expr_tokens (QLGeExpr prop v) p = [id_token prop, op_token ''>='', value_token v]"
| "expr_tokens (QLMatchExpr prop pat) p = [id_token prop, op_token ''=~'', string_token pat]"
| "expr_tokens (QLMatchRegExpr prop pat) p =
     [id_token prop, op_token ''=~'', \<lparr>tk_class = USER_TOKEN, tk_value = ''/'' @ pat @ ''/''\<rparr>]"

definition tokens_text :: "ql_token list \<Rightarrow> string" where
  "tokens_text ts = concat (map (\<lambda>t. tk_value t @ '' '') ts)"

definition query_text :: "'d ql_expr \<Rightarrow> string" where
  "query_text e = tokens_text (expr_tokens e 0)"

text \<open>What can be written down: names that are identifiers, numbers without sign, regular expressions that compile.\<close>

definition ql_identifier :: "string \<Rightarrow> bool" where
  "ql_identifier s \<longleftrightarrow> s \<noteq> [] \<and> identifierStart (hd s) \<and> list_all identifierChar (tl s)"

primrec value_ok :: "'d ql_value \<Rightarrow> bool" where
  "value_ok (VInt i) = (0 \<le> i \<and> i < 2 ^ 31)"
| "value_ok (VFloat d) = False"
| "value_ok (VBool b) = True"
| "value_ok (VString s) = True"

primrec query_printable :: "'d ql_api \<Rightarrow> 'd ql_expr \<Rightarrow> bool" where
  "query_printable A QLNull = False"
| "query_printable A (QLOrExpr l r) = (query_printable A l \<and> query_printable A r)"
| "query_printable A (QLAndExpr l r) = (query_printable A l \<and> query_printable A r)"
| "query_printable A (QLNotExpr x) = query_printable A x"
| "query_printable A (QLExistsExpr prop) = ql_identifier prop"
| "query_printable A (QLEqExpr prop v) = (ql_identifier prop \<and> value_ok v)"
| "query_printable A (QLNeExpr prop v) = (ql_identifier prop \<and> value_ok v)"
| "query_printable A (QLLtExpr prop v) = (ql_identifier prop \<and> value_ok v)"
| "query_printable A (QLLeExpr prop v) = (ql_identifier prop \<and> value_ok v)"
| "query_printable A (QLGtExpr prop v) = (ql_identifier prop \<and> value_ok v)"
| "query_printable A (QLGeExpr prop v) = (ql_identifier prop \<and> value_ok v)"
| "query_printable A (QLMatchExpr prop pat) = ql_identifier prop"
| "query_printable A (QLMatchRegExpr prop pat) =
     (ql_identifier prop \<and> qa_regExp A pat = None \<and> list_all (\<lambda>c. c \<notin> {CHR ''/'', CHR 0x0A, CHR 0x0D}) pat)"

text \<open>\<open>NumberParser::parse\<close> reads the decimal numbers of an \<open>int\<close>.\<close>

definition number_laws :: "'d ql_api \<Rightarrow> bool" where
  "number_laws A \<longleftrightarrow> (\<forall>n < 2 ^ 31. qa_parse A (show_nat n) = Inr (int n))"

section \<open>Scanning the text\<close>

text \<open>A token whose text, followed by a space, is scanned as this token.\<close>

definition lexable :: "ql_token \<Rightarrow> bool" where
  "lexable t \<longleftrightarrow>
     (\<exists>c s. tk_value t = c # s \<and> \<not> c_isspace c \<and> (\<forall>rest. scanToken c (s @ CHR '' '' # rest) = Inr (t, CHR '' '' # rest)))"

lemma tokens_then_text:
  assumes "tokenizer_laws T" and "list_all lexable ts"
  shows "T (tokens_text ts @ rest) = map Tok ts @ T rest"
  using assms(2)
proof (induction ts)
  case Nil
  then show ?case by (simp add: tokens_text_def)
next
  case (Cons t ts)
  then obtain c s where t: "tk_value t = c # s" "\<not> c_isspace c"
    "\<And>rest. scanToken c (s @ CHR '' '' # rest) = Inr (t, CHR '' '' # rest)" by (auto simp: lexable_def)
  have "T (tokens_text (t # ts) @ rest) = T (c # s @ CHR '' '' # tokens_text ts @ rest)" using t(1) by (simp add: tokens_text_def)
  also have "\<dots> = Tok t # T (CHR '' '' # tokens_text ts @ rest)" using assms(1) t(2,3) by (simp add: tokenizer_laws_def)
  also have "T (CHR '' '' # tokens_text ts @ rest) = T (tokens_text ts @ rest)"
    using assms(1) by (simp add: tokenizer_laws_def c_isspace_def)
  finally show ?case using Cons by simp
qed

lemma tokens_of_text: "tokenizer_laws T \<Longrightarrow> list_all lexable ts \<Longrightarrow> T (tokens_text ts) = map Tok ts"
  using tokens_then_text [of T ts "[]"] by (simp add: tokenizer_laws_def)

lemma lexable_operators:
  "lexable (op_token ''('')" "lexable (op_token '')'')" "lexable (op_token ''&&'')" "lexable (op_token ''||'')"
  "lexable (op_token ''!'')" "lexable (op_token ''=='')" "lexable (op_token ''!='')" "lexable (op_token ''<'')"
  "lexable (op_token ''<='')" "lexable (op_token ''>'')" "lexable (op_token ''>='')" "lexable (op_token ''=~'')"
  by (auto simp: lexable_def scanToken_def operatorStart_def operatorFinish_def peek_char_def Let_def c_isspace_def)

lemma identifierStart_char: "identifierStart c \<Longrightarrow> \<not> operatorStart c \<and> \<not> c_isspace c"
  by (auto simp: identifierStart_def in_range_def operatorStart_def c_isspace_def)

lemma lexable_identifier: "ql_identifier s \<Longrightarrow> lexable (id_token s)"
proof -
  assume s: "ql_identifier s"
  then obtain c cs where c: "s = c # cs" "identifierStart c" "list_all identifierChar cs"
    by (cases s) (auto simp: ql_identifier_def)
  have stop: "\<not> identifierChar (CHR '' '')" by (simp add: identifierChar_def in_range_def)
  have "takeWhile identifierChar (cs @ CHR '' '' # rest) = cs" "dropWhile identifierChar (cs @ CHR '' '' # rest) = CHR '' '' # rest" for rest
    using c(3) stop by (auto simp: list_all_iff intro: take_while_append_stop drop_while_append_stop)
  then show ?thesis using c identifierStart_char
    by (simp add: lexable_def id_token_def scanToken_def identifierFinish_def)
qed

lemma stringLiteralLoop_quoted:
  "stringLiteralLoop (concat (map quoted_char s) @ CHR 0x22 # rest) = Some (concat (map quoted_char s) @ [CHR 0x22], rest)"
  by (induction s) (auto simp: quoted_char_def)

lemma lexable_string: "lexable (string_token s)"
  by (simp add: lexable_def string_token_def quoted_text_def scanToken_def operatorStart_def identifierStart_def in_range_def
      c_isspace_def stringLiteralFinish_def stringLiteralLoop_quoted)

lemma unquoted: "tokenAsString (string_token s) = s"
proof -
  have "unescapeLoop (concat (map quoted_char s) @ CHR 0x22 # rest) = s" for rest
    by (induction s) (auto simp: quoted_char_def)
  then show ?thesis by (simp add: tokenAsString_def string_token_def quoted_text_def stringLiteralAsString_def)
qed

lemma lexable_number: "lexable \<lparr>tk_class = INTEGER_LITERAL_TOKEN, tk_value = show_nat n\<rparr>"
proof -
  obtain c s where c: "show_nat n = c # s" using show_nat_nonempty [of n] by (cases "show_nat n") auto
  have digits: "c_isdigit c" "list_all c_isdigit s" using show_nat_digits [of _ n] c by (auto simp: list_all_iff)
  have stop: "\<not> c_isdigit (CHR '' '')" by (simp add: c_isdigit_def)
  have scan: "takeWhile c_isdigit (s @ CHR '' '' # rest) = s" "dropWhile c_isdigit (s @ CHR '' '' # rest) = CHR '' '' # rest" for rest
    using digits(2) stop by (auto simp: list_all_iff intro: take_while_append_stop drop_while_append_stop)
  have start: "c \<noteq> CHR ''.''" "\<not> operatorStart c" "\<not> identifierStart c" "c \<noteq> CHR 0x22" "\<not> c_isspace c"
    using digits(1) by (auto simp: c_isdigit_def operatorStart_def identifierStart_def in_range_def c_isspace_def)
  have "\<not> next_is (CHR ''x'') (s @ CHR '' '' # rest)" for rest
    using digits(2) by (cases s) (auto simp: next_is_def c_isdigit_def)
  then have "numberFinish c (s @ CHR '' '' # rest) = Inr (False, c # s, CHR '' '' # rest)" for rest
    using start(1) scan stop by (simp add: numberFinish_def Let_def numberExponent_def next_is_def)
  then show ?thesis using c start digits(1) by (simp add: lexable_def scanToken_def numberStart_def)
qed

lemma lexable_regexp:
  assumes "list_all (\<lambda>c. c \<notin> {CHR ''/'', CHR 0x0A, CHR 0x0D}) pat"
  shows "lexable \<lparr>tk_class = USER_TOKEN, tk_value = ''/'' @ pat @ ''/''\<rparr>"
proof -
  let ?go = "\<lambda>c. c \<noteq> CHR ''/'' \<and> c \<noteq> CHR 0x0A \<and> c \<noteq> CHR 0x0D"
  have "takeWhile ?go (pat @ CHR ''/'' # rest) = pat" "dropWhile ?go (pat @ CHR ''/'' # rest) = CHR ''/'' # rest" for rest
    using assms by (auto simp: list_all_iff intro: take_while_append_stop drop_while_append_stop)
  then show ?thesis
    by (simp add: lexable_def scanToken_def operatorStart_def identifierStart_def in_range_def numberStart_def c_isdigit_def
        c_isspace_def regExpStart_def regExpFinish_def Let_def next_is_def)
qed

section \<open>Reading the tokens back\<close>

text \<open>\<open>gives f s r\<close>: from some depth on the parser \<open>f\<close> returns \<open>r\<close>.\<close>

definition gives :: "(nat \<Rightarrow> ('s, 'a) prog) \<Rightarrow> 's \<Rightarrow> (exc + 'a) \<times> 's \<Rightarrow> bool" where
  "gives f s r \<longleftrightarrow> (\<exists>n0. \<forall>n \<ge> n0. f n s = Some r)"

lemma gives_const: "m s = Some r \<Longrightarrow> gives (\<lambda>n. m) s r"
  by (auto simp: gives_def)

lemma gives_Suc: "gives (\<lambda>n. f (Suc n)) s r \<Longrightarrow> gives f s r"
  unfolding gives_def by (metis Suc_le_D Suc_le_mono)

lemma gives_first:
  assumes "m s = Some (Inr x, s')" and "gives (\<lambda>n. f n x) s' r"
  shows "gives (\<lambda>n. p_bind m (f n)) s r"
  using assms by (auto simp: gives_def)

lemma gives_bind:
  assumes "gives m s (Inr (x, t), s')" and "gives (\<lambda>n. f n x t) s' r"
  shows "gives (\<lambda>n. p_bind (m n) (\<lambda>(x, t). f n x t)) s r"
proof -
  obtain k j where "\<forall>n \<ge> k. m n s = Some (Inr (x, t), s')" "\<forall>n \<ge> j. f n x t s' = Some r"
    using assms by (auto simp: gives_def)
  then have "\<forall>n \<ge> max k j. p_bind (m n) (\<lambda>(x, t). f n x t) s = Some r" by simp
  then show ?thesis unfolding gives_def by blast
qed

text \<open>The current token and the rest, when the tokens \<open>ts\<close> come before the input \<open>u\<close>.\<close>

lemma next_of_tokens: "ts \<noteq> [] \<Longrightarrow> nextToken (map Tok ts @ u) = Some (Inr (hd ts), map Tok (tl ts) @ u)"
  by (cases ts) (simp_all add: nextToken_def)

lemma gives_tokens:
  "ts \<noteq> [] \<Longrightarrow> gives (\<lambda>n. f n (hd ts)) (map Tok (tl ts) @ u) r \<Longrightarrow> gives (\<lambda>n. p_bind nextToken (f n)) (map Tok ts @ u) r"
  using next_of_tokens [of ts u] unfolding gives_def by auto

text \<open>A turn of each function of the parser.\<close>

lemma gives_operand:
  assumes "gives (\<lambda>n. parseRelExpr n A t0) s (Inr (e, t), s')" and "gives (\<lambda>n. andLoop n A e t) s' r"
  shows "gives (\<lambda>n. parseAndExpr n A t0) s r"
  by (rule gives_Suc) (unfold parseAndExpr.simps, rule gives_bind [where f = "\<lambda>n e t. andLoop n A e t", OF assms])

lemma gives_conjunction:
  assumes "gives (\<lambda>n. parseAndExpr n A t0) s (Inr (e, t), s')" and "gives (\<lambda>n. orLoop n A e t) s' r"
  shows "gives (\<lambda>n. parseExpr n A t0) s r"
  by (rule gives_Suc) (unfold parseExpr.simps, rule gives_bind [where f = "\<lambda>n e t. orLoop n A e t", OF assms])

lemma gives_and_turn:
  assumes "ts \<noteq> []" "tokenOperator t0 = Some OP_AND"
    and "gives (\<lambda>n. parseRelExpr n A (hd ts)) (map Tok (tl ts) @ u) (Inr (x, t), s')" and "gives (\<lambda>n. andLoop n A (QLAndExpr e x) t) s' r"
  shows "gives (\<lambda>n. andLoop n A e t0) (map Tok ts @ u) r"
proof (rule gives_Suc)
  have "gives (\<lambda>n. p_bind (parseRelExpr n A (hd ts)) (\<lambda>(x, t). andLoop n A (QLAndExpr e x) t)) (map Tok (tl ts) @ u) r"
    by (rule gives_bind [where f = "\<lambda>n x t. andLoop n A (QLAndExpr e x) t", OF assms(3,4)])
  from gives_tokens [where f = "\<lambda>n u. p_bind (parseRelExpr n A u) (\<lambda>(x, t). andLoop n A (QLAndExpr e x) t)", OF assms(1) this]
  show "gives (\<lambda>n. andLoop (Suc n) A e t0) (map Tok ts @ u) r" using assms(2) by simp
qed

lemma gives_or_turn:
  assumes "ts \<noteq> []" "tokenOperator t0 = Some OP_OR"
    and "gives (\<lambda>n. parseAndExpr n A (hd ts)) (map Tok (tl ts) @ u) (Inr (x, t), s')" and "gives (\<lambda>n. orLoop n A (QLOrExpr e x) t) s' r"
  shows "gives (\<lambda>n. orLoop n A e t0) (map Tok ts @ u) r"
proof (rule gives_Suc)
  have "gives (\<lambda>n. p_bind (parseAndExpr n A (hd ts)) (\<lambda>(x, t). orLoop n A (QLOrExpr e x) t)) (map Tok (tl ts) @ u) r"
    by (rule gives_bind [where f = "\<lambda>n x t. orLoop n A (QLOrExpr e x) t", OF assms(3,4)])
  from gives_tokens [where f = "\<lambda>n u. p_bind (parseAndExpr n A u) (\<lambda>(x, t). orLoop n A (QLOrExpr e x) t)", OF assms(1) this]
  show "gives (\<lambda>n. orLoop (Suc n) A e t0) (map Tok ts @ u) r" using assms(2) by simp
qed

lemma gives_parens:
  assumes "ts \<noteq> []" and "gives (\<lambda>n. parseExpr n A (hd ts)) (map Tok (tl ts) @ u) (Inr (e, t), s)"
    and "tokenOperator t = Some OP_CLOSPARENT" "nextToken s = Some (Inr t', s')"
  shows "gives (\<lambda>n. relBody neg n A \<lparr>tk_class = OPERATOR_TOKEN, tk_value = ''(''\<rparr>) (map Tok ts @ u) (Inr (negated neg e, t'), s')"
proof -
  let ?close = "\<lambda>e t. if tokenOperator t = Some OP_CLOSPARENT then p_bind nextToken (\<lambda>t. p_ret (negated neg e, t))
          else p_throw (SyntaxException (''Expected: '' @ [CHR 0x27, CHR '')'', CHR 0x27]))"
  have "gives (\<lambda>n. ?close e t) s (Inr (negated neg e, t'), s')" using assms(3,4) by (intro gives_const) simp
  from gives_bind [where f = "\<lambda>n. ?close", OF assms(2) this]
  have "gives (\<lambda>n. p_bind (parseExpr n A (hd ts)) (\<lambda>(e, t). ?close e t)) (map Tok (tl ts) @ u) (Inr (negated neg e, t'), s')" .
  from gives_tokens [where f = "\<lambda>n u. p_bind (parseExpr n A u) (\<lambda>(e, t). ?close e t)", OF assms(1) this] show ?thesis
    by (simp add: relBody_def tokenOperator_def opMap_def)
qed

lemma operator_values [simp]:
  "tokenOperator (op_token ''('') = Some OP_OPENPARENT" "tokenOperator (op_token '')'') = Some OP_CLOSPARENT"
  "tokenOperator (op_token ''<'') = Some OP_LT" "tokenOperator (op_token ''<='') = Some OP_LE"
  "tokenOperator (op_token ''>'') = Some OP_GT" "tokenOperator (op_token ''>='') = Some OP_GE"
  "tokenOperator (op_token ''=='') = Some OP_EQ" "tokenOperator (op_token ''=~'') = Some OP_MATCH"
  "tokenOperator (op_token ''!'') = Some OP_NOT" "tokenOperator (op_token ''!='') = Some OP_NE"
  "tokenOperator (op_token ''&&'') = Some OP_AND" "tokenOperator (op_token ''||'') = Some OP_OR"
  "tokenOperator (id_token s) = None" "tk_class (id_token s) = IDENTIFIER_TOKEN" "tokenAsString (id_token s) = s"
  by (simp_all add: tokenOperator_def opMap_def id_token_def tokenAsString_def)

lemma tokens_nonempty: "query_printable A e \<Longrightarrow> expr_tokens e p \<noteq> []"
  by (cases e) (auto simp: in_parens_def)

lemma token2value_token: "number_laws A \<Longrightarrow> value_ok v \<Longrightarrow> token2value A (value_token v) = Inr v"
proof (cases v)
  case (VString s)
  then show ?thesis using unquoted [of s] by (simp add: token2value_def string_token_def)
next
  case (VInt i)
  assume "number_laws A" "value_ok v"
  then have "qa_parse A (show_nat (nat i)) = Inr i" using VInt by (simp add: number_laws_def nat_less_iff)
  then show ?thesis using VInt by (simp add: token2value_def)
qed (auto simp: token2value_def id_token_def tokenAsString_def)

definition follows :: "ql_input list \<Rightarrow> ql_token \<Rightarrow> ql_input list \<Rightarrow> bool" where
  "follows u t u' \<longleftrightarrow> nextToken u = Some (Inr t, u') \<and> \<not> isRelOp t"

text \<open>A name alone, and a name with operator and argument.\<close>

lemma leaf_exists:
  assumes "follows u t u'"
  shows "gives (\<lambda>n. relBody neg n A (id_token prop)) u (Inr (negated neg (QLExistsExpr prop), t), u')"
  using assms by (auto simp: gives_def relBody_def identifierExpr_def follows_def)

lemma leaf_relation:
  assumes "follows u t u'" and "isRelOp (op_token v)" "relExpr A prop (the (tokenOperator (op_token v))) arg = Inr e"
  shows "gives (\<lambda>n. relBody neg n A (id_token prop)) (Tok (op_token v) # Tok arg # u) (Inr (negated neg e, t), u')"
  using assms by (auto simp: gives_def relBody_def identifierExpr_def follows_def nextToken_def)

text \<open>The parser on the tokens of an expression, at each level of precedence.\<close>

definition reads_operand :: "'d ql_api \<Rightarrow> 'd ql_expr \<Rightarrow> bool" where
  "reads_operand A e \<longleftrightarrow>
     (\<forall>neg u t u'. follows u t u' \<longrightarrow>
        gives (\<lambda>n. relBody neg n A (hd (expr_tokens e 3))) (map Tok (tl (expr_tokens e 3)) @ u) (Inr (negated neg e, t), u'))"

definition reads_rel :: "'d ql_api \<Rightarrow> 'd ql_expr \<Rightarrow> bool" where
  "reads_rel A e \<longleftrightarrow>
     (\<forall>u t u'. follows u t u' \<longrightarrow>
        gives (\<lambda>n. parseRelExpr n A (hd (expr_tokens e 2))) (map Tok (tl (expr_tokens e 2)) @ u) (Inr (e, t), u'))"

definition reads_and :: "'d ql_api \<Rightarrow> 'd ql_expr \<Rightarrow> bool" where
  "reads_and A e \<longleftrightarrow>
     (\<forall>u t u' r. follows u t u' \<longrightarrow> gives (\<lambda>n. andLoop n A e t) u' r \<longrightarrow>
        gives (\<lambda>n. parseAndExpr n A (hd (expr_tokens e 1))) (map Tok (tl (expr_tokens e 1)) @ u) r)"

definition reads_expr :: "'d ql_api \<Rightarrow> 'd ql_expr \<Rightarrow> bool" where
  "reads_expr A e \<longleftrightarrow>
     (\<forall>u t u' r. follows u t u' \<longrightarrow> tokenOperator t \<noteq> Some OP_AND \<longrightarrow> gives (\<lambda>n. orLoop n A e t) u' r \<longrightarrow>
        gives (\<lambda>n. parseExpr n A (hd (expr_tokens e 0))) (map Tok (tl (expr_tokens e 0)) @ u) r)"

lemmas readsD = reads_operand_def [THEN iffD1, rule_format] reads_rel_def [THEN iffD1, rule_format]
  reads_and_def [THEN iffD1, rule_format] reads_expr_def [THEN iffD1, rule_format]

lemma rel_of_operand:
  assumes "reads_operand A e" and "expr_tokens e 2 = expr_tokens e 3" "tokenOperator (hd (expr_tokens e 3)) \<noteq> Some OP_NOT"
  shows "reads_rel A e"
  unfolding reads_rel_def
proof (intro allI impI)
  fix u t u' assume t: "follows u t u'"
  have "gives (\<lambda>n. relBody False n A (hd (expr_tokens e 3))) (map Tok (tl (expr_tokens e 3)) @ u) (Inr (e, t), u')"
    using readsD(1) [OF assms(1) t, of False] by (simp add: negated_def)
  then show "gives (\<lambda>n. parseRelExpr n A (hd (expr_tokens e 2))) (map Tok (tl (expr_tokens e 2)) @ u) (Inr (e, t), u')"
    using assms(2,3) by - (rule gives_Suc, simp add: parseRelExpr_body)
qed

lemma and_of_rel:
  assumes "reads_rel A e" and "expr_tokens e 1 = expr_tokens e 2"
  shows "reads_and A e"
  unfolding reads_and_def assms(2)
proof (intro allI impI)
  fix u t u' r assume t: "follows u t u'" and loop: "gives (\<lambda>n. andLoop n A e t) u' r"
  show "gives (\<lambda>n. parseAndExpr n A (hd (expr_tokens e 2))) (map Tok (tl (expr_tokens e 2)) @ u) r"
    by (rule gives_operand [OF readsD(2) [OF assms(1) t] loop])
qed

lemma gives_end_of_loop:
  "tokenOperator t \<noteq> Some OP_AND \<Longrightarrow> gives (\<lambda>n. andLoop n A e t) u (Inr (e, t), u)"
  "tokenOperator t \<noteq> Some OP_OR \<Longrightarrow> gives (\<lambda>n. orLoop n A e t) u (Inr (e, t), u)"
  by (rule gives_Suc, simp add: gives_const)+

lemma expr_of_and:
  assumes "reads_and A e" and "expr_tokens e 0 = expr_tokens e 1"
  shows "reads_expr A e"
  unfolding reads_expr_def assms(2)
proof (intro allI impI)
  fix u t u' r assume t: "follows u t u'" "tokenOperator t \<noteq> Some OP_AND" and loop: "gives (\<lambda>n. orLoop n A e t) u' r"
  show "gives (\<lambda>n. parseExpr n A (hd (expr_tokens e 1))) (map Tok (tl (expr_tokens e 1)) @ u) r"
    by (rule gives_conjunction [OF readsD(3) [OF assms(1) t(1) gives_end_of_loop(1) [OF t(2)]] loop])
qed

lemma follows_operator:
  "follows (Tok (op_token ''&&'') # u) (op_token ''&&'') u" "follows (Tok (op_token ''||'') # u) (op_token ''||'') u"
  "follows (Tok (op_token '')'') # u) (op_token '')'') u"
  by (auto simp: follows_def nextToken_def isRelOp_def)

lemma operand_in_parens:
  assumes e: "reads_expr A e" "expr_tokens e 3 = op_token ''('' # expr_tokens e 0 @ [op_token '')'']" "expr_tokens e 0 \<noteq> []"
  shows "reads_operand A e"
  unfolding reads_operand_def
proof (intro allI impI)
  fix neg u t u' assume t: "follows u t u'"
  let ?u = "Tok (op_token '')'') # u"
  have "gives (\<lambda>n. parseExpr n A (hd (expr_tokens e 0))) (map Tok (tl (expr_tokens e 0)) @ ?u) (Inr (e, op_token '')''), u)"
    by (rule readsD(4) [OF e(1) follows_operator(3) _ gives_end_of_loop(2)]) simp_all
  from gives_parens [OF e(3) this, of t u' neg] t
  show "gives (\<lambda>n. relBody neg n A (hd (expr_tokens e 3))) (map Tok (tl (expr_tokens e 3)) @ u) (Inr (negated neg e, t), u')"
    by (simp add: e(2) follows_def)
qed

lemma and_reads:
  assumes "reads_and A l" and "reads_rel A r" and "expr_tokens l 1 \<noteq> []" "expr_tokens r 2 \<noteq> []"
  shows "reads_and A (QLAndExpr l r)"
  unfolding reads_and_def
proof (intro allI impI)
  fix u t u' q assume t: "follows u t u'" and loop: "gives (\<lambda>n. andLoop n A (QLAndExpr l r) t) u' q"
  let ?u = "map Tok (expr_tokens r 2) @ u"
  have "gives (\<lambda>n. andLoop n A l (op_token ''&&'')) ?u q"
    by (rule gives_and_turn [OF assms(4) _ readsD(2) [OF assms(2) t] loop]) simp
  from readsD(3) [OF assms(1) follows_operator(1) this]
  show "gives (\<lambda>n. parseAndExpr n A (hd (expr_tokens (QLAndExpr l r) 1))) (map Tok (tl (expr_tokens (QLAndExpr l r) 1)) @ u) q"
    using assms(3) by (simp add: in_parens_def)
qed

lemma or_reads:
  assumes "reads_expr A l" and "reads_and A r" and "expr_tokens l 0 \<noteq> []" "expr_tokens r 1 \<noteq> []"
  shows "reads_expr A (QLOrExpr l r)"
  unfolding reads_expr_def
proof (intro allI impI)
  fix u t u' q assume t: "follows u t u'" "tokenOperator t \<noteq> Some OP_AND"
    and loop: "gives (\<lambda>n. orLoop n A (QLOrExpr l r) t) u' q"
  let ?u = "map Tok (expr_tokens r 1) @ u"
  have "gives (\<lambda>n. orLoop n A l (op_token ''||'')) ?u q"
    by (rule gives_or_turn [OF assms(4) _ readsD(3) [OF assms(2) t(1) gives_end_of_loop(1) [OF t(2)]] loop]) simp
  from readsD(4) [OF assms(1) follows_operator(2) _ this]
  show "gives (\<lambda>n. parseExpr n A (hd (expr_tokens (QLOrExpr l r) 0))) (map Tok (tl (expr_tokens (QLOrExpr l r) 0)) @ u) q"
    using assms(3) by (simp add: in_parens_def)
qed

lemma not_reads:
  assumes "reads_operand A x" and "expr_tokens x 3 \<noteq> []"
  shows "reads_rel A (QLNotExpr x)"
  unfolding reads_rel_def
proof (intro allI impI)
  fix u t u' assume t: "follows u t u'"
  from gives_tokens [where f = "\<lambda>n. relBody True n A", OF assms(2) readsD(1) [OF assms(1) t, of True]]
  show "gives (\<lambda>n. parseRelExpr n A (hd (expr_tokens (QLNotExpr x) 2))) (map Tok (tl (expr_tokens (QLNotExpr x) 2)) @ u)
      (Inr (QLNotExpr x, t), u')"
    by - (rule gives_Suc, simp add: parseRelExpr_body in_parens_def negated_def)
qed

definition reads_all :: "'d ql_api \<Rightarrow> 'd ql_expr \<Rightarrow> bool" where
  "reads_all A e \<longleftrightarrow> reads_operand A e \<and> reads_rel A e \<and> reads_and A e \<and> reads_expr A e"

lemma leaf_reads:
  assumes "\<And>p. expr_tokens e p = id_token prop # ts"
    and "\<And>neg u t u'. follows u t u' \<Longrightarrow>
       gives (\<lambda>n. relBody neg n A (id_token prop)) (map Tok ts @ u) (Inr (negated neg e, t), u')"
  shows "reads_all A e"
proof -
  have "reads_operand A e" using assms by (simp add: reads_operand_def)
  moreover then have "reads_rel A e" by (rule rel_of_operand) (simp_all add: assms(1))
  moreover then have "reads_and A e" by (rule and_of_rel) (simp add: assms(1))
  moreover then have "reads_expr A e" by (rule expr_of_and) (simp add: assms(1))
  ultimately show ?thesis by (simp add: reads_all_def)
qed

lemma relation_reads:
  assumes "\<And>p. expr_tokens e p = [id_token prop, op_token v, arg]" and "isRelOp (op_token v)"
    and "relExpr A prop (the (tokenOperator (op_token v))) arg = Inr e"
  shows "reads_all A e"
  by (rule leaf_reads [OF assms(1)]) (simp add: leaf_relation assms(2,3))

lemma parser_reads: "number_laws A \<Longrightarrow> query_printable A e \<Longrightarrow> reads_all A e"
proof (induction e)
  case (QLAndExpr l r)
  let ?e = "QLAndExpr l r"
  have "reads_and A ?e" using QLAndExpr by (intro and_reads) (simp_all add: reads_all_def tokens_nonempty [of A])
  moreover then have "reads_expr A ?e" by (rule expr_of_and) (simp add: in_parens_def)
  moreover then have "reads_operand A ?e" by (rule operand_in_parens) (simp_all add: in_parens_def)
  moreover then have "reads_rel A ?e" by (rule rel_of_operand) (simp_all add: in_parens_def)
  ultimately show ?case by (simp add: reads_all_def)
next
  case (QLOrExpr l r)
  let ?e = "QLOrExpr l r"
  have "reads_expr A ?e" using QLOrExpr by (intro or_reads) (simp_all add: reads_all_def tokens_nonempty [of A])
  moreover then have "reads_operand A ?e" by (rule operand_in_parens) (simp_all add: in_parens_def)
  moreover then have "reads_rel A ?e" by (rule rel_of_operand) (simp_all add: in_parens_def)
  moreover then have "reads_and A ?e" by (rule and_of_rel) (simp add: in_parens_def)
  ultimately show ?case by (simp add: reads_all_def)
next
  case (QLNotExpr x)
  let ?e = "QLNotExpr x"
  have "reads_rel A ?e" using QLNotExpr by (intro not_reads) (simp_all add: reads_all_def tokens_nonempty [of A])
  moreover then have "reads_and A ?e" by (rule and_of_rel) (simp add: in_parens_def)
  moreover then have "reads_expr A ?e" by (rule expr_of_and) (simp add: in_parens_def)
  moreover then have "reads_operand A ?e" by (rule operand_in_parens) (simp_all add: in_parens_def)
  ultimately show ?case by (simp add: reads_all_def)
next
  case (QLExistsExpr name)
  show ?case by (rule leaf_reads [where ts = "[]"]) (simp, simp, rule leaf_exists)
next
  case (QLEqExpr name v)
  then show ?case by (intro relation_reads [OF expr_tokens.simps(6)]) (simp_all add: isRelOp_def relExpr_def token2value_token)
next
  case (QLNeExpr name v)
  then show ?case by (intro relation_reads [OF expr_tokens.simps(7)]) (simp_all add: isRelOp_def relExpr_def token2value_token)
next
  case (QLLtExpr name v)
  then show ?case by (intro relation_reads [OF expr_tokens.simps(8)]) (simp_all add: isRelOp_def relExpr_def token2value_token)
next
  case (QLLeExpr name v)
  then show ?case by (intro relation_reads [OF expr_tokens.simps(9)]) (simp_all add: isRelOp_def relExpr_def token2value_token)
next
  case (QLGtExpr name v)
  then show ?case by (intro relation_reads [OF expr_tokens.simps(10)]) (simp_all add: isRelOp_def relExpr_def token2value_token)
next
  case (QLGeExpr name v)
  then show ?case by (intro relation_reads [OF expr_tokens.simps(11)]) (simp_all add: isRelOp_def relExpr_def token2value_token)
next
  case (QLMatchExpr name pat)
  show ?case
    by (rule relation_reads [OF expr_tokens.simps(12)]) (use unquoted [of pat] in \<open>simp_all add: isRelOp_def relExpr_def string_token_def\<close>)
next
  case (QLMatchRegExpr name pat)
  have "takeWhile (\<lambda>d. d \<noteq> CHR ''/'') (pat @ ''/'') = pat"
    using QLMatchRegExpr by (auto simp: list_all_iff intro: take_while_append_stop)
  then show ?case
    using QLMatchRegExpr
    by (intro relation_reads [OF expr_tokens.simps(13)]) (simp_all add: isRelOp_def relExpr_def tokenAsString_def regExpAsString_def)
qed simp

lemma lexable_value: "value_ok v \<Longrightarrow> lexable (value_token v)"
  by (cases v) (auto simp: lexable_number lexable_string intro!: lexable_identifier
      simp: ql_identifier_def identifierStart_def identifierChar_def in_range_def)

lemma lexable_in_parens: "list_all lexable (in_parens b ts) \<longleftrightarrow> list_all lexable ts"
  by (auto simp: in_parens_def lexable_operators)

lemma lexable_expr: "query_printable A e \<Longrightarrow> list_all lexable (expr_tokens e p)"
  by (induction e arbitrary: p)
    (auto simp: lexable_in_parens lexable_operators lexable_identifier lexable_value lexable_string simp del: append.simps
      intro!: lexable_regexp [simplified] lexable_regexp)

text \<open>A query in which nothing follows the expression.\<close>

lemma parse_of_tokens:
  assumes "number_laws A" and "query_printable A e" and "qa_tokens A query = map Tok (expr_tokens e 0)"
  shows "qlParse A query = Some (Inr e)"
proof -
  let ?ts = "expr_tokens e 0" and ?eof = "\<lparr>tk_class = EOF_TOKEN, tk_value = []\<rparr> :: ql_token"
  have "follows [] ?eof []" by (simp add: follows_def nextToken_def isRelOp_def tokenOperator_def)
  moreover have "tokenOperator ?eof = None" by (simp add: tokenOperator_def)
  ultimately have "gives (\<lambda>n. parseExpr n A (hd ?ts)) (map Tok (tl ?ts) @ []) (Inr (e, ?eof), [])"
    using parser_reads [OF assms(1,2)] gives_end_of_loop(2) [of ?eof A e "[]"] readsD(4) [of A e "[]" ?eof "[]"]
    by (simp add: reads_all_def)
  then obtain n where "parseExpr n A (hd ?ts) (map Tok (tl ?ts)) = Some (Inr (e, ?eof), [])" by (auto simp: gives_def)
  then have "parseTokens n A (qa_tokens A query) = Some (Inr e, [])"
    using next_of_tokens [OF tokens_nonempty [OF assms(2), of 0], of "[]"] by (simp add: parseTokens_def assms(3))
  then show ?thesis by (rule qlParse_from_depth)
qed

lemma sample_numbers: "number_laws sample_ql"
proof -
  have "parseIntStrict (show_nat n) = Some (int n)" if "n < 2 ^ 31" for n
    using parseIntStrict_show_int [of "int n"] that by (simp add: show_int_def)
  then show ?thesis by (simp add: number_laws_def sample_ql_def sample_number_def)
qed

section \<open>Properties of the query language\<close>

text \<open>C40: Whatever the query, the parser returns, with an expression or with an exception; the bound on its depth, three
  times the number of tokens plus five, is never reached.
\<close>

theorem query_parse_returns: "\<exists>r. qlParse A query = Some r"
  using qlParse_returns [of "qa_tokens A query" "parse_bound (qa_tokens A query)" A] by (auto simp: qlParse_def Let_def)

text \<open>C8: Writing an expression down as a query, with no more parentheses than the precedence of \<open>||\<close>, \<open>&&\<close> and \<open>!\<close> asks
  for, and parsing the text gives the expression back, with the operators associating to the left; so the query
  language expresses every expression of identifiers, strings, truth values and numbers without a sign.
\<close>

theorem query_round_trip:
  assumes "tokenizer_laws (qa_tokens A)" and "number_laws A" and "query_printable A e"
  shows "qlParse A (query_text e) = Some (Inr e)"
  by (rule parse_of_tokens [OF assms(2,3)]) (simp add: query_text_def tokens_of_text [OF assms(1)] lexable_expr [OF assms(3)])

theorem query_round_trip_witness:
  "let e = QLOrExpr (QLExistsExpr ''a'') (QLNotExpr (QLAndExpr (QLEqExpr ''b'' (VInt 7)) (QLMatchExpr ''c'' ''x*''))) in
   qlParse sample_ql (query_text e) = Some (Inr e)"
  unfolding Let_def by (rule query_round_trip [OF sample_tokenizer sample_numbers])
    (simp add: ql_identifier_def identifierStart_def in_range_def)

text \<open>C14: The pattern matcher answers on every text as the items of the pattern say - any character, any sequence, a
  literal, a set of ranges, possibly inverted - and throws on none of them; backtracking from a star misses no match.
\<close>

theorem glob_matches_reference:
  assumes "list_all item_ok is"
  shows "globMatch V (glob_text is) s = Inr (glob_matches V is s)"
  using assms by (rule globMatch_text)

theorem glob_matches_reference_witness:
  "globMatch (\<lambda>c. of_char c) (glob_text [AnySeq, OneOf False [(CHR ''a'', CHR ''f'')], Literal (CHR ''*'')]) ''xyc*'' =
     Inr (glob_matches (\<lambda>c. of_char c) [AnySeq, OneOf False [(CHR ''a'', CHR ''f'')], Literal (CHR ''*'')] ''xyc*'')"
  by (rule glob_matches_reference) simp

end
