(* ===== verification/ServiceRegistry.thy ===== *)
theory ServiceRegistry
  imports QueryLaws OspRepository
begin

text \<open>
  The service registry (\<open>src/platform/OSP/src/ServiceRegistry.cpp\<close>, \<open>ServiceRef.cpp\<close>, \<open>ServiceListener.cpp\<close>,
  \<open>Service.cpp\<close>, \<open>ServiceFinder.h\<close>): services registered under a name with their properties, found by name or by query,
  and listeners that follow the registrations a query matches.
\<close>

section \<open>Services\<close>

text \<open>
  A service is an object of code outside the registry: its type name, the types it is an instance of, and for a
  service factory what \<open>createService\<close> does. \<open>se_notify\<close> is the exception the owner of a listener throws from the
  delegate for a registration (\<open>True\<close>) or its end.
\<close>

record 'd svc_env =
  se_ql :: "'d ql_api"
  se_typeName :: "nat \<Rightarrow> string"                 \<comment> \<open>\<open>Service::type().name()\<close>\<close>
  se_isA :: "nat \<Rightarrow> string \<Rightarrow> bool"            \<comment> \<open>\<open>Service::isA\<close>\<close>
  se_createService :: "nat \<Rightarrow> (exc + nat option) option" \<comment> \<open>\<open>ServiceFactory::createService\<close>; \<open>None\<close>: no factory\<close>
  se_notify :: "bool \<Rightarrow> nat \<Rightarrow> nat \<Rightarrow> exc option"

record service_ref =
  sr_name :: string
  sr_props :: service_props
  sr_service :: "nat option"                        \<comment> \<open>\<open>Service::Ptr\<close>\<close>

record 'd service_listener =
  sl_expr :: "'d ql_expr"
  sl_refs :: "nat set"

text \<open>
  References and listeners are objects on the heap. \<open>rg_onRegistered\<close> and \<open>rg_onUnregistered\<close> are the delegates of the
  two events, in the order in which they were added; a delegate of a listener that does not exist dangles.
  \<open>rg_log\<close> records the notifications that reached the owners of listeners.
\<close>

record 'd registry =
  rg_services :: "(string \<times> nat) list"
  rg_refs :: "nat \<Rightarrow> service_ref"
  rg_nextRef :: nat
  rg_listeners :: "nat \<Rightarrow> 'd service_listener option"
  rg_nextListener :: nat
  rg_onRegistered :: "nat list"
  rg_onUnregistered :: "nat list"
  rg_log :: "(bool \<times> nat \<times> nat) list"

type_synonym ('d, 'a) reg = "('d registry, 'a) prog"

definition PROP_NAME :: string where "PROP_NAME = ''name''"
definition PROP_TYPE :: string where "PROP_TYPE = ''type''"

definition newRegistry :: "'d registry" where
  "newRegistry =
     \<lparr>rg_services = [], rg_refs = (\<lambda>r. \<lparr>sr_name = [], sr_props = [], sr_service = None\<rparr>), rg_nextRef = 0,
      rg_listeners = (\<lambda>l. None), rg_nextListener = 0, rg_onRegistered = [], rg_onUnregistered = [], rg_log = []\<rparr>"

section \<open>Service references\<close>

definition newServiceRef :: "string \<Rightarrow> service_props \<Rightarrow> nat option \<Rightarrow> service_ref" where
  "newServiceRef name props pService = \<lparr>sr_name = name, sr_props = props, sr_service = pService\<rparr>"

definition refInstance :: "'d svc_env \<Rightarrow> service_ref \<Rightarrow> exc + nat option" where
  "refInstance E ref =
     (case sr_service ref of
        None \<Rightarrow> Inr None
      | Some svc \<Rightarrow> (case se_createService E svc of Some created \<Rightarrow> created | None \<Rightarrow> Inr (Some svc)))"

definition castedInstance :: "'d svc_env \<Rightarrow> string \<Rightarrow> service_ref \<Rightarrow> exc + nat" where
  "castedInstance E type ref =
     (case refInstance E ref of
        Inl e \<Rightarrow> Inl e
      | Inr None \<Rightarrow> Inl nullPointer
      | Inr (Some svc) \<Rightarrow>
          if se_isA E svc type then Inr svc
          else Inl (PocoException (''Cannot cast from '' @ se_typeName E svc @ '' to '' @ type)))"

section \<open>Listeners\<close>

definition setRefs :: "nat \<Rightarrow> 'd service_listener \<Rightarrow> nat set \<Rightarrow> ('d, unit) reg" where
  "setRefs l L refs = p_modify (\<lambda>s. s\<lparr>rg_listeners := (rg_listeners s)(l \<mapsto> L\<lparr>sl_refs := refs\<rparr>)\<rparr>)"

definition notifyOwner :: "'d svc_env \<Rightarrow> bool \<Rightarrow> nat \<Rightarrow> nat \<Rightarrow> ('d, unit) reg" where
  "notifyOwner E kind l r =
     p_seq (p_modify (\<lambda>s. s\<lparr>rg_log := rg_log s @ [(kind, l, r)]\<rparr>))
       (case se_notify E kind l r of None \<Rightarrow> p_ret () | Some e \<Rightarrow> p_throw e)"

text \<open>A delegate that dangles is called on memory that was freed: the code has no defined behaviour, \<open>None\<close>.\<close>

definition onServiceRefRegistered :: "'d svc_env \<Rightarrow> nat \<Rightarrow> nat \<Rightarrow> ('d, unit) reg" where
  "onServiceRefRegistered E r l =
     p_bind (p_get (\<lambda>s. (rg_listeners s l, sr_props (rg_refs s r)))) (\<lambda>(listener, props).
       case listener of
         None \<Rightarrow> (\<lambda>s. None)
       | Some L \<Rightarrow>
           p_bind (p_lift (evaluate (se_ql E) props (sl_expr L))) (\<lambda>m.
             if m \<and> r \<notin> sl_refs L then p_seq (setRefs l L (insert r (sl_refs L))) (notifyOwner E True l r)
             else p_ret ()))"

definition onServiceRefUnregistered :: "'d svc_env \<Rightarrow> nat \<Rightarrow> nat \<Rightarrow> ('d, unit) reg" where
  "onServiceRefUnregistered E r l =
     p_bind (p_get (\<lambda>s. rg_listeners s l)) (\<lambda>listener.
       case listener of
         None \<Rightarrow> (\<lambda>s. None)
       | Some L \<Rightarrow>
           if r \<in> sl_refs L then p_seq (setRefs l L (sl_refs L - {r})) (notifyOwner E False l r)
           else p_ret ())"

section \<open>The registry\<close>

text \<open>\<open>BasicEvent::notify\<close> calls the delegates in their order; an exception ends it.\<close>

definition notifyRegistered :: "'d svc_env \<Rightarrow> nat \<Rightarrow> ('d, unit) reg" where
  "notifyRegistered E r = p_bind (p_get rg_onRegistered) (p_each (onServiceRefRegistered E r))"

definition notifyUnregistered :: "'d svc_env \<Rightarrow> nat \<Rightarrow> ('d, unit) reg" where
  "notifyUnregistered E r = p_bind (p_get rg_onUnregistered) (p_each (onServiceRefUnregistered E r))"

definition registered_props :: "'d svc_env \<Rightarrow> string \<Rightarrow> nat \<Rightarrow> service_props \<Rightarrow> service_props" where
  "registered_props E name svc props =
     propsSet (se_ql E) PROP_TYPE (se_typeName E svc) (propsSet (se_ql E) PROP_NAME name props)"

definition addService :: "string \<Rightarrow> service_ref \<Rightarrow> ('d, nat) reg" where
  "addService name ref s =
     (let r = rg_nextRef s in
      p_ret r (s\<lparr>rg_services := map_insert name r (rg_services s), rg_refs := (rg_refs s)(r := ref), rg_nextRef := Suc r\<rparr>))"

definition registerService :: "'d svc_env \<Rightarrow> string \<Rightarrow> nat option \<Rightarrow> service_props \<Rightarrow> ('d, nat) reg" where
  "registerService E name pService props =
     p_bind (p_get (\<lambda>s. map_of (rg_services s) name)) (\<lambda>found.
       case found of
         Some _ \<Rightarrow> p_throw (existsException name)
       | None \<Rightarrow>
           (case pService of
              None \<Rightarrow> p_throw nullPointer
            | Some svc \<Rightarrow>
                p_bind (addService name (newServiceRef name (registered_props E name svc props) pService)) (\<lambda>r.
                p_seq (notifyRegistered E r) (p_ret r))))"

definition unregisterService :: "'d svc_env \<Rightarrow> string \<Rightarrow> ('d, unit) reg" where
  "unregisterService E name =
     p_bind (p_get (\<lambda>s. map_of (rg_services s) name)) (\<lambda>found.
       case found of
         Some r \<Rightarrow> p_seq (p_modify (\<lambda>s. s\<lparr>rg_services := map_erase name (rg_services s)\<rparr>)) (notifyUnregistered E r)
       | None \<Rightarrow> p_throw (NotFoundException name))"

definition unregisterServiceRef :: "'d svc_env \<Rightarrow> nat option \<Rightarrow> ('d, unit) reg" where
  "unregisterServiceRef E pServiceRef =
     (case pServiceRef of
        None \<Rightarrow> p_ret ()
      | Some r \<Rightarrow> p_bind (p_get (\<lambda>s. sr_name (rg_refs s r))) (unregisterService E))"

definition findByName :: "string \<Rightarrow> ('d, nat option) reg" where
  "findByName name = p_get (\<lambda>s. map_of (rg_services s) name)"

fun find_loop :: "'d ql_api \<Rightarrow> (nat \<Rightarrow> service_props) \<Rightarrow> 'd ql_expr \<Rightarrow> (string \<times> nat) list \<Rightarrow> exc + nat list" where
  "find_loop A props expr [] = Inr []"
| "find_loop A props expr ((name, r) # m) =
     (case evaluate A (props r) expr of
        Inl e \<Rightarrow> Inl e
      | Inr hit \<Rightarrow> map_sum id (\<lambda>rs. if hit then r # rs else rs) (find_loop A props expr m))"

definition findExpr :: "'d svc_env \<Rightarrow> 'd ql_expr \<Rightarrow> ('d, nat list) reg" where
  "findExpr E expr s = p_lift (find_loop (se_ql E) (\<lambda>r. sr_props (rg_refs s r)) expr (rg_services s)) s"

text \<open>\<open>*pExpr\<close> of a null pointer throws.\<close>

definition derefExpr :: "'d ql_expr \<Rightarrow> exc + 'd ql_expr" where
  "derefExpr expr = (case expr of QLNull \<Rightarrow> Inl nullPointer | _ \<Rightarrow> Inr expr)"

definition parseQuery :: "'d svc_env \<Rightarrow> string \<Rightarrow> ('d, 'd ql_expr) reg" where
  "parseQuery E query s = map_option (\<lambda>r. (r, s)) (qlParse (se_ql E) query)"

definition findQuery :: "'d svc_env \<Rightarrow> string \<Rightarrow> ('d, nat list) reg" where
  "findQuery E query =
     p_bind (parseQuery E query) (\<lambda>expr. p_bind (p_lift (derefExpr expr)) (findExpr E))"

text \<open>\<open>ServiceFinder::findByName\<close>\<close>

definition finderFindByName :: "'d svc_env \<Rightarrow> string \<Rightarrow> string \<Rightarrow> ('d, nat) reg" where
  "finderFindByName E type name =
     p_bind (findByName name) (\<lambda>found.
       case found of
         None \<Rightarrow> p_throw (NotFoundException name)
       | Some r \<Rightarrow> (\<lambda>s. p_lift (castedInstance E type (rg_refs s r)) s))"

section \<open>Creating and destroying listeners\<close>

definition initListener :: "'d svc_env \<Rightarrow> nat \<Rightarrow> string \<Rightarrow> ('d, unit) reg" where
  "initListener E l query =
     p_bind (parseQuery E query) (\<lambda>expr.
     p_seq (p_modify (\<lambda>s. s\<lparr>rg_listeners := (rg_listeners s)(l \<mapsto> \<lparr>sl_expr = expr, sl_refs = {}\<rparr>),
                            rg_onRegistered := rg_onRegistered s @ [l], rg_onUnregistered := rg_onUnregistered s @ [l]\<rparr>))
    (p_bind (p_lift (derefExpr expr)) (\<lambda>expr.
     p_bind (findExpr E expr) (p_each (\<lambda>r. onServiceRefRegistered E r l)))))"

text \<open>
  \<open>new ServiceListener(\<dots>)\<close>: when the constructor throws, the memory is freed and the destructor, which would remove
  the delegates, does not run.
\<close>

definition freeListener :: "nat \<Rightarrow> ('d, unit) reg" where
  "freeListener l = p_modify (\<lambda>s. s\<lparr>rg_listeners := (rg_listeners s)(l := None)\<rparr>)"

definition createListener :: "'d svc_env \<Rightarrow> string \<Rightarrow> ('d, nat) reg" where
  "createListener E query s =
     (let l = rg_nextListener s in
      p_seq (p_catch (initListener E l query) (\<lambda>e. p_seq (freeListener l) (p_throw e))) (p_ret l)
        (s\<lparr>rg_nextListener := Suc l\<rparr>))"

definition destroyListener :: "nat \<Rightarrow> ('d, unit) reg" where
  "destroyListener l =
     p_seq (p_modify (\<lambda>s. s\<lparr>rg_onRegistered := remove1 l (rg_onRegistered s), rg_onUnregistered := remove1 l (rg_onUnregistered s)\<rparr>))
       (freeListener l)"

section \<open>Histories\<close>

text \<open>
  Operations of bundles on the registry, and the states they lead to as long as none of them throws; the properties of
  a service stay as they were given at its registration.
\<close>

datatype svc_op =
    RegisterService string "nat option" service_props
  | UnregisterService string
  | UnregisterServiceRef "nat option"
  | CreateListener string
  | DestroyListener nat

primrec run_op :: "'d svc_env \<Rightarrow> svc_op \<Rightarrow> ('d, unit) reg" where
  "run_op E (RegisterService name svc props) = p_seq (registerService E name svc props) (p_ret ())"
| "run_op E (UnregisterService name) = unregisterService E name"
| "run_op E (UnregisterServiceRef ref) = unregisterServiceRef E ref"
| "run_op E (CreateListener query) = p_seq (createListener E query) (p_ret ())"
| "run_op E (DestroyListener l) = destroyListener l"

inductive registry_reach :: "'d svc_env \<Rightarrow> 'd registry \<Rightarrow> bool" for E where
  start: "registry_reach E newRegistry"
| step: "registry_reach E s \<Longrightarrow> run_op E op s = Some (Inr (), t) \<Longrightarrow> registry_reach E t"

text \<open>The references a query selects, and those the owner of a listener has been told of and not told the end of.\<close>

definition selected :: "'d svc_env \<Rightarrow> 'd registry \<Rightarrow> 'd ql_expr \<Rightarrow> nat set" where
  "selected E s expr =
     {r \<in> snd ` set (rg_services s). evaluate (se_ql E) (sr_props (rg_refs s r)) expr = Inr True}"

definition owner_view :: "nat \<Rightarrow> (bool \<times> nat \<times> nat) list \<Rightarrow> nat set" where
  "owner_view l trace =
     foldl (\<lambda>refs (kind, l', r). if l' = l then if kind then insert r refs else refs - {r} else refs) {} trace"

lemma owner_view_simps [simp]:
  "owner_view l [] = {}"
  "owner_view l (trace @ [(kind, l', r)]) =
     (if l' = l then if kind then insert r (owner_view l trace) else owner_view l trace - {r} else owner_view l trace)"
  by (simp_all add: owner_view_def)

lemma owner_view_fresh: "(\<And>kind r. (kind, l, r) \<notin> set trace) \<Longrightarrow> owner_view l trace = {}"
  by (induction trace rule: rev_induct) (auto split: prod.splits if_splits)

definition registry_wf :: "'d svc_env \<Rightarrow> 'd registry \<Rightarrow> bool" where
  "registry_wf E s \<longleftrightarrow>
     sorted_wrt (<) (map fst (rg_services s)) \<and>
     (\<forall>(n, r) \<in> set (rg_services s). r < rg_nextRef s \<and> sr_name (rg_refs s r) = n \<and>
        propsFind (se_ql E) (sr_props (rg_refs s r)) PROP_NAME = Some n)"

lemma registry_wfD:
  assumes "registry_wf E s" and "(n, r) \<in> set (rg_services s)"
  shows "r < rg_nextRef s" "sr_name (rg_refs s r) = n" "propsFind (se_ql E) (sr_props (rg_refs s r)) PROP_NAME = Some n"
  using assms unfolding registry_wf_def by blast+

definition delegates_ok :: "'d registry \<Rightarrow> bool" where
  "delegates_ok s \<longleftrightarrow>
     distinct (rg_onRegistered s) \<and> rg_onUnregistered s = rg_onRegistered s \<and>
     set (rg_onRegistered s) = dom (rg_listeners s) \<and> (\<forall>l \<in> dom (rg_listeners s). l < rg_nextListener s) \<and>
     (\<forall>(kind, l, r) \<in> set (rg_log s). l < rg_nextListener s)"

definition owners_told :: "'d registry \<Rightarrow> bool" where
  "owners_told s \<longleftrightarrow> (\<forall>l L. rg_listeners s l = Some L \<longrightarrow> owner_view l (rg_log s) = sl_refs L)"

definition listeners_track :: "'d svc_env \<Rightarrow> 'd registry \<Rightarrow> bool" where
  "listeners_track E s \<longleftrightarrow> (\<forall>l L. rg_listeners s l = Some L \<longrightarrow> sl_refs L = selected E s (sl_expr L))"

text \<open>What a notification leaves alone.\<close>

definition same_services :: "'d registry \<Rightarrow> 'd registry \<Rightarrow> bool" where
  "same_services s t \<longleftrightarrow>
     rg_services t = rg_services s \<and> rg_refs t = rg_refs s \<and> rg_nextRef t = rg_nextRef s \<and>
     rg_nextListener t = rg_nextListener s \<and> rg_onRegistered t = rg_onRegistered s \<and>
     rg_onUnregistered t = rg_onUnregistered s"

text \<open>
  Telling listeners: each listener of \<open>ls\<close> gets the references \<open>f\<close> makes of its own, the other listeners keep theirs,
  and the owners know of it.
\<close>

definition told :: "('d service_listener \<Rightarrow> nat set) \<Rightarrow> nat list \<Rightarrow> 'd registry \<Rightarrow> 'd registry \<Rightarrow> bool" where
  "told f ls s t \<longleftrightarrow>
     same_services s t \<and> set ls \<subseteq> dom (rg_listeners s) \<and>
     rg_listeners t = (\<lambda>l. if l \<in> set ls then map_option (\<lambda>L. L\<lparr>sl_refs := f L\<rparr>) (rg_listeners s l) else rg_listeners s l) \<and>
     (owners_told s \<longrightarrow> owners_told t) \<and>
     (\<forall>x \<in> set (rg_log t). x \<in> set (rg_log s) \<or> fst (snd x) \<in> set ls)"

lemma told_none: "told f [] s s"
  by (simp add: told_def same_services_def)

lemma told_both:
  assumes "told f [l] s t" and "told f ls t u" and "l \<notin> set ls"
  shows "told f (l # ls) s u"
proof -
  have "rg_listeners u k = (if k \<in> set (l # ls) then map_option (\<lambda>L. L\<lparr>sl_refs := f L\<rparr>) (rg_listeners s k) else rg_listeners s k)" for k
    using assms by (auto simp: told_def)
  moreover have "set ls \<subseteq> dom (rg_listeners s)" using assms by (auto simp: told_def split: if_splits)
  ultimately show ?thesis using assms by (auto simp: told_def same_services_def fun_eq_iff)
qed

lemma told_each:
  assumes one: "\<And>l s t. m l s = Some (Inr (), t) \<Longrightarrow> rg_refs s = refs \<Longrightarrow> told f [l] s t"
    and "distinct ls" and "p_each m ls s = Some (Inr (), t)" "rg_refs s = refs"
  shows "told f ls s t"
  using assms(2-4)
proof (induction ls arbitrary: s)
  case Nil
  then show ?case by (simp add: told_none)
next
  case (Cons l ls)
  from Cons.prems(2) obtain u where u: "m l s = Some (Inr (), u)" "p_each m ls u = Some (Inr (), t)"
    unfolding p_each.simps p_seq_def by (auto elim: p_bind_cases)
  have first: "told f [l] s u" using one u(1) Cons.prems(3) by blast
  then have "rg_refs u = refs" using Cons.prems(3) by (simp add: told_def same_services_def)
  then show ?case using Cons first u(2) by (intro told_both [OF first]) auto
qed

lemma told_owner:
  assumes "rg_listeners s l = Some L" and "notifyOwner E kind l r u = Some (Inr (), t)"
    and "u = s\<lparr>rg_listeners := (rg_listeners s)(l \<mapsto> L\<lparr>sl_refs := refs\<rparr>)\<rparr>"
    and "refs = (if kind then insert r (sl_refs L) else sl_refs L - {r})" and "f L = refs"
  shows "told f [l] s t"
proof -
  have t: "t = u\<lparr>rg_log := rg_log u @ [(kind, l, r)]\<rparr>"
    using assms(2) by (auto simp: notifyOwner_def p_seq_def p_bind_def split: option.splits)
  show ?thesis
    unfolding told_def t assms(3) using assms(1,4,5) by (auto simp: same_services_def owners_told_def fun_eq_iff)
qed

lemma told_nothing: "rg_listeners s l = Some L \<Longrightarrow> f L = sl_refs L \<Longrightarrow> told f [l] s s"
  by (auto simp: told_def same_services_def fun_eq_iff)

lemma registered_told:
  assumes "onServiceRefRegistered E r l s = Some (Inr (), t)"
  shows "told (\<lambda>L. if evaluate (se_ql E) (sr_props (rg_refs s r)) (sl_expr L) = Inr True then insert r (sl_refs L) else sl_refs L) [l] s t"
proof -
  obtain L where L: "rg_listeners s l = Some L"
    using assms by (cases "rg_listeners s l") (auto simp: onServiceRefRegistered_def)
  then obtain b where b: "evaluate (se_ql E) (sr_props (rg_refs s r)) (sl_expr L) = Inr b"
    using assms by (cases "evaluate (se_ql E) (sr_props (rg_refs s r)) (sl_expr L)") (auto simp: onServiceRefRegistered_def)
  show ?thesis
  proof (cases "b \<and> r \<notin> sl_refs L")
    case True
    then have "notifyOwner E True l r (s\<lparr>rg_listeners := (rg_listeners s)(l \<mapsto> L\<lparr>sl_refs := insert r (sl_refs L)\<rparr>)\<rparr>) = Some (Inr (), t)"
      using assms L b by (simp add: onServiceRefRegistered_def setRefs_def)
    from told_owner [OF L this refl] show ?thesis using True b by simp
  next
    case False
    then have "t = s" using assms L b by (cases b) (simp_all add: onServiceRefRegistered_def)
    show ?thesis unfolding \<open>t = s\<close> by (rule told_nothing [OF L]) (use False b in auto)
  qed
qed

lemma unregistered_told:
  assumes "onServiceRefUnregistered E r l s = Some (Inr (), t)"
  shows "told (\<lambda>L. sl_refs L - {r}) [l] s t"
proof -
  obtain L where L: "rg_listeners s l = Some L"
    using assms by (cases "rg_listeners s l") (auto simp: onServiceRefUnregistered_def)
  show ?thesis
  proof (cases "r \<in> sl_refs L")
    case True
    then have "notifyOwner E False l r (s\<lparr>rg_listeners := (rg_listeners s)(l \<mapsto> L\<lparr>sl_refs := sl_refs L - {r}\<rparr>)\<rparr>) = Some (Inr (), t)"
      using assms L by (simp add: onServiceRefUnregistered_def setRefs_def)
    from told_owner [OF L this refl] show ?thesis by simp
  next
    case False
    then have "t = s" using assms L by (simp add: onServiceRefUnregistered_def)
    then show ?thesis using told_nothing [OF L] False by auto
  qed
qed

section \<open>What every history keeps\<close>

definition registry_ok :: "'d svc_env \<Rightarrow> 'd registry \<Rightarrow> bool" where
  "registry_ok E s \<longleftrightarrow> registry_wf E s \<and> delegates_ok s \<and> owners_told s \<and> listeners_track E s"

lemma told_delegates:
  assumes "delegates_ok s" and "told f ls s t"
  shows "delegates_ok t"
proof -
  have same: "dom (rg_listeners t) = dom (rg_listeners s)" using assms(2) by (auto simp: told_def dom_def)
  have entry: "fst (snd x) < rg_nextListener s" if "x \<in> set (rg_log t)" for x
  proof -
    have "x \<in> set (rg_log s) \<or> fst (snd x) \<in> dom (rg_listeners s)" using assms(2) that by (auto simp: told_def)
    then show ?thesis using assms(1) by (auto simp: delegates_ok_def)
  qed
  have "rg_onRegistered t = rg_onRegistered s" "rg_onUnregistered t = rg_onUnregistered s" "rg_nextListener t = rg_nextListener s"
    using assms(2) by (simp_all add: told_def same_services_def)
  then show ?thesis using assms(1) same entry by (fastforce simp: delegates_ok_def)
qed

lemma set_insert_new: "map_of m k = None \<Longrightarrow> set (map_insert k x m) = insert (k, x) (set m)"
  by (induction k x m rule: map_insert.induct) (auto split: if_splits)

lemma told_selected: "told f ls s t \<Longrightarrow> selected E t x = selected E s x"
  by (simp add: told_def same_services_def selected_def)

lemma told_wf: "told f ls s t \<Longrightarrow> registry_wf E t = registry_wf E s"
  by (simp add: told_def same_services_def registry_wf_def)

text \<open>All listeners are told, and each then has what its query selects.\<close>

lemma told_all:
  assumes "registry_wf E s" "delegates_ok s" "owners_told s" and "told f (rg_onRegistered s) s t"
    and "\<And>l L. rg_listeners s l = Some L \<Longrightarrow> f L = selected E s (sl_expr L)"
  shows "registry_ok E t"
proof -
  have listener: "rg_listeners t l = map_option (\<lambda>L. L\<lparr>sl_refs := f L\<rparr>) (rg_listeners s l)" for l
  proof (cases "rg_listeners s l")
    case (Some L)
    then have "l \<in> set (rg_onRegistered s)" using assms(2) by (auto simp: delegates_ok_def)
    then show ?thesis using assms(4) by (simp add: told_def)
  qed (use assms(4) in \<open>simp add: told_def\<close>)
  have "sl_refs M = selected E t (sl_expr M)" if "rg_listeners t l = Some M" for l M
    using that assms(5) unfolding listener told_selected [OF assms(4)] by auto
  moreover have "owners_told t" using assms(3,4) by (simp add: told_def)
  ultimately show ?thesis
    using assms(1) told_wf [OF assms(4)] told_delegates [OF assms(2,4)] by (simp add: registry_ok_def listeners_track_def)
qed

lemma find_after_set: "icompare_laws (qa_icompare A) \<Longrightarrow> propsFind A (propsSet A k v ps) k = Some v"
  by (induction ps) (auto simp: icompare_laws_def)

lemma find_after_other:
  assumes "icompare_laws (qa_icompare A)" and "qa_icompare A k k' \<noteq> 0"
  shows "propsFind A (propsSet A k' v ps) k = propsFind A ps k"
proof (induction ps)
  case Nil
  then show ?case using assms(2) by simp
next
  case (Cons p ps)
  obtain a b where p: "p = (a, b)" by (cases p)
  have "qa_icompare A k a \<noteq> 0" if "qa_icompare A k' a = 0"
  proof
    assume "qa_icompare A k a = 0"
    moreover have sym: "qa_icompare A x y = 0 \<Longrightarrow> qa_icompare A y x = 0" for x y
      using assms(1) unfolding icompare_laws_def by (metis less_irrefl linorder_neqE_linordered_idom)
    ultimately have "qa_icompare A k k' \<le> 0" and "qa_icompare A k' k \<le> 0"
      using assms(1) that unfolding icompare_laws_def by (metis order_refl)+
    then show False using assms unfolding icompare_laws_def by (metis less_le not_less)
  qed
  then show ?case using Cons assms(2) p by auto
qed

lemma registered_name:
  assumes "icompare_laws (qa_icompare (se_ql E))" and "qa_icompare (se_ql E) PROP_NAME PROP_TYPE \<noteq> 0"
  shows "propsFind (se_ql E) (registered_props E name svc props) PROP_NAME = Some name"
  using assms by (simp add: registered_props_def find_after_other find_after_set)

text \<open>What the properties rely on of the comparison of keys.\<close>

definition keys_laws :: "'d svc_env \<Rightarrow> bool" where
  "keys_laws E \<longleftrightarrow> icompare_laws (qa_icompare (se_ql E)) \<and> qa_icompare (se_ql E) PROP_NAME PROP_TYPE \<noteq> 0"

lemma add_service_wf:
  assumes "registry_wf E s" "keys_laws E" and "addService name (newServiceRef name (registered_props E name svc props) p) s = Some (Inr r, t)"
    and "map_of (rg_services s) name = None"
  shows "registry_wf E t"
proof -
  let ?ref = "newServiceRef name (registered_props E name svc props) p"
  have r: "r = rg_nextRef s" and t: "t = s\<lparr>rg_services := map_insert name r (rg_services s), rg_refs := (rg_refs s)(r := ?ref), rg_nextRef := Suc r\<rparr>"
    using assms(3) by (auto simp: addService_def Let_def)
  have sorted: "sorted_wrt (<) (map fst (rg_services t))" using assms(1) by (simp add: t registry_wf_def sorted_map_insert)
  have entry: "q < rg_nextRef t \<and> sr_name (rg_refs t q) = n \<and> propsFind (se_ql E) (sr_props (rg_refs t q)) PROP_NAME = Some n"
    if "(n, q) \<in> set (rg_services t)" for n q
  proof (cases "(n, q) \<in> set (rg_services s)")
    case True
    then show ?thesis using assms(1) r by (auto simp: t registry_wf_def)
  next
    case False
    then have "n = name" "q = r" using that set_insert_new [OF assms(4), of r] by (auto simp: t)
    then show ?thesis using registered_name [of E name svc props] assms(2) by (simp add: t newServiceRef_def keys_laws_def)
  qed
  show ?thesis using sorted entry by (auto simp: registry_wf_def)
qed

lemma add_service_selected:
  assumes "registry_wf E s" and "addService name ref s = Some (Inr r, t)" and "map_of (rg_services s) name = None"
  shows "selected E t x = (if evaluate (se_ql E) (sr_props (rg_refs t r)) x = Inr True then insert r (selected E s x) else selected E s x)"
proof -
  have r: "r = rg_nextRef s" and t: "t = s\<lparr>rg_services := map_insert name r (rg_services s), rg_refs := (rg_refs s)(r := ref), rg_nextRef := Suc r\<rparr>"
    using assms(2) by (auto simp: addService_def Let_def)
  have new: "set (map_insert name r (rg_services s)) = insert (name, r) (set (rg_services s))"
    by (rule set_insert_new [OF assms(3)])
  have old: "\<forall>q \<in> snd ` set (rg_services s). q \<noteq> r" using assms(1) r by (auto simp: registry_wf_def)
  show ?thesis unfolding selected_def t using new old by auto
qed

lemma register_returns:
  assumes "registerService E name p props s = Some (Inr r, t)"
  obtains svc u where "p = Some svc" "map_of (rg_services s) name = None"
    "addService name (newServiceRef name (registered_props E name svc props) p) s = Some (Inr r, u)"
    "notifyRegistered E r u = Some (Inr (), t)"
proof -
  have free: "map_of (rg_services s) name = None" using assms by (auto simp: registerService_def split: option.splits)
  with assms obtain svc where svc: "p = Some svc" by (auto simp: registerService_def split: option.splits)
  let ?add = "addService name (newServiceRef name (registered_props E name svc props) p)"
  have run: "p_bind ?add (\<lambda>r. p_seq (notifyRegistered E r) (p_ret r)) s = Some (Inr r, t)"
    using assms free svc by (simp add: registerService_def)
  obtain u where u: "?add s = Some (Inr (rg_nextRef s), u)" by (simp add: addService_def Let_def)
  have "p_seq (notifyRegistered E (rg_nextRef s)) (p_ret (rg_nextRef s)) u = Some (Inr r, t)" using run u by simp
  then have "r = rg_nextRef s" "notifyRegistered E r u = Some (Inr (), t)"
    unfolding p_seq_def by (auto elim!: p_bind_cases)
  then show thesis using that svc free u by blast
qed

lemma register_ok:
  assumes "registry_ok E s" "keys_laws E" and "registerService E name p props s = Some (Inr r, t)"
  shows "registry_ok E t"
  using assms(3)
proof (cases rule: register_returns)
  case (1 svc u)
  have inv: "registry_wf E s" "delegates_ok s" "owners_told s" "listeners_track E s" using assms(1) by (simp_all add: registry_ok_def)
  have listeners: "rg_listeners u = rg_listeners s" "rg_onRegistered u = rg_onRegistered s" "rg_log u = rg_log s"
    "rg_onUnregistered u = rg_onUnregistered s" "rg_nextListener u = rg_nextListener s"
    using 1(3) by (auto simp: addService_def Let_def)
  let ?f = "\<lambda>L. if evaluate (se_ql E) (sr_props (rg_refs u r)) (sl_expr L) = Inr True then insert r (sl_refs L) else sl_refs L"
  have ok: "delegates_ok u" "owners_told u" using inv by (simp_all add: delegates_ok_def owners_told_def listeners)
  have told: "told ?f (rg_onRegistered u) u t"
  proof (rule told_each [where refs = "rg_refs u"])
    show "told ?f [l] v w" if "onServiceRefRegistered E r l v = Some (Inr (), w)" "rg_refs v = rg_refs u" for l v w
      using registered_told [OF that(1)] unfolding that(2) .
    show "p_each (onServiceRefRegistered E r) (rg_onRegistered u) u = Some (Inr (), t)"
      using 1(4) by (simp add: notifyRegistered_def)
    show "distinct (rg_onRegistered u)" using ok(1) by (simp add: delegates_ok_def)
  qed simp
  show ?thesis
  proof (rule told_all [OF add_service_wf [OF inv(1) assms(2) 1(3,2)] ok told])
    fix l L assume "rg_listeners u l = Some L"
    then have "sl_refs L = selected E s (sl_expr L)" using inv(4) by (simp add: listeners_track_def listeners)
    then show "?f L = selected E u (sl_expr L)" by (simp add: add_service_selected [OF inv(1) 1(3,2)])
  qed
qed

lemma unregister_ok:
  assumes "registry_ok E s" and "unregisterService E name s = Some (Inr (), t)"
  shows "registry_ok E t"
proof -
  obtain r where r: "map_of (rg_services s) name = Some r"
    using assms(2) by (auto simp: unregisterService_def split: option.splits)
  let ?u = "s\<lparr>rg_services := map_erase name (rg_services s)\<rparr>"
  have inv: "registry_wf E s" "delegates_ok s" "owners_told s" "listeners_track E s"
    using assms(1) by (simp_all add: registry_ok_def)
  have told: "told (\<lambda>L. sl_refs L - {r}) (rg_onRegistered ?u) ?u t"
  proof (rule told_each [where refs = "rg_refs ?u"])
    show "told (\<lambda>L. sl_refs L - {r}) [l] v w" if "onServiceRefUnregistered E r l v = Some (Inr (), w)" for l v w
      using that by (rule unregistered_told)
    have "rg_onUnregistered s = rg_onRegistered s" using inv(2) by (simp add: delegates_ok_def)
    moreover have "notifyUnregistered E r ?u = Some (Inr (), t)"
      using assms(2) r by (simp add: unregisterService_def p_seq_def p_bind_def p_get_def p_modify_def)
    ultimately show "p_each (onServiceRefUnregistered E r) (rg_onRegistered ?u) ?u = Some (Inr (), t)"
      by (simp add: notifyUnregistered_def p_bind_def p_get_def)
    show "distinct (rg_onRegistered ?u)" using inv(2) by (simp add: delegates_ok_def)
  qed simp
  have name: "n = name" if "(n, r) \<in> set (rg_services s)" for n
    using registry_wfD(2) [OF inv(1) that] registry_wfD(2) [OF inv(1) map_of_SomeD [OF r]] by simp
  have names: "distinct (map fst (rg_services s))" using inv(1) by (simp add: registry_wf_def strict_sorted_iff)
  have "n \<noteq> name" if "(n, q) \<in> set (rg_services s)" "q \<noteq> r" for n q
    using that r map_of_is_SomeI [OF names that(1)] by auto
  then have entries: "snd ` set (map_erase name (rg_services s)) = snd ` set (rg_services s) - {r}"
    using name by (force simp: map_erase_def)
  show ?thesis
  proof (rule told_all [OF _ _ _ told])
    show "registry_wf E ?u" using inv(1) sorted_map_erase [of "rg_services s" name] by (auto simp: registry_wf_def map_erase_def)
    show "delegates_ok ?u" "owners_told ?u" using inv(2,3) by (simp_all add: delegates_ok_def owners_told_def)
    fix l L assume "rg_listeners ?u l = Some L"
    then have "sl_refs L = selected E s (sl_expr L)" using inv(4) by (simp add: listeners_track_def)
    then show "sl_refs L - {r} = selected E ?u (sl_expr L)" by (auto simp: selected_def entries)
  qed
qed

lemma told_twice:
  assumes "told f [l] s t" and "told g [l] t u" and "\<And>L. h L = g (L\<lparr>sl_refs := f L\<rparr>)"
  shows "told h [l] s u"
  using assms by (auto simp: told_def same_services_def fun_eq_iff option.map_comp o_def)

lemma told_results:
  assumes "p_each (\<lambda>r. onServiceRefRegistered E r l) rs s = Some (Inr (), t)" and "l \<in> dom (rg_listeners s)"
  shows "told (\<lambda>L. sl_refs L \<union> {r \<in> set rs. evaluate (se_ql E) (sr_props (rg_refs s r)) (sl_expr L) = Inr True}) [l] s t"
  using assms
proof (induction rs arbitrary: s)
  case Nil
  then show ?case by (auto intro: told_nothing)
next
  case (Cons r rs)
  from Cons.prems(1) obtain u where u: "onServiceRefRegistered E r l s = Some (Inr (), u)"
    "p_each (\<lambda>r. onServiceRefRegistered E r l) rs u = Some (Inr (), t)"
    unfolding p_each.simps p_seq_def by (auto elim: p_bind_cases)
  note first = registered_told [OF u(1)]
  then have refs: "rg_refs u = rg_refs s" and "l \<in> dom (rg_listeners u)" using Cons.prems(2) by (auto simp: told_def same_services_def)
  then show ?case using Cons.IH [OF u(2)] by (intro told_twice [OF first]) (auto simp: refs)
qed

lemma find_loop_selects:
  "find_loop A props x m = Inr rs \<Longrightarrow> set rs = {r \<in> snd ` set m. evaluate A (props r) x = Inr True}"
proof (induction A props x m arbitrary: rs rule: find_loop.induct)
  case (2 A props x name r m)
  then obtain b qs where "evaluate A (props r) x = Inr b" "find_loop A props x m = Inr qs" "rs = (if b then r # qs else qs)"
    by (auto simp: map_sum_def split: sum.splits)
  then show ?case using 2 by auto
qed simp

text \<open>A listener whose constructor returns has parsed its query, looked for services and been told of each.\<close>

lemma create_returns:
  assumes "createListener E query s = Some (Inr l, t)"
  obtains x rs u where "l = rg_nextListener s" "qlParse (se_ql E) query = Some (Inr x)" "x \<noteq> QLNull"
    "u = s\<lparr>rg_nextListener := Suc l, rg_listeners := (rg_listeners s)(l \<mapsto> \<lparr>sl_expr = x, sl_refs = {}\<rparr>),
        rg_onRegistered := rg_onRegistered s @ [l], rg_onUnregistered := rg_onUnregistered s @ [l]\<rparr>"
    "find_loop (se_ql E) (\<lambda>r. sr_props (rg_refs s r)) x (rg_services s) = Inr rs"
    "p_each (\<lambda>r. onServiceRefRegistered E r l) rs u = Some (Inr (), t)"
proof -
  let ?s = "s\<lparr>rg_nextListener := Suc (rg_nextListener s)\<rparr>"
  have l: "l = rg_nextListener s" and init: "initListener E l query ?s = Some (Inr (), t)"
    using assms unfolding createListener_def Let_def p_seq_def by (auto elim!: p_bind_cases p_catch_cases)
  from init obtain x where x: "qlParse (se_ql E) query = Some (Inr x)"
    by (cases "qlParse (se_ql E) query"; cases "the (qlParse (se_ql E) query)")
      (auto simp: initListener_def parseQuery_def p_bind_def)
  let ?u = "?s\<lparr>rg_listeners := (rg_listeners s)(l \<mapsto> \<lparr>sl_expr = x, sl_refs = {}\<rparr>),
        rg_onRegistered := rg_onRegistered s @ [l], rg_onUnregistered := rg_onUnregistered s @ [l]\<rparr>"
  have rest: "p_bind (p_lift (derefExpr x)) (\<lambda>expr. p_bind (findExpr E expr) (p_each (\<lambda>r. onServiceRefRegistered E r l))) ?u = Some (Inr (), t)"
  proof -
    have parse: "parseQuery E query ?s = Some (Inr x, ?s)" using x by (simp add: parseQuery_def)
    show ?thesis using init by (simp add: initListener_def parse)
  qed
  have null: "x \<noteq> QLNull" using rest by (auto simp: derefExpr_def)
  then have "derefExpr x = Inr x" by (cases x) (simp_all add: derefExpr_def)
  with rest have "p_bind (findExpr E x) (p_each (\<lambda>r. onServiceRefRegistered E r l)) ?u = Some (Inr (), t)" by simp
  then obtain rs where "findExpr E x ?u = Some (Inr rs, ?u)" "p_each (\<lambda>r. onServiceRefRegistered E r l) rs ?u = Some (Inr (), t)"
    by (auto elim!: p_bind_cases simp: findExpr_def)
  then show thesis using that [OF l x null, of ?u rs] l by (simp add: findExpr_def)
qed

lemma create_ok:
  assumes "registry_ok E s" and "createListener E query s = Some (Inr l, t)"
  shows "registry_ok E t"
  using assms(2)
proof (cases rule: create_returns)
  case (1 x rs u)
  have inv: "registry_wf E s" "delegates_ok s" "owners_told s" "listeners_track E s" using assms(1) by (simp_all add: registry_ok_def)
  have fresh: "l \<notin> dom (rg_listeners s)" "l \<notin> set (rg_onRegistered s)" "owner_view l (rg_log s) = {}"
    using inv(2) 1(1) by (auto simp: delegates_ok_def intro!: owner_view_fresh)
  have u: "rg_services u = rg_services s" "rg_refs u = rg_refs s" "rg_log u = rg_log s" "rg_nextRef u = rg_nextRef s"
    "rg_listeners u = (rg_listeners s)(l \<mapsto> \<lparr>sl_expr = x, sl_refs = {}\<rparr>)" "rg_nextListener u = Suc l"
    "rg_onRegistered u = rg_onRegistered s @ [l]" "rg_onUnregistered u = rg_onUnregistered s @ [l]"
    by (simp_all add: 1(4))
  have ok: "registry_wf E u" "delegates_ok u" "owners_told u"
    using inv(1-3) fresh 1(1) by (auto simp: registry_wf_def delegates_ok_def owners_told_def u less_Suc_eq)
  let ?f = "\<lambda>L. sl_refs L \<union> {r \<in> set rs. evaluate (se_ql E) (sr_props (rg_refs u r)) (sl_expr L) = Inr True}"
  have told: "told ?f [l] u t" using 1(6) by (rule told_results) (simp add: u)
  have "selected E u x = set rs" using find_loop_selects [OF 1(5)] by (auto simp: selected_def u)
  then have mine: "?f \<lparr>sl_expr = x, sl_refs = {}\<rparr> = selected E u x" by (auto simp: selected_def)
  have "sl_refs M = selected E t (sl_expr M)" if M: "rg_listeners t k = Some M" for k M
  proof (cases "k = l")
    case True
    then have "M = \<lparr>sl_expr = x, sl_refs = selected E u x\<rparr>" using told M mine by (simp add: told_def u)
    then show ?thesis by (simp add: told_selected [OF told])
  next
    case False
    then have "rg_listeners s k = Some M" using told M by (simp add: told_def u)
    then have "sl_refs M = selected E s (sl_expr M)" using inv(4) by (simp add: listeners_track_def)
    then show ?thesis unfolding told_selected [OF told] by (simp add: selected_def u)
  qed
  moreover have "owners_told t" using told ok(3) by (simp add: told_def)
  ultimately show ?thesis
    using ok(1) told_wf [OF told] told_delegates [OF ok(2) told] by (simp add: registry_ok_def listeners_track_def)
qed

lemma destroy_ok:
  assumes "registry_ok E s" and "destroyListener l s = Some (Inr (), t)"
  shows "registry_ok E t"
proof -
  have t: "t = s\<lparr>rg_onRegistered := remove1 l (rg_onRegistered s), rg_onUnregistered := remove1 l (rg_onUnregistered s),
      rg_listeners := (rg_listeners s)(l := None)\<rparr>"
    using assms(2) by (simp add: destroyListener_def freeListener_def)
  show ?thesis
    using assms(1) unfolding registry_ok_def registry_wf_def delegates_ok_def owners_told_def listeners_track_def selected_def t
    by (auto simp: set_remove1_eq split: if_splits)
qed

lemma run_op_ok:
  assumes "registry_ok E s" "keys_laws E" and "run_op E oper s = Some (Inr (), t)"
  shows "registry_ok E t"
proof (cases oper)
  case (RegisterService name svc props)
  then obtain r where "registerService E name svc props s = Some (Inr r, t)"
    using assms(3) by (auto simp: p_seq_def elim!: p_bind_cases)
  then show ?thesis using register_ok assms(1,2) by blast
next
  case (UnregisterService name)
  then show ?thesis using assms unregister_ok by simp
next
  case (UnregisterServiceRef ref)
  then show ?thesis
    using assms by (cases ref) (auto simp: unregisterServiceRef_def intro: unregister_ok)
next
  case (CreateListener query)
  then obtain l where "createListener E query s = Some (Inr l, t)"
    using assms(3) by (auto simp: p_seq_def elim!: p_bind_cases)
  then show ?thesis using create_ok assms(1) by blast
next
  case (DestroyListener l)
  then show ?thesis using assms destroy_ok by simp
qed

lemma reach_ok: "registry_reach E s \<Longrightarrow> keys_laws E \<Longrightarrow> registry_ok E s"
proof (induction rule: registry_reach.induct)
  case start
  show ?case
    by (simp add: registry_ok_def registry_wf_def delegates_ok_def owners_told_def listeners_track_def newRegistry_def)
next
  case (step s oper t)
  then show ?case using run_op_ok by blast
qed

section \<open>What a query selects\<close>

text \<open>The meaning of a query on the properties of a service, and the queries whose evaluation cannot throw.\<close>

primrec meaning :: "'d ql_api \<Rightarrow> service_props \<Rightarrow> 'd ql_expr \<Rightarrow> bool" where
  "meaning A ps QLNull = False"
| "meaning A ps (QLAndExpr l r) = (meaning A ps l \<and> meaning A ps r)"
| "meaning A ps (QLOrExpr l r) = (meaning A ps l \<or> meaning A ps r)"
| "meaning A ps (QLNotExpr x) = (\<not> meaning A ps x)"
| "meaning A ps (QLExistsExpr p) = propsHas A ps p"
| "meaning A ps (QLEqExpr p v) = (eqImpl A ps p v = Inr True)"
| "meaning A ps (QLNeExpr p v) = (neImpl A ps p v = Inr True)"
| "meaning A ps (QLLtExpr p v) = (ltImpl A ps p v = Inr True)"
| "meaning A ps (QLLeExpr p v) = (leImpl A ps p v = Inr True)"
| "meaning A ps (QLGtExpr p v) = (gtImpl A ps p v = Inr True)"
| "meaning A ps (QLGeExpr p v) = (geImpl A ps p v = Inr True)"
| "meaning A ps (QLMatchExpr p pat) = (globMatch (qa_char A) pat (propsGetOr A ps p []) = Inr True)"
| "meaning A ps (QLMatchRegExpr p pat) = (qa_regExpMatch A pat (propsGetOr A ps p []) = Inr True)"

primrec cannot_throw :: "'d ql_api \<Rightarrow> 'd ql_expr \<Rightarrow> bool" where
  "cannot_throw A QLNull = False"
| "cannot_throw A (QLAndExpr l r) = (cannot_throw A l \<and> cannot_throw A r)"
| "cannot_throw A (QLOrExpr l r) = (cannot_throw A l \<and> cannot_throw A r)"
| "cannot_throw A (QLNotExpr x) = cannot_throw A x"
| "cannot_throw A (QLExistsExpr p) = True"
| "cannot_throw A (QLEqExpr p v) = True"
| "cannot_throw A (QLNeExpr p v) = True"
| "cannot_throw A (QLLtExpr p v) = True"
| "cannot_throw A (QLLeExpr p v) = True"
| "cannot_throw A (QLGtExpr p v) = True"
| "cannot_throw A (QLGeExpr p v) = True"
| "cannot_throw A (QLMatchExpr p pat) = (\<exists>is. list_all item_ok is \<and> pat = glob_text is)"
| "cannot_throw A (QLMatchRegExpr p pat) = (\<forall>s. \<exists>b. qa_regExpMatch A pat s = Inr b)"

text \<open>\<open>NumberParser\<close> reports its errors as exceptions of POCO.\<close>

definition number_errors :: "'d ql_api \<Rightarrow> bool" where
  "number_errors A \<longleftrightarrow> (\<forall>s m. qa_parse A s \<noteq> Inl (StdException m) \<and> qa_parseFloat A s \<noteq> Inl (StdException m))"

lemma relation_evaluates:
  assumes "number_errors A"
  shows "relEvaluate (compareProperty A f g h k ps p v) = Inr (compareProperty A f g h k ps p v = Inr True)"
  using assms
  by (cases v) (auto simp: relEvaluate_def compareProperty_def propsGetIntOr_def propsGetFloatOr_def number_errors_def map_sum_def
      split: sum.splits option.splits exc.splits)

lemma evaluate_meaning: "number_errors A \<Longrightarrow> cannot_throw A x \<Longrightarrow> evaluate A ps x = Inr (meaning A ps x)"
proof (induction x)
  case (QLMatchExpr p pat)
  then show ?case by (auto simp: globMatch_text)
next
  case (QLMatchRegExpr p pat)
  then obtain b where "qa_regExpMatch A pat (propsGetOr A ps p []) = Inr b" by auto
  then show ?case by simp
qed (auto simp: relation_evaluates eqImpl_def neImpl_def ltImpl_def leImpl_def gtImpl_def geImpl_def)

lemma find_loop_filter:
  "(\<And>k r. (k, r) \<in> set m \<Longrightarrow> evaluate A (props r) x = Inr (P k r)) \<Longrightarrow>
     find_loop A props x m = Inr (map snd (filter (\<lambda>(k, r). P k r) m))"
proof (induction A props x m rule: find_loop.induct)
  case (2 A props x name r m)
  have now: "evaluate A (props r) x = Inr (P name r)" using 2(2) by simp
  have "find_loop A props x m = Inr (map snd (filter (\<lambda>(k, r). P k r) m))" by (rule 2(1) [OF now]) (rule 2(2), simp)
  then show ?case using now by simp
qed simp

lemma find_parsed:
  assumes "qlParse (se_ql E) query = Some (Inr x)" "x \<noteq> QLNull"
    and "\<And>k r. (k, r) \<in> set (rg_services s) \<Longrightarrow> evaluate (se_ql E) (sr_props (rg_refs s r)) x = Inr (P k r)"
  shows "findQuery E query s = Some (Inr (map snd (filter (\<lambda>(k, r). P k r) (rg_services s))), s)"
proof -
  have "derefExpr x = Inr x" using assms(2) by (cases x) (simp_all add: derefExpr_def)
  moreover have "findExpr E x s = Some (Inr (map snd (filter (\<lambda>(k, r). P k r) (rg_services s))), s)"
    using find_loop_filter [OF assms(3)] by (simp add: findExpr_def)
  ultimately show ?thesis using assms(1) by (simp add: findQuery_def parseQuery_def)
qed

lemma filter_key: "distinct (map fst m) \<Longrightarrow> map snd (filter (\<lambda>(k, r). k = n) m) = (case map_of m n of None \<Rightarrow> [] | Some r \<Rightarrow> [r])"
proof (induction m)
  case (Cons kr m)
  obtain k r where kr: "kr = (k, r)" by (cases kr)
  show ?case
  proof (cases "k = n")
    case True
    then have "filter (\<lambda>(k, r). k = n) m = []" using Cons.prems kr by (force simp: filter_empty_conv)
    then show ?thesis using True kr by simp
  next
    case False
    then show ?thesis using Cons kr by simp
  qed
qed simp

text \<open>The query by name, as bundles write it.\<close>

definition name_query :: "string \<Rightarrow> string" where
  "name_query name = ''name == '' @ CHR 0x22 # name @ [CHR 0x22]"

lemma name_query_tokens:
  assumes "tokenizer_laws T" and "set name \<inter> {CHR 0x22, CHR 0x5C, CHR 0x0A, CHR 0x0D} = {}"
  shows "T (name_query name) = map Tok [id_token ''name'', op_token ''=='', string_token name]"
proof -
  have "concat (map quoted_char name) = name" using assms(2) by (induction name) (auto simp: quoted_char_def)
  then have q: "quoted_text name = CHR 0x22 # name @ [CHR 0x22]" by (simp add: quoted_text_def)
  have "stringLiteralLoop (name @ [CHR 0x22]) = Some (name @ [CHR 0x22], [])"
    using assms(2) by (induction name) auto
  then have "T (quoted_text name) = [Tok (string_token name)]"
    using assms(1) unfolding q tokenizer_laws_def
    by (simp add: scanToken_def operatorStart_def identifierStart_def in_range_def c_isspace_def stringLiteralFinish_def
        string_token_def q)
  moreover have "ql_identifier ''name''" by (simp add: ql_identifier_def identifierStart_def identifierChar_def in_range_def)
  ultimately have "T (tokens_text [id_token ''name'', op_token ''==''] @ quoted_text name) =
      map Tok [id_token ''name'', op_token ''==''] @ [Tok (string_token name)]"
    using tokens_then_text [OF assms(1)] by (simp add: lexable_identifier lexable_operators)
  then show ?thesis by (simp add: name_query_def tokens_text_def id_token_def q)
qed

section \<open>A concrete registry\<close>

definition sample_services :: "rat svc_env" where
  "sample_services =
     \<lparr>se_ql = sample_ql, se_typeName = (\<lambda>svc. ''Service''), se_isA = (\<lambda>svc t. True), se_createService = (\<lambda>svc. None),
      se_notify = (\<lambda>kind l r. None)\<rparr>"

lemma sample_services_simps [simp]:
  "se_ql sample_services = sample_ql" "se_notify sample_services kind l r = None"
  by (simp_all add: sample_services_def)

lemma sample_keys: "keys_laws sample_services"
  using sample_icompare_laws
  by (simp add: keys_laws_def PROP_NAME_def PROP_TYPE_def)
    (simp add: sample_ql_def sample_icompare_def c_tolower_def Let_def)

lemma sample_number_errors: "number_errors sample_ql"
  by (auto simp: number_errors_def sample_ql_def sample_number_def map_sum_def split: option.splits sum.splits)

lemma sample_exists: "qlParse sample_ql ''a'' = Some (Inr (QLExistsExpr ''a''))"
  by code_simp

lemma sample_parse_empty: "qlParse sample_ql [] = Some (Inr QLNull)"
  by code_simp

lemma sample_parse_bad_pattern: "qlParse sample_ql (''name =~ '' @ [CHR 0x22, CHR ''['', CHR 0x22]) = Some (Inr (QLMatchExpr ''name'' ''[''))"
  by code_simp

text \<open>A listener for the property \<open>a\<close>, and a service with this property.\<close>

lemma sample_history:
  "\<exists>s. registry_reach sample_services s \<and> map_of (rg_services s) ''x'' = Some 0 \<and> rg_services s = [(''x'', 0)] \<and>
     rg_listeners s 0 = Some \<lparr>sl_expr = QLExistsExpr ''a'', sl_refs = {0}\<rparr>"
proof -
  let ?L = "\<lparr>sl_expr = QLExistsExpr ''a'', sl_refs = {}\<rparr> :: rat service_listener"
  let ?s1 = "newRegistry\<lparr>rg_nextListener := 1, rg_listeners := [0 \<mapsto> ?L], rg_onRegistered := [0], rg_onUnregistered := [0]\<rparr> :: rat registry"
  have create: "run_op sample_services (CreateListener ''a'') newRegistry = Some (Inr (), ?s1)"
    by (simp add: createListener_def initListener_def parseQuery_def sample_exists derefExpr_def findExpr_def newRegistry_def)
  have a: "propsHas sample_ql (registered_props sample_services ''x'' 0 [(''a'', ''1'')]) ''a''"
    by code_simp
  let ?ref = "newServiceRef ''x'' (registered_props sample_services ''x'' 0 [(''a'', ''1'')]) (Some 0)"
  let ?s2 = "?s1\<lparr>rg_services := [(''x'', 0)], rg_refs := (rg_refs ?s1)(0 := ?ref), rg_nextRef := 1,
      rg_listeners := [0 \<mapsto> ?L\<lparr>sl_refs := {0}\<rparr>], rg_log := [(True, 0, 0)]\<rparr>"
  have "run_op sample_services (RegisterService ''x'' (Some 0) [(''a'', ''1'')]) ?s1 = Some (Inr (), ?s2)"
    using a by (simp add: registerService_def addService_def Let_def notifyRegistered_def onServiceRefRegistered_def setRefs_def
        notifyOwner_def newServiceRef_def newRegistry_def)
  from registry_reach.step [OF registry_reach.step [OF registry_reach.start create] this]
  show ?thesis by (intro exI [of _ ?s2]) simp
qed

section \<open>Properties of the registry\<close>

text \<open>C13: A query whose patterns are well formed is answered with the references of exactly those services on whose
  properties the query is true, in the order of their names, whatever the state of the registry; it never throws and
  changes nothing.
\<close>

theorem find_answers_query:
  assumes "tokenizer_laws (qa_tokens (se_ql E))" "number_laws (se_ql E)" "number_errors (se_ql E)"
    and "query_printable (se_ql E) x" "cannot_throw (se_ql E) x"
  shows "findQuery E (query_text x) s =
     Some (Inr (map snd (filter (\<lambda>(k, r). meaning (se_ql E) (sr_props (rg_refs s r)) x) (rg_services s))), s)"
proof (rule find_parsed)
  show "qlParse (se_ql E) (query_text x) = Some (Inr x)"
    by (rule parse_of_tokens [OF assms(2,4)]) (simp add: query_text_def tokens_of_text [OF assms(1)] lexable_expr [OF assms(4)])
  show "x \<noteq> QLNull" using assms(4) by auto
qed (rule evaluate_meaning [OF assms(3,5)])

theorem find_answers_query_witness:
  "let x = QLAndExpr (QLExistsExpr ''a'') (QLEqExpr ''n'' (VInt 7)) :: rat ql_expr in
   findQuery sample_services (query_text x) newRegistry = Some (Inr [], newRegistry)"
  using find_answers_query [of sample_services "QLAndExpr (QLExistsExpr ''a'') (QLEqExpr ''n'' (VInt 7))" newRegistry]
    sample_tokenizer sample_numbers sample_number_errors
  by (simp add: ql_identifier_def identifierStart_def in_range_def newRegistry_def)

text \<open>C38: In every history of registrations the query \<open>name == "X"\<close> finds the service registered under the name \<open>X\<close>, and
  nothing when there is none, even though the properties given at the registration may contain names of their own.
\<close>

theorem name_query_finds_service:
  assumes "registry_reach E s" "keys_laws E" "tokenizer_laws (qa_tokens (se_ql E))" "number_laws (se_ql E)"
    and "set name \<inter> {CHR 0x22, CHR 0x5C, CHR 0x0A, CHR 0x0D} = {}"
  shows "findQuery E (name_query name) s = Some (Inr (case map_of (rg_services s) name of None \<Rightarrow> [] | Some r \<Rightarrow> [r]), s)"
proof -
  let ?x = "QLEqExpr PROP_NAME (VString name)"
  have wf: "registry_wf E s" using reach_ok [OF assms(1,2)] by (simp add: registry_ok_def)
  have parse: "qlParse (se_ql E) (name_query name) = Some (Inr ?x)"
    using name_query_tokens [OF assms(3,5)] assms(4)
    by (intro parse_of_tokens) (simp_all add: PROP_NAME_def ql_identifier_def identifierStart_def identifierChar_def in_range_def)
  have "evaluate (se_ql E) (sr_props (rg_refs s r)) ?x = Inr (k = name)" if "(k, r) \<in> set (rg_services s)" for k r
    using registry_wfD(3) [OF wf that] by (simp add: eqImpl_def compareProperty_def propsGetOr_def relEvaluate_def)
  from find_parsed [OF parse _ this]
  have "findQuery E (name_query name) s = Some (Inr (map snd (filter (\<lambda>(k, r). k = name) (rg_services s))), s)" by simp
  also have "map snd (filter (\<lambda>(k, r). k = name) (rg_services s)) = (case map_of (rg_services s) name of None \<Rightarrow> [] | Some r \<Rightarrow> [r])"
    using wf by (intro filter_key) (simp add: registry_wf_def strict_sorted_iff)
  finally show ?thesis .
qed

theorem name_query_finds_service_witness:
  "\<exists>s. registry_reach sample_services s \<and> findQuery sample_services (name_query ''x'') s = Some (Inr [0], s)"
proof -
  obtain s where s: "registry_reach sample_services s" "map_of (rg_services s) ''x'' = Some 0" using sample_history by blast
  have "findQuery sample_services (name_query ''x'') s = Some (Inr [0], s)"
    using name_query_finds_service [OF s(1) sample_keys, of "''x''"] s(2) sample_tokenizer sample_numbers by simp
  then show ?thesis using s(1) by blast
qed





text \<open>C39: A listener whose query has no expression, such as the empty query, is not created: the constructor throws on the
  null pointer - but only after it has added its delegates, which its destructor, never run, would remove; the next
  registration calls them on freed memory.
\<close>

theorem failed_listener_leaves_delegate:
  assumes "qlParse (se_ql E) query = Some (Inr QLNull)"
  shows "\<exists>t. createListener E query s = Some (Inl nullPointer, t) \<and>
     rg_onRegistered t = rg_onRegistered s @ [rg_nextListener s] \<and> rg_listeners t (rg_nextListener s) = None \<and>
     (rg_onRegistered s = [] \<longrightarrow> map_of (rg_services s) name = None \<longrightarrow> registerService E name (Some svc) props t = None)"
proof -
  let ?l = "rg_nextListener s"
  let ?t = "s\<lparr>rg_nextListener := Suc ?l, rg_onRegistered := rg_onRegistered s @ [?l],
      rg_onUnregistered := rg_onUnregistered s @ [?l], rg_listeners := (rg_listeners s)(?l := None)\<rparr>"
  have "createListener E query s = Some (Inl nullPointer, ?t)"
    using assms by (simp add: createListener_def Let_def initListener_def parseQuery_def derefExpr_def freeListener_def)
  moreover have "registerService E name (Some svc) props ?t = None"
    if "rg_onRegistered s = []" "map_of (rg_services s) name = None"
    using that by (simp add: registerService_def addService_def Let_def notifyRegistered_def onServiceRefRegistered_def)
  ultimately show ?thesis by (intro exI [of _ ?t]) simp
qed

theorem failed_listener_leaves_delegate_witness:
  "\<exists>t. createListener sample_services [] newRegistry = Some (Inl nullPointer, t) \<and>
     registerService sample_services ''x'' (Some 0) [] t = None"
  using failed_listener_leaves_delegate [of sample_services "[]" newRegistry "''x''" 0 "[]"] sample_parse_empty
  by (auto simp: newRegistry_def)

end
