(* ===== verification/Spec2Isabelle.thy ===== *)
theory Spec2Isabelle
  imports AgentStream FrameQueue WatcherSafety AcquisitionWeb ServiceRegistry
begin

text \<open>
  A verification development for MyIoT: the acquisition agent that samples the analogue inputs of a
  JNDM123 board, the bundle framework in which its services run, and the web side through which users sign in and command the agent.

  \<^bold>\<open>The program.\<close> Two processes matter here. The agent (src/services/JNDM123AcquisitionAgent/src) owns the hardware: it
  programs the clock generator over I2C, reads sampled frames from a memory-mapped FIFO in one thread, hands them to a publisher
  thread through a queue, and that thread sends them over UDP. A JSON message over DDS controls it, and it answers every message with a
  snapshot of its state. The server is a host of bundles (src/platform/OSP): archives with a manifest, a
  shared library and requirements on other bundles. The loader resolves, starts and stops them in the order their
  requirements demand; the repository maps a directory of archives to bundles and installs new ones; the bundle watcher
  (src/services/BundleWatcher/src) reacts to archives that appear in and vanish from that directory. Two bundles of the user interface
  matter here: the launcher (src/webUI/Launcher/src) signs users in, over the session manager of src/platform/OSP/Web; the
  acquisition pages (src/webUI/JNDM123/AD7606/src) check the session of a request, send commands to the agent over DDS, wait for its answer
  and show its snapshots. They also start the agent's process when it is missing.

  \<^bold>\<open>The theories, in the order they build on each other.\<close>
  \<^item> Prelude: exceptions as values, computations on a state that may throw (type io, combinators \<open>io_bind\<close> and so on),
    statements that may also not return (type prog, where None is a call that does not come back), lists and masks.
    CppText: std::stoi, std::stoull and their strict wrappers, decimal output, words and lines. PocoApi: the record of POCO functions
    the code calls, JSON documents.
  \<^item> DividerConfig (AcquisitionDivider.h, AcquisitionDividerState.cpp): constants, the state file, validation of requests, the check of
    the clocks. Cdce937 (AcquisitionDivider.cpp): probing, register access, the write of an output's dividers, apply and restore over an
    abstract I2C bus. Cdce937\_Chip: the same operations on a chip that is a register file, with what each leaves in
    the registers.
  \<^item> AgentSupport (AcquisitionAgentSupport): environment variables and GPIO. UdpStream (AcquisitionUdpStream): settings, packet format,
    batching, statistics; a receiver written here reads the packets back. Frames, Fifo, AgentRuntime (AcquisitionRuntime): frames and
    their bounded history, the FIFO registers, and every operation of the class, one definition per member
    function; AgentControl, AgentCommands and AgentStream prove what start, stop, apply and the streaming of a batch do. FrameQueue (the two
    thread loops of the same file): interleaved steps of reader, publisher and controlling thread.
    DdsMessage (AcquisitionDdsJsonMessage): life cycle of the DDS endpoints.
  \<^item> OspVersion (Version.cpp, VersionRange.cpp), OspManifest (BundleManifest.cpp), OspCache (CodeCache.cpp), OspLoader (Bundle.cpp,
    BundleLoader.cpp, BundleFactory.cpp): bundles are a heap, indexed by identity as the code's shared pointers are, and the loader's map
    from symbolic name to entry is an association list in the order of std::map. OspResolve and OspLifecycle prove resolving, starting, stopping;
    OspRepository (BundleRepository.cpp, BundleInstallerService.cpp) loads, installs and replaces. BundleWatcher (BundleWatcherService.cpp) is the
    service on top, WatcherSafety what it never does to itself.
  \<^item> WebSession (WebSession.cpp, WebSessionManager.cpp): sessions are a heap of objects; the manager finds them by cookie in a cache that
    expires them. Launcher (AuthRequestHandler.cpp, SessionJSON.cpp): login, logout and the session page as changes of the sessions and
    of the response. AcquisitionBridge (JNDM123Support.cpp, JNDM123AgentManager.cpp, JNDM123DdsBridge.cpp): payloads, the agent's
    process, snapshots received and commands sent; its proofs use the agent's own definitions at the other end of the topic. AcquisitionWeb
    (JNDM123Runtime.cpp, JNDM123RequestHandler.cpp): forms, commands and the two request handlers, on top of the launcher and the bridge.
  \<^item> ServiceQuery (QLTokens.cpp, QLParser.cpp, QLExpr.cpp, Properties.cpp): the language in which bundles look for services: token rules over
    the text, the recursive-descent parser over tokens, expressions, the pattern matcher, properties with keys compared without case. QueryLaws proves
    the laws of the language. ServiceRegistry (ServiceRegistry.cpp, ServiceRef.cpp, ServiceListener.cpp, ServiceFinder.h): references and listeners
    are a heap of objects, the delegates of the two events lists of listeners, and histories of operations an inductive relation.

  \<^bold>\<open>What is shown.\<close>
  \<^item> Dividers: a saved configuration is read back as it was, what is read is valid, an applied request reads back from the
    chip and survives a restart, a rejected one touches nothing, and the clock check accepts exactly the safe divider sets.
  \<^item> Acquisition: after stop and at the end of the life of an agent the hardware is released; every command is acknowledged; an unsafe
    clock never starts; start and stop are described on every path; history is the last samples; a batch is
    streamed in order; packets decode to what was sent.
  \<^item> Threads: frames are conserved and keep their order in every interleaving, the depth stays bounded within a session, and the two races of
    the depth counter are exhibited as runs.
  \<^item> Bundles: resolving all bundles returns and computes the least set closed under the requirements; on every path resolved
    bundles have their requirements loaded and in range; dependents stop before what they depend on;
    starting keeps active bundles on active ones. The repository loads the highest version of each bundle; an install
    happens wholly or not at all, a replacement does not.
  \<^item> Watcher: a payload is accepted only from a file that was seen unchanged; no sequence of events in the directories stops, replaces or unloads the bundle the watcher itself
    runs in or a bundle of the web interface; an upgrade under a new file name is undone by the removal of the old file.
  \<^item> Users: whoever the session page takes for a user has logged in, from the same host when addresses are verified; a login
    opens a session that lasts until it expires and a logout or a refused login ends it; only requests of such users reach the agent, all others get
    401 and change nothing.
  \<^item> Commands from the page: what the page accepts the agent decodes as it was meant; what the agent measured the page reads back. The
    bridge shows the newest snapshot and keeps at most sixty. A command returns the first sufficient snapshot in time or a failure; that
    a failed command may be shown as a success and that an old snapshot may answer a new command are proved as such.
  \<^item> Services: the parser of queries always returns and reads back the text of every expression; patterns match what their items say; a
    query finds exactly the services it is true of; a listener tracks its query through every history. That a listener with a bad pattern
    breaks the registration of services, and that a listener that could not be created leaves its delegates behind, are proved as such.
  \<^item> Hangs are values: a manifest that never parses, bundles that extend each other and a shutdown after an unload are proved to have the result
    None, next to the theorems that the same operations return elsewhere.

  \<^bold>\<open>Loops and fuel.\<close> Loops over data are structural recursion. Calls that recurse through the heap of bundles (resolve, start) carry a
  depth; it is given as one more than the number of loaded bundles, and \<open>resolve_returns\<close> and \<open>starting_a_bundle\<close>
  prove that this is enough, so None means that no depth is. The loops of the manifest parser and of sortBundles
  stop with None exactly when a pass makes no progress, which the code repeats for ever. The query parser carries
  a depth too: \<open>parse_bound\<close>, three times the number of tokens plus five, is enough by \<open>query_parse_returns\<close>. The wait for an answer
  is over a list of looks, with the messages that arrive before each: as many as the clock allows before the deadline. The
  attempts to read a payload are bounded by retryCount as in the code. Loops of the driver and the FIFO count down as in the source and \<open>fifo_loops_end\<close> gives their number of passes.

  \<^bold>\<open>What the model takes from outside.\<close> POCO, Fast-DDS, zip and XML readers, dynamic loading, the file system and the kernel's I2C, GPIO and memory
  interfaces, the session cache and store and the authentication service are records of functions (poco, \<open>i2c_bus\<close>, mmio, dds, \<open>path_api\<close>,
  \<open>osp_env\<close>, \<open>watcher_env\<close>, \<open>cache_api\<close>, \<open>launcher_env\<close>, \<open>bridge_env\<close>, \<open>ql_api\<close>, \<open>svc_env\<close>) that every definition
  takes as an argument. Laws about them are named predicates (\<open>path_laws\<close>, \<open>sorts\<close> and others), with sample functions for which they
  are proved. Calls to the outside may throw POCO exceptions. Activators and event handlers do not call back into the loader while it runs, nor owners of
  listeners into the registry. A call through a pointer to freed memory has no result (None). std::sort is a
  function returning a sorted permutation. A web request is handled at one instant, and the two tokens of a new session are drawn in the order in which
  they are written, which C++ leaves open. Mutexes are held for whole operations and left out, except between the threads of the frame queue, where each
  access to an atomic is a step. Branches for Windows, log texts and telemetry are left out. Machine integers keep their width
  where they can wrap: registers, packets, frame counters, the depth counter.

  \<^bold>\<open>Not modelled.\<close> Preferences, extension points and the zip and directory readers of
  bundles; the dispatcher of the web server; the other pages (home, configuration, monitor, logs) and the process console, which print what the
  operating system and the files say; the process entry points; web tunnel, telemetry, serial, geography, the remoting code generator. They are
  independent of the parts above or glue over libraries. No session store is part of the repository, so the theorems about sessions are about
  sessions in memory; the calls to a store are modelled. The JavaScript engine is vendored code.
\<close>

end
